(* ===== verification/Sim_Prelude.thy ===== *)
theory Sim_Prelude
  imports Main "HOL-Library.AList"
begin

text \<open>
  Shared vocabulary of the development: results that may carry an error, stateful computations
  that may also fail to return, and the generic list lemmas the component theories use.

  \<^item> A synchronous function that may throw is a value of the sum type \<open>'e + 'a\<close>: \<open>Inl e\<close> is the
    exception that leaves the function, \<open>Inr a\<close> its return value.
  \<^item> An asynchronous function that talks to the outside is a value of type \<open>('w, 'e, 'a) io\<close>: it
    takes the world, and gives \<open>None\<close> where the source never settles, else the result and the
    new world.
\<close>

named_theorems res_simps \<open>rewriting of results and of stateful computations\<close>
named_theorems model_defs \<open>definitions that are unfolded to run the model on a concrete input\<close>

type_synonym ('w, 'e, 'a) io = "'w \<Rightarrow> (('e + 'a) \<times> 'w) option"

section \<open>Results\<close>

definition bind_res :: "'e + 'a \<Rightarrow> ('a \<Rightarrow> 'e + 'b) \<Rightarrow> 'e + 'b" where
  "bind_res m f = (case m of Inl e \<Rightarrow> Inl e | Inr a \<Rightarrow> f a)"

lemma bind_res_simps [simp]:
  "bind_res (Inl e) f = Inl e"
  "bind_res (Inr a) f = f a"
  by (simp_all add: bind_res_def)

lemma bind_res_eq_Inr [res_simps]:
  "bind_res m f = Inr b \<longleftrightarrow> (\<exists>a. m = Inr a \<and> f a = Inr b)"
  by (cases m) auto

lemma bind_res_eq_Inl [res_simps]:
  "bind_res m f = Inl e \<longleftrightarrow> m = Inl e \<or> (\<exists>a. m = Inr a \<and> f a = Inl e)"
  by (cases m) auto

lemma bind_res_assoc: "bind_res (bind_res m f) g = bind_res m (\<lambda>x. bind_res (f x) g)"
  by (cases m) auto

text \<open>A \<open>for\<close> loop over a list that carries an accumulator and stops at the first throw.\<close>

fun fold_res :: "('x \<Rightarrow> 'a \<Rightarrow> 'e + 'a) \<Rightarrow> 'x list \<Rightarrow> 'a \<Rightarrow> 'e + 'a" where
  "fold_res f [] a = Inr a"
| "fold_res f (x # xs) a = bind_res (f x a) (fold_res f xs)"

lemma fold_res_append:
  "fold_res f (xs @ ys) a = bind_res (fold_res f xs a) (fold_res f ys)"
  by (induction xs arbitrary: a) (auto simp: bind_res_assoc fun_eq_iff intro!: arg_cong2 [of _ _ _ _ bind_res])

text \<open>A loop invariant: what every iteration that does not throw keeps holds at the end.\<close>

lemma fold_res_invariant:
  assumes "fold_res f xs a = Inr b" and "I a"
    and "\<And>x a a'. x \<in> set xs \<Longrightarrow> I a \<Longrightarrow> f x a = Inr a' \<Longrightarrow> I a'"
  shows "I b"
  using assms
proof (induction xs arbitrary: a)
  case Nil
  then show ?case by simp
next
  case (Cons x xs)
  from Cons.prems(1) obtain a' where a': "f x a = Inr a'" "fold_res f xs a' = Inr b"
    by (auto simp: res_simps)
  have "I a'" using Cons.prems(2) a'(1) by (rule Cons.prems(3) [rotated]) simp
  then show ?case using a'(2) Cons.prems(3) by (intro Cons.IH [of a']) auto
qed

section \<open>Stateful computations\<close>

definition return_io :: "'a \<Rightarrow> ('w, 'e, 'a) io" where
  "return_io a w = Some (Inr a, w)"

definition throw_io :: "'e \<Rightarrow> ('w, 'e, 'a) io" where
  "throw_io e w = Some (Inl e, w)"

definition lift_io :: "'e + 'a \<Rightarrow> ('w, 'e, 'a) io" where
  "lift_io r w = Some (r, w)"

definition bind_io :: "('w, 'e, 'a) io \<Rightarrow> ('a \<Rightarrow> ('w, 'e, 'b) io) \<Rightarrow> ('w, 'e, 'b) io" where
  "bind_io m f w =
     (case m w of
        None \<Rightarrow> None
      | Some (Inl e, w') \<Rightarrow> Some (Inl e, w')
      | Some (Inr a, w') \<Rightarrow> f a w')"

text \<open>\<open>try { m } catch (e) { h(e) }\<close>.\<close>

definition catch_io :: "('w, 'e, 'a) io \<Rightarrow> ('e \<Rightarrow> ('w, 'f, 'a) io) \<Rightarrow> ('w, 'f, 'a) io" where
  "catch_io m h w =
     (case m w of
        None \<Rightarrow> None
      | Some (Inl e, w') \<Rightarrow> h e w'
      | Some (Inr a, w') \<Rightarrow> Some (Inr a, w'))"

lemma io_simps [simp]:
  "bind_io (return_io a) f w = f a w"
  "bind_io (throw_io e) f w = Some (Inl e, w)"
  "bind_io (lift_io (Inr a)) f w = f a w"
  "bind_io (lift_io (Inl e)) f w = Some (Inl e, w)"
  "return_io a w = Some (Inr a, w)"
  "throw_io e w = Some (Inl e, w)"
  "lift_io r w = Some (r, w)"
  by (simp_all add: bind_io_def return_io_def throw_io_def lift_io_def)

lemma bind_io_eq_Inr [res_simps]:
  "bind_io m f w = Some (Inr b, w2) \<longleftrightarrow>
     (\<exists>a w1. m w = Some (Inr a, w1) \<and> f a w1 = Some (Inr b, w2))"
  by (auto simp: bind_io_def split: option.splits sum.splits)

lemma bind_io_eq_Inl [res_simps]:
  "bind_io m f w = Some (Inl e, w2) \<longleftrightarrow>
     m w = Some (Inl e, w2) \<or> (\<exists>a w1. m w = Some (Inr a, w1) \<and> f a w1 = Some (Inl e, w2))"
  by (auto simp: bind_io_def split: option.splits sum.splits)

lemma bind_io_eq_None [res_simps]:
  "bind_io m f w = None \<longleftrightarrow>
     m w = None \<or> (\<exists>a w1. m w = Some (Inr a, w1) \<and> f a w1 = None)"
  by (auto simp: bind_io_def split: option.splits sum.splits)

text \<open>To run a computation on a concrete input, one evaluates a case distinction on its result.\<close>

lemma case_returned:
  assumes "(case x of Some (Inr a, w) \<Rightarrow> P a w | _ \<Rightarrow> False)"
  shows "\<exists>a w. x = Some (Inr a, w) \<and> P a w"
proof (cases x)
  case None
  with assms show ?thesis by simp
next
  case (Some y)
  with assms show ?thesis by (cases y; cases "fst y") auto
qed

section \<open>Lists\<close>

lemma distinct_subset_length_eq:
  assumes "distinct xs" and "set xs \<subseteq> set ys" and "length ys \<le> length xs"
  shows "set xs = set ys"
proof -
  have "card (set ys) \<le> length ys" by (rule card_length)
  also have "\<dots> \<le> card (set xs)" using assms(1,3) by (simp add: distinct_card)
  finally show ?thesis using assms(2) by (intro card_seteq) auto
qed

lemma filter_length_1_iff: "length (filter P xs) = 1 \<longleftrightarrow> (\<exists>x. filter P xs = [x])"
  by (simp add: length_Suc_conv)

lemma filter_singleton_mem: "filter P xs = [x] \<Longrightarrow> x \<in> set xs \<and> P x"
  by (metis filter_eq_ConsD in_set_conv_decomp)

lemma map_of_filter_fst: "map_of (filter (P \<circ> fst) kvs) k = (if P k then map_of kvs k else None)"
  by (induction kvs) auto

end
