(* ===== verification/Js_Runtime.thy ===== *)
theory Js_Runtime
  imports Sim_Prelude "HOL-Library.Word"
begin

text \<open>
  The part of the JavaScript language and of Node's standard library that the TypeScript sources
  use: string slicing and searching, decimal and hexadecimal numbers, plain objects, \<open>Buffer\<close>,
  JSON values, and the form encoding of \<open>URLSearchParams\<close>.

  A JavaScript string is a list of characters. HOL characters are bytes, so the model covers
  strings of code units below 256; a literal of the sources with a wider character is written as
  its UTF-8 bytes. Numbers of the sources that stay below \<open>2 ^ 53\<close> are exact and are \<open>int\<close> or
  \<open>nat\<close> here; \<open>NaN\<close> is \<open>None\<close>, and so is \<open>undefined\<close>.
\<close>

type_synonym byte = "8 word"
type_synonym 'v obj = "(string \<times> 'v) list"

section \<open>Strings and arrays\<close>

text \<open>\<open>slice\<close> reads a negative index from the end and clamps an index that is out of range.\<close>

definition js_index :: "int \<Rightarrow> nat \<Rightarrow> nat" where
  "js_index i n = (if i < 0 then nat (int n + i) else min (nat i) n)"

definition js_slice :: "'a list \<Rightarrow> int \<Rightarrow> int \<Rightarrow> 'a list" where
  "js_slice xs lo hi =
     take (js_index hi (length xs) - js_index lo (length xs)) (drop (js_index lo (length xs)) xs)"

definition js_slice_from :: "'a list \<Rightarrow> int \<Rightarrow> 'a list" where
  "js_slice_from xs lo = drop (js_index lo (length xs)) xs"

definition js_startsWith :: "'a list \<Rightarrow> 'a list \<Rightarrow> bool" where
  "js_startsWith xs p \<longleftrightarrow> take (length p) xs = p"

fun js_includes :: "'a list \<Rightarrow> 'a list \<Rightarrow> bool" where
  "js_includes [] p = (p = [])"
| "js_includes (x # xs) p = (js_startsWith (x # xs) p \<or> js_includes xs p)"

text \<open>\<open>split(sep)\<close> for a non-empty separator, and \<open>join(sep)\<close>.\<close>

function js_split_from :: "'a list \<Rightarrow> 'a list \<Rightarrow> 'a list \<Rightarrow> 'a list list" where
  "js_split_from sep acc [] = [rev acc]"
| "js_split_from sep acc (x # xs) =
     (if sep \<noteq> [] \<and> js_startsWith (x # xs) sep
      then rev acc # js_split_from sep [] (drop (length sep) (x # xs))
      else js_split_from sep (x # acc) xs)"
  by pat_completeness auto
termination
  by (relation "measure (\<lambda>(sep, acc, xs). length xs)") auto

definition js_split :: "'a list \<Rightarrow> 'a list \<Rightarrow> 'a list list" where
  "js_split xs sep = js_split_from sep [] xs"

fun js_join :: "'a list \<Rightarrow> 'a list list \<Rightarrow> 'a list" where
  "js_join sep [] = []"
| "js_join sep [x] = x"
| "js_join sep (x # xs) = x @ sep @ js_join sep xs"

text \<open>\<open>replace\<close> with a string pattern replaces its first occurrence.\<close>

fun js_replace_first :: "'a list \<Rightarrow> 'a list \<Rightarrow> 'a list \<Rightarrow> 'a list" where
  "js_replace_first [] p r = (if p = [] then r else [])"
| "js_replace_first (x # xs) p r =
     (if js_startsWith (x # xs) p then r @ drop (length p) (x # xs)
      else x # js_replace_first xs p r)"

text \<open>\<open>replace(/^p/, '')\<close> and \<open>replace(/c$/, '')\<close>.\<close>

definition strip_prefix :: "string \<Rightarrow> string \<Rightarrow> string" where
  "strip_prefix s p = (if js_startsWith s p then drop (length p) s else s)"

definition strip_last :: "string \<Rightarrow> char \<Rightarrow> string" where
  "strip_last s c = (if s \<noteq> [] \<and> last s = c then butlast s else s)"

definition is_ws :: "char \<Rightarrow> bool" where
  "is_ws c \<longleftrightarrow> c \<in> {CHR 0x20, CHR 0x09, CHR 0x0A, CHR 0x0B, CHR 0x0C, CHR 0x0D, CHR 0xA0}"

definition trim_start :: "string \<Rightarrow> string" where
  "trim_start s = dropWhile is_ws s"

definition trim :: "string \<Rightarrow> string" where
  "trim s = rev (trim_start (rev (trim_start s)))"

definition lower_char :: "char \<Rightarrow> char" where
  "lower_char c = (let n = (of_char c :: nat) in if 65 \<le> n \<and> n \<le> 90 then char_of (n + 32) else c)"

definition toLowerCase :: "string \<Rightarrow> string" where
  "toLowerCase s = map lower_char s"

abbreviation js_repeat :: "char \<Rightarrow> nat \<Rightarrow> string" where
  "js_repeat c n \<equiv> replicate n c"

section \<open>Numbers\<close>

definition digit_char :: "nat \<Rightarrow> char" where
  "digit_char d = char_of (48 + d)"

fun show_nat :: "nat \<Rightarrow> string" where
  "show_nat n = (if n < 10 then [digit_char n] else show_nat (n div 10) @ [digit_char (n mod 10)])"

declare show_nat.simps [simp del]

definition show_int :: "int \<Rightarrow> string" where
  "show_int i = (if i < 0 then CHR ''-'' # show_nat (nat (- i)) else show_nat (nat i))"

definition show_number :: "int option \<Rightarrow> string" where
  "show_number n = (case n of None \<Rightarrow> ''NaN'' | Some i \<Rightarrow> show_int i)"

definition digit_val :: "char \<Rightarrow> nat option" where
  "digit_val c =
     (let n = (of_char c :: nat) in
      if 48 \<le> n \<and> n \<le> 57 then Some (n - 48)
      else if 65 \<le> n \<and> n \<le> 90 then Some (n - 55)
      else if 97 \<le> n \<and> n \<le> 122 then Some (n - 87)
      else None)"

definition is_digit_in :: "nat \<Rightarrow> char \<Rightarrow> bool" where
  "is_digit_in radix c = (case digit_val c of None \<Rightarrow> False | Some d \<Rightarrow> d < radix)"

definition digits_val :: "nat \<Rightarrow> string \<Rightarrow> nat" where
  "digits_val radix ds = foldl (\<lambda>acc c. acc * radix + the (digit_val c)) 0 ds"

text \<open>\<open>parseInt(s, radix)\<close>: the longest numeric prefix after blanks, a sign and, in base 16, \<open>0x\<close>.\<close>

definition js_parseInt :: "nat \<Rightarrow> string \<Rightarrow> int option" where
  "js_parseInt radix s =
     (let t = trim_start s;
          neg = js_startsWith t ''-'';
          u = (if js_startsWith t ''-'' \<or> js_startsWith t ''+'' then drop 1 t else t);
          v = (if radix = 16 \<and> (js_startsWith u ''0x'' \<or> js_startsWith u ''0X'') then drop 2 u else u);
          ds = takeWhile (is_digit_in radix) v
      in if ds = [] then None
         else Some ((if neg then - 1 else 1) * int (digits_val radix ds)))"

section \<open>Buffers\<close>

definition hex_val :: "char \<Rightarrow> nat option" where
  "hex_val c = (if is_digit_in 16 c then digit_val c else None)"

text \<open>\<open>Buffer.from(s, 'hex')\<close> stops before the first pair that is not two hexadecimal digits.\<close>

fun buffer_from_hex :: "string \<Rightarrow> byte list" where
  "buffer_from_hex (a # b # cs) =
     (case (hex_val a, hex_val b) of
        (Some x, Some y) \<Rightarrow> of_nat (16 * x + y) # buffer_from_hex cs
      | _ \<Rightarrow> [])"
| "buffer_from_hex _ = []"

text \<open>\<open>readUInt16BE(0)\<close>: \<open>None\<close> is the \<open>RangeError\<close> of a buffer that is too short.\<close>

definition readUInt16BE :: "byte list \<Rightarrow> nat option" where
  "readUInt16BE bs = (case bs of a # b # _ \<Rightarrow> Some (unat a * 256 + unat b) | _ \<Rightarrow> None)"

section \<open>Plain objects\<close>

text \<open>
  A plain object is the list of its own entries in enumeration order. Assignment overwrites an
  entry in place and appends a new one. The keys of the sources are source names, library and
  contract names and network names, none of them integer-like or a name of
  \<open>Object.prototype\<close>.
\<close>

definition obj_get :: "'v obj \<Rightarrow> string \<Rightarrow> 'v option" where
  "obj_get ob = map_of ob"

definition obj_set :: "string \<Rightarrow> 'v \<Rightarrow> 'v obj \<Rightarrow> 'v obj" where
  "obj_set k v ob = AList.update k v ob"

definition obj_has :: "'v obj \<Rightarrow> string \<Rightarrow> bool" where
  "obj_has ob k \<longleftrightarrow> obj_get ob k \<noteq> None"

definition obj_keys :: "'v obj \<Rightarrow> string list" where
  "obj_keys ob = map fst ob"

definition obj_values :: "'v obj \<Rightarrow> 'v list" where
  "obj_values ob = map snd ob"

definition obj_wf :: "'v obj \<Rightarrow> bool" where
  "obj_wf ob \<longleftrightarrow> distinct (obj_keys ob)"

section \<open>JSON\<close>

datatype json =
    JNull
  | JBool bool
  | JNum int
  | JStr string
  | JArr "json list"
  | JObj "(string \<times> json) list"

definition hex_digit :: "nat \<Rightarrow> char" where
  "hex_digit d = (if d < 10 then char_of (48 + d) else char_of (87 + d))"

definition escape_char :: "char \<Rightarrow> string" where
  "escape_char c =
     (if c = CHR 0x22 then [CHR 0x5C, CHR 0x22]
      else if c = CHR 0x5C then [CHR 0x5C, CHR 0x5C]
      else if c = CHR 0x08 then [CHR 0x5C, CHR ''b'']
      else if c = CHR 0x0C then [CHR 0x5C, CHR ''f'']
      else if c = CHR 0x0A then [CHR 0x5C, CHR ''n'']
      else if c = CHR 0x0D then [CHR 0x5C, CHR ''r'']
      else if c = CHR 0x09 then [CHR 0x5C, CHR ''t'']
      else if (of_char c :: nat) < 32
        then [CHR 0x5C, CHR ''u'', CHR ''0'', CHR ''0'', hex_digit (of_char c div 16), hex_digit (of_char c mod 16)]
      else [c])"

definition quote_string :: "string \<Rightarrow> string" where
  "quote_string s = CHR 0x22 # concat (map escape_char s) @ [CHR 0x22]"

fun JSON_stringify :: "json \<Rightarrow> string" where
  "JSON_stringify JNull = ''null''"
| "JSON_stringify (JBool b) = (if b then ''true'' else ''false'')"
| "JSON_stringify (JNum n) = show_int n"
| "JSON_stringify (JStr s) = quote_string s"
| "JSON_stringify (JArr xs) = ''['' @ js_join '','' (map JSON_stringify xs) @ '']''"
| "JSON_stringify (JObj kvs) =
     CHR 0x7B # js_join '','' (map (\<lambda>kv. quote_string (fst kv) @ '':'' @ JSON_stringify (snd kv)) kvs) @ [CHR 0x7D]"

section \<open>URLSearchParams\<close>

text \<open>
  The \<open>application/x-www-form-urlencoded\<close> serializer: letters, digits and \<open>*-._\<close> stand for
  themselves, a blank is \<open>+\<close>, and any other byte is a percent sign and two hexadecimal digits.
\<close>

definition upper_hex_digit :: "nat \<Rightarrow> char" where
  "upper_hex_digit d = (if d < 10 then char_of (48 + d) else char_of (55 + d))"

definition is_alnum :: "char \<Rightarrow> bool" where
  "is_alnum c =
     (let n = (of_char c :: nat) in
      48 \<le> n \<and> n \<le> 57 \<or> 65 \<le> n \<and> n \<le> 90 \<or> 97 \<le> n \<and> n \<le> 122)"

definition form_safe :: "char \<Rightarrow> bool" where
  "form_safe c \<longleftrightarrow> is_alnum c \<or> c \<in> {CHR ''*'', CHR ''-'', CHR ''.'', CHR ''_''}"

definition form_encode_char :: "char \<Rightarrow> string" where
  "form_encode_char c =
     (if form_safe c then [c]
      else if c = CHR '' '' then ''+''
      else [CHR ''%'', upper_hex_digit (of_char c div 16), upper_hex_digit (of_char c mod 16)])"

definition form_encode :: "string \<Rightarrow> string" where
  "form_encode s = concat (map form_encode_char s)"

definition URLSearchParams_toString :: "(string \<times> string) list \<Rightarrow> string" where
  "URLSearchParams_toString ps =
     js_join ''&'' (map (\<lambda>(k, v). form_encode k @ ''='' @ form_encode v) ps)"

text \<open>\<open>url.search = q\<close> replaces the query of the URL and keeps its fragment.\<close>

definition url_set_search :: "string \<Rightarrow> string \<Rightarrow> string" where
  "url_set_search url q =
     takeWhile (\<lambda>c. c \<noteq> CHR ''?'' \<and> c \<noteq> CHR ''#'') url @ (if q = [] then [] else CHR ''?'' # q)
     @ dropWhile (\<lambda>c. c \<noteq> CHR ''#'') url"

text \<open>The parser the receiver of a form runs, from the URL standard.\<close>

function form_decode :: "string \<Rightarrow> string" where
  "form_decode [] = []"
| "form_decode (c # cs) =
     (if c = CHR ''+'' then CHR '' '' # form_decode cs
      else if c = CHR ''%'' \<and> 2 \<le> length cs \<and> hex_val (cs ! 0) \<noteq> None \<and> hex_val (cs ! 1) \<noteq> None
        then char_of (16 * the (hex_val (cs ! 0)) + the (hex_val (cs ! 1))) # form_decode (drop 2 cs)
      else c # form_decode cs)"
  by pat_completeness auto
termination
  by (relation "measure length") auto

definition URLSearchParams_parse :: "string \<Rightarrow> (string \<times> string) list" where
  "URLSearchParams_parse s =
     map (\<lambda>p. (form_decode (takeWhile (\<lambda>c. c \<noteq> CHR ''='') p),
                form_decode (drop 1 (dropWhile (\<lambda>c. c \<noteq> CHR ''='') p))))
       (filter (\<lambda>p. p \<noteq> []) (js_split s ''&''))"

section \<open>Laws of slicing and searching\<close>

lemma js_index_int [simp]: "js_index (int k) n = min k n"
  by (simp add: js_index_def)

lemma js_index_0 [simp]: "js_index 0 n = 0"
  by (simp add: js_index_def)

lemma js_slice_int [simp]: "js_slice xs (int a) (int b) = take (b - a) (drop a xs)"
  by (simp add: js_slice_def min_def)

lemma js_slice_0_int [simp]: "js_slice xs 0 (int b) = take b xs"
  using js_slice_int [of xs 0 b] by simp

lemma js_slice_from_int [simp]: "js_slice_from xs (int a) = drop a xs"
  by (simp add: js_slice_from_def min_def)

lemma js_slice_from_neg: "0 < k \<Longrightarrow> js_slice_from xs (- int k) = drop (length xs - k) xs"
  by (auto simp: js_slice_from_def js_index_def intro: arg_cong2 [of _ _ _ _ drop])

lemma length_js_slice_le: "length (js_slice xs a b) \<le> length xs"
  by (simp add: js_slice_def)

lemma js_startsWith_iff: "js_startsWith xs p \<longleftrightarrow> (\<exists>ys. xs = p @ ys)"
  by (metis append_eq_conv_conj js_startsWith_def)

lemma js_startsWith_append [simp]: "js_startsWith (p @ ys) p"
  by (simp add: js_startsWith_iff)

lemma js_includes_iff: "js_includes xs p \<longleftrightarrow> (\<exists>as bs. xs = as @ p @ bs)"
proof (induction xs)
  case Nil
  then show ?case by auto
next
  case (Cons x xs)
  have "(\<exists>as bs. x # xs = as @ p @ bs) \<longleftrightarrow> (\<exists>bs. x # xs = p @ bs) \<or> (\<exists>as bs. xs = as @ p @ bs)"
    by (metis append_Cons append_Nil neq_Nil_conv list.inject)
  with Cons.IH show ?case by (simp add: js_startsWith_iff)
qed

lemma js_split_from_nonempty [simp]: "js_split_from sep acc xs \<noteq> []"
  by (induction sep acc xs rule: js_split_from.induct) auto

lemma js_join_Cons: "ys \<noteq> [] \<Longrightarrow> js_join sep (x # ys) = x @ sep @ js_join sep ys"
  by (cases ys) auto

lemma js_join_split_from: "js_join sep (js_split_from sep acc xs) = rev acc @ xs"
proof (induction sep acc xs rule: js_split_from.induct)
  case (1 sep acc)
  then show ?case by simp
next
  case (2 sep acc x xs)
  show ?case
  proof (cases "sep \<noteq> [] \<and> js_startsWith (x # xs) sep")
    case True
    then have "sep @ drop (length sep) (x # xs) = x # xs"
      by (metis append_take_drop_id js_startsWith_def)
    with True 2 show ?thesis by (simp add: js_join_Cons)
  next
    case False
    with 2 show ?thesis by auto
  qed
qed

lemma js_join_split: "js_join sep (js_split xs sep) = xs"
  by (simp add: js_split_def js_join_split_from)

lemma js_split_from_no_sep:
  "c \<notin> set xs \<Longrightarrow> js_split_from [c] acc xs = [rev acc @ xs]"
  by (induction xs arbitrary: acc) (auto simp: js_startsWith_def)

lemma js_split_from_sep:
  "c \<notin> set xs \<Longrightarrow> js_split_from [c] acc (xs @ c # ys) = (rev acc @ xs) # js_split_from [c] [] ys"
  by (induction xs arbitrary: acc) (auto simp: js_startsWith_def)

lemma js_split_two:
  assumes "c \<notin> set xs" and "c \<notin> set ys"
  shows "js_split (xs @ c # ys) [c] = [xs, ys]"
  using assms by (simp add: js_split_def js_split_from_sep js_split_from_no_sep)

section \<open>Laws of objects\<close>

text \<open>
  The interface the clients of plain objects use: what a read gives after a write, and that the
  entries stay distinct.
\<close>

locale js_store =
  fixes get :: "'o \<Rightarrow> 'k \<Rightarrow> 'v option"
    and put :: "'k \<Rightarrow> 'v \<Rightarrow> 'o \<Rightarrow> 'o"
    and keys :: "'o \<Rightarrow> 'k list"
    and wf :: "'o \<Rightarrow> bool"
  assumes get_put: "get (put k v ob) = (get ob)(k \<mapsto> v)"
    and set_keys: "wf ob \<Longrightarrow> set (keys ob) = dom (get ob)"
    and distinct_keys: "wf ob \<Longrightarrow> distinct (keys ob)"
    and wf_put: "wf ob \<Longrightarrow> wf (put k v ob)"
begin

lemma get_put_all:
  "get (fold (\<lambda>(k, v). put k v) kvs ob) = get ob ++ map_of (rev kvs)"
  by (induction kvs arbitrary: ob) (auto simp: get_put map_add_def fun_eq_iff split: option.splits)

lemma wf_put_all: "wf ob \<Longrightarrow> wf (fold (\<lambda>(k, v). put k v) kvs ob)"
  by (induction kvs arbitrary: ob) (auto simp: wf_put)

lemma length_keys: "wf ob \<Longrightarrow> length (keys ob) = card (dom (get ob))"
  by (metis distinct_card distinct_keys set_keys)

end

lemma obj_get_set [simp]: "obj_get (obj_set k v ob) = (obj_get ob)(k \<mapsto> v)"
  by (simp add: obj_get_def obj_set_def update_conv' fun_eq_iff)

lemma set_obj_keys: "set (obj_keys ob) = dom (obj_get ob)"
  by (simp add: obj_keys_def obj_get_def dom_map_of_conv_image_fst)

lemma obj_wf_set: "obj_wf ob \<Longrightarrow> obj_wf (obj_set k v ob)"
  by (simp add: obj_wf_def obj_keys_def obj_set_def distinct_update)

lemma obj_wf_Nil [simp]: "obj_wf []"
  by (simp add: obj_wf_def obj_keys_def)

interpretation plain_object: js_store obj_get obj_set obj_keys obj_wf
  by unfold_locales (simp_all add: set_obj_keys obj_wf_set, simp add: obj_wf_def)

lemma obj_has_iff: "obj_has ob k \<longleftrightarrow> k \<in> set (obj_keys ob)"
  by (auto simp: obj_has_def set_obj_keys)

lemma obj_get_mem: "obj_wf ob \<Longrightarrow> (k, v) \<in> set ob \<longleftrightarrow> obj_get ob k = Some v"
  by (simp add: obj_wf_def obj_keys_def obj_get_def)

section \<open>Laws of numbers\<close>

lemma of_char_digit: "d < 10 \<Longrightarrow> (of_char (digit_char d) :: nat) = 48 + d"
  by (simp add: digit_char_def)

lemma digit_val_digit_char [simp]: "d < 10 \<Longrightarrow> digit_val (digit_char d) = Some d"
  by (simp add: digit_val_def of_char_digit Let_def)

lemma digits_val_snoc [simp]: "digits_val b (ds @ [c]) = digits_val b ds * b + the (digit_val c)"
  by (simp add: digits_val_def)

lemma digits_val_show_nat [simp]: "digits_val 10 (show_nat n) = n"
proof (induction n rule: show_nat.induct)
  case (1 n)
  then show ?case
    by (subst show_nat.simps) (auto simp: digits_val_def)
qed

lemma show_nat_digits: "c \<in> set (show_nat n) \<Longrightarrow> \<exists>d < 10. c = digit_char d"
proof (induction n rule: show_nat.induct)
  case (1 n)
  then show ?case
    by (subst (asm) show_nat.simps) (force split: if_splits)
qed

lemma show_nat_nonempty [simp]: "show_nat n \<noteq> []"
  by (subst show_nat.simps) simp

lemma is_digit_in_digit_char [simp]: "d < 10 \<Longrightarrow> 10 \<le> b \<Longrightarrow> is_digit_in b (digit_char d)"
  by (simp add: is_digit_in_def)

lemma show_nat_inj [simp]: "show_nat m = show_nat n \<longleftrightarrow> m = n"
  by (metis digits_val_show_nat)

section \<open>Laws of the form encoding\<close>

lemma hex_val_upper_hex_digit: "d < 16 \<Longrightarrow> hex_val (upper_hex_digit d) = Some d"
  by (auto simp: upper_hex_digit_def hex_val_def is_digit_in_def digit_val_def)

lemma upper_hex_digit_alnum: "d < 16 \<Longrightarrow> is_alnum (upper_hex_digit d)"
  by (auto simp: upper_hex_digit_def is_alnum_def)

lemma of_char_256: "(of_char c :: nat) < 256"
  using range_nat_of_char by auto

lemma form_decode_encode_char [simp]: "form_decode (form_encode_char c @ s) = c # form_decode s"
proof (cases "form_safe c \<or> c = CHR '' ''")
  case True
  then have "c \<noteq> CHR ''+'' \<and> c \<noteq> CHR ''%''" by (auto simp: form_safe_def is_alnum_def)
  with True show ?thesis by (auto simp: form_encode_char_def)
next
  case False
  let ?n = "of_char c :: nat"
  have n: "?n div 16 < 16" "?n mod 16 < 16"
    using of_char_256 [of c] by (simp_all add: less_mult_imp_div_less)
  have "char_of (16 * (?n div 16) + ?n mod 16) = c" by simp
  with False n show ?thesis
    by (simp add: form_encode_char_def hex_val_upper_hex_digit)
qed

lemma form_decode_encode [simp]: "form_decode (form_encode s) = s"
  by (induction s) (simp_all add: form_encode_def)

lemma form_encode_chars:
  "c \<in> set (form_encode s) \<Longrightarrow> is_alnum c \<or> c \<in> {CHR ''*'', CHR ''-'', CHR ''.'', CHR ''_'', CHR ''+'', CHR ''%''}"
  using of_char_256
  by (auto simp: form_encode_def form_encode_char_def form_safe_def less_mult_imp_div_less
      upper_hex_digit_alnum split: if_splits)

lemma form_encode_no_delimiter [simp]:
  "CHR ''&'' \<notin> set (form_encode s)" "CHR ''='' \<notin> set (form_encode s)"
  by (auto dest!: form_encode_chars simp: is_alnum_def)

lemma js_split_join:
  assumes "\<forall>x \<in> set xs. c \<notin> set x" and "xs \<noteq> []"
  shows "js_split (js_join [c] xs) [c] = xs"
  using assms
proof (induction xs)
  case Nil
  then show ?case by simp
next
  case (Cons x xs)
  then show ?case
    by (cases xs) (auto simp: js_split_def js_split_from_no_sep js_split_from_sep)
qed

lemma URLSearchParams_round_trip:
  "URLSearchParams_parse (URLSearchParams_toString ps) = ps"
proof (cases "ps = []")
  case True
  then show ?thesis
    by (simp add: URLSearchParams_parse_def URLSearchParams_toString_def js_split_def)
next
  case False
  let ?enc = "map (\<lambda>(k, v). form_encode k @ ''='' @ form_encode v) ps"
  have "js_split (URLSearchParams_toString ps) ''&'' = ?enc"
    unfolding URLSearchParams_toString_def using False by (intro js_split_join) auto
  moreover have "filter (\<lambda>p. p \<noteq> []) ?enc = ?enc" by (auto simp: filter_id_conv)
  moreover have "takeWhile (\<lambda>c. c \<noteq> CHR ''='') (form_encode k @ ''='' @ form_encode v) = form_encode k"
    and "dropWhile (\<lambda>c. c \<noteq> CHR ''='') (form_encode k @ ''='' @ form_encode v) = ''='' @ form_encode v"
    for k v
    by (subst takeWhile_append2, auto) (subst dropWhile_append2, auto)
  ultimately show ?thesis
    by (auto simp: URLSearchParams_parse_def intro!: map_idI)
qed

end
