(* ===== verification/Verify_Errors.thy ===== *)
theory Verify_Errors
  imports Js_Runtime
begin

text \<open>
  The exceptions of the verification plugin (\<open>scripts/hardhat-verify/errors.ts\<close>) and the
  recognisers of encoder errors (\<open>abi-validation-extras.ts\<close>). Each error class is a constructor
  of \<open>verify_error\<close> that carries the constructor arguments of the class, and its message is the
  definition \<open><class>_message\<close>; \<open>error_message\<close> dispatches on the class. \<open>TypeError\<close>, \<open>RangeError\<close>,
  \<open>SyntaxError\<close> and \<open>ForeignError\<close> are the exceptions of the language and of called packages that
  pass through the plugin.
\<close>

definition nl :: string where "nl = [CHR 0x0A]"
definition quo :: string where "quo = [CHR 0x27]"
definition dquo :: string where "dquo = [CHR 0x22]"
definition lbrace :: string where "lbrace = [CHR 0x7B]"
definition rbrace :: string where "rbrace = [CHR 0x7D]"

text \<open>\<open>xs.map((x) => `  * ${x}`).join("\n")\<close>, used by several messages.\<close>

definition bullets :: "string list \<Rightarrow> string" where
  "bullets xs = js_join nl (map (\<lambda>x. ''  * '' @ x) xs)"

record library_conflict =
  lc_library :: string
  lc_detectedAddress :: string
  lc_inputAddress :: string

record abi_length_error =
  ale_types :: int
  ale_values :: int

record abi_type_error =
  ate_value :: string
  ate_argument :: string
  ate_reason :: string

record abi_overflow_error =
  aoe_value :: string
  aoe_fault :: string
  aoe_operation :: string

datatype (plugins only: code size) verify_error =
    HardhatVerifyError string
  | MissingAddressError
  | InvalidAddressError string
  | InvalidContractNameError string
  | MissingApiKeyError string
  | InvalidConstructorArgumentsError
  | ExclusiveConstructorArgumentsError
  | InvalidConstructorArgumentsModuleError string
  | InvalidLibrariesError
  | InvalidLibrariesModuleError string
  | ImportingModuleError string verify_error
  | NetworkNotSupportedError string
  | ChainConfigNotFoundError "int option"
  | ContractVerificationRequestError string verify_error
  | ContractVerificationInvalidStatusCodeError string int string
  | ContractVerificationMissingBytecodeError string string
  | ContractStatusPollingError string verify_error
  | ContractStatusPollingInvalidStatusCodeError int string
  | ContractStatusPollingResponseNotOkError string
  | EtherscanVersionNotSupportedError
  | DeployedBytecodeNotFoundError string string
  | CompilerVersionsMismatchError "string list" string string
  | ContractNotFoundError string
  | BuildInfoNotFoundError string
  | BuildInfoCompilerVersionMismatchError string string bool string string
  | DeployedBytecodeMismatchError string "string option"
  | DeployedBytecodeMultipleMatchesError "string list"
  | InvalidLibraryAddressError string string string
  | DuplicatedLibraryError string string
  | LibraryNotFoundError string string "string list" "string list" "string list"
  | LibraryMultipleMatchesError string string "string list"
  | MissingLibrariesError string "string list" "string list" "string list"
  | LibraryAddressesMismatchError "library_conflict list"
  | UnexpectedNumberOfFilesError
  | ABIArgumentLengthError string string abi_length_error
  | ABIArgumentTypeError abi_type_error
  | ABIArgumentOverflowError abi_overflow_error
  | VerificationAPIUnexpectedMessageError string
  | ContractVerificationFailedError string "string list"
  | TypeError string
  | RangeError string
  | SyntaxError string
  | ForeignError string

section \<open>Messages of argument errors\<close>

definition TASK_VERIFY :: string where "TASK_VERIFY = ''verify1''"

definition TASK_VERIFY_VERIFY :: string where
  "TASK_VERIFY_VERIFY = TASK_VERIFY @ '':verify''"

text \<open>The apostrophe of the source is U+2019, written as its three UTF-8 bytes.\<close>

definition MissingAddressError_message :: string where
  "MissingAddressError_message =
     ''You didn'' @ [CHR 0xE2, CHR 0x80, CHR 0x99] @ ''t provide any address. Please re-run the ''
     @ quo @ ''verify'' @ quo @ '' task with the address of the contract you want to verify.''"

definition InvalidAddressError_message :: "string \<Rightarrow> string" where
  "InvalidAddressError_message address = address @ '' is an invalid address.''"

definition InvalidContractNameError_message :: "string \<Rightarrow> string" where
  "InvalidContractNameError_message contractName =
     ''A valid fully qualified name was expected. Fully qualified names look like this: ''
     @ dquo @ ''contracts/AContract.sol:TheContract'' @ dquo @ nl
     @ ''Instead, this name was received: '' @ contractName"

definition MissingApiKeyError_message :: "string \<Rightarrow> string" where
  "MissingApiKeyError_message network =
     ''You are trying to verify a contract in '' @ quo @ network @ quo
     @ '', but no API token was found for this network. Please provide one in your hardhat config. For example:''
     @ nl @ nl @ lbrace @ nl @ ''  ...'' @ nl @ ''  etherscan: '' @ lbrace @ nl @ ''    apiKey: '' @ lbrace @ nl
     @ ''      '' @ network @ '': '' @ quo @ ''your API key'' @ quo @ nl @ ''    '' @ rbrace @ nl @ ''  '' @ rbrace
     @ nl @ rbrace @ nl @ nl @ ''See https://etherscan.io/apis''"

definition InvalidConstructorArgumentsError_message :: string where
  "InvalidConstructorArgumentsError_message =
     ''The constructorArguments parameter should be an array.'' @ nl
     @ ''If your constructor has no arguments pass an empty array. E.g:'' @ nl @ nl
     @ ''  await run('' @ dquo @ TASK_VERIFY_VERIFY @ dquo @ '', '' @ lbrace @ nl
     @ ''    <other args>,'' @ nl @ ''    constructorArguments: []'' @ nl @ ''  '' @ rbrace @ '';''"

definition ExclusiveConstructorArgumentsError_message :: string where
  "ExclusiveConstructorArgumentsError_message =
     ''The parameters constructorArgsParams and constructorArgsModule are exclusive. Please provide only one of them.''"

definition InvalidConstructorArgumentsModuleError_message :: "string \<Rightarrow> string" where
  "InvalidConstructorArgumentsModuleError_message modulePath =
     ''The module '' @ modulePath @ '' doesn'' @ quo @ ''t export a list. The module should look like this:''
     @ nl @ nl @ ''module.exports = [ arg1, arg2, ... ];''"

definition InvalidLibrariesError_message :: string where
  "InvalidLibrariesError_message =
     ''The libraries parameter should be a dictionary.'' @ nl
     @ ''If your contract does not have undetectable libraries pass an empty object or omit the argument. E.g:''
     @ nl @ nl @ ''  await run('' @ dquo @ TASK_VERIFY_VERIFY @ dquo @ '', '' @ lbrace @ nl
     @ ''    <other args>,'' @ nl @ ''    libraries: '' @ lbrace @ rbrace @ nl @ ''  '' @ rbrace @ '';''"

definition InvalidLibrariesModuleError_message :: "string \<Rightarrow> string" where
  "InvalidLibrariesModuleError_message modulePath =
     ''The module '' @ modulePath @ '' doesn'' @ quo @ ''t export a dictionary. The module should look like this:''
     @ nl @ nl @ ''module.exports = '' @ lbrace @ '' lib1: '' @ dquo @ ''0x...'' @ dquo @ '', lib2: '' @ dquo @ ''0x...''
     @ dquo @ '', ... '' @ rbrace @ '';''"

definition ImportingModuleError_message :: "string \<Rightarrow> string \<Rightarrow> string" where
  "ImportingModuleError_message what parentMessage =
     ''Importing the module for the '' @ what @ '' failed.'' @ nl @ ''Reason: '' @ parentMessage"

section \<open>Messages of network and explorer errors\<close>

definition NetworkNotSupportedError_message :: "string \<Rightarrow> string" where
  "NetworkNotSupportedError_message network =
     ''The selected network is '' @ network @ ''. Please select a network supported by Etherscan.''"

definition ChainConfigNotFoundError_message :: "int option \<Rightarrow> string" where
  "ChainConfigNotFoundError_message chainId =
     ''Trying to verify a contract in a network with chain id '' @ show_number chainId
     @ '', but the plugin doesn'' @ quo @ ''t recognize it as a supported chain.'' @ nl @ nl
     @ ''You can manually add support for it by following these instructions: https://hardhat.org/verify-custom-networks''
     @ nl @ nl @ ''To see the list of supported networks, run this command:'' @ nl @ nl
     @ ''  npx hardhat verify --list-networks''"

definition ContractVerificationRequestError_message :: "string \<Rightarrow> string \<Rightarrow> string" where
  "ContractVerificationRequestError_message url parentMessage =
     ''Failed to send contract verification request.'' @ nl @ ''Endpoint URL: '' @ url @ nl
     @ ''Reason: '' @ parentMessage"

definition ContractVerificationInvalidStatusCodeError_message :: "string \<Rightarrow> int \<Rightarrow> string \<Rightarrow> string" where
  "ContractVerificationInvalidStatusCodeError_message url statusCode responseText =
     ''Failed to send contract verification request.'' @ nl @ ''Endpoint URL: '' @ url @ nl
     @ ''The HTTP server response is not ok. Status code: '' @ show_int statusCode @ '' Response text: '' @ responseText"

definition ContractVerificationMissingBytecodeError_message :: "string \<Rightarrow> string \<Rightarrow> string" where
  "ContractVerificationMissingBytecodeError_message url contractAddress =
     ''Failed to send contract verification request.'' @ nl @ ''Endpoint URL: '' @ url @ nl
     @ ''Reason: The Etherscan API responded that the address '' @ contractAddress @ '' does not have bytecode.'' @ nl
     @ ''This can happen if the contract was recently deployed and this fact hasn'' @ quo @ ''t propagated to the backend yet.'' @ nl
     @ ''Try waiting for a minute before verifying your contract. If you are invoking this from a script,'' @ nl
     @ ''try to wait for five confirmations of your contract deployment transaction before running the verification subtask.''"

definition ContractStatusPollingError_message :: "string \<Rightarrow> string \<Rightarrow> string" where
  "ContractStatusPollingError_message url parentMessage =
     ''Failure during etherscan status polling. The verification may still succeed but'' @ nl
     @ ''should be checked manually.'' @ nl @ ''Endpoint URL: '' @ url @ nl @ ''Reason: '' @ parentMessage"

definition ContractStatusPollingInvalidStatusCodeError_message :: "int \<Rightarrow> string \<Rightarrow> string" where
  "ContractStatusPollingInvalidStatusCodeError_message statusCode responseText =
     ''The HTTP server response is not ok. Status code: '' @ show_int statusCode @ '' Response text: '' @ responseText"

definition ContractStatusPollingResponseNotOkError_message :: "string \<Rightarrow> string" where
  "ContractStatusPollingResponseNotOkError_message message =
     ''The Etherscan API responded with a failure status.'' @ nl
     @ ''The verification may still succeed but should be checked manually.'' @ nl @ ''Reason: '' @ message"

definition EtherscanVersionNotSupportedError_message :: string where
  "EtherscanVersionNotSupportedError_message =
     ''Etherscan only supports compiler versions 0.4.11 and higher.'' @ nl
     @ ''See https://etherscan.io/solcversions for more information.''"

definition VerificationAPIUnexpectedMessageError_message :: "string \<Rightarrow> string" where
  "VerificationAPIUnexpectedMessageError_message message =
     ''The API responded with an unexpected message.'' @ nl
     @ ''Please report this issue to the Hardhat team.'' @ nl
     @ ''Contract verification may have succeeded and should be checked manually.'' @ nl @ ''Message: '' @ message"

section \<open>Messages of bytecode and compiler errors\<close>

definition DeployedBytecodeNotFoundError_message :: "string \<Rightarrow> string \<Rightarrow> string" where
  "DeployedBytecodeNotFoundError_message address network =
     ''The address '' @ address @ '' has no bytecode. Is the contract deployed to this network?'' @ nl
     @ ''The selected network is '' @ network @ ''.''"

text \<open>Index 0 of an empty array is \<open>undefined\<close>, which a template prints as that word.\<close>

definition CompilerVersionsMismatchError_message :: "string list \<Rightarrow> string \<Rightarrow> string \<Rightarrow> string" where
  "CompilerVersionsMismatchError_message configCompilerVersions inferredCompilerVersion network =
     (let versionDetails =
        (if 1 < length configCompilerVersions
         then ''versions are: '' @ js_join '', '' configCompilerVersions
         else ''version is: '' @ (case configCompilerVersions of [] \<Rightarrow> ''undefined'' | v # _ \<Rightarrow> v))
      in ''The contract you want to verify was compiled with solidity '' @ inferredCompilerVersion
         @ '', but your configured compiler '' @ versionDetails @ ''.'' @ nl @ nl
         @ ''Possible causes are:'' @ nl
         @ ''- You are not in the same commit that was used to deploy the contract.'' @ nl
         @ ''- Wrong compiler version selected in hardhat config.'' @ nl
         @ ''- The given address is wrong.'' @ nl
         @ ''- The selected network ('' @ network @ '') is wrong.'')"

definition ContractNotFoundError_message :: "string \<Rightarrow> string" where
  "ContractNotFoundError_message contractFQN =
     ''The contract '' @ contractFQN @ '' is not present in your project.''"

definition BuildInfoNotFoundError_message :: "string \<Rightarrow> string" where
  "BuildInfoNotFoundError_message contractFQN =
     ''The contract '' @ contractFQN @ '' is present in your project, but we couldn'' @ quo @ ''t find its sources.'' @ nl
     @ ''Please make sure that it has been compiled by Hardhat and that it is written in Solidity.''"

definition BuildInfoCompilerVersionMismatchError_message ::
    "string \<Rightarrow> string \<Rightarrow> bool \<Rightarrow> string \<Rightarrow> string \<Rightarrow> string" where
  "BuildInfoCompilerVersionMismatchError_message contractFQN compilerVersion isVersionRange
       buildInfoCompilerVersion network =
     (let versionDetails =
        (if isVersionRange then ''a solidity version in the range '' @ compilerVersion
         else ''the solidity version '' @ compilerVersion)
      in ''The contract '' @ contractFQN @ '' is being compiled with '' @ buildInfoCompilerVersion @ ''.'' @ nl
         @ ''However, the contract found in the address provided as argument has its bytecode marked with ''
         @ versionDetails @ ''.'' @ nl @ nl @ ''Possible causes are:'' @ nl
         @ ''- Solidity compiler version settings were modified after the deployment was executed.'' @ nl
         @ ''- The given address is wrong.'' @ nl
         @ ''- The selected network ('' @ network @ '') is wrong.'')"

definition DeployedBytecodeMismatchError_message :: "string \<Rightarrow> string option \<Rightarrow> string" where
  "DeployedBytecodeMismatchError_message network contractFQN =
     (let contractDetails =
        (case contractFQN of Some fqn \<Rightarrow> ''the contract '' @ fqn @ ''.'' | None \<Rightarrow> ''any of your local contracts.'')
      in ''The address provided as argument contains a contract, but its bytecode doesn'' @ quo @ ''t match ''
         @ contractDetails @ nl @ nl @ ''Possible causes are:'' @ nl
         @ ''  - The artifact for that contract is outdated or missing. You can try compiling the project again with the --force flag before re-running the verification.'' @ nl
         @ ''  - The contract'' @ quo @ ''s code changed after the deployment was executed. Sometimes this happens by changes in seemingly unrelated contracts.'' @ nl
         @ ''  - The solidity compiler settings were modified after the deployment was executed (like the optimizer, target EVM, etc.)'' @ nl
         @ ''  - The given address is wrong.'' @ nl
         @ ''  - The selected network ('' @ network @ '') is wrong.'')"

definition DeployedBytecodeMultipleMatchesError_message :: "string list \<Rightarrow> string" where
  "DeployedBytecodeMultipleMatchesError_message fqnMatches =
     ''More than one contract was found to match the deployed bytecode.'' @ nl
     @ ''Please use the contract parameter with one of the following contracts:'' @ nl
     @ bullets fqnMatches @ nl @ nl @ ''For example:'' @ nl @ nl
     @ ''hardhat verify --contract contracts/Example.sol:ExampleContract <other args>'' @ nl @ nl
     @ ''If you are running the verify subtask from within Hardhat instead:'' @ nl @ nl
     @ ''await run('' @ dquo @ TASK_VERIFY_VERIFY @ dquo @ '', '' @ lbrace @ nl @ ''<other args>,'' @ nl
     @ ''contract: '' @ dquo @ ''contracts/Example.sol:ExampleContract'' @ dquo @ nl @ rbrace @ '';''"

section \<open>Messages of library errors\<close>

definition InvalidLibraryAddressError_message :: "string \<Rightarrow> string \<Rightarrow> string \<Rightarrow> string" where
  "InvalidLibraryAddressError_message contractName libraryName libraryAddress =
     ''You gave a link for the contract '' @ contractName @ '' with the library '' @ libraryName
     @ '', but provided this invalid address: '' @ libraryAddress"

definition DuplicatedLibraryError_message :: "string \<Rightarrow> string \<Rightarrow> string" where
  "DuplicatedLibraryError_message libraryName libraryFQN =
     ''The library names '' @ libraryName @ '' and '' @ libraryFQN
     @ '' refer to the same library and were given as two entries in the libraries dictionary.'' @ nl
     @ ''Remove one of them and review your libraries dictionary before proceeding.''"

definition LibraryNotFoundError_message ::
    "string \<Rightarrow> string \<Rightarrow> string list \<Rightarrow> string list \<Rightarrow> string list \<Rightarrow> string" where
  "LibraryNotFoundError_message contractName libraryName allLibraries detectableLibraries undetectableLibraries =
     (let contractLibrariesDetails =
        ''This contract uses the following external libraries:'' @ nl
        @ bullets undetectableLibraries @ nl
        @ js_join nl (map (\<lambda>x. ''  * '' @ x @ '' (optional)'') detectableLibraries) @ nl
        @ (if detectableLibraries \<noteq> []
           then ''Libraries marked as optional don'' @ quo @ ''t need to be specified since their addresses are autodetected by the plugin.''
           else '''')
      in ''You gave an address for the library '' @ libraryName
         @ '' in the libraries dictionary, which is not one of the libraries of contract '' @ contractName @ ''.'' @ nl
         @ (if allLibraries \<noteq> [] then contractLibrariesDetails
            else ''This contract doesn'' @ quo @ ''t use any external libraries.''))"

definition LibraryMultipleMatchesError_message :: "string \<Rightarrow> string \<Rightarrow> string list \<Rightarrow> string" where
  "LibraryMultipleMatchesError_message contractName libraryName fqnMatches =
     ''The library name '' @ libraryName @ '' is ambiguous for the contract '' @ contractName @ ''.'' @ nl
     @ ''It may resolve to one of the following libraries:'' @ nl @ bullets fqnMatches @ nl @ nl
     @ ''To fix this, choose one of these fully qualified library names and replace it in your libraries dictionary.''"

definition missingLibraries :: "string list \<Rightarrow> string list \<Rightarrow> string list" where
  "missingLibraries allLibraries mergedLibraries =
     filter (\<lambda>lib. \<not> list_ex (\<lambda>mergedLib. lib = mergedLib) mergedLibraries) allLibraries"

definition MissingLibrariesError_message ::
    "string \<Rightarrow> string list \<Rightarrow> string list \<Rightarrow> string list \<Rightarrow> string" where
  "MissingLibrariesError_message contractName allLibraries mergedLibraries undetectableLibraries =
     (let missing = missingLibraries allLibraries mergedLibraries
      in ''The contract '' @ contractName @ '' has one or more library addresses that cannot be detected from deployed bytecode.'' @ nl
         @ ''This can occur if the library is only called in the contract constructor. The missing libraries are:'' @ nl
         @ bullets missing @ nl @ nl
         @ (if length missing = length undetectableLibraries
            then ''Visit https://hardhat.org/hardhat-runner/plugins/nomicfoundation-hardhat-verify#libraries-with-undetectable-addresses to learn how to solve this.''
            else ''To solve this, you can add them to your --libraries dictionary with their corresponding addresses.''))"

definition LibraryAddressesMismatchError_message :: "library_conflict list \<Rightarrow> string" where
  "LibraryAddressesMismatchError_message conflicts =
     ''The following detected library addresses are different from the ones provided:'' @ nl
     @ js_join nl (map (\<lambda>c. ''  * '' @ lc_library c @ nl @ ''given address: '' @ lc_inputAddress c @ nl
         @ ''detected address: '' @ lc_detectedAddress c) conflicts)
     @ nl @ nl
     @ ''You can either fix these addresses in your libraries dictionary or simply remove them to let the plugin autodetect them.''"

section \<open>Messages of encoding errors and of the final failure\<close>

definition UnexpectedNumberOfFilesError_message :: string where
  "UnexpectedNumberOfFilesError_message =
     ''The plugin found an unexpected number of files for this contract. Please report this issue to the Hardhat team.''"

definition ABIArgumentLengthError_message :: "string \<Rightarrow> string \<Rightarrow> abi_length_error \<Rightarrow> string" where
  "ABIArgumentLengthError_message sourceName contractName er =
     ''The constructor for '' @ sourceName @ '':'' @ contractName @ '' has '' @ show_int (ale_types er) @ '' parameters'' @ nl
     @ ''but '' @ show_int (ale_values er) @ '' arguments were provided instead.''"

definition ABIArgumentTypeError_message :: "abi_type_error \<Rightarrow> string" where
  "ABIArgumentTypeError_message er =
     ''Value '' @ ate_value er @ '' cannot be encoded for the parameter '' @ ate_argument er @ ''.'' @ nl
     @ ''Encoder error reason: '' @ ate_reason er"

definition ABIArgumentOverflowError_message :: "abi_overflow_error \<Rightarrow> string" where
  "ABIArgumentOverflowError_message er =
     ''Value '' @ aoe_value er @ '' is not a safe integer and cannot be encoded.'' @ nl
     @ ''Use a string instead of a plain number.'' @ nl
     @ ''Encoder error reason: '' @ aoe_fault er @ '' fault in '' @ aoe_operation er"

definition ContractVerificationFailedError_message :: "string \<Rightarrow> string list \<Rightarrow> string" where
  "ContractVerificationFailedError_message message undetectableLibraries =
     ''The contract verification failed.'' @ nl @ ''Reason: '' @ message @ nl
     @ (if undetectableLibraries \<noteq> []
        then nl @ ''This contract makes use of libraries whose addresses are undetectable by the plugin.'' @ nl
             @ ''Keep in mind that this verification failure may be due to passing in the wrong'' @ nl
             @ ''address for one of these libraries:'' @ nl @ bullets undetectableLibraries
        else '''')"

section \<open>The message of an error\<close>

primrec error_message :: "verify_error \<Rightarrow> string" where
  "error_message (HardhatVerifyError m) = m"
| "error_message MissingAddressError = MissingAddressError_message"
| "error_message (InvalidAddressError a) = InvalidAddressError_message a"
| "error_message (InvalidContractNameError c) = InvalidContractNameError_message c"
| "error_message (MissingApiKeyError n) = MissingApiKeyError_message n"
| "error_message InvalidConstructorArgumentsError = InvalidConstructorArgumentsError_message"
| "error_message ExclusiveConstructorArgumentsError = ExclusiveConstructorArgumentsError_message"
| "error_message (InvalidConstructorArgumentsModuleError p) = InvalidConstructorArgumentsModuleError_message p"
| "error_message InvalidLibrariesError = InvalidLibrariesError_message"
| "error_message (InvalidLibrariesModuleError p) = InvalidLibrariesModuleError_message p"
| "error_message (ImportingModuleError m e) = ImportingModuleError_message m (error_message e)"
| "error_message (NetworkNotSupportedError n) = NetworkNotSupportedError_message n"
| "error_message (ChainConfigNotFoundError i) = ChainConfigNotFoundError_message i"
| "error_message (ContractVerificationRequestError u e) = ContractVerificationRequestError_message u (error_message e)"
| "error_message (ContractVerificationInvalidStatusCodeError u s t) = ContractVerificationInvalidStatusCodeError_message u s t"
| "error_message (ContractVerificationMissingBytecodeError u a) = ContractVerificationMissingBytecodeError_message u a"
| "error_message (ContractStatusPollingError u e) = ContractStatusPollingError_message u (error_message e)"
| "error_message (ContractStatusPollingInvalidStatusCodeError s t) = ContractStatusPollingInvalidStatusCodeError_message s t"
| "error_message (ContractStatusPollingResponseNotOkError m) = ContractStatusPollingResponseNotOkError_message m"
| "error_message EtherscanVersionNotSupportedError = EtherscanVersionNotSupportedError_message"
| "error_message (DeployedBytecodeNotFoundError a n) = DeployedBytecodeNotFoundError_message a n"
| "error_message (CompilerVersionsMismatchError vs v n) = CompilerVersionsMismatchError_message vs v n"
| "error_message (ContractNotFoundError f) = ContractNotFoundError_message f"
| "error_message (BuildInfoNotFoundError f) = BuildInfoNotFoundError_message f"
| "error_message (BuildInfoCompilerVersionMismatchError f v r b n) = BuildInfoCompilerVersionMismatchError_message f v r b n"
| "error_message (DeployedBytecodeMismatchError n f) = DeployedBytecodeMismatchError_message n f"
| "error_message (DeployedBytecodeMultipleMatchesError fs) = DeployedBytecodeMultipleMatchesError_message fs"
| "error_message (InvalidLibraryAddressError c l a) = InvalidLibraryAddressError_message c l a"
| "error_message (DuplicatedLibraryError l f) = DuplicatedLibraryError_message l f"
| "error_message (LibraryNotFoundError c l a d u) = LibraryNotFoundError_message c l a d u"
| "error_message (LibraryMultipleMatchesError c l f) = LibraryMultipleMatchesError_message c l f"
| "error_message (MissingLibrariesError c a m u) = MissingLibrariesError_message c a m u"
| "error_message (LibraryAddressesMismatchError c) = LibraryAddressesMismatchError_message c"
| "error_message UnexpectedNumberOfFilesError = UnexpectedNumberOfFilesError_message"
| "error_message (ABIArgumentLengthError s c e) = ABIArgumentLengthError_message s c e"
| "error_message (ABIArgumentTypeError e) = ABIArgumentTypeError_message e"
| "error_message (ABIArgumentOverflowError e) = ABIArgumentOverflowError_message e"
| "error_message (VerificationAPIUnexpectedMessageError m) = VerificationAPIUnexpectedMessageError_message m"
| "error_message (ContractVerificationFailedError m u) = ContractVerificationFailedError_message m u"
| "error_message (TypeError m) = m"
| "error_message (RangeError m) = m"
| "error_message (SyntaxError m) = m"
| "error_message (ForeignError m) = m"

end
