(* ===== verification/Chain_Config.thy ===== *)
theory Chain_Config
  imports Verify_Errors
begin

text \<open>
  Chains and their explorers: the types of \<open>types.ts\<close>, the table and the lookup of
  \<open>chain-config.ts\<close>, the configuration extender of \<open>config.ts\<close> and the task names of
  \<open>task-names.ts\<close>.
\<close>

section \<open>Data\<close>

record chain_config =
  cc_network :: string
  cc_chainId :: int
  cc_apiURL :: string
  cc_browserURL :: string

datatype api_key = ApiKeyString string | ApiKeyRecord "string obj"

record etherscan_config =
  ec_apiKey :: api_key
  ec_customChains :: "chain_config list"

text \<open>The user's \<open>Partial<EtherscanConfig>\<close>: \<open>None\<close> is a key that is left out.\<close>

record etherscan_user_config =
  user_apiKey :: "api_key option"
  user_customChains :: "chain_config list option"

section \<open>Task names\<close>

definition TASK_VERIFY_GET_VERIFICATION_SUBTASKS :: string where
  "TASK_VERIFY_GET_VERIFICATION_SUBTASKS = TASK_VERIFY @ '':get-verification-subtasks''"

definition TASK_VERIFY_RESOLVE_ARGUMENTS :: string where
  "TASK_VERIFY_RESOLVE_ARGUMENTS = TASK_VERIFY @ '':resolve-arguments''"

definition TASK_VERIFY_ETHERSCAN :: string where
  "TASK_VERIFY_ETHERSCAN = TASK_VERIFY @ '':etherscan''"

definition TASK_VERIFY_ETHERSCAN_GET_CONTRACT_INFORMATION :: string where
  "TASK_VERIFY_ETHERSCAN_GET_CONTRACT_INFORMATION = TASK_VERIFY @ '':etherscan-get-contract-information''"

definition TASK_VERIFY_ETHERSCAN_GET_MINIMAL_INPUT :: string where
  "TASK_VERIFY_ETHERSCAN_GET_MINIMAL_INPUT = TASK_VERIFY @ '':etherscan-get-minimal-input''"

definition TASK_VERIFY_ETHERSCAN_ATTEMPT_VERIFICATION :: string where
  "TASK_VERIFY_ETHERSCAN_ATTEMPT_VERIFICATION = TASK_VERIFY @ '':etherscan-attempt-verification''"

definition TASK_VERIFY_PRINT_SUPPORTED_NETWORKS :: string where
  "TASK_VERIFY_PRINT_SUPPORTED_NETWORKS = TASK_VERIFY @ '':print-supported-networks''"

section \<open>The table of built-in chains\<close>

definition mk_chain :: "string \<Rightarrow> int \<Rightarrow> string \<Rightarrow> string \<Rightarrow> chain_config" where
  "mk_chain n i api browser = \<lparr>cc_network = n, cc_chainId = i, cc_apiURL = api, cc_browserURL = browser\<rparr>"

definition builtinChains :: "chain_config list" where
  "builtinChains =
     [mk_chain ''mainnet'' 1 ''https://api.etherscan.io/api'' ''https://etherscan.io'',
      mk_chain ''goerli'' 5 ''https://api-goerli.etherscan.io/api'' ''https://goerli.etherscan.io'',
      mk_chain ''optimisticEthereum'' 10 ''https://api-optimistic.etherscan.io/api'' ''https://optimistic.etherscan.io/'',
      mk_chain ''bsc'' 56 ''https://api.bscscan.com/api'' ''https://bscscan.com'',
      mk_chain ''sokol'' 77 ''https://blockscout.com/poa/sokol/api'' ''https://blockscout.com/poa/sokol'',
      mk_chain ''bscTestnet'' 97 ''https://api-testnet.bscscan.com/api'' ''https://testnet.bscscan.com'',
      mk_chain ''xdai'' 100 ''https://api.gnosisscan.io/api'' ''https://gnosisscan.io'',
      mk_chain ''gnosis'' 100 ''https://api.gnosisscan.io/api'' ''https://gnosisscan.io'',
      mk_chain ''heco'' 128 ''https://api.hecoinfo.com/api'' ''https://hecoinfo.com'',
      mk_chain ''polygon'' 137 ''https://api.polygonscan.com/api'' ''https://polygonscan.com'',
      mk_chain ''opera'' 250 ''https://api.ftmscan.com/api'' ''https://ftmscan.com'',
      mk_chain ''hecoTestnet'' 256 ''https://api-testnet.hecoinfo.com/api'' ''https://testnet.hecoinfo.com'',
      mk_chain ''optimisticGoerli'' 420 ''https://api-goerli-optimism.etherscan.io/api'' ''https://goerli-optimism.etherscan.io/'',
      mk_chain ''moonbeam'' 1284 ''https://api-moonbeam.moonscan.io/api'' ''https://moonbeam.moonscan.io'',
      mk_chain ''moonriver'' 1285 ''https://api-moonriver.moonscan.io/api'' ''https://moonriver.moonscan.io'',
      mk_chain ''moonbaseAlpha'' 1287 ''https://api-moonbase.moonscan.io/api'' ''https://moonbase.moonscan.io/'',
      mk_chain ''ftmTestnet'' 4002 ''https://api-testnet.ftmscan.com/api'' ''https://testnet.ftmscan.com'',
      mk_chain ''chiado'' 10200 ''https://blockscout.chiadochain.net/api'' ''https://blockscout.chiadochain.net'',
      mk_chain ''arbitrumOne'' 42161 ''https://api.arbiscan.io/api'' ''https://arbiscan.io/'',
      mk_chain ''avalancheFujiTestnet'' 43113 ''https://api-testnet.snowtrace.io/api'' ''https://testnet.snowtrace.io/'',
      mk_chain ''avalanche'' 43114 ''https://api.snowtrace.io/api'' ''https://snowtrace.io/'',
      mk_chain ''polygonMumbai'' 80001 ''https://api-testnet.polygonscan.com/api'' ''https://mumbai.polygonscan.com/'',
      mk_chain ''baseGoerli'' 84531 ''https://api-goerli.basescan.org/api'' ''https://goerli.basescan.org/'',
      mk_chain ''arbitrumTestnet'' 421611 ''https://api-testnet.arbiscan.io/api'' ''https://testnet.arbiscan.io/'',
      mk_chain ''arbitrumGoerli'' 421613 ''https://api-goerli.arbiscan.io/api'' ''https://goerli.arbiscan.io/'',
      mk_chain ''sepolia'' 11155111 ''https://api-sepolia.etherscan.io/api'' ''https://sepolia.etherscan.io'',
      mk_chain ''aurora'' 1313161554 ''https://explorer.mainnet.aurora.dev/api'' ''https://explorer.mainnet.aurora.dev'',
      mk_chain ''auroraTestnet'' 1313161555 ''https://explorer.testnet.aurora.dev/api'' ''https://explorer.testnet.aurora.dev'',
      mk_chain ''harmony'' 1666600000 ''https://ctrver.t.hmny.io/verify'' ''https://explorer.harmony.one'',
      mk_chain ''harmonyTest'' 1666700000 ''https://ctrver.t.hmny.io/verify?network=testnet'' ''https://explorer.pops.one'']"

section \<open>The configuration of the current chain\<close>

text \<open>
  \<open>chainIdReply\<close> is the answer of the provider to \<open>eth_chainId\<close>; \<open>hardhatNetworkName\<close> is the
  constant \<open>HARDHAT_NETWORK_NAME\<close> of the Hardhat package. \<open>parseInt\<close> may give \<open>NaN\<close>, which equals
  no chain id.
\<close>

definition getCurrentChainConfig ::
    "string \<Rightarrow> string \<Rightarrow> string \<Rightarrow> chain_config list \<Rightarrow> verify_error + chain_config" where
  "getCurrentChainConfig hardhatNetworkName name chainIdReply custom =
     (let currentChainId = js_parseInt 16 chainIdReply
      in case find (\<lambda>c. Some (cc_chainId c) = currentChainId) (rev custom @ builtinChains) of
           None \<Rightarrow>
             if name = hardhatNetworkName then Inl (NetworkNotSupportedError name)
             else Inl (ChainConfigNotFoundError currentChainId)
         | Some c \<Rightarrow> Inr c)"

section \<open>The configuration extender\<close>

definition defaultConfig :: etherscan_config where
  "defaultConfig = \<lparr>ec_apiKey = ApiKeyString '''', ec_customChains = []\<rparr>"

text \<open>
  The first component is the new \<open>config.etherscan\<close>, the second tells whether the warning about
  an \<open>etherscan\<close> entry among the networks is printed.
\<close>

definition etherscanConfigExtender ::
    "etherscan_user_config option \<Rightarrow> string list \<Rightarrow> etherscan_config \<times> bool" where
  "etherscanConfigExtender userEtherscan networkNames =
     (case userEtherscan of
        Some u \<Rightarrow>
          (\<lparr>ec_apiKey = (case user_apiKey u of Some k \<Rightarrow> k | None \<Rightarrow> ec_apiKey defaultConfig),
            ec_customChains = (case user_customChains u of Some cs \<Rightarrow> cs | None \<Rightarrow> ec_customChains defaultConfig)\<rparr>,
           False)
      | None \<Rightarrow> (defaultConfig, ''etherscan'' \<in> set networkNames))"

section \<open>Lemmas\<close>

lemma find_append: "find P (xs @ ys) = (case find P xs of None \<Rightarrow> find P ys | Some x \<Rightarrow> Some x)"
  by (induction xs) auto

lemma mk_chain_simps [simp]:
  "cc_network (mk_chain n i a b) = n" "cc_chainId (mk_chain n i a b) = i"
  "cc_apiURL (mk_chain n i a b) = a" "cc_browserURL (mk_chain n i a b) = b"
  by (simp_all add: mk_chain_def)

lemma find_hd_filter: "find P xs = (if filter P xs = [] then None else Some (hd (filter P xs)))"
  by (induction xs) auto

text \<open>
  The chain that the plugin uses is the last custom chain with the id the provider reports;
  failing that the first built-in chain with that id; failing that it throws, and the error is
  \<open>NetworkNotSupportedError\<close> exactly on the in-process network.
\<close>

theorem getCurrentChainConfig_precedence:
  "getCurrentChainConfig hh name reply custom =
     (let current = js_parseInt 16 reply;
          cs = filter (\<lambda>c. Some (cc_chainId c) = current) custom;
          bs = filter (\<lambda>c. Some (cc_chainId c) = current) builtinChains
      in if cs \<noteq> [] then Inr (last cs)
         else if bs \<noteq> [] then Inr (hd bs)
         else Inl (if name = hh then NetworkNotSupportedError name else ChainConfigNotFoundError current))"
  by (simp add: getCurrentChainConfig_def find_append find_hd_filter rev_filter [symmetric] hd_rev Let_def)

end
