(* ===== verification/Solc_Bytecode.thy ===== *)
theory Solc_Bytecode
  imports Verify_Errors
begin

text \<open>
  Deployed bytecode and its comparison with what the compiler emitted: \<open>solc/metadata.ts\<close>,
  \<open>solc/bytecode.ts\<close> and the offset functions of \<open>solc/artifacts.ts\<close>.

  The packages the sources call are fields of the record \<open>externals\<close>, which is an argument of
  every definition that uses one of them: \<open>isAddress\<close> (ethers), the two functions on fully
  qualified names (hardhat), \<open>satisfies\<close> (semver), \<open>decodeFirstSync\<close> (cbor) and the constant
  \<open>HARDHAT_NETWORK_NAME\<close> (hardhat).
\<close>

section \<open>Called packages\<close>

text \<open>A decoded CBOR value, as far as reading its property \<open>solc\<close> can tell values apart.\<close>

datatype cbor_value =
    CNullish
  | CObject "(string \<times> cbor_value) list"
  | CBuffer "byte list"
  | COther

record externals =
  ext_isAddress :: "string \<Rightarrow> bool"
  ext_isFullyQualifiedName :: "string \<Rightarrow> bool"
  ext_parseFullyQualifiedName :: "string \<Rightarrow> verify_error + string \<times> string"
  ext_satisfies :: "string \<Rightarrow> string \<Rightarrow> bool"
  ext_decodeFirstSync :: "byte list \<Rightarrow> verify_error + cbor_value"
  ext_hardhatNetworkName :: string

section \<open>Metadata\<close>

definition METADATA_LENGTH :: nat where "METADATA_LENGTH = 2"

definition SOLC_NOT_FOUND_IN_METADATA_VERSION_RANGE :: string where
  "SOLC_NOT_FOUND_IN_METADATA_VERSION_RANGE = ''0.4.7 - 0.5.8''"

definition MISSING_METADATA_VERSION_RANGE :: string where
  "MISSING_METADATA_VERSION_RANGE = ''<0.4.7''"

text \<open>\<open>readUInt16BE\<close> throws a \<open>RangeError\<close> on a buffer of fewer than two bytes.\<close>

definition getMetadataSectionLength :: "byte list \<Rightarrow> verify_error + nat" where
  "getMetadataSectionLength bytecode =
     (case readUInt16BE (js_slice_from bytecode (- int METADATA_LENGTH)) of
        None \<Rightarrow> Inl (RangeError ''Attempt to access memory outside buffer bounds'')
      | Some n \<Rightarrow> Inr (n + METADATA_LENGTH))"

definition cbor_solc :: "cbor_value \<Rightarrow> verify_error + cbor_value option" where
  "cbor_solc v =
     (case v of
        CNullish \<Rightarrow> Inl (TypeError ''Cannot read properties of null (reading solc)'')
      | CObject kvs \<Rightarrow> Inr (map_of kvs ''solc'')
      | _ \<Rightarrow> Inr None)"

definition decodeSolcMetadata :: "externals \<Rightarrow> byte list \<Rightarrow> verify_error + cbor_value option" where
  "decodeSolcMetadata ext bytecode =
     bind_res (getMetadataSectionLength bytecode) (\<lambda>metadataSectionLength.
     let metadataPayload = js_slice bytecode (- int metadataSectionLength) (- int METADATA_LENGTH)
     in bind_res (ext_decodeFirstSync ext metadataPayload) cbor_solc)"

definition inferCompilerVersion :: "externals \<Rightarrow> byte list \<Rightarrow> string" where
  "inferCompilerVersion ext bytecode =
     (case decodeSolcMetadata ext bytecode of
        Inl _ \<Rightarrow> MISSING_METADATA_VERSION_RANGE
      | Inr (Some (CBuffer solcMetadata)) \<Rightarrow>
          (case solcMetadata of
             [major, minor, patch] \<Rightarrow>
               show_nat (unat major) @ ''.'' @ show_nat (unat minor) @ ''.'' @ show_nat (unat patch)
           | _ \<Rightarrow> SOLC_NOT_FOUND_IN_METADATA_VERSION_RANGE)
      | Inr _ \<Rightarrow> SOLC_NOT_FOUND_IN_METADATA_VERSION_RANGE)"

section \<open>Compiler output and the offsets that linking and construction fill in\<close>

record byte_offset =
  bo_start :: nat
  bo_length :: nat

record compiler_bytecode =
  cb_object :: string
  cb_linkReferences :: "byte_offset list obj obj"
  cb_immutableReferences :: "byte_offset list obj option"

definition getLibraryOffsets :: "byte_offset list obj obj option \<Rightarrow> byte_offset list" where
  "getLibraryOffsets linkReferences =
     concat (map (\<lambda>libraries. concat (obj_values libraries))
       (obj_values (case linkReferences of None \<Rightarrow> [] | Some refs \<Rightarrow> refs)))"

definition getImmutableOffsets :: "byte_offset list obj option \<Rightarrow> byte_offset list" where
  "getImmutableOffsets immutableReferences =
     concat (obj_values (case immutableReferences of None \<Rightarrow> [] | Some refs \<Rightarrow> refs))"

definition pushPlaceholder :: string where
  "pushPlaceholder = ''73'' @ js_repeat (CHR ''0'') (20 * 2)"

definition getCallProtectionOffsets :: "string \<Rightarrow> string \<Rightarrow> byte_offset list" where
  "getCallProtectionOffsets bytecode referenceBytecode =
     (if js_startsWith referenceBytecode pushPlaceholder \<and> js_startsWith bytecode ''73''
      then [\<lparr>bo_start = 1, bo_length = 20\<rparr>] else [])"

definition nullify_at :: "byte_offset \<Rightarrow> string \<Rightarrow> string" where
  "nullify_at off bytecode =
     js_slice bytecode 0 (int (bo_start off * 2)) @ js_repeat (CHR ''0'') (bo_length off * 2)
     @ js_slice_from bytecode (int ((bo_start off + bo_length off) * 2))"

definition nullifyBytecodeOffsets :: "string \<Rightarrow> compiler_bytecode \<Rightarrow> string" where
  "nullifyBytecodeOffsets bytecode out =
     fold nullify_at
       (getLibraryOffsets (Some (cb_linkReferences out))
        @ getImmutableOffsets (cb_immutableReferences out)
        @ getCallProtectionOffsets bytecode (cb_object out))
       bytecode"

definition inferExecutableSection :: "string \<Rightarrow> verify_error + string" where
  "inferExecutableSection bytecode0 =
     (let bytecode = (if js_startsWith bytecode0 ''0x'' then js_slice_from bytecode0 2 else bytecode0);
          metadataLengthSlice = buffer_from_hex (js_slice_from bytecode (- int METADATA_LENGTH * 2))
      in if length metadataLengthSlice \<noteq> METADATA_LENGTH then Inr bytecode
         else bind_res (getMetadataSectionLength metadataLengthSlice) (\<lambda>metadataSectionLength.
              Inr (js_slice bytecode 0 (int (length bytecode) - int metadataSectionLength * 2))))"

section \<open>The class Bytecode\<close>

definition OVM_FIND_OPCODES :: string where
  "OVM_FIND_OPCODES = ''336000905af158601d01573d60011458600c01573d6000803e3d621234565260ea61109c52''"

definition OVM_REPLACE_OPCODES :: string where
  "OVM_REPLACE_OPCODES = ''336000905af158600e01573d6000803e3d6000fd5b3d6001141558600a015760016000f35b''"

text \<open>
  The executable section is kept as a start and a length; the length is a subtraction that may
  come out negative, and \<open>slice\<close> then counts from the end.
\<close>

record bytecode_obj =
  bc_bytecode :: string
  bc_version :: string
  bc_executableSection :: "int \<times> int"
  bc_isOvm :: bool

definition Bytecode_new :: "externals \<Rightarrow> string \<Rightarrow> verify_error + bytecode_obj" where
  "Bytecode_new ext bytecode =
     (let bytecodeBuffer = buffer_from_hex bytecode;
          version = inferCompilerVersion ext bytecodeBuffer
      in bind_res (getMetadataSectionLength bytecodeBuffer) (\<lambda>sectionLength.
         Inr \<lparr>bc_bytecode = bytecode,
              bc_version = version,
              bc_executableSection = (0, int (length bytecode) - int sectionLength * 2),
              bc_isOvm = js_includes bytecode OVM_REPLACE_OPCODES\<rparr>))"

text \<open>\<open>response\<close> is the provider's answer to \<open>eth_getCode\<close> at the latest block.\<close>

definition getDeployedContractBytecode ::
    "externals \<Rightarrow> string \<Rightarrow> string \<Rightarrow> string \<Rightarrow> verify_error + bytecode_obj" where
  "getDeployedContractBytecode ext address response network =
     (let deployedBytecode = strip_prefix response ''0x''
      in if deployedBytecode = '''' then Inl (DeployedBytecodeNotFoundError address network)
         else Bytecode_new ext deployedBytecode)"

definition stringify :: "bytecode_obj \<Rightarrow> string" where
  "stringify b = bc_bytecode b"

definition getVersion :: "bytecode_obj \<Rightarrow> string" where
  "getVersion b = bc_version b"

definition isOvm :: "bytecode_obj \<Rightarrow> bool" where
  "isOvm b = bc_isOvm b"

definition hasVersionRange :: "bytecode_obj \<Rightarrow> bool" where
  "hasVersionRange b \<longleftrightarrow>
     bc_version b = MISSING_METADATA_VERSION_RANGE \<or> bc_version b = SOLC_NOT_FOUND_IN_METADATA_VERSION_RANGE"

definition getMatchingVersions :: "externals \<Rightarrow> bytecode_obj \<Rightarrow> string list \<Rightarrow> string list" where
  "getMatchingVersions ext b versions = filter (\<lambda>version. ext_satisfies ext version (bc_version b)) versions"

definition getExecutableSection :: "bytecode_obj \<Rightarrow> string" where
  "getExecutableSection b =
     js_slice (bc_bytecode b) (fst (bc_executableSection b)) (snd (bc_executableSection b))"

definition compare :: "bytecode_obj \<Rightarrow> compiler_bytecode \<Rightarrow> verify_error + bool" where
  "compare b out =
     bind_res (inferExecutableSection (cb_object out)) (\<lambda>inferred.
     let executableSection = getExecutableSection b;
         referenceExecutableSection =
           (if bc_isOvm b then js_join OVM_REPLACE_OPCODES (js_split inferred OVM_FIND_OPCODES) else inferred)
     in if length executableSection \<noteq> length referenceExecutableSection \<and> \<not> bc_isOvm b then Inr False
        else Inr (nullifyBytecodeOffsets executableSection out
                  = nullifyBytecodeOffsets referenceExecutableSection out))"

section \<open>What the comparison ignores\<close>

text \<open>
  The specification of the comparison: the positions of a section that linking, construction or
  the call protection of a library fill in, counted in hexadecimal digits.
\<close>

definition covers :: "byte_offset \<Rightarrow> nat \<Rightarrow> bool" where
  "covers off i \<longleftrightarrow> 2 * bo_start off \<le> i \<and> i < 2 * (bo_start off + bo_length off)"

definition fixed_offsets :: "compiler_bytecode \<Rightarrow> byte_offset list" where
  "fixed_offsets out =
     getLibraryOffsets (Some (cb_linkReferences out)) @ getImmutableOffsets (cb_immutableReferences out)"

definition call_protected :: "compiler_bytecode \<Rightarrow> bool" where
  "call_protected out \<longleftrightarrow> js_startsWith (cb_object out) pushPlaceholder"

definition masked :: "compiler_bytecode \<Rightarrow> nat \<Rightarrow> bool" where
  "masked out i \<longleftrightarrow> list_ex (\<lambda>off. covers off i) (fixed_offsets out) \<or> call_protected out \<and> 2 \<le> i \<and> i < 42"

text \<open>
  A compiler output whose offsets lie inside its section of \<open>n\<close> digits, and leave the \<open>PUSH20\<close>
  opcode of a call-protected library alone.
\<close>

definition wf_output :: "compiler_bytecode \<Rightarrow> nat \<Rightarrow> bool" where
  "wf_output out n \<longleftrightarrow>
     list_all (\<lambda>off. 2 * (bo_start off + bo_length off) \<le> n) (fixed_offsets out)
     \<and> (call_protected out \<longrightarrow> 42 \<le> n \<and> list_all (\<lambda>off. 1 \<le> bo_start off) (fixed_offsets out))"

section \<open>Masking\<close>

lemma nullify_at_eq:
  "nullify_at off s =
     take (2 * bo_start off) s @ replicate (2 * bo_length off) (CHR ''0'') @ drop (2 * (bo_start off + bo_length off)) s"
  unfolding nullify_at_def by (simp only: js_slice_0_int js_slice_from_int mult.commute [of _ 2])

lemma length_nullify_at:
  "2 * (bo_start off + bo_length off) \<le> length s \<Longrightarrow> length (nullify_at off s) = length s"
  by (simp add: nullify_at_eq)

lemma nth_nullify_at:
  assumes "2 * (bo_start off + bo_length off) \<le> length s" and "i < length s"
  shows "nullify_at off s ! i = (if covers off i then CHR ''0'' else s ! i)"
  using assms by (auto simp: nullify_at_eq covers_def nth_append)

lemma fold_nullify_at:
  assumes "list_all (\<lambda>off. 2 * (bo_start off + bo_length off) \<le> length s) offs"
  shows "length (fold nullify_at offs s) = length s"
    and "i < length s \<Longrightarrow>
         fold nullify_at offs s ! i = (if list_ex (\<lambda>off. covers off i) offs then CHR ''0'' else s ! i)"
  using assms
proof (induction offs arbitrary: s)
  case Nil
  { case 1 show ?case by simp }
  { case 2 then show ?case by simp }
next
  case (Cons off offs)
  { case 1
    then show ?case using Cons.IH(1) [of "nullify_at off s"] by (simp add: length_nullify_at) }
  { case 2
    then show ?case
      using Cons.IH(2) [of "nullify_at off s"] by (auto simp: length_nullify_at nth_nullify_at) }
qed

lemma call_protection_covers:
  "list_ex (\<lambda>off. covers off i) (getCallProtectionOffsets s (cb_object out))
     \<longleftrightarrow> call_protected out \<and> js_startsWith s ''73'' \<and> 2 \<le> i \<and> i < 42"
  by (auto simp: getCallProtectionOffsets_def call_protected_def covers_def)

lemma wf_output_all_offsets:
  "wf_output out n \<Longrightarrow>
     list_all (\<lambda>off. 2 * (bo_start off + bo_length off) \<le> n)
       (fixed_offsets out @ getCallProtectionOffsets s (cb_object out))"
  by (auto simp: wf_output_def call_protected_def getCallProtectionOffsets_def)

lemma nullifyBytecodeOffsets_alt:
  "nullifyBytecodeOffsets s out =
     fold nullify_at (fixed_offsets out @ getCallProtectionOffsets s (cb_object out)) s"
  by (simp add: nullifyBytecodeOffsets_def fixed_offsets_def)

lemma length_nullifyBytecodeOffsets:
  "wf_output out (length s) \<Longrightarrow> length (nullifyBytecodeOffsets s out) = length s"
  using fold_nullify_at(1) [OF wf_output_all_offsets] by (simp only: nullifyBytecodeOffsets_alt)

lemma nth_nullifyBytecodeOffsets:
  assumes "wf_output out (length s)" and "i < length s"
  shows "nullifyBytecodeOffsets s out ! i =
    (if list_ex (\<lambda>off. covers off i) (fixed_offsets out) \<or>
        call_protected out \<and> js_startsWith s ''73'' \<and> 2 \<le> i \<and> i < 42
     then CHR ''0'' else s ! i)"
  using fold_nullify_at(2) [OF wf_output_all_offsets [OF assms(1), of s] assms(2)]
  by (simp only: nullifyBytecodeOffsets_alt list_ex_append call_protection_covers)

section \<open>The executable section of the compiler's object\<close>

lemma getMetadataSectionLength_two: "length bs = 2 \<Longrightarrow> \<exists>n. getMetadataSectionLength bs = Inr n"
  by (auto simp: getMetadataSectionLength_def readUInt16BE_def METADATA_LENGTH_def js_slice_from_def
      js_index_def numeral_2_eq_2 length_Suc_conv)

lemma inferExecutableSection_total: "\<exists>r. inferExecutableSection s = Inr r"
  using getMetadataSectionLength_two
  by (auto simp: inferExecutableSection_def Let_def METADATA_LENGTH_def res_simps)

lemma js_slice_0_prefix: "\<exists>m. js_slice xs 0 k = take m xs"
  by (auto simp: js_slice_def)

lemma inferExecutableSection_prefix:
  assumes "inferExecutableSection s = Inr r" and "\<not> js_startsWith s ''0x''"
  shows "\<exists>m. r = take m s"
  using assms js_slice_0_prefix
  by (auto simp: inferExecutableSection_def Let_def res_simps split: if_splits intro: exI [of _ "length s"])

lemma call_protected_starts:
  assumes "call_protected out" and "inferExecutableSection (cb_object out) = Inr r" and "42 \<le> length r"
  shows "js_startsWith r ''73''"
proof -
  from assms(1) obtain ys where ob: "cb_object out = ''73'' @ replicate 40 (CHR ''0'') @ ys"
    by (auto simp: call_protected_def js_startsWith_iff pushPlaceholder_def)
  then have "\<not> js_startsWith (cb_object out) ''0x''" by (simp add: js_startsWith_def)
  with assms(2) obtain m where "r = take m (cb_object out)"
    by (auto dest: inferExecutableSection_prefix)
  with ob assms(3) show ?thesis by (cases m; cases "m - 1") (auto simp: js_startsWith_def)
qed

lemma not_startsWith_73:
  "2 \<le> length e \<Longrightarrow> \<not> js_startsWith e ''73'' \<longleftrightarrow> e ! 0 \<noteq> CHR ''7'' \<or> e ! 1 \<noteq> CHR ''3''"
  by (auto simp: js_startsWith_def numeral_2_eq_2 Suc_le_length_iff)

text \<open>The first two digits of a call-protected section are never masked.\<close>

lemma opcode_not_masked:
  assumes "wf_output out n" and "call_protected out" and "i < 2"
  shows "\<not> list_ex (\<lambda>off. covers off i) (fixed_offsets out)"
  using assms by (fastforce simp: wf_output_def covers_def list_ex_iff list_all_iff)

text \<open>
  Where one section starts with the opcode of the call protection and the other does not, the
  masked sections differ already in their first two digits.
\<close>

lemma nullify_opcode_mismatch:
  assumes wf: "wf_output out (length r)" and cp: "call_protected out"
    and len: "length e = length r"
    and r73: "js_startsWith r ''73''" and e73: "\<not> js_startsWith e ''73''"
  shows "nullifyBytecodeOffsets e out \<noteq> nullifyBytecodeOffsets r out"
    and "\<exists>i < length r. \<not> masked out i \<and> e ! i \<noteq> r ! i"
proof -
  from wf cp have n: "42 \<le> length r" by (simp add: wf_output_def)
  with len r73 e73 have r: "r ! 0 = CHR ''7''" "r ! 1 = CHR ''3''" and e: "e ! 0 \<noteq> CHR ''7'' \<or> e ! 1 \<noteq> CHR ''3''"
    using not_startsWith_73 [of r] not_startsWith_73 [of e] by auto
  then have "\<exists>i < 2. e ! i \<noteq> r ! i"
    by (cases "e ! 0 = r ! 0") (auto intro: exI [of _ 0] exI [of _ 1])
  then obtain i where i: "i < 2" "e ! i \<noteq> r ! i" by blast
  have out: "\<not> list_ex (\<lambda>off. covers off i) (fixed_offsets out)"
    by (rule opcode_not_masked [OF wf cp i(1)])
  with i n show "\<exists>i < length r. \<not> masked out i \<and> e ! i \<noteq> r ! i"
    by (intro exI [of _ i]) (auto simp: masked_def)
  have "nullifyBytecodeOffsets e out ! i = e ! i" "nullifyBytecodeOffsets r out ! i = r ! i"
    using i n out wf len by (simp_all add: nth_nullifyBytecodeOffsets)
  with i show "nullifyBytecodeOffsets e out \<noteq> nullifyBytecodeOffsets r out" by metis
qed

lemma nullify_eq_iff:
  assumes wf: "wf_output out (length r)" and len: "length e = length r"
    and inf: "inferExecutableSection (cb_object out) = Inr r"
  shows "nullifyBytecodeOffsets e out = nullifyBytecodeOffsets r out
     \<longleftrightarrow> (\<forall>i < length r. masked out i \<or> e ! i = r ! i)"
proof (cases "call_protected out \<and> \<not> js_startsWith e ''73''")
  case True
  have "js_startsWith r ''73''"
    using True inf wf by (intro call_protected_starts) (auto simp: wf_output_def)
  with True len wf show ?thesis using nullify_opcode_mismatch [of out r e] by auto
next
  case False
  have "call_protected out \<longrightarrow> js_startsWith r ''73''"
    using inf wf by (auto simp: wf_output_def intro: call_protected_starts)
  with False have same: "nullifyBytecodeOffsets s out ! i = (if masked out i then CHR ''0'' else s ! i)"
    if "s \<in> {e, r}" "i < length r" for s i
    using that wf len by (auto simp: nth_nullifyBytecodeOffsets masked_def)
  have "length (nullifyBytecodeOffsets s out) = length r" if "s \<in> {e, r}" for s
    using that wf len by (auto simp: length_nullifyBytecodeOffsets)
  then have "nullifyBytecodeOffsets e out = nullifyBytecodeOffsets r out
     \<longleftrightarrow> (\<forall>i < length r. nullifyBytecodeOffsets e out ! i = nullifyBytecodeOffsets r out ! i)"
    by (simp add: list_eq_iff_nth_eq)
  with same show ?thesis by auto
qed


text \<open>A contract of four bytes with one library of two bytes, and its deployment.\<close>

definition sample_output :: compiler_bytecode where
  "sample_output =
     \<lparr>cb_object = ''0x60__L_60a1a10002'',
      cb_linkReferences = [(''contracts/VeLogo.sol'', [(''VeLogo'', [\<lparr>bo_start = 1, bo_length = 2\<rparr>])])],
      cb_immutableReferences = None\<rparr>"

definition sample_bytecode :: bytecode_obj where
  "sample_bytecode =
     \<lparr>bc_bytecode = ''60aabb60b2b20002'', bc_version = ''0.8.19'', bc_executableSection = (0, 8), bc_isOvm = False\<rparr>"


section \<open>Two ways to find the executable section\<close>

lemma hex_val_Some: "is_digit_in 16 c \<Longrightarrow> \<exists>d. hex_val c = Some d"
  by (auto simp: hex_val_def is_digit_in_def split: option.splits)

lemma buffer_from_hex_append:
  "list_all (is_digit_in 16) xs \<Longrightarrow> even (length xs) \<Longrightarrow>
     buffer_from_hex (xs @ ys) = buffer_from_hex xs @ buffer_from_hex ys"
proof (induction xs rule: buffer_from_hex.induct)
  case (1 a b cs)
  then show ?case
    using hex_val_Some [of a] hex_val_Some [of b] by (auto split: option.splits)
qed auto

lemma length_buffer_from_hex:
  "list_all (is_digit_in 16) xs \<Longrightarrow> length (buffer_from_hex xs) = length xs div 2"
proof (induction xs rule: buffer_from_hex.induct)
  case (1 a b cs)
  then show ?case
    using hex_val_Some [of a] hex_val_Some [of b] by (auto split: option.splits)
qed auto

lemma getMetadataSectionLength_tail:
  "2 \<le> length tl_bytes \<Longrightarrow> getMetadataSectionLength (bs @ tl_bytes) = getMetadataSectionLength tl_bytes"
  by (simp add: getMetadataSectionLength_def METADATA_LENGTH_def js_slice_from_neg [of 2, simplified])

lemma hex_not_0x: "list_all (is_digit_in 16) s \<Longrightarrow> \<not> js_startsWith s ''0x''"
proof
  assume "list_all (is_digit_in 16) s" "js_startsWith s ''0x''"
  then have "is_digit_in 16 (CHR ''x'')" by (auto simp: js_startsWith_iff)
  then show False by (simp add: is_digit_in_def digit_val_def)
qed

lemma getMetadataSectionLength_error_iff:
  "getMetadataSectionLength bs = Inl e \<longleftrightarrow>
     length bs < 2 \<and> e = RangeError ''Attempt to access memory outside buffer bounds''"
proof (cases "length bs < 2")
  case True
  then have "readUInt16BE (js_slice_from bs (- 2)) = None"
    by (cases bs; cases "tl bs") (auto simp: readUInt16BE_def js_slice_from_def js_index_def)
  with True show ?thesis by (auto simp: getMetadataSectionLength_def METADATA_LENGTH_def)
next
  case False
  then have "length (drop (length bs - 2) bs) = 2" by simp
  then obtain n where "getMetadataSectionLength (drop (length bs - 2) bs) = Inr n"
    using getMetadataSectionLength_two by blast
  moreover have "getMetadataSectionLength bs = getMetadataSectionLength (drop (length bs - 2) bs)"
    using getMetadataSectionLength_tail [of "drop (length bs - 2) bs" "take (length bs - 2) bs"] False by simp
  ultimately show ?thesis using False by simp
qed

text \<open>
  On hexadecimal bytecode of at least two bytes, the section that the constructor of
  \<open>Bytecode\<close> finds by decoding all of the bytecode is the one that \<open>inferExecutableSection\<close> finds
  from the last four digits only, with or without the prefix \<open>0x\<close>.
\<close>

theorem executable_section_agree:
  assumes hex: "list_all (is_digit_in 16) s" and ev: "even (length s)" and len: "4 \<le> length s"
  shows "\<exists>b. Bytecode_new ext s = Inr b
      \<and> inferExecutableSection s = Inr (getExecutableSection b)
      \<and> inferExecutableSection (''0x'' @ s) = Inr (getExecutableSection b)"
proof -
  let ?a = "take (length s - 4) s" and ?z = "drop (length s - 4) s"
  have hz: "list_all (is_digit_in 16) ?a" "list_all (is_digit_in 16) ?z"
    using hex by (auto simp: list_all_iff dest: in_set_takeD in_set_dropD)
  have "buffer_from_hex s = buffer_from_hex ?a @ buffer_from_hex ?z"
    using buffer_from_hex_append [OF hz(1), of ?z] ev len by simp
  moreover have z2: "length (buffer_from_hex ?z) = 2"
    using length_buffer_from_hex [OF hz(2)] len by simp
  ultimately have same: "getMetadataSectionLength (buffer_from_hex s) = getMetadataSectionLength (buffer_from_hex ?z)"
    by (simp add: getMetadataSectionLength_tail)
  obtain n where n: "getMetadataSectionLength (buffer_from_hex ?z) = Inr n"
    using getMetadataSectionLength_two [OF z2] by blast
  have "js_slice_from s (- int METADATA_LENGTH * 2) = ?z"
    using js_slice_from_neg [of 4 s] by (simp add: METADATA_LENGTH_def)
  then have "inferExecutableSection s = Inr (js_slice s 0 (int (length s) - int n * 2))"
    using n z2 hex_not_0x [OF hex] by (simp add: inferExecutableSection_def Let_def METADATA_LENGTH_def)
  moreover have "inferExecutableSection (''0x'' @ s) = inferExecutableSection s"
    using hex_not_0x [OF hex]
    by (simp add: inferExecutableSection_def js_startsWith_def js_slice_from_def js_index_def)
  ultimately show ?thesis
    using same n by (auto simp: Bytecode_new_def getExecutableSection_def Let_def)
qed

definition sample_externals :: externals where
  "sample_externals =
     \<lparr>ext_isAddress = (\<lambda>a. length a = 42),
      ext_isFullyQualifiedName = (\<lambda>s. CHR '':'' \<in> set s),
      ext_parseFullyQualifiedName =
        (\<lambda>s. if CHR '':'' \<in> set s
             then Inr (rev (drop 1 (dropWhile (\<lambda>c. c \<noteq> CHR '':'') (rev s))),
                       rev (takeWhile (\<lambda>c. c \<noteq> CHR '':'') (rev s)))
             else Inl (ForeignError ''HH701'')),
      ext_satisfies = (\<lambda>v range. v = range),
      ext_decodeFirstSync = (\<lambda>bs. if bs = [] then Inl (ForeignError ''cbor'') else Inr (CObject [(''solc'', CBuffer [0, 8, 19])])),
      ext_hardhatNetworkName = ''hardhat''\<rparr>"

theorem executable_section_agree_witness:
  "\<exists>b. Bytecode_new sample_externals ''60aabb60b2b20002'' = Inr b
      \<and> inferExecutableSection ''60aabb60b2b20002'' = Inr (getExecutableSection b)
      \<and> inferExecutableSection (''0x'' @ ''60aabb60b2b20002'') = Inr (getExecutableSection b)"
  by (rule executable_section_agree; code_simp)

text \<open>
  Constructing a \<open>Bytecode\<close> throws exactly when fewer than two bytes can be decoded; the error
  is an unwrapped \<open>RangeError\<close>, although \<open>inferExecutableSection\<close> accepts any input.
\<close>

theorem Bytecode_new_throws_iff:
  "(Bytecode_new ext s = Inl e \<longleftrightarrow>
     length (buffer_from_hex s) < 2 \<and> e = RangeError ''Attempt to access memory outside buffer bounds'')
   \<and> (\<exists>r. inferExecutableSection s = Inr r)"
  using inferExecutableSection_total
  by (simp add: Bytecode_new_def Let_def res_simps getMetadataSectionLength_error_iff)

section \<open>The compiler version of deployed bytecode\<close>

lemma show_nat_no_char: "c \<in> {CHR ''<'', CHR '' '', CHR ''-''} \<Longrightarrow> c \<notin> set (show_nat n)"
  by (auto dest!: show_nat_digits simp: digit_char_def dest!: arg_cong [of _ _ "of_char :: char \<Rightarrow> nat"])

lemma dotted_version_not_range:
  "show_nat x @ ''.'' @ show_nat y @ ''.'' @ show_nat z \<notin>
     {MISSING_METADATA_VERSION_RANGE, SOLC_NOT_FOUND_IN_METADATA_VERSION_RANGE}"
proof
  assume "show_nat x @ ''.'' @ show_nat y @ ''.'' @ show_nat z \<in>
     {MISSING_METADATA_VERSION_RANGE, SOLC_NOT_FOUND_IN_METADATA_VERSION_RANGE}"
  then have "CHR ''<'' \<in> set (show_nat x @ ''.'' @ show_nat y @ ''.'' @ show_nat z)
      \<or> CHR '' '' \<in> set (show_nat x @ ''.'' @ show_nat y @ ''.'' @ show_nat z)"
    by (auto simp: MISSING_METADATA_VERSION_RANGE_def SOLC_NOT_FOUND_IN_METADATA_VERSION_RANGE_def
        simp del: set_append)
  then show False by (auto simp: show_nat_no_char)
qed

text \<open>
  Deployed bytecode is taken to be marked with one compiler version, rather than with a version
  range, exactly when the \<open>solc\<close> field of its metadata is three bytes, and then the version is these
  bytes printed with dots.
\<close>

theorem version_exact_iff_three_bytes:
  assumes "Bytecode_new ext s = Inr b"
  shows "\<not> hasVersionRange b \<longleftrightarrow>
     (\<exists>x y z. decodeSolcMetadata ext (buffer_from_hex s) = Inr (Some (CBuffer [x, y, z]))
        \<and> getVersion b = show_nat (unat x) @ ''.'' @ show_nat (unat y) @ ''.'' @ show_nat (unat z))"
proof -
  have v: "getVersion b = inferCompilerVersion ext (buffer_from_hex s)"
      "bc_version b = inferCompilerVersion ext (buffer_from_hex s)"
    using assms by (auto simp: Bytecode_new_def Let_def res_simps getVersion_def)
  show ?thesis
    using dotted_version_not_range
    unfolding hasVersionRange_def v inferCompilerVersion_def
    by (auto split: sum.splits option.splits cbor_value.splits list.splits)
qed

theorem version_exact_iff_three_bytes_witness:
  "\<not> hasVersionRange sample_bytecode"
proof -
  have b: "Bytecode_new sample_externals ''60aabb60b2b20002'' = Inr sample_bytecode" by code_simp
  have "decodeSolcMetadata sample_externals (buffer_from_hex ''60aabb60b2b20002'') = Inr (Some (CBuffer [0, 8, 19]))"
    by code_simp
  moreover have "getVersion sample_bytecode = show_nat (unat (0 :: byte)) @ ''.'' @ show_nat (unat (8 :: byte)) @ ''.'' @ show_nat (unat (19 :: byte))"
    by code_simp
  ultimately show ?thesis
    using version_exact_iff_three_bytes [OF b] by blast
qed

end
