(* ===== verification/Verify_Utilities.thy ===== *)
theory Verify_Utilities
  imports Chain_Config Solc_Bytecode
begin

text \<open>
  The helpers of the plugin (\<open>utilities.ts\<close>) and the recognisers of the errors that the ABI encoder
  throws (\<open>abi-validation-extras.ts\<close>). The packages that they call are arguments: the ABI encoder,
  the module loader, \<open>path.resolve\<close>, \<open>table\<close> and \<open>chalk.bold\<close>.
\<close>

section \<open>Values of any type\<close>

text \<open>\<open>typeof v\<close>, with \<open>None\<close> for \<open>undefined\<close>.\<close>

definition js_typeof :: "json option \<Rightarrow> string" where
  "js_typeof v =
     (case v of
        None \<Rightarrow> ''undefined''
      | Some (JBool _) \<Rightarrow> ''boolean''
      | Some (JNum _) \<Rightarrow> ''number''
      | Some (JStr _) \<Rightarrow> ''string''
      | Some _ \<Rightarrow> ''object'')"

text \<open>\<open>v.k\<close>: reading a property of \<open>undefined\<close> or \<open>null\<close> throws.\<close>

definition js_prop :: "json option \<Rightarrow> string \<Rightarrow> verify_error + json option" where
  "js_prop v k =
     (case v of
        None \<Rightarrow> Inl (TypeError ''Cannot read properties of undefined'')
      | Some JNull \<Rightarrow> Inl (TypeError ''Cannot read properties of null'')
      | Some (JObj kvs) \<Rightarrow> Inr (map_of kvs k)
      | Some _ \<Rightarrow> Inr None)"

text \<open>\<open>String(v)\<close>, as a template literal prints a value.\<close>

fun js_String :: "json option \<Rightarrow> string" where
  "js_String None = ''undefined''"
| "js_String (Some JNull) = ''null''"
| "js_String (Some (JBool b)) = (if b then ''true'' else ''false'')"
| "js_String (Some (JNum n)) = show_int n"
| "js_String (Some (JStr s)) = s"
| "js_String (Some (JArr xs)) = js_join '','' (map (\<lambda>x. if x = JNull then '''' else js_String (Some x)) xs)"
| "js_String (Some (JObj _)) = ''[object Object]''"

definition and_res :: "'e + bool \<Rightarrow> 'e + bool \<Rightarrow> 'e + bool" where
  "and_res a b = bind_res a (\<lambda>x. if x then b else Inr False)"

section \<open>Errors of the ABI encoder\<close>

record js_error =
  je_isError :: bool
  je_message :: string
  je_props :: "json obj"

definition isABIArgumentLengthError :: "js_error \<Rightarrow> verify_error + bool" where
  "isABIArgumentLengthError er =
     (let p = (\<lambda>k. obj_get (je_props er) k)
      in and_res (Inr (p ''code'' = Some (JStr ''INVALID_ARGUMENT'')))
        (and_res (Inr (p ''count'' \<noteq> None))
        (and_res (bind_res (js_prop (p ''count'') ''types'') (\<lambda>v. Inr (js_typeof v = ''number'')))
        (and_res (bind_res (js_prop (p ''count'') ''values'') (\<lambda>v. Inr (js_typeof v = ''number'')))
        (and_res (Inr (p ''value'' \<noteq> None))
        (and_res (bind_res (js_prop (p ''value'') ''types'') (\<lambda>v. Inr (js_typeof v = ''object'')))
        (and_res (bind_res (js_prop (p ''value'') ''values'') (\<lambda>v. Inr (js_typeof v = ''object'')))
        (Inr (je_isError er)))))))))"

definition isABIArgumentTypeError :: "js_error \<Rightarrow> bool" where
  "isABIArgumentTypeError er \<longleftrightarrow>
     obj_get (je_props er) ''code'' = Some (JStr ''INVALID_ARGUMENT'')
     \<and> js_typeof (obj_get (je_props er) ''argument'') = ''string''
     \<and> obj_has (je_props er) ''value'' \<and> je_isError er"

definition isABIArgumentOverflowError :: "js_error \<Rightarrow> bool" where
  "isABIArgumentOverflowError er \<longleftrightarrow>
     obj_get (je_props er) ''code'' = Some (JStr ''NUMERIC_FAULT'')
     \<and> obj_get (je_props er) ''fault'' = Some (JStr ''overflow'')
     \<and> js_typeof (obj_get (je_props er) ''operation'') = ''string''
     \<and> obj_has (je_props er) ''value'' \<and> je_isError er"

definition json_int :: "json option \<Rightarrow> int" where
  "json_int v = (case v of Some (JNum n) \<Rightarrow> n | _ \<Rightarrow> 0)"

text \<open>
  The data that the constructors of the three error classes read. The length error is built only
  after its recogniser found two numbers under \<open>count\<close>.
\<close>

definition length_error_data :: "js_error \<Rightarrow> abi_length_error" where
  "length_error_data er =
     (case obj_get (je_props er) ''count'' of
        Some (JObj kvs) \<Rightarrow> \<lparr>ale_types = json_int (map_of kvs ''types''), ale_values = json_int (map_of kvs ''values'')\<rparr>
      | _ \<Rightarrow> \<lparr>ale_types = 0, ale_values = 0\<rparr>)"

definition type_error_data :: "js_error \<Rightarrow> abi_type_error" where
  "type_error_data er =
     \<lparr>ate_value = js_String (obj_get (je_props er) ''value''),
      ate_argument = js_String (obj_get (je_props er) ''argument''),
      ate_reason = js_String (obj_get (je_props er) ''reason'')\<rparr>"

definition overflow_error_data :: "js_error \<Rightarrow> abi_overflow_error" where
  "overflow_error_data er =
     \<lparr>aoe_value = js_String (obj_get (je_props er) ''value''),
      aoe_fault = js_String (obj_get (je_props er) ''fault''),
      aoe_operation = js_String (obj_get (je_props er) ''operation'')\<rparr>"

text \<open>
  \<open>newInterface\<close> is the constructor \<open>new Interface(abi)\<close>, which may throw outside the \<open>try\<close>; its
  result is the method \<open>encodeDeploy\<close>.
\<close>

definition encodeArguments ::
    "(json \<Rightarrow> verify_error + (json list \<Rightarrow> js_error + string)) \<Rightarrow> json \<Rightarrow> string \<Rightarrow> string \<Rightarrow> json list
      \<Rightarrow> verify_error + string" where
  "encodeArguments newInterface abi sourceName contractName constructorArguments =
     bind_res (newInterface abi) (\<lambda>encodeDeploy.
       case encodeDeploy constructorArguments of
         Inr encoded \<Rightarrow> Inr (js_replace_first encoded ''0x'' '''')
       | Inl er \<Rightarrow>
           bind_res (isABIArgumentLengthError er) (\<lambda>isLength.
             if isLength then Inl (ABIArgumentLengthError sourceName contractName (length_error_data er))
             else if isABIArgumentTypeError er then Inl (ABIArgumentTypeError (type_error_data er))
             else if isABIArgumentOverflowError er then Inl (ABIArgumentOverflowError (overflow_error_data er))
             else Inl (ForeignError (je_message er))))"

section \<open>Arguments given as modules\<close>

text \<open>The default export of a module, as far as the plugin tells values apart.\<close>

datatype module_default = ModArray "json list" | ModObject "string obj" | ModNull | ModOther

definition resolveConstructorArguments ::
    "(string \<Rightarrow> string) \<Rightarrow> (string \<Rightarrow> verify_error + module_default) \<Rightarrow> json list \<Rightarrow> string option
      \<Rightarrow> verify_error + json list" where
  "resolveConstructorArguments resolvePath importModule constructorArgsParams constructorArgsModule =
     (case constructorArgsModule of
        None \<Rightarrow> Inr constructorArgsParams
      | Some m \<Rightarrow>
          if 0 < length constructorArgsParams then Inl ExclusiveConstructorArgumentsError
          else
            let constructorArgsModulePath = resolvePath m
            in case bind_res (importModule constructorArgsModulePath) (\<lambda>d.
                      case d of
                        ModArray xs \<Rightarrow> Inr xs
                      | _ \<Rightarrow> Inl (InvalidConstructorArgumentsModuleError constructorArgsModulePath)) of
                 Inr xs \<Rightarrow> Inr xs
               | Inl er \<Rightarrow> Inl (ImportingModuleError ''constructor arguments list'' er))"

text \<open>\<open>null\<close> passes the check \<open>typeof libraries !== 'object'\<close>: the result \<open>None\<close> is \<open>null\<close>.\<close>

definition resolveLibraries ::
    "(string \<Rightarrow> string) \<Rightarrow> (string \<Rightarrow> verify_error + module_default) \<Rightarrow> string option
      \<Rightarrow> verify_error + string obj option" where
  "resolveLibraries resolvePath importModule librariesModule =
     (case librariesModule of
        None \<Rightarrow> Inr (Some [])
      | Some m \<Rightarrow>
          let librariesModulePath = resolvePath m
          in case bind_res (importModule librariesModulePath) (\<lambda>d.
                    case d of
                      ModObject ob \<Rightarrow> Inr (Some ob)
                    | ModNull \<Rightarrow> Inr None
                    | _ \<Rightarrow> Inl (InvalidLibrariesModuleError librariesModulePath)) of
               Inr r \<Rightarrow> Inr r
             | Inl er \<Rightarrow> Inl (ImportingModuleError ''libraries dictionary'' er))"

section \<open>Compiler versions\<close>

definition supportedSolcVersionRange :: string where
  "supportedSolcVersionRange = ''>=0.4.11''"

definition getCompilerVersions ::
    "externals \<Rightarrow> string list \<Rightarrow> string obj option \<Rightarrow> verify_error + string list" where
  "getCompilerVersions ext compilers overrides =
     (let compilerVersions = compilers @ (case overrides of None \<Rightarrow> [] | Some ov \<Rightarrow> obj_values ov)
      in if list_ex (\<lambda>version. \<not> ext_satisfies ext version supportedSolcVersionRange) compilerVersions
         then Inl EtherscanVersionNotSupportedError
         else Inr compilerVersions)"

section \<open>The list of supported networks\<close>

definition network_rows :: "chain_config list \<Rightarrow> string list list" where
  "network_rows cs = map (\<lambda>c. [cc_network c, show_int (cc_chainId c)]) cs"

text \<open>The message that is printed; \<open>table\<close> and \<open>bold\<close> are the packages \<open>table\<close> and \<open>chalk\<close>.\<close>

definition printSupportedNetworks ::
    "(string list list \<Rightarrow> string) \<Rightarrow> (string \<Rightarrow> string) \<Rightarrow> chain_config list \<Rightarrow> string" where
  "printSupportedNetworks table bold custom =
     (let head = [bold ''network'', bold ''chain id''];
          supportedNetworksTable = table (head # network_rows builtinChains);
          customNetworksTable =
            (if 0 < length (network_rows custom) then table (head # network_rows custom)
             else table [ [''No custom networks were added''] ])
      in trim_start
           (nl @ ''Networks supported by hardhat-etherscan:'' @ nl @ nl @ supportedNetworksTable @ nl @ nl
            @ ''Custom networks added by you or by plugins:'' @ nl @ nl @ customNetworksTable @ nl @ nl
            @ ''To learn how to add custom networks, follow these instructions: https://hardhat.org/verify-custom-networks'' @ nl))"

end
