(* ===== verification/Etherscan_Client.thy ===== *)
theory Etherscan_Client
  imports Verify_Utilities
begin

text \<open>
  The client of the block explorer (\<open>etherscan.ts\<close>) and the HTTP requests under it (\<open>undici.ts\<close>).

  The package \<open>undici\<close> and the servers behind it are the function \<open>ne_request\<close> of the record
  \<open>net_env\<close>: it takes a request and the state of the outside, and gives a response or an exception
  and the next state. Time that passes in \<open>sleep\<close> is part of that state. A method of the client is
  a computation over a \<open>world\<close>, which holds the state of the outside and the files that the tasks
  write.
\<close>

section \<open>The outside\<close>

datatype dispatcher = ProxyAgent string | GlobalDispatcher

record http_request =
  rq_url :: string
  rq_verb :: string
  rq_headers :: "string obj"
  rq_body :: "string option"
  rq_dispatcher :: dispatcher

text \<open>A response, with what \<open>body.text()\<close> and \<open>body.json()\<close> give on it.\<close>

record http_response =
  hr_statusCode :: int
  hr_text :: "verify_error + string"
  hr_json :: "verify_error + json"

record 'n net_env =
  ne_request :: "http_request \<Rightarrow> 'n \<Rightarrow> (verify_error + http_response) \<times> 'n"
  ne_http_proxy :: "string option"

record 'n world =
  w_net :: 'n
  w_files :: "string obj"

section \<open>Requests\<close>

definition getDispatcher :: "'n net_env \<Rightarrow> dispatcher" where
  "getDispatcher env = (case ne_http_proxy env of Some p \<Rightarrow> ProxyAgent p | None \<Rightarrow> GlobalDispatcher)"

definition send_request :: "'n net_env \<Rightarrow> http_request \<Rightarrow> ('n world, verify_error, http_response) io" where
  "send_request env rq w =
     (case ne_request env rq (w_net w) of (r, n') \<Rightarrow> Some (r, w\<lparr>w_net := n'\<rparr>))"

definition sendGetRequest :: "'n net_env \<Rightarrow> string \<Rightarrow> ('n world, verify_error, http_response) io" where
  "sendGetRequest env url =
     send_request env
       \<lparr>rq_url = url, rq_verb = ''GET'', rq_headers = [], rq_body = None, rq_dispatcher = getDispatcher env\<rparr>"

definition sendPostRequest :: "'n net_env \<Rightarrow> string \<Rightarrow> string \<Rightarrow> ('n world, verify_error, http_response) io" where
  "sendPostRequest env url body =
     send_request env
       \<lparr>rq_url = url, rq_verb = ''POST'',
        rq_headers = [(''Content-Type'', ''application/x-www-form-urlencoded'')],
        rq_body = Some body, rq_dispatcher = getDispatcher env\<rparr>"

text \<open>
  \<open>new URL(s)\<close> for the URLs an explorer has: scheme \<open>http\<close> or \<open>https\<close> in lower case and a host
  that is already in its normal form. A missing path becomes \<open>/\<close>; anything else throws.
\<close>

definition new_URL :: "string \<Rightarrow> verify_error + string" where
  "new_URL s =
     (let t = trim s;
          scheme = (if js_startsWith t ''https://'' then ''https://''
                    else if js_startsWith t ''http://'' then ''http://'' else '''');
          rest = drop (length scheme) t;
          host = takeWhile (\<lambda>c. c \<notin> {CHR ''/'', CHR ''?'', CHR ''#''}) rest;
          tail = dropWhile (\<lambda>c. c \<notin> {CHR ''/'', CHR ''?'', CHR ''#''}) rest
      in if scheme = '''' \<or> host = '''' then Inl (TypeError ''Invalid URL'')
         else Inr (scheme @ host @ (if js_startsWith tail ''/'' then tail else CHR ''/'' # tail)))"

section \<open>The class EtherscanResponse\<close>

record etherscan_response =
  er_status :: "int option"
  er_message :: "json option"

text \<open>Reading \<open>status\<close> of \<open>null\<close> throws; \<open>parseInt\<close> first turns its argument into a string.\<close>

definition EtherscanResponse_new :: "json \<Rightarrow> verify_error + etherscan_response" where
  "EtherscanResponse_new response =
     bind_res (js_prop (Some response) ''status'') (\<lambda>status.
     bind_res (js_prop (Some response) ''result'') (\<lambda>res.
     Inr \<lparr>er_status = js_parseInt 10 (js_String status), er_message = res\<rparr>))"

definition isPending :: "etherscan_response \<Rightarrow> bool" where
  "isPending r \<longleftrightarrow> er_message r = Some (JStr ''Pending in queue'')"

definition isFailure :: "etherscan_response \<Rightarrow> bool" where
  "isFailure r \<longleftrightarrow> er_message r = Some (JStr ''Fail - Unable to verify'')"

definition isSuccess :: "etherscan_response \<Rightarrow> bool" where
  "isSuccess r \<longleftrightarrow> er_message r = Some (JStr ''Pass - Verified'')"

text \<open>\<open>startsWith\<close> is a method of strings only.\<close>

definition isBytecodeMissingInNetworkError :: "etherscan_response \<Rightarrow> verify_error + bool" where
  "isBytecodeMissingInNetworkError r =
     (case er_message r of
        Some (JStr m) \<Rightarrow> Inr (js_startsWith m ''Unable to locate ContractCode at'')
      | _ \<Rightarrow> Inl (TypeError ''this.message.startsWith is not a function''))"

definition isOk :: "etherscan_response \<Rightarrow> bool" where
  "isOk r \<longleftrightarrow> er_status r = Some 1"

section \<open>The class Etherscan\<close>

record etherscan =
  es_apiKey :: string
  es_apiUrl :: string
  es_browserUrl :: string

definition resolveApiKey :: "api_key option \<Rightarrow> string \<Rightarrow> verify_error + string" where
  "resolveApiKey apiKey network =
     (case apiKey of
        None \<Rightarrow> Inl (MissingApiKeyError network)
      | Some (ApiKeyString k) \<Rightarrow> if k = '''' then Inl (MissingApiKeyError network) else Inr k
      | Some (ApiKeyRecord ks) \<Rightarrow>
          (case obj_get ks network of
             None \<Rightarrow> Inl (MissingApiKeyError network)
           | Some k \<Rightarrow> if k = '''' then Inl (MissingApiKeyError network) else Inr k))"

definition Etherscan_new :: "api_key option \<Rightarrow> chain_config \<Rightarrow> verify_error + etherscan" where
  "Etherscan_new apiKey chainConfig =
     bind_res (resolveApiKey apiKey (cc_network chainConfig)) (\<lambda>key.
     Inr \<lparr>es_apiKey = key, es_apiUrl = cc_apiURL chainConfig,
          es_browserUrl = strip_last (trim (cc_browserURL chainConfig)) (CHR ''/'')\<rparr>)"

definition getContractUrl :: "etherscan \<Rightarrow> string \<Rightarrow> string" where
  "getContractUrl es address = es_browserUrl es @ ''/address/'' @ address @ ''#code''"

text \<open>The parameters of the three requests, in the order the sources list them.\<close>

definition isVerified_parameters :: "etherscan \<Rightarrow> string \<Rightarrow> (string \<times> string) list" where
  "isVerified_parameters es address =
     [(''apikey'', es_apiKey es), (''module'', ''contract''), (''action'', ''getsourcecode''),
      (''address'', address)]"

record verify_params =
  vp_address :: string
  vp_sourceCode :: string
  vp_sourceName :: string
  vp_contractName :: string
  vp_compilerVersion :: string
  vp_encodedConstructorArguments :: string

definition verify_parameters :: "etherscan \<Rightarrow> verify_params \<Rightarrow> (string \<times> string) list" where
  "verify_parameters es p =
     [(''apikey'', es_apiKey es), (''module'', ''contract''), (''action'', ''verifysourcecode''),
      (''contractaddress'', vp_address p), (''sourceCode'', vp_sourceCode p),
      (''codeformat'', ''solidity-standard-json-input''),
      (''contractname'', vp_sourceName p @ '':'' @ vp_contractName p),
      (''compilerversion'', CHR ''v'' # vp_compilerVersion p),
      (''constructorArguements'', vp_encodedConstructorArguments p)]"

definition status_parameters :: "etherscan \<Rightarrow> string \<Rightarrow> (string \<times> string) list" where
  "status_parameters es guid =
     [(''apikey'', es_apiKey es), (''module'', ''contract''), (''action'', ''checkverifystatus''),
      (''guid'', guid)]"

text \<open>\<open>new URL(this._apiUrl)\<close> followed by \<open>url.search = parameters.toString()\<close>.\<close>

definition query_url :: "etherscan \<Rightarrow> (string \<times> string) list \<Rightarrow> verify_error + string" where
  "query_url es ps =
     bind_res (new_URL (es_apiUrl es)) (\<lambda>url. Inr (url_set_search url (URLSearchParams_toString ps)))"

text \<open>\<open>json?.result?.[0]?.SourceCode\<close>, which never throws.\<close>

definition first_SourceCode :: "json \<Rightarrow> json option" where
  "first_SourceCode v =
     (case v of
        JObj kvs \<Rightarrow>
          (case map_of kvs ''result'' of
             Some (JArr (JObj entry # _)) \<Rightarrow> map_of entry ''SourceCode''
           | Some (JObj entries) \<Rightarrow>
               (case map_of entries ''0'' of Some (JObj entry) \<Rightarrow> map_of entry ''SourceCode'' | _ \<Rightarrow> None)
           | _ \<Rightarrow> None)
      | _ \<Rightarrow> None)"

definition isVerified_reply :: "json \<Rightarrow> verify_error + bool" where
  "isVerified_reply json =
     bind_res (js_prop (Some json) ''message'') (\<lambda>message.
     Inr (if message \<noteq> Some (JStr ''OK'') then False
          else first_SourceCode json \<noteq> None \<and> first_SourceCode json \<noteq> Some (JStr '''')))"

definition isVerified :: "'n net_env \<Rightarrow> etherscan \<Rightarrow> string \<Rightarrow> ('n world, verify_error, bool) io" where
  "isVerified env es address =
     bind_io (lift_io (query_url es (isVerified_parameters es address))) (\<lambda>url.
     bind_io (sendGetRequest env url) (\<lambda>response.
     lift_io (bind_res (hr_json response) isVerified_reply)))"

definition status_in_200s :: "http_response \<Rightarrow> bool" where
  "status_in_200s response \<longleftrightarrow> 200 \<le> hr_statusCode response \<and> hr_statusCode response \<le> 299"

definition verify_reply :: "etherscan \<Rightarrow> string \<Rightarrow> http_response \<Rightarrow> verify_error + etherscan_response" where
  "verify_reply es address response =
     (if \<not> status_in_200s response
      then bind_res (hr_text response) (\<lambda>responseText.
             Inl (ContractVerificationInvalidStatusCodeError (es_apiUrl es) (hr_statusCode response) responseText))
      else
        bind_res (bind_res (hr_json response) EtherscanResponse_new) (\<lambda>etherscanResponse.
        bind_res (isBytecodeMissingInNetworkError etherscanResponse) (\<lambda>missing.
        if missing then Inl (ContractVerificationMissingBytecodeError (es_apiUrl es) address)
        else if \<not> isOk etherscanResponse
          then Inl (HardhatVerifyError (js_String (er_message etherscanResponse)))
        else Inr etherscanResponse)))"

definition verify :: "'n net_env \<Rightarrow> etherscan \<Rightarrow> verify_params \<Rightarrow> ('n world, verify_error, etherscan_response) io" where
  "verify env es p =
     bind_io
       (catch_io
         (bind_io (lift_io (new_URL (es_apiUrl es))) (\<lambda>url.
          sendPostRequest env url (URLSearchParams_toString (verify_parameters es p))))
         (\<lambda>er. throw_io (ContractVerificationRequestError (es_apiUrl es) er)))
       (\<lambda>response. lift_io (verify_reply es (vp_address p) response))"

text \<open>
  One round of \<open>getVerificationStatus\<close>: \<open>Again\<close> is the branch that sleeps and calls itself.
\<close>

datatype poll = Again | Done etherscan_response

definition poll_reply :: "http_response \<Rightarrow> verify_error + poll" where
  "poll_reply response =
     (if \<not> status_in_200s response
      then bind_res (hr_text response) (\<lambda>responseText.
             Inl (ContractStatusPollingInvalidStatusCodeError (hr_statusCode response) responseText))
      else
        bind_res (bind_res (hr_json response) EtherscanResponse_new) (\<lambda>etherscanResponse.
        if isPending etherscanResponse then Inr Again
        else if isFailure etherscanResponse then Inr (Done etherscanResponse)
        else if \<not> isOk etherscanResponse
          then Inl (ContractStatusPollingResponseNotOkError (js_String (er_message etherscanResponse)))
        else Inr (Done etherscanResponse)))"

definition poll_once :: "'n net_env \<Rightarrow> etherscan \<Rightarrow> string \<Rightarrow> ('n world, verify_error, poll) io" where
  "poll_once env es guid =
     bind_io (lift_io (query_url es (status_parameters es guid))) (\<lambda>url.
     bind_io
       (catch_io (sendGetRequest env url) (\<lambda>er. throw_io (ContractStatusPollingError url er)))
       (\<lambda>response. lift_io (poll_reply response)))"

partial_function (option) getVerificationStatus ::
    "'n net_env \<Rightarrow> etherscan \<Rightarrow> string \<Rightarrow> 'n world \<Rightarrow> ((verify_error + etherscan_response) \<times> 'n world) option" where
  "getVerificationStatus env es guid w =
     (case poll_once env es guid w of
        None \<Rightarrow> None
      | Some (r, w') \<Rightarrow>
          (case r of
             Inl er \<Rightarrow> Some (Inl er, w')
           | Inr p \<Rightarrow>
               (case p of
                  Again \<Rightarrow> getVerificationStatus env es guid w'
                | Done etherscanResponse \<Rightarrow> Some (Inr etherscanResponse, w'))))"

declare getVerificationStatus.simps [code]

section \<open>Lemmas on the requests\<close>

lemma send_request_returns [simp]:
  "send_request env rq w =
     Some (fst (ne_request env rq (w_net w)), w\<lparr>w_net := snd (ne_request env rq (w_net w))\<rparr>)"
  by (simp add: send_request_def split: prod.splits)

lemma lift_io_eq: "lift_io r = (\<lambda>w. Some (r, w))"
  by (simp add: fun_eq_iff)

text \<open>A computation that settles and leaves the files alone; closed under composition.\<close>

definition settles_quietly :: "('n world, 'e, 'a) io \<Rightarrow> bool" where
  "settles_quietly m \<longleftrightarrow> (\<forall>w. \<exists>r w'. m w = Some (r, w') \<and> w_files w' = w_files w)"

lemma settles_quietlyI:
  "(\<And>w. \<exists>r w'. m w = Some (r, w') \<and> w_files w' = w_files w) \<Longrightarrow> settles_quietly m"
  by (simp add: settles_quietly_def)

lemma settles_quietly_lift [simp, intro]: "settles_quietly (lift_io r)" "settles_quietly (throw_io e)"
  by (simp_all add: settles_quietly_def)

lemma settles_quietly_bind [intro]:
  assumes m: "settles_quietly m" and f: "\<And>a. settles_quietly (f a)"
  shows "settles_quietly (bind_io m f)"
proof (rule settles_quietlyI)
  fix w
  obtain r w1 where 1: "m w = Some (r, w1)" "w_files w1 = w_files w"
    using m unfolding settles_quietly_def by blast
  show "\<exists>r w'. bind_io m f w = Some (r, w') \<and> w_files w' = w_files w"
  proof (cases r)
    case (Inl e)
    then show ?thesis using 1 by (simp add: bind_io_def)
  next
    case (Inr a)
    moreover obtain r' w2 where "f a w1 = Some (r', w2)" "w_files w2 = w_files w1"
      using f [of a] unfolding settles_quietly_def by blast
    ultimately show ?thesis using 1 by (auto simp: bind_io_def)
  qed
qed

lemma settles_quietly_catch [intro]:
  assumes m: "settles_quietly m" and h: "\<And>e. settles_quietly (h e)"
  shows "settles_quietly (catch_io m h)"
proof (rule settles_quietlyI)
  fix w
  obtain r w1 where 1: "m w = Some (r, w1)" "w_files w1 = w_files w"
    using m unfolding settles_quietly_def by blast
  show "\<exists>r w'. catch_io m h w = Some (r, w') \<and> w_files w' = w_files w"
  proof (cases r)
    case (Inl e)
    moreover obtain r' w2 where "h e w1 = Some (r', w2)" "w_files w2 = w_files w1"
      using h [of e] unfolding settles_quietly_def by blast
    ultimately show ?thesis using 1 by (auto simp: catch_io_def)
  next
    case (Inr a)
    then show ?thesis using 1 by (simp add: catch_io_def)
  qed
qed

lemma settles_quietly_send [simp, intro]:
  "settles_quietly (send_request env rq)"
  "settles_quietly (sendGetRequest env url)"
  "settles_quietly (sendPostRequest env url body)"
  by (simp_all add: settles_quietly_def sendGetRequest_def sendPostRequest_def)

lemma client_settles_quietly [simp, intro]:
  "settles_quietly (isVerified env es address)"
  "settles_quietly (verify env es p)"
  "settles_quietly (poll_once env es guid)"
  unfolding isVerified_def verify_def poll_once_def by auto

lemma verify_reply_ok:
  "verify_reply es address response = Inr r \<Longrightarrow> isOk r \<and> (\<exists>g. er_message r = Some (JStr g))"
  by (auto simp: verify_reply_def res_simps isBytecodeMissingInNetworkError_def
      split: if_splits option.splits json.splits)

lemma verify_ok:
  "verify env es p w = Some (Inr r, w') \<Longrightarrow> isOk r \<and> (\<exists>g. er_message r = Some (JStr g))"
  unfolding verify_def by (auto simp: res_simps dest: verify_reply_ok)

section \<open>Polling\<close>

definition poll_result :: "'n net_env \<Rightarrow> etherscan \<Rightarrow> string \<Rightarrow> 'n world \<Rightarrow> verify_error + poll" where
  "poll_result env es guid w = fst (the (poll_once env es guid w))"

definition poll_next :: "'n net_env \<Rightarrow> etherscan \<Rightarrow> string \<Rightarrow> 'n world \<Rightarrow> 'n world" where
  "poll_next env es guid w = snd (the (poll_once env es guid w))"

text \<open>The world after \<open>n\<close> rounds.\<close>

primrec poll_world :: "'n net_env \<Rightarrow> etherscan \<Rightarrow> string \<Rightarrow> nat \<Rightarrow> 'n world \<Rightarrow> 'n world" where
  "poll_world env es guid 0 w = w"
| "poll_world env es guid (Suc n) w = poll_world env es guid n (poll_next env es guid w)"

lemma poll_once_eq:
  "poll_once env es guid w = Some (poll_result env es guid w, poll_next env es guid w)"
proof -
  obtain r w' where "poll_once env es guid w = Some (r, w')"
    using client_settles_quietly(3) [of env es guid] unfolding settles_quietly_def by blast
  then show ?thesis by (simp add: poll_result_def poll_next_def)
qed

lemma getVerificationStatus_unfold:
  "getVerificationStatus env es guid w =
     (case poll_result env es guid w of
        Inl er \<Rightarrow> Some (Inl er, poll_next env es guid w)
      | Inr Again \<Rightarrow> getVerificationStatus env es guid (poll_next env es guid w)
      | Inr (Done r) \<Rightarrow> Some (Inr r, poll_next env es guid w))"
  by (subst getVerificationStatus.simps)
     (simp add: poll_once_eq split: sum.splits poll.splits)

text \<open>What a round that does not ask again gives.\<close>

definition settled :: "verify_error + poll \<Rightarrow> (verify_error + etherscan_response) option" where
  "settled r = (case r of Inl er \<Rightarrow> Some (Inl er) | Inr Again \<Rightarrow> None | Inr (Done x) \<Rightarrow> Some (Inr x))"

lemma settled_None_iff: "settled r = None \<longleftrightarrow> r = Inr Again"
  by (auto simp: settled_def split: sum.splits poll.splits)

lemma getVerificationStatus_after:
  "\<forall>i<n. poll_result env es guid (poll_world env es guid i w) = Inr Again \<Longrightarrow>
   getVerificationStatus env es guid w = getVerificationStatus env es guid (poll_world env es guid n w)"
proof (induction n arbitrary: w)
  case 0
  then show ?case by simp
next
  case (Suc n)
  let ?w1 = "poll_next env es guid w"
  have "poll_result env es guid w = Inr Again" using Suc.prems by (metis poll_world.simps(1) zero_less_Suc)
  then have "getVerificationStatus env es guid w = getVerificationStatus env es guid ?w1"
    by (subst getVerificationStatus_unfold) simp
  moreover have "\<forall>i<n. poll_result env es guid (poll_world env es guid i ?w1) = Inr Again"
    using Suc.prems by (metis Suc_mono poll_world.simps(2))
  ultimately show ?case using Suc.IH [of ?w1] by simp
qed

lemma getVerificationStatus_settles:
  assumes "settled (poll_result env es guid (poll_world env es guid n w)) = Some r"
    and "\<forall>i<n. poll_result env es guid (poll_world env es guid i w) = Inr Again"
  shows "\<exists>w'. getVerificationStatus env es guid w = Some (r, w')"
proof -
  have "\<exists>w'. getVerificationStatus env es guid (poll_world env es guid n w) = Some (r, w')"
    using assms(1) by (subst getVerificationStatus_unfold)
      (auto simp: settled_def split: sum.splits poll.splits)
  then show ?thesis using getVerificationStatus_after [OF assms(2)] by simp
qed

lemma getVerificationStatus_Some:
  assumes "getVerificationStatus env es guid w = Some y"
  shows "\<exists>n. settled (poll_result env es guid (poll_world env es guid n w)) = Some (fst y)"
proof (rule getVerificationStatus.raw_induct [OF _ assms])
  fix f :: "'a net_env \<Rightarrow> etherscan \<Rightarrow> string \<Rightarrow> 'a world \<Rightarrow> ((verify_error + etherscan_response) \<times> 'a world) option"
    and env es guid w y
  assume IH: "\<And>env es guid w y. f env es guid w = Some y \<Longrightarrow>
      \<exists>n. settled (poll_result env es guid (poll_world env es guid n w)) = Some (fst y)"
    and y: "(case poll_once env es guid w of
        None \<Rightarrow> None
      | Some (r, w') \<Rightarrow>
          (case r of
             Inl er \<Rightarrow> Some (Inl er, w')
           | Inr p \<Rightarrow>
               (case p of
                  Again \<Rightarrow> f env es guid w'
                | Done etherscanResponse \<Rightarrow> Some (Inr etherscanResponse, w')))) = Some y"
  show "\<exists>n. settled (poll_result env es guid (poll_world env es guid n w)) = Some (fst y)"
  proof (cases "settled (poll_result env es guid w)")
    case None
    then have "f env es guid (poll_next env es guid w) = Some y"
      using y by (simp add: settled_None_iff poll_once_eq)
    then obtain n where "settled (poll_result env es guid
        (poll_world env es guid n (poll_next env es guid w))) = Some (fst y)"
      using IH by blast
    then have "settled (poll_result env es guid (poll_world env es guid (Suc n) w)) = Some (fst y)" by simp
    then show ?thesis by blast
  next
    case (Some r)
    then have "settled (poll_result env es guid (poll_world env es guid 0 w)) = Some (fst y)"
      using y by (auto simp: settled_def poll_once_eq split: sum.splits poll.splits)
    then show ?thesis by blast
  qed
qed

lemma EtherscanResponse_pending:
  "(\<exists>r. EtherscanResponse_new v = Inr r \<and> isPending r) \<longleftrightarrow>
     (\<exists>kvs. v = JObj kvs \<and> map_of kvs ''result'' = Some (JStr ''Pending in queue''))"
  by (cases v) (auto simp: EtherscanResponse_new_def js_prop_def isPending_def)

lemma poll_reply_Again:
  "poll_reply response = Inr Again \<longleftrightarrow>
     200 \<le> hr_statusCode response \<and> hr_statusCode response \<le> 299
     \<and> (\<exists>kvs. hr_json response = Inr (JObj kvs) \<and> map_of kvs ''result'' = Some (JStr ''Pending in queue''))"
proof -
  have "poll_reply response = Inr Again \<longleftrightarrow>
     status_in_200s response \<and> (\<exists>v. hr_json response = Inr v \<and> (\<exists>r. EtherscanResponse_new v = Inr r \<and> isPending r))"
    by (auto simp: poll_reply_def res_simps)
  then show ?thesis by (auto simp: EtherscanResponse_pending status_in_200s_def)
qed

lemma poll_reply_Done:
  "poll_reply response = Inr (Done r) \<Longrightarrow> \<not> isPending r \<and> (isFailure r \<or> isOk r)"
  by (auto simp: poll_reply_def res_simps split: if_splits)

lemma poll_result_Done:
  assumes "poll_result env es guid w = Inr (Done r)"
  shows "\<not> isPending r \<and> (isFailure r \<or> isOk r)"
proof -
  have "poll_once env es guid w = Some (Inr (Done r), poll_next env es guid w)"
    using assms by (simp add: poll_once_eq)
  then show ?thesis
    unfolding poll_once_def by (auto simp: res_simps dest: poll_reply_Done)
qed

lemma getVerificationStatus_settled:
  assumes "getVerificationStatus env es guid w = Some (Inr r, w')"
  shows "\<not> isPending r \<and> (isFailure r \<or> isOk r)"
proof -
  obtain n where "settled (poll_result env es guid (poll_world env es guid n w)) = Some (Inr r)"
    using getVerificationStatus_Some [OF assms] by auto
  then show ?thesis
    by (auto simp: settled_def split: sum.splits poll.splits dest: poll_result_Done)
qed

lemma poll_next_files: "w_files (poll_next env es guid w) = w_files w"
  using client_settles_quietly(3) [of env es guid] poll_once_eq [of env es guid w]
  unfolding settles_quietly_def by (metis option.inject prod.inject)

lemma getVerificationStatus_files:
  assumes "getVerificationStatus env es guid w = Some y"
  shows "w_files (snd y) = w_files w"
proof (rule getVerificationStatus.raw_induct [OF _ assms])
  fix f :: "'a net_env \<Rightarrow> etherscan \<Rightarrow> string \<Rightarrow> 'a world \<Rightarrow> ((verify_error + etherscan_response) \<times> 'a world) option"
    and env es guid w y
  assume IH: "\<And>env es guid w y. f env es guid w = Some y \<Longrightarrow> w_files (snd y) = w_files w"
    and y: "(case poll_once env es guid w of
        None \<Rightarrow> None
      | Some (r, w') \<Rightarrow>
          (case r of
             Inl er \<Rightarrow> Some (Inl er, w')
           | Inr p \<Rightarrow>
               (case p of
                  Again \<Rightarrow> f env es guid w'
                | Done etherscanResponse \<Rightarrow> Some (Inr etherscanResponse, w')))) = Some y"
  show "w_files (snd y) = w_files w"
    using y poll_next_files [of env es guid w] IH [of env es guid "poll_next env es guid w" y]
    by (auto simp: poll_once_eq split: sum.splits poll.splits)
qed

section \<open>The interface of an explorer\<close>

text \<open>
  What the verification task relies on: a submission that is accepted carries the identifier of
  the request as a string, and a status that is returned is final. Neither touches the files.
\<close>

locale explorer =
  fixes submit :: "'p \<Rightarrow> ('w, 'e, 'r) io"
    and status :: "string \<Rightarrow> ('w, 'e, 'r) io"
    and message :: "'r \<Rightarrow> json option"
    and pending :: "'r \<Rightarrow> bool"
    and failure :: "'r \<Rightarrow> bool"
    and ok :: "'r \<Rightarrow> bool"
    and files :: "'w \<Rightarrow> 'f"
  assumes submit_guid: "submit p w = Some (Inr r, w') \<Longrightarrow> ok r \<and> (\<exists>g. message r = Some (JStr g))"
    and status_final: "status g w = Some (Inr r, w') \<Longrightarrow> \<not> pending r \<and> (failure r \<or> ok r)"
    and submit_files: "submit p w = Some (x, w') \<Longrightarrow> files w' = files w"
    and status_files: "status g w = Some (x, w') \<Longrightarrow> files w' = files w"
begin

lemma submit_then_status:
  assumes "bind_io (submit p) (\<lambda>r. status (js_String (message r))) w = Some (Inr s, w')"
  shows "\<exists>r w1 g. submit p w = Some (Inr r, w1) \<and> ok r \<and> message r = Some (JStr g)
    \<and> status g w1 = Some (Inr s, w') \<and> \<not> pending s \<and> (failure s \<or> ok s)"
proof -
  obtain r w1 where 1: "submit p w = Some (Inr r, w1)" "status (js_String (message r)) w1 = Some (Inr s, w')"
    using assms by (auto simp: res_simps)
  obtain g where "ok r" "message r = Some (JStr g)" using submit_guid [OF 1(1)] by blast
  with 1 status_final [OF 1(2)] show ?thesis by auto
qed

lemma submit_then_status_files:
  assumes "bind_io (submit p) (\<lambda>r. status (js_String (message r))) w = Some (x, w')"
  shows "files w' = files w"
proof (cases x)
  case (Inl e)
  with assms show ?thesis unfolding Inl bind_io_eq_Inl by (metis submit_files status_files)
next
  case (Inr b)
  with assms show ?thesis unfolding Inr bind_io_eq_Inr by (metis submit_files status_files)
qed

end

lemma verify_files: "verify env es p w = Some (x, w') \<Longrightarrow> w_files w' = w_files w"
  using client_settles_quietly(2) [of env es p] unfolding settles_quietly_def
  by (metis option.inject prod.inject)

interpretation client: explorer "verify env es" "getVerificationStatus env es" er_message isPending isFailure isOk w_files
  for env es
proof
  show "w_files w' = w_files w" if "getVerificationStatus env es g w = Some (x, w')" for g w x w'
    using getVerificationStatus_files [OF that] by simp
qed (use verify_ok getVerificationStatus_settled verify_files in blast)+

section \<open>Properties\<close>

text \<open>The query of a URL, as a server reads it.\<close>

definition url_query :: "string \<Rightarrow> string" where
  "url_query url =
     takeWhile (\<lambda>c. c \<noteq> CHR ''#'') (drop 1 (dropWhile (\<lambda>c. c \<noteq> CHR ''?'') (takeWhile (\<lambda>c. c \<noteq> CHR ''#'') url)))"

lemma toString_no_hash: "CHR ''#'' \<notin> set (URLSearchParams_toString ps)"
proof -
  have "CHR ''#'' \<notin> set (form_encode s)" for s
    by (auto dest!: form_encode_chars simp: is_alnum_def)
  moreover have "c \<in> set (js_join sep xs) \<Longrightarrow> c \<in> set sep \<or> (\<exists>x \<in> set xs. c \<in> set x)"
    for c :: char and sep xs
    by (induction sep xs rule: js_join.induct) auto
  ultimately show ?thesis
    unfolding URLSearchParams_toString_def by (fastforce split: prod.splits)
qed

lemma takeWhile_append_dropWhile:
  "(\<And>x. x \<in> set xs \<Longrightarrow> P x) \<Longrightarrow> takeWhile P (xs @ dropWhile P ys) = xs"
proof (induction xs)
  case Nil
  show ?case by (induction ys) auto
qed simp

lemma url_query_set_search:
  assumes "CHR ''#'' \<notin> set q" and "q \<noteq> []"
  shows "url_query (url_set_search url q) = q"
proof -
  let ?pre = "takeWhile (\<lambda>c. c \<noteq> CHR ''?'' \<and> c \<noteq> CHR ''#'') url"
  have pre: "\<forall>c \<in> set ?pre. c \<noteq> CHR ''?'' \<and> c \<noteq> CHR ''#''" by (auto dest: set_takeWhileD)
  let ?frag = "dropWhile (\<lambda>c. c \<noteq> CHR ''#'') url"
  have "takeWhile (\<lambda>c. c \<noteq> CHR ''#'') ((?pre @ CHR ''?'' # q) @ ?frag) = ?pre @ CHR ''?'' # q"
  proof (rule takeWhile_append_dropWhile)
    fix c assume "c \<in> set (?pre @ CHR ''?'' # q)"
    then consider "c \<in> set ?pre" | "c = CHR ''?''" | "c \<in> set q"
      unfolding set_append list.set by blast
    then show "c \<noteq> CHR ''#''"
    proof cases
      case 1
      then show ?thesis using pre by blast
    next
      case 2
      then show ?thesis by simp
    next
      case 3
      then show ?thesis using assms(1) by blast
    qed
  qed
  moreover have "dropWhile (\<lambda>c. c \<noteq> CHR ''?'') (?pre @ CHR ''?'' # q) = CHR ''?'' # q"
    by (rule trans [OF dropWhile_append2]) (use pre in blast, simp)
  moreover have "takeWhile (\<lambda>c. c \<noteq> CHR ''#'') q = q" using assms(1) by (auto simp: takeWhile_eq_all_conv)
  ultimately show ?thesis using assms(2) by (simp add: url_query_def url_set_search_def)
qed

lemma toString_nonempty: "ps \<noteq> [] \<Longrightarrow> URLSearchParams_toString ps \<noteq> []"
  by (cases ps; cases "tl ps") (auto simp: URLSearchParams_toString_def)


text \<open>
  A round asks again exactly when the explorer answers with a 2xx status and a JSON value
  whose \<open>result\<close> is \<open>Pending in queue\<close>; every other answer, and every failed request, ends the
  polling.
\<close>

theorem poll_again_iff:
  "poll_result env es guid w = Inr Again \<longleftrightarrow>
     (\<exists>url response kvs. query_url es (status_parameters es guid) = Inr url
        \<and> fst (ne_request env
             \<lparr>rq_url = url, rq_verb = ''GET'', rq_headers = [], rq_body = None, rq_dispatcher = getDispatcher env\<rparr>
             (w_net w)) = Inr response
        \<and> 200 \<le> hr_statusCode response \<and> hr_statusCode response \<le> 299
        \<and> hr_json response = Inr (JObj kvs) \<and> map_of kvs ''result'' = Some (JStr ''Pending in queue''))"
proof (cases "query_url es (status_parameters es guid)")
  case (Inl er)
  then show ?thesis by (simp add: poll_result_def poll_once_def)
next
  case (Inr url)
  let ?rq = "\<lparr>rq_url = url, rq_verb = ''GET'', rq_headers = [], rq_body = None, rq_dispatcher = getDispatcher env\<rparr>"
  show ?thesis
  proof (cases "fst (ne_request env ?rq (w_net w))")
    case (Inl er)
    with Inr show ?thesis
      by (simp add: poll_result_def poll_once_def bind_io_def catch_io_def sendGetRequest_def)
  next
    case r: (Inr response)
    then have "poll_result env es guid w = poll_reply response"
      using Inr by (simp add: poll_result_def poll_once_def bind_io_def catch_io_def sendGetRequest_def)
    with Inr r show ?thesis by (simp add: poll_reply_Again)
  qed
qed


end
