(* ===== verification/Solc_Artifacts.thy ===== *)
theory Solc_Artifacts
  imports Solc_Bytecode
begin

text \<open>
  Finding the contract that deployed bytecode belongs to, and the addresses of its libraries:
  \<open>solc/artifacts.ts\<close>. The artifacts of the project are an argument (\<open>artifacts_api\<close>): they are
  Hardhat's and not the plugin's.
\<close>

section \<open>Data\<close>

record compiler_contract =
  co_abi :: json
  co_bytecode :: compiler_bytecode
  co_deployedBytecode :: compiler_bytecode

record build_info =
  bi_input :: json
  bi_solcVersion :: string
  bi_solcLongVersion :: string
  bi_contracts :: "compiler_contract obj obj"

record contract_information =
  ci_compilerInput :: json
  ci_solcLongVersion :: string
  ci_sourceName :: string
  ci_contractName :: string
  ci_contractOutput :: compiler_contract
  ci_deployedBytecode :: string

type_synonym library_to_address = "string obj"
type_synonym source_to_library = "string obj obj"

record library_information =
  li_libraries :: source_to_library
  li_undetectableLibraries :: "string list"

record artifacts_api =
  art_artifactExists :: "string \<Rightarrow> verify_error + bool"
  art_getBuildInfo :: "string \<Rightarrow> verify_error + build_info option"
  art_getAllFullyQualifiedNames :: "verify_error + string list"

definition fqn :: "string \<Rightarrow> string \<Rightarrow> string" where
  "fqn sourceName contractName = sourceName @ '':'' @ contractName"

section \<open>Matching a contract\<close>

text \<open>Reading a property of \<open>undefined\<close> is a \<open>TypeError\<close>.\<close>

definition contract_output :: "build_info \<Rightarrow> string \<Rightarrow> string \<Rightarrow> verify_error + compiler_contract" where
  "contract_output buildInfo sourceName contractName =
     (case obj_get (bi_contracts buildInfo) sourceName of
        None \<Rightarrow> Inl (TypeError ''Cannot read properties of undefined'')
      | Some cs \<Rightarrow>
          (case obj_get cs contractName of
             None \<Rightarrow> Inl (TypeError ''Cannot read properties of undefined (reading evm)'')
           | Some c \<Rightarrow> Inr c))"

definition extractMatchingContractInformation ::
    "externals \<Rightarrow> string \<Rightarrow> build_info \<Rightarrow> bytecode_obj \<Rightarrow> verify_error + contract_information option" where
  "extractMatchingContractInformation ext contractFQN buildInfo bytecode =
     bind_res (ext_parseFullyQualifiedName ext contractFQN) (\<lambda>(sourceName, contractName).
     bind_res (contract_output buildInfo sourceName contractName) (\<lambda>contractOutput.
     bind_res (compare bytecode (co_deployedBytecode contractOutput)) (\<lambda>same.
     Inr (if same
          then Some \<lparr>ci_compilerInput = bi_input buildInfo,
                     ci_solcLongVersion = bi_solcLongVersion buildInfo,
                     ci_sourceName = sourceName,
                     ci_contractName = contractName,
                     ci_contractOutput = contractOutput,
                     ci_deployedBytecode = stringify bytecode\<rparr>
          else None))))"

text \<open>One iteration of the search: \<open>None\<close> where the loop continues without a match.\<close>

definition lookup_candidate ::
    "externals \<Rightarrow> artifacts_api \<Rightarrow> string list \<Rightarrow> bytecode_obj \<Rightarrow> string \<Rightarrow> verify_error + contract_information option" where
  "lookup_candidate ext artifacts matchingCompilerVersions bytecode fqName =
     bind_res (art_getBuildInfo artifacts fqName) (\<lambda>info.
       case info of
         None \<Rightarrow> Inr None
       | Some buildInfo \<Rightarrow>
           if bi_solcVersion buildInfo \<notin> set matchingCompilerVersions \<and> \<not> isOvm bytecode then Inr None
           else extractMatchingContractInformation ext fqName buildInfo bytecode)"

definition lookupMatchingBytecode ::
    "externals \<Rightarrow> artifacts_api \<Rightarrow> string list \<Rightarrow> bytecode_obj \<Rightarrow> verify_error + contract_information list" where
  "lookupMatchingBytecode ext artifacts matchingCompilerVersions bytecode =
     bind_res (art_getAllFullyQualifiedNames artifacts) (\<lambda>fqNames.
     fold_res (\<lambda>fqName contractMatches.
       bind_res (lookup_candidate ext artifacts matchingCompilerVersions bytecode fqName) (\<lambda>m.
       Inr (case m of None \<Rightarrow> contractMatches | Some ci \<Rightarrow> contractMatches @ [ci])))
       fqNames [])"

definition extractInferredContractInformation ::
    "externals \<Rightarrow> artifacts_api \<Rightarrow> string \<Rightarrow> string list \<Rightarrow> bytecode_obj \<Rightarrow> verify_error + contract_information" where
  "extractInferredContractInformation ext artifacts networkName matchingCompilerVersions bytecode =
     bind_res (lookupMatchingBytecode ext artifacts matchingCompilerVersions bytecode) (\<lambda>contractMatches.
       case contractMatches of
         [] \<Rightarrow> Inl (DeployedBytecodeMismatchError networkName None)
       | [ci] \<Rightarrow> Inr ci
       | _ \<Rightarrow> Inl (DeployedBytecodeMultipleMatchesError
                (map (\<lambda>ci. fqn (ci_sourceName ci) (ci_contractName ci)) contractMatches)))"

section \<open>Libraries\<close>

definition getLibraryFQNames :: "'v obj obj \<Rightarrow> string list" where
  "getLibraryFQNames libraries =
     concat (map (\<lambda>(sourceName, sourceLibraries). map (fqn sourceName) (obj_keys sourceLibraries)) libraries)"

definition lookupLibrary ::
    "string list \<Rightarrow> string list \<Rightarrow> string list \<Rightarrow> string \<Rightarrow> string \<Rightarrow> verify_error + string" where
  "lookupLibrary allLibraries detectableLibraries undetectableLibraries userLibraryName contractName =
     (let matchingLibraries =
        filter (\<lambda>lib. lib = userLibraryName \<or>
          (case js_split lib '':'' of _ # second # _ \<Rightarrow> second = userLibraryName | _ \<Rightarrow> False)) allLibraries
      in case matchingLibraries of
           [] \<Rightarrow> Inl (LibraryNotFoundError contractName userLibraryName allLibraries
                   detectableLibraries undetectableLibraries)
         | [foundLibraryFQN] \<Rightarrow> Inr foundLibraryFQN
         | _ \<Rightarrow> Inl (LibraryMultipleMatchesError contractName userLibraryName matchingLibraries))"

text \<open>\<open>o[s][l] = a\<close>, where \<open>o[s]\<close> is first created if it is \<open>undefined\<close>.\<close>

definition obj_set2 :: "string \<Rightarrow> string \<Rightarrow> 'v \<Rightarrow> 'v obj obj \<Rightarrow> 'v obj obj" where
  "obj_set2 s l a ob = obj_set s (obj_set l a (case obj_get ob s of None \<Rightarrow> [] | Some m \<Rightarrow> m)) ob"

definition normalize_step ::
    "externals \<Rightarrow> string list \<Rightarrow> string list \<Rightarrow> string list \<Rightarrow> string
      \<Rightarrow> string \<times> string \<Rightarrow> string list \<times> source_to_library \<Rightarrow> verify_error + string list \<times> source_to_library" where
  "normalize_step ext allLibraries detectableLibraries undetectableLibraries contractName entry state =
     (case (entry, state) of ((userLibName, userLibAddress), (libraryFQNs, normalizedLibraries)) \<Rightarrow>
        if \<not> ext_isAddress ext userLibAddress
        then Inl (InvalidLibraryAddressError contractName userLibName userLibAddress)
        else
          bind_res (lookupLibrary allLibraries detectableLibraries undetectableLibraries userLibName contractName)
            (\<lambda>foundLibraryFQN.
          bind_res (ext_parseFullyQualifiedName ext foundLibraryFQN) (\<lambda>(foundLibSource, foundLibName).
          if foundLibraryFQN \<in> set libraryFQNs
          then Inl (DuplicatedLibraryError foundLibName foundLibraryFQN)
          else Inr (foundLibraryFQN # libraryFQNs,
                    obj_set2 foundLibSource foundLibName userLibAddress normalizedLibraries))))"

definition normalizeLibraries ::
    "externals \<Rightarrow> string list \<Rightarrow> string list \<Rightarrow> string list \<Rightarrow> library_to_address \<Rightarrow> string
      \<Rightarrow> verify_error + source_to_library" where
  "normalizeLibraries ext allLibraries detectableLibraries undetectableLibraries userLibraries contractName =
     bind_res (fold_res
         (normalize_step ext allLibraries detectableLibraries undetectableLibraries contractName)
         userLibraries ([], []))
       (\<lambda>(libraryFQNs, normalizedLibraries). Inr normalizedLibraries)"

text \<open>The first offset of a library; the pattern \<open>[{ start, length }]\<close> throws on an empty array.\<close>

definition detected_address :: "string \<Rightarrow> byte_offset \<Rightarrow> string" where
  "detected_address bytecode off =
     ''0x'' @ js_slice bytecode (int (bo_start off * 2)) (int ((bo_start off + bo_length off) * 2))"

definition detect_source ::
    "string \<Rightarrow> string \<times> byte_offset list obj \<Rightarrow> source_to_library \<Rightarrow> verify_error + source_to_library" where
  "detect_source bytecode entry ob =
     (case entry of (sourceName, libs) \<Rightarrow>
        fold_res (\<lambda>(libraryName, offs) ob'.
            (case offs of
               [] \<Rightarrow> Inl (TypeError ''Cannot destructure property of undefined'')
             | off # _ \<Rightarrow> Inr (obj_set2 sourceName libraryName (detected_address bytecode off) ob')))
          libs
          (case obj_get ob sourceName of None \<Rightarrow> obj_set sourceName [] ob | Some _ \<Rightarrow> ob))"

definition getLibraryAddressesFromBytecode ::
    "byte_offset list obj obj option \<Rightarrow> string \<Rightarrow> verify_error + source_to_library" where
  "getLibraryAddressesFromBytecode linkReferences bytecode =
     fold_res (detect_source bytecode) (case linkReferences of None \<Rightarrow> [] | Some refs \<Rightarrow> refs) []"

definition library_conflicts :: "source_to_library \<Rightarrow> source_to_library \<Rightarrow> library_conflict list" where
  "library_conflicts normalizedLibraries detectedLibraries =
     concat (map (\<lambda>(sourceName, libraries).
       concat (map (\<lambda>(libraryName, libraryAddress).
         case obj_get detectedLibraries sourceName of
           None \<Rightarrow> []
         | Some ls \<Rightarrow>
             (case obj_get ls libraryName of
                None \<Rightarrow> []
              | Some detectedAddress \<Rightarrow>
                  if toLowerCase libraryAddress \<noteq> detectedAddress
                  then [\<lparr>lc_library = fqn sourceName libraryName,
                         lc_detectedAddress = detectedAddress,
                         lc_inputAddress = libraryAddress\<rparr>]
                  else [])) libraries)) normalizedLibraries)"

definition merge_source :: "string \<times> library_to_address \<Rightarrow> source_to_library \<Rightarrow> source_to_library" where
  "merge_source entry targetLibraries =
     (case entry of (sourceName, libraries) \<Rightarrow>
        fold (\<lambda>(libraryName, libraryAddress). obj_set2 sourceName libraryName libraryAddress) libraries
          (case obj_get targetLibraries sourceName of
             None \<Rightarrow> obj_set sourceName [] targetLibraries
           | Some _ \<Rightarrow> targetLibraries))"

definition merge :: "source_to_library \<Rightarrow> source_to_library \<Rightarrow> source_to_library" where
  "merge targetLibraries newLibraries = fold merge_source newLibraries targetLibraries"

definition mergeLibraries :: "source_to_library \<Rightarrow> source_to_library \<Rightarrow> verify_error + source_to_library" where
  "mergeLibraries normalizedLibraries detectedLibraries =
     (let conflicts = library_conflicts normalizedLibraries detectedLibraries
      in if 0 < length conflicts then Inl (LibraryAddressesMismatchError conflicts)
         else Inr (merge (merge [] normalizedLibraries) detectedLibraries))"

definition undetectable :: "string list \<Rightarrow> string list \<Rightarrow> string list" where
  "undetectable allLibraries detectableLibraries =
     filter (\<lambda>lib. \<not> list_ex (\<lambda>detLib. detLib = lib) detectableLibraries) allLibraries"

definition getLibraryInformation ::
    "externals \<Rightarrow> contract_information \<Rightarrow> library_to_address \<Rightarrow> verify_error + library_information" where
  "getLibraryInformation ext contractInformation userLibraries =
     (let allRefs = cb_linkReferences (co_bytecode (ci_contractOutput contractInformation));
          deployedRefs = cb_linkReferences (co_deployedBytecode (ci_contractOutput contractInformation));
          allLibraries = getLibraryFQNames allRefs;
          detectableLibraries = getLibraryFQNames deployedRefs;
          undetectableLibraries = undetectable allLibraries detectableLibraries
      in bind_res (normalizeLibraries ext allLibraries detectableLibraries undetectableLibraries
                     userLibraries (ci_contractName contractInformation)) (\<lambda>normalizedLibraries.
         bind_res (getLibraryAddressesFromBytecode (Some deployedRefs) (ci_deployedBytecode contractInformation))
           (\<lambda>libraryAddresses.
         bind_res (mergeLibraries normalizedLibraries libraryAddresses) (\<lambda>mergedLibraryLinks.
         let mergedLibraries = getLibraryFQNames mergedLibraryLinks
         in if length mergedLibraries < length allLibraries
            then Inl (MissingLibrariesError
                   (fqn (ci_sourceName contractInformation) (ci_contractName contractInformation))
                   allLibraries mergedLibraries undetectableLibraries)
            else Inr \<lparr>li_libraries = mergedLibraryLinks, li_undetectableLibraries = undetectableLibraries\<rparr>))))"

section \<open>Tables of libraries\<close>

text \<open>
  An object of objects is a table whose keys are pairs of a source name and a library name. It
  implements the same interface as a plain object.
\<close>

definition get2 :: "'v obj obj \<Rightarrow> string \<times> string \<Rightarrow> 'v option" where
  "get2 ob p = (case obj_get ob (fst p) of None \<Rightarrow> None | Some m \<Rightarrow> obj_get m (snd p))"

definition put2 :: "string \<times> string \<Rightarrow> 'v \<Rightarrow> 'v obj obj \<Rightarrow> 'v obj obj" where
  "put2 p a ob = obj_set2 (fst p) (snd p) a ob"

definition keys2 :: "'v obj obj \<Rightarrow> (string \<times> string) list" where
  "keys2 ob = concat (map (\<lambda>(s, m). map (Pair s) (obj_keys m)) ob)"

definition entries2 :: "'v obj obj \<Rightarrow> ((string \<times> string) \<times> 'v) list" where
  "entries2 ob = concat (map (\<lambda>(s, m). map (\<lambda>(l, a). ((s, l), a)) m) ob)"

definition wf2 :: "'v obj obj \<Rightarrow> bool" where
  "wf2 ob \<longleftrightarrow> obj_wf ob \<and> list_all (\<lambda>(s, m). obj_wf m) ob"

lemma wf2_Nil [simp]: "wf2 []"
  by (simp add: wf2_def)

lemma get2_put2: "get2 (put2 p a ob) = (get2 ob)(p \<mapsto> a)"
proof
  fix q :: "string \<times> string"
  obtain s l s' l' where "p = (s, l)" "q = (s', l')" by (metis surj_pair)
  then show "get2 (put2 p a ob) q = ((get2 ob)(p \<mapsto> a)) q"
    by (cases "obj_get ob s") (auto simp: get2_def put2_def obj_set2_def, simp add: obj_get_def)
qed

lemma wf2_obj_get: "wf2 ob \<Longrightarrow> obj_get ob s = Some m \<Longrightarrow> obj_wf m"
  by (auto simp: wf2_def obj_get_def list_all_iff dest!: map_of_SomeD)

lemma list_all_obj_set:
  "list_all (\<lambda>(s, m). P m) ob \<Longrightarrow> P v \<Longrightarrow> list_all (\<lambda>(s, m). P m) (obj_set k v ob)"
  unfolding obj_set_def by (induction ob) auto

lemma wf2_put2: "wf2 ob \<Longrightarrow> wf2 (put2 p a ob)"
proof -
  assume wf: "wf2 ob"
  then have "obj_wf (case obj_get ob (fst p) of None \<Rightarrow> [] | Some m \<Rightarrow> m)"
    by (auto dest: wf2_obj_get split: option.splits)
  with wf show ?thesis
    by (simp add: wf2_def put2_def obj_set2_def obj_wf_set list_all_obj_set)
qed

lemma entries2_keys: "map fst (entries2 ob) = keys2 ob"
  by (auto simp: entries2_def keys2_def obj_keys_def map_concat intro!: arg_cong [of _ _ concat])

lemma set_entries2: "wf2 ob \<Longrightarrow> (p, a) \<in> set (entries2 ob) \<longleftrightarrow> get2 ob p = Some a"
proof -
  assume wf: "wf2 ob"
  have "(p, a) \<in> set (entries2 ob) \<longleftrightarrow> (\<exists>m. (fst p, m) \<in> set ob \<and> (snd p, a) \<in> set m)"
    by (cases p) (force simp: entries2_def)
  also have "\<dots> \<longleftrightarrow> (\<exists>m. obj_get ob (fst p) = Some m \<and> obj_get m (snd p) = Some a)"
    using wf wf2_obj_get [OF wf] by (metis obj_get_mem wf2_def)
  finally show ?thesis by (auto simp: get2_def split: option.splits)
qed

lemma set_keys2: "wf2 ob \<Longrightarrow> set (keys2 ob) = dom (get2 ob)"
  unfolding entries2_keys [symmetric] using set_entries2 [of ob] by force

lemma distinct_keys2: "wf2 ob \<Longrightarrow> distinct (keys2 ob)"
proof (induction ob)
  case Nil
  then show ?case by (simp add: keys2_def)
next
  case (Cons e ob)
  then show ?case
    by (cases e) (force simp: wf2_def keys2_def obj_wf_def obj_keys_def distinct_map inj_on_def)
qed

interpretation library_table: js_store get2 put2 keys2 wf2
  by unfold_locales (simp_all add: get2_put2 set_keys2 distinct_keys2 wf2_put2)

lemma map_of_entries2: "wf2 ob \<Longrightarrow> map_of (rev (entries2 ob)) = get2 ob"
proof -
  assume wf: "wf2 ob"
  then have "distinct (map fst (entries2 ob))" by (simp add: entries2_keys distinct_keys2)
  then have "map_of (rev (entries2 ob)) p = Some a \<longleftrightarrow> get2 ob p = Some a" for p a
    using set_entries2 [OF wf] by (simp add: rev_map [symmetric])
  then show ?thesis by (metis not_Some_eq ext)
qed

section \<open>Merging\<close>

definition ensure_source :: "string \<Rightarrow> 'v obj obj \<Rightarrow> 'v obj obj" where
  "ensure_source s ob = (case obj_get ob s of None \<Rightarrow> obj_set s [] ob | Some _ \<Rightarrow> ob)"

lemma get2_ensure_source [simp]: "get2 (ensure_source s ob) = get2 ob"
proof
  fix q :: "string \<times> string"
  show "get2 (ensure_source s ob) q = get2 ob q"
    by (cases "obj_get ob s") (auto simp: ensure_source_def get2_def, simp add: obj_get_def)
qed

lemma wf2_ensure_source [simp]: "wf2 ob \<Longrightarrow> wf2 (ensure_source s ob)"
  by (auto simp: ensure_source_def wf2_def obj_wf_set list_all_obj_set split: option.splits)

lemma merge_source_alt:
  "merge_source (s, m) ob =
     fold (\<lambda>(p, a). put2 p a) (map (\<lambda>(l, a). ((s, l), a)) m) (ensure_source s ob)"
  by (simp add: merge_source_def ensure_source_def fold_map put2_def [abs_def] comp_def split_def
      cong: option.case_cong)

lemma merge_source_spec:
  "get2 (merge_source (s, m) ob) = get2 ob ++ map_of (rev (map (\<lambda>(l, a). ((s, l), a)) m))"
  "wf2 ob \<Longrightarrow> wf2 (merge_source (s, m) ob)"
  by (simp_all add: merge_source_alt library_table.get_put_all library_table.wf_put_all)

lemma get2_merge: "get2 (merge t n) = get2 t ++ map_of (rev (entries2 n))"
proof (induction n arbitrary: t)
  case Nil
  then show ?case by (simp add: merge_def entries2_def)
next
  case (Cons e n)
  then show ?case
    by (cases e) (simp add: merge_def merge_source_spec entries2_def)
qed

lemma wf2_merge: "wf2 t \<Longrightarrow> wf2 (merge t n)"
  by (induction n arbitrary: t) (auto simp: merge_def merge_source_spec(2))

lemma get2_Nil [simp]: "get2 [] = Map.empty"
  by (simp add: get2_def obj_get_def fun_eq_iff)

text \<open>A library that the user gave an address for that differs from the detected one.\<close>

definition in_conflict :: "source_to_library \<Rightarrow> source_to_library \<Rightarrow> string \<times> string \<Rightarrow> bool" where
  "in_conflict user detected p \<longleftrightarrow>
     (\<exists>a d. get2 user p = Some a \<and> get2 detected p = Some d \<and> toLowerCase a \<noteq> d)"

lemma library_conflicts_alt:
  "library_conflicts n d =
     concat (map (\<lambda>(p, a). case get2 d p of
         None \<Rightarrow> []
       | Some x \<Rightarrow> if toLowerCase a \<noteq> x
           then [\<lparr>lc_library = fqn (fst p) (snd p), lc_detectedAddress = x, lc_inputAddress = a\<rparr>] else [])
       (entries2 n))"
  by (induction n)
     (auto simp: library_conflicts_def entries2_def get2_def comp_def case_prod_beta' option.case_distrib
       intro!: arg_cong [of _ _ concat] split: option.splits)

lemma library_conflicts_Nil_iff:
  assumes "wf2 n"
  shows "library_conflicts n d = [] \<longleftrightarrow> (\<nexists>p. in_conflict n d p)"
proof -
  let ?f = "\<lambda>(p, a). case get2 d p of None \<Rightarrow> []
      | Some x \<Rightarrow> if toLowerCase a \<noteq> x
          then [\<lparr>lc_library = fqn (fst p) (snd p), lc_detectedAddress = x, lc_inputAddress = a\<rparr>] else []"
  have "concat (map ?f es) = [] \<longleftrightarrow>
      (\<forall>p a. (p, a) \<in> set es \<longrightarrow> (\<forall>x. get2 d p = Some x \<longrightarrow> toLowerCase a = x))" for es
    by (induction es) (auto split: option.splits if_splits)
  then show ?thesis
    unfolding library_conflicts_alt by (auto simp: set_entries2 [OF assms] in_conflict_def)
qed

text \<open>
  C37. Merging the user's libraries with the detected ones throws exactly when some library has an
  address of the user that differs from the detected one, letter case aside; otherwise a library has
  its detected address if there is one, else the address of the user, and no other library has an
  address.
\<close>

theorem mergeLibraries_spec:
  assumes "wf2 user" and "wf2 detected"
  shows "((\<exists>cs. mergeLibraries user detected = Inl (LibraryAddressesMismatchError cs))
            \<longleftrightarrow> (\<exists>p. in_conflict user detected p))
    \<and> ((\<nexists>p. in_conflict user detected p) \<longrightarrow>
          (\<exists>merged. mergeLibraries user detected = Inr merged \<and> wf2 merged
             \<and> get2 merged = get2 user ++ get2 detected))"
  using assms library_conflicts_Nil_iff [OF assms(1), of detected]
  by (auto simp: mergeLibraries_def Let_def get2_merge map_of_entries2 wf2_merge)

section \<open>Detecting\<close>

definition detected_table :: "string \<Rightarrow> byte_offset list obj obj \<Rightarrow> source_to_library" where
  "detected_table bytecode refs =
     map (\<lambda>(s, libs). (s, map (\<lambda>(l, offs). (l, detected_address bytecode (hd offs))) libs)) refs"

lemma detect_libs:
  "fold_res (\<lambda>(l, offs) ob'.
       (case offs of [] \<Rightarrow> Inl er | off # _ \<Rightarrow> Inr (obj_set2 s l (detected_address bc off) ob'))) libs ob = Inr ob2 \<Longrightarrow>
   ob2 = fold (\<lambda>(l, offs). obj_set2 s l (detected_address bc (hd offs))) libs ob"
  by (induction libs arbitrary: ob) (auto simp: res_simps split: list.splits)

lemma detect_source_merge:
  assumes "detect_source bc (s, libs) ob = Inr ob2"
  shows "ob2 = merge_source (s, map (\<lambda>(l, offs). (l, detected_address bc (hd offs))) libs) ob"
  using detect_libs [OF assms [unfolded detect_source_def prod.case]]
  by (simp add: merge_source_def fold_map comp_def split_def cong: option.case_cong)

lemma detect_merge:
  "fold_res (detect_source bc) refs ob = Inr D \<Longrightarrow> D = merge ob (detected_table bc refs)"
proof (induction refs arbitrary: ob)
  case Nil
  then show ?case by (simp add: merge_def detected_table_def)
next
  case (Cons e refs)
  then obtain ob2 where "detect_source bc e ob = Inr ob2" "fold_res (detect_source bc) refs ob2 = Inr D"
    by (auto simp: res_simps)
  then show ?case
    using Cons.IH [of ob2] by (cases e) (auto simp: merge_def detected_table_def dest!: detect_source_merge)
qed

lemma wf2_detected_table: "wf2 refs \<Longrightarrow> wf2 (detected_table bc refs)"
  by (auto simp: wf2_def detected_table_def obj_wf_def obj_keys_def list_all_iff comp_def case_prod_beta')

lemma obj_get_map: "obj_get (map (\<lambda>(k, v). (k, f v)) ob) k = map_option f (obj_get ob k)"
  by (simp add: obj_get_def map_of_map)

lemma get2_detected_table:
  "get2 (detected_table bc refs) p = map_option (\<lambda>offs. detected_address bc (hd offs)) (get2 refs p)"
  by (simp add: get2_def detected_table_def obj_get_map split: option.splits)

lemma detected_spec:
  assumes "getLibraryAddressesFromBytecode (Some refs) bc = Inr D" and "wf2 refs"
  shows "wf2 D" and "get2 D p = map_option (\<lambda>offs. detected_address bc (hd offs)) (get2 refs p)"
  using assms wf2_detected_table [OF assms(2), of bc]
  by (auto simp: getLibraryAddressesFromBytecode_def get2_merge map_of_entries2 wf2_merge
      get2_detected_table dest!: detect_merge)

lemma detected_address_take: 
  "detected_address bc off = ''0x'' @ take (2 * bo_length off) (drop (2 * bo_start off) bc)"
  unfolding detected_address_def by (simp only: js_slice_int) (simp add: algebra_simps)

text \<open>
  C38. Linking and detecting are inverse: if the digits of an address stand in the deployed bytecode
  at the first offset of a library, then that address, with its prefix \<open>0x\<close>, is what detection
  gives for the library; and detection gives an address for no other library.
\<close>

theorem detection_inverts_linking:
  assumes "getLibraryAddressesFromBytecode (Some refs) bc = Inr D" and "wf2 refs"
  shows "dom (get2 D) = dom (get2 refs)
    \<and> (\<forall>p off offs addr before after.
         get2 refs p = Some (off # offs) \<and> bc = before @ addr @ after
         \<and> length before = 2 * bo_start off \<and> length addr = 2 * bo_length off
         \<longrightarrow> get2 D p = Some (''0x'' @ addr))"
  using detected_spec(2) [OF assms] by (auto simp: dom_def detected_address_take)

section \<open>Names of libraries\<close>

lemma getLibraryFQNames_keys2: "getLibraryFQNames ob = map (\<lambda>(s, l). fqn s l) (keys2 ob)"
  by (simp add: getLibraryFQNames_def keys2_def map_concat comp_def case_prod_beta')

lemma fqn_last_colon: "CHR '':'' \<notin> set l \<Longrightarrow> rev (takeWhile (\<lambda>c. c \<noteq> CHR '':'') (rev (fqn s l))) = l"
  unfolding fqn_def by (simp, subst takeWhile_append2) auto

lemma fqn_inj:
  "CHR '':'' \<notin> set l \<Longrightarrow> CHR '':'' \<notin> set l' \<Longrightarrow> fqn s l = fqn s' l' \<longleftrightarrow> s = s' \<and> l = l'"
  using fqn_last_colon [of l s] fqn_last_colon [of l' s'] by (metis append_same_eq fqn_def)

text \<open>
  What the plugin relies on in Hardhat's \<open>parseFullyQualifiedName\<close>: it splits a name at its last
  colon. A library name is an identifier and holds no colon.
\<close>

definition parse_law :: "externals \<Rightarrow> bool" where
  "parse_law ext \<longleftrightarrow> (\<forall>s l. CHR '':'' \<notin> set l \<longrightarrow> ext_parseFullyQualifiedName ext (fqn s l) = Inr (s, l))"

definition plain_names :: "'v obj obj \<Rightarrow> bool" where
  "plain_names ob \<longleftrightarrow> list_all (\<lambda>(s, l). CHR '':'' \<notin> set l) (keys2 ob)"

lemma lookupLibrary_mem: "lookupLibrary al de un u c = Inr f \<Longrightarrow> f \<in> set al"
  by (auto simp: lookupLibrary_def Let_def split: list.splits dest: filter_singleton_mem)

lemma lookup_parse:
  assumes "lookupLibrary (getLibraryFQNames R) de un u c = Inr f" and "parse_law ext" and "plain_names R"
  shows "\<exists>s l. f = fqn s l \<and> (s, l) \<in> set (keys2 R) \<and> ext_parseFullyQualifiedName ext f = Inr (s, l)"
  using lookupLibrary_mem [OF assms(1)] assms(2,3)
  by (fastforce simp: getLibraryFQNames_keys2 parse_law_def plain_names_def list_all_iff)

text \<open>What the loop of \<open>normalizeLibraries\<close> keeps.\<close>

definition normal_state :: "externals \<Rightarrow> 'v obj obj \<Rightarrow> string list \<times> source_to_library \<Rightarrow> bool" where
  "normal_state ext R st \<longleftrightarrow>
     wf2 (snd st) \<and> dom (get2 (snd st)) \<subseteq> set (keys2 R) \<and> (\<forall>a \<in> ran (get2 (snd st)). ext_isAddress ext a)"

lemma normalize_step_state:
  assumes "parse_law ext" and "plain_names R" and "normal_state ext R st"
    and "normalize_step ext (getLibraryFQNames R) de un c e st = Inr st'"
  shows "normal_state ext R st'"
proof -
  obtain u a F N where [simp]: "e = (u, a)" "st = (F, N)" by (metis surj_pair)
  from assms(4) obtain f p where a: "ext_isAddress ext a"
    and f: "lookupLibrary (getLibraryFQNames R) de un u c = Inr f"
    and p: "ext_parseFullyQualifiedName ext f = Inr p" and st': "st' = (f # F, put2 p a N)"
    by (auto simp: normalize_step_def put2_def res_simps split: if_splits)
  from lookup_parse [OF f assms(1,2)] p have "p \<in> set (keys2 R)" by auto
  moreover have "ran (get2 (put2 p a N)) \<subseteq> insert a (ran (get2 N))"
    by (auto simp: get2_put2 ran_def)
  ultimately show ?thesis
    using assms(3) a st' by (auto simp: normal_state_def wf2_put2 get2_put2)
qed

lemma normalizeLibraries_state:
  assumes "parse_law ext" and "plain_names R"
    and "normalizeLibraries ext (getLibraryFQNames R) de un user c = Inr N"
  shows "wf2 N" and "dom (get2 N) \<subseteq> set (keys2 R)" and "\<forall>a \<in> ran (get2 N). ext_isAddress ext a"
proof -
  from assms(3) obtain F where
    "fold_res (normalize_step ext (getLibraryFQNames R) de un c) user ([], []) = Inr (F, N)"
    by (auto simp: normalizeLibraries_def res_simps)
  then have "normal_state ext R (F, N)"
  proof (rule fold_res_invariant [where I = "normal_state ext R"])
    show "normal_state ext R ([], [])" by (simp add: normal_state_def)
  qed (blast intro: normalize_step_state [OF assms(1,2)])
  then show "wf2 N" and "dom (get2 N) \<subseteq> set (keys2 R)" and "\<forall>a \<in> ran (get2 N). ext_isAddress ext a"
    by (simp_all add: normal_state_def)
qed

section \<open>All libraries of a contract\<close>

definition all_refs :: "contract_information \<Rightarrow> byte_offset list obj obj" where
  "all_refs ci = cb_linkReferences (co_bytecode (ci_contractOutput ci))"

definition deployed_refs :: "contract_information \<Rightarrow> byte_offset list obj obj" where
  "deployed_refs ci = cb_linkReferences (co_deployedBytecode (ci_contractOutput ci))"

text \<open>
  A contract as the compiler emits it: the link references are objects with distinct keys, the names
  of libraries hold no colon, and what the runtime code links, the whole code links.
\<close>

definition wf_contract :: "contract_information \<Rightarrow> bool" where
  "wf_contract ci \<longleftrightarrow>
     wf2 (all_refs ci) \<and> wf2 (deployed_refs ci) \<and> plain_names (all_refs ci)
     \<and> set (keys2 (deployed_refs ci)) \<subseteq> set (keys2 (all_refs ci))"

lemma mergeLibraries_Inr:
  "mergeLibraries N D = Inr M \<Longrightarrow> wf2 N \<Longrightarrow> wf2 D \<Longrightarrow> wf2 M \<and> get2 M = get2 N ++ get2 D"
  by (auto simp: mergeLibraries_def Let_def get2_merge map_of_entries2 wf2_merge split: if_splits)

text \<open>What \<open>getLibraryInformation\<close> knows when it counts the libraries.\<close>

lemma merged_state:
  assumes "wf_contract ci" and "parse_law ext"
    and "normalizeLibraries ext (getLibraryFQNames (all_refs ci)) de un user c = Inr N"
    and "getLibraryAddressesFromBytecode (Some (deployed_refs ci)) bc = Inr D"
    and "mergeLibraries N D = Inr M"
  shows "wf2 M" and "set (keys2 M) \<subseteq> set (keys2 (all_refs ci))" and "get2 M = get2 N ++ get2 D"
proof -
  have wf: "wf2 (deployed_refs ci)" "plain_names (all_refs ci)" using assms(1) by (auto simp: wf_contract_def)
  note N = normalizeLibraries_state [OF assms(2) wf(2) assms(3)]
  note D = detected_spec [OF assms(4) wf(1)]
  note M = mergeLibraries_Inr [OF assms(5) N(1) D(1)]
  show "wf2 M" and eq: "get2 M = get2 N ++ get2 D" using M by auto
  have "dom (get2 D) = dom (get2 (deployed_refs ci))" by (auto simp: D(2) dom_def)
  then have "dom (get2 D) \<subseteq> set (keys2 (all_refs ci))"
    using assms(1) unfolding wf_contract_def by (metis set_keys2)
  then show "set (keys2 M) \<subseteq> set (keys2 (all_refs ci))"
    using N(2) M by (auto simp: set_keys2)
qed

lemmas getLibraryInformation_unfold =
  getLibraryInformation_def [folded all_refs_def deployed_refs_def, unfolded Let_def]

text \<open>
  When library information is returned, comparing two counts was enough: the libraries with an
  address are exactly the libraries the contract links, each detectable one has the address found
  in the deployed bytecode, and every other address is a valid address that the user gave.
\<close>

theorem getLibraryInformation_complete:
  assumes "wf_contract ci" and "parse_law ext" and "getLibraryInformation ext ci user = Inr li"
  shows "dom (get2 (li_libraries li)) = set (keys2 (all_refs ci))
    \<and> (\<forall>p a. get2 (li_libraries li) p = Some a \<longrightarrow>
         (case get2 (deployed_refs ci) p of
            Some offs \<Rightarrow> a = detected_address (ci_deployedBytecode ci) (hd offs)
          | None \<Rightarrow> ext_isAddress ext a))"
proof -
  let ?R = "all_refs ci" and ?Dr = "deployed_refs ci"
  let ?un = "undetectable (getLibraryFQNames ?R) (getLibraryFQNames ?Dr)"
  from assms(3) obtain N D M where
    N: "normalizeLibraries ext (getLibraryFQNames ?R) (getLibraryFQNames ?Dr) ?un user (ci_contractName ci) = Inr N"
    and D: "getLibraryAddressesFromBytecode (Some ?Dr) (ci_deployedBytecode ci) = Inr D"
    and M: "mergeLibraries N D = Inr M" and li: "li_libraries li = M"
    and len: "length (getLibraryFQNames ?R) \<le> length (getLibraryFQNames M)"
    by (auto simp: getLibraryInformation_unfold res_simps split: if_splits)
  note st = merged_state [OF assms(1,2) N D M]
  have "set (keys2 M) = set (keys2 ?R)"
    using st len distinct_subset_length_eq [of "keys2 M" "keys2 ?R"]
    by (simp add: distinct_keys2 getLibraryFQNames_keys2)
  then have dom: "dom (get2 M) = set (keys2 ?R)" using st(1) by (simp add: set_keys2)
  have wf: "wf2 ?Dr" "plain_names ?R" using assms(1) by (auto simp: wf_contract_def)
  have given: "ext_isAddress ext a" if "get2 N p = Some a" for p a
    using that normalizeLibraries_state(3) [OF assms(2) wf(2) N] by (auto intro: ranI)
  have addr: "case get2 ?Dr p of Some offs \<Rightarrow> a = detected_address (ci_deployedBytecode ci) (hd offs)
      | None \<Rightarrow> ext_isAddress ext a" if "get2 M p = Some a" for p a
    using that detected_spec(2) [OF D wf(1), of p] given [of p a]
    by (auto simp: st(3) map_add_def split: option.splits)
  from dom addr li show ?thesis by blast
qed

text \<open>
  When the user's and the detected addresses leave a library of the contract without an address,
  the call throws, and the list of missing libraries that the message prints is not empty and holds
  libraries of the contract only.
\<close>

theorem MissingLibrariesError_names_one:
  assumes "wf_contract ci" and "parse_law ext"
    and "normalizeLibraries ext (getLibraryFQNames (all_refs ci)) (getLibraryFQNames (deployed_refs ci))
           (undetectable (getLibraryFQNames (all_refs ci)) (getLibraryFQNames (deployed_refs ci)))
           user (ci_contractName ci) = Inr N"
    and "getLibraryAddressesFromBytecode (Some (deployed_refs ci)) (ci_deployedBytecode ci) = Inr D"
    and "mergeLibraries N D = Inr M"
    and "p \<in> set (keys2 (all_refs ci))" and "get2 M p = None"
  shows "\<exists>f al me un. getLibraryInformation ext ci user = Inl (MissingLibrariesError f al me un)
    \<and> fqn (fst p) (snd p) \<in> set (missingLibraries al me)
    \<and> set (missingLibraries al me) \<subseteq> set (getLibraryFQNames (all_refs ci))"
proof -
  let ?R = "all_refs ci"
  note st = merged_state [OF assms(1-5)]
  have p: "p \<notin> set (keys2 M)" using assms(7) st(1) by (auto simp: set_keys2)
  have "length (keys2 M) < length (keys2 ?R)"
  proof (rule ccontr)
    assume "\<not> ?thesis"
    then have "set (keys2 M) = set (keys2 ?R)"
      using st(1,2) by (intro distinct_subset_length_eq) (auto simp: distinct_keys2)
    with p assms(6) show False by simp
  qed
  moreover have "fqn (fst p) (snd p) \<notin> set (getLibraryFQNames M)"
  proof
    assume "fqn (fst p) (snd p) \<in> set (getLibraryFQNames M)"
    then obtain q where q: "q \<in> set (keys2 M)" "fqn (fst q) (snd q) = fqn (fst p) (snd p)"
      by (auto simp: getLibraryFQNames_keys2)
    with st(2) assms(1,6) have "CHR '':'' \<notin> set (snd q)" "CHR '':'' \<notin> set (snd p)"
      by (force simp: wf_contract_def plain_names_def list_all_iff)+
    with q(2) have "q = p" using fqn_inj by (auto simp: prod_eq_iff)
    with q(1) p show False by simp
  qed
  ultimately show ?thesis
    using assms(3-6)
    by (force simp: getLibraryInformation_unfold missingLibraries_def list_ex_iff getLibraryFQNames_keys2)
qed

section \<open>The inferred contract\<close>

lemma lookup_fold:
  "fold_res (\<lambda>x acc. bind_res (g x) (\<lambda>m. Inr (case m of None \<Rightarrow> acc | Some c \<Rightarrow> acc @ [c]))) xs acc0 = Inr res
   \<longleftrightarrow> (\<exists>ms. map g xs = map Inr ms \<and> res = acc0 @ List.map_filter (\<lambda>m. m) ms)"
proof (induction xs arbitrary: acc0)
  case Nil
  then show ?case by (auto simp: List.map_filter_def)
next
  case (Cons x xs)
  then show ?case
    by (cases "g x") (auto simp: res_simps map_eq_Cons_conv Cons_eq_map_conv List.map_filter_simps split: option.splits)
qed

lemma map_filter_singleton:
  "List.map_filter (\<lambda>m. m) ms = [c] \<Longrightarrow>
     \<exists>i < length ms. ms ! i = Some c \<and> (\<forall>j < length ms. j \<noteq> i \<longrightarrow> ms ! j = None)"
proof (induction ms)
  case Nil
  then show ?case by (simp add: List.map_filter_def)
next
  case (Cons m ms)
  show ?case
  proof (cases m)
    case None
    with Cons obtain i where "i < length ms" "ms ! i = Some c" "\<forall>j < length ms. j \<noteq> i \<longrightarrow> ms ! j = None"
      by (auto simp: List.map_filter_simps)
    with None show ?thesis by (intro exI [of _ "Suc i"]) (auto simp: nth_Cons split: nat.splits)
  next
    case (Some c')
    with Cons.prems have "c' = c" "List.map_filter (\<lambda>m. m) ms = []" by (auto simp: List.map_filter_simps)
    then have "\<forall>m \<in> set ms. m = None" by (induction ms) (auto simp: List.map_filter_simps split: option.splits)
    with Some \<open>c' = c\<close> show ?thesis by (intro exI [of _ 0]) (auto simp: nth_Cons split: nat.splits)
  qed
qed

text \<open>
  A contract that is inferred from the bytecode alone is the only candidate: exactly one
  artifact of the project, of an eligible compiler version, matches the deployed bytecode, and the
  information returned is that of this artifact.
\<close>

theorem inferred_contract_unique:
  assumes "extractInferredContractInformation ext arts net vs b = Inr ci"
    and "art_getAllFullyQualifiedNames arts = Inr names"
  shows "\<exists>i < length names. lookup_candidate ext arts vs b (names ! i) = Inr (Some ci)
      \<and> (\<forall>j < length names. j \<noteq> i \<longrightarrow> lookup_candidate ext arts vs b (names ! j) = Inr None)"
proof -
  from assms(1) obtain cs where cs: "lookupMatchingBytecode ext arts vs b = Inr cs"
    by (auto simp: extractInferredContractInformation_def res_simps)
  then have "lookupMatchingBytecode ext arts vs b = Inr [ci]"
    using assms(1) by (cases cs; cases "tl cs") (auto simp: extractInferredContractInformation_def)
  with assms(2) obtain ms where ms: "map (lookup_candidate ext arts vs b) names = map Inr ms"
      "List.map_filter (\<lambda>m. m) ms = [ci]"
    by (auto simp: lookupMatchingBytecode_def lookup_fold)
  from ms(1) have len: "length names = length ms" by (metis length_map)
  have nth: "lookup_candidate ext arts vs b (names ! j) = Inr (ms ! j)" if "j < length names" for j
    using arg_cong [OF ms(1), of "\<lambda>xs. xs ! j"] that len by simp
  from map_filter_singleton [OF ms(2)] show ?thesis
    using len nth by metis
qed


section \<open>Concrete inputs\<close>

text \<open>
  The contract \<open>Ve\<close> links the library \<open>VeLogo\<close>; the user also links \<open>Names\<close>, which only the
  constructor calls.
\<close>

definition sample_contract :: compiler_contract where
  "sample_contract =
     \<lparr>co_abi = JArr [],
      co_bytecode =
        \<lparr>cb_object = ''0x'',
         cb_linkReferences =
           [(''contracts/VeLogo.sol'', [(''VeLogo'', [\<lparr>bo_start = 9, bo_length = 2\<rparr>])]),
            (''contracts/Names.sol'', [(''Names'', [\<lparr>bo_start = 12, bo_length = 2\<rparr>])])],
         cb_immutableReferences = None\<rparr>,
      co_deployedBytecode = sample_output\<rparr>"

definition sample_info :: contract_information where
  "sample_info =
     \<lparr>ci_compilerInput = JObj [(''settings'', JObj [])], ci_solcLongVersion = ''0.8.19+commit.7dd6d404'',
      ci_sourceName = ''contracts/Ve.sol'', ci_contractName = ''Ve'', ci_contractOutput = sample_contract,
      ci_deployedBytecode = ''60aabb60b2b20002''\<rparr>"

definition sample_address :: string where
  "sample_address = ''0x'' @ replicate 40 (CHR ''1'')"

lemma sample_parse_law: "parse_law sample_externals"
proof -
  have "rev (drop 1 (dropWhile (\<lambda>c. c \<noteq> CHR '':'') (rev (fqn s l)))) = s" if "CHR '':'' \<notin> set l" for s l
    unfolding fqn_def using that by (simp, subst dropWhile_append2) auto
  then show ?thesis
    using fqn_last_colon by (auto simp: parse_law_def sample_externals_def) (simp add: fqn_def)
qed

lemma sample_wf_contract: "wf_contract sample_info"
  by code_simp

theorem mergeLibraries_spec_witness:
  "get2 (merge (merge [] [(''a.sol'', [(''L'', ''0xAB'')])]) [(''a.sol'', [(''L'', ''0xab'')])]) (''a.sol'', ''L'') = Some ''0xab''"
proof -
  let ?u = "[(''a.sol'', [(''L'', ''0xAB'')])]" and ?d = "[(''a.sol'', [(''L'', ''0xab'')])]"
  have wf: "wf2 ?u" "wf2 ?d" by code_simp+
  have l: "library_conflicts ?u ?d = []" by code_simp
  then have "\<nexists>p. in_conflict ?u ?d p" using library_conflicts_Nil_iff [OF wf(1)] by blast
  with mergeLibraries_spec [OF wf] obtain m where
    m: "mergeLibraries ?u ?d = Inr m" "get2 m = get2 ?u ++ get2 ?d" by blast
  from m(1) l have "m = merge (merge [] ?u) ?d" by (simp add: mergeLibraries_def)
  moreover have "get2 ?d (''a.sol'', ''L'') = Some ''0xab''" by code_simp
  ultimately show ?thesis using m(2) by simp
qed

theorem detection_inverts_linking_witness:
  "\<exists>D. getLibraryAddressesFromBytecode (Some (cb_linkReferences sample_output)) ''60aabb60b2b20002'' = Inr D
     \<and> get2 D (''contracts/VeLogo.sol'', ''VeLogo'') = Some ''0xaabb''"
proof -
  let ?p = "(''contracts/VeLogo.sol'', ''VeLogo'')" and ?off = "\<lparr>bo_start = 1, bo_length = 2\<rparr>"
  have D: "getLibraryAddressesFromBytecode (Some (cb_linkReferences sample_output)) ''60aabb60b2b20002''
      = Inr [(''contracts/VeLogo.sol'', [(''VeLogo'', ''0xaabb'')])]" by code_simp
  have wf: "wf2 (cb_linkReferences sample_output)" by code_simp
  have "get2 (cb_linkReferences sample_output) ?p = Some (?off # [])" by code_simp
  moreover have "''60aabb60b2b20002'' = ''60'' @ ''aabb'' @ ''60b2b20002''" by simp
  moreover have "length ''60'' = 2 * bo_start ?off" "length ''aabb'' = 2 * bo_length ?off" by simp_all
  ultimately have "get2 [(''contracts/VeLogo.sol'', [(''VeLogo'', ''0xaabb'')])] ?p = Some (''0x'' @ ''aabb'')"
    using detection_inverts_linking [OF D wf] by blast
  with D show ?thesis by auto
qed

theorem getLibraryInformation_complete_witness:
  "\<exists>li. getLibraryInformation sample_externals sample_info [(''Names'', sample_address)] = Inr li
     \<and> dom (get2 (li_libraries li)) =
         {(''contracts/VeLogo.sol'', ''VeLogo''), (''contracts/Names.sol'', ''Names'')}"
proof -
  have ok: "getLibraryInformation sample_externals sample_info [(''Names'', sample_address)] =
     Inr \<lparr>li_libraries = [(''contracts/Names.sol'', [(''Names'', sample_address)]),
                          (''contracts/VeLogo.sol'', [(''VeLogo'', ''0xaabb'')])],
          li_undetectableLibraries = [''contracts/Names.sol:Names'']\<rparr>"
    by code_simp
  have "set (keys2 (all_refs sample_info)) =
         {(''contracts/VeLogo.sol'', ''VeLogo''), (''contracts/Names.sol'', ''Names'')}"
    by code_simp
  with getLibraryInformation_complete [OF sample_wf_contract sample_parse_law ok] ok show ?thesis by auto
qed

theorem MissingLibrariesError_names_one_witness:
  "\<exists>f al me un. getLibraryInformation sample_externals sample_info [] = Inl (MissingLibrariesError f al me un)
     \<and> ''contracts/Names.sol:Names'' \<in> set (missingLibraries al me)"
proof -
  let ?D = "[(''contracts/VeLogo.sol'', [(''VeLogo'', ''0xaabb'')])]"
  let ?p = "(''contracts/Names.sol'', ''Names'')"
  have D: "getLibraryAddressesFromBytecode (Some (deployed_refs sample_info)) (ci_deployedBytecode sample_info) = Inr ?D"
    by code_simp
  have N: "normalizeLibraries sample_externals (getLibraryFQNames (all_refs sample_info))
           (getLibraryFQNames (deployed_refs sample_info))
           (undetectable (getLibraryFQNames (all_refs sample_info)) (getLibraryFQNames (deployed_refs sample_info)))
           [] (ci_contractName sample_info) = Inr []"
    by (simp add: normalizeLibraries_def)
  have M: "mergeLibraries [] ?D = Inr ?D" by code_simp
  have p: "?p \<in> set (keys2 (all_refs sample_info))" "get2 ?D ?p = None" by code_simp+
  have "fqn (fst ?p) (snd ?p) = ''contracts/Names.sol:Names''" by code_simp
  with MissingLibrariesError_names_one [OF sample_wf_contract sample_parse_law N D M p] show ?thesis
    by metis
qed

definition sample_artifacts :: artifacts_api where
  "sample_artifacts =
     \<lparr>art_artifactExists = (\<lambda>n. Inr (n = ''contracts/Ve.sol:Ve'')),
      art_getBuildInfo = (\<lambda>n. Inr (if n = ''contracts/Ve.sol:Ve''
        then Some \<lparr>bi_input = JObj [(''settings'', JObj [])], bi_solcVersion = ''0.8.19'',
                   bi_solcLongVersion = ''0.8.19+commit.7dd6d404'',
                   bi_contracts = [(''contracts/Ve.sol'', [(''Ve'', sample_contract)])]\<rparr>
        else None)),
      art_getAllFullyQualifiedNames = Inr [''contracts/Ve.sol:Ve'', ''contracts/A.sol:A'']\<rparr>"

theorem inferred_contract_unique_witness:
  "extractInferredContractInformation sample_externals sample_artifacts ''goerli'' [''0.8.19''] sample_bytecode
     = Inr sample_info
   \<and> (\<exists>i < length [''contracts/Ve.sol:Ve'', ''contracts/A.sol:A''].
        lookup_candidate sample_externals sample_artifacts [''0.8.19''] sample_bytecode
          ([''contracts/Ve.sol:Ve'', ''contracts/A.sol:A''] ! i) = Inr (Some sample_info))"
proof -
  have ok: "extractInferredContractInformation sample_externals sample_artifacts ''goerli'' [''0.8.19''] sample_bytecode
     = Inr sample_info"
    by code_simp
  have names: "art_getAllFullyQualifiedNames sample_artifacts = Inr [''contracts/Ve.sol:Ve'', ''contracts/A.sol:A'']"
    by code_simp
  from inferred_contract_unique [OF ok names] ok show ?thesis by metis
qed

end
