(* ===== verification/Verify_Task.thy ===== *)
theory Verify_Task
  imports Etherscan_Client Solc_Artifacts
begin

text \<open>
  The tasks of the plugin (\<open>verify1-task.ts\<close>), the helper the scripts call (\<open>VerifyUtils.ts\<close>) and
  the script \<open>verify.ts\<close>. Hardhat's runtime environment is the record \<open>hre\<close>: the provider's answers,
  the artifacts, the configuration, the module loader, the ABI encoder and the file system's
  refusals. Hardhat's compilation tasks are the record \<open>compile_tasks\<close>, whose types of graphs,
  files and jobs stay abstract. Console output is left out.
\<close>

section \<open>The environment\<close>

record 'n hre =
  h_ext :: externals
  h_net :: "'n net_env"
  h_artifacts :: artifacts_api
  h_networkName :: string
  h_chainId :: "verify_error + string"
  h_getCode :: "string \<Rightarrow> verify_error + string"
  h_etherscan :: etherscan_config
  h_compilers :: "string list"
  h_overrides :: "string obj option"
  h_newInterface :: "json \<Rightarrow> verify_error + (json list \<Rightarrow> js_error + string)"
  h_resolvePath :: "string \<Rightarrow> string"
  h_importModule :: "string \<Rightarrow> verify_error + module_default"
  h_writeError :: "string \<Rightarrow> verify_error option"

record ('g, 'f, 'j) compile_tasks =
  ct_getDependencyGraph :: "string list \<Rightarrow> verify_error + 'g"
  ct_getResolvedFiles :: "'g \<Rightarrow> 'f list"
  ct_sourceName :: "'f \<Rightarrow> string"
  ct_getCompilationJob :: "'g \<Rightarrow> 'f \<Rightarrow> verify_error + 'j"
  ct_getCompilerInput :: "'j \<Rightarrow> verify_error + json"

section \<open>Arguments of the tasks\<close>

record verify_task_args =
  vt_address :: "string option"
  vt_constructorArgsParams :: "json list"
  vt_constructorArgs :: "string option"
  vt_libraries :: "string option"
  vt_contract :: "string option"
  vt_listNetworks :: bool

text \<open>In \<open>va_libraries\<close>, \<open>None\<close> is \<open>null\<close>, which a module may export.\<close>

record verification_args =
  va_address :: string
  va_constructorArgs :: "json list"
  va_libraries :: "string obj option"
  va_contractFQN :: "string option"

text \<open>Values of any type reach \<open>verify:verify\<close>, whose defaults are an empty list and an empty object.\<close>

record verify_subtask_args =
  vs_address :: "string option"
  vs_constructorArguments :: "module_default option"
  vs_libraries :: "module_default option"
  vs_contract :: "string option"

record extended_contract_information = contract_information +
  eci_libraries :: source_to_library
  eci_undetectableLibraries :: "string list"

record verification_response =
  vr_success :: bool
  vr_message :: string

section \<open>Resolving the arguments\<close>

text \<open>The checks on address and contract name that two tasks share.\<close>

definition check_target :: "externals \<Rightarrow> string option \<Rightarrow> string option \<Rightarrow> verify_error + string" where
  "check_target ext address contract =
     (case address of
        None \<Rightarrow> Inl MissingAddressError
      | Some a \<Rightarrow>
          if \<not> ext_isAddress ext a then Inl (InvalidAddressError a)
          else
            (case contract of
               Some c \<Rightarrow> if \<not> ext_isFullyQualifiedName ext c then Inl (InvalidContractNameError c) else Inr a
             | None \<Rightarrow> Inr a))"

definition verifyResolveArguments :: "'n hre \<Rightarrow> verify_task_args \<Rightarrow> verify_error + verification_args" where
  "verifyResolveArguments h args =
     bind_res (check_target (h_ext h) (vt_address args) (vt_contract args)) (\<lambda>address.
     bind_res (resolveConstructorArguments (h_resolvePath h) (h_importModule h)
                 (vt_constructorArgsParams args) (vt_constructorArgs args)) (\<lambda>constructorArgs.
     bind_res (resolveLibraries (h_resolvePath h) (h_importModule h) (vt_libraries args)) (\<lambda>libraries.
     Inr \<lparr>va_address = address, va_constructorArgs = constructorArgs, va_libraries = libraries,
          va_contractFQN = vt_contract args\<rparr>)))"

definition verifyGetVerificationSubtasks :: "string list" where
  "verifyGetVerificationSubtasks = [TASK_VERIFY_ETHERSCAN]"

section \<open>The contract at the address\<close>

text \<open>The contract that the user named.\<close>

definition named_contract ::
    "'n hre \<Rightarrow> string \<Rightarrow> bytecode_obj \<Rightarrow> string list \<Rightarrow> verify_error + contract_information" where
  "named_contract h contractFQN deployedBytecode matchingCompilerVersions =
     (let artifactExists =
        (case art_artifactExists (h_artifacts h) contractFQN of Inl _ \<Rightarrow> False | Inr b \<Rightarrow> b)
      in if \<not> artifactExists then Inl (ContractNotFoundError contractFQN)
         else
           bind_res (art_getBuildInfo (h_artifacts h) contractFQN) (\<lambda>info.
             case info of
               None \<Rightarrow> Inl (BuildInfoNotFoundError contractFQN)
             | Some buildInfo \<Rightarrow>
                 if bi_solcVersion buildInfo \<notin> set matchingCompilerVersions \<and> \<not> isOvm deployedBytecode
                 then Inl (BuildInfoCompilerVersionMismatchError contractFQN (getVersion deployedBytecode)
                        (hasVersionRange deployedBytecode) (bi_solcVersion buildInfo) (h_networkName h))
                 else
                   bind_res (extractMatchingContractInformation (h_ext h) contractFQN buildInfo deployedBytecode)
                     (\<lambda>contractInformation.
                       case contractInformation of
                         None \<Rightarrow> Inl (DeployedBytecodeMismatchError (h_networkName h) (Some contractFQN))
                       | Some ci \<Rightarrow> Inr ci)))"

text \<open>\<open>Object.entries(null)\<close> throws.\<close>

definition user_libraries :: "string obj option \<Rightarrow> verify_error + library_to_address" where
  "user_libraries libraries =
     (case libraries of
        None \<Rightarrow> Inl (TypeError ''Cannot convert undefined or null to object'')
      | Some ls \<Rightarrow> Inr ls)"

definition verifyGetContractInformation ::
    "'n hre \<Rightarrow> string option \<Rightarrow> bytecode_obj \<Rightarrow> string list \<Rightarrow> string obj option
      \<Rightarrow> verify_error + extended_contract_information" where
  "verifyGetContractInformation h contractFQN deployedBytecode matchingCompilerVersions libraries =
     bind_res
       (case contractFQN of
          Some name \<Rightarrow> named_contract h name deployedBytecode matchingCompilerVersions
        | None \<Rightarrow> extractInferredContractInformation (h_ext h) (h_artifacts h) (h_networkName h)
                    matchingCompilerVersions deployedBytecode)
       (\<lambda>contractInformation.
     bind_res (user_libraries libraries) (\<lambda>userLibraries.
     bind_res (getLibraryInformation (h_ext h) contractInformation userLibraries) (\<lambda>libraryInformation.
     Inr (contract_information.extend contractInformation
            \<lparr>eci_libraries = li_libraries libraryInformation,
             eci_undetectableLibraries = li_undetectableLibraries libraryInformation\<rparr>))))"

section \<open>The compiler input\<close>

definition verifyGetMinimalInput :: "('g, 'f, 'j) compile_tasks \<Rightarrow> string \<Rightarrow> verify_error + json" where
  "verifyGetMinimalInput ct sourceName =
     bind_res (ct_getDependencyGraph ct [sourceName]) (\<lambda>dependencyGraph.
       case filter (\<lambda>f. ct_sourceName ct f = sourceName) (ct_getResolvedFiles ct dependencyGraph) of
         [f] \<Rightarrow> bind_res (ct_getCompilationJob ct dependencyGraph f) (ct_getCompilerInput ct)
       | _ \<Rightarrow> Inl UnexpectedNumberOfFilesError)"

definition libraries_json :: "source_to_library \<Rightarrow> json" where
  "libraries_json libs = JObj (map (\<lambda>(s, ls). (s, JObj (map (\<lambda>(l, a). (l, JStr a)) ls))) libs)"

text \<open>
  \<open>compilerInput.settings.libraries = libs\<close>: throws where \<open>settings\<close> has no properties; a property
  set on an array is not part of its JSON.
\<close>

definition set_libraries :: "json \<Rightarrow> source_to_library \<Rightarrow> verify_error + json" where
  "set_libraries compilerInput libs =
     bind_res (js_prop (Some compilerInput) ''settings'') (\<lambda>settings.
       case (compilerInput, settings) of
         (JObj kvs, Some (JObj ss)) \<Rightarrow>
           Inr (JObj (obj_set ''settings'' (JObj (obj_set ''libraries'' (libraries_json libs) ss)) kvs))
       | (JObj kvs, Some (JArr xs)) \<Rightarrow> Inr compilerInput
       | _ \<Rightarrow> Inl (TypeError ''Cannot set properties of undefined (setting libraries)''))"

section \<open>One attempt\<close>

definition verification_file :: "string \<Rightarrow> string" where
  "verification_file contractName = ''./tmp/verify/verifybc_'' @ contractName @ ''.json''"

definition write_file :: "'n hre \<Rightarrow> string \<Rightarrow> string \<Rightarrow> ('n world, verify_error, unit) io" where
  "write_file h path content w =
     (case h_writeError h path of
        Some er \<Rightarrow> Some (Inl er, w)
      | None \<Rightarrow> Some (Inr (), w\<lparr>w_files := obj_set path content (w_files w)\<rparr>))"

definition judge :: "etherscan_response \<Rightarrow> verify_error + verification_response" where
  "judge verificationStatus =
     (if \<not> (isFailure verificationStatus \<or> isSuccess verificationStatus)
      then Inl (VerificationAPIUnexpectedMessageError (js_String (er_message verificationStatus)))
      else Inr \<lparr>vr_success = isSuccess verificationStatus, vr_message = js_String (er_message verificationStatus)\<rparr>)"

definition attempt_params ::
    "string \<Rightarrow> json \<Rightarrow> extended_contract_information \<Rightarrow> string \<Rightarrow> verify_params" where
  "attempt_params address compilerInput ci encodedConstructorArguments =
     \<lparr>vp_address = address, vp_sourceCode = JSON_stringify compilerInput,
      vp_sourceName = ci_sourceName ci, vp_contractName = ci_contractName ci,
      vp_compilerVersion = ci_solcLongVersion ci,
      vp_encodedConstructorArguments = encodedConstructorArguments\<rparr>"

definition verifyAttemptVerification ::
    "'n hre \<Rightarrow> etherscan \<Rightarrow> string \<Rightarrow> json \<Rightarrow> extended_contract_information \<Rightarrow> string
      \<Rightarrow> ('n world, verify_error, verification_response) io" where
  "verifyAttemptVerification h es address compilerInput0 ci encodedConstructorArguments =
     bind_io (lift_io (set_libraries compilerInput0 (eci_libraries ci))) (\<lambda>compilerInput.
     bind_io (write_file h (verification_file (ci_contractName ci)) (JSON_stringify compilerInput)) (\<lambda>_.
     bind_io
       (bind_io (verify (h_net h) es (attempt_params address compilerInput ci encodedConstructorArguments))
         (\<lambda>response. getVerificationStatus (h_net h) es (js_String (er_message response))))
       (\<lambda>verificationStatus. lift_io (judge verificationStatus))))"

section \<open>The verification task\<close>

text \<open>What the task computes between the check for an earlier verification and the first attempt.\<close>

definition verification_plan ::
    "'n hre \<Rightarrow> ('g, 'f, 'j) compile_tasks \<Rightarrow> verification_args
      \<Rightarrow> verify_error + extended_contract_information \<times> json \<times> string" where
  "verification_plan h ct args =
     bind_res (getCompilerVersions (h_ext h) (h_compilers h) (h_overrides h)) (\<lambda>configCompilerVersions.
     bind_res (bind_res (h_getCode h (va_address args)) (\<lambda>code.
         getDeployedContractBytecode (h_ext h) (va_address args) code (h_networkName h))) (\<lambda>deployedBytecode.
     let matchingCompilerVersions = getMatchingVersions (h_ext h) deployedBytecode configCompilerVersions
     in if length matchingCompilerVersions = 0 \<and> \<not> isOvm deployedBytecode
        then Inl (CompilerVersionsMismatchError configCompilerVersions (getVersion deployedBytecode) (h_networkName h))
        else
          bind_res (verifyGetContractInformation h (va_contractFQN args) deployedBytecode
                      matchingCompilerVersions (va_libraries args)) (\<lambda>ci.
          bind_res (verifyGetMinimalInput ct (ci_sourceName ci)) (\<lambda>minimalInput.
          bind_res (encodeArguments (h_newInterface h) (co_abi (ci_contractOutput ci)) (ci_sourceName ci)
                      (ci_contractName ci) (va_constructorArgs args)) (\<lambda>encodedConstructorArguments.
          Inr (ci, minimalInput, encodedConstructorArguments))))))"

definition verifyEtherscan ::
    "'n hre \<Rightarrow> ('g, 'f, 'j) compile_tasks \<Rightarrow> verification_args \<Rightarrow> ('n world, verify_error, unit) io" where
  "verifyEtherscan h ct args =
     bind_io (lift_io (bind_res (h_chainId h) (\<lambda>reply.
       getCurrentChainConfig (ext_hardhatNetworkName (h_ext h)) (h_networkName h) reply
         (ec_customChains (h_etherscan h))))) (\<lambda>chainConfig.
     bind_io (lift_io (Etherscan_new (Some (ec_apiKey (h_etherscan h))) chainConfig)) (\<lambda>etherscan.
     bind_io (isVerified (h_net h) etherscan (va_address args)) (\<lambda>verified.
     if verified then return_io ()
     else
       bind_io (lift_io (verification_plan h ct args)) (\<lambda>(ci, minimalInput, encodedConstructorArguments).
       bind_io (verifyAttemptVerification h etherscan (va_address args) minimalInput ci
                  encodedConstructorArguments) (\<lambda>minimal.
       if vr_success minimal then return_io ()
       else
         bind_io (verifyAttemptVerification h etherscan (va_address args) (ci_compilerInput ci) ci
                    encodedConstructorArguments) (\<lambda>full.
         if vr_success full then return_io ()
         else throw_io (ContractVerificationFailedError (vr_message full) (eci_undetectableLibraries ci))))))))"

text \<open>
  Running a task by its name: \<open>verifyGetVerificationSubtasks\<close> only names \<open>TASK_VERIFY_ETHERSCAN\<close>;
  Hardhat's error for a task it does not know is \<open>ForeignError\<close> here.
\<close>

definition run_subtask ::
    "'n hre \<Rightarrow> ('g, 'f, 'j) compile_tasks \<Rightarrow> string \<Rightarrow> verification_args \<Rightarrow> ('n world, verify_error, unit) io" where
  "run_subtask h ct name args =
     (if name = TASK_VERIFY_ETHERSCAN then verifyEtherscan h ct args
      else throw_io (ForeignError (''Unrecognized task '' @ name)))"

fun run_subtasks ::
    "'n hre \<Rightarrow> ('g, 'f, 'j) compile_tasks \<Rightarrow> string list \<Rightarrow> verification_args \<Rightarrow> ('n world, verify_error, unit) io" where
  "run_subtasks h ct [] args = return_io ()"
| "run_subtasks h ct (name # names) args =
     bind_io (run_subtask h ct name args) (\<lambda>_. run_subtasks h ct names args)"

definition verifyTask ::
    "'n hre \<Rightarrow> ('g, 'f, 'j) compile_tasks \<Rightarrow> verify_task_args \<Rightarrow> ('n world, verify_error, unit) io" where
  "verifyTask h ct args =
     (if vt_listNetworks args then return_io ()
      else
        bind_io (lift_io (verifyResolveArguments h args)) (\<lambda>verificationArgs.
        run_subtasks h ct verifyGetVerificationSubtasks verificationArgs))"

definition verifyVerify ::
    "'n hre \<Rightarrow> ('g, 'f, 'j) compile_tasks \<Rightarrow> verify_subtask_args \<Rightarrow> ('n world, verify_error, unit) io" where
  "verifyVerify h ct args =
     bind_io (lift_io (check_target (h_ext h) (vs_address args) (vs_contract args))) (\<lambda>address.
       case (case vs_constructorArguments args of None \<Rightarrow> ModArray [] | Some v \<Rightarrow> v) of
         ModArray constructorArguments \<Rightarrow>
           (let run = (\<lambda>libraries.
              verifyEtherscan h ct
                \<lparr>va_address = address, va_constructorArgs = constructorArguments, va_libraries = libraries,
                 va_contractFQN = vs_contract args\<rparr>)
            in case (case vs_libraries args of None \<Rightarrow> ModObject [] | Some v \<Rightarrow> v) of
                 ModObject libraries \<Rightarrow> run (Some libraries)
               | ModNull \<Rightarrow> run None
               | _ \<Rightarrow> throw_io InvalidLibrariesError)
       | _ \<Rightarrow> throw_io InvalidConstructorArgumentsError)"

section \<open>VerifyUtils and the verification script\<close>

text \<open>\<open>try { await hre.run(...) } catch (e) { console.error(...) }\<close>.\<close>

definition swallow :: "('w, verify_error, unit) io \<Rightarrow> ('w, verify_error, unit) io" where
  "swallow m = catch_io m (\<lambda>_. return_io ())"

definition subtask_args ::
    "string \<Rightarrow> module_default option \<Rightarrow> string option \<Rightarrow> verify_subtask_args" where
  "subtask_args address args contract =
     \<lparr>vs_address = Some address, vs_constructorArguments = args, vs_libraries = None, vs_contract = contract\<rparr>"

definition VerifyUtils_verify ::
    "'n hre \<Rightarrow> ('g, 'f, 'j) compile_tasks \<Rightarrow> string \<Rightarrow> ('n world, verify_error, unit) io" where
  "VerifyUtils_verify h ct address = swallow (verifyVerify h ct (subtask_args address None None))"

definition verifyWithArgs ::
    "'n hre \<Rightarrow> ('g, 'f, 'j) compile_tasks \<Rightarrow> string \<Rightarrow> json list \<Rightarrow> ('n world, verify_error, unit) io" where
  "verifyWithArgs h ct address args =
     swallow (verifyVerify h ct (subtask_args address (Some (ModArray args)) None))"

definition verifyWithContractName ::
    "'n hre \<Rightarrow> ('g, 'f, 'j) compile_tasks \<Rightarrow> string \<Rightarrow> string \<Rightarrow> json list option \<Rightarrow> ('n world, verify_error, unit) io" where
  "verifyWithContractName h ct address contractPath args =
     swallow (verifyVerify h ct (subtask_args address (map_option ModArray args) (Some contractPath)))"

definition verifyWithArgsAndContractName ::
    "'n hre \<Rightarrow> ('g, 'f, 'j) compile_tasks \<Rightarrow> string \<Rightarrow> json list \<Rightarrow> string \<Rightarrow> ('n world, verify_error, unit) io" where
  "verifyWithArgsAndContractName h ct address args contractPath =
     swallow (verifyVerify h ct (subtask_args address (Some (ModArray args)) (Some contractPath)))"

text \<open>The network that \<open>ethers.provider.getNetwork()\<close> reports.\<close>

record ethers_network =
  en_name :: string
  en_chainId :: int

definition getNetworkScanUrl :: "ethers_network \<Rightarrow> verify_error + string" where
  "getNetworkScanUrl net =
     (if en_name net = ''ropsten'' then Inr ''https://api-ropsten.etherscan.io/api''
      else if en_name net = ''kovan'' then Inr ''https://api-kovan.etherscan.io/api''
      else if en_name net = ''rinkeby'' then Inr ''https://api-rinkeby.etherscan.io/api''
      else if en_name net = ''ethereum'' then Inr ''https://api.etherscan.io/api''
      else if en_name net = ''matic'' then Inr ''https://api.polygonscan.com/api''
      else if en_chainId net = 80001 then Inr ''https://api-testnet.polygonscan.com/api''
      else if en_chainId net = 250 then Inr ''https://api.ftmscan.com//api''
      else Inl (ForeignError ''network not found [object Object]''))"

text \<open>\<open>post\<close> is \<open>axios.post\<close>; \<open>networkScanKey\<close> is \<open>undefined\<close> where the option is not given.\<close>

definition verifyProxy ::
    "(string \<Rightarrow> string \<Rightarrow> ('w, verify_error, json) io) \<Rightarrow> verify_error + ethers_network \<Rightarrow> string option \<Rightarrow> string
      \<Rightarrow> ('w, verify_error, unit) io" where
  "verifyProxy post getNetwork networkScanKey adr =
     swallow
       (bind_io (lift_io (bind_res getNetwork getNetworkScanUrl)) (\<lambda>url.
        bind_io (post (url @ ''?module=contract&action=verifyproxycontract&apikey=''
                       @ (case networkScanKey of None \<Rightarrow> ''undefined'' | Some k \<Rightarrow> k))
                   (''address='' @ adr)) (\<lambda>resp.
        return_io ())))"

text \<open>\<open>deployment\<close> is \<open>deployments.get\<close>, which throws for a contract that is not deployed.\<close>

definition script_verify ::
    "'n hre \<Rightarrow> ('g, 'f, 'j) compile_tasks \<Rightarrow> (string \<Rightarrow> verify_error + string) \<Rightarrow> string \<Rightarrow> string option
      \<Rightarrow> ('n world, verify_error, unit) io" where
  "script_verify h ct deployment name pkg =
     bind_io (lift_io (deployment name)) (\<lambda>address.
       case pkg of
         Some p \<Rightarrow>
           if p \<noteq> '''' then verifyWithContractName h ct address (p @ ''/'' @ name @ ''.sol:'' @ name) None
           else VerifyUtils_verify h ct address
       | None \<Rightarrow> VerifyUtils_verify h ct address)"

definition script_main ::
    "'n hre \<Rightarrow> ('g, 'f, 'j) compile_tasks \<Rightarrow> (string \<Rightarrow> verify_error + string) \<Rightarrow> ('n world, verify_error, unit) io" where
  "script_main h ct deployment =
     bind_io (script_verify h ct deployment ''VeLogo'' None) (\<lambda>_.
     script_verify h ct deployment ''VeLogic'' None)"

section \<open>Lemmas\<close>

lemma judge_success:
  "judge s = Inr r \<Longrightarrow> vr_success r \<longleftrightarrow> isSuccess s"
  by (auto simp: judge_def split: if_splits)

text \<open>An attempt that returns has had a submission accepted and a final status for it.\<close>

lemma attempt_returns:
  assumes "verifyAttemptVerification h es address input0 ci enc w = Some (Inr r, w')"
  obtains input w0 w1 g sub s
  where "set_libraries input0 (eci_libraries ci) = Inr input"
    and "write_file h (verification_file (ci_contractName ci)) (JSON_stringify input) w = Some (Inr (), w0)"
    and "verify (h_net h) es (attempt_params address input ci enc) w0 = Some (Inr sub, w1)"
    and "isOk sub" and "er_message sub = Some (JStr g)"
    and "getVerificationStatus (h_net h) es g w1 = Some (Inr s, w')"
    and "judge s = Inr r"
proof -
  from assms obtain input w0 s where 1:
      "set_libraries input0 (eci_libraries ci) = Inr input"
      "write_file h (verification_file (ci_contractName ci)) (JSON_stringify input) w = Some (Inr (), w0)"
      "judge s = Inr r"
    and s: "bind_io (verify (h_net h) es (attempt_params address input ci enc))
         (\<lambda>response. getVerificationStatus (h_net h) es (js_String (er_message response))) w0 = Some (Inr s, w')"
    unfolding verifyAttemptVerification_def by (auto simp: bind_io_eq_Inr)
  from client.submit_then_status [OF s] 1 that show thesis by blast
qed

lemma attempt_None:
  assumes "verifyAttemptVerification h es address input0 ci enc w = None"
  shows "\<exists>g w1. getVerificationStatus (h_net h) es g w1 = None"
proof -
  have [simp]: "verify (h_net h) es p w = None \<longleftrightarrow> False" for p w
    using client_settles_quietly(2) [of "h_net h" es p] unfolding settles_quietly_def
    by (metis option.distinct(1))
  have [simp]: "write_file h f c w = None \<longleftrightarrow> False" for f c w
    by (simp add: write_file_def split: option.splits)
  show ?thesis
    using assms unfolding verifyAttemptVerification_def by (auto simp: bind_io_eq_None)
qed

text \<open>A computation that always settles.\<close>

definition settles :: "('w, 'e, 'a) io \<Rightarrow> bool" where
  "settles m \<longleftrightarrow> (\<forall>w. m w \<noteq> None)"

lemma settles_quietly_settles: "settles_quietly m \<Longrightarrow> settles m"
  by (auto simp: settles_def settles_quietly_def) (metis option.distinct(1))

lemma settles_simps [simp]: "settles (lift_io r)" "settles (return_io a)" "settles (throw_io e)"
  by (simp_all add: settles_def)

lemma settles_bind: "settles m \<Longrightarrow> (\<And>a. settles (f a)) \<Longrightarrow> settles (bind_io m f)"
  by (auto simp: settles_def bind_io_def split: option.splits sum.splits)

lemma attempt_files:
  assumes "set_libraries input0 (eci_libraries ci) = Inr input"
    and "h_writeError h (verification_file (ci_contractName ci)) = None"
    and "verifyAttemptVerification h es address input0 ci enc w = Some (x, w')"
  shows "w_files w' = obj_set (verification_file (ci_contractName ci)) (JSON_stringify input) (w_files w)"
proof -
  let ?f = "verification_file (ci_contractName ci)"
  let ?w0 = "w\<lparr>w_files := obj_set ?f (JSON_stringify input) (w_files w)\<rparr>"
  let ?m = "bind_io (verify (h_net h) es (attempt_params address input ci enc))
         (\<lambda>response. getVerificationStatus (h_net h) es (js_String (er_message response)))"
  have "bind_io ?m (\<lambda>s. lift_io (judge s)) ?w0 = Some (x, w')"
    using assms by (simp add: verifyAttemptVerification_def bind_io_def write_file_def)
  then obtain y where "?m ?w0 = Some (y, w')"
    by (auto simp: bind_io_def [of ?m] split: option.splits sum.splits)
  from client.submit_then_status_files [OF this] show ?thesis by simp
qed

text \<open>The information the task works with is that of a contract whose bytecode was compared.\<close>

text \<open>
  The contract comes from a build of the project by one of the given compiler versions; code of the OVM
  is let through whatever its version is.
\<close>

definition from_build :: "artifacts_api \<Rightarrow> string list \<Rightarrow> bytecode_obj \<Rightarrow> 'z contract_information_scheme \<Rightarrow> bool" where
  "from_build arts vs b ci \<longleftrightarrow>
     (\<exists>n buildInfo. art_getBuildInfo arts n = Inr (Some buildInfo)
        \<and> (bi_solcVersion buildInfo \<in> set vs \<or> isOvm b)
        \<and> ci_compilerInput ci = bi_input buildInfo \<and> ci_solcLongVersion ci = bi_solcLongVersion buildInfo)"

lemma extractMatching_sound:
  assumes "extractMatchingContractInformation ext name buildInfo b = Inr (Some ci)"
    and "art_getBuildInfo arts n = Inr (Some buildInfo)" and "bi_solcVersion buildInfo \<in> set vs \<or> isOvm b"
  shows "compare b (co_deployedBytecode (ci_contractOutput ci)) = Inr True
    \<and> ci_deployedBytecode ci = stringify b \<and> from_build arts vs b ci"
proof -
  have "compare b (co_deployedBytecode (ci_contractOutput ci)) = Inr True" "ci_deployedBytecode ci = stringify b"
      "ci_compilerInput ci = bi_input buildInfo" "ci_solcLongVersion ci = bi_solcLongVersion buildInfo"
    using assms(1) by (auto simp: extractMatchingContractInformation_def res_simps split: if_splits)
  with assms(2,3) show ?thesis unfolding from_build_def by blast
qed

lemma lookup_candidate_sound:
  assumes "lookup_candidate ext arts vs b n = Inr (Some ci)"
  shows "compare b (co_deployedBytecode (ci_contractOutput ci)) = Inr True
    \<and> ci_deployedBytecode ci = stringify b \<and> from_build arts vs b ci"
proof -
  obtain buildInfo where "art_getBuildInfo arts n = Inr (Some buildInfo)" "bi_solcVersion buildInfo \<in> set vs \<or> isOvm b"
      "extractMatchingContractInformation ext n buildInfo b = Inr (Some ci)"
    using assms by (auto simp: lookup_candidate_def res_simps split: option.splits if_splits)
  from extractMatching_sound [OF this(3,1,2)] show ?thesis .
qed

lemma inferred_sound:
  assumes "extractInferredContractInformation ext arts net vs b = Inr ci"
  shows "compare b (co_deployedBytecode (ci_contractOutput ci)) = Inr True
    \<and> ci_deployedBytecode ci = stringify b \<and> from_build arts vs b ci"
proof -
  from assms obtain names cs where names: "art_getAllFullyQualifiedNames arts = Inr names"
    and cs: "lookupMatchingBytecode ext arts vs b = Inr cs"
    by (auto simp: extractInferredContractInformation_def lookupMatchingBytecode_def res_simps)
  have "ci \<in> set cs"
    using assms cs by (cases cs; cases "tl cs") (auto simp: extractInferredContractInformation_def)
  moreover have "\<forall>c \<in> set cs. \<exists>n. lookup_candidate ext arts vs b n = Inr (Some c)"
  proof (rule fold_res_invariant [where I = "\<lambda>cs. \<forall>c \<in> set cs. \<exists>n. lookup_candidate ext arts vs b n = Inr (Some c)"])
    show "fold_res (\<lambda>fqName contractMatches.
       bind_res (lookup_candidate ext arts vs b fqName) (\<lambda>m.
       Inr (case m of None \<Rightarrow> contractMatches | Some ci \<Rightarrow> contractMatches @ [ci]))) names [] = Inr cs"
      using cs names by (simp add: lookupMatchingBytecode_def)
  qed (auto simp: res_simps split: option.splits)
  ultimately show ?thesis using lookup_candidate_sound by blast
qed

lemma named_sound:
  assumes "named_contract h name b vs = Inr ci"
  shows "compare b (co_deployedBytecode (ci_contractOutput ci)) = Inr True
    \<and> ci_deployedBytecode ci = stringify b \<and> from_build (h_artifacts h) vs b ci"
proof -
  obtain buildInfo where "art_getBuildInfo (h_artifacts h) name = Inr (Some buildInfo)" "bi_solcVersion buildInfo \<in> set vs \<or> isOvm b"
      "extractMatchingContractInformation (h_ext h) name buildInfo b = Inr (Some ci)"
    using assms by (auto simp: named_contract_def Let_def res_simps split: if_splits option.splits)
  from extractMatching_sound [OF this(3,1,2)] show ?thesis .
qed

lemma contract_information_sound:
  assumes "verifyGetContractInformation h name b vs libs = Inr ci"
  shows "compare b (co_deployedBytecode (ci_contractOutput ci)) = Inr True
    \<and> ci_deployedBytecode ci = stringify b
    \<and> from_build (h_artifacts h) vs b ci
    \<and> (\<exists>user. libs = Some user
        \<and> getLibraryInformation (h_ext h) (contract_information.truncate ci) user
            = Inr \<lparr>li_libraries = eci_libraries ci, li_undetectableLibraries = eci_undetectableLibraries ci\<rparr>)"
proof -
  from assms obtain c user li where
      c: "(case name of Some n \<Rightarrow> named_contract h n b vs
           | None \<Rightarrow> extractInferredContractInformation (h_ext h) (h_artifacts h) (h_networkName h) vs b) = Inr c"
    and u: "libs = Some user" and li: "getLibraryInformation (h_ext h) c user = Inr li"
    and ci: "ci = contract_information.extend c
            \<lparr>eci_libraries = li_libraries li, eci_undetectableLibraries = li_undetectableLibraries li\<rparr>"
    by (auto simp: verifyGetContractInformation_def res_simps user_libraries_def split: option.splits)
  have "compare b (co_deployedBytecode (ci_contractOutput c)) = Inr True \<and> ci_deployedBytecode c = stringify b
      \<and> from_build (h_artifacts h) vs b c"
    using c named_sound [of h _ b vs c] inferred_sound [of "h_ext h" "h_artifacts h" "h_networkName h" vs b c] by (cases name) auto
  moreover have "contract_information.truncate ci = c"
    "co_deployedBytecode (ci_contractOutput ci) = co_deployedBytecode (ci_contractOutput c)"
    "ci_deployedBytecode ci = ci_deployedBytecode c" "from_build (h_artifacts h) vs b ci = from_build (h_artifacts h) vs b c"
    "\<lparr>li_libraries = eci_libraries ci, li_undetectableLibraries = eci_undetectableLibraries ci\<rparr> = li"
    by (simp_all add: ci contract_information.defs from_build_def)
  ultimately show ?thesis using u li by simp
qed

section \<open>A concrete run\<close>

text \<open>
  An explorer that knows nothing of the contract, accepts the submission, answers the first status
  request with a pending status and the second with success; the state counts the requests.
\<close>

definition sample_reply :: "nat \<Rightarrow> json" where
  "sample_reply n =
     (if n = 0 then JObj [(''message'', JStr ''OK''), (''result'', JArr [JObj [(''SourceCode'', JStr '''')]])]
      else if n = 1 then JObj [(''status'', JStr ''1''), (''result'', JStr ''guid'')]
      else if n = 2 then JObj [(''status'', JStr ''0''), (''result'', JStr ''Pending in queue'')]
      else JObj [(''status'', JStr ''1''), (''result'', JStr ''Pass - Verified'')])"

definition sample_net :: "nat net_env" where
  "sample_net =
     \<lparr>ne_request = (\<lambda>rq n. (Inr \<lparr>hr_statusCode = 200, hr_text = Inr '''', hr_json = Inr (sample_reply n)\<rparr>, n + 1)),
      ne_http_proxy = None\<rparr>"

definition sample_hre :: "nat hre" where
  "sample_hre =
     \<lparr>h_ext = sample_externals\<lparr>ext_satisfies := (\<lambda>v range. v = range \<or> range = supportedSolcVersionRange)\<rparr>,
      h_net = sample_net, h_artifacts = sample_artifacts,
      h_networkName = ''goerli'', h_chainId = Inr ''0x5'', h_getCode = (\<lambda>_. Inr ''0x60aabb60b2b20002''),
      h_etherscan = \<lparr>ec_apiKey = ApiKeyString ''key'', ec_customChains = []\<rparr>,
      h_compilers = [''0.8.19''], h_overrides = None,
      h_newInterface = (\<lambda>_. Inr (\<lambda>_. Inr ''0x'')), h_resolvePath = (\<lambda>p. p),
      h_importModule = (\<lambda>p. Inl (ForeignError p)), h_writeError = (\<lambda>_. None)\<rparr>"

definition sample_compile :: "(string list, string, string) compile_tasks" where
  "sample_compile =
     \<lparr>ct_getDependencyGraph = (\<lambda>names. Inr (names @ [''contracts/Names.sol''])), ct_getResolvedFiles = (\<lambda>g. g),
      ct_sourceName = (\<lambda>f. f), ct_getCompilationJob = (\<lambda>g f. Inr f),
      ct_getCompilerInput = (\<lambda>f. Inr (JObj [(''sources'', JArr [JStr f]), (''settings'', JObj [])]))\<rparr>"

definition sample_args :: verification_args where
  "sample_args =
     \<lparr>va_address = sample_address, va_constructorArgs = [],
      va_libraries = Some [(''Names'', sample_address)], va_contractFQN = None\<rparr>"

definition sample_world :: "nat world" where
  "sample_world = \<lparr>w_net = 0, w_files = []\<rparr>"

section \<open>Properties\<close>

lemma sample_run:
  "\<exists>w'. verifyEtherscan sample_hre sample_compile sample_args sample_world = Some (Inr (), w') \<and> w_net w' = 4"
proof -
  let ?run = "verifyEtherscan sample_hre sample_compile sample_args sample_world"
  have "(case ?run of Some (Inr _, w') \<Rightarrow> w_net w' = 4 | _ \<Rightarrow> False)"
    by code_simp
  from case_returned [OF this] show ?thesis by simp
qed

text \<open>
  C1. The verification task has no false success: if it returns normally, then the explorer of
  the current chain either reported the contract as verified before anything was submitted, or
  accepted the submission of the planned contract, with the minimal or the full compiler input and
  the resolved libraries, and finally answered \<open>Pass - Verified\<close> for that very submission.
\<close>

theorem task_no_false_success:
  assumes "verifyEtherscan h ct args w = Some (Inr (), w')"
  shows "\<exists>reply chain es. h_chainId h = Inr reply
     \<and> getCurrentChainConfig (ext_hardhatNetworkName (h_ext h)) (h_networkName h) reply
         (ec_customChains (h_etherscan h)) = Inr chain
     \<and> Etherscan_new (Some (ec_apiKey (h_etherscan h))) chain = Inr es
     \<and> (isVerified (h_net h) es (va_address args) w = Some (Inr True, w')
        \<or> (\<exists>ci minimal enc input0 input w0 w1 g sub s.
             verification_plan h ct args = Inr (ci, minimal, enc)
             \<and> input0 \<in> {minimal, ci_compilerInput ci}
             \<and> set_libraries input0 (eci_libraries ci) = Inr input
             \<and> verify (h_net h) es (attempt_params (va_address args) input ci enc) w0 = Some (Inr sub, w1)
             \<and> isOk sub \<and> er_message sub = Some (JStr g)
             \<and> getVerificationStatus (h_net h) es g w1 = Some (Inr s, w') \<and> isSuccess s))"
proof -
  from assms obtain reply chain es v w1 where
      es: "h_chainId h = Inr reply"
         "getCurrentChainConfig (ext_hardhatNetworkName (h_ext h)) (h_networkName h) reply
            (ec_customChains (h_etherscan h)) = Inr chain"
         "Etherscan_new (Some (ec_apiKey (h_etherscan h))) chain = Inr es"
    and v: "isVerified (h_net h) es (va_address args) w = Some (Inr v, w1)"
    and rest: "(if v then return_io () else
       bind_io (lift_io (verification_plan h ct args)) (\<lambda>(ci, minimalInput, enc).
       bind_io (verifyAttemptVerification h es (va_address args) minimalInput ci enc) (\<lambda>minimal.
       if vr_success minimal then return_io ()
       else
         bind_io (verifyAttemptVerification h es (va_address args) (ci_compilerInput ci) ci enc) (\<lambda>full.
         if vr_success full then return_io ()
         else throw_io (ContractVerificationFailedError (vr_message full) (eci_undetectableLibraries ci)))))) w1
       = Some (Inr (), w')"
    unfolding verifyEtherscan_def by (auto simp: bind_io_eq_Inr bind_res_eq_Inr)
  show ?thesis
  proof (cases v)
    case True
    with es v rest show ?thesis by auto
  next
    case False
    with rest obtain ci minimal enc input0 w2 r where
        plan: "verification_plan h ct args = Inr (ci, minimal, enc)"
      and i: "input0 \<in> {minimal, ci_compilerInput ci}"
      and a: "verifyAttemptVerification h es (va_address args) input0 ci enc w2 = Some (Inr r, w')" "vr_success r"
      by (auto simp: bind_io_eq_Inr split: if_splits prod.splits)
    obtain input w3 w4 g sub s where
        "set_libraries input0 (eci_libraries ci) = Inr input"
        "verify (h_net h) es (attempt_params (va_address args) input ci enc) w3 = Some (Inr sub, w4)"
        "isOk sub" "er_message sub = Some (JStr g)"
        "getVerificationStatus (h_net h) es g w4 = Some (Inr s, w')" "judge s = Inr r"
      using a(1) by (rule attempt_returns)
    moreover from this a(2) have "isSuccess s" by (simp add: judge_success)
    ultimately show ?thesis using es plan i by blast
  qed
qed

theorem task_no_false_success_witness:
  "\<exists>w' es. verifyEtherscan sample_hre sample_compile sample_args sample_world = Some (Inr (), w')
     \<and> (isVerified sample_net es sample_address sample_world = Some (Inr True, w')
        \<or> (\<exists>g w1 s. getVerificationStatus sample_net es g w1 = Some (Inr s, w') \<and> isSuccess s))"
proof -
  obtain w' where run: "verifyEtherscan sample_hre sample_compile sample_args sample_world = Some (Inr (), w')"
    using sample_run by blast
  have "h_net sample_hre = sample_net" "va_address sample_args = sample_address"
    by (simp_all add: sample_hre_def sample_args_def)
  with task_no_false_success [OF run] run show ?thesis by auto
qed

text \<open>
  C34. Only a contract that matches is ever submitted: what the task plans to submit comes from a
  build whose runtime code the comparison accepted for the code deployed at the address, made by
  a configured compiler that the metadata of the deployed code admits (code of the OVM apart), and the
  libraries it is linked with are those that \<open>getLibraryInformation\<close> resolved for it.
\<close>

theorem plan_matches_deployed_code:
  assumes "verification_plan h ct args = Inr (ci, minimal, enc)"
  shows "\<exists>code b user versions. h_getCode h (va_address args) = Inr code
     \<and> getDeployedContractBytecode (h_ext h) (va_address args) code (h_networkName h) = Inr b
     \<and> compare b (co_deployedBytecode (ci_contractOutput ci)) = Inr True
     \<and> ci_deployedBytecode ci = stringify b
     \<and> getCompilerVersions (h_ext h) (h_compilers h) (h_overrides h) = Inr versions
     \<and> from_build (h_artifacts h) (getMatchingVersions (h_ext h) b versions) b ci
     \<and> va_libraries args = Some user
     \<and> getLibraryInformation (h_ext h) (contract_information.truncate ci) user
         = Inr \<lparr>li_libraries = eci_libraries ci, li_undetectableLibraries = eci_undetectableLibraries ci\<rparr>
     \<and> verifyGetMinimalInput ct (ci_sourceName ci) = Inr minimal"
proof -
  from assms obtain code b versions where "h_getCode h (va_address args) = Inr code"
      "getDeployedContractBytecode (h_ext h) (va_address args) code (h_networkName h) = Inr b"
      "getCompilerVersions (h_ext h) (h_compilers h) (h_overrides h) = Inr versions"
      "verifyGetContractInformation h (va_contractFQN args) b (getMatchingVersions (h_ext h) b versions) (va_libraries args) = Inr ci"
      "verifyGetMinimalInput ct (ci_sourceName ci) = Inr minimal"
    by (auto simp: verification_plan_def Let_def bind_res_eq_Inr split: if_splits)
  then show ?thesis using contract_information_sound by blast
qed

theorem plan_matches_deployed_code_witness:
  "\<exists>ci minimal enc b. verification_plan sample_hre sample_compile sample_args = Inr (ci, minimal, enc)
     \<and> ci_contractName ci = ''Ve'' \<and> compare b (co_deployedBytecode (ci_contractOutput ci)) = Inr True"
proof -
  have "(case verification_plan sample_hre sample_compile sample_args of
      Inr (ci, _, _) \<Rightarrow> ci_contractName ci = ''Ve'' | Inl _ \<Rightarrow> False)"
    by code_simp
  then obtain ci minimal enc where plan: "verification_plan sample_hre sample_compile sample_args = Inr (ci, minimal, enc)"
    and n: "ci_contractName ci = ''Ve''"
    by (cases "verification_plan sample_hre sample_compile sample_args") auto
  from plan_matches_deployed_code [OF plan] plan n show ?thesis by blast
qed

text \<open>
  The task settles whenever polling does: the only way for it never to return is an explorer
  that keeps a submission pending forever.
\<close>

theorem task_settles_if_polling_does:
  assumes "\<And>es g w. getVerificationStatus (h_net h) es g w \<noteq> None"
  shows "\<exists>r w'. verifyEtherscan h ct args w = Some (r, w')"
proof -
  have "verifyAttemptVerification h es a i ci enc w \<noteq> None" for es a i ci enc w
    using attempt_None assms by blast
  then have "settles (verifyAttemptVerification h es a i ci enc)" for es a i ci enc
    unfolding settles_def by blast
  moreover have "settles (isVerified (h_net h) es a)" for es a
    using client_settles_quietly(1) by (rule settles_quietly_settles)
  ultimately have "settles (verifyEtherscan h ct args)"
    unfolding verifyEtherscan_def by (intro settles_bind) (auto intro!: settles_bind)
  then have "verifyEtherscan h ct args w \<noteq> None" unfolding settles_def by blast
  then show ?thesis by auto
qed

text \<open>An explorer that answers every request with success.\<close>

definition prompt_net :: "nat net_env" where
  "prompt_net =
     \<lparr>ne_request = (\<lambda>rq n. (Inr \<lparr>hr_statusCode = 200, hr_text = Inr '''', hr_json = Inr (sample_reply 3)\<rparr>, n + 1)),
      ne_http_proxy = None\<rparr>"

lemma prompt_net_not_Again: "poll_result prompt_net es g w \<noteq> Inr Again"
proof -
  have "poll_reply \<lparr>hr_statusCode = 200, hr_text = Inr '''', hr_json = Inr (sample_reply 3)\<rparr> \<noteq> Inr Again"
    by (simp add: poll_reply_Again sample_reply_def)
  then show ?thesis
    by (cases "query_url es (status_parameters es g)")
       (simp_all add: poll_result_def poll_once_def bind_io_def catch_io_def sendGetRequest_def prompt_net_def)
qed

theorem task_settles_if_polling_does_witness:
  "\<exists>r w'. verifyEtherscan (sample_hre\<lparr>h_net := prompt_net\<rparr>) sample_compile sample_args sample_world = Some (r, w')"
proof (rule task_settles_if_polling_does)
  fix es g w
  have "settled (poll_result prompt_net es g (poll_world prompt_net es g 0 w)) \<noteq> None"
    using prompt_net_not_Again by (simp add: settled_None_iff)
  then show "getVerificationStatus (h_net (sample_hre\<lparr>h_net := prompt_net\<rparr>)) es g w \<noteq> None"
    using getVerificationStatus_settles [of prompt_net es g 0 w] by auto
qed

text \<open>
  An attempt leaves exactly one trace on disk: once its input is written, the file
  \<open>./tmp/verify/verifybc_<contract>.json\<close> holds that very input with the resolved libraries,
  whatever the explorer answers, and every other file is as before. So when the attempt with the
  full input follows the one with the minimal input, the file that is left is the full input.
\<close>

theorem attempt_leaves_its_input:
  assumes "set_libraries full (eci_libraries ci) = Inr input"
    and "h_writeError h (verification_file (ci_contractName ci)) = None"
    and "verifyAttemptVerification h es address minimal ci enc w = Some (Inr r, w1)"
    and "verifyAttemptVerification h es address full ci enc w1 = Some (x, w2)"
  shows "obj_get (w_files w2) =
     (obj_get (w_files w))(verification_file (ci_contractName ci) \<mapsto> JSON_stringify input)"
proof -
  obtain input1 where "set_libraries minimal (eci_libraries ci) = Inr input1"
    using assms(3) by (rule attempt_returns)
  from attempt_files [OF this assms(2) assms(3)] attempt_files [OF assms(1,2,4)]
  show ?thesis by simp
qed

definition sample_extended :: extended_contract_information where
  "sample_extended = contract_information.extend sample_info
     \<lparr>eci_libraries = [(''contracts/Names.sol'', [(''Names'', sample_address)])], eci_undetectableLibraries = []\<rparr>"

theorem attempt_leaves_its_input_witness:
  "\<exists>w1 w2 input. set_libraries (ci_compilerInput sample_extended) (eci_libraries sample_extended) = Inr input
     \<and> verifyAttemptVerification sample_hre \<lparr>es_apiKey = ''key'', es_apiUrl = ''https://api-goerli.etherscan.io/api'', es_browserUrl = ''''\<rparr>
         sample_address (ci_compilerInput sample_extended) sample_extended '''' w1 = Some (Inr \<lparr>vr_success = True, vr_message = ''Pass - Verified''\<rparr>, w2)
     \<and> obj_get (w_files w2) ''./tmp/verify/verifybc_Ve.json'' = Some (JSON_stringify input)"
proof -
  let ?es = "\<lparr>es_apiKey = ''key'', es_apiUrl = ''https://api-goerli.etherscan.io/api'', es_browserUrl = ''''\<rparr>"
  let ?ci = sample_extended and ?h = sample_hre
  let ?r = "\<lparr>vr_success = True, vr_message = ''Pass - Verified''\<rparr>"
  define full where "full = ci_compilerInput ?ci"
  define input where "input = JObj [(''settings'', JObj [(''libraries'',
      JObj [(''contracts/Names.sol'', JObj [(''Names'', JStr sample_address)])])])]"
  have i: "set_libraries full (eci_libraries ?ci) = Inr input"
    unfolding full_def input_def by code_simp
  have f: "verification_file (ci_contractName ?ci) = ''./tmp/verify/verifybc_Ve.json''" by code_simp
  have n: "h_writeError ?h (verification_file (ci_contractName ?ci)) = None" by (simp add: sample_hre_def)
  define st where "st k = \<lparr>w_net = k, w_files = [(verification_file (ci_contractName ?ci), JSON_stringify input)]\<rparr>" for k :: nat
  have 1: "verifyAttemptVerification ?h ?es sample_address full ?ci '''' \<lparr>w_net = 1, w_files = []\<rparr> = Some (Inr ?r, st 4)"
    unfolding full_def input_def st_def by code_simp
  have 2: "verifyAttemptVerification ?h ?es sample_address full ?ci '''' (st 4) = Some (Inr ?r, st 6)"
    unfolding full_def input_def st_def by code_simp
  from attempt_leaves_its_input [OF i n 1 2] i 2 show ?thesis
    unfolding f full_def by (metis fun_upd_same)
qed

lemma swallow_error: "swallow m w = Some (Inl e, w') \<Longrightarrow> False"
  by (auto simp: swallow_def catch_io_def split: option.splits sum.splits)

text \<open>
  The script \<open>verify.ts\<close> fails only where a deployment is missing: every error of the
  verification itself, a rejected contract included, is swallowed by \<open>VerifyUtils\<close>, so that the
  script ends normally.
\<close>

theorem script_fails_only_without_deployment:
  assumes "script_main h ct deployment w = Some (Inl e, w')"
  shows "deployment ''VeLogo'' = Inl e \<or> deployment ''VeLogic'' = Inl e"
proof -
  have "deployment n = Inl e" if "script_verify h ct deployment n None w = Some (Inl e, w')" for n w w'
    using that swallow_error
    by (cases "deployment n") (auto simp: script_verify_def VerifyUtils_verify_def)
  then show ?thesis using assms by (auto simp: script_main_def bind_io_eq_Inl)
qed

theorem script_fails_only_without_deployment_witness:
  "script_main sample_hre sample_compile (\<lambda>n. Inl (ForeignError n)) sample_world
     = Some (Inl (ForeignError ''VeLogo''), sample_world)
   \<and> (ForeignError ''VeLogo'' \<noteq> ForeignError ''VeLogic'')"
proof -
  have 1: "script_main sample_hre sample_compile (\<lambda>n. Inl (ForeignError n)) sample_world
     = Some (Inl (ForeignError ''VeLogo''), sample_world)"
    by (simp add: script_main_def script_verify_def bind_io_def)
  from script_fails_only_without_deployment [OF 1] 1 show ?thesis by auto
qed

text \<open>
  The checks of \<open>verify:verify\<close> come before any effect and in the order of the source: a
  missing address, an invalid address, a name that is not fully qualified, constructor arguments
  that are no list, libraries that are no object; past these checks it is the verification task.
\<close>

theorem verifyVerify_guards:
  "verifyVerify h ct \<lparr>vs_address = a, vs_constructorArguments = cargs, vs_libraries = libs, vs_contract = c\<rparr> w =
     (if a = None then Some (Inl MissingAddressError, w)
      else if \<not> ext_isAddress (h_ext h) (the a) then Some (Inl (InvalidAddressError (the a)), w)
      else if c \<noteq> None \<and> \<not> ext_isFullyQualifiedName (h_ext h) (the c) then Some (Inl (InvalidContractNameError (the c)), w)
      else if cargs \<in> {Some ModNull, Some ModOther} \<union> range (Some \<circ> ModObject) then Some (Inl InvalidConstructorArgumentsError, w)
      else if libs \<in> {Some ModOther} \<union> range (Some \<circ> ModArray) then Some (Inl InvalidLibrariesError, w)
      else verifyEtherscan h ct
             \<lparr>va_address = the a,
              va_constructorArgs = (case cargs of Some (ModArray xs) \<Rightarrow> xs | _ \<Rightarrow> []),
              va_libraries = (case libs of Some (ModObject ls) \<Rightarrow> Some ls | Some ModNull \<Rightarrow> None | _ \<Rightarrow> Some []),
              va_contractFQN = c\<rparr> w)"
  by (cases a; cases c)
     (auto simp: verifyVerify_def check_target_def Let_def image_iff split: option.splits module_default.splits)

end
