(* ===== verification/Hardhat_Config.thy ===== *)
theory Hardhat_Config
  imports Verify_Task
begin

text \<open>
  The project's configuration (\<open>hardhat.config.ts\<close>): networks, explorers, API keys and named accounts.
  \<open>env\<close> is \<open>process.env\<close> after \<open>dotenv\<close> has run.
\<close>

section \<open>Values from the environment\<close>

type_synonym environment = "string \<Rightarrow> string option"

text \<open>\<open>process.env.X || d\<close>: an empty string is falsy.\<close>

definition env_or :: "environment \<Rightarrow> string \<Rightarrow> string \<Rightarrow> string" where
  "env_or env x d = (case env x of Some v \<Rightarrow> if v = '''' then d else v | None \<Rightarrow> d)"

definition ZKEVM_RPC_URL :: "environment \<Rightarrow> string" where
  "ZKEVM_RPC_URL env = env_or env ''ZKEVM_RPC_URL'' ''https://zkevm-rpc.com''"

definition ZKEVM_TESTNET_RPC_URL :: "environment \<Rightarrow> string" where
  "ZKEVM_TESTNET_RPC_URL env = env_or env ''ZKEVM_TESTNET_RPC_URL'' ''https://rpc.public.zkevm-test.net''"

definition GOERLI_RPC_URL :: "environment \<Rightarrow> string" where
  "GOERLI_RPC_URL env = env_or env ''GOERLI_RPC_URL'' ''https://ethereum-goerli.publicnode.com''"

definition PRIVATE_KEY :: "environment \<Rightarrow> string" where
  "PRIVATE_KEY env =
     env_or env ''PRIVATE_KEY'' ''85bb5fa78d5c4ed1fde856e9d0d1fe19973d7a79ce9ed6c0358ee06a4550504e''"

definition ETHERSCAN_API_KEY :: "environment \<Rightarrow> string" where
  "ETHERSCAN_API_KEY env = env_or env ''ETHERSCAN_API_KEY'' ''aaa''"

definition ZERO_ADDRESS :: string where
  "ZERO_ADDRESS = ''0x'' @ js_repeat (CHR ''0'') 40"

section \<open>Named accounts\<close>

text \<open>An account is an index among the signers of the network or an address.\<close>

datatype account = AccountIndex nat | AccountAddress string

datatype account_spec = OnAllNetworks account | PerNetwork "account obj"

definition namedAccounts :: "account_spec obj" where
  "namedAccounts =
     [(''deployer'', OnAllNetworks (AccountIndex 0)),
      (''api3Proxy'', PerNetwork
        [(''hardhat'', AccountAddress ZERO_ADDRESS),
         (''zkevmtestnet'', AccountAddress ''0x26690F9f17FdC26D419371315bc17950a0FC90eD''),
         (''zkevm'', AccountAddress ''0x26690F9f17FdC26D419371315bc17950a0FC90eD''),
         (''goerli'', AccountAddress ''0x26690F9f17FdC26D419371315bc17950a0FC90eD'')]),
      (''pyth'', PerNetwork
        [(''hardhat'', AccountAddress ZERO_ADDRESS),
         (''zkevmtestnet'', AccountAddress ''0xd54bf1758b1C932F86B178F8b1D5d1A7e2F62C2E''),
         (''zkevm'', AccountAddress ''0xC5E56d6b40F3e3B5fbfa266bCd35C37426537c65''),
         (''goerli'', AccountAddress ''0xff1a0f4744e8582DF1aE09D5611b887B6a12925C'')]),
      (''rateReceiver'', PerNetwork
        [(''hardhat'', AccountAddress ZERO_ADDRESS),
         (''zkevmtestnet'', AccountAddress ZERO_ADDRESS),
         (''goerli'', AccountAddress ZERO_ADDRESS),
         (''zkevm'', AccountAddress ''0x00346D2Fd4B2Dc3468fA38B857409BC99f832ef8'')]),
      (''wstETH'', PerNetwork
        [(''hardhat'', AccountAddress ZERO_ADDRESS),
         (''zkevmtestnet'', AccountAddress ZERO_ADDRESS),
         (''goerli'', AccountAddress ZERO_ADDRESS),
         (''zkevm'', AccountAddress ''0x5d8cff95d7a57c0bf50b30b43c7cc0d52825d4a9'')]),
      (''spender'', PerNetwork
        [(''hardhat'', AccountIndex 1),
         (''zkevmtestnet'', AccountAddress ''0x326471C46A622bDf4AED5e1AEebB7527b1Dac72e''),
         (''goerli'', AccountAddress ''0x326471C46A622bDf4AED5e1AEebB7527b1Dac72e''),
         (''zkevm'', AccountIndex 0)]),
      (''multisig'', PerNetwork
        [(''hardhat'', AccountIndex 2),
         (''zkevmtestnet'', AccountAddress ''0x644A94A6835e75fFf282D3319eA39E9129dbC857''),
         (''goerli'', AccountAddress ''0x644A94A6835e75fFf282D3319eA39E9129dbC857''),
         (''zkevm'', AccountIndex 2)])]"

definition account_on :: "string \<Rightarrow> string \<Rightarrow> account option" where
  "account_on network name =
     (case obj_get namedAccounts name of
        None \<Rightarrow> None
      | Some (OnAllNetworks a) \<Rightarrow> Some a
      | Some (PerNetwork m) \<Rightarrow> obj_get m network)"

section \<open>The configuration object\<close>

record network_config =
  nc_name :: string
  nc_url :: string
  nc_accounts :: "string list"
  nc_chainId :: int

text \<open>The networks other than the in-process one.\<close>

definition config_networks :: "environment \<Rightarrow> network_config list" where
  "config_networks env =
     [\<lparr>nc_name = ''zkevm'', nc_url = ZKEVM_RPC_URL env, nc_accounts = [PRIVATE_KEY env], nc_chainId = 1101\<rparr>,
      \<lparr>nc_name = ''zkevmtestnet'', nc_url = ZKEVM_TESTNET_RPC_URL env, nc_accounts = [PRIVATE_KEY env], nc_chainId = 1442\<rparr>,
      \<lparr>nc_name = ''goerli'', nc_url = GOERLI_RPC_URL env, nc_accounts = [PRIVATE_KEY env], nc_chainId = 5\<rparr>]"

definition config_solidity_version :: string where
  "config_solidity_version = ''0.8.19''"

definition config_etherscan :: "environment \<Rightarrow> etherscan_user_config" where
  "config_etherscan env =
     \<lparr>user_apiKey = Some (ApiKeyRecord
        [(''zkevm'', ETHERSCAN_API_KEY env), (''zkevmtestnet'', ETHERSCAN_API_KEY env), (''goerli'', ETHERSCAN_API_KEY env)]),
      user_customChains = Some
        [mk_chain ''zkevm'' 1101 ''https://api-zkevm.polygonscan.com/api'' ''https://zkevm.polygonscan.com/'',
         mk_chain ''zkevmtestnet'' 1442 ''https://api-testnet-zkevm.polygonscan.com/api'' ''https://testnet-zkevm.polygonscan.com/'']\<rparr>"

text \<open>What the tasks of the plugin find under \<open>config.etherscan\<close>.\<close>

definition project_etherscan :: "environment \<Rightarrow> etherscan_config" where
  "project_etherscan env =
     fst (etherscanConfigExtender (Some (config_etherscan env)) (''hardhat'' # map nc_name (config_networks env)))"

section \<open>Lemmas and properties\<close>

lemma env_or_nonempty: "d \<noteq> '''' \<Longrightarrow> env_or env x d \<noteq> ''''"
  by (simp add: env_or_def split: option.splits)

lemma project_etherscan_fields:
  "ec_apiKey (project_etherscan env) = ApiKeyRecord
     [(''zkevm'', ETHERSCAN_API_KEY env), (''zkevmtestnet'', ETHERSCAN_API_KEY env), (''goerli'', ETHERSCAN_API_KEY env)]"
  "ec_customChains (project_etherscan env) =
     [mk_chain ''zkevm'' 1101 ''https://api-zkevm.polygonscan.com/api'' ''https://zkevm.polygonscan.com/'',
      mk_chain ''zkevmtestnet'' 1442 ''https://api-testnet-zkevm.polygonscan.com/api'' ''https://testnet-zkevm.polygonscan.com/'']"
  by (simp_all add: project_etherscan_def etherscanConfigExtender_def config_etherscan_def)

text \<open>
  Every live network of the configuration can be verified on: when the provider reports the
  chain id that is configured for the network, the plugin picks an explorer entry of that name, in
  the custom chains for the two zkEVM networks and in its own table for Goerli, and finds the
  configured API key for it.
\<close>

theorem configured_networks_have_explorer:
  assumes "n \<in> set (config_networks env)" and "js_parseInt 16 reply = Some (nc_chainId n)"
  shows "\<exists>c es. getCurrentChainConfig hh (nc_name n) reply (ec_customChains (project_etherscan env)) = Inr c
     \<and> cc_network c = nc_name n
     \<and> Etherscan_new (Some (ec_apiKey (project_etherscan env))) c = Inr es
     \<and> es_apiKey es = ETHERSCAN_API_KEY env \<and> es_apiUrl es = cc_apiURL c"
proof -
  have key: "ETHERSCAN_API_KEY env \<noteq> ''''"
    unfolding ETHERSCAN_API_KEY_def by (rule env_or_nonempty) simp
  from assms(1) consider "nc_name n = ''zkevm''" "nc_chainId n = 1101"
    | "nc_name n = ''zkevmtestnet''" "nc_chainId n = 1442" | "nc_name n = ''goerli''" "nc_chainId n = 5"
    by (auto simp: config_networks_def)
  then show ?thesis
    using assms(2) key
    by cases (simp_all add: getCurrentChainConfig_def project_etherscan_fields builtinChains_def Etherscan_new_def
        resolveApiKey_def obj_get_def)
qed

theorem configured_networks_have_explorer_witness:
  "\<exists>c. getCurrentChainConfig ''hardhat'' ''zkevm'' ''0x44d'' (ec_customChains (project_etherscan (\<lambda>_. None))) = Inr c
     \<and> cc_network c = ''zkevm''"
proof -
  let ?n = "\<lparr>nc_name = ''zkevm'', nc_url = ZKEVM_RPC_URL (\<lambda>_. None), nc_accounts = [PRIVATE_KEY (\<lambda>_. None)], nc_chainId = 1101\<rparr>"
  have "?n \<in> set (config_networks (\<lambda>_. None))" by (simp add: config_networks_def)
  moreover have "js_parseInt 16 ''0x44d'' = Some (nc_chainId ?n)" by code_simp
  ultimately show ?thesis
    using configured_networks_have_explorer [of ?n "\<lambda>_. None" "''0x44d''" "''hardhat''"] by auto
qed

text \<open>
  The helper for proxies knows none of the configured networks: unless the provider reports one
  of five names that no configured chain has, \<open>getNetworkScanUrl\<close> throws, and \<open>verifyProxy\<close> ends
  without an error and without having posted anything.
\<close>

theorem verifyProxy_inert_on_configured_networks:
  assumes "n \<in> set (config_networks env)"
    and "en_name net \<notin> {''ropsten'', ''kovan'', ''rinkeby'', ''ethereum'', ''matic''}"
    and "en_chainId net = nc_chainId n"
  shows "(\<exists>er. getNetworkScanUrl net = Inl er) \<and> verifyProxy post (Inr net) key adr w = Some (Inr (), w)"
proof -
  have "nc_chainId n \<in> {1101, 1442, 5}" using assms(1) by (auto simp: config_networks_def)
  then have "getNetworkScanUrl net = Inl (ForeignError ''network not found [object Object]'')"
    using assms(2,3) by (auto simp: getNetworkScanUrl_def)
  then show ?thesis by (simp add: verifyProxy_def swallow_def catch_io_def)
qed

theorem verifyProxy_inert_on_configured_networks_witness:
  "verifyProxy (\<lambda>url body w. Some (Inr JNull, w @ [url])) (Inr \<lparr>en_name = ''goerli'', en_chainId = 5\<rparr>) None ''0x1'' []
     = Some (Inr (), [])"
proof -
  let ?n = "\<lparr>nc_name = ''goerli'', nc_url = GOERLI_RPC_URL (\<lambda>_. None), nc_accounts = [PRIVATE_KEY (\<lambda>_. None)], nc_chainId = 5\<rparr>"
  have "?n \<in> set (config_networks (\<lambda>_. None))" by (simp add: config_networks_def)
  then show ?thesis
    by (rule conjunct2 [OF verifyProxy_inert_on_configured_networks]) simp_all
qed

end
