(* ===== verification/Chain_Api.thy ===== *)
theory Chain_Api
  imports Js_Runtime
begin

text \<open>
  The interface of \<open>ethers\<close> and of the Hardhat node that the test helpers and the deployment code
  call: deploying a contract, sending a transaction, calling a view, and raw RPC requests. The
  packages and the chain behind them are the record \<open>chain_api\<close>, an argument of every definition
  that uses it. A \<open>BigNumber\<close> is an integer; its constructor from a string and \<open>parseUnits\<close> are
  fields of the record too.
\<close>

section \<open>Values\<close>

datatype val = VUndef | VStr string | VNum int | VBig int

datatype chain_error =
    ChainError string
  | ChainTypeError string
  | AssertionError string
  | ThrownString string

text \<open>Truthiness: a \<open>BigNumber\<close> is an object and is truthy even where it is zero.\<close>

fun truthy :: "val \<Rightarrow> bool" where
  "truthy VUndef = False"
| "truthy (VStr s) = (s \<noteq> '''')"
| "truthy (VNum n) = (n \<noteq> 0)"
| "truthy (VBig n) = True"

text \<open>\<open>v.toString()\<close>, which throws on \<open>undefined\<close>.\<close>

fun val_toString :: "val \<Rightarrow> chain_error + string" where
  "val_toString VUndef = Inl (ChainTypeError ''Cannot read properties of undefined (reading toString)'')"
| "val_toString (VStr s) = Inr s"
| "val_toString (VNum n) = Inr (show_int n)"
| "val_toString (VBig n) = Inr (show_int n)"

text \<open>\<open>BigNumber.div\<close> truncates towards zero and throws on a zero divisor.\<close>

definition bn_div :: "int \<Rightarrow> int \<Rightarrow> chain_error + int" where
  "bn_div a b =
     (if b = 0 then Inl (ChainError ''division-by-zero'')
      else Inr (sgn a * sgn b * (\<bar>a\<bar> div \<bar>b\<bar>)))"

lemma bn_div_nonneg: "0 \<le> a \<Longrightarrow> 0 < b \<Longrightarrow> bn_div a b = Inr (a div b)"
  by (auto simp: bn_div_def sgn_if)

section \<open>Transactions\<close>

text \<open>The decoded arguments of an event, by position and by name.\<close>

record event =
  ev_event :: "string option"
  ev_args :: "val list"
  ev_named :: "val obj"

record receipt =
  rc_events :: "event list"
  rc_gasUsed :: int

record 'c chain_api =
  ca_signers :: "string list"
  ca_deploy :: "string \<Rightarrow> string obj \<Rightarrow> val list \<Rightarrow> ('c, chain_error, string) io"
  ca_call :: "string option \<Rightarrow> string \<Rightarrow> string \<Rightarrow> val list \<Rightarrow> ('c, chain_error, receipt) io"
  ca_view :: "string \<Rightarrow> string \<Rightarrow> val list \<Rightarrow> ('c, chain_error, val list) io"
  ca_rpc :: "string \<Rightarrow> val list \<Rightarrow> ('c, chain_error, unit) io"
  ca_timestamp :: "('c, chain_error, int) io"
  ca_BigNumber_from :: "string \<Rightarrow> chain_error + int"
  ca_parseUnits :: "string \<Rightarrow> nat \<Rightarrow> chain_error + int"

text \<open>A view whose result is one number.\<close>

definition as_number :: "val list \<Rightarrow> chain_error + int" where
  "as_number vs = (case vs of VBig n # _ \<Rightarrow> Inr n | VNum n # _ \<Rightarrow> Inr n
     | _ \<Rightarrow> Inl (ChainTypeError ''not a number''))"

definition view_number :: "'c chain_api \<Rightarrow> string \<Rightarrow> string \<Rightarrow> val list \<Rightarrow> ('c, chain_error, int) io" where
  "view_number api target fn args = bind_io (ca_view api target fn args) (\<lambda>vs. lift_io (as_number vs))"

definition signer_at :: "'c chain_api \<Rightarrow> nat \<Rightarrow> string option" where
  "signer_at api i = (if i < length (ca_signers api) then Some (ca_signers api ! i) else None)"

text \<open>A computation that does not change the state and gives a fixed result.\<close>

definition gives :: "('c, 'e, 'a) io \<Rightarrow> 'c \<Rightarrow> 'a \<Rightarrow> bool" where
  "gives m c a \<longleftrightarrow> m c = Some (Inr a, c)"

lemma gives_bind [simp]: "gives m c a \<Longrightarrow> bind_io m f c = f a c"
  by (simp add: gives_def bind_io_def)

lemma gives_view_number: "gives (ca_view api t fn args) c [VBig n] \<Longrightarrow> gives (view_number api t fn args) c n"
  by (simp add: gives_def view_number_def bind_io_def as_number_def)

end
