(* ===== verification/Test_Helper.thy ===== *)
theory Test_Helper
  imports Chain_Api
begin

text \<open>
  The helpers that the tests and the deployment share: \<open>utils/TestHelper.ts\<close>, with the contract
  tables of \<open>utils/types.ts\<close>. Money amounts are \<open>BigNumber\<close>s, that is integers, in units of
  \<open>10 ^ -18\<close>.
\<close>

section \<open>Tables of contracts\<close>

record contracts =
  c_troveManager :: string
  c_borrowerOperations :: string
  c_activePool :: string
  c_stabilityPool :: string
  c_defaultPool :: string
  c_collSurplusPool :: string
  c_simToken :: string
  c_priceFeedMock :: string
  c_sortedTroves :: string
  c_hintHelpers :: string
  c_wstETHMock :: string

record shady_contracts =
  s_shadyToken :: string
  s_communityIssuance :: string
  s_liquidityRewardsIssuance :: string
  s_lockupContractFactory :: string
  s_multisigAddress :: string
  s_controller :: string
  s_ve :: string
  s_simVeDistributor :: string
  s_wstETHVeDistributor :: string

text \<open>The object \<open>extraParams\<close>; \<open>None\<close> in its place is \<open>undefined\<close>.\<close>

record extra_params =
  xp_from :: "string option"
  xp_value :: val

record open_trove_params =
  op_maxFeePercentage :: val
  op_extraLUSDAmount :: val
  op_upperHint :: val
  op_lowerHint :: val
  op_ICR :: val
  op_extraParams :: "extra_params option"

record withdraw_params =
  wp_maxFeePercentage :: val
  wp_lusdAmount :: val
  wp_ICR :: val
  wp_upperHint :: val
  wp_lowerHint :: val
  wp_extraParams :: "extra_params option"

section \<open>Constants\<close>

definition zero_address :: string where
  "zero_address = ''0x'' @ js_repeat (CHR ''0'') 40"

definition maxBytes32 :: string where
  "maxBytes32 = ''0x'' @ js_repeat (CHR ''f'') 64"

definition hundred_pct :: string where
  "hundred_pct = ''1000000000000000000''"

definition MAX_UINT :: string where
  "MAX_UINT = ''115792089237316195423570985008687907853269984665640564039457584007913129639935''"

record time_values =
  SECONDS_IN_ONE_MINUTE :: int
  SECONDS_IN_ONE_HOUR :: int
  SECONDS_IN_ONE_DAY :: int
  SECONDS_IN_ONE_WEEK :: int
  SECONDS_IN_SIX_WEEKS :: int
  SECONDS_IN_ONE_MONTH :: int
  SECONDS_IN_ONE_YEAR :: int
  MINUTES_IN_ONE_WEEK :: int
  MINUTES_IN_ONE_MONTH :: int
  MINUTES_IN_ONE_YEAR :: int

definition TimeValues :: time_values where
  "TimeValues =
     \<lparr>SECONDS_IN_ONE_MINUTE = 60, SECONDS_IN_ONE_HOUR = 60 * 60, SECONDS_IN_ONE_DAY = 60 * 60 * 24,
      SECONDS_IN_ONE_WEEK = 60 * 60 * 24 * 7, SECONDS_IN_SIX_WEEKS = 60 * 60 * 24 * 7 * 6,
      SECONDS_IN_ONE_MONTH = 60 * 60 * 24 * 30, SECONDS_IN_ONE_YEAR = 60 * 60 * 24 * 365,
      MINUTES_IN_ONE_WEEK = 60 * 24 * 7, MINUTES_IN_ONE_MONTH = 60 * 24 * 30,
      MINUTES_IN_ONE_YEAR = 60 * 24 * 365\<rparr>"

text \<open>The amounts of \<open>MoneyValues\<close>.\<close>

definition MV_1e18 :: int where "MV_1e18 = 1000000000000000000"
definition MV_10e18 :: int where "MV_10e18 = 10000000000000000000"
definition MV_100e18 :: int where "MV_100e18 = 100000000000000000000"
definition MV_MCR :: int where "MV_MCR = 1100000000000000000"
definition MV_ICR100 :: int where "MV_ICR100 = 1000000000000000000"
definition MV_CCR :: int where "MV_CCR = 1500000000000000000"

text \<open>The negative amounts are strings: a minus sign before a printed \<open>BigNumber\<close>.\<close>

definition negative_eth :: "'c chain_api \<Rightarrow> string \<Rightarrow> chain_error + string" where
  "negative_eth api amount = bind_res (ca_parseUnits api amount 18) (\<lambda>n. Inr (CHR ''-'' # show_int n))"

section \<open>Numbers\<close>

datatype scale = ScaleStr string | ScaleNum nat

text \<open>\<open>'0'.repeat(s)\<close> turns a string into a number first; one that is not a number counts as 0.\<close>

definition zerosCount :: "scale \<Rightarrow> nat" where
  "zerosCount sc =
     (case sc of
        ScaleStr s \<Rightarrow>
          if s = ''ether'' then 18 else if s = ''finney'' then 15
          else if s \<noteq> '''' \<and> list_all (is_digit_in 10) s then digits_val 10 s else 0
      | ScaleNum n \<Rightarrow> n)"

definition dec :: "val \<Rightarrow> scale \<Rightarrow> chain_error + string" where
  "dec v sc = bind_res (val_toString v) (\<lambda>strVal. Inr (strVal @ js_repeat (CHR ''0'') (zerosCount sc)))"

definition toBN :: "'c chain_api \<Rightarrow> val \<Rightarrow> chain_error + int" where
  "toBN api num = bind_res (val_toString num) (ca_BigNumber_from api)"

definition getDifference :: "'c chain_api \<Rightarrow> val \<Rightarrow> val \<Rightarrow> chain_error + int" where
  "getDifference api x y =
     (let conv = (\<lambda>v. case v of VStr s \<Rightarrow> toBN api v | VBig n \<Rightarrow> Inr n
            | _ \<Rightarrow> Inl (ChainTypeError ''sub is not a function''))
      in bind_res (conv x) (\<lambda>a. bind_res (conv y) (\<lambda>b. Inr \<bar>a - b\<bar>)))"

definition assertIsApproximatelyEqual :: "'c chain_api \<Rightarrow> val \<Rightarrow> val \<Rightarrow> int \<Rightarrow> chain_error + unit" where
  "assertIsApproximatelyEqual api x y tolerance =
     bind_res (getDifference api x y) (\<lambda>d.
       if d \<le> tolerance then Inr () else Inl (AssertionError ''expected to be at most''))"

definition applyLiquidationFee :: "'c chain_api \<Rightarrow> int \<Rightarrow> chain_error + int" where
  "applyLiquidationFee api ethAmount =
     bind_res (dec (VNum 995) (ScaleNum 15)) (\<lambda>s.
     bind_res (toBN api (VStr s)) (\<lambda>n.
     bn_div (ethAmount * n) MV_1e18))"

section \<open>Accounts and time\<close>

definition impersonate :: "'c chain_api \<Rightarrow> string \<Rightarrow> ('c, chain_error, string) io" where
  "impersonate api address =
     bind_io (ca_rpc api ''hardhat_impersonateAccount'' [VStr address]) (\<lambda>_.
     bind_io (ca_rpc api ''hardhat_setBalance'' [VStr address, VStr ''0x1431E0FAE6D7217CAA0000000'']) (\<lambda>_.
     return_io address))"

definition getLatestBlockTimestamp :: "'c chain_api \<Rightarrow> ('c, chain_error, int) io" where
  "getLatestBlockTimestamp api = ca_timestamp api"

definition fastForwardTime :: "'c chain_api \<Rightarrow> int \<Rightarrow> ('c, chain_error, unit) io" where
  "fastForwardTime api seconds =
     bind_io (getLatestBlockTimestamp api) (\<lambda>now.
     ca_rpc api ''evm_mine'' [VNum (now + (if 0 < seconds then seconds else 1))])"

primrec mine_blocks :: "'c chain_api \<Rightarrow> nat \<Rightarrow> ('c, chain_error, unit) io" where
  "mine_blocks api 0 = return_io ()"
| "mine_blocks api (Suc n) = bind_io (ca_rpc api ''evm_mine'' []) (\<lambda>_. mine_blocks api n)"

text \<open>\<open>toFixed(0)\<close> of \<open>n * 2.35\<close>, rounded half up on the exact product.\<close>

definition advanceNBlocks :: "'c chain_api \<Rightarrow> nat \<Rightarrow> ('c, chain_error, unit) io" where
  "advanceNBlocks api n =
     bind_io (ca_rpc api ''evm_increaseTime'' [VNum ((int n * 235 + 50) div 100)]) (\<lambda>_. mine_blocks api n)"

fun mintWSTETH :: "'c chain_api \<Rightarrow> string \<Rightarrow> string list \<Rightarrow> ('c, chain_error, unit) io" where
  "mintWSTETH api wstETHMock [] = return_io ()"
| "mintWSTETH api wstETHMock (account # accounts) =
     bind_io (lift_io (ca_parseUnits api ''1000'' 30)) (\<lambda>amount.
     bind_io (ca_call api None wstETHMock ''mint'' [VStr account, VBig amount]) (\<lambda>_.
     mintWSTETH api wstETHMock accounts))"

section \<open>Reverts\<close>

text \<open>
  The awaited transaction as a result. Without a revert the assertion \<open>isFalse(1)\<close> fails, inside
  the same \<open>try\<close>; \<open>errString\<close> is the error as \<open>err?.toString()\<close> prints it.
\<close>

definition isFalse_1_error :: chain_error where
  "isFalse_1_error = AssertionError ''AssertionError: expected 1 to be false''"

fun errString :: "chain_error \<Rightarrow> string" where
  "errString (ChainError m) = m"
| "errString (ChainTypeError m) = ''TypeError: '' @ m"
| "errString (AssertionError m) = m"
| "errString (ThrownString m) = m"

definition assertRevert :: "chain_error + receipt \<Rightarrow> string option \<Rightarrow> chain_error + unit" where
  "assertRevert txPromise message =
     (let err = (case txPromise of Inr _ \<Rightarrow> isFalse_1_error | Inl e \<Rightarrow> e)
      in case message of
           Some m \<Rightarrow>
             if m \<noteq> '''' \<and> \<not> js_includes (errString err) m
             then Inl (AssertionError (''AssertionError: expected to include '' @ m)) else Inr ()
         | None \<Rightarrow> Inr ())"

section \<open>Borrowing\<close>

definition getNetBorrowingAmount :: "'c chain_api \<Rightarrow> contracts \<Rightarrow> val \<Rightarrow> ('c, chain_error, int) io" where
  "getNetBorrowingAmount api cs debtWithFee =
     bind_io (view_number api (c_troveManager cs) ''getBorrowingRateWithDecay'' []) (\<lambda>borrowingRate.
     bind_io (lift_io (toBN api debtWithFee)) (\<lambda>d.
     lift_io (bn_div (d * MV_1e18) (MV_1e18 + borrowingRate))))"

definition getOpenTroveTotalDebt :: "'c chain_api \<Rightarrow> contracts \<Rightarrow> val \<Rightarrow> ('c, chain_error, int) io" where
  "getOpenTroveTotalDebt api cs lusdAmount =
     bind_io (view_number api (c_troveManager cs) ''getBorrowingFee'' [lusdAmount]) (\<lambda>fee.
     bind_io (lift_io (toBN api lusdAmount)) (\<lambda>compositeDebt.
     return_io (compositeDebt + fee)))"

definition getAmountWithBorrowingFee :: "'c chain_api \<Rightarrow> contracts \<Rightarrow> val \<Rightarrow> ('c, chain_error, int) io" where
  "getAmountWithBorrowingFee api cs lusdAmount =
     bind_io (view_number api (c_troveManager cs) ''getBorrowingFee'' [lusdAmount]) (\<lambda>fee.
     case lusdAmount of
       VBig n \<Rightarrow> return_io (n + fee)
     | _ \<Rightarrow> throw_io (ChainTypeError ''lusdAmount.add is not a function''))"

definition getOpenTroveLUSDAmount :: "'c chain_api \<Rightarrow> contracts \<Rightarrow> val \<Rightarrow> ('c, chain_error, int) io" where
  "getOpenTroveLUSDAmount api cs totalDebt =
     (case totalDebt of
        VStr s \<Rightarrow> bind_io (lift_io (toBN api totalDebt)) (\<lambda>n. getNetBorrowingAmount api cs (VBig n))
      | _ \<Rightarrow> getNetBorrowingAmount api cs totalDebt)"

definition or_else :: "val \<Rightarrow> val \<Rightarrow> val" where
  "or_else v d = (if truthy v then v else d)"

definition choose_signer :: "'c chain_api \<Rightarrow> extra_params option \<Rightarrow> string option" where
  "choose_signer api xp =
     (case xp of
        Some x \<Rightarrow> (case xp_from x of Some f \<Rightarrow> Some f | None \<Rightarrow> signer_at api 0)
      | None \<Rightarrow> signer_at api 0)"

definition extra_lusd :: "'c chain_api \<Rightarrow> val \<Rightarrow> chain_error + int" where
  "extra_lusd api v =
     (if \<not> truthy v then toBN api (VNum 0)
      else (case v of
              VStr s \<Rightarrow> toBN api v
            | VBig n \<Rightarrow> Inr n
            | VNum n \<Rightarrow> Inr n
            | VUndef \<Rightarrow> Inl (ChainTypeError ''invalid BigNumber value'')))"

text \<open>\<open>if (!ICR && !extraParams.value) ... else if (typeof ICR == 'string') ...\<close>.\<close>

definition target_ICR :: "'c chain_api \<Rightarrow> val \<Rightarrow> extra_params option \<Rightarrow> chain_error + val" where
  "target_ICR api ICR xp =
     (let conv = (case ICR of VStr s \<Rightarrow> bind_res (toBN api ICR) (\<lambda>n. Inr (VBig n)) | _ \<Rightarrow> Inr ICR)
      in if truthy ICR then conv
         else (case xp of
                 None \<Rightarrow> Inl (ChainTypeError ''Cannot read properties of undefined (reading value)'')
               | Some x \<Rightarrow>
                   if \<not> truthy (xp_value x)
                   then bind_res (dec (VNum 15) (ScaleNum 17)) (\<lambda>s.
                        bind_res (toBN api (VStr s)) (\<lambda>n. Inr (VBig n)))
                   else conv))"

text \<open>\<open>extraParams.value = ICR.mul(totalDebt).div(price)\<close>, or the value that was given.\<close>

definition open_collateral ::
    "'c chain_api \<Rightarrow> contracts \<Rightarrow> val \<Rightarrow> extra_params option \<Rightarrow> int \<Rightarrow> ('c, chain_error, val) io" where
  "open_collateral api cs ICR xp totalDebt =
     (if truthy ICR
      then bind_io (view_number api (c_priceFeedMock cs) ''getPrice'' []) (\<lambda>price.
             case (ICR, xp) of
               (VBig i, Some _) \<Rightarrow> bind_io (lift_io (bn_div (i * totalDebt) price)) (\<lambda>v. return_io (VBig v))
             | (VBig i, None) \<Rightarrow> throw_io (ChainTypeError ''Cannot set properties of undefined (setting value)'')
             | _ \<Rightarrow> throw_io (ChainTypeError ''ICR.mul is not a function''))
      else
        (case xp of
           None \<Rightarrow> throw_io (ChainTypeError ''Cannot read properties of undefined (reading value)'')
         | Some x \<Rightarrow> return_io (xp_value x)))"

record open_trove_result =
  or_lusdAmount :: int
  or_netDebt :: int
  or_totalDebt :: int
  or_ICR :: val
  or_collateral :: val
  or_tx :: receipt

definition openTrove ::
    "'c chain_api \<Rightarrow> contracts \<Rightarrow> open_trove_params \<Rightarrow> ('c, chain_error, open_trove_result) io" where
  "openTrove api cs p =
     (let signer = choose_signer api (op_extraParams p);
          maxFeePercentage = or_else (op_maxFeePercentage p) (VStr hundred_pct);
          upperHint = or_else (op_upperHint p) (VStr zero_address);
          lowerHint = or_else (op_lowerHint p) (VStr zero_address)
      in bind_io (lift_io (extra_lusd api (op_extraLUSDAmount p))) (\<lambda>extraLUSDAmount.
         bind_io (lift_io (ca_parseUnits api ''2000'' 18)) (\<lambda>minDebt.
         bind_io (getNetBorrowingAmount api cs (VBig minDebt)) (\<lambda>net.
         bind_io (lift_io (toBN api (VNum 1))) (\<lambda>one.
         let lusdAmount = net + one + extraLUSDAmount
         in bind_io (lift_io (target_ICR api (op_ICR p) (op_extraParams p))) (\<lambda>ICR.
            bind_io (getOpenTroveTotalDebt api cs (VBig lusdAmount)) (\<lambda>totalDebt.
            bind_io (open_collateral api cs ICR (op_extraParams p) totalDebt) (\<lambda>coll.
            bind_io (lift_io (ca_parseUnits api ''1'' 30)) (\<lambda>allowance.
            bind_io (ca_call api signer (c_wstETHMock cs) ''approve''
                       [VStr (c_borrowerOperations cs), VBig allowance]) (\<lambda>_.
            bind_io (ca_call api signer (c_borrowerOperations cs) ''openTrove''
                       [coll, maxFeePercentage, VBig lusdAmount, upperHint, lowerHint]) (\<lambda>tx.
            return_io \<lparr>or_lusdAmount = lusdAmount, or_netDebt = totalDebt, or_totalDebt = totalDebt,
                       or_ICR = ICR, or_collateral = coll, or_tx = tx\<rparr>)))))))))))"

section \<open>Withdrawing\<close>

text \<open>
  \<open>x > y\<close> on two objects compares their primitive values. A \<open>BigNumber\<close> has no numeric primitive
  value, so both sides are turned into strings, and strings compare by their code units.
\<close>

fun js_string_less :: "string \<Rightarrow> string \<Rightarrow> bool" where
  "js_string_less [] ys = (ys \<noteq> [])"
| "js_string_less (x # xs) [] = False"
| "js_string_less (x # xs) (y # ys) =
     ((of_char x :: nat) < of_char y \<or> x = y \<and> js_string_less xs ys)"

definition bn_operator_greater :: "int \<Rightarrow> int \<Rightarrow> bool" where
  "bn_operator_greater x y = js_string_less (show_int y) (show_int x)"

record withdraw_result =
  wr_lusdAmount :: val
  wr_increasedTotalDebt :: int

definition js_assert :: "bool \<Rightarrow> string \<Rightarrow> ('c, chain_error, unit) io" where
  "js_assert b m = (if b then return_io () else throw_io (AssertionError m))"

definition debt_and_coll :: "val list \<Rightarrow> chain_error + int \<times> int" where
  "debt_and_coll vs =
     (case vs of
        VBig debt # VBig coll # _ \<Rightarrow> Inr (debt, coll)
      | _ \<Rightarrow> Inl (ChainTypeError ''Cannot read properties of undefined''))"

text \<open>The branch of \<open>withdrawLUSD\<close> that aims at a collateral ratio.\<close>

definition withdraw_to_ICR ::
    "'c chain_api \<Rightarrow> contracts \<Rightarrow> val \<Rightarrow> extra_params option \<Rightarrow> ('c, chain_error, val \<times> int) io" where
  "withdraw_to_ICR api cs ICR xp =
     (case xp of
        None \<Rightarrow> throw_io (ChainTypeError ''Cannot read properties of undefined (reading from)'')
      | Some x \<Rightarrow>
          (case xp_from x of
             None \<Rightarrow> throw_io (AssertionError ''A from account is needed'')
           | Some from \<Rightarrow>
               bind_io (js_assert (from \<noteq> '''') ''A from account is needed'') (\<lambda>_.
               bind_io (ca_view api (c_troveManager cs) ''getEntireDebtAndColl'' [VStr from]) (\<lambda>vs.
               bind_io (lift_io (debt_and_coll vs)) (\<lambda>(debt, coll).
               bind_io (view_number api (c_priceFeedMock cs) ''getPrice'' []) (\<lambda>price.
               bind_io (lift_io (toBN api ICR)) (\<lambda>i.
               bind_io (lift_io (bn_div (coll * price) i)) (\<lambda>targetDebt.
               bind_io (js_assert (bn_operator_greater targetDebt debt)
                          ''ICR is already greater than or equal to target'') (\<lambda>_.
               bind_io (getNetBorrowingAmount api cs (VBig (targetDebt - debt))) (\<lambda>lusdAmount.
               return_io (VBig lusdAmount, targetDebt - debt)))))))))))"

definition withdrawLUSD ::
    "'c chain_api \<Rightarrow> contracts \<Rightarrow> withdraw_params \<Rightarrow> ('c, chain_error, withdraw_result) io" where
  "withdrawLUSD api cs p =
     (let signer = choose_signer api (wp_extraParams p);
          maxFeePercentage = or_else (wp_maxFeePercentage p) (VStr hundred_pct);
          upperHint = or_else (wp_upperHint p) (VStr zero_address);
          lowerHint = or_else (wp_lowerHint p) (VStr zero_address);
          amount = truthy (wp_lusdAmount p); ratio = truthy (wp_ICR p)
      in bind_io (js_assert (\<not> (amount \<and> ratio) \<and> (amount \<or> ratio))
                    ''Specify either lusd amount or target ICR, but not both'') (\<lambda>_.
         bind_io (if ratio then withdraw_to_ICR api cs (wp_ICR p) (wp_extraParams p)
                  else bind_io (getAmountWithBorrowingFee api cs (wp_lusdAmount p)) (\<lambda>d.
                       return_io (wp_lusdAmount p, d))) (\<lambda>(lusdAmount, increasedTotalDebt).
         bind_io (ca_call api signer (c_borrowerOperations cs) ''withdrawSIM''
                    [maxFeePercentage, lusdAmount, upperHint, lowerHint]) (\<lambda>_.
         return_io \<lparr>wr_lusdAmount = lusdAmount, wr_increasedTotalDebt = increasedTotalDebt\<rparr>))))"

section \<open>Views\<close>

definition nth_number :: "val list \<Rightarrow> nat \<Rightarrow> val" where
  "nth_number vs i = (if i < length vs then vs ! i else VUndef)"

definition getTroveEntireColl :: "'c chain_api \<Rightarrow> contracts \<Rightarrow> string \<Rightarrow> ('c, chain_error, int) io" where
  "getTroveEntireColl api cs trove =
     bind_io (ca_view api (c_troveManager cs) ''getEntireDebtAndColl'' [VStr trove]) (\<lambda>vs.
     lift_io (toBN api (nth_number vs 1)))"

definition getTroveEntireDebt :: "'c chain_api \<Rightarrow> contracts \<Rightarrow> string \<Rightarrow> ('c, chain_error, int) io" where
  "getTroveEntireDebt api cs trove =
     bind_io (ca_view api (c_troveManager cs) ''getEntireDebtAndColl'' [VStr trove]) (\<lambda>vs.
     lift_io (toBN api (nth_number vs 0)))"

definition checkRecoveryMode :: "'c chain_api \<Rightarrow> contracts \<Rightarrow> ('c, chain_error, val list) io" where
  "checkRecoveryMode api cs =
     bind_io (view_number api (c_priceFeedMock cs) ''getPrice'' []) (\<lambda>price.
     ca_view api (c_troveManager cs) ''checkRecoveryMode'' [VBig price])"

definition getTCR :: "'c chain_api \<Rightarrow> contracts \<Rightarrow> ('c, chain_error, val list) io" where
  "getTCR api cs =
     bind_io (view_number api (c_priceFeedMock cs) ''getPrice'' []) (\<lambda>price.
     ca_view api (c_troveManager cs) ''getTCR'' [VBig price])"

definition ICRbetween100and110 :: "'c chain_api \<Rightarrow> string \<Rightarrow> string \<Rightarrow> int \<Rightarrow> ('c, chain_error, bool) io" where
  "ICRbetween100and110 api account troveManager price =
     bind_io (view_number api troveManager ''getCurrentICR'' [VStr account, VBig price]) (\<lambda>ICR.
     return_io (MV_ICR100 < ICR \<and> ICR < MV_MCR))"

definition bn_of :: "val \<Rightarrow> chain_error + int" where
  "bn_of v = (case v of VBig n \<Rightarrow> Inr n | _ \<Rightarrow> Inl (ChainTypeError ''add is not a function''))"

definition getEntireCollAndDebt :: "'c chain_api \<Rightarrow> contracts \<Rightarrow> string \<Rightarrow> ('c, chain_error, int \<times> int) io" where
  "getEntireCollAndDebt api cs account =
     bind_io (ca_view api (c_troveManager cs) ''Troves'' [VStr account]) (\<lambda>t1.
     bind_io (ca_view api (c_troveManager cs) ''Troves'' [VStr account]) (\<lambda>t0.
     bind_io (view_number api (c_troveManager cs) ''getPendingWSTETHReward'' [VStr account]) (\<lambda>pendingETHReward.
     bind_io (view_number api (c_troveManager cs) ''getPendingSIMDebtReward'' [VStr account]) (\<lambda>pendingLUSDDebtReward.
     bind_io (lift_io (bn_of (nth_number t1 1))) (\<lambda>rawColl.
     bind_io (lift_io (bn_of (nth_number t0 0))) (\<lambda>rawDebt.
     return_io (rawColl + pendingETHReward, rawDebt + pendingLUSDDebtReward)))))))"

section \<open>Redemption\<close>

text \<open>The static field \<open>latestRandomSeed\<close> is threaded through: the second component of the result.\<close>

definition initialRandomSeed :: int where "initialRandomSeed = 31337"

definition performRedemptionTx ::
    "'c chain_api \<Rightarrow> contracts \<Rightarrow> int \<Rightarrow> string \<Rightarrow> int \<Rightarrow> string \<Rightarrow> string \<Rightarrow> ('c, chain_error, receipt \<times> val) io" where
  "performRedemptionTx api cs seed redeemer price LUSDAmount maxFee =
     bind_io (ca_view api (c_hintHelpers cs) ''getRedemptionHints'' [VStr LUSDAmount, VBig price, VNum 0]) (\<lambda>redemptionhint.
     let firstRedemptionHint = nth_number redemptionhint 0;
         partialRedemptionNewICR = nth_number redemptionhint 1
     in bind_io (ca_view api (c_hintHelpers cs) ''getApproxHint'' [partialRedemptionNewICR, VNum 50, VBig seed]) (\<lambda>approx.
        let approxPartialRedemptionHint = nth_number approx 0;
            latestRandomSeed = nth_number approx 2
        in bind_io (ca_view api (c_sortedTroves cs) ''findInsertPosition''
                     [partialRedemptionNewICR, approxPartialRedemptionHint, approxPartialRedemptionHint]) (\<lambda>exact.
           bind_io (ca_call api (Some redeemer) (c_troveManager cs) ''redeemCollateral''
                      [VStr LUSDAmount, firstRedemptionHint, nth_number exact 0, nth_number exact 1,
                       partialRedemptionNewICR, VNum 0, VStr maxFee]) (\<lambda>tx.
           return_io (tx, latestRandomSeed)))))"

definition redeemCollateral ::
    "'c chain_api \<Rightarrow> contracts \<Rightarrow> int \<Rightarrow> string \<Rightarrow> string \<Rightarrow> string \<Rightarrow> ('c, chain_error, receipt \<times> val) io" where
  "redeemCollateral api cs seed redeemer LUSDAmount maxFee =
     bind_io (view_number api (c_priceFeedMock cs) ''getPrice'' []) (\<lambda>price.
     performRedemptionTx api cs seed redeemer price LUSDAmount maxFee)"

section \<open>Events\<close>

definition is_event :: "string \<Rightarrow> event \<Rightarrow> bool" where
  "is_event eventName e \<longleftrightarrow> ev_event e = Some eventName"

definition event_arg :: "event \<Rightarrow> nat \<Rightarrow> val" where
  "event_arg e i = nth_number (ev_args e) i"

fun first_event :: "string \<Rightarrow> event list \<Rightarrow> event option" where
  "first_event eventName [] = None"
| "first_event eventName (e # es) = (if is_event eventName e then Some e else first_event eventName es)"

definition getEventArgByIndex :: "receipt \<Rightarrow> string \<Rightarrow> nat \<Rightarrow> chain_error + val" where
  "getEventArgByIndex tx eventName argIndex =
     (case first_event eventName (rc_events tx) of
        Some e \<Rightarrow> Inr (event_arg e argIndex)
      | None \<Rightarrow> Inl (ThrownString (''The transaction logs do not contain event '' @ eventName)))"

definition getEmittedRedemptionValues :: "receipt \<Rightarrow> chain_error + val list" where
  "getEmittedRedemptionValues tx =
     (case first_event ''Redemption'' (rc_events tx) of
        Some e \<Rightarrow> Inr [event_arg e 0, event_arg e 1, event_arg e 2, event_arg e 3]
      | None \<Rightarrow> Inl (ThrownString ''The transaction logs do not contain a redemption event''))"

definition getEmittedLiquidationValues :: "receipt \<Rightarrow> chain_error + val list" where
  "getEmittedLiquidationValues tx =
     (case first_event ''Liquidation'' (rc_events tx) of
        Some e \<Rightarrow> Inr [event_arg e 0, event_arg e 1, event_arg e 2, VBig 0]
      | None \<Rightarrow> Inl (ThrownString ''The transaction logs do not contain a liquidation event''))"

text \<open>Unlike the search by index, this one goes on past a matching event that lacks the argument.\<close>

fun find_event_arg :: "string \<Rightarrow> string \<Rightarrow> event list \<Rightarrow> val option" where
  "find_event_arg eventName argName [] = None"
| "find_event_arg eventName argName (e # es) =
     (if is_event eventName e
      then (case obj_get (ev_named e) argName of
              Some v \<Rightarrow> Some v
            | None \<Rightarrow> find_event_arg eventName argName es)
      else find_event_arg eventName argName es)"

definition getEventArgByName :: "receipt \<Rightarrow> string \<Rightarrow> string \<Rightarrow> chain_error + val" where
  "getEventArgByName tx eventName argName =
     (case find_event_arg eventName argName (rc_events tx) of
        Some v \<Rightarrow> Inr v
      | None \<Rightarrow> Inl (ThrownString (''The transaction logs do not contain event '' @ eventName @ '' and arg '' @ argName)))"

definition getAllEventsByName :: "receipt \<Rightarrow> string \<Rightarrow> event list" where
  "getAllEventsByName tx eventName =
     fold (\<lambda>e events. if is_event eventName e then events @ [e] else events) (rc_events tx) []"

definition getDebtAndCollFromTroveUpdatedEvents :: "event list \<Rightarrow> string \<Rightarrow> chain_error + val list" where
  "getDebtAndCollFromTroveUpdatedEvents troveUpdatedEvents address =
     (case filter (\<lambda>e. event_arg e 0 = VStr address) troveUpdatedEvents of
        e # _ \<Rightarrow> Inr [event_arg e 1, event_arg e 2]
      | [] \<Rightarrow> Inl (ChainTypeError ''Cannot read properties of undefined (reading args)''))"

definition gasUsed :: "receipt \<Rightarrow> int" where
  "gasUsed tx = rc_gasUsed tx"

definition getLCAddressFromDeploymentTx :: "receipt \<Rightarrow> chain_error + val" where
  "getLCAddressFromDeploymentTx tx =
     (if 1 < length (rc_events tx) then Inr (event_arg (rc_events tx ! 1) 0)
      else Inl (ChainTypeError ''Cannot read properties of undefined (reading args)''))"

section \<open>Lemmas\<close>

text \<open>What \<open>BigNumber.from\<close> documents for decimal strings.\<close>

definition bn_law :: "'c chain_api \<Rightarrow> bool" where
  "bn_law api \<longleftrightarrow> (\<forall>n. ca_BigNumber_from api (show_int n) = Inr n)"

lemma toBN_simps:
  "bn_law api \<Longrightarrow> toBN api (VBig n) = Inr n" "bn_law api \<Longrightarrow> toBN api (VNum n) = Inr n"
  by (simp_all add: bn_law_def toBN_def)

lemma digits_val_append_zeros: "digits_val 10 (s @ replicate k (CHR ''0'')) = digits_val 10 s * 10 ^ k"
proof (induction k)
  case 0
  then show ?case by simp
next
  case (Suc k)
  have "digit_val (CHR ''0'') = Some 0" by (simp add: digit_val_def)
  with Suc show ?case
    by (simp add: replicate_append_same [symmetric] append_assoc [symmetric] del: append_assoc replicate_append_same)
qed

lemma MV_1e18_pos: "0 < MV_1e18"
  by (simp add: MV_1e18_def)

lemma getNetBorrowingAmount_gives:
  assumes "bn_law api" and "gives (view_number api (c_troveManager cs) ''getBorrowingRateWithDecay'' []) c r"
    and "0 \<le> r" and "0 \<le> d"
  shows "gives (getNetBorrowingAmount api cs (VBig d)) c (d * MV_1e18 div (MV_1e18 + r))"
  using assms MV_1e18_pos
  by (simp add: gives_def getNetBorrowingAmount_def bind_io_def toBN_simps bn_div_nonneg)

lemma getOpenTroveTotalDebt_gives:
  assumes "bn_law api" and "gives (view_number api (c_troveManager cs) ''getBorrowingFee'' [VBig x]) c f"
  shows "gives (getOpenTroveTotalDebt api cs (VBig x)) c (x + f)"
  using assms by (simp add: gives_def getOpenTroveTotalDebt_def bind_io_def toBN_simps)

lemma div_bounds:
  assumes "0 < (b :: int)"
  shows "a div b * b \<le> a \<and> a < (a div b + 1) * b"
proof -
  have "a = a div b * b + a mod b" by simp
  moreover have "0 \<le> a mod b" "a mod b < b" using assms by simp_all
  ultimately show ?thesis by (simp only: distrib_right) linarith
qed

text \<open>The amount that is rounded up by one reaches the debt again once the fee is added.\<close>

lemma rounded_up_amount_suffices:
  fixes E r R d x :: int
  assumes "0 < E" and "0 \<le> r" and "r \<le> R" and "0 \<le> d" and "d * E div (E + r) + 1 \<le> x"
  shows "d \<le> x + R * x div E"
proof -
  have pos: "0 < E + r" using assms by simp
  have "d * E < (d * E div (E + r) + 1) * (E + r)" using div_bounds [OF pos] by blast
  also have "\<dots> \<le> x * (E + r)" using assms(5) pos by (simp add: mult_right_mono)
  finally have lt: "d * E < x * E + r * x" by (simp add: algebra_simps)
  have "0 \<le> x" using assms(1,4,5) pos pos_imp_zdiv_nonneg_iff [OF pos, of "d * E"] by simp
  then have "r * x \<le> R * x" using assms(3) by (simp add: mult_right_mono)
  with lt have "d * E \<le> x * E + R * x" by simp
  then have "d \<le> (x * E + R * x) div E" using zdiv_mono1 [of "d * E" "x * E + R * x" E] assms(1) by simp
  also have "\<dots> = x + R * x div E" using assms(1) by simp
  finally show ?thesis .
qed

text \<open>An \<open>openTrove\<close> that returns has gone through all its steps.\<close>

lemma openTrove_returns:
  assumes "bn_law api" and "ca_parseUnits api ''2000'' 18 = Inr d"
    and "extra_lusd api (op_extraLUSDAmount p) = Inr x"
    and "gives (getNetBorrowingAmount api cs (VBig d)) c n"
    and "gives (getOpenTroveTotalDebt api cs (VBig (n + 1 + x))) c t"
    and "openTrove api cs p c = Some (Inr res, c')"
  obtains ICR c1 where "target_ICR api (op_ICR p) (op_extraParams p) = Inr ICR"
    and "open_collateral api cs ICR (op_extraParams p) t c = Some (Inr (or_collateral res), c1)"
    and "or_lusdAmount res = n + 1 + x" and "or_totalDebt res = t" and "or_ICR res = ICR"
  using assms(6)
  by (auto simp: openTrove_def Let_def bind_io_eq_Inr assms(1-5)
      toBN_simps gives_bind [OF assms(4)] assms(5) [unfolded gives_def])

lemma decimal_digitD:
  "is_digit_in 10 c \<Longrightarrow> \<exists>d. digit_val c = Some d \<and> d < 10 \<and> (of_char c :: nat) = 48 + d"
  by (auto simp: is_digit_in_def digit_val_def Let_def split: if_splits)

lemma digits_val_foldl:
  "foldl (\<lambda>acc c. acc * 10 + the (digit_val c)) a ds = a * 10 ^ length ds + digits_val 10 ds"
proof (induction ds arbitrary: a)
  case Nil
  then show ?case by (simp add: digits_val_def)
next
  case (Cons c ds)
  show ?case
    using Cons.IH [of "a * 10 + the (digit_val c)"] Cons.IH [of "the (digit_val c)"]
    by (simp add: digits_val_def algebra_simps)
qed

lemma digits_val_Cons: "digits_val 10 (c # ds) = the (digit_val c) * 10 ^ length ds + digits_val 10 ds"
  using digits_val_foldl [of "the (digit_val c)" ds] by (simp add: digits_val_def)

lemma lex_digits:
  assumes "(u :: nat) < m" and "v < m"
  shows "a * m + u < b * m + v \<longleftrightarrow> a < b \<or> a = b \<and> u < v"
proof -
  have "Suc a * m \<le> b * m" if "a < b" using that by (intro mult_le_mono1) simp
  moreover have "Suc b * m \<le> a * m" if "b < a" using that by (intro mult_le_mono1) simp
  ultimately show ?thesis using assms by (cases a b rule: linorder_cases) auto
qed

lemma digits_val_bound: "list_all (is_digit_in 10) ds \<Longrightarrow> digits_val 10 ds < 10 ^ length ds"
proof (induction ds)
  case Nil
  then show ?case by (simp add: digits_val_def)
next
  case (Cons c ds)
  then obtain d where "digit_val c = Some d" "d < 10" by (auto dest: decimal_digitD)
  moreover have "d * 10 ^ length ds \<le> 9 * 10 ^ length ds" using \<open>d < 10\<close> by (intro mult_le_mono1) simp
  moreover have "digits_val 10 ds < 10 ^ length ds" using Cons by simp
  ultimately have "d * 10 ^ length ds + digits_val 10 ds < 9 * 10 ^ length ds + 10 ^ length ds"
    by (intro add_le_less_mono)
  then show ?case using \<open>digit_val c = Some d\<close> by (simp add: digits_val_Cons)
qed

lemma js_string_less_digits:
  assumes "length xs = length ys" and "list_all (is_digit_in 10) xs" and "list_all (is_digit_in 10) ys"
  shows "js_string_less xs ys \<longleftrightarrow> digits_val 10 xs < digits_val 10 ys"
  using assms
proof (induction xs ys rule: list_induct2)
  case Nil
  then show ?case by simp
next
  case (Cons x xs y ys)
  obtain a b where ab: "digit_val x = Some a" "digit_val y = Some b" "a < 10" "b < 10"
    and of: "of_char x = 48 + a" "of_char y = 48 + b"
    using Cons.prems by (auto dest!: decimal_digitD)
  have IH: "js_string_less xs ys \<longleftrightarrow> digits_val 10 xs < digits_val 10 ys"
    using Cons by simp
  have "digits_val 10 xs < 10 ^ length xs" "digits_val 10 ys < 10 ^ length xs"
    using Cons.prems Cons.hyps digits_val_bound [of xs] digits_val_bound [of ys] by simp_all
  moreover have "x = y \<longleftrightarrow> a = b" using of by (metis add_left_cancel of_char_eq_iff)
  ultimately show ?case
    using IH Cons.hyps by (simp add: of ab digits_val_Cons lex_digits)
qed

section \<open>Properties\<close>

text \<open>
  \<open>getNetBorrowingAmount\<close> gives the greatest amount that, with the borrowing fee at the current
  rate added, does not exceed the given debt.
\<close>

theorem net_borrowing_amount_greatest:
  assumes "bn_law api" and "gives (ca_view api (c_troveManager cs) ''getBorrowingRateWithDecay'' []) c [VBig r]"
    and "0 \<le> r" and "0 \<le> d"
  shows "\<exists>n. gives (getNetBorrowingAmount api cs (VBig d)) c n
     \<and> n * (MV_1e18 + r) \<le> d * MV_1e18 \<and> d * MV_1e18 < (n + 1) * (MV_1e18 + r)"
proof -
  have "0 < MV_1e18 + r" using assms(3) MV_1e18_pos by simp
  from getNetBorrowingAmount_gives [OF assms(1) gives_view_number [OF assms(2)] assms(3,4)]
    div_bounds [OF this, of "d * MV_1e18"] show ?thesis by blast
qed

text \<open>
  Every trove that \<open>openTrove\<close> opens carries at least the 2000 SIM of debt that the helper aims
  at: the net amount rounded up by one, the extra amount and the borrowing fee together never fall
  short of it, whatever the rates are, as long as the rate charged is not below the decayed rate.
  The collateral sent for a target ratio is the greatest one whose ratio does not exceed the target.
\<close>

theorem openTrove_debt_and_collateral:
  assumes "bn_law api" and "ca_parseUnits api ''2000'' 18 = Inr (2000 * 10 ^ 18)"
    and "extra_lusd api (op_extraLUSDAmount p) = Inr x" and "0 \<le> x"
    and "gives (ca_view api (c_troveManager cs) ''getBorrowingRateWithDecay'' []) c [VBig r]"
    and "0 \<le> r" and "r \<le> R"
    and "\<And>a. gives (ca_view api (c_troveManager cs) ''getBorrowingFee'' [VBig a]) c [VBig (R * a div MV_1e18)]"
    and "gives (ca_view api (c_priceFeedMock cs) ''getPrice'' []) c [VBig price]" and "0 < price"
    and "openTrove api cs p c = Some (Inr res, c')"
  shows "2000 * 10 ^ 18 \<le> or_totalDebt res
     \<and> or_totalDebt res = or_lusdAmount res + R * or_lusdAmount res div MV_1e18
     \<and> (\<forall>i. or_ICR res = VBig i \<and> 0 \<le> i \<longrightarrow>
          (\<exists>k. or_collateral res = VBig k \<and> k * price \<le> i * or_totalDebt res
             \<and> i * or_totalDebt res < (k + 1) * price))"
proof -
  let ?d = "2000 * 10 ^ 18 :: int"
  define n where "n = ?d * MV_1e18 div (MV_1e18 + r)"
  define x1 where "x1 = n + 1 + x"
  define t where "t = x1 + R * x1 div MV_1e18"
  have net: "gives (getNetBorrowingAmount api cs (VBig ?d)) c n"
    unfolding n_def using assms(1,6)
    by (intro getNetBorrowingAmount_gives gives_view_number [OF assms(5)]) simp_all
  have tot: "gives (getOpenTroveTotalDebt api cs (VBig (n + 1 + x))) c t"
    unfolding t_def x1_def by (intro getOpenTroveTotalDebt_gives gives_view_number assms(1,8))
  from assms(1-3) net tot assms(11) obtain ICR c1 where
      coll: "open_collateral api cs ICR (op_extraParams p) t c = Some (Inr (or_collateral res), c1)"
    and res: "or_lusdAmount res = x1" "or_totalDebt res = t" "or_ICR res = ICR"
    unfolding x1_def by (rule openTrove_returns)
  have debt: "?d \<le> t"
    unfolding t_def using MV_1e18_pos assms(4,6,7)
    by (intro rounded_up_amount_suffices [where r = r]) (simp_all add: x1_def n_def)
  have "\<exists>k. or_collateral res = VBig k \<and> k * price \<le> i * t \<and> i * t < (k + 1) * price"
    if i: "ICR = VBig i" "0 \<le> i" for i
  proof -
    have "0 \<le> i * t" using i debt by (simp add: mult_nonneg_nonneg)
    then have "or_collateral res = VBig (i * t div price)"
      using coll i(1) assms(10)
      by (cases "op_extraParams p")
         (simp_all add: open_collateral_def bn_div_nonneg gives_bind [OF gives_view_number [OF assms(9)]])
    with div_bounds [OF assms(10)] show ?thesis by blast
  qed
  with debt res show ?thesis unfolding t_def by simp
qed

text \<open>A node with a price of 1800, a decayed rate of 0.5 percent and a charged rate of 0.6 percent.\<close>

definition sample_view :: "string \<Rightarrow> val list \<Rightarrow> val list" where
  "sample_view fn args =
     (if fn = ''getBorrowingRateWithDecay'' then [VBig 5000000000000000]
      else if fn = ''getBorrowingFee''
        then (case args of VBig a # _ \<Rightarrow> [VBig (6000000000000000 * a div MV_1e18)] | _ \<Rightarrow> [])
      else if fn = ''getPrice'' then [VBig 1800000000000000000000] else [])"

definition sample_bn :: "string \<Rightarrow> chain_error + int" where
  "sample_bn s =
     (if s \<noteq> [] \<and> hd s = CHR ''-'' then Inr (- int (digits_val 10 (tl s))) else Inr (int (digits_val 10 s)))"

definition sample_api :: "nat chain_api" where
  "sample_api =
     \<lparr>ca_signers = [''0xA'', ''0xB''],
      ca_deploy = (\<lambda>contract libs args n. Some (Inr (contract @ show_nat n), n + 1)),
      ca_call = (\<lambda>signer target fn args n. Some (Inr \<lparr>rc_events = [], rc_gasUsed = 21000\<rparr>, n + 1)),
      ca_view = (\<lambda>target fn args n. Some (Inr (sample_view fn args), n)),
      ca_rpc = (\<lambda>m args n. Some (Inr (), n)),
      ca_timestamp = (\<lambda>n. Some (Inr (int n), n)),
      ca_BigNumber_from = sample_bn,
      ca_parseUnits = (\<lambda>s k. Inr (int (digits_val 10 s) * 10 ^ k))\<rparr>"

lemma sample_bn_law: "bn_law sample_api"
proof -
  have "hd (show_nat n) \<noteq> CHR ''-''" for n
  proof -
    obtain d where "d < 10" "hd (show_nat n) = digit_char d"
      using show_nat_digits [of "hd (show_nat n)" n] by auto
    then have "(of_char (hd (show_nat n)) :: nat) = 48 + d" by (simp add: of_char_digit)
    then show ?thesis by auto
  qed
  then show ?thesis by (auto simp: bn_law_def sample_api_def sample_bn_def show_int_def)
qed

definition sample_contracts :: contracts where
  "sample_contracts =
     \<lparr>c_troveManager = ''0x1'', c_borrowerOperations = ''0x2'', c_activePool = ''0x3'', c_stabilityPool = ''0x4'',
      c_defaultPool = ''0x5'', c_collSurplusPool = ''0x6'', c_simToken = ''0x7'', c_priceFeedMock = ''0x8'',
      c_sortedTroves = ''0x9'', c_hintHelpers = ''0x10'', c_wstETHMock = ''0x11''\<rparr>"

definition sample_open :: open_trove_params where
  "sample_open =
     \<lparr>op_maxFeePercentage = VUndef, op_extraLUSDAmount = VUndef, op_upperHint = VUndef, op_lowerHint = VUndef,
      op_ICR = VBig (2 * MV_1e18), op_extraParams = Some \<lparr>xp_from = None, xp_value = VUndef\<rparr>\<rparr>"

lemma sample_views:
  "gives (ca_view sample_api t fn args) c (sample_view fn args)"
  by (simp add: gives_def sample_api_def)

theorem net_borrowing_amount_greatest_witness:
  "\<exists>n. gives (getNetBorrowingAmount sample_api sample_contracts (VBig 1000)) 0 n \<and> 994 \<le> n \<and> n \<le> 995"
proof -
  have "gives (ca_view sample_api (c_troveManager sample_contracts) ''getBorrowingRateWithDecay'' []) 0 [VBig 5000000000000000]"
    using sample_views [of "c_troveManager sample_contracts" "''getBorrowingRateWithDecay''" "[]" 0]
    by (simp add: sample_view_def)
  from net_borrowing_amount_greatest [OF sample_bn_law this, of 1000] obtain n where
    n: "gives (getNetBorrowingAmount sample_api sample_contracts (VBig 1000)) 0 n"
      "n * (MV_1e18 + 5000000000000000) \<le> 1000 * MV_1e18" "1000 * MV_1e18 < (n + 1) * (MV_1e18 + 5000000000000000)"
    by auto
  then show ?thesis by (intro exI [of _ n]) (auto simp: MV_1e18_def)
qed

lemma sample_parseUnits: "ca_parseUnits sample_api s k = Inr (int (digits_val 10 s) * 10 ^ k)"
  by (simp add: sample_api_def)

lemma sample_calls: "ca_call sample_api s t fn args n = Some (Inr \<lparr>rc_events = [], rc_gasUsed = 21000\<rparr>, n + 1)"
  by (simp add: sample_api_def)

lemma sample_numbers:
  "gives (view_number sample_api t ''getBorrowingRateWithDecay'' []) n 5000000000000000"
  "gives (view_number sample_api t ''getBorrowingFee'' [VBig a]) n (6000000000000000 * a div MV_1e18)"
  "gives (view_number sample_api t ''getPrice'' []) n 1800000000000000000000"
  by (rule gives_view_number, simp add: gives_def sample_api_def sample_view_def)+

lemma sample_2000: "ca_parseUnits sample_api ''2000'' 18 = Inr (2000 * 10 ^ 18)"
  by (simp add: sample_parseUnits digits_val_def digit_val_def)

lemma sample_open_returns: "\<exists>res. openTrove sample_api sample_contracts sample_open 0 = Some (Inr res, 2)"
proof -
  have net: "\<exists>n. gives (getNetBorrowingAmount sample_api sample_contracts (VBig (2000 * 10 ^ 18))) 0 n"
    by (rule exI, rule getNetBorrowingAmount_gives [OF sample_bn_law sample_numbers(1)]) simp_all
  have tot: "\<exists>t. gives (getOpenTroveTotalDebt sample_api sample_contracts (VBig x)) 0 t" for x
    using getOpenTroveTotalDebt_gives [OF sample_bn_law sample_numbers(2)] by blast
  obtain n where n: "gives (getNetBorrowingAmount sample_api sample_contracts (VBig (2000 * 10 ^ 18))) 0 n"
    using net by blast
  obtain t where t: "gives (getOpenTroveTotalDebt sample_api sample_contracts (VBig (n + 1))) 0 t"
    using tot by blast
  have c: "\<exists>k. gives (open_collateral sample_api sample_contracts (VBig (2 * MV_1e18))
      (Some \<lparr>xp_from = None, xp_value = VUndef\<rparr>) t) 0 (VBig k)"
    by (simp add: open_collateral_def gives_def [of "if _ then _ else _"] gives_bind [OF sample_numbers(3)] bn_div_def)
       (simp add: gives_def gives_bind [OF sample_numbers(3)] bn_div_def)
  then obtain k where k: "gives (open_collateral sample_api sample_contracts (VBig (2 * MV_1e18))
      (Some \<lparr>xp_from = None, xp_value = VUndef\<rparr>) t) 0 (VBig k)" by blast
  show ?thesis
    by (simp add: openTrove_def sample_open_def Let_def extra_lusd_def target_ICR_def toBN_simps [OF sample_bn_law]
        sample_2000 gives_bind [OF n [simplified]] gives_bind [OF t] gives_bind [OF k] sample_parseUnits [of "''1''"]
        bind_io_def [of "ca_call _ _ _ _ _"] sample_calls)
qed

theorem openTrove_debt_and_collateral_witness:
  "\<exists>res. openTrove sample_api sample_contracts sample_open 0 = Some (Inr res, 2) \<and> 2000 * 10 ^ 18 \<le> or_totalDebt res"
proof -
  obtain res where run: "openTrove sample_api sample_contracts sample_open 0 = Some (Inr res, 2)"
    using sample_open_returns by blast
  have views: "gives (ca_view sample_api t fn args) 0 vs" if "sample_view fn args = vs" for t fn args vs
    using sample_views [of t fn args 0] that by simp
  have "extra_lusd sample_api (op_extraLUSDAmount sample_open) = Inr 0"
    by (simp add: extra_lusd_def sample_open_def toBN_simps [OF sample_bn_law])
  then have "2000 * 10 ^ 18 \<le> or_totalDebt res"
    using openTrove_debt_and_collateral [of sample_api sample_open 0 sample_contracts 0 5000000000000000
        6000000000000000 1800000000000000000000 res 2]
    by (simp add: sample_bn_law sample_2000 [simplified] views sample_view_def run)
  with run show ?thesis by blast
qed

text \<open>
  What \<open>assertRevert\<close> accepts. With a message it accepts exactly the errors whose text contains
  the message, where a transaction that did not revert counts as the text of the failed assertion
  inside the helper. Without a message, or with an empty one, it accepts every transaction, even
  one that succeeded: the assertion that should catch this is itself caught.
\<close>

theorem assertRevert_accepts_iff:
  "(assertRevert tx message = Inr () \<longleftrightarrow>
      message \<in> {None, Some ''''} \<or>
      js_includes (case tx of Inr _ \<Rightarrow> ''AssertionError: expected 1 to be false'' | Inl e \<Rightarrow> errString e) (the message))
   \<and> assertRevert (Inr rc) None = Inr ()"
  by (cases message) (auto simp: assertRevert_def Let_def isFalse_1_error_def split: sum.splits)

text \<open>
  The guard of \<open>withdrawLUSD\<close> compares two \<open>BigNumber\<close>s with \<open>>\<close>, that is, by their decimal
  strings. It agrees with the order of the numbers where both have the same number of digits; in
  general it does not: it refuses a target debt of 1000 for a debt of 900, and accepts one of 90 for
  a debt of 100.
\<close>

theorem withdraw_guard_is_lexicographic:
  assumes "0 \<le> targetDebt" and "0 \<le> debt" and "length (show_int targetDebt) = length (show_int debt)"
  shows "bn_operator_greater targetDebt debt \<longleftrightarrow> debt < targetDebt"
proof -
  have digits: "list_all (is_digit_in 10) (show_int n) \<and> digits_val 10 (show_int n) = nat n" if "0 \<le> n" for n
    using that show_nat_digits [of _ "nat n"] by (auto simp: show_int_def list_all_iff) fastforce+
  with assms show ?thesis
    unfolding bn_operator_greater_def by (simp add: js_string_less_digits) linarith
qed

theorem withdraw_guard_is_lexicographic_witness:
  "bn_operator_greater 200 150 \<and> \<not> bn_operator_greater 1000 900 \<and> bn_operator_greater 90 100"
proof -
  have "length (show_int 200) = length (show_int 150)" by code_simp
  then have "bn_operator_greater 200 150" using withdraw_guard_is_lexicographic [of 200 150] by simp
  moreover have "\<not> bn_operator_greater 1000 900 \<and> bn_operator_greater 90 100" by code_simp
  ultimately show ?thesis by blast
qed

lemma first_event_iff:
  "first_event n es = Some e \<longleftrightarrow>
     (\<exists>pre post. es = pre @ e # post \<and> filter (is_event n) pre = [] \<and> is_event n e)"
proof (induction es)
  case Nil
  then show ?case by simp
next
  case (Cons x es)
  show ?case
  proof (cases "is_event n x")
    case True
    then show ?thesis by (auto simp: Cons_eq_append_conv split: if_splits)
  next
    case False
    have "(\<exists>pre post. x # es = pre @ e # post \<and> filter (is_event n) pre = [] \<and> is_event n e) \<longleftrightarrow>
        (\<exists>pre post. es = pre @ e # post \<and> filter (is_event n) pre = [] \<and> is_event n e)" (is "?L \<longleftrightarrow> ?R")
    proof
      assume ?L
      then obtain pre post where p: "x # es = pre @ e # post" "filter (is_event n) pre = []" "is_event n e" by blast
      with False obtain pre' where "pre = x # pre'" by (cases pre) auto
      with p False show ?R by (intro exI [of _ pre'] exI [of _ post]) simp
    next
      assume ?R
      then obtain pre post where "es = pre @ e # post" "filter (is_event n) pre = []" "is_event n e" by blast
      with False show ?L by (intro exI [of _ "x # pre"] exI [of _ post]) simp
    qed
    with Cons False show ?thesis by simp
  qed
qed

lemma first_event_None: "first_event n es = None \<longleftrightarrow> filter (is_event n) es = []"
  by (induction es) auto

lemma find_event_arg_iff:
  "find_event_arg n a es =
     (case filter (\<lambda>e. is_event n e \<and> obj_get (ev_named e) a \<noteq> None) es of
        [] \<Rightarrow> None | e # _ \<Rightarrow> obj_get (ev_named e) a)"
  by (induction es) (auto split: option.splits)

lemma fold_filter_snoc: "fold (\<lambda>e acc. if P e then acc @ [e] else acc) es acc = acc @ filter P es"
  by (induction es arbitrary: acc) auto

text \<open>
  The searches over the events of a receipt. By index, the argument comes from the first event of
  the name and the search throws exactly where there is none; by name, the argument comes from the
  first event of the name that has it; the collection of all events is the sublist of that name.
\<close>

theorem event_searches:
  "(getEventArgByIndex tx name i = Inr v \<longleftrightarrow>
      (\<exists>pre e post. rc_events tx = pre @ e # post \<and> filter (is_event name) pre = [] \<and> is_event name e
         \<and> v = event_arg e i))
   \<and> ((\<exists>er. getEventArgByIndex tx name i = Inl er) \<longleftrightarrow> getAllEventsByName tx name = [])
   \<and> getAllEventsByName tx name = filter (is_event name) (rc_events tx)
   \<and> (getEventArgByName tx name a = Inr v \<longleftrightarrow>
      (\<exists>e rest. filter (\<lambda>e. is_event name e \<and> obj_get (ev_named e) a \<noteq> None) (rc_events tx) = e # rest
         \<and> obj_get (ev_named e) a = Some v))"
proof -
  have all: "getAllEventsByName tx name = filter (is_event name) (rc_events tx)"
    by (simp add: getAllEventsByName_def fold_filter_snoc)
  have "getEventArgByIndex tx name i = Inr v \<longleftrightarrow>
      (\<exists>e. first_event name (rc_events tx) = Some e \<and> v = event_arg e i)"
    by (auto simp: getEventArgByIndex_def split: option.splits)
  moreover have "(\<exists>er. getEventArgByIndex tx name i = Inl er) \<longleftrightarrow> first_event name (rc_events tx) = None"
    by (auto simp: getEventArgByIndex_def split: option.splits)
  moreover have "getEventArgByName tx name a = Inr v \<longleftrightarrow> find_event_arg name a (rc_events tx) = Some v"
    by (auto simp: getEventArgByName_def split: option.splits)
  ultimately show ?thesis
    unfolding all first_event_iff first_event_None find_event_arg_iff
    by (auto split: list.splits)
qed

text \<open>
  \<open>dec\<close> writes a scaled number: read as a decimal, the string it returns is the value times ten
  to the power of the scale, with 18 for \<open>ether\<close> and 15 for \<open>finney\<close>.
\<close>

theorem dec_scales:
  "(\<exists>s. dec (VNum (int n)) sc = Inr s \<and> digits_val 10 s = n * 10 ^ zerosCount sc)
   \<and> zerosCount (ScaleStr ''ether'') = 18 \<and> zerosCount (ScaleStr ''finney'') = 15 \<and> zerosCount (ScaleNum k) = k"
  by (simp add: dec_def show_int_def digits_val_append_zeros zerosCount_def)

end
