(* ===== verification/Deploy_Scripts.thy ===== *)
theory Deploy_Scripts
  imports Hardhat_Config Test_Helper
begin

text \<open>
  The deployment scripts (\<open>deploy/*.ts\<close>). The package \<open>hardhat-deploy\<close> is the record \<open>deploy_api\<close>:
  the named accounts, \<open>deployments.deploy\<close>, \<open>deployments.get\<close> and \<open>deployments.execute\<close>; the chain
  behind it is a \<open>chain_api\<close>. A script is a computation over the state of both.
\<close>

section \<open>The interface of hardhat-deploy\<close>

record deploy_options =
  do_contract :: string
  do_from :: val
  do_args :: "val list"
  do_libraries :: "val obj"
  do_skipIfAlreadyDeployed :: bool

record 'c deploy_api =
  da_chain :: "'c chain_api"
  da_networkName :: string
  da_accounts :: "string \<Rightarrow> string option"
  da_deploy :: "string \<Rightarrow> deploy_options \<Rightarrow> ('c, chain_error, string) io"
  da_get :: "string \<Rightarrow> ('c, chain_error, string) io"
  da_execute :: "string \<Rightarrow> val \<Rightarrow> string \<Rightarrow> val list \<Rightarrow> ('c, chain_error, unit) io"

text \<open>A field of \<open>await getNamedAccounts()\<close>.\<close>

definition acct :: "'c deploy_api \<Rightarrow> string \<Rightarrow> val" where
  "acct api name = (case da_accounts api name of Some a \<Rightarrow> VStr a | None \<Rightarrow> VUndef)"

definition deploy_with :: "'c deploy_api \<Rightarrow> string \<Rightarrow> string \<Rightarrow> val list \<Rightarrow> val obj \<Rightarrow> ('c, chain_error, string) io" where
  "deploy_with api name contract args libs =
     da_deploy api name
       \<lparr>do_contract = contract, do_from = acct api ''deployer'', do_args = args, do_libraries = libs,
        do_skipIfAlreadyDeployed = True\<rparr>"

definition deploy_plain :: "'c deploy_api \<Rightarrow> string \<Rightarrow> string \<Rightarrow> ('c, chain_error, unit) io" where
  "deploy_plain api name contract = bind_io (deploy_with api name contract [] []) (\<lambda>_. return_io ())"

definition execute_as_deployer :: "'c deploy_api \<Rightarrow> string \<Rightarrow> string \<Rightarrow> val list \<Rightarrow> ('c, chain_error, unit) io" where
  "execute_as_deployer api name fn args = da_execute api name (acct api ''deployer'') fn args"

text \<open>\<open>(await getContractAt(name, address)).fn(args)\<close> and waiting for the receipt.\<close>

definition send_tx :: "'c deploy_api \<Rightarrow> string \<Rightarrow> string \<Rightarrow> val list \<Rightarrow> ('c, chain_error, unit) io" where
  "send_tx api target fn args = bind_io (ca_call (da_chain api) None target fn args) (\<lambda>_. return_io ())"

section \<open>Scripts that deploy one contract\<close>

definition deploy_TroveManager :: "'c deploy_api \<Rightarrow> ('c, chain_error, unit) io" where
  "deploy_TroveManager api = deploy_plain api ''TroveManager'' ''TroveManager''"

definition deploy_StabilityPool :: "'c deploy_api \<Rightarrow> ('c, chain_error, unit) io" where
  "deploy_StabilityPool api = deploy_plain api ''StabilityPool'' ''StabilityPool''"

definition deploy_BorrowerOperations :: "'c deploy_api \<Rightarrow> ('c, chain_error, unit) io" where
  "deploy_BorrowerOperations api = deploy_plain api ''BorrowerOperations'' ''BorrowerOperations''"

definition deploy_ActivePool :: "'c deploy_api \<Rightarrow> ('c, chain_error, unit) io" where
  "deploy_ActivePool api = deploy_plain api ''ActivePool'' ''ActivePool''"

definition deploy_DefaultPool :: "'c deploy_api \<Rightarrow> ('c, chain_error, unit) io" where
  "deploy_DefaultPool api = deploy_plain api ''DefaultPool'' ''DefaultPool''"

definition deploy_CollSurplusPool :: "'c deploy_api \<Rightarrow> ('c, chain_error, unit) io" where
  "deploy_CollSurplusPool api = deploy_plain api ''CollSurplusPool'' ''CollSurplusPool''"

definition deploy_HintHelpers :: "'c deploy_api \<Rightarrow> ('c, chain_error, unit) io" where
  "deploy_HintHelpers api = deploy_plain api ''HintHelpers'' ''HintHelpers''"

definition deploy_SortedTroves :: "'c deploy_api \<Rightarrow> ('c, chain_error, unit) io" where
  "deploy_SortedTroves api = deploy_plain api ''SortedTroves'' ''SortedTroves''"

definition deploy_CommunityIssuance :: "'c deploy_api \<Rightarrow> ('c, chain_error, unit) io" where
  "deploy_CommunityIssuance api = deploy_plain api ''CommunityIssuance'' ''CommunityIssuance''"

definition deploy_LiquidityRewardsIssuance :: "'c deploy_api \<Rightarrow> ('c, chain_error, unit) io" where
  "deploy_LiquidityRewardsIssuance api = deploy_plain api ''LiquidityRewardsIssuance'' ''LiquidityRewardsIssuance''"

definition deploy_LockupContractFactory :: "'c deploy_api \<Rightarrow> ('c, chain_error, unit) io" where
  "deploy_LockupContractFactory api = deploy_plain api ''LockupContractFactory'' ''LockupContractFactory''"

definition deploy_VeLogo :: "'c deploy_api \<Rightarrow> ('c, chain_error, unit) io" where
  "deploy_VeLogo api = deploy_plain api ''VeLogo'' ''VeLogo''"

definition deploy_VeDistributorLogic :: "'c deploy_api \<Rightarrow> ('c, chain_error, unit) io" where
  "deploy_VeDistributorLogic api = deploy_plain api ''VeDistributorLogic'' ''VeDistributor''"

definition deploy_ControllerLogic :: "'c deploy_api \<Rightarrow> ('c, chain_error, unit) io" where
  "deploy_ControllerLogic api = deploy_plain api ''ControllerLogic'' ''Controller''"

definition deploy_SIMToken :: "'c deploy_api \<Rightarrow> ('c, chain_error, unit) io" where
  "deploy_SIMToken api =
     bind_io (da_get api ''TroveManager'') (\<lambda>troveManager.
     bind_io (da_get api ''StabilityPool'') (\<lambda>stabilityPool.
     bind_io (da_get api ''BorrowerOperations'') (\<lambda>borrowerOperations.
     bind_io (deploy_with api ''SIMToken'' ''SIMToken''
                [VStr troveManager, VStr stabilityPool, VStr borrowerOperations] []) (\<lambda>_.
     return_io ()))))"

definition deploy_VeLogic :: "'c deploy_api \<Rightarrow> ('c, chain_error, unit) io" where
  "deploy_VeLogic api =
     bind_io (da_get api ''VeLogo'') (\<lambda>veLogo.
     bind_io (deploy_with api ''VeLogic'' ''Ve'' [] [(''VeLogo'', VStr veLogo)]) (\<lambda>_.
     return_io ()))"

definition deploy_MultiTroveGetter :: "'c deploy_api \<Rightarrow> ('c, chain_error, unit) io" where
  "deploy_MultiTroveGetter api =
     bind_io (da_get api ''TroveManager'') (\<lambda>troveManager.
     bind_io (da_get api ''SortedTroves'') (\<lambda>sortedTroves.
     bind_io (deploy_with api ''MultiTroveGetter'' ''MultiTroveGetter'' [VStr troveManager, VStr sortedTroves] []) (\<lambda>_.
     return_io ())))"

section \<open>Scripts that deploy a proxy\<close>

definition deploy_proxy :: "'c deploy_api \<Rightarrow> string \<Rightarrow> string \<Rightarrow> ('c, chain_error, unit) io" where
  "deploy_proxy api name logic =
     bind_io (deploy_with api name ''ProxyControlled'' [] []) (\<lambda>_.
     bind_io (da_get api logic) (\<lambda>address.
     execute_as_deployer api name ''initProxy'' [VStr address]))"

definition deploy_Ve :: "'c deploy_api \<Rightarrow> ('c, chain_error, unit) io" where
  "deploy_Ve api = deploy_proxy api ''Ve'' ''VeLogic''"

definition deploy_SIMVeDistributor :: "'c deploy_api \<Rightarrow> ('c, chain_error, unit) io" where
  "deploy_SIMVeDistributor api = deploy_proxy api ''SIMVeDistributor'' ''VeDistributorLogic''"

definition deploy_WSTETHVeDistributor :: "'c deploy_api \<Rightarrow> ('c, chain_error, unit) io" where
  "deploy_WSTETHVeDistributor api = deploy_proxy api ''WSTETHVeDistributor'' ''VeDistributorLogic''"

definition deploy_Controller :: "'c deploy_api \<Rightarrow> ('c, chain_error, unit) io" where
  "deploy_Controller api = deploy_proxy api ''Controller'' ''ControllerLogic''"

section \<open>The price feed\<close>

definition pythFeedId :: "string obj" where
  "pythFeedId =
     [(''hardhat'', ''0x'' @ js_repeat (CHR ''0'') 64),
      (''zkevmtestnet'', ''0xca80ba6dc32e08d06f1aa886011eed1d77c77be9eb761cc10d72b7d0a2fd57a6''),
      (''goerli'', ''0xca80ba6dc32e08d06f1aa886011eed1d77c77be9eb761cc10d72b7d0a2fd57a6''),
      (''zkevm'', ''0xff61491a931112ddf1bd8147cd1b641375f79f5825126d665480874634fd0ace'')]"

definition feed_id :: "'c deploy_api \<Rightarrow> val" where
  "feed_id api = (case obj_get pythFeedId (da_networkName api) of Some v \<Rightarrow> VStr v | None \<Rightarrow> VUndef)"

definition api3_target :: "'c deploy_api \<Rightarrow> ('c, chain_error, val) io" where
  "api3_target api =
     (if acct api ''api3Proxy'' = VStr ZERO_ADDRESS
      then
        bind_io (deploy_with api ''Api3ProxyMock'' ''Api3ProxyMock'' [] []) (\<lambda>address.
        bind_io (lift_io (ca_parseUnits (da_chain api) ''1800'' 18)) (\<lambda>price.
        bind_io (execute_as_deployer api ''Api3ProxyMock'' ''setPrice'' [VBig price]) (\<lambda>_.
        bind_io (ca_timestamp (da_chain api)) (\<lambda>ts.
        bind_io (execute_as_deployer api ''Api3ProxyMock'' ''setUpdateTime'' [VNum ts]) (\<lambda>_.
        return_io (VStr address))))))
      else return_io (acct api ''api3Proxy''))"

definition pyth_target :: "'c deploy_api \<Rightarrow> ('c, chain_error, val) io" where
  "pyth_target api =
     (if acct api ''pyth'' = VStr ZERO_ADDRESS
      then
        bind_io (deploy_with api ''PythMock'' ''PythMock'' [] []) (\<lambda>address.
        bind_io (execute_as_deployer api ''PythMock'' ''setFeedId'' [feed_id api]) (\<lambda>_.
        return_io (VStr address)))
      else return_io (acct api ''pyth''))"

definition rateReceiver_target :: "'c deploy_api \<Rightarrow> ('c, chain_error, val) io" where
  "rateReceiver_target api =
     (if acct api ''rateReceiver'' = VStr ZERO_ADDRESS
      then
        bind_io (deploy_with api ''CrossChainRateReceiverMock'' ''CrossChainRateReceiverMock'' [] []) (\<lambda>address.
        bind_io (lift_io (ca_parseUnits (da_chain api) ''1'' 18)) (\<lambda>rate.
        bind_io (execute_as_deployer api ''CrossChainRateReceiverMock'' ''setRate'' [VBig rate]) (\<lambda>_.
        return_io (VStr address))))
      else return_io (acct api ''rateReceiver''))"

definition deploy_PriceFeed :: "'c deploy_api \<Rightarrow> ('c, chain_error, unit) io" where
  "deploy_PriceFeed api =
     bind_io (deploy_with api ''PriceFeed'' ''PriceFeed'' [] []) (\<lambda>_.
     bind_io (api3_target api) (\<lambda>api3ProxyTarget.
     bind_io (pyth_target api) (\<lambda>pythTarget.
     bind_io (rateReceiver_target api) (\<lambda>rateReceiverTarget.
     execute_as_deployer api ''PriceFeed'' ''setAddresses''
       [api3ProxyTarget, pythTarget, rateReceiverTarget, feed_id api]))))"

section \<open>The token and the wiring\<close>

definition wstETH_target :: "'c deploy_api \<Rightarrow> ('c, chain_error, val) io" where
  "wstETH_target api =
     (if acct api ''wstETH'' = VStr ZERO_ADDRESS
      then
        bind_io (deploy_with api ''WSTETHMock'' ''WSTETHMock'' [] []) (\<lambda>address.
        bind_io (lift_io (ca_parseUnits (da_chain api) ''1'' 18)) (\<lambda>amount.
        bind_io (execute_as_deployer api ''WSTETHMock'' ''mint'' [acct api ''deployer'', VBig amount]) (\<lambda>_.
        return_io (VStr address))))
      else return_io (acct api ''wstETH''))"

text \<open>The addresses that the script reads, by the names it gives them.\<close>

record wiring =
  wi_wstETH :: val
  wi_communityIssuance :: string
  wi_liquidityRewardsIssuance :: string
  wi_ve :: string
  wi_lockupContractFactory :: string
  wi_troveManager :: string
  wi_borrowerOperations :: string
  wi_stabilityPool :: string
  wi_activePool :: string
  wi_defaultPool :: string
  wi_collSurplusPool :: string
  wi_sortedTroves :: string
  wi_priceFeed :: string
  wi_simToken :: string
  wi_simVeDistributor :: string
  wi_wstETHVeDistributor :: string
  wi_controller :: string

definition read_wiring :: "'c deploy_api \<Rightarrow> val \<Rightarrow> ('c, chain_error, wiring) io" where
  "read_wiring api wstETHTarget =
     bind_io (da_get api ''CommunityIssuance'') (\<lambda>communityIssuance.
     bind_io (da_get api ''LiquidityRewardsIssuance'') (\<lambda>liquidityRewardsIssuance.
     bind_io (da_get api ''Ve'') (\<lambda>ve.
     bind_io (da_get api ''LockupContractFactory'') (\<lambda>lockupContractFactory.
     bind_io (da_get api ''TroveManager'') (\<lambda>troveManager.
     bind_io (da_get api ''BorrowerOperations'') (\<lambda>borrowerOperations.
     bind_io (da_get api ''StabilityPool'') (\<lambda>stabilityPool.
     bind_io (da_get api ''ActivePool'') (\<lambda>activePool.
     bind_io (da_get api ''DefaultPool'') (\<lambda>defaultPool.
     bind_io (da_get api ''CollSurplusPool'') (\<lambda>collSurplusPool.
     bind_io (da_get api ''SortedTroves'') (\<lambda>sortedTroves.
     bind_io (da_get api ''PriceFeed'') (\<lambda>priceFeed.
     bind_io (da_get api ''SIMToken'') (\<lambda>simToken.
     bind_io (da_get api ''SIMVeDistributor'') (\<lambda>simVeDistributor.
     bind_io (da_get api ''WSTETHVeDistributor'') (\<lambda>wstETHVeDistributor.
     bind_io (da_get api ''Controller'') (\<lambda>controller.
     return_io
       \<lparr>wi_wstETH = wstETHTarget, wi_communityIssuance = communityIssuance,
        wi_liquidityRewardsIssuance = liquidityRewardsIssuance, wi_ve = ve,
        wi_lockupContractFactory = lockupContractFactory, wi_troveManager = troveManager,
        wi_borrowerOperations = borrowerOperations, wi_stabilityPool = stabilityPool,
        wi_activePool = activePool, wi_defaultPool = defaultPool, wi_collSurplusPool = collSurplusPool,
        wi_sortedTroves = sortedTroves, wi_priceFeed = priceFeed, wi_simToken = simToken,
        wi_simVeDistributor = simVeDistributor, wi_wstETHVeDistributor = wstETHVeDistributor,
        wi_controller = controller\<rparr>))))))))))))))))"

text \<open>The core contracts.\<close>

definition connect_core :: "'c deploy_api \<Rightarrow> wiring \<Rightarrow> string \<Rightarrow> ('c, chain_error, unit) io" where
  "connect_core api wi shadyToken =
     bind_io (execute_as_deployer api ''SortedTroves'' ''setParams''
       [VStr (''0x'' @ js_repeat (CHR ''f'') 64), VStr (wi_troveManager wi), VStr (wi_borrowerOperations wi)]) (\<lambda>_.
     bind_io (execute_as_deployer api ''TroveManager'' ''setAddresses''
       [VStr (wi_borrowerOperations wi), VStr (wi_activePool wi), VStr (wi_defaultPool wi),
        VStr (wi_stabilityPool wi), VStr (wi_collSurplusPool wi), VStr (wi_priceFeed wi),
        VStr (wi_simToken wi), VStr (wi_sortedTroves wi), VStr shadyToken, VStr (wi_wstETHVeDistributor wi)]) (\<lambda>_.
     bind_io (execute_as_deployer api ''BorrowerOperations'' ''setAddresses''
       [wi_wstETH wi, VStr (wi_troveManager wi), VStr (wi_activePool wi), VStr (wi_defaultPool wi),
        VStr (wi_stabilityPool wi), VStr (wi_collSurplusPool wi), VStr (wi_priceFeed wi),
        VStr (wi_sortedTroves wi), VStr (wi_simToken wi), VStr (wi_simVeDistributor wi), acct api ''multisig'']) (\<lambda>_.
     bind_io (execute_as_deployer api ''StabilityPool'' ''setAddresses''
       [wi_wstETH wi, VStr (wi_borrowerOperations wi), VStr (wi_troveManager wi), VStr (wi_activePool wi),
        VStr (wi_simToken wi), VStr (wi_sortedTroves wi), VStr (wi_priceFeed wi), VStr (wi_communityIssuance wi)]) (\<lambda>_.
     bind_io (execute_as_deployer api ''ActivePool'' ''setAddresses''
       [wi_wstETH wi, VStr (wi_borrowerOperations wi), VStr (wi_troveManager wi), VStr (wi_stabilityPool wi),
        VStr (wi_defaultPool wi), VStr (wi_collSurplusPool wi)]) (\<lambda>_.
     bind_io (execute_as_deployer api ''DefaultPool'' ''setAddresses''
       [wi_wstETH wi, VStr (wi_troveManager wi), VStr (wi_activePool wi)]) (\<lambda>_.
     bind_io (execute_as_deployer api ''CollSurplusPool'' ''setAddresses''
       [wi_wstETH wi, VStr (wi_borrowerOperations wi), VStr (wi_troveManager wi), VStr (wi_activePool wi)]) (\<lambda>_.
     execute_as_deployer api ''HintHelpers'' ''setAddresses''
       [VStr (wi_sortedTroves wi), VStr (wi_troveManager wi)])))))))"

text \<open>The token, the vote escrow, the issuance and the two distributors.\<close>

definition connect_shady :: "'c deploy_api \<Rightarrow> wiring \<Rightarrow> string \<Rightarrow> ('c, chain_error, unit) io" where
  "connect_shady api wi shadyToken =
     bind_io (execute_as_deployer api ''LockupContractFactory'' ''setSHADYTokenAddress'' [VStr shadyToken]) (\<lambda>_.
     bind_io (send_tx api (wi_controller wi) ''init'' [acct api ''multisig'']) (\<lambda>_.
     bind_io (send_tx api (wi_ve wi) ''setAddresses''
       [VStr (wi_troveManager wi), VStr (wi_borrowerOperations wi), VStr shadyToken, VStr (wi_controller wi)]) (\<lambda>_.
     bind_io (execute_as_deployer api ''CommunityIssuance'' ''setAddresses''
       [VStr shadyToken, VStr (wi_stabilityPool wi)]) (\<lambda>_.
     bind_io (send_tx api (wi_simVeDistributor wi) ''init''
       [VStr (wi_controller wi), VStr (wi_ve wi), VStr (wi_simToken wi)]) (\<lambda>_.
     send_tx api (wi_wstETHVeDistributor wi) ''init''
       [VStr (wi_controller wi), VStr (wi_ve wi), wi_wstETH wi])))))"

text \<open>The smoke test that follows on the in-process network; \<open>expect(a).eq(b)\<close> throws where they differ.\<close>

definition expect_eq :: "bool \<Rightarrow> ('c, chain_error, unit) io" where
  "expect_eq b = (if b then return_io () else throw_io (AssertionError ''expected to equal''))"

definition val_address :: "val \<Rightarrow> string" where
  "val_address v = (case v of VStr s \<Rightarrow> s | _ \<Rightarrow> ''undefined'')"

definition smoke_test :: "'c deploy_api \<Rightarrow> wiring \<Rightarrow> string \<Rightarrow> ('c, chain_error, unit) io" where
  "smoke_test api wi shadyToken =
     (let chain = da_chain api; deployer = acct api ''deployer''; wst = val_address (wi_wstETH wi)
      in bind_io (lift_io (ca_parseUnits chain ''10'' 18)) (\<lambda>veLockAmount.
         bind_io (impersonate chain (val_address (acct api ''spender''))) (\<lambda>spenderSigner.
         bind_io (ca_call chain (Some spenderSigner) shadyToken ''transfer'' [deployer, VBig veLockAmount]) (\<lambda>_.
         bind_io (send_tx api shadyToken ''approve'' [VStr (wi_ve wi), VBig veLockAmount]) (\<lambda>_.
         bind_io (send_tx api (wi_ve wi) ''createLock'' [VStr shadyToken, VBig veLockAmount, VNum (86400 * 7 * 10)]) (\<lambda>_.
         bind_io (fastForwardTime chain (86400 * 7 * 2)) (\<lambda>_.
         bind_io (lift_io (ca_parseUnits chain ''1'' 18)) (\<lambda>colAmount.
         bind_io (lift_io (ca_parseUnits chain ''100'' 18)) (\<lambda>simAmount.
         bind_io (send_tx api wst ''approve'' [VStr (wi_borrowerOperations wi), VBig colAmount]) (\<lambda>_.
         bind_io (view_number chain wst ''balanceOf'' [deployer]) (\<lambda>balanceWSTETHBefore.
         bind_io (send_tx api (wi_borrowerOperations wi) ''openTrove''
                    [VBig colAmount, VStr hundred_pct, VBig simAmount, deployer, deployer]) (\<lambda>_.
         bind_io (view_number chain wst ''balanceOf'' [deployer]) (\<lambda>balanceWSTETHAfter.
         bind_io (expect_eq (balanceWSTETHAfter = balanceWSTETHBefore - colAmount)) (\<lambda>_.
         bind_io (view_number chain (wi_simToken wi) ''balanceOf'' [deployer]) (\<lambda>balanceSIM.
         bind_io (expect_eq (balanceSIM = simAmount)) (\<lambda>_.
         bind_io (send_tx api (wi_simVeDistributor wi) ''claim'' [VNum 1]) (\<lambda>_.
         bind_io (view_number chain (wi_simToken wi) ''balanceOf'' [deployer]) (\<lambda>balanceSIMAfter.
         expect_eq (0 < balanceSIMAfter - balanceSIM)))))))))))))))))))"

definition deploy_SHADYToken :: "'c deploy_api \<Rightarrow> ('c, chain_error, unit) io" where
  "deploy_SHADYToken api =
     bind_io (wstETH_target api) (\<lambda>wstETHTarget.
     bind_io (read_wiring api wstETHTarget) (\<lambda>wi.
     bind_io (deploy_with api ''SHADYToken'' ''SHADYToken''
                [VStr (wi_communityIssuance wi), VStr (wi_liquidityRewardsIssuance wi),
                 VStr (wi_lockupContractFactory wi), acct api ''spender'', acct api ''multisig''] []) (\<lambda>shadyToken.
     bind_io (connect_core api wi shadyToken) (\<lambda>_.
     bind_io (connect_shady api wi shadyToken) (\<lambda>_.
     if da_networkName api = ''hardhat'' then smoke_test api wi shadyToken else return_io ())))))"

section \<open>Tags and dependencies\<close>

record 'c deploy_script =
  ds_func :: "'c deploy_api \<Rightarrow> ('c, chain_error, unit) io"
  ds_tags :: "string list"
  ds_dependencies :: "string list"

definition script :: "string \<Rightarrow> string list \<Rightarrow> ('c deploy_api \<Rightarrow> ('c, chain_error, unit) io) \<Rightarrow> 'c deploy_script" where
  "script tag deps f = \<lparr>ds_func = f, ds_tags = [tag], ds_dependencies = deps\<rparr>"

text \<open>The scripts in the order of their file names, in which they run.\<close>

definition deploy_scripts :: "'c deploy_script list" where
  "deploy_scripts =
     [script ''TroveManager'' [] deploy_TroveManager,
      script ''StabilityPool'' [] deploy_StabilityPool,
      script ''BorrowerOperations'' [] deploy_BorrowerOperations,
      script ''ActivePool'' [] deploy_ActivePool,
      script ''DefaultPool'' [] deploy_DefaultPool,
      script ''CollSurplusPool'' [] deploy_CollSurplusPool,
      script ''HintHelpers'' [] deploy_HintHelpers,
      script ''SortedTroves'' [] deploy_SortedTroves,
      script ''PriceFeed'' [] deploy_PriceFeed,
      script ''SIMToken'' [''TroveManager'', ''StabilityPool'', ''BorrowerOperations''] deploy_SIMToken,
      script ''CommunityIssuance'' [] deploy_CommunityIssuance,
      script ''LiquidityRewardsIssuance'' [] deploy_LiquidityRewardsIssuance,
      script ''LockupContractFactory'' [] deploy_LockupContractFactory,
      script ''VeLogo'' [] deploy_VeLogo,
      script ''VeLogic'' [''VeLogo''] deploy_VeLogic,
      script ''Ve'' [''VeLogic''] deploy_Ve,
      script ''VeDistributorLogic'' [] deploy_VeDistributorLogic,
      script ''SIMVeDistributor'' [''VeDistributorLogic''] deploy_SIMVeDistributor,
      script ''WSTETHVeDistributor'' [''VeDistributorLogic''] deploy_WSTETHVeDistributor,
      script ''ControllerLogic'' [] deploy_ControllerLogic,
      script ''Controller'' [''ControllerLogic''] deploy_Controller,
      script ''SHADYToken''
        [''TroveManager'', ''StabilityPool'', ''BorrowerOperations'', ''ActivePool'', ''DefaultPool'',
         ''CollSurplusPool'', ''HintHelpers'', ''SortedTroves'', ''PriceFeed'', ''SIMToken'',
         ''CommunityIssuance'', ''LiquidityRewardsIssuance'', ''LockupContractFactory'', ''Ve'',
         ''SIMVeDistributor'', ''WSTETHVeDistributor'', ''Controller''] deploy_SHADYToken,
      script ''MultiTroveGetter'' [''TroveManager'', ''SortedTroves''] deploy_MultiTroveGetter]"

fun run_scripts :: "'c deploy_api \<Rightarrow> 'c deploy_script list \<Rightarrow> ('c, chain_error, unit) io" where
  "run_scripts api [] = return_io ()"
| "run_scripts api (s # ss) = bind_io (ds_func s api) (\<lambda>_. run_scripts api ss)"

section \<open>A reference ledger\<close>

text \<open>
  What the scripts rely on, as a small machine. A deployment that exists is returned as it is and a
  new one is recorded under its name, at the address that \<open>adr\<close> stands for; a call to a deployment
  that does not exist fails; the functions that initialise a contract succeed once, since the
  contracts then renounce their ownership (\<open>renounceOwnership\<close>), or are \<open>initializer\<close> functions, or
  check that a proxy has no implementation yet.
\<close>

type_synonym call = "string \<times> string \<times> val list"

record ledger =
  lg_deployments :: "string obj"
  lg_created :: "(string \<times> deploy_options) list"
  lg_calls :: "call list"

definition empty_ledger :: ledger where
  "empty_ledger = \<lparr>lg_deployments = [], lg_created = [], lg_calls = []\<rparr>"

definition one_shot :: "string \<Rightarrow> bool" where
  "one_shot fn \<longleftrightarrow> fn \<in> {''setAddresses'', ''setParams'', ''init'', ''initProxy'', ''setSHADYTokenAddress''}"

definition ledger_send :: "string \<Rightarrow> string \<Rightarrow> val list \<Rightarrow> (ledger, chain_error, unit) io" where
  "ledger_send target fn args l =
     (if one_shot fn \<and> list_ex (\<lambda>(t, f, _). f = fn \<and> t = target) (lg_calls l)
      then Some (Inl (ChainError ''revert''), l)
      else Some (Inr (), l\<lparr>lg_calls := lg_calls l @ [(target, fn, args)]\<rparr>))"

definition ledger_get :: "string \<Rightarrow> (ledger, chain_error, string) io" where
  "ledger_get name l =
     (case obj_get (lg_deployments l) name of
        Some a \<Rightarrow> Some (Inr a, l)
      | None \<Rightarrow> Some (Inl (ChainError (''No deployment found for: '' @ name)), l))"

definition ledger_deploy ::
    "(string \<Rightarrow> string) \<Rightarrow> string \<Rightarrow> deploy_options \<Rightarrow> (ledger, chain_error, string) io" where
  "ledger_deploy adr name opts l =
     (case obj_get (lg_deployments l) name of
        Some a \<Rightarrow> Some (Inr a, l)
      | None \<Rightarrow> Some (Inr (adr name),
          l\<lparr>lg_deployments := lg_deployments l @ [(name, adr name)], lg_created := lg_created l @ [(name, opts)]\<rparr>))"

definition ledger_execute :: "string \<Rightarrow> string \<Rightarrow> val list \<Rightarrow> (ledger, chain_error, unit) io" where
  "ledger_execute name fn args = bind_io (ledger_get name) (\<lambda>a. ledger_send a fn args)"

text \<open>The ledger as an environment of the scripts, with the accounts and constants of another one.\<close>

definition ledger_api :: "(string \<Rightarrow> string) \<Rightarrow> 'c deploy_api \<Rightarrow> ledger deploy_api" where
  "ledger_api adr api =
     \<lparr>da_chain =
        \<lparr>ca_signers = ca_signers (da_chain api),
         ca_deploy = (\<lambda>_ _ _. throw_io (ChainError ''not used'')),
         ca_call = (\<lambda>_ t fn args. bind_io (ledger_send t fn args) (\<lambda>_. return_io \<lparr>rc_events = [], rc_gasUsed = 0\<rparr>)),
         ca_view = (\<lambda>_ _ _. return_io []),
         ca_rpc = (\<lambda>_ _. return_io ()),
         ca_timestamp = return_io 0,
         ca_BigNumber_from = ca_BigNumber_from (da_chain api),
         ca_parseUnits = ca_parseUnits (da_chain api)\<rparr>,
      da_networkName = da_networkName api, da_accounts = da_accounts api,
      da_deploy = ledger_deploy adr, da_get = ledger_get,
      da_execute = (\<lambda>name from. ledger_execute name)\<rparr>"

text \<open>
  An environment behaves like the ledger when each of its operations gives the same result and the
  same change under the abstraction \<open>\<alpha>\<close> from its state.
\<close>

definition sim :: "('c \<Rightarrow> 'l) \<Rightarrow> ('c, 'e, 'a) io \<Rightarrow> ('l, 'e, 'a) io \<Rightarrow> bool" where
  "sim \<alpha> m m' \<longleftrightarrow> (\<forall>c. map_option (map_prod id \<alpha>) (m c) = m' (\<alpha> c))"

definition behaves_like_ledger :: "(string \<Rightarrow> string) \<Rightarrow> 'c deploy_api \<Rightarrow> ('c \<Rightarrow> ledger) \<Rightarrow> bool" where
  "behaves_like_ledger adr api \<alpha> \<longleftrightarrow>
     inj adr
     \<and> (\<forall>name opts. sim \<alpha> (da_deploy api name opts) (ledger_deploy adr name opts))
     \<and> (\<forall>name. sim \<alpha> (da_get api name) (ledger_get name))
     \<and> (\<forall>name from fn args. sim \<alpha> (da_execute api name from fn args) (ledger_execute name fn args))
     \<and> (\<forall>target fn args. sim \<alpha> (send_tx api target fn args) (ledger_send target fn args))"

lemma sim_return [intro]: "sim \<alpha> (return_io a) (return_io a)"
  and sim_throw [intro]: "sim \<alpha> (throw_io e) (throw_io e)"
  and sim_lift [intro]: "sim \<alpha> (lift_io r) (lift_io r)"
  by (simp_all add: sim_def)

lemma sim_bind [intro]:
  assumes "sim \<alpha> m m'" and "\<And>a. sim \<alpha> (f a) (f' a)"
  shows "sim \<alpha> (bind_io m f) (bind_io m' f')"
  unfolding sim_def
proof
  fix c
  have m: "m' (\<alpha> c) = map_option (map_prod id \<alpha>) (m c)" using assms(1) by (simp add: sim_def)
  show "map_option (map_prod id \<alpha>) (bind_io m f c) = bind_io m' f' (\<alpha> c)"
  proof (cases "m c")
    case None
    then show ?thesis by (simp add: bind_io_def m)
  next
    case (Some y)
    then show ?thesis
      using assms(2) by (cases y; cases "fst y") (auto simp: bind_io_def m sim_def)
  qed
qed

lemma sim_if: "sim \<alpha> m m' \<Longrightarrow> sim \<alpha> k k' \<Longrightarrow> sim \<alpha> (if b then m else k) (if b then m' else k')"
  by simp

lemma ledger_api_simps [simp]:
  "da_networkName (ledger_api adr api) = da_networkName api"
  "da_accounts (ledger_api adr api) = da_accounts api"
  "da_deploy (ledger_api adr api) = ledger_deploy adr"
  "da_get (ledger_api adr api) = ledger_get"
  "da_execute (ledger_api adr api) name from = ledger_execute name"
  "ca_parseUnits (da_chain (ledger_api adr api)) = ca_parseUnits (da_chain api)"
  "acct (ledger_api adr api) = acct api"
  "feed_id (ledger_api adr api) = feed_id api"
  by (simp_all add: ledger_api_def acct_def feed_id_def fun_eq_iff)

lemma send_tx_ledger [simp]: "send_tx (ledger_api adr api) = ledger_send"
  by (simp add: fun_eq_iff send_tx_def ledger_api_def bind_io_def ledger_send_def)

lemma behaves_simps:
  assumes "behaves_like_ledger adr api \<alpha>"
  shows "sim \<alpha> (deploy_with api n k args libs) (deploy_with (ledger_api adr api) n k args libs)"
    and "sim \<alpha> (da_get api n) (ledger_get n)"
    and "sim \<alpha> (execute_as_deployer api n fn args) (execute_as_deployer (ledger_api adr api) n fn args)"
    and "sim \<alpha> (send_tx api t fn args) (ledger_send t fn args)"
  using assms by (simp_all add: behaves_like_ledger_def deploy_with_def execute_as_deployer_def)

text \<open>Every script behaves on such an environment as it does on the ledger.\<close>

lemmas script_defs =
  deploy_TroveManager_def deploy_StabilityPool_def deploy_BorrowerOperations_def deploy_ActivePool_def
  deploy_DefaultPool_def deploy_CollSurplusPool_def deploy_HintHelpers_def deploy_SortedTroves_def
  deploy_PriceFeed_def deploy_SIMToken_def deploy_CommunityIssuance_def deploy_LiquidityRewardsIssuance_def
  deploy_LockupContractFactory_def deploy_VeLogo_def deploy_VeLogic_def deploy_Ve_def
  deploy_VeDistributorLogic_def deploy_SIMVeDistributor_def deploy_WSTETHVeDistributor_def
  deploy_ControllerLogic_def deploy_Controller_def deploy_SHADYToken_def deploy_MultiTroveGetter_def
  deploy_plain_def deploy_proxy_def pyth_target_def rateReceiver_target_def wstETH_target_def
  read_wiring_def connect_core_def connect_shady_def

lemma api3_target_live: "acct api ''api3Proxy'' \<noteq> VStr ZERO_ADDRESS \<Longrightarrow> api3_target api = return_io (acct api ''api3Proxy'')"
  by (simp add: api3_target_def)

lemma scripts_simulated:
  assumes b: "behaves_like_ledger adr api \<alpha>" and n: "da_networkName api \<noteq> ''hardhat''"
    and z: "acct api ''api3Proxy'' \<noteq> VStr ZERO_ADDRESS"
  shows "sim \<alpha> (run_scripts api deploy_scripts) (run_scripts (ledger_api adr api) deploy_scripts)"
  unfolding deploy_scripts_def script_def run_scripts.simps deploy_script.simps script_defs ledger_api_simps
    send_tx_ledger api3_target_live [OF z] api3_target_live [of "ledger_api adr api", unfolded ledger_api_simps, OF z] if_not_P [OF n]
  by (intro sim_bind sim_if sim_return sim_lift behaves_simps [OF b])

section \<open>The signatures of the contracts\<close>

text \<open>The parameters of the initialising functions, in the order the Solidity sources declare them.\<close>

definition sol_TroveManager_setAddresses :: "string list" where
  "sol_TroveManager_setAddresses =
     [''_borrowerOperationsAddress'', ''_activePoolAddress'', ''_defaultPoolAddress'', ''_stabilityPoolAddress'',
      ''_collSurplusPoolAddress'', ''_priceFeedAddress'', ''_simTokenAddress'', ''_sortedTrovesAddress'',
      ''_shadyTokenAddress'', ''_wstEthVeDistributor'']"

definition sol_BorrowerOperations_setAddresses :: "string list" where
  "sol_BorrowerOperations_setAddresses =
     [''_WSTETHAddress'', ''_troveManagerAddress'', ''_activePoolAddress'', ''_defaultPoolAddress'',
      ''_stabilityPoolAddress'', ''_collSurplusPoolAddress'', ''_priceFeedAddress'', ''_sortedTrovesAddress'',
      ''_simTokenAddress'', ''_simVeDistributorAddress'', ''_feeReceiver'']"

definition sol_StabilityPool_setAddresses :: "string list" where
  "sol_StabilityPool_setAddresses =
     [''_WSTETHAddress'', ''_borrowerOperationsAddress'', ''_troveManagerAddress'', ''_activePoolAddress'',
      ''_simTokenAddress'', ''_sortedTrovesAddress'', ''_priceFeedAddress'', ''_communityIssuanceAddress'']"

definition sol_ActivePool_setAddresses :: "string list" where
  "sol_ActivePool_setAddresses =
     [''_WSTETHAddress'', ''_borrowerOperationsAddress'', ''_troveManagerAddress'', ''_stabilityPoolAddress'',
      ''_defaultPoolAddress'', ''_collSurplusPoolAddress'']"

definition sol_DefaultPool_setAddresses :: "string list" where
  "sol_DefaultPool_setAddresses = [''_WSTETHAddress'', ''_troveManagerAddress'', ''_activePoolAddress'']"

definition sol_CollSurplusPool_setAddresses :: "string list" where
  "sol_CollSurplusPool_setAddresses =
     [''_WSTETHAddress'', ''_borrowerOperationsAddress'', ''_troveManagerAddress'', ''_activePoolAddress'']"

definition sol_HintHelpers_setAddresses :: "string list" where
  "sol_HintHelpers_setAddresses = [''_sortedTrovesAddress'', ''_troveManagerAddress'']"

definition sol_SortedTroves_setParams :: "string list" where
  "sol_SortedTroves_setParams = [''_size'', ''_troveManagerAddress'', ''_borrowerOperationsAddress'']"

definition sol_PriceFeed_setAddresses :: "string list" where
  "sol_PriceFeed_setAddresses = [''api3Proxy_'', ''pyth_'', ''rateReceiver_'', ''pythFeedId_'']"

definition sol_Ve_setAddresses :: "string list" where
  "sol_Ve_setAddresses = [''troveManagerAddress_'', ''borrowerOperationsAddress_'', ''shadyAddress_'', ''controller_'']"

definition sol_Issuance_setAddresses :: "string list" where
  "sol_Issuance_setAddresses = [''_shadyTokenAddress'', ''_issuerAddress'']"

definition sol_LockupContractFactory_setSHADYTokenAddress :: "string list" where
  "sol_LockupContractFactory_setSHADYTokenAddress = [''_shadyTokenAddress'']"

definition sol_Controller_init :: "string list" where
  "sol_Controller_init = [''_governance'']"

definition sol_VeDistributor_init :: "string list" where
  "sol_VeDistributor_init = [''controller_'', ''_ve'', ''_rewardToken'']"

definition sol_ProxyControlled_initProxy :: "string list" where
  "sol_ProxyControlled_initProxy = [''_logic'']"

text \<open>What a parameter of the deployment \<open>D\<close> stands for: a role, which is a contract or an account.\<close>

definition param_role :: "string \<Rightarrow> string \<Rightarrow> string" where
  "param_role D p =
     (if p \<in> {''_troveManagerAddress'', ''troveManagerAddress_''} then ''TroveManager''
      else if p \<in> {''_borrowerOperationsAddress'', ''borrowerOperationsAddress_''} then ''BorrowerOperations''
      else if p = ''_activePoolAddress'' then ''ActivePool''
      else if p = ''_defaultPoolAddress'' then ''DefaultPool''
      else if p = ''_stabilityPoolAddress'' then ''StabilityPool''
      else if p = ''_collSurplusPoolAddress'' then ''CollSurplusPool''
      else if p = ''_priceFeedAddress'' then ''PriceFeed''
      else if p = ''_simTokenAddress'' then ''SIMToken''
      else if p = ''_sortedTrovesAddress'' then ''SortedTroves''
      else if p \<in> {''_shadyTokenAddress'', ''shadyAddress_''} then ''SHADYToken''
      else if p = ''_wstEthVeDistributor'' then ''WSTETHVeDistributor''
      else if p = ''_simVeDistributorAddress'' then ''SIMVeDistributor''
      else if p = ''_communityIssuanceAddress'' then ''CommunityIssuance''
      else if p = ''_issuerAddress'' then ''StabilityPool''
      else if p = ''controller_'' then ''Controller''
      else if p = ''_ve'' then ''Ve''
      else if p \<in> {''_feeReceiver'', ''_governance''} then ''multisig''
      else if p = ''_rewardToken'' then (if D = ''SIMVeDistributor'' then ''SIMToken'' else ''wstETH'')
      else if p = ''_logic'' then
        (if D = ''Ve'' then ''VeLogic'' else if D = ''Controller'' then ''ControllerLogic'' else ''VeDistributorLogic'')
      else if p = ''_WSTETHAddress'' then ''wstETH''
      else if p = ''api3Proxy_'' then ''api3Proxy''
      else if p = ''pyth_'' then ''pyth''
      else if p = ''rateReceiver_'' then ''rateReceiver''
      else p)"

text \<open>An account with the zero address is replaced by a mock; a contract is its deployment.\<close>

definition account_or_mock :: "(string \<Rightarrow> string) \<Rightarrow> 'c deploy_api \<Rightarrow> string \<Rightarrow> string \<Rightarrow> val" where
  "account_or_mock adr api name mock =
     (if acct api name = VStr ZERO_ADDRESS then VStr (adr mock) else acct api name)"

definition role_value :: "(string \<Rightarrow> string) \<Rightarrow> 'c deploy_api \<Rightarrow> string \<Rightarrow> val" where
  "role_value adr api r =
     (if r = ''multisig'' then acct api ''multisig''
      else if r = ''wstETH'' then account_or_mock adr api ''wstETH'' ''WSTETHMock''
      else if r = ''api3Proxy'' then account_or_mock adr api ''api3Proxy'' ''Api3ProxyMock''
      else if r = ''pyth'' then account_or_mock adr api ''pyth'' ''PythMock''
      else if r = ''rateReceiver'' then account_or_mock adr api ''rateReceiver'' ''CrossChainRateReceiverMock''
      else if r = ''pythFeedId_'' then feed_id api
      else if r = ''_size'' then VStr maxBytes32
      else VStr (adr r))"

text \<open>The calls that initialise the system: deployment, function and signature.\<close>

definition initialisers :: "(string \<times> string \<times> string list) list" where
  "initialisers =
     [(''PriceFeed'', ''setAddresses'', sol_PriceFeed_setAddresses),
      (''Ve'', ''initProxy'', sol_ProxyControlled_initProxy),
      (''SIMVeDistributor'', ''initProxy'', sol_ProxyControlled_initProxy),
      (''WSTETHVeDistributor'', ''initProxy'', sol_ProxyControlled_initProxy),
      (''Controller'', ''initProxy'', sol_ProxyControlled_initProxy),
      (''SortedTroves'', ''setParams'', sol_SortedTroves_setParams),
      (''TroveManager'', ''setAddresses'', sol_TroveManager_setAddresses),
      (''BorrowerOperations'', ''setAddresses'', sol_BorrowerOperations_setAddresses),
      (''StabilityPool'', ''setAddresses'', sol_StabilityPool_setAddresses),
      (''ActivePool'', ''setAddresses'', sol_ActivePool_setAddresses),
      (''DefaultPool'', ''setAddresses'', sol_DefaultPool_setAddresses),
      (''CollSurplusPool'', ''setAddresses'', sol_CollSurplusPool_setAddresses),
      (''HintHelpers'', ''setAddresses'', sol_HintHelpers_setAddresses),
      (''LockupContractFactory'', ''setSHADYTokenAddress'', sol_LockupContractFactory_setSHADYTokenAddress),
      (''Controller'', ''init'', sol_Controller_init),
      (''Ve'', ''setAddresses'', sol_Ve_setAddresses),
      (''CommunityIssuance'', ''setAddresses'', sol_Issuance_setAddresses),
      (''SIMVeDistributor'', ''init'', sol_VeDistributor_init),
      (''WSTETHVeDistributor'', ''init'', sol_VeDistributor_init)]"

definition expected_calls :: "(string \<Rightarrow> string) \<Rightarrow> 'c deploy_api \<Rightarrow> call list" where
  "expected_calls adr api =
     map (\<lambda>(D, fn, ps). (adr D, fn, map (\<lambda>p. role_value adr api (param_role D p)) ps)) initialisers"

lemmas sol_defs =
  sol_TroveManager_setAddresses_def sol_BorrowerOperations_setAddresses_def sol_StabilityPool_setAddresses_def
  sol_ActivePool_setAddresses_def sol_DefaultPool_setAddresses_def sol_CollSurplusPool_setAddresses_def
  sol_HintHelpers_setAddresses_def sol_SortedTroves_setParams_def sol_PriceFeed_setAddresses_def
  sol_Ve_setAddresses_def sol_Issuance_setAddresses_def sol_LockupContractFactory_setSHADYTokenAddress_def
  sol_Controller_init_def sol_VeDistributor_init_def sol_ProxyControlled_initProxy_def

section \<open>Running the scripts on the ledger\<close>

text \<open>The deployments of a ledger are the names in \<open>S\<close>, each at its address.\<close>

definition deployed :: "(string \<Rightarrow> string) \<Rightarrow> ledger \<Rightarrow> string set \<Rightarrow> bool" where
  "deployed adr l S \<longleftrightarrow> (\<forall>n. obj_get (lg_deployments l) n = (if n \<in> S then Some (adr n) else None))"

text \<open>No initialising function is called twice on the same contract.\<close>

fun call_key :: "call \<Rightarrow> string \<times> string" where
  "call_key (t, f, args) = (t, f)"

definition initialised_once :: "call list \<Rightarrow> bool" where
  "initialised_once cs \<longleftrightarrow> distinct (map call_key (filter (\<lambda>c. one_shot (snd (call_key c))) cs))"

text \<open>
  \<open>does adr m S S' cs ks r\<close>: where the names in \<open>S\<close> are deployed and the calls \<open>cs\<close> repeat no
  initialisation, \<open>m\<close> returns \<open>r\<close>, leaves the names in \<open>S'\<close> deployed, and has made the calls \<open>cs\<close>
  and created the contracts \<open>ks\<close>.
\<close>

definition does ::
    "(string \<Rightarrow> string) \<Rightarrow> (ledger, chain_error, 'a) io \<Rightarrow> string set \<Rightarrow> string set \<Rightarrow> call list
      \<Rightarrow> (string \<times> deploy_options) list \<Rightarrow> 'a \<Rightarrow> bool" where
  "does adr m S S' cs ks r \<longleftrightarrow>
     (\<forall>l. deployed adr l S \<and> initialised_once (lg_calls l @ cs) \<longrightarrow>
        (\<exists>l'. m l = Some (Inr r, l') \<and> deployed adr l' S'
           \<and> lg_calls l' = lg_calls l @ cs \<and> lg_created l' = lg_created l @ ks))"

lemma doesI:
  "(\<And>l. deployed adr l S \<Longrightarrow> initialised_once (lg_calls l @ cs) \<Longrightarrow>
     \<exists>l'. m l = Some (Inr r, l') \<and> deployed adr l' S' \<and> lg_calls l' = lg_calls l @ cs
        \<and> lg_created l' = lg_created l @ ks) \<Longrightarrow> does adr m S S' cs ks r"
  by (simp add: does_def)

lemma initialised_once_prefix: "initialised_once (xs @ ys) \<Longrightarrow> initialised_once xs"
  by (simp add: initialised_once_def)

lemma does_bind:
  assumes m: "does adr m S S1 cs1 ks1 a" and f: "does adr (f a) S1 S2 cs2 ks2 b"
  shows "does adr (bind_io m f) S S2 (cs1 @ cs2) (ks1 @ ks2) b"
proof (rule doesI)
  fix l
  assume l: "deployed adr l S" "initialised_once (lg_calls l @ cs1 @ cs2)"
  then have "initialised_once (lg_calls l @ cs1)"
    using initialised_once_prefix [of "lg_calls l @ cs1" cs2] by simp
  with l m obtain l1 where l1: "m l = Some (Inr a, l1)" "deployed adr l1 S1"
      "lg_calls l1 = lg_calls l @ cs1" "lg_created l1 = lg_created l @ ks1"
    unfolding does_def by blast
  with l(2) have "initialised_once (lg_calls l1 @ cs2)" by simp
  with l1 f obtain l2 where "f a l1 = Some (Inr b, l2)" "deployed adr l2 S2"
      "lg_calls l2 = lg_calls l1 @ cs2" "lg_created l2 = lg_created l1 @ ks2"
    unfolding does_def by blast
  with l1 show "\<exists>l'. bind_io m f l = Some (Inr b, l') \<and> deployed adr l' S2
      \<and> lg_calls l' = lg_calls l @ cs1 @ cs2 \<and> lg_created l' = lg_created l @ ks1 @ ks2"
    by (simp add: bind_io_def)
qed

lemma does_return: "does adr (return_io a) S S [] [] a"
  by (simp add: does_def)

lemma does_lift: "r = Inr a \<Longrightarrow> does adr (lift_io r) S S [] [] a"
  by (simp add: does_def)

lemma does_get: "n \<in> S \<Longrightarrow> does adr (ledger_get n) S S [] [] (adr n)"
  by (simp add: does_def deployed_def ledger_get_def)

lemma does_deploy:
  "n \<notin> S \<Longrightarrow> does adr (ledger_deploy adr n opts) S (insert n S) [] [(n, opts)] (adr n)"
  by (auto simp: does_def deployed_def ledger_deploy_def obj_get_def map_add_def)

lemma does_send: "does adr (ledger_send t fn args) S S [(t, fn, args)] [] ()"
proof (rule doesI)
  fix l
  assume l: "deployed adr l S" "initialised_once (lg_calls l @ [(t, fn, args)])"
  have "\<not> (one_shot fn \<and> list_ex (\<lambda>(t', f', _). f' = fn \<and> t' = t) (lg_calls l))"
  proof
    assume a: "one_shot fn \<and> list_ex (\<lambda>(t', f', _). f' = fn \<and> t' = t) (lg_calls l)"
    then obtain args' where "(t, fn, args') \<in> set (lg_calls l)" by (auto simp: list_ex_iff)
    then have "(t, fn) \<in> set (map call_key (filter (\<lambda>c. one_shot (snd (call_key c))) (lg_calls l)))"
      using a by force
    with a l(2) show False by (simp add: initialised_once_def)
  qed
  with l show "\<exists>l'. ledger_send t fn args l = Some (Inr (), l') \<and> deployed adr l' S
      \<and> lg_calls l' = lg_calls l @ [(t, fn, args)] \<and> lg_created l' = lg_created l @ []"
    by (simp add: ledger_send_def deployed_def)
qed

lemma does_execute:
  assumes "n \<in> S"
  shows "does adr (ledger_execute n fn args) S S [(adr n, fn, args)] [] ()"
proof -
  have "does adr (ledger_execute n fn args) S S ([] @ [(adr n, fn, args)]) ([] @ []) ()"
    unfolding ledger_execute_def by (rule does_bind does_get does_send assms)+
  then show ?thesis by simp
qed

lemma does_if:
  assumes "b \<Longrightarrow> does adr m S S1 cs1 ks1 r1" and "\<not> b \<Longrightarrow> does adr k S S2 cs2 ks2 r2"
  shows "does adr (if b then m else k) S (if b then S1 else S2) (if b then cs1 else cs2)
    (if b then ks1 else ks2) (if b then r1 else r2)"
  using assms by auto

lemmas does_intros = does_bind does_return does_lift does_get does_deploy does_send does_execute

text \<open>What the building blocks of the scripts do.\<close>

abbreviation opts_of :: "'c deploy_api \<Rightarrow> string \<Rightarrow> val list \<Rightarrow> val obj \<Rightarrow> deploy_options" where
  "opts_of api contract args libs \<equiv>
     \<lparr>do_contract = contract, do_from = acct api ''deployer'', do_args = args, do_libraries = libs,
      do_skipIfAlreadyDeployed = True\<rparr>"

lemma does_deploy_with:
  "n \<notin> S \<Longrightarrow> does adr (deploy_with (ledger_api adr api) n k args libs) S (insert n S) []
     [(n, opts_of api k args libs)] (adr n)"
  by (simp add: deploy_with_def does_deploy)

lemma does_execute_as_deployer:
  "n \<in> S \<Longrightarrow> does adr (execute_as_deployer (ledger_api adr api) n fn args) S S [(adr n, fn, args)] [] ()"
  by (simp add: execute_as_deployer_def does_execute)

lemma does_get_api: "n \<in> S \<Longrightarrow> does adr (da_get (ledger_api adr api) n) S S [] [] (adr n)"
  by (simp add: does_get)

lemma does_send_tx: "does adr (send_tx (ledger_api adr api) t fn args) S S [(t, fn, args)] [] ()"
  by (simp add: does_send)

lemma does_weaken:
  "does adr m S S' cs ks r \<Longrightarrow> cs = cs' \<Longrightarrow> ks = ks' \<Longrightarrow> does adr m S S' cs' ks' r"
  by simp

lemma does_parseUnits:
  "ca_parseUnits (da_chain api) s k = Inr a \<Longrightarrow>
   does adr (lift_io (ca_parseUnits (da_chain (ledger_api adr api)) s k)) S S [] [] a"
  by (simp add: does_lift)

lemmas does_api = does_bind does_return does_parseUnits does_get_api does_deploy_with does_execute_as_deployer does_send_tx

lemma does_deploy_plain:
  "n \<notin> S \<Longrightarrow> does adr (deploy_plain (ledger_api adr api) n k) S (insert n S) [] [(n, opts_of api k [] [])] ()"
  unfolding deploy_plain_def by (rule does_weaken, (rule does_api | assumption)+) simp_all

lemma does_deploy_proxy:
  assumes "n \<notin> S" and "logic \<in> S"
  shows "does adr (deploy_proxy (ledger_api adr api) n logic) S (insert n S)
     [(adr n, ''initProxy'', [VStr (adr logic)])] [(n, opts_of api ''ProxyControlled'' [] [])] ()"
proof -
  have "does adr (deploy_proxy (ledger_api adr api) n logic) S (insert n S)
     ([] @ [] @ [(adr n, ''initProxy'', [VStr (adr logic)])]) ([(n, opts_of api ''ProxyControlled'' [] [])] @ [] @ []) ()"
    unfolding deploy_proxy_def by (rule does_api assms | (simp add: assms; fail))+
  then show ?thesis by simp
qed

text \<open>An account that is the zero address is replaced by a mock that the script deploys.\<close>

definition mocked :: "'c deploy_api \<Rightarrow> string \<Rightarrow> bool" where
  "mocked api name \<longleftrightarrow> acct api name = VStr ZERO_ADDRESS"

definition with_mock :: "'c deploy_api \<Rightarrow> string \<Rightarrow> string \<Rightarrow> string set \<Rightarrow> string set" where
  "with_mock api name mock S = (if mocked api name then insert mock S else S)"

definition mock_calls :: "(string \<Rightarrow> string) \<Rightarrow> 'c deploy_api \<Rightarrow> string \<Rightarrow> string \<Rightarrow> string \<Rightarrow> val list \<Rightarrow> call list" where
  "mock_calls adr api name mock fn args = (if mocked api name then [(adr mock, fn, args)] else [])"

definition mock_created :: "'c deploy_api \<Rightarrow> string \<Rightarrow> string \<Rightarrow> (string \<times> deploy_options) list" where
  "mock_created api name mock = (if mocked api name then [(mock, opts_of api mock [] [])] else [])"

lemma mem_with_mock: "n \<in> with_mock api name mock S \<longleftrightarrow> n \<in> S \<or> mocked api name \<and> n = mock"
  by (auto simp: with_mock_def)

lemma does_pyth_target:
  assumes "''PythMock'' \<notin> S"
  shows "does adr (pyth_target (ledger_api adr api)) S (with_mock api ''pyth'' ''PythMock'' S)
     (mock_calls adr api ''pyth'' ''PythMock'' ''setFeedId'' [feed_id api]) (mock_created api ''pyth'' ''PythMock'')
     (account_or_mock adr api ''pyth'' ''PythMock'')"
proof (cases "mocked api ''pyth''")
  case True
  have "does adr (pyth_target (ledger_api adr api)) S (insert ''PythMock'' S)
     ([] @ [(adr ''PythMock'', ''setFeedId'', [feed_id api])] @ []) ([(''PythMock'', opts_of api ''PythMock'' [] [])] @ [] @ [])
     (VStr (adr ''PythMock''))"
    unfolding pyth_target_def ledger_api_simps if_P [OF True [unfolded mocked_def]]
    by (rule does_api assms | (simp; fail))+
  with True show ?thesis
    by (simp add: with_mock_def mock_calls_def mock_created_def account_or_mock_def mocked_def [symmetric])
next
  case False
  then show ?thesis
    by (simp add: pyth_target_def does_return with_mock_def mock_calls_def mock_created_def account_or_mock_def mocked_def)
qed

lemma does_mock_with_amount:
  assumes "mock \<notin> S" and "ca_parseUnits (da_chain api) ''1'' 18 = Inr one"
  shows "does adr
      (if acct (ledger_api adr api) name = VStr ZERO_ADDRESS
       then bind_io (deploy_with (ledger_api adr api) mock mock [] []) (\<lambda>address.
            bind_io (lift_io (ca_parseUnits (da_chain (ledger_api adr api)) ''1'' 18)) (\<lambda>amount.
            bind_io (execute_as_deployer (ledger_api adr api) mock fn (args amount)) (\<lambda>_.
            return_io (VStr address))))
       else return_io (acct (ledger_api adr api) name)) S (with_mock api name mock S)
     (mock_calls adr api name mock fn (args one)) (mock_created api name mock) (account_or_mock adr api name mock)"
proof (cases "mocked api name")
  case True
  have "does adr
      (bind_io (deploy_with (ledger_api adr api) mock mock [] []) (\<lambda>address.
       bind_io (lift_io (ca_parseUnits (da_chain (ledger_api adr api)) ''1'' 18)) (\<lambda>amount.
       bind_io (execute_as_deployer (ledger_api adr api) mock fn (args amount)) (\<lambda>_.
       return_io (VStr address))))) S (insert mock S)
      ([] @ [] @ [(adr mock, fn, args one)] @ []) ([(mock, opts_of api mock [] [])] @ [] @ [] @ []) (VStr (adr mock))"
    by (rule does_api assms | (simp; fail))+
  with True show ?thesis
    by (simp add: with_mock_def mock_calls_def mock_created_def account_or_mock_def mocked_def)
next
  case False
  then show ?thesis
    by (simp add: does_return with_mock_def mock_calls_def mock_created_def account_or_mock_def mocked_def)
qed

lemmas does_rateReceiver_target =
  does_mock_with_amount [of "''CrossChainRateReceiverMock''" _ _ _ _ "''rateReceiver''" "''setRate''" "\<lambda>r. [VBig r]",
    folded rateReceiver_target_def]

lemma does_wstETH_target:
  assumes "''WSTETHMock'' \<notin> S" and "ca_parseUnits (da_chain api) ''1'' 18 = Inr one"
  shows "does adr (wstETH_target (ledger_api adr api)) S (with_mock api ''wstETH'' ''WSTETHMock'' S)
     (mock_calls adr api ''wstETH'' ''WSTETHMock'' ''mint'' [acct api ''deployer'', VBig one])
     (mock_created api ''wstETH'' ''WSTETHMock'') (account_or_mock adr api ''wstETH'' ''WSTETHMock'')"
  using does_mock_with_amount [OF assms, of adr "''wstETH''" "''mint''" "\<lambda>a. [acct api ''deployer'', VBig a]"]
  by (simp only: wstETH_target_def ledger_api_simps)

text \<open>The scripts.\<close>

lemma does_convert:
  "does adr m S S1 cs1 ks1 r1 \<Longrightarrow> S1 = S' \<Longrightarrow> cs1 = cs' \<Longrightarrow> ks1 = ks' \<Longrightarrow> r1 = r' \<Longrightarrow> does adr m S S' cs' ks' r'"
  by simp

lemma does_deploy_PriceFeed:
  assumes live: "acct api ''api3Proxy'' \<noteq> VStr ZERO_ADDRESS"
    and one: "ca_parseUnits (da_chain api) ''1'' 18 = Inr one"
    and new: "''PriceFeed'' \<notin> S" "''PythMock'' \<notin> S" "''CrossChainRateReceiverMock'' \<notin> S"
  shows "does adr (deploy_PriceFeed (ledger_api adr api)) S
     (with_mock api ''rateReceiver'' ''CrossChainRateReceiverMock'' (with_mock api ''pyth'' ''PythMock'' (insert ''PriceFeed'' S)))
     (mock_calls adr api ''pyth'' ''PythMock'' ''setFeedId'' [feed_id api]
      @ mock_calls adr api ''rateReceiver'' ''CrossChainRateReceiverMock'' ''setRate'' [VBig one]
      @ [(adr ''PriceFeed'', ''setAddresses'',
          [acct api ''api3Proxy'', account_or_mock adr api ''pyth'' ''PythMock'',
           account_or_mock adr api ''rateReceiver'' ''CrossChainRateReceiverMock'', feed_id api])])
     ((''PriceFeed'', opts_of api ''PriceFeed'' [] []) # mock_created api ''pyth'' ''PythMock''
      @ mock_created api ''rateReceiver'' ''CrossChainRateReceiverMock'') ()"
  unfolding deploy_PriceFeed_def ledger_api_simps
    api3_target_live [of "ledger_api adr api", unfolded ledger_api_simps, OF live]
  by (rule does_convert, (rule does_api does_pyth_target does_rateReceiver_target one new
        | (simp add: new mem_with_mock; fail))+)

lemma does_deploy_SIMToken:
  assumes "''SIMToken'' \<notin> S" and "''TroveManager'' \<in> S" "''StabilityPool'' \<in> S" "''BorrowerOperations'' \<in> S"
  shows "does adr (deploy_SIMToken (ledger_api adr api)) S (insert ''SIMToken'' S) []
     [(''SIMToken'', opts_of api ''SIMToken''
        [VStr (adr ''TroveManager''), VStr (adr ''StabilityPool''), VStr (adr ''BorrowerOperations'')] [])] ()"
  unfolding deploy_SIMToken_def by (rule does_convert, (rule does_api assms)+) simp_all

lemma does_deploy_VeLogic:
  assumes "''VeLogic'' \<notin> S" and "''VeLogo'' \<in> S"
  shows "does adr (deploy_VeLogic (ledger_api adr api)) S (insert ''VeLogic'' S) []
     [(''VeLogic'', opts_of api ''Ve'' [] [(''VeLogo'', VStr (adr ''VeLogo''))])] ()"
  unfolding deploy_VeLogic_def by (rule does_convert, (rule does_api assms)+) simp_all

lemma does_deploy_MultiTroveGetter:
  assumes "''MultiTroveGetter'' \<notin> S" and "''TroveManager'' \<in> S" "''SortedTroves'' \<in> S"
  shows "does adr (deploy_MultiTroveGetter (ledger_api adr api)) S (insert ''MultiTroveGetter'' S) []
     [(''MultiTroveGetter'', opts_of api ''MultiTroveGetter'' [VStr (adr ''TroveManager''), VStr (adr ''SortedTroves'')] [])] ()"
  unfolding deploy_MultiTroveGetter_def by (rule does_convert, (rule does_api assms)+) simp_all

text \<open>The table of addresses the last script works with, and the calls it makes.\<close>

definition ledger_wiring :: "(string \<Rightarrow> string) \<Rightarrow> val \<Rightarrow> wiring" where
  "ledger_wiring adr wst =
     \<lparr>wi_wstETH = wst, wi_communityIssuance = adr ''CommunityIssuance'',
      wi_liquidityRewardsIssuance = adr ''LiquidityRewardsIssuance'', wi_ve = adr ''Ve'',
      wi_lockupContractFactory = adr ''LockupContractFactory'', wi_troveManager = adr ''TroveManager'',
      wi_borrowerOperations = adr ''BorrowerOperations'', wi_stabilityPool = adr ''StabilityPool'',
      wi_activePool = adr ''ActivePool'', wi_defaultPool = adr ''DefaultPool'',
      wi_collSurplusPool = adr ''CollSurplusPool'', wi_sortedTroves = adr ''SortedTroves'',
      wi_priceFeed = adr ''PriceFeed'', wi_simToken = adr ''SIMToken'',
      wi_simVeDistributor = adr ''SIMVeDistributor'', wi_wstETHVeDistributor = adr ''WSTETHVeDistributor'',
      wi_controller = adr ''Controller''\<rparr>"

definition wired_names :: "string list" where
  "wired_names =
     [''CommunityIssuance'', ''LiquidityRewardsIssuance'', ''Ve'', ''LockupContractFactory'', ''TroveManager'',
      ''BorrowerOperations'', ''StabilityPool'', ''ActivePool'', ''DefaultPool'', ''CollSurplusPool'', ''SortedTroves'',
      ''PriceFeed'', ''SIMToken'', ''SIMVeDistributor'', ''WSTETHVeDistributor'', ''Controller'', ''HintHelpers'']"

lemma does_read_wiring:
  assumes "set wired_names \<subseteq> S"
  shows "does adr (read_wiring (ledger_api adr api) wst) S S [] [] (ledger_wiring adr wst)"
proof -
  have mem: "n \<in> S" if "n \<in> set wired_names" for n using assms that by blast
  show ?thesis
    unfolding read_wiring_def
    by (rule does_convert, (rule does_api | (rule mem, simp add: wired_names_def; fail))+)
       (simp_all add: ledger_wiring_def)
qed

text \<open>The initialising calls of \<open>expected_calls\<close> from the fifth on.\<close>

lemma does_connect:
  assumes "set wired_names \<subseteq> S"
  shows "does adr (bind_io (connect_core (ledger_api adr api)
        (ledger_wiring adr (account_or_mock adr api ''wstETH'' ''WSTETHMock'')) (adr ''SHADYToken'')) (\<lambda>_.
      connect_shady (ledger_api adr api)
        (ledger_wiring adr (account_or_mock adr api ''wstETH'' ''WSTETHMock'')) (adr ''SHADYToken''))) S S
     (drop 5 (expected_calls adr api)) [] ()"
proof -
  have mem: "n \<in> S" if "n \<in> set wired_names" for n using assms that by blast
  show ?thesis
    unfolding connect_core_def connect_shady_def
    by (rule does_convert, (rule does_api | (rule mem, simp add: wired_names_def; fail))+)
       (simp_all add: ledger_wiring_def expected_calls_def initialisers_def sol_defs param_role_def role_value_def
          maxBytes32_def)
qed

definition deployment_calls :: "(string \<Rightarrow> string) \<Rightarrow> 'c deploy_api \<Rightarrow> int \<Rightarrow> call list" where
  "deployment_calls adr api one =
     mock_calls adr api ''pyth'' ''PythMock'' ''setFeedId'' [feed_id api]
     @ mock_calls adr api ''rateReceiver'' ''CrossChainRateReceiverMock'' ''setRate'' [VBig one]
     @ take 5 (expected_calls adr api)
     @ mock_calls adr api ''wstETH'' ''WSTETHMock'' ''mint'' [acct api ''deployer'', VBig one]
     @ drop 5 (expected_calls adr api)"

lemma does_deploy_SHADYToken:
  assumes names: "set wired_names \<subseteq> S" and net: "da_networkName api \<noteq> ''hardhat''"
    and one: "ca_parseUnits (da_chain api) ''1'' 18 = Inr one"
    and new: "''WSTETHMock'' \<notin> S" "''SHADYToken'' \<notin> S"
  shows "does adr (deploy_SHADYToken (ledger_api adr api)) S
     (insert ''SHADYToken'' (with_mock api ''wstETH'' ''WSTETHMock'' S))
     (mock_calls adr api ''wstETH'' ''WSTETHMock'' ''mint'' [acct api ''deployer'', VBig one]
      @ drop 5 (expected_calls adr api))
     (mock_created api ''wstETH'' ''WSTETHMock''
      @ [(''SHADYToken'', opts_of api ''SHADYToken''
           [VStr (adr ''CommunityIssuance''), VStr (adr ''LiquidityRewardsIssuance''),
            VStr (adr ''LockupContractFactory''), acct api ''spender'', acct api ''multisig''] [])]) ()"
proof -
  let ?L = "ledger_api adr api" and ?wst = "account_or_mock adr api ''wstETH'' ''WSTETHMock''"
  let ?S = "with_mock api ''wstETH'' ''WSTETHMock'' S" and ?wi = "ledger_wiring adr ?wst"
  let ?opts = "opts_of api ''SHADYToken''
           [VStr (adr ''CommunityIssuance''), VStr (adr ''LiquidityRewardsIssuance''),
            VStr (adr ''LockupContractFactory''), acct api ''spender'', acct api ''multisig''] []"
  have sub: "set wired_names \<subseteq> ?S" "set wired_names \<subseteq> insert ''SHADYToken'' ?S"
    using names by (auto simp: mem_with_mock)
  have fresh: "''SHADYToken'' \<notin> ?S" using new by (simp add: mem_with_mock)
  have body: "deploy_SHADYToken ?L = bind_io (wstETH_target ?L) (\<lambda>wst. bind_io (read_wiring ?L wst) (\<lambda>wi.
      bind_io (deploy_with ?L ''SHADYToken'' ''SHADYToken''
                [VStr (wi_communityIssuance wi), VStr (wi_liquidityRewardsIssuance wi),
                 VStr (wi_lockupContractFactory wi), acct ?L ''spender'', acct ?L ''multisig''] []) (\<lambda>shady.
      bind_io (bind_io (connect_core ?L wi shady) (\<lambda>_. connect_shady ?L wi shady)) (\<lambda>_. return_io ()))))"
    unfolding deploy_SHADYToken_def ledger_api_simps if_not_P [OF net]
    by (simp add: fun_eq_iff bind_io_def split: option.splits sum.splits)
  have created: "[VStr (wi_communityIssuance ?wi), VStr (wi_liquidityRewardsIssuance ?wi),
       VStr (wi_lockupContractFactory ?wi), acct ?L ''spender'', acct ?L ''multisig'']
     = [VStr (adr ''CommunityIssuance''), VStr (adr ''LiquidityRewardsIssuance''),
        VStr (adr ''LockupContractFactory''), acct api ''spender'', acct api ''multisig'']"
    by (simp add: ledger_wiring_def)
  show ?thesis
    unfolding body
    by (rule does_convert,
        rule does_bind [OF does_wstETH_target [OF new(1) one]],
        rule does_bind [OF does_read_wiring [OF sub(1)]],
        rule does_bind [OF does_deploy_with [OF fresh]],
        rule does_bind [OF does_connect [OF sub(2)] does_return])
       (simp_all only: created append_Nil append_Nil2 append_Cons)
qed

end
