(* ===== verification/Deployment_Run.thy ===== *)
theory Deployment_Run
  imports Deploy_Scripts
begin

text \<open>
  The run of all the deployment scripts: what it creates and calls on an empty chain, why it cannot
  be repeated, and what the accounts of the configured networks make of it.
\<close>

text \<open>The contracts that the scripts create, in order, each with its constructor arguments and its libraries.\<close>

definition expected_created :: "(string \<Rightarrow> string) \<Rightarrow> 'c deploy_api \<Rightarrow> (string \<times> deploy_options) list" where
  "expected_created adr api =
     (let new = (\<lambda>n contract args. (n, opts_of api contract args []));
          plain = (\<lambda>n. new n n []);
          proxy = (\<lambda>n. new n ''ProxyControlled'' []);
          at = (\<lambda>n. VStr (adr n))
      in map plain [''TroveManager'', ''StabilityPool'', ''BorrowerOperations'', ''ActivePool'', ''DefaultPool'',
           ''CollSurplusPool'', ''HintHelpers'', ''SortedTroves'', ''PriceFeed'']
         @ mock_created api ''pyth'' ''PythMock''
         @ mock_created api ''rateReceiver'' ''CrossChainRateReceiverMock''
         @ [new ''SIMToken'' ''SIMToken'' (map at [''TroveManager'', ''StabilityPool'', ''BorrowerOperations''])]
         @ map plain [''CommunityIssuance'', ''LiquidityRewardsIssuance'', ''LockupContractFactory'', ''VeLogo'']
         @ [(''VeLogic'', opts_of api ''Ve'' [] [(''VeLogo'', at ''VeLogo'')]),
            proxy ''Ve'',
            new ''VeDistributorLogic'' ''VeDistributor'' [],
            proxy ''SIMVeDistributor'',
            proxy ''WSTETHVeDistributor'',
            new ''ControllerLogic'' ''Controller'' [],
            proxy ''Controller'']
         @ mock_created api ''wstETH'' ''WSTETHMock''
         @ [new ''SHADYToken'' ''SHADYToken''
              (map at [''CommunityIssuance'', ''LiquidityRewardsIssuance'', ''LockupContractFactory'']
               @ [acct api ''spender'', acct api ''multisig'']),
            new ''MultiTroveGetter'' ''MultiTroveGetter'' (map at [''TroveManager'', ''SortedTroves''])])"

lemmas plain_script_defs =
  deploy_TroveManager_def deploy_StabilityPool_def deploy_BorrowerOperations_def deploy_ActivePool_def
  deploy_DefaultPool_def deploy_CollSurplusPool_def deploy_HintHelpers_def deploy_SortedTroves_def
  deploy_CommunityIssuance_def deploy_LiquidityRewardsIssuance_def
  deploy_LockupContractFactory_def deploy_VeLogo_def deploy_Ve_def
  deploy_VeDistributorLogic_def deploy_SIMVeDistributor_def deploy_WSTETHVeDistributor_def
  deploy_ControllerLogic_def deploy_Controller_def

lemma first_expected_calls:
  assumes "acct api ''api3Proxy'' \<noteq> VStr ZERO_ADDRESS"
  shows "take 5 (expected_calls adr api) =
     [(adr ''PriceFeed'', ''setAddresses'',
        [acct api ''api3Proxy'', account_or_mock adr api ''pyth'' ''PythMock'',
         account_or_mock adr api ''rateReceiver'' ''CrossChainRateReceiverMock'', feed_id api]),
      (adr ''Ve'', ''initProxy'', [VStr (adr ''VeLogic'')]),
      (adr ''SIMVeDistributor'', ''initProxy'', [VStr (adr ''VeDistributorLogic'')]),
      (adr ''WSTETHVeDistributor'', ''initProxy'', [VStr (adr ''VeDistributorLogic'')]),
      (adr ''Controller'', ''initProxy'', [VStr (adr ''ControllerLogic'')])]"
proof -
  have "account_or_mock adr api ''api3Proxy'' ''Api3ProxyMock'' = acct api ''api3Proxy''"
    using assms by (simp add: account_or_mock_def)
  then show ?thesis
    by (simp add: expected_calls_def initialisers_def sol_PriceFeed_setAddresses_def
          sol_ProxyControlled_initProxy_def param_role_def role_value_def)
qed

lemma does_run_scripts:
  assumes net: "da_networkName api \<noteq> ''hardhat''" and live: "acct api ''api3Proxy'' \<noteq> VStr ZERO_ADDRESS"
    and one: "ca_parseUnits (da_chain api) ''1'' 18 = Inr one"
  shows "\<exists>S. does adr (run_scripts (ledger_api adr api) deploy_scripts) {} S
     (deployment_calls adr api one) (expected_created adr api) ()"
  unfolding deploy_scripts_def script_def run_scripts.simps deploy_script.simps plain_script_defs
  by (rule exI, rule does_convert,
      (rule does_bind does_return does_deploy_plain does_deploy_proxy does_deploy_PriceFeed [OF live one]
         does_deploy_SIMToken does_deploy_VeLogic does_deploy_MultiTroveGetter does_deploy_SHADYToken [OF _ net one]
       | (simp add: mem_with_mock; fail) | (simp add: mem_with_mock wired_names_def; fail))+)
     (simp_all only: deployment_calls_def first_expected_calls [OF live] expected_created_def Let_def
        list.map append_Nil append_Nil2 append_Cons append_assoc)

text \<open>The calls that initialise: the mocks are set up by other functions.\<close>

definition initialising :: "call \<Rightarrow> bool" where
  "initialising c \<longleftrightarrow> one_shot (snd (call_key c))"

lemma expected_calls_initialise: "filter initialising (expected_calls adr api) = expected_calls adr api"
  by (simp add: expected_calls_def initialisers_def initialising_def one_shot_def)

lemma filter_initialising_take: "filter initialising xs = xs \<Longrightarrow> filter initialising (take n xs) = take n xs"
  by (metis filter_True filter_id_conv in_set_takeD)

lemma filter_initialising_drop: "filter initialising xs = xs \<Longrightarrow> filter initialising (drop n xs) = drop n xs"
  by (metis filter_True filter_id_conv in_set_dropD)

lemma deployment_calls_initialise: "filter initialising (deployment_calls adr api one) = expected_calls adr api"
  by (simp add: deployment_calls_def filter_initialising_take filter_initialising_drop expected_calls_initialise)
     (simp add: mock_calls_def initialising_def one_shot_def)

lemma deployment_initialises_once:
  assumes "inj adr"
  shows "initialised_once (deployment_calls adr api one)"
proof -
  have "filter (\<lambda>c. one_shot (snd (call_key c))) (deployment_calls adr api one) = expected_calls adr api"
    using deployment_calls_initialise [of adr api one] unfolding initialising_def .
  moreover have "map call_key (expected_calls adr api) = map (map_prod adr id) (map (\<lambda>(D, fn, _). (D, fn)) initialisers)"
    by (simp add: expected_calls_def split_def)
  moreover have "distinct (map (\<lambda>(D, fn, _). (D, fn)) initialisers)" by (simp add: initialisers_def)
  moreover have "inj (map_prod adr (id :: string \<Rightarrow> string))" using assms by (simp add: prod.inj_map)
  ultimately show ?thesis
    unfolding initialised_once_def by (metis distinct_map inj_on_subset subset_UNIV)
qed

section \<open>The configured networks\<close>

text \<open>
  The accounts as the scripts find them on a network: an index selects one of the signers, which on a
  configured network are the accounts of its entry.
\<close>

definition named_account :: "string \<Rightarrow> string list \<Rightarrow> string \<Rightarrow> string option" where
  "named_account network signers name =
     (case account_on network name of
        Some (AccountAddress a) \<Rightarrow> Some a
      | Some (AccountIndex i) \<Rightarrow> if i < length signers then Some (signers ! i) else None
      | None \<Rightarrow> None)"

definition on_network :: "environment \<Rightarrow> (string \<Rightarrow> string) \<Rightarrow> network_config \<Rightarrow> 'c deploy_api \<Rightarrow> bool" where
  "on_network env address_of n api \<longleftrightarrow>
     n \<in> set (config_networks env) \<and> da_networkName api = nc_name n
     \<and> da_accounts api = named_account (nc_name n) (map address_of (nc_accounts n))"

lemma on_network_live:
  assumes "on_network env address_of n api"
  shows "da_networkName api \<noteq> ''hardhat''" and "acct api ''api3Proxy'' \<noteq> VStr ZERO_ADDRESS"
proof -
  from assms consider "nc_name n = ''zkevm''" | "nc_name n = ''zkevmtestnet''" | "nc_name n = ''goerli''"
    by (auto simp: on_network_def config_networks_def)
  then have "nc_name n \<noteq> ''hardhat'' \<and> named_account (nc_name n) signers ''api3Proxy'' = Some ''0x26690F9f17FdC26D419371315bc17950a0FC90eD''" for signers
    by cases (simp_all add: named_account_def account_on_def namedAccounts_def obj_get_def)
  moreover have "ZERO_ADDRESS \<noteq> ''0x26690F9f17FdC26D419371315bc17950a0FC90eD''" by (simp add: ZERO_ADDRESS_def) code_simp
  ultimately show "da_networkName api \<noteq> ''hardhat''" and "acct api ''api3Proxy'' \<noteq> VStr ZERO_ADDRESS"
    using assms by (simp_all add: on_network_def acct_def)
qed


text \<open>The ledger itself is such an environment, with the accounts of a configured network.\<close>

definition ledger_on :: "string \<Rightarrow> ledger deploy_api" where
  "ledger_on network = ledger_api (\<lambda>n. ''0x'' @ n)
     (\<lparr>da_chain = \<lparr>ca_signers = [], ca_deploy = (\<lambda>_ _ _ _. None), ca_call = (\<lambda>_ _ _ _ _. None),
        ca_view = (\<lambda>_ _ _ _. None), ca_rpc = (\<lambda>_ _ _. None), ca_timestamp = (\<lambda>_. None),
        ca_BigNumber_from = (\<lambda>_. Inr 0), ca_parseUnits = (\<lambda>_ d. Inr (10 ^ d))\<rparr>,
      da_networkName = network, da_accounts = named_account network [''0xdeployer''],
      da_deploy = (\<lambda>_ _ _. None), da_get = (\<lambda>_ _. None), da_execute = (\<lambda>_ _ _ _ _. None)\<rparr> :: ledger deploy_api)"

lemma ledger_on_is_a_ledger: "behaves_like_ledger (\<lambda>n. ''0x'' @ n) (ledger_on network) id"
  by (simp add: behaves_like_ledger_def ledger_on_def sim_def inj_def option.map_id0 prod.map_id0)

lemma ledger_on_network:
  "on_network (\<lambda>_. None) (\<lambda>_. ''0xdeployer'') (config_networks (\<lambda>_. None) ! 0) (ledger_on ''zkevm'')"
  "on_network (\<lambda>_. None) (\<lambda>_. ''0xdeployer'') (config_networks (\<lambda>_. None) ! 1) (ledger_on ''zkevmtestnet'')"
  by (simp_all add: on_network_def ledger_on_def config_networks_def)

lemma ledger_on_parseUnits: "ca_parseUnits (da_chain (ledger_on network)) ''1'' 18 = Inr (10 ^ 18)"
  by (simp add: ledger_on_def)


section \<open>Running the scripts again\<close>

text \<open>
  A ledger on which a deployment has been started: every deployment is at its address, the names in
  \<open>S\<close> are deployed, and \<open>F\<close> are the initialising calls so far.
\<close>

definition started :: "(string \<Rightarrow> string) \<Rightarrow> call list \<Rightarrow> string set \<Rightarrow> ledger \<Rightarrow> bool" where
  "started adr F S l \<longleftrightarrow>
     (\<forall>n. obj_get (lg_deployments l) n = None \<or> obj_get (lg_deployments l) n = Some (adr n))
     \<and> (\<forall>n \<in> S. obj_get (lg_deployments l) n = Some (adr n)) \<and> filter initialising (lg_calls l) = F"

text \<open>Computations that end well and initialise nothing, and computations that revert and initialise nothing.\<close>

definition keeps :: "(string \<Rightarrow> string) \<Rightarrow> call list \<Rightarrow> (ledger, chain_error, 'a) io \<Rightarrow> string set \<Rightarrow> string set \<Rightarrow> bool" where
  "keeps adr F m S S' \<longleftrightarrow>
     (\<forall>l. started adr F S l \<longrightarrow> (\<exists>r l'. m l = Some (Inr r, l') \<and> started adr F S' l'))"

definition reverts :: "(string \<Rightarrow> string) \<Rightarrow> call list \<Rightarrow> (ledger, chain_error, 'a) io \<Rightarrow> string set \<Rightarrow> bool" where
  "reverts adr F m S \<longleftrightarrow>
     (\<forall>l. started adr F S l \<longrightarrow>
        (\<exists>l'. m l = Some (Inl (ChainError ''revert''), l') \<and> filter initialising (lg_calls l') = F))"

lemma keeps_bind: "keeps adr F m S S1 \<Longrightarrow> (\<And>a. keeps adr F (f a) S1 S2) \<Longrightarrow> keeps adr F (bind_io m f) S S2"
  unfolding keeps_def by (fastforce simp: bind_io_def)

lemma keeps_return: "keeps adr F (return_io a) S S"
  and keeps_lift: "r = Inr a \<Longrightarrow> keeps adr F (lift_io r) S S"
  by (simp_all add: keeps_def)

lemma keeps_deploy: "keeps adr F (ledger_deploy adr n opts) S (insert n S)"
  unfolding keeps_def
proof (intro allI impI)
  fix l assume l: "started adr F S l"
  show "\<exists>r l'. ledger_deploy adr n opts l = Some (Inr r, l') \<and> started adr F (insert n S) l'"
  proof (cases "obj_get (lg_deployments l) n")
    case None
    then have "ledger_deploy adr n opts l = Some (Inr (adr n), l\<lparr>lg_deployments := lg_deployments l @ [(n, adr n)],
        lg_created := lg_created l @ [(n, opts)]\<rparr>)"
      by (simp add: ledger_deploy_def)
    moreover have "obj_get (lg_deployments l @ [(n, adr n)]) m = (if m = n then Some (adr n) else obj_get (lg_deployments l) m)" for m
      using None by (simp add: obj_get_def map_add_def split: option.splits)
    ultimately show ?thesis using l by (auto simp: started_def)
  next
    case (Some a)
    with l have "a = adr n" unfolding started_def by (metis option.distinct(1) option.inject)
    with Some have "ledger_deploy adr n opts l = Some (Inr (adr n), l)" by (simp add: ledger_deploy_def)
    moreover have "started adr F (insert n S) l"
      using l Some \<open>a = adr n\<close> by (simp add: started_def)
    ultimately show ?thesis by blast
  qed
qed

lemma keeps_execute:
  assumes "n \<in> S" and "\<not> one_shot fn"
  shows "keeps adr F (ledger_execute n fn args) S S"
  unfolding keeps_def
proof (intro allI impI)
  fix l assume l: "started adr F S l"
  let ?l = "l\<lparr>lg_calls := lg_calls l @ [(adr n, fn, args)]\<rparr>"
  have "ledger_execute n fn args l = Some (Inr (), ?l)"
    using l assms by (simp add: started_def ledger_execute_def bind_io_def ledger_get_def ledger_send_def)
  moreover have "started adr F S ?l" using l assms(2) by (simp add: started_def initialising_def)
  ultimately show "\<exists>r l'. ledger_execute n fn args l = Some (Inr r, l') \<and> started adr F S l'" by blast
qed

lemma reverts_first:
  assumes "reverts adr F m S"
  shows "reverts adr F (bind_io m f) S"
  unfolding reverts_def
proof (intro allI impI)
  fix l assume "started adr F S l"
  with assms obtain l' where "m l = Some (Inl (ChainError ''revert''), l')" "filter initialising (lg_calls l') = F"
    unfolding reverts_def by blast
  then show "\<exists>l'. bind_io m f l = Some (Inl (ChainError ''revert''), l') \<and> filter initialising (lg_calls l') = F"
    by (simp add: bind_io_def)
qed

lemma reverts_later:
  assumes "keeps adr F m S S1" and "\<And>a. reverts adr F (f a) S1"
  shows "reverts adr F (bind_io m f) S"
  unfolding reverts_def
proof (intro allI impI)
  fix l assume "started adr F S l"
  with assms(1) obtain r l1 where "m l = Some (Inr r, l1)" "started adr F S1 l1"
    unfolding keeps_def by blast
  with assms(2) [of r, unfolded reverts_def]
  show "\<exists>l'. bind_io m f l = Some (Inl (ChainError ''revert''), l') \<and> filter initialising (lg_calls l') = F"
    by (simp add: bind_io_def)
qed

lemma reverts_execute:
  assumes "n \<in> S" and "one_shot fn" and "(adr n, fn, args') \<in> set F"
  shows "reverts adr F (ledger_execute n fn args) S"
  unfolding reverts_def
proof (intro allI impI)
  fix l assume l: "started adr F S l"
  with assms have "(adr n, fn, args') \<in> set (lg_calls l)" by (auto simp: started_def)
  then have "list_ex (\<lambda>(t, f, _). f = fn \<and> t = adr n) (lg_calls l)" by (force simp: list_ex_iff)
  with l assms show "\<exists>l'. ledger_execute n fn args l = Some (Inl (ChainError ''revert''), l')
      \<and> filter initialising (lg_calls l') = F"
    by (simp add: started_def ledger_execute_def bind_io_def ledger_get_def ledger_send_def)
qed

lemma keeps_deploy_with: "keeps adr F (deploy_with (ledger_api adr api) n k args libs) S (insert n S)"
  by (simp add: deploy_with_def keeps_deploy)

lemma keeps_execute_as_deployer:
  "n \<in> S \<Longrightarrow> \<not> one_shot fn \<Longrightarrow> keeps adr F (execute_as_deployer (ledger_api adr api) n fn args) S S"
  by (simp add: execute_as_deployer_def keeps_execute)

lemma started_subset: "started adr F S1 l \<Longrightarrow> S2 \<subseteq> S1 \<Longrightarrow> started adr F S2 l"
  by (simp add: started_def subset_iff)

lemma keeps_subset: "keeps adr F m S S1 \<Longrightarrow> S2 \<subseteq> S1 \<Longrightarrow> keeps adr F m S S2"
  unfolding keeps_def by (meson started_subset)

lemma keeps_targets:
  assumes "ca_parseUnits (da_chain api) ''1'' 18 = Inr one"
  shows "keeps adr F (pyth_target (ledger_api adr api)) S S"
    and "keeps adr F (rateReceiver_target (ledger_api adr api)) S S"
proof -
  have "keeps adr F (bind_io (deploy_with (ledger_api adr api) ''PythMock'' ''PythMock'' [] []) (\<lambda>address.
      bind_io (execute_as_deployer (ledger_api adr api) ''PythMock'' ''setFeedId'' args) (\<lambda>_. return_io (g address))))
      S (insert ''PythMock'' S)" for args and g :: "string \<Rightarrow> val"
    by (rule keeps_bind keeps_deploy_with keeps_execute_as_deployer keeps_return | simp add: one_shot_def)+
  then show "keeps adr F (pyth_target (ledger_api adr api)) S S"
    unfolding pyth_target_def by (auto intro: keeps_return keeps_subset)
  have "keeps adr F (bind_io (deploy_with (ledger_api adr api) ''CrossChainRateReceiverMock'' ''CrossChainRateReceiverMock'' [] []) (\<lambda>address.
      bind_io (lift_io (ca_parseUnits (da_chain (ledger_api adr api)) ''1'' 18)) (\<lambda>rate.
      bind_io (execute_as_deployer (ledger_api adr api) ''CrossChainRateReceiverMock'' ''setRate'' [VBig rate]) (\<lambda>_. return_io (g address)))))
      S (insert ''CrossChainRateReceiverMock'' S)" for g :: "string \<Rightarrow> val"
    by (rule keeps_bind keeps_deploy_with keeps_lift keeps_execute_as_deployer keeps_return | simp add: one_shot_def assms)+
  then show "keeps adr F (rateReceiver_target (ledger_api adr api)) S S"
    unfolding rateReceiver_target_def by (auto intro: keeps_return keeps_subset)
qed

lemma keeps_deploy_plain: "keeps adr F (deploy_plain (ledger_api adr api) n k) S (insert n S)"
  unfolding deploy_plain_def by (rule keeps_bind keeps_deploy_with keeps_return)+

lemma deploy_PriceFeed_reverts:
  assumes "acct api ''api3Proxy'' \<noteq> VStr ZERO_ADDRESS" and "ca_parseUnits (da_chain api) ''1'' 18 = Inr one"
    and "(adr ''PriceFeed'', ''setAddresses'', args) \<in> set F"
  shows "reverts adr F (deploy_PriceFeed (ledger_api adr api)) S"
  unfolding deploy_PriceFeed_def api3_target_live [of "ledger_api adr api", unfolded ledger_api_simps, OF assms(1)]
    execute_as_deployer_def ledger_api_simps
  by (rule reverts_later reverts_execute assms keeps_targets keeps_deploy_with keeps_return | simp add: one_shot_def)+

lemma run_scripts_reverts:
  assumes "acct api ''api3Proxy'' \<noteq> VStr ZERO_ADDRESS" and "ca_parseUnits (da_chain api) ''1'' 18 = Inr one"
    and "(adr ''PriceFeed'', ''setAddresses'', args) \<in> set F"
  shows "reverts adr F (run_scripts (ledger_api adr api) deploy_scripts) S"
proof -
  have split: "run_scripts api' deploy_scripts = bind_io (ds_func (deploy_scripts ! 0) api') (\<lambda>_.
      bind_io (ds_func (deploy_scripts ! 1) api') (\<lambda>_. bind_io (ds_func (deploy_scripts ! 2) api') (\<lambda>_.
      bind_io (ds_func (deploy_scripts ! 3) api') (\<lambda>_. bind_io (ds_func (deploy_scripts ! 4) api') (\<lambda>_.
      bind_io (ds_func (deploy_scripts ! 5) api') (\<lambda>_. bind_io (ds_func (deploy_scripts ! 6) api') (\<lambda>_.
      bind_io (ds_func (deploy_scripts ! 7) api') (\<lambda>_. bind_io (deploy_PriceFeed api') (\<lambda>_.
      run_scripts api' (drop 9 deploy_scripts))))))))))" for api' :: "ledger deploy_api"
    by (simp add: deploy_scripts_def script_def eval_nat_numeral)
  have plain: "keeps adr F (ds_func (deploy_scripts ! i) (ledger_api adr api)) T
      (insert (hd (ds_tags (deploy_scripts ! i :: ledger deploy_script))) T)" if "i < 8" for i T
  proof -
    from that consider "i = 0" | "i = 1" | "i = 2" | "i = 3" | "i = 4" | "i = 5" | "i = 6" | "i = 7" by linarith
    then show ?thesis
      by cases (simp_all add: deploy_scripts_def script_def plain_script_defs keeps_deploy_plain)
  qed
  show ?thesis
    unfolding split
    by ((rule reverts_later, rule plain, simp)+, rule reverts_first, rule deploy_PriceFeed_reverts, (fact assms)+)
qed

text \<open>
  A deployment cannot be resumed. Once the price feed has been initialised, running the scripts
  again ends with a revert at its script, whatever was deployed in between, and no further contract
  is initialised: the options \<open>skipIfAlreadyDeployed\<close> spare the deployments, but nothing spares the
  calls of \<open>setAddresses\<close>.
\<close>

theorem scripts_cannot_be_resumed:
  assumes "behaves_like_ledger adr api \<alpha>" and "on_network env address_of n api"
    and "ca_parseUnits (da_chain api) ''1'' 18 = Inr one"
    and "\<And>m a. obj_get (lg_deployments (\<alpha> c)) m = Some a \<Longrightarrow> a = adr m"
    and "(adr ''PriceFeed'', ''setAddresses'', args) \<in> set (lg_calls (\<alpha> c))"
  shows "\<exists>c'. run_scripts api deploy_scripts c = Some (Inl (ChainError ''revert''), c')
     \<and> filter initialising (lg_calls (\<alpha> c')) = filter initialising (lg_calls (\<alpha> c))"
proof -
  let ?F = "filter initialising (lg_calls (\<alpha> c))"
  have "obj_get (lg_deployments (\<alpha> c)) m = None \<or> obj_get (lg_deployments (\<alpha> c)) m = Some (adr m)" for m
    using assms(4) [of m] by (cases "obj_get (lg_deployments (\<alpha> c)) m") auto
  then have "started adr ?F {} (\<alpha> c)" by (simp add: started_def)
  moreover have "(adr ''PriceFeed'', ''setAddresses'', args) \<in> set ?F"
    using assms(5) by (simp add: initialising_def one_shot_def)
  ultimately obtain l where l: "run_scripts (ledger_api adr api) deploy_scripts (\<alpha> c) = Some (Inl (ChainError ''revert''), l)"
      "filter initialising (lg_calls l) = ?F"
    using run_scripts_reverts [OF on_network_live(2) [OF assms(2)] assms(3)] unfolding reverts_def by blast
  have "map_option (map_prod id \<alpha>) (run_scripts api deploy_scripts c) = Some (Inl (ChainError ''revert''), l)"
    using scripts_simulated [OF assms(1) on_network_live [OF assms(2)]] l(1) unfolding sim_def by metis
  with l(2) show ?thesis by auto
qed

theorem scripts_cannot_be_resumed_witness:
  "\<exists>l. run_scripts (ledger_on ''zkevmtestnet'') deploy_scripts (empty_ledger\<lparr>lg_calls := [(''0xPriceFeed'', ''setAddresses'', [])]\<rparr>)
     = Some (Inl (ChainError ''revert''), l)"
  using scripts_cannot_be_resumed [OF ledger_on_is_a_ledger ledger_on_network(2) ledger_on_parseUnits,
      of "empty_ledger\<lparr>lg_calls := [(''0xPriceFeed'', ''setAddresses'', [])]\<rparr>" "[]"]
  by (auto simp: empty_ledger_def obj_get_def)

text \<open>
  The multisig is missing on the main network. Its entry there is the third signer, but a
  configured network has one private key: on \<open>zkevm\<close>, and on no other configured network, the account
  is undefined, and so is the receiver of the fees that \<open>BorrowerOperations\<close> is given, and the
  governance that the controller is given.
\<close>

theorem multisig_undefined_on_zkevm:
  assumes "on_network env address_of n api"
  shows "(acct api ''multisig'' = VUndef) = (nc_name n = ''zkevm'')
     \<and> ((adr ''Controller'', ''init'', [VUndef]) \<in> set (expected_calls adr api)) = (nc_name n = ''zkevm'')
     \<and> (\<exists>args. (adr ''BorrowerOperations'', ''setAddresses'', args @ [acct api ''multisig'']) \<in> set (expected_calls adr api))"
proof (intro conjI)
  have accounts: "da_accounts api = named_account (nc_name n) [address_of (PRIVATE_KEY env)]"
    using assms by (auto simp: on_network_def config_networks_def)
  from assms consider "nc_name n = ''zkevm''" | "nc_name n = ''zkevmtestnet''" | "nc_name n = ''goerli''"
    by (auto simp: on_network_def config_networks_def)
  then show multisig: "(acct api ''multisig'' = VUndef) = (nc_name n = ''zkevm'')"
    by cases (simp_all add: acct_def accounts named_account_def account_on_def namedAccounts_def obj_get_def)
  show "((adr ''Controller'', ''init'', [VUndef]) \<in> set (expected_calls adr api)) = (nc_name n = ''zkevm'')"
    unfolding multisig [symmetric]
    by (simp add: expected_calls_def initialisers_def sol_Controller_init_def sol_VeDistributor_init_def param_role_def role_value_def)
       (rule eq_commute)
  have "expected_calls adr api ! 7 = (adr ''BorrowerOperations'', ''setAddresses'',
      map (\<lambda>p. role_value adr api (param_role ''BorrowerOperations'' p)) (butlast sol_BorrowerOperations_setAddresses)
      @ [acct api ''multisig''])"
    by (simp add: expected_calls_def initialisers_def sol_BorrowerOperations_setAddresses_def param_role_def role_value_def)
  moreover have "7 < length (expected_calls adr api)" by (simp add: expected_calls_def initialisers_def)
  ultimately show "\<exists>args. (adr ''BorrowerOperations'', ''setAddresses'', args @ [acct api ''multisig'']) \<in> set (expected_calls adr api)"
    by (metis nth_mem)
qed

theorem multisig_undefined_on_zkevm_witness:
  "acct (ledger_on ''zkevm'') ''multisig'' = VUndef
   \<and> (''0xController'', ''init'', [VUndef]) \<in> set (expected_calls (\<lambda>n. ''0x'' @ n) (ledger_on ''zkevm''))"
  using multisig_undefined_on_zkevm [OF ledger_on_network(1), of "\<lambda>n. ''0x'' @ n"] by (simp add: config_networks_def)

end
