(* ===== verification/Deployment_Helper.thy ===== *)
theory Deployment_Helper
  imports Deploy_Scripts "HOL-Library.Multiset"
begin

text \<open>
  The fixture of the tests (\<open>utils/DeploymentHelper.ts\<close>): it deploys the system on the in-process
  network, with testers in place of some of the contracts, and connects it. The main theorem says
  that it connects the contracts the way the deployment scripts do.
\<close>

section \<open>The helper\<close>

definition deploy_new :: "'c chain_api \<Rightarrow> string \<Rightarrow> val list \<Rightarrow> ('c, chain_error, string) io" where
  "deploy_new api contract args = ca_deploy api contract [] args"

definition await_call :: "'c chain_api \<Rightarrow> string \<Rightarrow> string \<Rightarrow> val list \<Rightarrow> ('c, chain_error, unit) io" where
  "await_call api target fn args = bind_io (ca_call api None target fn args) (\<lambda>_. return_io ())"

text \<open>A proxy with its logic, and its address.\<close>

definition new_proxy :: "'c chain_api \<Rightarrow> string \<Rightarrow> ('c, chain_error, string) io" where
  "new_proxy api logic =
     bind_io (deploy_new api ''ProxyControlled'' []) (\<lambda>proxy.
     bind_io (await_call api proxy ''initProxy'' [VStr logic]) (\<lambda>_.
     return_io proxy))"

definition deploySHADY :: "'c chain_api \<Rightarrow> string \<Rightarrow> string \<Rightarrow> ('c, chain_error, shady_contracts) io" where
  "deploySHADY api bountyAddress multisigAddress =
     bind_io (deploy_new api ''CommunityIssuanceTester'' []) (\<lambda>communityIssuance.
     bind_io (deploy_new api ''LiquidityRewardsIssuance'' []) (\<lambda>liquidityRewardsIssuance.
     bind_io (deploy_new api ''LockupContractFactory'' []) (\<lambda>lockupContractFactory.
     bind_io (deploy_new api ''VeLogo'' []) (\<lambda>veLogoLib.
     bind_io (ca_deploy api ''VeTester'' [(''VeLogo'', veLogoLib)] []) (\<lambda>veLogic.
     bind_io (deploy_new api ''VeDistributor'' []) (\<lambda>veDistributorLogic.
     bind_io (deploy_new api ''Controller'' []) (\<lambda>controllerLogic.
     bind_io (new_proxy api controllerLogic) (\<lambda>controller.
     bind_io (new_proxy api veLogic) (\<lambda>ve.
     bind_io (new_proxy api veDistributorLogic) (\<lambda>simVeDistributor.
     bind_io (new_proxy api veDistributorLogic) (\<lambda>wstETHVeDistributor.
     bind_io (deploy_new api ''SHADYTokenTester''
                [VStr communityIssuance, VStr liquidityRewardsIssuance, VStr lockupContractFactory,
                 VStr bountyAddress, VStr multisigAddress]) (\<lambda>shadyToken.
     return_io
       \<lparr>s_shadyToken = shadyToken, s_communityIssuance = communityIssuance,
        s_liquidityRewardsIssuance = liquidityRewardsIssuance, s_lockupContractFactory = lockupContractFactory,
        s_multisigAddress = multisigAddress, s_controller = controller, s_ve = ve,
        s_simVeDistributor = simVeDistributor, s_wstETHVeDistributor = wstETHVeDistributor\<rparr>))))))))))))"

definition connectSHADYContracts :: "'c chain_api \<Rightarrow> shady_contracts \<Rightarrow> ('c, chain_error, unit) io" where
  "connectSHADYContracts api s =
     bind_io (await_call api (s_lockupContractFactory s) ''setSHADYTokenAddress'' [VStr (s_shadyToken s)]) (\<lambda>_.
     await_call api (s_controller s) ''init'' [VStr (s_multisigAddress s)])"

definition deployCore :: "'c chain_api \<Rightarrow> ('c, chain_error, contracts) io" where
  "deployCore api =
     bind_io (deploy_new api ''TroveManager'' []) (\<lambda>troveManager.
     bind_io (deploy_new api ''StabilityPool'' []) (\<lambda>stabilityPool.
     bind_io (deploy_new api ''BorrowerOperations'' []) (\<lambda>borrowerOperations.
     bind_io (deploy_new api ''ActivePool'' []) (\<lambda>activePool.
     bind_io (deploy_new api ''DefaultPool'' []) (\<lambda>defaultPool.
     bind_io (deploy_new api ''CollSurplusPool'' []) (\<lambda>collSurplusPool.
     bind_io (deploy_new api ''HintHelpers'' []) (\<lambda>hintHelpers.
     bind_io (deploy_new api ''SortedTroves'' []) (\<lambda>sortedTroves.
     bind_io (deploy_new api ''PriceFeedMock'' []) (\<lambda>priceFeedMock.
     bind_io (deploy_new api ''SIMToken'' [VStr troveManager, VStr stabilityPool, VStr borrowerOperations]) (\<lambda>simToken.
     bind_io (deploy_new api ''WSTETHMock'' []) (\<lambda>wstETHMock.
     return_io
       \<lparr>c_troveManager = troveManager, c_borrowerOperations = borrowerOperations, c_activePool = activePool,
        c_stabilityPool = stabilityPool, c_defaultPool = defaultPool, c_collSurplusPool = collSurplusPool,
        c_simToken = simToken, c_priceFeedMock = priceFeedMock, c_sortedTroves = sortedTroves,
        c_hintHelpers = hintHelpers, c_wstETHMock = wstETHMock\<rparr>)))))))))))"

definition connectCoreContracts ::
    "'c chain_api \<Rightarrow> contracts \<Rightarrow> shady_contracts \<Rightarrow> string \<Rightarrow> ('c, chain_error, unit) io" where
  "connectCoreContracts api c s feeReceiver =
     bind_io (await_call api (c_sortedTroves c) ''setParams''
       [VStr (''0x'' @ js_repeat (CHR ''f'') 64), VStr (c_troveManager c), VStr (c_borrowerOperations c)]) (\<lambda>_.
     bind_io (await_call api (c_troveManager c) ''setAddresses''
       [VStr (c_borrowerOperations c), VStr (c_activePool c), VStr (c_defaultPool c), VStr (c_stabilityPool c),
        VStr (c_collSurplusPool c), VStr (c_priceFeedMock c), VStr (c_simToken c), VStr (c_sortedTroves c),
        VStr (s_shadyToken s), VStr (s_wstETHVeDistributor s)]) (\<lambda>_.
     bind_io (await_call api (c_borrowerOperations c) ''setAddresses''
       [VStr (c_wstETHMock c), VStr (c_troveManager c), VStr (c_activePool c), VStr (c_defaultPool c),
        VStr (c_stabilityPool c), VStr (c_collSurplusPool c), VStr (c_priceFeedMock c), VStr (c_sortedTroves c),
        VStr (c_simToken c), VStr (s_simVeDistributor s), VStr feeReceiver]) (\<lambda>_.
     bind_io (await_call api (c_stabilityPool c) ''setAddresses''
       [VStr (c_wstETHMock c), VStr (c_borrowerOperations c), VStr (c_troveManager c), VStr (c_activePool c),
        VStr (c_simToken c), VStr (c_sortedTroves c), VStr (c_priceFeedMock c), VStr (s_communityIssuance s)]) (\<lambda>_.
     bind_io (await_call api (c_activePool c) ''setAddresses''
       [VStr (c_wstETHMock c), VStr (c_borrowerOperations c), VStr (c_troveManager c), VStr (c_stabilityPool c),
        VStr (c_defaultPool c), VStr (c_collSurplusPool c)]) (\<lambda>_.
     bind_io (await_call api (c_defaultPool c) ''setAddresses''
       [VStr (c_wstETHMock c), VStr (c_troveManager c), VStr (c_activePool c)]) (\<lambda>_.
     bind_io (await_call api (c_collSurplusPool c) ''setAddresses''
       [VStr (c_wstETHMock c), VStr (c_borrowerOperations c), VStr (c_troveManager c), VStr (c_activePool c)]) (\<lambda>_.
     await_call api (c_hintHelpers c) ''setAddresses'' [VStr (c_sortedTroves c), VStr (c_troveManager c)])))))))"

definition connectSHADYContractsToCore ::
    "'c chain_api \<Rightarrow> shady_contracts \<Rightarrow> contracts \<Rightarrow> ('c, chain_error, unit) io" where
  "connectSHADYContractsToCore api s c =
     bind_io (await_call api (s_ve s) ''setAddresses''
       [VStr (c_troveManager c), VStr (c_borrowerOperations c), VStr (s_shadyToken s), VStr (s_controller s)]) (\<lambda>_.
     bind_io (await_call api (s_communityIssuance s) ''setAddresses''
       [VStr (s_shadyToken s), VStr (c_stabilityPool c)]) (\<lambda>_.
     bind_io (await_call api (s_simVeDistributor s) ''init''
       [VStr (s_controller s), VStr (s_ve s), VStr (c_simToken c)]) (\<lambda>_.
     await_call api (s_wstETHVeDistributor s) ''init''
       [VStr (s_controller s), VStr (s_ve s), VStr (c_wstETHMock c)])))"

record fixture =
  fx_contracts :: contracts
  fx_shadyContracts :: shady_contracts
  fx_signers :: "string list"
  fx_bountyAddress :: string
  fx_lpRewardsAddress :: string
  fx_multisig :: string

text \<open>\<open>signers[i].address\<close>.\<close>

definition signer_address :: "'c chain_api \<Rightarrow> nat \<Rightarrow> chain_error + string" where
  "signer_address api i =
     (case signer_at api i of
        Some a \<Rightarrow> Inr a
      | None \<Rightarrow> Inl (ChainTypeError ''Cannot read properties of undefined (reading address)''))"

definition deployFixture :: "'c chain_api \<Rightarrow> ('c, chain_error, fixture) io" where
  "deployFixture api =
     bind_io (lift_io (signer_address api 17)) (\<lambda>bountyAddress.
     bind_io (lift_io (signer_address api 18)) (\<lambda>feeReceiverAddress.
     bind_io (lift_io (signer_address api 19)) (\<lambda>multisig.
     bind_io (deployCore api) (\<lambda>core.
     bind_io (deploy_new api ''TroveManagerTester'' []) (\<lambda>troveManager.
     bind_io (deploy_new api ''BorrowerOperationsTester'' []) (\<lambda>borrowerOperations.
     bind_io (deploy_new api ''SIMTokenTester''
                [VStr troveManager, VStr (c_stabilityPool core), VStr borrowerOperations]) (\<lambda>simToken.
     let contracts = core\<lparr>c_troveManager := troveManager, c_borrowerOperations := borrowerOperations,
                          c_simToken := simToken\<rparr>
     in bind_io (deploySHADY api bountyAddress multisig) (\<lambda>shadyContracts.
        bind_io (connectSHADYContracts api shadyContracts) (\<lambda>_.
        bind_io (connectCoreContracts api contracts shadyContracts feeReceiverAddress) (\<lambda>_.
        bind_io (connectSHADYContractsToCore api shadyContracts contracts) (\<lambda>_.
        bind_io (mintWSTETH api (c_wstETHMock contracts) (ca_signers api)) (\<lambda>_.
        return_io
          \<lparr>fx_contracts = contracts, fx_shadyContracts = shadyContracts, fx_signers = ca_signers api,
           fx_bountyAddress = bountyAddress, fx_lpRewardsAddress = feeReceiverAddress, fx_multisig = multisig\<rparr>))))))))))))"

section \<open>A chain that keeps a log\<close>

text \<open>
  What the fixture relies on: the chain records the contracts it creates and the calls it executes,
  a new contract has an address of its own, a call succeeds, and only a call that initialises a
  contract a second time may not. The log is an abstraction \<open>\<alpha>\<close> of the state of the chain.
\<close>

record chain_log =
  lo_created :: "(string \<times> string obj \<times> val list) list"
  lo_calls :: "call list"

definition keeps_log :: "'c chain_api \<Rightarrow> (nat \<Rightarrow> string) \<Rightarrow> ('c \<Rightarrow> chain_log) \<Rightarrow> bool" where
  "keeps_log api adr \<alpha> \<longleftrightarrow>
     inj adr
     \<and> (\<forall>contract libs args c. \<exists>c'. ca_deploy api contract libs args c = Some (Inr (adr (length (lo_created (\<alpha> c)))), c')
          \<and> \<alpha> c' = (\<alpha> c)\<lparr>lo_created := lo_created (\<alpha> c) @ [(contract, libs, args)]\<rparr>)
     \<and> (\<forall>from t fn args c. initialised_once (lo_calls (\<alpha> c) @ [(t, fn, args)]) \<longrightarrow>
          (\<exists>r c'. ca_call api from t fn args c = Some (Inr r, c')
             \<and> \<alpha> c' = (\<alpha> c)\<lparr>lo_calls := lo_calls (\<alpha> c) @ [(t, fn, args)]\<rparr>))"

text \<open>
  \<open>logs \<alpha> m k k' cs r\<close>: on a chain with \<open>k\<close> contracts, \<open>m\<close> makes the calls \<open>cs\<close>, returns \<open>r\<close> and
  leaves \<open>k'\<close> contracts, provided that the calls initialise nothing twice.
\<close>

definition logs :: "('c \<Rightarrow> chain_log) \<Rightarrow> ('c, chain_error, 'a) io \<Rightarrow> nat \<Rightarrow> nat \<Rightarrow> call list \<Rightarrow> 'a \<Rightarrow> bool" where
  "logs \<alpha> m k k' cs r \<longleftrightarrow>
     (\<forall>c. length (lo_created (\<alpha> c)) = k \<and> initialised_once (lo_calls (\<alpha> c) @ cs) \<longrightarrow>
        (\<exists>c'. m c = Some (Inr r, c') \<and> length (lo_created (\<alpha> c')) = k' \<and> lo_calls (\<alpha> c') = lo_calls (\<alpha> c) @ cs))"

lemma logs_return: "logs \<alpha> (return_io a) k k [] a"
  and logs_lift: "r = Inr a \<Longrightarrow> logs \<alpha> (lift_io r) k k [] a"
  by (simp_all add: logs_def)

lemma logs_bind:
  assumes "logs \<alpha> m k k1 cs1 a" and "logs \<alpha> (f a) k1 k2 cs2 b"
  shows "logs \<alpha> (bind_io m f) k k2 (cs1 @ cs2) b"
  unfolding logs_def
proof (intro allI impI, elim conjE)
  fix c
  assume c: "length (lo_created (\<alpha> c)) = k" "initialised_once (lo_calls (\<alpha> c) @ cs1 @ cs2)"
  then have "initialised_once (lo_calls (\<alpha> c) @ cs1)"
    using initialised_once_prefix [of "lo_calls (\<alpha> c) @ cs1" cs2] by simp
  with c assms(1) obtain c1 where c1: "m c = Some (Inr a, c1)" "length (lo_created (\<alpha> c1)) = k1"
      "lo_calls (\<alpha> c1) = lo_calls (\<alpha> c) @ cs1"
    unfolding logs_def by blast
  with c(2) have "initialised_once (lo_calls (\<alpha> c1) @ cs2)" by simp
  with c1(2) assms(2) obtain c2 where "f a c1 = Some (Inr b, c2)" "length (lo_created (\<alpha> c2)) = k2"
      "lo_calls (\<alpha> c2) = lo_calls (\<alpha> c1) @ cs2"
    unfolding logs_def by blast
  with c1 show "\<exists>c'. bind_io m f c = Some (Inr b, c') \<and> length (lo_created (\<alpha> c')) = k2
      \<and> lo_calls (\<alpha> c') = lo_calls (\<alpha> c) @ cs1 @ cs2"
    by (simp add: bind_io_def)
qed

lemma logs_convert:
  "logs \<alpha> m k k1 cs1 r1 \<Longrightarrow> k1 = k' \<Longrightarrow> cs1 = cs \<Longrightarrow> r1 = r \<Longrightarrow> logs \<alpha> m k k' cs r"
  by simp

lemma logs_deploy:
  assumes "keeps_log api adr \<alpha>"
  shows "logs \<alpha> (ca_deploy api contract libs args) k (Suc k) [] (adr k)"
  unfolding logs_def
proof (intro allI impI, elim conjE)
  fix c assume "length (lo_created (\<alpha> c)) = k"
  with assms obtain c' where "ca_deploy api contract libs args c = Some (Inr (adr k), c')"
      "\<alpha> c' = (\<alpha> c)\<lparr>lo_created := lo_created (\<alpha> c) @ [(contract, libs, args)]\<rparr>"
    unfolding keeps_log_def by blast
  with \<open>length (lo_created (\<alpha> c)) = k\<close>
  show "\<exists>c'. ca_deploy api contract libs args c = Some (Inr (adr k), c') \<and> length (lo_created (\<alpha> c')) = Suc k
      \<and> lo_calls (\<alpha> c') = lo_calls (\<alpha> c) @ []"
    by simp
qed

lemma logs_await_call:
  assumes "keeps_log api adr \<alpha>"
  shows "logs \<alpha> (await_call api t fn args) k k [(t, fn, args)] ()"
  unfolding logs_def
proof (intro allI impI, elim conjE)
  fix c assume c: "length (lo_created (\<alpha> c)) = k" "initialised_once (lo_calls (\<alpha> c) @ [(t, fn, args)])"
  with assms obtain r c' where "ca_call api None t fn args c = Some (Inr r, c')"
      "\<alpha> c' = (\<alpha> c)\<lparr>lo_calls := lo_calls (\<alpha> c) @ [(t, fn, args)]\<rparr>"
    unfolding keeps_log_def by blast
  with c show "\<exists>c'. await_call api t fn args c = Some (Inr (), c') \<and> length (lo_created (\<alpha> c')) = k
      \<and> lo_calls (\<alpha> c') = lo_calls (\<alpha> c) @ [(t, fn, args)]"
    by (simp add: await_call_def bind_io_def)
qed

lemma logs_new_proxy:
  assumes "keeps_log api adr \<alpha>"
  shows "logs \<alpha> (new_proxy api logic) k (Suc k) [(adr k, ''initProxy'', [VStr logic])] (adr k)"
  unfolding new_proxy_def deploy_new_def
  by (rule logs_convert, (rule logs_bind logs_return logs_deploy [OF assms] logs_await_call [OF assms])+) simp_all

lemma bind_await_call: "bind_io (await_call api t fn args) (\<lambda>_. m) = bind_io (ca_call api None t fn args) (\<lambda>_. m)"
  by (simp add: await_call_def fun_eq_iff bind_io_def split: option.splits sum.splits)

lemma logs_mintWSTETH:
  assumes "keeps_log api adr \<alpha>" and "ca_parseUnits api ''1000'' 30 = Inr amount"
  shows "logs \<alpha> (mintWSTETH api w accounts) k k (map (\<lambda>a. (w, ''mint'', [VStr a, VBig amount])) accounts) ()"
proof (induction accounts)
  case Nil
  then show ?case by (simp add: logs_def)
next
  case (Cons a accounts)
  have "logs \<alpha> (bind_io (lift_io (ca_parseUnits api ''1000'' 30)) (\<lambda>amount.
      bind_io (await_call api w ''mint'' [VStr a, VBig amount]) (\<lambda>_. mintWSTETH api w accounts))) k k
      ([] @ [(w, ''mint'', [VStr a, VBig amount])] @ map (\<lambda>a. (w, ''mint'', [VStr a, VBig amount])) accounts) ()"
    by (rule logs_bind logs_lift assms logs_await_call [OF assms(1)] Cons.IH)+
  then show ?case by (simp add: bind_await_call)
qed

section \<open>The fixture and the deployment scripts\<close>

text \<open>What the names of contracts and accounts stand for in a fixture.\<close>

definition fixture_role :: "fixture \<Rightarrow> string \<Rightarrow> string" where
  "fixture_role f r =
     (let c = fx_contracts f; s = fx_shadyContracts f in
      if r = ''TroveManager'' then c_troveManager c
      else if r = ''BorrowerOperations'' then c_borrowerOperations c
      else if r = ''ActivePool'' then c_activePool c
      else if r = ''StabilityPool'' then c_stabilityPool c
      else if r = ''DefaultPool'' then c_defaultPool c
      else if r = ''CollSurplusPool'' then c_collSurplusPool c
      else if r = ''SIMToken'' then c_simToken c
      else if r = ''PriceFeed'' then c_priceFeedMock c
      else if r = ''SortedTroves'' then c_sortedTroves c
      else if r = ''HintHelpers'' then c_hintHelpers c
      else if r = ''wstETH'' then c_wstETHMock c
      else if r = ''SHADYToken'' then s_shadyToken s
      else if r = ''CommunityIssuance'' then s_communityIssuance s
      else if r = ''LockupContractFactory'' then s_lockupContractFactory s
      else if r = ''Controller'' then s_controller s
      else if r = ''Ve'' then s_ve s
      else if r = ''SIMVeDistributor'' then s_simVeDistributor s
      else if r = ''WSTETHVeDistributor'' then s_wstETHVeDistributor s
      else if r = ''multisig'' then fx_multisig f
      else if r = ''_size'' then maxBytes32
      else '''')"

text \<open>The receiver of the fees is an account of its own in the fixture.\<close>

definition fixture_value :: "fixture \<Rightarrow> string \<Rightarrow> string \<Rightarrow> val" where
  "fixture_value f D p =
     VStr (if p = ''_feeReceiver'' then fx_lpRewardsAddress f else fixture_role f (param_role D p))"

text \<open>The initialising calls of the scripts, but for the proxies and the price feed, which the fixture mocks.\<close>

definition shared_initialisers :: "(string \<times> string \<times> string list) list" where
  "shared_initialisers = filter (\<lambda>(D, fn, _). fn \<noteq> ''initProxy'' \<and> D \<noteq> ''PriceFeed'') initialisers"

definition fixture_calls :: "fixture \<Rightarrow> call list" where
  "fixture_calls f = map (\<lambda>(D, fn, ps). (fixture_role f D, fn, map (fixture_value f D) ps)) shared_initialisers"

definition connecting :: "call \<Rightarrow> bool" where
  "connecting c \<longleftrightarrow> snd (call_key c) \<noteq> ''initProxy'' \<and> snd (call_key c) \<noteq> ''mint''"

text \<open>The fixture that the helper builds on an empty chain, whose contracts are numbered.\<close>

definition numbered_fixture :: "(nat \<Rightarrow> string) \<Rightarrow> string list \<Rightarrow> fixture" where
  "numbered_fixture adr signers =
     \<lparr>fx_contracts =
        \<lparr>c_troveManager = adr 11, c_borrowerOperations = adr 12, c_activePool = adr 3, c_stabilityPool = adr 1,
         c_defaultPool = adr 4, c_collSurplusPool = adr 5, c_simToken = adr 13, c_priceFeedMock = adr 8,
         c_sortedTroves = adr 7, c_hintHelpers = adr 6, c_wstETHMock = adr 10\<rparr>,
      fx_shadyContracts =
        \<lparr>s_shadyToken = adr 25, s_communityIssuance = adr 14, s_liquidityRewardsIssuance = adr 15,
         s_lockupContractFactory = adr 16, s_multisigAddress = signers ! 19, s_controller = adr 21, s_ve = adr 22,
         s_simVeDistributor = adr 23, s_wstETHVeDistributor = adr 24\<rparr>,
      fx_signers = signers, fx_bountyAddress = signers ! 17, fx_lpRewardsAddress = signers ! 18,
      fx_multisig = signers ! 19\<rparr>"

definition proxy_calls :: "(nat \<Rightarrow> string) \<Rightarrow> call list" where
  "proxy_calls adr = [(adr 21, ''initProxy'', [VStr (adr 20)]), (adr 22, ''initProxy'', [VStr (adr 18)]),
     (adr 23, ''initProxy'', [VStr (adr 19)]), (adr 24, ''initProxy'', [VStr (adr 19)])]"

text \<open>The scripts and the helper make the connecting calls in another order.\<close>

definition fixture_order :: "nat list" where
  "fixture_order = [8, 9, 0, 1, 2, 3, 4, 5, 6, 7, 10, 11, 12, 13]"

lemma logs_deployCore:
  assumes "keeps_log api adr \<alpha>"
  shows "logs \<alpha> (deployCore api) 0 11 []
    \<lparr>c_troveManager = adr 0, c_borrowerOperations = adr 2, c_activePool = adr 3, c_stabilityPool = adr 1,
     c_defaultPool = adr 4, c_collSurplusPool = adr 5, c_simToken = adr 9, c_priceFeedMock = adr 8,
     c_sortedTroves = adr 7, c_hintHelpers = adr 6, c_wstETHMock = adr 10\<rparr>"
  unfolding deployCore_def deploy_new_def
  by (rule logs_convert, (rule logs_bind logs_return logs_deploy [OF assms])+) (simp_all add: eval_nat_numeral)

lemma logs_deploySHADY:
  assumes "keeps_log api adr \<alpha>"
  shows "logs \<alpha> (deploySHADY api bounty multisig) 14 26 (proxy_calls adr)
    \<lparr>s_shadyToken = adr 25, s_communityIssuance = adr 14, s_liquidityRewardsIssuance = adr 15,
     s_lockupContractFactory = adr 16, s_multisigAddress = multisig, s_controller = adr 21, s_ve = adr 22,
     s_simVeDistributor = adr 23, s_wstETHVeDistributor = adr 24\<rparr>"
  unfolding deploySHADY_def deploy_new_def
  by (rule logs_convert, (rule logs_bind logs_return logs_deploy [OF assms] logs_new_proxy [OF assms])+)
     (simp_all add: proxy_calls_def)

lemma logs_connect:
  assumes "keeps_log api adr \<alpha>"
  shows "logs \<alpha> (bind_io (connectSHADYContracts api (fx_shadyContracts (numbered_fixture adr signers))) (\<lambda>_.
      bind_io (connectCoreContracts api (fx_contracts (numbered_fixture adr signers))
        (fx_shadyContracts (numbered_fixture adr signers)) (signers ! 18)) (\<lambda>_.
      connectSHADYContractsToCore api (fx_shadyContracts (numbered_fixture adr signers))
        (fx_contracts (numbered_fixture adr signers))))) k k
     (map ((!) (fixture_calls (numbered_fixture adr signers))) fixture_order) ()"
  unfolding connectSHADYContracts_def connectCoreContracts_def connectSHADYContractsToCore_def
  by (rule logs_convert, (rule logs_bind logs_await_call [OF assms])+)
     (simp_all add: fixture_calls_def fixture_order_def shared_initialisers_def initialisers_def sol_defs
        fixture_value_def fixture_role_def param_role_def numbered_fixture_def maxBytes32_def)

text \<open>All the calls of the fixture.\<close>

definition all_fixture_calls :: "(nat \<Rightarrow> string) \<Rightarrow> string list \<Rightarrow> int \<Rightarrow> call list" where
  "all_fixture_calls adr signers amount =
     proxy_calls adr @ map ((!) (fixture_calls (numbered_fixture adr signers))) fixture_order
     @ map (\<lambda>a. (adr 10, ''mint'', [VStr a, VBig amount])) signers"

lemma bind_io_assoc: "bind_io (bind_io m f) g = bind_io m (\<lambda>a. bind_io (f a) g)"
  by (simp add: fun_eq_iff bind_io_def split: option.splits sum.splits)

lemma logs_deployFixture:
  assumes log: "keeps_log api adr \<alpha>" and n: "20 \<le> length (ca_signers api)"
    and amount: "ca_parseUnits api ''1000'' 30 = Inr amount"
  shows "logs \<alpha> (deployFixture api) 0 26 (all_fixture_calls adr (ca_signers api) amount)
     (numbered_fixture adr (ca_signers api))"
proof -
  let ?f = "numbered_fixture adr (ca_signers api)"
  have signers: "signer_address api 17 = Inr (ca_signers api ! 17)" "signer_address api 18 = Inr (ca_signers api ! 18)"
      "signer_address api 19 = Inr (ca_signers api ! 19)"
    using n by (simp_all add: signer_address_def signer_at_def)
  have new: "logs \<alpha> (ca_deploy api n l args) 11 12 [] (adr 11)" "logs \<alpha> (ca_deploy api n l args) 12 13 [] (adr 12)"
      "logs \<alpha> (ca_deploy api n l args) 13 14 [] (adr 13)" for n l args
    using logs_deploy [OF log, of n l args 11] logs_deploy [OF log, of n l args 12] logs_deploy [OF log, of n l args 13]
    by simp_all
  have connect: "logs \<alpha> (bind_io (connectSHADYContracts api (fx_shadyContracts ?f)) (\<lambda>_.
      bind_io (connectCoreContracts api (fx_contracts ?f) (fx_shadyContracts ?f) (ca_signers api ! 18)) (\<lambda>_.
      bind_io (connectSHADYContractsToCore api (fx_shadyContracts ?f) (fx_contracts ?f)) (\<lambda>_.
      bind_io (mintWSTETH api (adr 10) (ca_signers api)) (\<lambda>_. return_io ?f))))) 26 26
      (map ((!) (fixture_calls ?f)) fixture_order
       @ map (\<lambda>a. (adr 10, ''mint'', [VStr a, VBig amount])) (ca_signers api) @ []) ?f"
    using logs_bind [OF logs_connect [OF log] logs_bind [OF logs_mintWSTETH [OF log amount] logs_return]]
    by (simp only: bind_io_assoc)
  have "logs \<alpha> (deployFixture api) 0 26
      ([] @ [] @ [] @ [] @ [] @ [] @ [] @ proxy_calls adr @ (map ((!) (fixture_calls ?f)) fixture_order
       @ map (\<lambda>a. (adr 10, ''mint'', [VStr a, VBig amount])) (ca_signers api) @ [])) ?f"
    unfolding deployFixture_def Let_def deploy_new_def
    by (rule logs_bind [OF logs_lift [OF signers(1)]], rule logs_bind [OF logs_lift [OF signers(2)]],
        rule logs_bind [OF logs_lift [OF signers(3)]], rule logs_bind [OF logs_deployCore [OF log]],
        rule logs_bind [OF new(1)], rule logs_bind [OF new(2)], rule logs_bind [OF new(3)],
        rule logs_bind [OF logs_deploySHADY [OF log]])
       (use connect in \<open>simp add: numbered_fixture_def\<close>)
  then show ?thesis by (simp add: all_fixture_calls_def)
qed

text \<open>No contract is initialised twice.\<close>

lemma fixture_initialises_once:
  assumes "inj adr"
  shows "initialised_once (all_fixture_calls adr signers amount)"
proof -
  have mints: "filter (\<lambda>c. one_shot (snd (call_key c))) (map (\<lambda>a. (adr 10, ''mint'', [VStr a, VBig amount])) signers) = []"
    by (simp add: one_shot_def filter_empty_conv)
  have eq: "(adr m = adr n) = (m = n)" for m n using assms by (simp add: inj_eq)
  show ?thesis
    unfolding initialised_once_def all_fixture_calls_def filter_append mints
    by (simp add: proxy_calls_def fixture_order_def fixture_calls_def shared_initialisers_def initialisers_def one_shot_def
        fixture_role_def numbered_fixture_def eq)
qed

lemma mset_reordered: "mset (map ((!) xs) is) = mset xs" if "mset is = mset [0..<length xs]"
proof -
  have "mset (map ((!) xs) is) = image_mset ((!) xs) (mset [0..<length xs])" using that by (simp del: mset_upt)
  also have "\<dots> = mset (map ((!) xs) [0..<length xs])" by simp
  finally show ?thesis by (simp add: map_nth)
qed

lemma fixture_calls_connect: "list_all connecting (fixture_calls f)"
  by (simp add: fixture_calls_def shared_initialisers_def initialisers_def connecting_def)

lemma fixture_connecting_calls:
  "mset (filter connecting (all_fixture_calls adr signers amount)) = mset (fixture_calls (numbered_fixture adr signers))"
proof -
  let ?cs = "fixture_calls (numbered_fixture adr signers)"
  have len: "length ?cs = 14" by (simp add: fixture_calls_def shared_initialisers_def initialisers_def)
  then have "mset fixture_order = mset [0..<length ?cs]" by (simp add: fixture_order_def eval_nat_numeral)
  then have order: "mset (map ((!) ?cs) fixture_order) = mset ?cs" by (rule mset_reordered)
  then have "\<forall>c \<in> set (map ((!) ?cs) fixture_order). connecting c"
    using fixture_calls_connect [of "numbered_fixture adr signers"] by (metis list_all_iff set_mset_mset)
  then have "filter connecting (all_fixture_calls adr signers amount) = map ((!) ?cs) fixture_order"
    unfolding all_fixture_calls_def filter_append
    by (simp only: filter_True) (simp add: proxy_calls_def connecting_def filter_empty_conv)
  with order show ?thesis by simp
qed

text \<open>
  C35. The tests run on the wiring that is deployed. On a chain that keeps a log, with twenty signers
  and enough precision to mint, the fixture returns, and the calls that connect its contracts are, in
  some order, those the deployment scripts make: the same functions of the same contracts, every parameter
  bound to the contract that its name stands for, with the mock of the price feed in the place of the
  price feed and an account of its own as the receiver of the fees.
\<close>

theorem fixture_wired_like_deployment:
  assumes "keeps_log api adr \<alpha>" and "\<alpha> c = \<lparr>lo_created = [], lo_calls = []\<rparr>"
    and "20 \<le> length (ca_signers api)" and "ca_parseUnits api ''1000'' 30 = Inr amount"
  shows "\<exists>f c'. deployFixture api c = Some (Inr f, c')
     \<and> mset (filter connecting (lo_calls (\<alpha> c'))) = mset (fixture_calls f)
     \<and> fx_multisig f = ca_signers api ! 19 \<and> fx_lpRewardsAddress f = ca_signers api ! 18"
proof -
  have "inj adr" using assms(1) by (simp add: keeps_log_def)
  then have "initialised_once (lo_calls (\<alpha> c) @ all_fixture_calls adr (ca_signers api) amount)"
    using fixture_initialises_once assms(2) by simp
  then obtain c' where "deployFixture api c = Some (Inr (numbered_fixture adr (ca_signers api)), c')"
      "lo_calls (\<alpha> c') = all_fixture_calls adr (ca_signers api) amount"
    using logs_deployFixture [OF assms(1,3,4), unfolded logs_def, rule_format, of c] assms(2) by auto
  then show ?thesis using fixture_connecting_calls by (fastforce simp: numbered_fixture_def)
qed

text \<open>A chain that keeps a log and does nothing else.\<close>

definition log_chain :: "chain_log chain_api" where
  "log_chain =
     \<lparr>ca_signers = map (\<lambda>i. replicate i (CHR ''s'')) [0..<20],
      ca_deploy = (\<lambda>contract libs args c.
        Some (Inr (replicate (length (lo_created c)) (CHR ''a'')), c\<lparr>lo_created := lo_created c @ [(contract, libs, args)]\<rparr>)),
      ca_call = (\<lambda>_ t fn args c.
        Some (Inr \<lparr>rc_events = [], rc_gasUsed = 0\<rparr>, c\<lparr>lo_calls := lo_calls c @ [(t, fn, args)]\<rparr>)),
      ca_view = (\<lambda>_ _ _ _. None), ca_rpc = (\<lambda>_ _ _. None), ca_timestamp = (\<lambda>_. None),
      ca_BigNumber_from = (\<lambda>_. Inr 0), ca_parseUnits = (\<lambda>_ d. Inr (1000 * 10 ^ d))\<rparr>"

theorem fixture_wired_like_deployment_witness:
  "\<exists>f c'. deployFixture log_chain \<lparr>lo_created = [], lo_calls = []\<rparr> = Some (Inr f, c')
     \<and> mset (filter connecting (lo_calls c')) = mset (fixture_calls f)"
proof -
  have "inj (\<lambda>n. replicate n (CHR ''a''))" by (rule injI) (metis length_replicate)
  then have "keeps_log log_chain (\<lambda>n. replicate n (CHR ''a'')) id" by (simp add: keeps_log_def log_chain_def)
  then show ?thesis
    using fixture_wired_like_deployment [of log_chain "\<lambda>n. replicate n (CHR ''a'')" id "\<lparr>lo_created = [], lo_calls = []\<rparr>" "1000 * 10 ^ 30"]
    by (auto simp: log_chain_def)
qed

end
