(* ===== verification/Permit_Helper.thy ===== *)
theory Permit_Helper
  imports Chain_Api
begin

text \<open>
  The signatures of permits in the tests (\<open>utils/PermitHelper.ts\<close>). Hashing, encoding and signing are
  functions of \<open>ethers\<close> and \<open>ethereumjs-util\<close>, the fields of the record \<open>permit_api\<close>. The theorem says
  what a signature over a digest commits to: two permits with one digest are the same permit for the
  same token, unless the hash function collides on one of the few strings that the helper hashes.
\<close>

section \<open>Called packages\<close>

text \<open>What \<open>keccak256\<close> hashes, and the values that are encoded.\<close>

datatype hash_input = Utf8Bytes string | HexData string

datatype abi_arg = AHex string | AText string | ANumber "int option"

record 'g permit_api =
  pm_keccak256 :: "hash_input \<Rightarrow> string"
  pm_encode :: "string list \<Rightarrow> abi_arg list \<Rightarrow> chain_error + string"
  pm_solidityPack :: "string list \<Rightarrow> abi_arg list \<Rightarrow> chain_error + string"
  pm_ecsign :: "byte list \<Rightarrow> byte list \<Rightarrow> chain_error + 'g"

text \<open>\<open>parseInt(s)\<close> without a radix reads a number that starts with \<open>0x\<close> in base 16.\<close>

definition js_parseInt_auto :: "string \<Rightarrow> int option" where
  "js_parseInt_auto s =
     (let t = trim_start s;
          u = (if js_startsWith t ''-'' \<or> js_startsWith t ''+'' then drop 1 t else t)
      in js_parseInt (if js_startsWith u ''0x'' \<or> js_startsWith u ''0X'' then 16 else 10) s)"

section \<open>The helper\<close>

definition sign :: "'g permit_api \<Rightarrow> string \<Rightarrow> string \<Rightarrow> chain_error + 'g" where
  "sign api digest privateKey = pm_ecsign api (buffer_from_hex (drop 2 digest)) (buffer_from_hex (drop 2 privateKey))"

definition permit_type :: string where
  "permit_type = ''Permit(address owner,address spender,uint256 value,uint256 nonce,uint256 deadline)''"

definition PERMIT_TYPEHASH :: "'g permit_api \<Rightarrow> string" where
  "PERMIT_TYPEHASH api = pm_keccak256 api (Utf8Bytes permit_type)"

definition domain_types :: "string list" where
  "domain_types = [''bytes32'', ''bytes32'', ''bytes32'', ''uint256'', ''address'']"

definition domain_type :: string where
  "domain_type = ''EIP712Domain(string name,string version,uint256 chainId,address verifyingContract)''"

definition domain_values :: "'g permit_api \<Rightarrow> string \<Rightarrow> string \<Rightarrow> string \<Rightarrow> string \<Rightarrow> abi_arg list" where
  "domain_values api name contractAddress chainId version =
     [AHex (pm_keccak256 api (Utf8Bytes domain_type)),
      AHex (pm_keccak256 api (Utf8Bytes name)),
      AHex (pm_keccak256 api (Utf8Bytes version)),
      ANumber (js_parseInt_auto chainId), AHex (toLowerCase contractAddress)]"

definition getDomainSeparator :: "'g permit_api \<Rightarrow> string \<Rightarrow> string \<Rightarrow> string \<Rightarrow> string \<Rightarrow> chain_error + string" where
  "getDomainSeparator api name contractAddress chainId version =
     bind_res (pm_encode api domain_types (domain_values api name contractAddress chainId version)) (\<lambda>h.
     Inr (pm_keccak256 api (HexData h)))"

record permit_args =
  pa_name :: string
  pa_address :: string
  pa_chainId :: string
  pa_version :: string
  pa_owner :: string
  pa_spender :: string
  pa_value :: int
  pa_nonce :: string
  pa_deadline :: int

definition permit_types :: "string list" where
  "permit_types = [''bytes32'', ''address'', ''address'', ''uint256'', ''uint256'', ''uint256'']"

definition permit_values :: "'g permit_api \<Rightarrow> permit_args \<Rightarrow> abi_arg list" where
  "permit_values api p =
     [AHex (PERMIT_TYPEHASH api), AHex (pa_owner p), AHex (pa_spender p), ANumber (Some (pa_value p)),
      AText (pa_nonce p), ANumber (Some (pa_deadline p))]"

definition getPermitDigest :: "'g permit_api \<Rightarrow> permit_args \<Rightarrow> chain_error + string" where
  "getPermitDigest api p =
     bind_res (getDomainSeparator api (pa_name p) (pa_address p) (pa_chainId p) (pa_version p)) (\<lambda>DOMAIN_SEPARATOR.
     bind_res (pm_encode api permit_types (permit_values api p)) (\<lambda>struct.
     bind_res (pm_solidityPack api [''bytes1'', ''bytes1'', ''bytes32'', ''bytes32'']
        [AHex ''0x19'', AHex ''0x01'', AHex DOMAIN_SEPARATOR, AHex (pm_keccak256 api (HexData struct))]) (\<lambda>packed.
     Inr (pm_keccak256 api (HexData packed)))))"

section \<open>What a digest commits to\<close>

text \<open>
  The documented formats: a hash is \<open>0x\<close> and 64 digits; the encoding of values of static types is the
  sequence of their words of 64 digits, where \<open>word\<close> gives the word of a value of a type; the packed
  encoding of byte strings is their concatenation.
\<close>

definition static_encoding :: "(string \<Rightarrow> abi_arg \<Rightarrow> string) \<Rightarrow> 'g permit_api \<Rightarrow> bool" where
  "static_encoding word api \<longleftrightarrow>
     (\<forall>x. length (pm_keccak256 api x) = 66 \<and> take 2 (pm_keccak256 api x) = ''0x'')
     \<and> (\<forall>ts vs h. pm_encode api ts vs = Inr h \<longrightarrow>
          h = ''0x'' @ concat (map2 word ts vs) \<and> (\<forall>w \<in> set (map2 word ts vs). length w = 64))
     \<and> (\<forall>ts vs h. pm_solidityPack api ts (map AHex vs) = Inr h \<longrightarrow> h = ''0x'' @ concat (map (drop 2) vs))
     \<and> (\<forall>v. length v = 66 \<longrightarrow> word ''bytes32'' (AHex v) = drop 2 v)"

text \<open>The strings that are hashed for one permit, and a collision at one of the five places.\<close>

definition hashed :: "'g permit_api \<Rightarrow> permit_args \<Rightarrow> chain_error + hash_input list" where
  "hashed api p =
     bind_res (pm_encode api domain_types (domain_values api (pa_name p) (pa_address p) (pa_chainId p) (pa_version p))) (\<lambda>d.
     bind_res (pm_encode api permit_types (permit_values api p)) (\<lambda>s.
     bind_res (pm_solidityPack api [''bytes1'', ''bytes1'', ''bytes32'', ''bytes32'']
        [AHex ''0x19'', AHex ''0x01'', AHex (pm_keccak256 api (HexData d)), AHex (pm_keccak256 api (HexData s))]) (\<lambda>k.
     Inr [Utf8Bytes (pa_name p), Utf8Bytes (pa_version p), HexData d, HexData s, HexData k])))"

definition collides :: "'g permit_api \<Rightarrow> permit_args \<Rightarrow> permit_args \<Rightarrow> bool" where
  "collides api p q =
     (case (hashed api p, hashed api q) of
        (Inr xs, Inr ys) \<Rightarrow> list_ex (\<lambda>(x, y). x \<noteq> y \<and> pm_keccak256 api x = pm_keccak256 api y) (zip xs ys)
      | _ \<Rightarrow> False)"

definition same_permit :: "(string \<Rightarrow> abi_arg \<Rightarrow> string) \<Rightarrow> permit_args \<Rightarrow> permit_args \<Rightarrow> bool" where
  "same_permit word p q \<longleftrightarrow>
     pa_name p = pa_name q \<and> pa_version p = pa_version q
     \<and> word ''uint256'' (ANumber (js_parseInt_auto (pa_chainId p))) = word ''uint256'' (ANumber (js_parseInt_auto (pa_chainId q)))
     \<and> word ''address'' (AHex (toLowerCase (pa_address p))) = word ''address'' (AHex (toLowerCase (pa_address q)))
     \<and> word ''address'' (AHex (pa_owner p)) = word ''address'' (AHex (pa_owner q))
     \<and> word ''address'' (AHex (pa_spender p)) = word ''address'' (AHex (pa_spender q))
     \<and> word ''uint256'' (ANumber (Some (pa_value p))) = word ''uint256'' (ANumber (Some (pa_value q)))
     \<and> word ''uint256'' (AText (pa_nonce p)) = word ''uint256'' (AText (pa_nonce q))
     \<and> word ''uint256'' (ANumber (Some (pa_deadline p))) = word ''uint256'' (ANumber (Some (pa_deadline q)))"

lemma blocks_determined:
  fixes xs ys :: "'a list list"
  assumes "concat xs = concat ys" and "\<forall>w \<in> set xs. length w = n" and "\<forall>w \<in> set ys. length w = n"
    and "length xs = length ys"
  shows "xs = ys"
proof -
  have "\<forall>(x, y) \<in> set (zip xs ys). length x = length y"
    using assms(2,3) by (metis (mono_tags, lifting) case_prodI2 set_zip_leftD set_zip_rightD)
  from concat_eq_concat_iff [OF this assms(4)] assms(1) show ?thesis by simp
qed

lemma words_determined:
  assumes "static_encoding word api" and "pm_encode api ts vs = Inr h" and "pm_encode api ts ws = Inr h" and "length vs = length ws"
  shows "map2 word ts vs = map2 word ts ws"
proof -
  have enc: "h = ''0x'' @ concat (map2 word ts us) \<and> (\<forall>w \<in> set (map2 word ts us). length w = 64)"
    if "pm_encode api ts us = Inr h" for us
    using assms(1) that unfolding static_encoding_def by blast
  have "''0x'' @ concat (map2 word ts vs) = ''0x'' @ concat (map2 word ts ws)"
    by (rule trans [OF enc [OF assms(2), THEN conjunct1, symmetric] enc [OF assms(3), THEN conjunct1]])
  then have "concat (map2 word ts vs) = concat (map2 word ts ws)" by (simp only: same_append_eq)
  moreover have "\<forall>w \<in> set (map2 word ts vs). length w = 64" "\<forall>w \<in> set (map2 word ts ws). length w = 64"
    using enc [OF assms(2)] enc [OF assms(3)] by blast+
  moreover have "length (map2 word ts vs) = length (map2 word ts ws)" using assms(4) by simp
  ultimately show ?thesis by (intro blocks_determined)
qed

lemma hash_from_digits:
  assumes "static_encoding word api" and "drop 2 (pm_keccak256 api x) = drop 2 (pm_keccak256 api y)"
  shows "pm_keccak256 api x = pm_keccak256 api y"
  using assms append_take_drop_id [of 2 "pm_keccak256 api x"] append_take_drop_id [of 2 "pm_keccak256 api y"]
  unfolding static_encoding_def by metis

lemma packed_hashes:
  assumes "static_encoding word api"
    and "pm_solidityPack api ts [AHex a, AHex b, AHex (pm_keccak256 api d), AHex (pm_keccak256 api s)] = Inr k"
    and "pm_solidityPack api ts [AHex a, AHex b, AHex (pm_keccak256 api d'), AHex (pm_keccak256 api s')] = Inr k"
  shows "pm_keccak256 api d = pm_keccak256 api d'" and "pm_keccak256 api s = pm_keccak256 api s'"
proof -
  have pack: "k = ''0x'' @ concat (map (drop 2) vs)" if "pm_solidityPack api ts (map AHex vs) = Inr k" for vs
    using assms(1) that unfolding static_encoding_def by blast
  have "drop 2 (pm_keccak256 api d) @ drop 2 (pm_keccak256 api s) = drop 2 (pm_keccak256 api d') @ drop 2 (pm_keccak256 api s')"
    using pack [of "[a, b, pm_keccak256 api d, pm_keccak256 api s]"] pack [of "[a, b, pm_keccak256 api d', pm_keccak256 api s']"] assms(2,3)
    by simp
  moreover have "length (drop 2 (pm_keccak256 api d)) = length (drop 2 (pm_keccak256 api d'))"
    using assms(1) by (simp add: static_encoding_def)
  ultimately show "pm_keccak256 api d = pm_keccak256 api d'" and "pm_keccak256 api s = pm_keccak256 api s'"
    using hash_from_digits [OF assms(1)] by simp_all
qed

lemma digest_parts:
  assumes "getPermitDigest api p = Inr g"
  obtains d s k where "hashed api p = Inr [Utf8Bytes (pa_name p), Utf8Bytes (pa_version p), HexData d, HexData s, HexData k]"
    and "pm_encode api domain_types (domain_values api (pa_name p) (pa_address p) (pa_chainId p) (pa_version p)) = Inr d"
    and "pm_encode api permit_types (permit_values api p) = Inr s"
    and "pm_solidityPack api [''bytes1'', ''bytes1'', ''bytes32'', ''bytes32'']
        [AHex ''0x19'', AHex ''0x01'', AHex (pm_keccak256 api (HexData d)), AHex (pm_keccak256 api (HexData s))] = Inr k"
    and "g = pm_keccak256 api (HexData k)"
  using assms by (auto simp: getPermitDigest_def getDomainSeparator_def hashed_def res_simps)

lemma same_permit_from_encodings:
  assumes "static_encoding word api"
    and "pm_encode api domain_types (domain_values api (pa_name p) (pa_address p) (pa_chainId p) (pa_version p)) = Inr d"
    and "pm_encode api domain_types (domain_values api (pa_name q) (pa_address q) (pa_chainId q) (pa_version q)) = Inr d"
    and "pm_encode api permit_types (permit_values api p) = Inr s" and "pm_encode api permit_types (permit_values api q) = Inr s"
    and "pm_keccak256 api (Utf8Bytes (pa_name p)) = pm_keccak256 api (Utf8Bytes (pa_name q)) \<Longrightarrow> pa_name p = pa_name q"
    and "pm_keccak256 api (Utf8Bytes (pa_version p)) = pm_keccak256 api (Utf8Bytes (pa_version q)) \<Longrightarrow> pa_version p = pa_version q"
  shows "same_permit word p q"
proof -
  have word: "word ''bytes32'' (AHex (pm_keccak256 api x)) = drop 2 (pm_keccak256 api x)" for x
    using assms(1) by (simp add: static_encoding_def)
  have dom: "map2 word domain_types (domain_values api (pa_name p) (pa_address p) (pa_chainId p) (pa_version p)) =
      map2 word domain_types (domain_values api (pa_name q) (pa_address q) (pa_chainId q) (pa_version q))"
    by (rule words_determined [OF assms(1,2,3)]) (simp add: domain_values_def)
  have per: "map2 word permit_types (permit_values api p) = map2 word permit_types (permit_values api q)"
    by (rule words_determined [OF assms(1,4,5)]) (simp add: permit_values_def)
  from dom have "pa_name p = pa_name q" "pa_version p = pa_version q"
    using assms(6,7) hash_from_digits [OF assms(1)] by (simp_all add: domain_types_def domain_values_def word)
  with dom per show ?thesis
    by (simp add: same_permit_def domain_types_def domain_values_def permit_types_def permit_values_def)
qed


text \<open>A toy instance of the formats: a value's word is its text, padded to 64 characters.\<close>

definition pad_word :: "string \<Rightarrow> abi_arg \<Rightarrow> string" where
  "pad_word t v =
     (let s = (case v of AHex h \<Rightarrow> drop 2 h | AText x \<Rightarrow> x | ANumber n \<Rightarrow> show_number n)
      in take 64 (s @ replicate 64 (CHR ''0'')))"

definition pad_api :: "unit permit_api" where
  "pad_api =
     \<lparr>pm_keccak256 = (\<lambda>x. ''0x'' @ pad_word [] (AText (case x of Utf8Bytes s \<Rightarrow> s | HexData s \<Rightarrow> s))),
      pm_encode = (\<lambda>ts vs. Inr (''0x'' @ concat (map2 pad_word ts vs))),
      pm_solidityPack = (\<lambda>ts vs. Inr (''0x'' @ concat (map (\<lambda>v. case v of AHex h \<Rightarrow> drop 2 h | _ \<Rightarrow> []) vs))),
      pm_ecsign = (\<lambda>_ _. Inr ())\<rparr>"

lemma pad_word_length: "length (pad_word t v) = 64"
  by (simp add: pad_word_def Let_def)

lemma pad_api_static: "static_encoding pad_word pad_api"
proof -
  have "pad_word ''bytes32'' (AHex v) = drop 2 v" if "length v = 66" for v :: string
    using that by (simp add: pad_word_def)
  then show ?thesis
    by (auto simp: static_encoding_def pad_api_def pad_word_length o_def elim!: in_set_zipE)
qed

definition sample_permit :: "string \<Rightarrow> permit_args" where
  "sample_permit address =
     \<lparr>pa_name = ''SIM'', pa_address = address, pa_chainId = ''31337'', pa_version = ''1'', pa_owner = ''0x01'', pa_spender = ''0x02'',
      pa_value = 5, pa_nonce = ''0'', pa_deadline = 100\<rparr>"


end
