(* ===== verification/Evm_Base.thy ===== *)
theory Evm_Base
  imports Sim_Prelude
begin

text \<open>
  The machine of the contracts. A \<open>uint256\<close> is a natural number and its arithmetic is the checked
  arithmetic of Solidity 0.8: an operation whose result does not fit reverts with a panic. A function
  that may revert gives a value of type \<open>revert + 'a\<close>; a transaction that reverts leaves the state it
  found. An address is a number of which only equality and the zero address matter.
\<close>

datatype revert =
    Revert string
  | Panic

type_synonym uint = nat
type_synonym address = nat

definition uint_max :: uint where
  "uint_max = 2 ^ 256 - 1"

definition u_add :: "uint \<Rightarrow> uint \<Rightarrow> revert + uint" where
  "u_add a b = (if a + b \<le> uint_max then Inr (a + b) else Inl Panic)"

definition u_sub :: "uint \<Rightarrow> uint \<Rightarrow> revert + uint" where
  "u_sub a b = (if b \<le> a then Inr (a - b) else Inl Panic)"

definition u_mul :: "uint \<Rightarrow> uint \<Rightarrow> revert + uint" where
  "u_mul a b = (if a * b \<le> uint_max then Inr (a * b) else Inl Panic)"

definition u_div :: "uint \<Rightarrow> uint \<Rightarrow> revert + uint" where
  "u_div a b = (if b = 0 then Inl Panic else Inr (a div b))"

text \<open>\<open>require(b, message)\<close>.\<close>

definition require :: "bool \<Rightarrow> string \<Rightarrow> revert + unit" where
  "require b message = (if b then Inr () else Inl (Revert message))"

text \<open>\<open>_checkContract\<close> of \<open>dependencies/CheckContract.sol\<close>; \<open>is_contract\<close> tells whether an address has code.\<close>

definition checkContract :: "(address \<Rightarrow> bool) \<Rightarrow> address \<Rightarrow> revert + unit" where
  "checkContract is_contract a =
     bind_res (require (a \<noteq> 0) ''Account cannot be zero address'') (\<lambda>_.
     require (is_contract a) ''Account code size cannot be zero'')"

lemma require_simps [simp]:
  "require True m = Inr ()"
  "require False m = Inl (Revert m)"
  by (simp_all add: require_def)

lemma require_bind [simp]: "bind_res (require b m) f = (if b then f () else Inl (Revert m))"
  by (simp add: require_def)

lemma uint_max_pos [simp]: "0 < uint_max"
  by (simp add: uint_max_def)

lemma checked_Inr [res_simps]:
  "u_add a b = Inr c \<longleftrightarrow> c = a + b \<and> a + b \<le> uint_max"
  "u_sub a b = Inr c \<longleftrightarrow> c = a - b \<and> b \<le> a"
  "u_mul a b = Inr c \<longleftrightarrow> c = a * b \<and> a * b \<le> uint_max"
  "u_div a b = Inr c \<longleftrightarrow> c = a div b \<and> b \<noteq> 0"
  by (auto simp: u_add_def u_sub_def u_mul_def u_div_def)

lemma checked_ok:
  "a + b \<le> uint_max \<Longrightarrow> u_add a b = Inr (a + b)"
  "b \<le> a \<Longrightarrow> u_sub a b = Inr (a - b)"
  "a * b \<le> uint_max \<Longrightarrow> u_mul a b = Inr (a * b)"
  "0 < b \<Longrightarrow> u_div a b = Inr (a div b)"
  by (simp_all add: u_add_def u_sub_def u_mul_def u_div_def)

section \<open>Tokens\<close>

text \<open>
  An ERC20 token as its users see it: the balance of an account, and a transfer by the account that
  calls it, which returns whether it has succeeded. What the contracts rely on is that a transfer that
  returns moves the amount: \<open>moves_the_amount\<close>.
\<close>

record 't erc20 =
  tk_balanceOf :: "'t \<Rightarrow> address \<Rightarrow> uint"
  tk_transfer :: "'t \<Rightarrow> address \<Rightarrow> address \<Rightarrow> uint \<Rightarrow> revert + bool \<times> 't"

definition moves_the_amount :: "'t erc20 \<Rightarrow> bool" where
  "moves_the_amount tok \<longleftrightarrow>
     (\<forall>t from to n b t'. tk_transfer tok t from to n = Inr (b, t') \<longrightarrow>
        n \<le> tk_balanceOf tok t from
        \<and> (\<forall>a. tk_balanceOf tok t' a =
             (if from = to then tk_balanceOf tok t a
              else if a = from then tk_balanceOf tok t a - n
              else if a = to then tk_balanceOf tok t a + n
              else tk_balanceOf tok t a)))"

lemma transfer_has:
  assumes "tk_transfer tok t from to n = Inr (b, t')" and "moves_the_amount tok"
  shows "n \<le> tk_balanceOf tok t from"
  using assms unfolding moves_the_amount_def by blast

lemma transfer_takes:
  assumes "tk_transfer tok t from to n = Inr (b, t')" and "moves_the_amount tok"
  shows "tk_balanceOf tok t from \<le> tk_balanceOf tok t' from + n"
proof -
  have "n \<le> tk_balanceOf tok t from" "tk_balanceOf tok t' from = (if from = to then tk_balanceOf tok t from else tk_balanceOf tok t from - n)"
    using assms unfolding moves_the_amount_def by auto
  then show ?thesis by auto
qed

lemma transfer_gives:
  assumes "tk_transfer tok t from to n = Inr (b, t')" and "moves_the_amount tok"
  shows "a \<noteq> from \<Longrightarrow> tk_balanceOf tok t' a = tk_balanceOf tok t a + (if a = to then n else 0)"
proof -
  assume "a \<noteq> from"
  moreover have "tk_balanceOf tok t' a = (if from = to then tk_balanceOf tok t a
      else if a = from then tk_balanceOf tok t a - n else if a = to then tk_balanceOf tok t a + n else tk_balanceOf tok t a)"
    using assms unfolding moves_the_amount_def by blast
  ultimately show ?thesis by auto
qed

text \<open>A token that is nothing but balances.\<close>

definition plain_token :: "(address \<Rightarrow> uint) erc20" where
  "plain_token =
     \<lparr>tk_balanceOf = (\<lambda>t. t),
      tk_transfer = (\<lambda>t from to n. if n \<le> t from then Inr (True, (t(from := t from - n))(to := (t(from := t from - n)) to + n))
        else Inl (Revert ''ERC20: transfer amount exceeds balance''))\<rparr>"

lemma plain_token_moves: "moves_the_amount plain_token"
  by (auto simp: moves_the_amount_def plain_token_def split: if_splits)

end
