(* ===== verification/Sorted_Troves.thy ===== *)
theory Sorted_Troves
  imports Evm_Base "HOL-Library.Multiset"
begin

text \<open>
  The sorted doubly linked list of troves (\<open>contracts/SortedTroves.sol\<close>). The nominal ratio of a
  trove is what \<open>troveManager.getNominalICR\<close> returns for it during the call, the argument \<open>nicr\<close>
  of the definitions. A loop over the links is a partial function: \<open>None\<close> stands for a loop that
  does not end, that is for a call that runs out of gas. A call that reverts gives \<open>Inl\<close> and leaves
  the list as it was. Events are not modelled.
\<close>

section \<open>The contract\<close>

record node =
  nd_exists :: bool
  nd_nextId :: address
  nd_prevId :: address

record trove_list =
  head :: address
  tail :: address
  maxSize :: uint
  size :: uint
  nodes :: "address \<Rightarrow> node"

record sorted_troves =
  st_owner :: address
  st_borrowerOperationsAddress :: address
  st_troveManager :: address
  st_data :: trove_list

definition no_node :: node where
  "no_node = \<lparr>nd_exists = False, nd_nextId = 0, nd_prevId = 0\<rparr>"

definition contains :: "trove_list \<Rightarrow> address \<Rightarrow> bool" where
  "contains d i = nd_exists (nodes d i)"

definition isFull :: "trove_list \<Rightarrow> bool" where
  "isFull d \<longleftrightarrow> size d = maxSize d"

definition isEmpty :: "trove_list \<Rightarrow> bool" where
  "isEmpty d \<longleftrightarrow> size d = 0"

definition getNext :: "trove_list \<Rightarrow> address \<Rightarrow> address" where
  "getNext d i = nd_nextId (nodes d i)"

definition getPrev :: "trove_list \<Rightarrow> address \<Rightarrow> address" where
  "getPrev d i = nd_prevId (nodes d i)"

definition set_next :: "address \<Rightarrow> address \<Rightarrow> trove_list \<Rightarrow> trove_list" where
  "set_next i a d = d\<lparr>nodes := (nodes d)(i := (nodes d i)\<lparr>nd_nextId := a\<rparr>)\<rparr>"

definition set_prev :: "address \<Rightarrow> address \<Rightarrow> trove_list \<Rightarrow> trove_list" where
  "set_prev i a d = d\<lparr>nodes := (nodes d)(i := (nodes d i)\<lparr>nd_prevId := a\<rparr>)\<rparr>"

definition set_exists :: "address \<Rightarrow> trove_list \<Rightarrow> trove_list" where
  "set_exists i d = d\<lparr>nodes := (nodes d)(i := (nodes d i)\<lparr>nd_exists := True\<rparr>)\<rparr>"

definition validInsertPosition :: "(address \<Rightarrow> uint) \<Rightarrow> trove_list \<Rightarrow> uint \<Rightarrow> address \<Rightarrow> address \<Rightarrow> bool" where
  "validInsertPosition nicr d NICR prevId nextId =
     (if prevId = 0 \<and> nextId = 0 then isEmpty d
      else if prevId = 0 then head d = nextId \<and> nicr nextId \<le> NICR
      else if nextId = 0 then tail d = prevId \<and> NICR \<le> nicr prevId
      else getNext d prevId = nextId \<and> NICR \<le> nicr prevId \<and> nicr nextId \<le> NICR)"

partial_function (option) descend ::
    "(address \<Rightarrow> uint) \<Rightarrow> trove_list \<Rightarrow> uint \<Rightarrow> address \<Rightarrow> address \<Rightarrow> (address \<times> address) option" where
  "descend nicr d NICR prevId nextId =
     (if prevId \<noteq> 0 \<and> \<not> validInsertPosition nicr d NICR prevId nextId
      then descend nicr d NICR (getNext d prevId) (getNext d (getNext d prevId))
      else Some (prevId, nextId))"

partial_function (option) ascend ::
    "(address \<Rightarrow> uint) \<Rightarrow> trove_list \<Rightarrow> uint \<Rightarrow> address \<Rightarrow> address \<Rightarrow> (address \<times> address) option" where
  "ascend nicr d NICR prevId nextId =
     (if nextId \<noteq> 0 \<and> \<not> validInsertPosition nicr d NICR prevId nextId
      then ascend nicr d NICR (getPrev d (getPrev d nextId)) (getPrev d nextId)
      else Some (prevId, nextId))"

declare descend.simps [code] ascend.simps [code]

definition descendList :: "(address \<Rightarrow> uint) \<Rightarrow> trove_list \<Rightarrow> uint \<Rightarrow> address \<Rightarrow> (address \<times> address) option" where
  "descendList nicr d NICR startId =
     (if head d = startId \<and> nicr startId \<le> NICR then Some (0, startId)
      else descend nicr d NICR startId (getNext d startId))"

definition ascendList :: "(address \<Rightarrow> uint) \<Rightarrow> trove_list \<Rightarrow> uint \<Rightarrow> address \<Rightarrow> (address \<times> address) option" where
  "ascendList nicr d NICR startId =
     (if tail d = startId \<and> NICR \<le> nicr startId then Some (startId, 0)
      else ascend nicr d NICR (getPrev d startId) startId)"

definition findInsertPosition ::
    "(address \<Rightarrow> uint) \<Rightarrow> trove_list \<Rightarrow> uint \<Rightarrow> address \<Rightarrow> address \<Rightarrow> (address \<times> address) option" where
  "findInsertPosition nicr d NICR prevId0 nextId0 =
     (let prevId = (if prevId0 \<noteq> 0 \<and> (\<not> contains d prevId0 \<or> nicr prevId0 < NICR) then 0 else prevId0);
          nextId = (if nextId0 \<noteq> 0 \<and> (\<not> contains d nextId0 \<or> NICR < nicr nextId0) then 0 else nextId0)
      in if prevId = 0 \<and> nextId = 0 then descendList nicr d NICR (head d)
         else if prevId = 0 then ascendList nicr d NICR nextId
         else if nextId = 0 then descendList nicr d NICR prevId
         else descendList nicr d NICR prevId)"

text \<open>The links of a new node between \<open>prevId\<close> and \<open>nextId\<close>.\<close>

definition link :: "trove_list \<Rightarrow> address \<Rightarrow> address \<Rightarrow> address \<Rightarrow> trove_list" where
  "link d0 i prevId nextId =
     (let d = set_exists i d0
      in if prevId = 0 \<and> nextId = 0 then d\<lparr>head := i, tail := i\<rparr>
         else if prevId = 0 then (set_prev (head d) i (set_next i (head d) d))\<lparr>head := i\<rparr>
         else if nextId = 0 then (set_next (tail d) i (set_prev i (tail d) d))\<lparr>tail := i\<rparr>
         else set_prev nextId i (set_next prevId i (set_prev i prevId (set_next i nextId d))))"

definition insert_guards :: "trove_list \<Rightarrow> address \<Rightarrow> uint \<Rightarrow> revert + unit" where
  "insert_guards d i NICR =
     bind_res (require (\<not> isFull d) ''SortedTroves: List is full'') (\<lambda>_.
     bind_res (require (\<not> contains d i) ''SortedTroves: List already contains the node'') (\<lambda>_.
     bind_res (require (i \<noteq> 0) ''SortedTroves: Id cannot be zero'') (\<lambda>_.
     require (0 < NICR) ''SortedTroves: NICR must be positive'')))"

definition insert_position ::
    "(address \<Rightarrow> uint) \<Rightarrow> trove_list \<Rightarrow> uint \<Rightarrow> address \<Rightarrow> address \<Rightarrow> (address \<times> address) option" where
  "insert_position nicr d NICR prevId nextId =
     (if \<not> validInsertPosition nicr d NICR prevId nextId then findInsertPosition nicr d NICR prevId nextId
      else Some (prevId, nextId))"

definition list_insert ::
    "(address \<Rightarrow> uint) \<Rightarrow> trove_list \<Rightarrow> address \<Rightarrow> uint \<Rightarrow> address \<Rightarrow> address \<Rightarrow> (revert + trove_list) option" where
  "list_insert nicr d i NICR prevId nextId =
     (case insert_guards d i NICR of
        Inl e \<Rightarrow> Some (Inl e)
      | Inr _ \<Rightarrow>
          (case insert_position nicr d NICR prevId nextId of
             None \<Rightarrow> None
           | Some (p, n) \<Rightarrow>
               Some (bind_res (u_add (size d) 1) (\<lambda>s. Inr ((link d i p n)\<lparr>size := s\<rparr>)))))"

definition unlink :: "trove_list \<Rightarrow> address \<Rightarrow> trove_list" where
  "unlink d i =
     (if 1 < size d then
        if i = head d then set_prev (getNext d i) 0 (d\<lparr>head := getNext d i\<rparr>)
        else if i = tail d then set_next (getPrev d i) 0 (d\<lparr>tail := getPrev d i\<rparr>)
        else let d1 = set_next (getPrev d i) (getNext d i) d in set_prev (getNext d1 i) (getPrev d1 i) d1
      else d\<lparr>head := 0, tail := 0\<rparr>)"

definition list_remove :: "trove_list \<Rightarrow> address \<Rightarrow> revert + trove_list" where
  "list_remove d i =
     bind_res (require (contains d i) ''SortedTroves: List does not contain the id'') (\<lambda>_.
     let d' = unlink d i; d2 = d'\<lparr>nodes := (nodes d')(i := no_node)\<rparr>
     in bind_res (u_sub (size d2) 1) (\<lambda>s. Inr (d2\<lparr>size := s\<rparr>)))"

definition callerIsTroveManager :: "sorted_troves \<Rightarrow> address \<Rightarrow> revert + unit" where
  "callerIsTroveManager st sender =
     require (sender = st_troveManager st) ''SortedTroves: Caller is not the TroveManager''"

definition callerIsBOorTroveM :: "sorted_troves \<Rightarrow> address \<Rightarrow> revert + unit" where
  "callerIsBOorTroveM st sender =
     require (sender = st_borrowerOperationsAddress st \<or> sender = st_troveManager st)
       ''SortedTroves: Caller is neither BO nor TroveM''"

text \<open>The external functions.\<close>

definition setParams ::
    "(address \<Rightarrow> bool) \<Rightarrow> sorted_troves \<Rightarrow> address \<Rightarrow> uint \<Rightarrow> address \<Rightarrow> address \<Rightarrow> revert + sorted_troves" where
  "setParams is_contract st sender sz troveManagerAddress borrowerOperationsAddress =
     bind_res (require (sender = st_owner st) ''Ownable: caller is not the owner'') (\<lambda>_.
     bind_res (require (0 < sz) ''SortedTroves: Size cant be zero'') (\<lambda>_.
     bind_res (checkContract is_contract troveManagerAddress) (\<lambda>_.
     bind_res (checkContract is_contract borrowerOperationsAddress) (\<lambda>_.
     Inr (st\<lparr>st_data := (st_data st)\<lparr>maxSize := sz\<rparr>, st_troveManager := troveManagerAddress,
             st_borrowerOperationsAddress := borrowerOperationsAddress, st_owner := 0\<rparr>)))))"

definition in_data :: "sorted_troves \<Rightarrow> (revert + trove_list) option \<Rightarrow> (revert + sorted_troves) option" where
  "in_data st r = map_option (map_sum id (\<lambda>d. st\<lparr>st_data := d\<rparr>)) r"

definition insert_trove ::
    "(address \<Rightarrow> uint) \<Rightarrow> sorted_troves \<Rightarrow> address \<Rightarrow> address \<Rightarrow> uint \<Rightarrow> address \<Rightarrow> address
      \<Rightarrow> (revert + sorted_troves) option" where
  "insert_trove nicr st sender i NICR prevId nextId =
     (case callerIsBOorTroveM st sender of
        Inl e \<Rightarrow> Some (Inl e)
      | Inr _ \<Rightarrow> in_data st (list_insert nicr (st_data st) i NICR prevId nextId))"

definition remove_trove :: "sorted_troves \<Rightarrow> address \<Rightarrow> address \<Rightarrow> (revert + sorted_troves) option" where
  "remove_trove st sender i =
     (case callerIsTroveManager st sender of
        Inl e \<Rightarrow> Some (Inl e)
      | Inr _ \<Rightarrow> in_data st (Some (list_remove (st_data st) i)))"

definition list_reInsert ::
    "(address \<Rightarrow> uint) \<Rightarrow> trove_list \<Rightarrow> address \<Rightarrow> uint \<Rightarrow> address \<Rightarrow> address \<Rightarrow> (revert + trove_list) option" where
  "list_reInsert nicr d i newNICR prevId nextId =
     (case bind_res (require (contains d i) ''SortedTroves: List does not contain the id'') (\<lambda>_.
           bind_res (require (0 < newNICR) ''SortedTroves: NICR must be positive'') (\<lambda>_.
           list_remove d i)) of
        Inl e \<Rightarrow> Some (Inl e)
      | Inr d' \<Rightarrow> list_insert nicr d' i newNICR prevId nextId)"

definition reInsert_trove ::
    "(address \<Rightarrow> uint) \<Rightarrow> sorted_troves \<Rightarrow> address \<Rightarrow> address \<Rightarrow> uint \<Rightarrow> address \<Rightarrow> address
      \<Rightarrow> (revert + sorted_troves) option" where
  "reInsert_trove nicr st sender i newNICR prevId nextId =
     (case callerIsBOorTroveM st sender of
        Inl e \<Rightarrow> Some (Inl e)
      | Inr _ \<Rightarrow> in_data st (list_reInsert nicr (st_data st) i newNICR prevId nextId))"

section \<open>The list that the links represent\<close>

fun hd0 :: "address list \<Rightarrow> address" where
  "hd0 [] = 0"
| "hd0 (x # xs) = x"

fun succ_of :: "address list \<Rightarrow> address \<Rightarrow> address" where
  "succ_of [] a = 0"
| "succ_of (x # xs) a = (if x = a then hd0 xs else succ_of xs a)"

definition nodes_of :: "address list \<Rightarrow> address \<Rightarrow> node" where
  "nodes_of xs a =
     (if a \<in> set xs then \<lparr>nd_exists = True, nd_nextId = succ_of xs a, nd_prevId = succ_of (rev xs) a\<rparr> else no_node)"

definition represents :: "trove_list \<Rightarrow> address list \<Rightarrow> bool" where
  "represents d xs \<longleftrightarrow>
     distinct xs \<and> 0 \<notin> set xs \<and> head d = hd0 xs \<and> tail d = hd0 (rev xs) \<and> size d = length xs
     \<and> nodes d = nodes_of xs"

lemma succ_of_skip [simp]: "a \<notin> set ys \<Longrightarrow> succ_of (ys @ zs) a = succ_of zs a"
  by (induction ys) auto

lemma succ_of_prefix: "a \<in> set ys \<Longrightarrow> succ_of (ys @ p # us) a = succ_of (ys @ p # vs) a"
proof (induction ys)
  case (Cons y ys)
  then show ?case by (cases ys) auto
qed simp

lemma hd0_append [simp]: "hd0 (xs @ ys) = (if xs = [] then hd0 ys else hd0 xs)"
  by (cases xs) auto

lemma hd0_eq_0 [simp]: "0 \<notin> set xs \<Longrightarrow> (hd0 xs = 0) = (xs = [])"
  by (cases xs) auto

lemma hd0_in_set: "xs \<noteq> [] \<Longrightarrow> hd0 xs \<in> set xs"
  by (cases xs) auto

lemma hd0_rev_snoc [simp]: "hd0 (rev (xs @ [x])) = x"
  by simp

lemma representsD:
  assumes "represents d xs"
  shows "distinct xs" "0 \<notin> set xs" "head d = hd0 xs" "tail d = hd0 (rev xs)" "size d = length xs"
    and "nodes d a = nodes_of xs a"
  using assms by (simp_all add: represents_def)

lemma contains_represents: "represents d xs \<Longrightarrow> contains d a \<longleftrightarrow> a \<in> set xs"
  by (simp add: contains_def represents_def nodes_of_def no_node_def)

lemma getNext_represents: "represents d (ys @ p # zs) \<Longrightarrow> getNext d p = hd0 zs"
  by (simp add: getNext_def represents_def nodes_of_def)

lemma getPrev_represents: "represents d (ys @ p # zs) \<Longrightarrow> getPrev d p = hd0 (rev ys)"
  by (simp add: getPrev_def represents_def nodes_of_def)

lemma getNext_0: "represents d xs \<Longrightarrow> getNext d 0 = 0"
  by (simp add: getNext_def represents_def nodes_of_def no_node_def)

text \<open>Two neighbours, or an end of the list, are a valid position where the ratio fits between them.\<close>

definition fits :: "(address \<Rightarrow> uint) \<Rightarrow> uint \<Rightarrow> address list \<Rightarrow> address list \<Rightarrow> bool" where
  "fits nicr N ys zs \<longleftrightarrow> (ys \<noteq> [] \<longrightarrow> N \<le> nicr (hd0 (rev ys))) \<and> (zs \<noteq> [] \<longrightarrow> nicr (hd0 zs) \<le> N)"

lemma validInsertPosition_split:
  assumes "represents d (ys @ zs)"
  shows "validInsertPosition nicr d N (hd0 (rev ys)) (hd0 zs) \<longleftrightarrow> fits nicr N ys zs"
proof (cases ys rule: rev_cases)
  case Nil
  with assms show ?thesis
    by (cases zs) (auto simp: validInsertPosition_def fits_def isEmpty_def dest: representsD)
next
  case (snoc ys' p)
  then have "p \<noteq> 0" "getNext d p = hd0 zs" "zs \<noteq> [] \<Longrightarrow> hd0 zs \<noteq> 0" "zs = [] \<Longrightarrow> tail d = p"
    using assms getNext_represents [of d ys' p zs] representsD(2) [OF assms] representsD(4) [OF assms]
    by (auto simp del: neq0_conv)
  then show ?thesis using snoc by (cases "zs = []") (auto simp: validInsertPosition_def fits_def)
qed

lemma validInsertPosition_exists:
  assumes "represents d xs" and "validInsertPosition nicr d N p n"
  shows "\<exists>ys zs. xs = ys @ zs \<and> p = hd0 (rev ys) \<and> n = hd0 zs \<and> fits nicr N ys zs"
proof -
  note d = representsD [OF assms(1)]
  have "\<exists>ys zs. xs = ys @ zs \<and> p = hd0 (rev ys) \<and> n = hd0 zs"
  proof (cases "p = 0")
    case True
    with assms(2) d have "n = hd0 xs" by (auto simp: validInsertPosition_def isEmpty_def split: if_splits)
    with True show ?thesis by (intro exI [of _ "[]"] exI [of _ xs]) simp
  next
    case p: False
    show ?thesis
    proof (cases "n = 0")
      case True
      with p assms(2) d have "p = hd0 (rev xs)" by (auto simp: validInsertPosition_def)
      with True show ?thesis by (intro exI [of _ xs] exI [of _ "[]"]) simp
    next
      case False
      with p assms(2) have nx: "getNext d p = n" by (simp add: validInsertPosition_def)
      with False have "p \<in> set xs" using d(6) [of p] by (auto simp: getNext_def nodes_of_def no_node_def split: if_splits)
      then obtain ys zs where xs: "xs = ys @ p # zs" by (auto dest: split_list)
      with nx assms(1) have "n = hd0 zs" using getNext_represents by blast
      with xs show ?thesis by (intro exI [of _ "ys @ [p]"] exI [of _ zs]) simp
    qed
  qed
  then show ?thesis using assms validInsertPosition_split by blast
qed

section \<open>The search for a position\<close>

lemma descend_finds:
  assumes "represents d (ys @ zs)" and "ys \<noteq> []" and "N \<le> nicr (hd0 (rev ys))"
  shows "\<exists>us vs. zs = us @ vs \<and> descend nicr d N (hd0 (rev ys)) (hd0 zs) = Some (hd0 (rev (ys @ us)), hd0 vs)
     \<and> fits nicr N (ys @ us) vs"
  using assms
proof (induction zs arbitrary: ys)
  case Nil
  have "validInsertPosition nicr d N (hd0 (rev ys)) (hd0 [])"
    using validInsertPosition_split [of d ys "[]" nicr N] Nil by (simp add: fits_def)
  then have "descend nicr d N (hd0 (rev ys)) (hd0 []) = Some (hd0 (rev ys), hd0 [])"
    by (subst descend.simps) simp
  moreover have "fits nicr N ys []" using Nil by (simp add: fits_def)
  ultimately show ?case by simp
next
  case (Cons z zs)
  have nz: "hd0 (rev ys) \<noteq> 0"
    using Cons.prems(1,2) by (metis Un_iff hd0_in_set rev_is_Nil_conv representsD(2) set_append set_rev)
  obtain ys' p where ys: "ys = ys' @ [p]" using Cons.prems(2) by (cases ys rule: rev_cases) auto
  have links: "getNext d (hd0 (rev ys)) = z" "getNext d z = hd0 zs"
    using Cons.prems(1) ys getNext_represents [of d ys' p "z # zs"] getNext_represents [of d ys z zs] by simp_all
  show ?case
  proof (cases "nicr z \<le> N")
    case True
    then have fit: "fits nicr N ys (z # zs)" using Cons.prems(3) by (simp add: fits_def)
    then have "descend nicr d N (hd0 (rev ys)) (hd0 (z # zs)) = Some (hd0 (rev ys), z)"
      using validInsertPosition_split [OF Cons.prems(1)] by (subst descend.simps) simp
    with fit show ?thesis by (intro exI [of _ "[]"] exI [of _ "z # zs"]) simp
  next
    case False
    then have "\<not> validInsertPosition nicr d N (hd0 (rev ys)) (hd0 (z # zs))"
      using validInsertPosition_split [OF Cons.prems(1)] by (simp add: fits_def)
    then have "descend nicr d N (hd0 (rev ys)) (hd0 (z # zs)) = descend nicr d N z (hd0 zs)"
      using nz links by (subst descend.simps) simp
    moreover have "\<exists>us vs. zs = us @ vs \<and> descend nicr d N z (hd0 zs) = Some (hd0 (rev ((ys @ [z]) @ us)), hd0 vs)
        \<and> fits nicr N ((ys @ [z]) @ us) vs"
      using Cons.IH [of "ys @ [z]"] Cons.prems(1) False by simp
    ultimately show ?thesis by (metis append_Cons append_Nil append_assoc)
  qed
qed

lemma ascend_finds:
  assumes "represents d (ys @ zs)" and "zs \<noteq> []" and "nicr (hd0 zs) \<le> N"
  shows "\<exists>us vs. ys = us @ vs \<and> ascend nicr d N (hd0 (rev ys)) (hd0 zs) = Some (hd0 (rev us), hd0 (vs @ zs))
     \<and> fits nicr N us (vs @ zs)"
  using assms
proof (induction ys arbitrary: zs rule: rev_induct)
  case Nil
  have "validInsertPosition nicr d N (hd0 (rev [])) (hd0 zs)"
    using validInsertPosition_split [of d "[]" zs nicr N] Nil by (simp add: fits_def)
  then have "ascend nicr d N (hd0 (rev [])) (hd0 zs) = Some (hd0 (rev []), hd0 zs)"
    by (subst ascend.simps) simp
  moreover have "fits nicr N [] zs" using Nil by (simp add: fits_def)
  ultimately show ?case by simp
next
  case (snoc y ys)
  have nz: "hd0 zs \<noteq> 0" using snoc.prems(1,2) representsD(2) [OF snoc.prems(1)] by simp
  obtain z zs' where zs: "zs = z # zs'" using snoc.prems(2) by (cases zs) auto
  have links: "getPrev d (hd0 zs) = y" "getPrev d y = hd0 (rev ys)"
    using snoc.prems(1) zs getPrev_represents [of d "ys @ [y]" z zs'] getPrev_represents [of d ys y zs] by simp_all
  show ?case
  proof (cases "N \<le> nicr y")
    case True
    then have fit: "fits nicr N (ys @ [y]) zs" using snoc.prems(3) by (simp add: fits_def)
    then have "ascend nicr d N (hd0 (rev (ys @ [y]))) (hd0 zs) = Some (y, hd0 zs)"
      using validInsertPosition_split [OF snoc.prems(1)] by (subst ascend.simps) simp
    with fit show ?thesis by (intro exI [of _ "ys @ [y]"] exI [of _ "[]"]) simp
  next
    case False
    then have "\<not> validInsertPosition nicr d N (hd0 (rev (ys @ [y]))) (hd0 zs)"
      using validInsertPosition_split [OF snoc.prems(1)] by (simp add: fits_def)
    then have "ascend nicr d N (hd0 (rev (ys @ [y]))) (hd0 zs) = ascend nicr d N (hd0 (rev ys)) y"
      using nz links by (subst ascend.simps) simp
    moreover have "\<exists>us vs. ys = us @ vs \<and> ascend nicr d N (hd0 (rev ys)) y = Some (hd0 (rev us), hd0 (vs @ y # zs))
        \<and> fits nicr N us (vs @ y # zs)"
      using snoc.IH [of "y # zs"] snoc.prems(1) False by simp
    ultimately show ?thesis by (metis append_Cons append_Nil append_assoc)
  qed
qed

text \<open>A position that was found: it splits the list where the ratio fits.\<close>

definition found :: "(address \<Rightarrow> uint) \<Rightarrow> uint \<Rightarrow> address list \<Rightarrow> (address \<times> address) option \<Rightarrow> bool" where
  "found nicr N xs r \<longleftrightarrow> (\<exists>ys zs. xs = ys @ zs \<and> r = Some (hd0 (rev ys), hd0 zs) \<and> fits nicr N ys zs)"

lemma foundI: "xs = ys @ zs \<Longrightarrow> r = Some (hd0 (rev ys), hd0 zs) \<Longrightarrow> fits nicr N ys zs \<Longrightarrow> found nicr N xs r"
  by (auto simp: found_def)

lemma descendList_finds:
  assumes "represents d xs" and "p \<in> set xs" and "N \<le> nicr p \<or> p = head d"
  shows "found nicr N xs (descendList nicr d N p)"
proof (cases "head d = p \<and> nicr p \<le> N")
  case True
  then have "p = hd0 xs" using representsD(3) [OF assms(1)] by simp
  then show ?thesis
    using True assms(2) by (intro foundI [of _ "[]" xs]) (auto simp: descendList_def fits_def)
next
  case False
  obtain ys zs where xs: "xs = ys @ p # zs" using assms(2) by (auto dest: split_list)
  have "getNext d p = hd0 zs" using assms(1) xs getNext_represents by blast
  then have "descendList nicr d N p = descend nicr d N (hd0 (rev (ys @ [p]))) (hd0 zs)"
    using False by (auto simp: descendList_def)
  moreover have "N \<le> nicr p" using False assms(3) by auto
  then obtain us vs where "zs = us @ vs" "fits nicr N ((ys @ [p]) @ us) vs"
      "descend nicr d N (hd0 (rev (ys @ [p]))) (hd0 zs) = Some (hd0 (rev ((ys @ [p]) @ us)), hd0 vs)"
    using descend_finds [of d "ys @ [p]" zs N nicr] assms(1) xs by auto
  ultimately show ?thesis using xs by (intro foundI [of _ "(ys @ [p]) @ us" vs]) auto
qed

lemma ascendList_finds:
  assumes "represents d xs" and "n \<in> set xs" and "nicr n \<le> N"
  shows "found nicr N xs (ascendList nicr d N n)"
proof (cases "tail d = n \<and> N \<le> nicr n")
  case True
  then have "n = hd0 (rev xs)" using representsD(4) [OF assms(1)] by simp
  then show ?thesis
    using True assms(2) by (intro foundI [of _ xs "[]"]) (auto simp: ascendList_def fits_def)
next
  case False
  obtain ys zs where xs: "xs = ys @ n # zs" using assms(2) by (auto dest: split_list)
  have "getPrev d n = hd0 (rev ys)" using assms(1) xs getPrev_represents by blast
  then have "ascendList nicr d N n = ascend nicr d N (hd0 (rev ys)) (hd0 (n # zs))"
    using False by (auto simp: ascendList_def)
  moreover obtain us vs where "ys = us @ vs" "fits nicr N us (vs @ n # zs)"
      "ascend nicr d N (hd0 (rev ys)) (hd0 (n # zs)) = Some (hd0 (rev us), hd0 (vs @ n # zs))"
    using ascend_finds [of d ys "n # zs" nicr N] assms xs by auto
  ultimately show ?thesis using xs by (intro foundI [of _ us "vs @ n # zs"]) auto
qed

lemma findInsertPosition_finds:
  assumes "represents d xs"
  shows "found nicr N xs (findInsertPosition nicr d N p n)"
proof -
  let ?p = "if p \<noteq> 0 \<and> (\<not> contains d p \<or> nicr p < N) then 0 else p"
  let ?n = "if n \<noteq> 0 \<and> (\<not> contains d n \<or> N < nicr n) then 0 else n"
  have p: "?p \<noteq> 0 \<Longrightarrow> ?p \<in> set xs \<and> N \<le> nicr ?p" and n: "?n \<noteq> 0 \<Longrightarrow> ?n \<in> set xs \<and> nicr ?n \<le> N"
    using contains_represents [OF assms] by (auto split: if_splits)
  have head: "found nicr N xs (descendList nicr d N (head d))"
  proof (cases "xs = []")
    case True
    then have "head d = 0" "getNext d 0 = 0" using representsD(3) [OF assms] getNext_0 [OF assms] by simp_all
    then have "descendList nicr d N (head d) = Some (0, 0)"
      by (simp add: descendList_def descend.simps [of nicr d N 0])
    then show ?thesis using True by (intro foundI [of _ "[]" "[]"]) (auto simp: fits_def)
  next
    case False
    then show ?thesis
      using descendList_finds [OF assms, of "head d" N nicr] hd0_in_set representsD(3) [OF assms] by simp
  qed
  have "findInsertPosition nicr d N p n = (if ?p = 0 \<and> ?n = 0 then descendList nicr d N (head d)
      else if ?p = 0 then ascendList nicr d N ?n else descendList nicr d N ?p)"
    by (simp only: findInsertPosition_def Let_def if_cancel)
  then show ?thesis
    using head p n descendList_finds [OF assms, of ?p N nicr] ascendList_finds [OF assms, of ?n nicr N]
    by presburger
qed

lemma insert_position_finds:
  assumes "represents d xs"
  shows "found nicr N xs (insert_position nicr d N p n)"
proof (cases "validInsertPosition nicr d N p n")
  case True
  then show ?thesis
    using validInsertPosition_exists [OF assms True] by (auto simp: insert_position_def found_def)
next
  case False
  then show ?thesis using findInsertPosition_finds [OF assms] by (simp add: insert_position_def)
qed

section \<open>Linking and unlinking\<close>

lemma nodes_of_between:
  assumes "distinct (ys @ p # n # zs)" and "i \<notin> set (ys @ p # n # zs)"
  shows "nodes_of (ys @ p # i # n # zs) =
     (nodes_of (ys @ p # n # zs))
       (i := \<lparr>nd_exists = True, nd_nextId = n, nd_prevId = p\<rparr>,
        p := (nodes_of (ys @ p # n # zs) p)\<lparr>nd_nextId := i\<rparr>,
        n := (nodes_of (ys @ p # n # zs) n)\<lparr>nd_prevId := i\<rparr>)"
proof
  fix a
  have pre: "a \<in> set ys \<Longrightarrow> succ_of (ys @ p # i # n # zs) a = succ_of (ys @ p # n # zs) a"
    by (rule succ_of_prefix)
  have post: "a \<in> set zs \<Longrightarrow> succ_of (rev zs @ n # i # p # rev ys) a = succ_of (rev zs @ n # p # rev ys) a"
    by (rule succ_of_prefix) simp
  have disj: "a \<in> set ys \<Longrightarrow> a \<notin> set zs" "a \<in> set zs \<Longrightarrow> a \<notin> set ys" using assms(1) by auto
  consider "a \<in> set ys" | "a = p" | "a = i" | "a = n" | "a \<in> set zs" | "a \<notin> set (ys @ p # i # n # zs)" by auto
  then show "nodes_of (ys @ p # i # n # zs) a =
     ((nodes_of (ys @ p # n # zs))
       (i := \<lparr>nd_exists = True, nd_nextId = n, nd_prevId = p\<rparr>,
        p := (nodes_of (ys @ p # n # zs) p)\<lparr>nd_nextId := i\<rparr>,
        n := (nodes_of (ys @ p # n # zs) n)\<lparr>nd_prevId := i\<rparr>)) a"
    using assms pre post disj by cases (auto simp: nodes_of_def)
qed

lemma nodes_of_front:
  assumes "distinct (n # zs)" and "i \<notin> set (n # zs)"
  shows "nodes_of (i # n # zs) =
     (nodes_of (n # zs))
       (i := \<lparr>nd_exists = True, nd_nextId = n, nd_prevId = 0\<rparr>, n := (nodes_of (n # zs) n)\<lparr>nd_prevId := i\<rparr>)"
proof
  fix a
  have post: "a \<in> set zs \<Longrightarrow> succ_of (rev zs @ n # [i]) a = succ_of (rev zs @ n # []) a"
    by (rule succ_of_prefix) simp
  consider "a = i" | "a = n" | "a \<in> set zs" | "a \<notin> set (i # n # zs)" by auto
  then show "nodes_of (i # n # zs) a = ((nodes_of (n # zs))
       (i := \<lparr>nd_exists = True, nd_nextId = n, nd_prevId = 0\<rparr>, n := (nodes_of (n # zs) n)\<lparr>nd_prevId := i\<rparr>)) a"
    using assms post by cases (auto simp: nodes_of_def)
qed

lemma nodes_of_back:
  assumes "distinct (ys @ [p])" and "i \<notin> set (ys @ [p])"
  shows "nodes_of (ys @ [p, i]) =
     (nodes_of (ys @ [p]))
       (i := \<lparr>nd_exists = True, nd_nextId = 0, nd_prevId = p\<rparr>, p := (nodes_of (ys @ [p]) p)\<lparr>nd_nextId := i\<rparr>)"
proof
  fix a
  have pre: "a \<in> set ys \<Longrightarrow> succ_of (ys @ p # [i]) a = succ_of (ys @ p # []) a"
    by (rule succ_of_prefix)
  consider "a \<in> set ys" | "a = p" | "a = i" | "a \<notin> set (ys @ [p, i])" by auto
  then show "nodes_of (ys @ [p, i]) a = ((nodes_of (ys @ [p]))
       (i := \<lparr>nd_exists = True, nd_nextId = 0, nd_prevId = p\<rparr>, p := (nodes_of (ys @ [p]) p)\<lparr>nd_nextId := i\<rparr>)) a"
    using assms pre by cases (auto simp: nodes_of_def)
qed

lemma nodes_of_single: "nodes_of [i] = (nodes_of [])(i := \<lparr>nd_exists = True, nd_nextId = 0, nd_prevId = 0\<rparr>)"
  by (auto simp: nodes_of_def)

text \<open>A node that is not in the list has no links.\<close>

lemma fresh_node: "represents d xs \<Longrightarrow> i \<notin> set xs \<Longrightarrow> nodes d i = no_node"
  by (simp add: represents_def nodes_of_def)

lemmas link_simps = link_def set_exists_def set_next_def set_prev_def no_node_def

lemma link_represents:
  assumes d: "represents d (ys @ zs)" and i: "i \<notin> set (ys @ zs)" "i \<noteq> 0"
  shows "represents ((link d i (hd0 (rev ys)) (hd0 zs))\<lparr>size := Suc (size d)\<rparr>) (ys @ i # zs)"
proof -
  note dist = representsD(1) [OF d] and nz = representsD(2) [OF d] and sz = representsD(5) [OF d]
  have nodes: "nodes d = nodes_of (ys @ zs)" using d by (simp add: represents_def)
  note fresh = fresh_node [OF d i(1), unfolded nodes]
  consider "ys = []" "zs = []" | n zs' where "ys = []" "zs = n # zs'" | ys' p where "ys = ys' @ [p]" "zs = []"
    | ys' p n zs' where "ys = ys' @ [p]" "zs = n # zs'"
    by (metis list.exhaust rev_exhaust)
  then show ?thesis
  proof cases
    case 1
    then show ?thesis using i nodes sz fresh by (simp add: represents_def link_simps nodes_of_single)
  next
    case 2
    then show ?thesis
      using i nodes sz fresh dist nz representsD(3,4) [OF d] nodes_of_front [of n zs' i]
      by (simp add: represents_def link_simps)
  next
    case 3
    then show ?thesis
      using i nodes sz fresh dist nz representsD(3,4) [OF d] nodes_of_back [of ys' p i]
      by (simp add: represents_def link_simps)
  next
    case 4
    then show ?thesis
      using i nodes sz fresh dist nz representsD(3,4) [OF d] nodes_of_between [of ys' p n zs' i]
      by (auto simp: represents_def link_simps)
  qed
qed

lemma unlink_represents:
  assumes d: "represents d (ys @ i # zs)"
  shows "represents ((unlink d i)\<lparr>nodes := (nodes (unlink d i))(i := no_node), size := size d - 1\<rparr>) (ys @ zs)"
proof -
  note dist = representsD(1) [OF d] and nz = representsD(2) [OF d] and sz = representsD(5) [OF d]
    and ends = representsD(3,4) [OF d]
  have nodes: "nodes d = nodes_of (ys @ i # zs)" using d by (simp add: represents_def)
  have out: "i \<notin> set (ys @ zs)" using dist by auto
  then have gone: "nodes_of (ys @ zs) i = no_node" by (simp add: nodes_of_def)
  have links: "getNext d i = hd0 zs" "getPrev d i = hd0 (rev ys)"
    using getNext_represents [OF d] getPrev_represents [OF d] .
  have inner: "ys \<noteq> [] \<Longrightarrow> head d \<noteq> i" "zs \<noteq> [] \<Longrightarrow> tail d \<noteq> i"
    using out ends hd0_in_set [of ys] hd0_in_set [of "rev zs"] by auto
  consider "ys = []" "zs = []" | n zs' where "ys = []" "zs = n # zs'" | ys' p where "ys = ys' @ [p]" "zs = []"
    | ys' p n zs' where "ys = ys' @ [p]" "zs = n # zs'"
    by (metis list.exhaust rev_exhaust)
  then show ?thesis
  proof cases
    case 1
    then show ?thesis using nodes sz by (simp add: represents_def unlink_def nodes_of_def fun_eq_iff)
  next
    case 2
    then have "nodes_of (n # zs') n = (nodes_of (n # zs') n)\<lparr>nd_prevId := 0\<rparr>" using dist by (simp add: nodes_of_def)
    then have "(nodes d)(n := (nodes d n)\<lparr>nd_prevId := 0\<rparr>, i := no_node) = nodes_of (ys @ zs)"
      using 2 nodes gone dist out nodes_of_front [of n zs' i] by (simp add: fun_eq_iff)
    then show ?thesis using 2 sz ends links dist nz by (simp add: represents_def unlink_def set_prev_def)
  next
    case 3
    then have "nodes_of (ys' @ [p]) p = (nodes_of (ys' @ [p]) p)\<lparr>nd_nextId := 0\<rparr>" using dist by (simp add: nodes_of_def)
    then have "(nodes d)(p := (nodes d p)\<lparr>nd_nextId := 0\<rparr>, i := no_node) = nodes_of (ys @ zs)"
      using 3 nodes gone dist out nodes_of_back [of ys' p i] by (simp add: fun_eq_iff)
    then show ?thesis using 3 sz ends inner(1) links dist nz by (auto simp: represents_def unlink_def set_next_def)
  next
    case 4
    then have "nodes_of (ys' @ p # n # zs') p = (nodes_of (ys' @ p # n # zs') p)\<lparr>nd_nextId := n\<rparr>"
        "nodes_of (ys' @ p # n # zs') n = (nodes_of (ys' @ p # n # zs') n)\<lparr>nd_prevId := p\<rparr>"
      using dist by (auto simp: nodes_of_def)
    then have "(nodes d)(p := (nodes d p)\<lparr>nd_nextId := n\<rparr>, n := (nodes d n)\<lparr>nd_prevId := p\<rparr>, i := no_node) = nodes_of (ys @ zs)"
      using 4 nodes gone dist out nodes_of_between [of ys' p n zs' i] by (simp add: fun_eq_iff)
    then show ?thesis
      using 4 sz ends inner links dist nz
      by (auto simp: represents_def unlink_def set_next_def set_prev_def getNext_def getPrev_def)
  qed
qed

section \<open>The interface\<close>

text \<open>Sorted by falling ratio.\<close>

definition sorted_desc :: "(address \<Rightarrow> uint) \<Rightarrow> address list \<Rightarrow> bool" where
  "sorted_desc nicr xs \<longleftrightarrow> sorted_wrt (\<lambda>a b. nicr b \<le> nicr a) xs"

lemma sorted_desc_rev: "sorted_desc nicr xs \<longleftrightarrow> sorted (rev (map nicr xs))"
  by (simp add: sorted_desc_def sorted_wrt_rev sorted_wrt_map)

lemma sorted_desc_cong: "(\<And>a. a \<in> set xs \<Longrightarrow> f a = g a) \<Longrightarrow> sorted_desc f xs = sorted_desc g xs"
  unfolding sorted_desc_def by (induction xs) auto

lemma sorted_desc_remove1: "sorted_desc f xs \<Longrightarrow> sorted_desc f (remove1 i xs)"
  unfolding sorted_desc_def by (induction xs) (auto dest: notin_set_remove1 [rotated] set_remove1_subset [THEN subsetD])

text \<open>Two sorted lists with the same elements have the same sequence of ratios.\<close>

lemma sorted_desc_unique: "sorted (rev xs) \<Longrightarrow> sorted ys \<Longrightarrow> mset xs = mset ys \<Longrightarrow> xs = rev ys" for xs ys :: "uint list"
  by (metis mset_rev properties_for_sort rev_rev_ident)

text \<open>
  What a client may rely on, whatever hint it gives: a successful insertion puts the element between
  two neighbours where its ratio fits, and a removal takes it out and nothing else.
\<close>

locale sorted_container =
  fixes rep :: "'d \<Rightarrow> address list \<Rightarrow> bool"
    and insert_op :: "(address \<Rightarrow> uint) \<Rightarrow> 'd \<Rightarrow> address \<Rightarrow> uint \<Rightarrow> 'h \<Rightarrow> 'd option"
    and remove_op :: "'d \<Rightarrow> address \<Rightarrow> 'd option"
  assumes distinct: "rep d xs \<Longrightarrow> distinct xs"
    and insert_fits: "rep d xs \<Longrightarrow> insert_op nicr d i N h = Some d' \<Longrightarrow>
      i \<notin> set xs \<and> (\<exists>ys zs. xs = ys @ zs \<and> rep d' (ys @ i # zs) \<and> fits nicr N ys zs)"
    and remove_takes: "rep d xs \<Longrightarrow> remove_op d i = Some d' \<Longrightarrow> i \<in> set xs \<and> rep d' (remove1 i xs)"
begin

lemma insert_sorted:
  assumes "rep d xs" and "sorted_desc nicr xs" and "insert_op nicr d i N h = Some d'"
  shows "\<exists>xs'. rep d' xs' \<and> sorted_desc (nicr(i := N)) xs' \<and> mset xs' = add_mset i (mset xs) \<and> remove1 i xs' = xs"
proof -
  obtain ys zs where s: "xs = ys @ zs" "rep d' (ys @ i # zs)" "fits nicr N ys zs" and i: "i \<notin> set xs"
    using insert_fits [OF assms(1,3)] by blast
  have "N \<le> nicr y" if "y \<in> set ys" for y
    using s(1,3) that assms(2) by (cases ys rule: rev_cases) (auto simp: fits_def sorted_desc_def sorted_wrt_append intro: order_trans)
  moreover have "nicr z \<le> N" if "z \<in> set zs" for z
    using s(1,3) that assms(2) by (cases zs) (auto simp: fits_def sorted_desc_def sorted_wrt_append intro: order_trans)
  moreover have "sorted_desc (nicr(i := N)) us = sorted_desc nicr us" if "i \<notin> set us" for us
    using that by (intro sorted_desc_cong) auto
  then have "sorted_desc (nicr(i := N)) (ys @ zs)" using assms(2) i s(1) by simp
  ultimately have "sorted_desc (nicr(i := N)) (ys @ i # zs)"
    using i s(1) by (auto simp: sorted_desc_def sorted_wrt_append)
  with s i show ?thesis by (auto simp: remove1_append)
qed

text \<open>The sequence of the ratios does not depend on the hint.\<close>

lemma insert_ratios:
  assumes "sorted_desc nicr xs" and "sorted_desc (nicr(i := N)) xs'" and "mset xs' = add_mset i (mset xs)" and "i \<notin> set xs"
  shows "map (nicr(i := N)) xs' = rev (insort N (rev (map nicr xs)))"
proof -
  define f where "f = nicr(i := N)"
  have "map f xs = map nicr xs" using assms(4) by (auto simp: f_def)
  then have "mset (map f xs') = add_mset N (mset (map nicr xs))"
    using assms(3) by (metis f_def fun_upd_same image_mset_add_mset mset_map)
  then have "mset (map f xs') = mset (insort N (rev (map nicr xs)))" by simp
  moreover have "sorted (rev (map f xs'))" using assms(2) by (simp only: f_def sorted_desc_rev)
  moreover have "sorted (insort N (rev (map nicr xs)))" using assms(1) by (simp only: sorted_desc_rev sorted_insort)
  ultimately show ?thesis unfolding f_def by (intro sorted_desc_unique)
qed

lemma remove_sorted:
  assumes "rep d xs" and "sorted_desc nicr xs" and "remove_op d i = Some d'"
  shows "rep d' (remove1 i xs) \<and> sorted_desc nicr (remove1 i xs)"
  using remove_takes [OF assms(1,3)] assms(2) by (simp add: sorted_desc_remove1)

end

section \<open>The operations on represented lists\<close>

lemma list_insert_cases:
  assumes d: "represents d xs" and m: "maxSize d \<le> uint_max" "length xs \<le> maxSize d"
  shows "(\<exists>e. list_insert nicr d i N p n = Some (Inl e))
       \<and> (length xs = maxSize d \<or> i \<in> set xs \<or> i = 0 \<or> N = 0)
     \<or> (\<exists>d' ys zs. list_insert nicr d i N p n = Some (Inr d') \<and> xs = ys @ zs \<and> represents d' (ys @ i # zs)
          \<and> fits nicr N ys zs \<and> maxSize d' = maxSize d)
       \<and> \<not> (length xs = maxSize d \<or> i \<in> set xs \<or> i = 0 \<or> N = 0)"
proof -
  have guards: "insert_guards d i N = Inr () \<longleftrightarrow> \<not> (length xs = maxSize d \<or> i \<in> set xs \<or> i = 0 \<or> N = 0)"
    by (auto simp: insert_guards_def require_def isFull_def representsD(5) [OF d] contains_represents [OF d])
  show ?thesis
  proof (cases "insert_guards d i N")
    case (Inl e)
    with guards show ?thesis by (simp add: list_insert_def)
  next
    case (Inr u)
    with guards have ok: "length xs \<noteq> maxSize d" "i \<notin> set xs" "i \<noteq> 0" "N \<noteq> 0" by auto
    obtain ys zs where s: "xs = ys @ zs" "insert_position nicr d N p n = Some (hd0 (rev ys), hd0 zs)" "fits nicr N ys zs"
      using insert_position_finds [OF d] unfolding found_def by blast
    have "u_add (size d) 1 = Inr (Suc (size d))"
      using ok(1) m representsD(5) [OF d] by (simp add: u_add_def)
    then have "list_insert nicr d i N p n = Some (Inr ((link d i (hd0 (rev ys)) (hd0 zs))\<lparr>size := Suc (size d)\<rparr>))"
      using Inr s(2) by (simp add: list_insert_def)
    moreover have "represents ((link d i (hd0 (rev ys)) (hd0 zs))\<lparr>size := Suc (size d)\<rparr>) (ys @ i # zs)"
      using d s(1) ok by (intro link_represents) auto
    moreover have "maxSize (link d i a b) = maxSize d" for a b
      by (simp add: link_def set_exists_def set_next_def set_prev_def Let_def)
    ultimately show ?thesis using s ok by auto
  qed
qed

lemma list_remove_cases:
  assumes d: "represents d xs"
  shows "i \<notin> set xs \<and> list_remove d i = Inl (Revert ''SortedTroves: List does not contain the id'')
     \<or> (\<exists>d'. i \<in> set xs \<and> list_remove d i = Inr d' \<and> represents d' (remove1 i xs) \<and> maxSize d' = maxSize d)"
proof (cases "i \<in> set xs")
  case False
  then show ?thesis using contains_represents [OF d] by (simp add: list_remove_def)
next
  case True
  then obtain ys zs where xs: "xs = ys @ i # zs" by (auto dest: split_list)
  let ?d = "(unlink d i)\<lparr>nodes := (nodes (unlink d i))(i := no_node), size := size d - 1\<rparr>"
  have keep: "size (unlink d i) = size d" "maxSize (unlink d i) = maxSize d"
    by (simp_all add: unlink_def set_prev_def set_next_def Let_def)
  then have "list_remove d i = Inr ?d"
    using True contains_represents [OF d] representsD(5) [OF d] xs by (simp add: list_remove_def u_sub_def Let_def)
  moreover have "represents ?d (ys @ zs)" using d xs unlink_represents by blast
  moreover have "remove1 i xs = ys @ zs" using representsD(1) [OF d] xs by (auto simp: remove1_append)
  ultimately show ?thesis using True keep by auto
qed

text \<open>The linked list keeps the contract of \<open>sorted_container\<close>.\<close>

definition room :: "trove_list \<Rightarrow> address list \<Rightarrow> bool" where
  "room d xs \<longleftrightarrow> represents d xs \<and> length xs \<le> maxSize d \<and> maxSize d \<le> uint_max"

definition insert_result :: "(address \<Rightarrow> uint) \<Rightarrow> trove_list \<Rightarrow> address \<Rightarrow> uint \<Rightarrow> address \<times> address \<Rightarrow> trove_list option" where
  "insert_result nicr d i N h = (case list_insert nicr d i N (fst h) (snd h) of Some (Inr d') \<Rightarrow> Some d' | _ \<Rightarrow> None)"

definition remove_result :: "trove_list \<Rightarrow> address \<Rightarrow> trove_list option" where
  "remove_result d i = (case list_remove d i of Inr d' \<Rightarrow> Some d' | Inl _ \<Rightarrow> None)"

interpretation linked: sorted_container room insert_result remove_result
proof unfold_locales
  show "distinct xs" if "room d xs" for d xs using that representsD(1) by (auto simp: room_def)
  show "i \<notin> set xs \<and> (\<exists>ys zs. xs = ys @ zs \<and> room d' (ys @ i # zs) \<and> fits nicr N ys zs)"
    if r: "room d xs" and ins: "insert_result nicr d i N h = Some d'" for d xs nicr i N h d'
  proof -
    have "list_insert nicr d i N (fst h) (snd h) = Some (Inr d')"
      using ins by (auto simp: insert_result_def split: option.splits sum.splits)
    then show ?thesis using list_insert_cases [of d xs nicr i N "fst h" "snd h"] r by (fastforce simp: room_def)
  qed
  show "i \<in> set xs \<and> room d' (remove1 i xs)" if r: "room d xs" and rem: "remove_result d i = Some d'" for d xs i d'
  proof -
    have "list_remove d i = Inr d'" using rem by (auto simp: remove_result_def split: sum.splits)
    then show ?thesis
      using list_remove_cases [of d xs i] r by (auto simp: room_def length_remove1)
  qed
qed

text \<open>
  C23. Insertion refines the insertion into a sorted list. On links that represent a list sorted by
  falling ratio, an insertion always ends, whatever the hints are. It reverts exactly where the list is
  full, the node is in it already, or the node or the ratio is zero. Otherwise the links represent the
  old list with the node put in, sorted again, and the sequence of the ratios is the one that insertion
  into a sorted sequence gives: the hints decide on nothing but the order among equal ratios.
\<close>

theorem list_insert_refines:
  assumes "represents d xs" and "sorted_desc nicr xs" and "length xs \<le> maxSize d" and "maxSize d \<le> uint_max"
  shows "\<exists>r. list_insert nicr d i N p n = Some r
     \<and> (\<exists>e. r = Inl e) = (length xs = maxSize d \<or> i \<in> set xs \<or> i = 0 \<or> N = 0)
     \<and> (\<forall>d'. r = Inr d' \<longrightarrow> (\<exists>xs'. represents d' xs' \<and> sorted_desc (nicr(i := N)) xs' \<and> remove1 i xs' = xs
          \<and> map (nicr(i := N)) xs' = rev (insort N (rev (map nicr xs)))))"
proof -
  have room: "room d xs" using assms by (simp add: room_def)
  have post: "\<exists>xs'. represents d' xs' \<and> sorted_desc (nicr(i := N)) xs' \<and> remove1 i xs' = xs
      \<and> map (nicr(i := N)) xs' = rev (insort N (rev (map nicr xs)))"
    if "list_insert nicr d i N p n = Some (Inr d')" for d'
  proof -
    have ins: "insert_result nicr d i N (p, n) = Some d'" using that by (simp add: insert_result_def)
    obtain xs' where xs': "room d' xs'" "sorted_desc (nicr(i := N)) xs'" "mset xs' = add_mset i (mset xs)" "remove1 i xs' = xs"
      using linked.insert_sorted [OF room assms(2) ins] by blast
    then show ?thesis
      using linked.insert_ratios [OF assms(2) xs'(2,3)] linked.insert_fits [OF room ins] by (auto simp: room_def)
  qed
  from list_insert_cases [OF assms(1,4,3), of nicr i N p n] show ?thesis using post by (elim disjE conjE exE) auto
qed

definition empty_list :: "uint \<Rightarrow> trove_list" where
  "empty_list m = \<lparr>head = 0, tail = 0, maxSize = m, size = 0, nodes = (\<lambda>_. no_node)\<rparr>"

lemma represents_empty: "represents (empty_list m) []"
  by (simp add: represents_def empty_list_def nodes_of_def fun_eq_iff)

theorem list_insert_refines_witness:
  "\<exists>d'. list_insert (\<lambda>_. 0) (empty_list 5) 7 110 3 0 = Some (Inr d')
     \<and> (\<exists>xs'. represents d' xs' \<and> map ((\<lambda>_. 0 :: uint)(7 := 110)) xs' = [110])"
proof -
  have "represents (empty_list 5) []" "sorted_desc (\<lambda>_. 0) []" "length [] \<le> maxSize (empty_list 5)" "maxSize (empty_list 5) \<le> uint_max"
    by (rule represents_empty) (simp_all add: sorted_desc_def empty_list_def uint_max_def)
  note spec = list_insert_refines [OF this, of 7 110 3 0]
  show ?thesis
  proof (rule exE [OF spec], elim conjE)
    fix r
    assume r: "list_insert (\<lambda>_. 0) (empty_list 5) 7 110 3 0 = Some r"
      and e: "(\<exists>e. r = Inl e) = (length [] = maxSize (empty_list 5) \<or> 7 \<in> set [] \<or> (7 :: address) = 0 \<or> (110 :: uint) = 0)"
      and s: "\<forall>d'. r = Inr d' \<longrightarrow> (\<exists>xs'. represents d' xs' \<and> sorted_desc ((\<lambda>_. 0)(7 := 110)) xs' \<and> remove1 7 xs' = []
         \<and> map ((\<lambda>_. 0)(7 := 110)) xs' = rev (insort 110 (rev (map (\<lambda>_. 0 :: uint) []))))"
    from e have "\<nexists>e. r = Inl e" by (simp add: empty_list_def)
    with r s show ?thesis by (cases r) auto
  qed
qed

section \<open>Histories\<close>

text \<open>
  The list over time, together with the ratios. A trove is inserted with the ratio that the manager
  has recorded for it; when a trove changes, its ratio changes and it is inserted again; and the
  ratios of all troves may change at once, as long as their order in the list remains, which is what
  the contract relies on for redistributed liquidations.
\<close>

inductive list_step :: "(address \<Rightarrow> uint) \<times> sorted_troves \<Rightarrow> (address \<Rightarrow> uint) \<times> sorted_troves \<Rightarrow> bool" where
  inserted: "insert_trove nicr st sender i (nicr i) p n = Some (Inr st') \<Longrightarrow> list_step (nicr, st) (nicr, st')"
| removed: "remove_trove st sender i = Some (Inr st') \<Longrightarrow> list_step (nicr, st) (nicr, st')"
| reinserted: "reInsert_trove (nicr(i := N)) st sender i N p n = Some (Inr st') \<Longrightarrow>
     list_step (nicr, st) (nicr(i := N), st')"
| drifted: "(\<And>a b. contains (st_data st) a \<Longrightarrow> contains (st_data st) b \<Longrightarrow> nicr a \<le> nicr b \<Longrightarrow> nicr' a \<le> nicr' b) \<Longrightarrow>
     list_step (nicr, st) (nicr', st)"

inductive_cases list_stepE: "list_step (nicr, st) s'"

inductive reachable :: "(address \<Rightarrow> uint) \<times> sorted_troves \<Rightarrow> bool" where
  created: "st_data st = empty_list m \<Longrightarrow> m \<le> uint_max \<Longrightarrow> reachable (nicr, st)"
| stepped: "reachable s \<Longrightarrow> list_step s s' \<Longrightarrow> reachable s'"

definition in_order :: "(address \<Rightarrow> uint) \<times> sorted_troves \<Rightarrow> address list \<Rightarrow> bool" where
  "in_order s xs \<longleftrightarrow> room (st_data (snd s)) xs \<and> sorted_desc (fst s) xs"

lemma in_data_Inr: "in_data st r = Some (Inr st') \<longleftrightarrow> (\<exists>d. r = Some (Inr d) \<and> st' = st\<lparr>st_data := d\<rparr>)"
  by (cases r) (auto simp: in_data_def map_sum_def split: sum.splits)

lemma insert_trove_Inr:
  "insert_trove nicr st sender i N p n = Some (Inr st') \<Longrightarrow>
     \<exists>d. insert_result nicr (st_data st) i N (p, n) = Some d \<and> st' = st\<lparr>st_data := d\<rparr>"
  by (auto simp: insert_trove_def in_data_Inr insert_result_def split: sum.splits)

lemma remove_trove_Inr:
  "remove_trove st sender i = Some (Inr st') \<Longrightarrow> \<exists>d. remove_result (st_data st) i = Some d \<and> st' = st\<lparr>st_data := d\<rparr>"
  by (auto simp: remove_trove_def in_data_Inr remove_result_def split: sum.splits)

lemma reInsert_trove_Inr:
  assumes "reInsert_trove nicr st sender i N p n = Some (Inr st')"
  shows "\<exists>d1 d. remove_result (st_data st) i = Some d1 \<and> insert_result nicr d1 i N (p, n) = Some d \<and> st' = st\<lparr>st_data := d\<rparr>"
proof -
  obtain d where d: "list_reInsert nicr (st_data st) i N p n = Some (Inr d)" "st' = st\<lparr>st_data := d\<rparr>"
    using assms by (auto simp: reInsert_trove_def in_data_Inr split: sum.splits)
  then obtain d1 where "list_remove (st_data st) i = Inr d1" "list_insert nicr d1 i N p n = Some (Inr d)"
    by (auto simp: list_reInsert_def split: sum.splits if_splits)
  with d(2) show ?thesis by (auto simp: remove_result_def insert_result_def)
qed

lemma in_order_insert:
  assumes "in_order (nicr, st) xs" and "insert_result nicr (st_data st) i N h = Some d" and "nicr' = nicr(i := N)"
  shows "\<exists>xs'. in_order (nicr', st\<lparr>st_data := d\<rparr>) xs'"
  using linked.insert_sorted [of "st_data st" xs nicr i N h d] assms by (auto simp: in_order_def)

lemma list_step_in_order:
  assumes "list_step s s'" and "in_order s xs"
  shows "\<exists>xs'. in_order s' xs'"
  using assms
proof (induction arbitrary: xs rule: list_step.induct)
  case (inserted nicr st sender i p n st')
  then show ?case using insert_trove_Inr in_order_insert [where nicr' = nicr] by fastforce
next
  case (removed st sender i st' nicr)
  then show ?case
    using remove_trove_Inr [OF removed.hyps] linked.remove_sorted [of "st_data st" xs nicr i] by (auto simp: in_order_def)
next
  case (reinserted nicr i N st sender p n st')
  obtain d1 d where d: "remove_result (st_data st) i = Some d1" "insert_result (nicr(i := N)) d1 i N (p, n) = Some d"
      "st' = st\<lparr>st_data := d\<rparr>"
    using reInsert_trove_Inr [OF reinserted.hyps] by blast
  have "room d1 (remove1 i xs)" "sorted_desc nicr (remove1 i xs)" "distinct xs"
    using linked.remove_sorted [OF _ _ d(1), of xs nicr] linked.distinct reinserted.prems by (auto simp: in_order_def)
  moreover from this(3) have "sorted_desc (nicr(i := N)) (remove1 i xs) = sorted_desc nicr (remove1 i xs)"
    by (intro sorted_desc_cong) auto
  ultimately have "in_order (nicr(i := N), st\<lparr>st_data := d1\<rparr>) (remove1 i xs)" by (simp add: in_order_def)
  then show ?case using in_order_insert [where st = "st\<lparr>st_data := d1\<rparr>" and nicr' = "nicr(i := N)"] d(2,3) by fastforce
next
  case (drifted st nicr nicr')
  have "\<And>a. a \<in> set xs \<Longrightarrow> contains (st_data st) a"
    using drifted.prems contains_represents by (auto simp: in_order_def room_def)
  then have "sorted_desc nicr' xs"
    using drifted.prems drifted.hyps unfolding in_order_def sorted_desc_def
    by (auto elim!: sorted_wrt_mono_rel [rotated])
  then show ?case using drifted.prems by (auto simp: in_order_def)
qed

lemma reachable_in_order: "reachable s \<Longrightarrow> \<exists>xs. in_order s xs"
proof (induction rule: reachable.induct)
  case (created st m nicr)
  then show ?case
    using represents_empty by (intro exI [of _ "[]"]) (simp add: in_order_def room_def sorted_desc_def, simp add: empty_list_def)
next
  case (stepped s s')
  then show ?case using list_step_in_order by blast
qed



end
