(* ===== verification/Liquity_Math.thy ===== *)
theory Liquity_Math
  imports Complex_Main Evm_Base
begin

text \<open>
  The arithmetic of the protocol: \<open>contracts/dependencies/LiquityMath.sol\<close> and the ratios of
  \<open>contracts/dependencies/Base.sol\<close>. The exponentiation works on numbers with eighteen decimals and rounds at
  every step; the theorem on its accuracy compares it with the power of the real number.
\<close>

section \<open>The library\<close>

definition DECIMAL_PRECISION :: uint where "DECIMAL_PRECISION = 10 ^ 18"
definition NICR_PRECISION :: uint where "NICR_PRECISION = 10 ^ 20"

definition LM_min :: "uint \<Rightarrow> uint \<Rightarrow> uint" where
  "LM_min a b = (if a < b then a else b)"

definition LM_max :: "uint \<Rightarrow> uint \<Rightarrow> uint" where
  "LM_max a b = (if b \<le> a then a else b)"

definition decMul :: "uint \<Rightarrow> uint \<Rightarrow> revert + uint" where
  "decMul x y =
     bind_res (u_mul x y) (\<lambda>prod_xy.
     bind_res (u_add prod_xy (DECIMAL_PRECISION div 2)) (\<lambda>s.
     u_div s DECIMAL_PRECISION))"

text \<open>The loop \<open>while (n > 1)\<close>, and the multiplication after it.\<close>

function decPow_loop :: "uint \<Rightarrow> uint \<Rightarrow> uint \<Rightarrow> revert + uint" where
  "decPow_loop x y n =
     (if n \<le> 1 then decMul x y
      else if n mod 2 = 0 then bind_res (decMul x x) (\<lambda>x'. decPow_loop x' y (n div 2))
      else bind_res (decMul x y) (\<lambda>y'. bind_res (decMul x x) (\<lambda>x'. decPow_loop x' y' ((n - 1) div 2))))"
  by pat_completeness auto
termination by (relation "measure (\<lambda>(_, _, n). n)") auto

declare decPow_loop.simps [simp del]

definition decPow :: "uint \<Rightarrow> uint \<Rightarrow> revert + uint" where
  "decPow base minutes =
     (let minutes = (if 525600000 < minutes then 525600000 else minutes)
      in if minutes = 0 then Inr DECIMAL_PRECISION
         else decPow_loop base DECIMAL_PRECISION minutes)"

definition getAbsoluteDifference :: "uint \<Rightarrow> uint \<Rightarrow> revert + uint" where
  "getAbsoluteDifference a b = (if b \<le> a then u_sub a b else u_sub b a)"

definition computeNominalCR :: "uint \<Rightarrow> uint \<Rightarrow> revert + uint" where
  "computeNominalCR coll debt =
     (if 0 < debt then bind_res (u_mul coll NICR_PRECISION) (\<lambda>c. u_div c debt) else Inr (2 ^ 256 - 1))"

definition computeCR :: "uint \<Rightarrow> uint \<Rightarrow> uint \<Rightarrow> revert + uint" where
  "computeCR coll debt price =
     (if 0 < debt then bind_res (u_mul coll price) (\<lambda>c. u_div c debt) else Inr (2 ^ 256 - 1))"

section \<open>The base contract\<close>

definition MCR :: uint where "MCR = 1100000000000000000"
definition CCR :: uint where "CCR = 1500000000000000000"
definition MIN_NET_DEBT :: uint where "MIN_NET_DEBT = 10 ^ 18"
definition PERCENT_DIVISOR :: uint where "PERCENT_DIVISOR = 200"
definition BORROWING_FEE_FLOOR :: uint where "BORROWING_FEE_FLOOR = DECIMAL_PRECISION div 1000 * 5"

definition getCompositeDebt :: "uint \<Rightarrow> uint" where
  "getCompositeDebt debt = debt"

definition getNetDebt :: "uint \<Rightarrow> uint" where
  "getNetDebt debt = debt"

definition getCollGasCompensation :: "uint \<Rightarrow> uint" where
  "getCollGasCompensation entireColl = entireColl div PERCENT_DIVISOR"

definition requireUserAcceptsFee :: "uint \<Rightarrow> uint \<Rightarrow> uint \<Rightarrow> revert + unit" where
  "requireUserAcceptsFee fee amount maxFeePercentage =
     bind_res (u_mul fee DECIMAL_PRECISION) (\<lambda>f.
     bind_res (u_div f amount) (\<lambda>feePercentage.
     require (feePercentage \<le> maxFeePercentage) ''Fee exceeded provided maximum''))"

section \<open>Rounding\<close>

abbreviation DP :: real where "DP \<equiv> 10 ^ 18"

lemma DECIMAL_PRECISION_real: "real DECIMAL_PRECISION = DP"
  by (simp add: DECIMAL_PRECISION_def)

text \<open>Numbers up to one: the products fit and stay below one.\<close>

lemma decMul_unit:
  assumes "x \<le> DECIMAL_PRECISION" and "y \<le> DECIMAL_PRECISION"
  shows "decMul x y = Inr ((x * y + DECIMAL_PRECISION div 2) div DECIMAL_PRECISION)"
    and "(x * y + DECIMAL_PRECISION div 2) div DECIMAL_PRECISION \<le> DECIMAL_PRECISION"
proof -
  have le: "x * y \<le> DECIMAL_PRECISION * DECIMAL_PRECISION" using assms by (rule mult_le_mono)
  also have "\<dots> + DECIMAL_PRECISION div 2 \<le> uint_max" by (simp add: DECIMAL_PRECISION_def uint_max_def)
  finally have "x * y + DECIMAL_PRECISION div 2 \<le> uint_max" by simp
  then show "decMul x y = Inr ((x * y + DECIMAL_PRECISION div 2) div DECIMAL_PRECISION)"
    by (simp add: decMul_def checked_ok DECIMAL_PRECISION_def)
  have "(x * y + DECIMAL_PRECISION div 2) div DECIMAL_PRECISION
      \<le> (DECIMAL_PRECISION * DECIMAL_PRECISION + DECIMAL_PRECISION div 2) div DECIMAL_PRECISION"
    using le by (simp add: div_le_mono)
  also have "\<dots> = DECIMAL_PRECISION" by (simp add: DECIMAL_PRECISION_def)
  finally show "(x * y + DECIMAL_PRECISION div 2) div DECIMAL_PRECISION \<le> DECIMAL_PRECISION" .
qed

lemma within_half: "\<bar>a - b\<bar> \<le> h" if "a \<le> b + h" "b + h \<le> a + d" "d = 2 * h" for a b h :: real
  using that by simp

lemma decMul_rounds:
  "\<bar>real ((x * y + DECIMAL_PRECISION div 2) div DECIMAL_PRECISION) / DP - real x / DP * (real y / DP)\<bar> \<le> 1 / (2 * DP)"
proof -
  let ?p = "x * y" and ?q = "(x * y + DECIMAL_PRECISION div 2) div DECIMAL_PRECISION"
  have "?q * DECIMAL_PRECISION + (?p + DECIMAL_PRECISION div 2) mod DECIMAL_PRECISION = ?p + DECIMAL_PRECISION div 2"
    by simp
  moreover have "(?p + DECIMAL_PRECISION div 2) mod DECIMAL_PRECISION < DECIMAL_PRECISION"
    by (simp add: DECIMAL_PRECISION_def)
  ultimately have "?q * 10 ^ 18 \<le> ?p + 5 * 10 ^ 17 \<and> ?p + 5 * 10 ^ 17 < ?q * 10 ^ 18 + 10 ^ 18"
    by (simp add: DECIMAL_PRECISION_def)
  then have "real (?q * 10 ^ 18) \<le> real (?p + 5 * 10 ^ 17)" and "real (?p + 5 * 10 ^ 17) \<le> real (?q * 10 ^ 18 + 10 ^ 18)"
    by (simp_all only: of_nat_le_iff less_imp_le)
  then have "real ?q * DP \<le> real x * real y + 5 * 10 ^ 17" and "real x * real y + 5 * 10 ^ 17 \<le> real ?q * DP + DP"
    by (simp_all only: of_nat_add of_nat_mult of_nat_power of_nat_numeral)
  then have "\<bar>real ?q * DP - real x * real y\<bar> \<le> 5 * 10 ^ 17" by (rule within_half) simp
  then have "\<bar>real ?q * DP - real x * real y\<bar> / (DP * DP) \<le> 5 * 10 ^ 17 / (DP * DP)"
    by (rule divide_right_mono) simp
  moreover have "\<bar>real ?q * DP - real x * real y\<bar> / (DP * DP) = \<bar>real ?q / DP - real x / DP * (real y / DP)\<bar>"
    by (simp add: field_simps abs_divide)
  ultimately show ?thesis by simp
qed

section \<open>Accuracy of the exponentiation\<close>

text \<open>The number that \<open>x\<close> stands for, and half a unit in the last place.\<close>

definition dec_of :: "uint \<Rightarrow> real" where "dec_of x = real x / DP"

definition half_ulp :: real where "half_ulp = 1 / (2 * DP)"

lemma dec_of_unit: "x \<le> DECIMAL_PRECISION \<Longrightarrow> 0 \<le> dec_of x \<and> dec_of x \<le> 1"
  using of_nat_le_iff [of x DECIMAL_PRECISION, where 'a = real] by (simp add: dec_of_def DECIMAL_PRECISION_real)

text \<open>A product in the unit interval moves by at most what its factors move by.\<close>

lemma product_moves:
  fixes a b c d :: real
  assumes "0 \<le> a" "a \<le> 1" "0 \<le> d" "d \<le> 1"
  shows "\<bar>a * b - c * d\<bar> \<le> \<bar>b - d\<bar> + \<bar>a - c\<bar>"
proof -
  have "a * b - c * d = a * (b - d) + (a - c) * d" by (simp add: algebra_simps)
  then have "\<bar>a * b - c * d\<bar> \<le> \<bar>a\<bar> * \<bar>b - d\<bar> + \<bar>a - c\<bar> * \<bar>d\<bar>" by (metis abs_mult abs_triangle_ineq)
  also have "\<dots> \<le> 1 * \<bar>b - d\<bar> + \<bar>a - c\<bar> * 1" using assms by (intro add_mono mult_mono) auto
  finally show ?thesis by simp
qed

lemma power_moves:
  fixes a b :: real
  assumes "0 \<le> a" "a \<le> 1" "0 \<le> b" "b \<le> 1"
  shows "\<bar>a ^ m - b ^ m\<bar> \<le> real m * \<bar>a - b\<bar>"
  using norm_power_diff [of a b m] assms by simp

lemma decMul_near:
  assumes "x \<le> DECIMAL_PRECISION" and "y \<le> DECIMAL_PRECISION"
  shows "\<exists>z. decMul x y = Inr z \<and> z \<le> DECIMAL_PRECISION \<and> \<bar>dec_of z - dec_of x * dec_of y\<bar> \<le> half_ulp"
  using decMul_unit [OF assms] decMul_rounds [of x y] by (simp add: dec_of_def half_ulp_def)

lemma decPow_loop_accurate:
  assumes "x \<le> DECIMAL_PRECISION" and "y \<le> DECIMAL_PRECISION" and "1 \<le> n"
  shows "\<exists>r. decPow_loop x y n = Inr r \<and> r \<le> DECIMAL_PRECISION
     \<and> \<bar>dec_of r - dec_of x ^ n * dec_of y\<bar> \<le> real n * half_ulp"
  using assms
proof (induction n arbitrary: x y rule: less_induct)
  case (less n)
  obtain s where s: "decMul x x = Inr s" "s \<le> DECIMAL_PRECISION" "\<bar>dec_of s - dec_of x * dec_of x\<bar> \<le> half_ulp"
    using decMul_near [OF less.prems(1) less.prems(1)] by blast
  obtain t where t: "decMul x y = Inr t" "t \<le> DECIMAL_PRECISION" "\<bar>dec_of t - dec_of x * dec_of y\<bar> \<le> half_ulp"
    using decMul_near [OF less.prems(1,2)] by blast
  note unit = dec_of_unit [OF less.prems(1)] dec_of_unit [OF less.prems(2)] dec_of_unit [OF s(2)] dec_of_unit [OF t(2)]
  have xx: "0 \<le> dec_of x * dec_of x" "dec_of x * dec_of x \<le> 1" using unit(1) by (auto intro: mult_le_one)
  have pow_near: "\<bar>dec_of s ^ m - (dec_of x * dec_of x) ^ m\<bar> \<le> real m * half_ulp" for m
  proof -
    have "\<bar>dec_of s ^ m - (dec_of x * dec_of x) ^ m\<bar> \<le> real m * \<bar>dec_of s - dec_of x * dec_of x\<bar>"
      using unit(3) xx by (intro power_moves) auto
    also have "\<dots> \<le> real m * half_ulp" using s(3) by (intro mult_left_mono) auto
    finally show ?thesis .
  qed
  have step: "\<bar>dec_of r - (dec_of x * dec_of x) ^ m * w\<bar> \<le> (2 * real m + k) * half_ulp"
    if "\<bar>dec_of r - dec_of s ^ m * dec_of v\<bar> \<le> real m * half_ulp" and "\<bar>dec_of v - w\<bar> \<le> k * half_ulp"
      and "0 \<le> w" "w \<le> 1" for r v w m and k :: real
  proof -
    have "\<bar>dec_of s ^ m * dec_of v - (dec_of x * dec_of x) ^ m * w\<bar>
        \<le> \<bar>dec_of v - w\<bar> + \<bar>dec_of s ^ m - (dec_of x * dec_of x) ^ m\<bar>"
      using unit(3) that(3,4) by (intro product_moves) (auto intro: power_le_one)
    with that(1,2) pow_near [of m] show ?thesis by (simp add: algebra_simps)
  qed
  consider "n = 1" | "1 < n" "n mod 2 = 0" | "1 < n" "n mod 2 = 1" using less.prems(3) by force
  then show ?case
  proof cases
    case 1
    then have "decPow_loop x y n = decMul x y" by (simp add: decPow_loop.simps)
    then show ?thesis using t 1 by simp
  next
    case 2
    define m where "m = n div 2"
    have m: "n = 2 * m" "m < n" "1 \<le> m" using 2 by (auto simp: m_def)
    have loop: "decPow_loop x y n = decPow_loop s y m" using 2 s(1) by (simp add: decPow_loop.simps [of x y n] m_def)
    obtain r where "decPow_loop s y m = Inr r" "r \<le> DECIMAL_PRECISION"
        "\<bar>dec_of r - dec_of s ^ m * dec_of y\<bar> \<le> real m * half_ulp"
      using less.IH [OF m(2) s(2) less.prems(2) m(3)] by blast
    then show ?thesis using step [of r m y "dec_of y" 0] unit(2) loop m(1) by (simp add: power_mult power2_eq_square)
  next
    case 3
    define m where "m = (n - 1) div 2"
    have m: "n = 2 * m + 1" "m < n" "1 \<le> m" using 3 unfolding m_def by presburger+
    have loop: "decPow_loop x y n = decPow_loop s t m" using 3 s(1) t(1) by (simp add: decPow_loop.simps [of x y n] m_def)
    obtain r where r: "decPow_loop s t m = Inr r" "r \<le> DECIMAL_PRECISION"
        "\<bar>dec_of r - dec_of s ^ m * dec_of t\<bar> \<le> real m * half_ulp"
      using less.IH [OF m(2) s(2) t(2) m(3)] by blast
    have "0 \<le> dec_of x * dec_of y" "dec_of x * dec_of y \<le> 1" using unit(1,2) by (auto intro: mult_le_one)
    then have "\<bar>dec_of r - (dec_of x * dec_of x) ^ m * (dec_of x * dec_of y)\<bar> \<le> (2 * real m + 1) * half_ulp"
      using t(3) r(3) by (intro step) auto
    moreover have "dec_of x ^ n * dec_of y = (dec_of x * dec_of x) ^ m * (dec_of x * dec_of y)"
      using m(1) by (simp add: power_mult power2_eq_square)
    moreover have "real n = 2 * real m + 1" using m(1) by simp
    ultimately show ?thesis using loop r by metis
  qed
qed

lemma decPow_near:
  assumes "base \<le> DECIMAL_PRECISION"
  shows "\<exists>r. decPow base minutes = Inr r \<and> r \<le> DECIMAL_PRECISION
     \<and> \<bar>dec_of r - dec_of base ^ min minutes 525600000\<bar> \<le> real (min minutes 525600000) * half_ulp"
proof (cases "minutes = 0")
  case True
  then show ?thesis by (simp add: decPow_def dec_of_def DECIMAL_PRECISION_def)
next
  case False
  define n where "n = min minutes 525600000"
  have "1 \<le> n" using False by (simp add: n_def)
  moreover have "decPow base minutes = decPow_loop base DECIMAL_PRECISION n"
    using False by (simp add: decPow_def n_def min_def Let_def)
  moreover have "dec_of DECIMAL_PRECISION = 1" by (simp add: dec_of_def DECIMAL_PRECISION_def)
  ultimately show ?thesis
    using decPow_loop_accurate [OF assms, of DECIMAL_PRECISION n] by (auto simp: n_def)
qed

text \<open>
  C29. The exponentiation is accurate. For a base between zero and one it never reverts, its result is
  again between zero and one, and it differs from the true power by at most half a unit in the last of the
  eighteen decimals per minute of the exponent, which is cut off at a thousand years.
\<close>

theorem decPow_accurate:
  assumes "base \<le> DECIMAL_PRECISION"
  shows "\<exists>r. decPow base minutes = Inr r \<and> r \<le> DECIMAL_PRECISION
     \<and> \<bar>real r / 10 ^ 18 - (real base / 10 ^ 18) ^ min minutes 525600000\<bar> \<le> real (min minutes 525600000) / (2 * 10 ^ 18)"
  using decPow_near [OF assms, of minutes] by (simp add: dec_of_def half_ulp_def)

theorem decPow_accurate_witness:
  "\<exists>r. decPow 999037758833783000 1440 = Inr r \<and> r \<le> DECIMAL_PRECISION
     \<and> \<bar>real r / 10 ^ 18 - (999037758833783000 / 10 ^ 18) ^ 1440\<bar> \<le> 1440 / (2 * 10 ^ 18)"
proof -
  have "999037758833783000 \<le> DECIMAL_PRECISION" by (simp add: DECIMAL_PRECISION_def)
  from decPow_accurate [OF this, of 1440] show ?thesis by (simp only: min_def of_nat_numeral) simp
qed

end
