(* ===== verification/Issuance.thy ===== *)
theory Issuance
  imports Liquity_Math
begin

text \<open>
  The issuance of the SHADY token (\<open>contracts/dependencies/Issuance.sol\<close>, the base of
  \<open>CommunityIssuance\<close> and \<open>LiquidityRewardsIssuance\<close>). The ERC20 token is the record \<open>erc20\<close>, an
  argument of the definitions that call it.
\<close>

section \<open>The contract\<close>

definition SECONDS_IN_ONE_MINUTE :: uint where "SECONDS_IN_ONE_MINUTE = 60"
definition ISSUANCE_FACTOR :: uint where "ISSUANCE_FACTOR = 999998681227695000"
definition SHADYSupplyCap :: uint where "SHADYSupplyCap = 30 * 10 ^ 24"

record issuance =
  is_self :: address
  is_owner :: address
  is_shadyToken :: address
  is_issuerAddress :: address
  is_totalSHADYIssued :: uint
  is_deploymentTime :: uint

definition new_issuance :: "address \<Rightarrow> address \<Rightarrow> uint \<Rightarrow> issuance" where
  "new_issuance self sender now =
     \<lparr>is_self = self, is_owner = sender, is_shadyToken = 0, is_issuerAddress = 0, is_totalSHADYIssued = 0,
      is_deploymentTime = now\<rparr>"

definition issuance_setAddresses ::
    "'t erc20 \<Rightarrow> (address \<Rightarrow> bool) \<Rightarrow> 't \<Rightarrow> issuance \<Rightarrow> address \<Rightarrow> address \<Rightarrow> address \<Rightarrow> revert + issuance" where
  "issuance_setAddresses tok is_contract t s sender shadyTokenAddress issuerAddress =
     bind_res (require (sender = is_owner s) ''Ownable: caller is not the owner'') (\<lambda>_.
     bind_res (checkContract is_contract shadyTokenAddress) (\<lambda>_.
     if tk_balanceOf tok t (is_self s) < SHADYSupplyCap then Inl Panic
     else Inr (s\<lparr>is_shadyToken := shadyTokenAddress, is_issuerAddress := issuerAddress, is_owner := 0\<rparr>)))"

definition callerIsIssuer :: "issuance \<Rightarrow> address \<Rightarrow> revert + unit" where
  "callerIsIssuer s sender = require (sender = is_issuerAddress s) ''CommunityIssuance: caller is not issuer''"

definition getCumulativeIssuanceFraction :: "issuance \<Rightarrow> uint \<Rightarrow> revert + uint" where
  "getCumulativeIssuanceFraction s now =
     bind_res (u_sub now (is_deploymentTime s)) (\<lambda>passed.
     bind_res (u_div passed SECONDS_IN_ONE_MINUTE) (\<lambda>timePassedInMinutes.
     bind_res (decPow ISSUANCE_FACTOR timePassedInMinutes) (\<lambda>power.
     bind_res (u_sub DECIMAL_PRECISION power) (\<lambda>fraction.
     if fraction \<le> DECIMAL_PRECISION then Inr fraction else Inl Panic))))"

definition issueSHADY :: "issuance \<Rightarrow> address \<Rightarrow> uint \<Rightarrow> revert + uint \<times> issuance" where
  "issueSHADY s sender now =
     bind_res (callerIsIssuer s sender) (\<lambda>_.
     bind_res (getCumulativeIssuanceFraction s now) (\<lambda>fraction.
     bind_res (u_mul SHADYSupplyCap fraction) (\<lambda>product.
     bind_res (u_div product DECIMAL_PRECISION) (\<lambda>latestTotalSHADYIssued.
     bind_res (u_sub latestTotalSHADYIssued (is_totalSHADYIssued s)) (\<lambda>issued.
     Inr (issued, s\<lparr>is_totalSHADYIssued := latestTotalSHADYIssued\<rparr>))))))"

definition sendSHADY :: "'t erc20 \<Rightarrow> 't \<Rightarrow> issuance \<Rightarrow> address \<Rightarrow> address \<Rightarrow> uint \<Rightarrow> revert + 't" where
  "sendSHADY tok t s sender account amount =
     bind_res (callerIsIssuer s sender) (\<lambda>_.
     bind_res (u_sub SHADYSupplyCap (is_totalSHADYIssued s)) (\<lambda>rest.
     bind_res (u_add rest amount) (\<lambda>needed.
     bind_res (require (needed \<le> tk_balanceOf tok t (is_self s)) ''Issuance: not enough issued SHADY'') (\<lambda>_.
     bind_res (tk_transfer tok t (is_self s) account amount) (\<lambda>(_, t'). Inr t')))))"

section \<open>The reserve\<close>

text \<open>
  The life of an issuance contract: callers have an address, its addresses are set, it issues and sends tokens, and others use
  the token, which does not take anything from the contract.
\<close>

inductive issuance_step :: "'t erc20 \<Rightarrow> issuance \<times> 't \<Rightarrow> issuance \<times> 't \<Rightarrow> bool" for tok where
  addresses: "sender \<noteq> 0 \<Longrightarrow> issuance_setAddresses tok is_contract t s sender token issuer = Inr s' \<Longrightarrow> issuance_step tok (s, t) (s', t)"
| issued: "sender \<noteq> 0 \<Longrightarrow> issueSHADY s sender now = Inr (n, s') \<Longrightarrow> issuance_step tok (s, t) (s', t)"
| sent: "sender \<noteq> 0 \<Longrightarrow> sendSHADY tok t s sender account amount = Inr t' \<Longrightarrow> issuance_step tok (s, t) (s, t')"
| others: "tk_balanceOf tok t (is_self s) \<le> tk_balanceOf tok t' (is_self s) \<Longrightarrow> issuance_step tok (s, t) (s, t')"

inductive issuance_reachable :: "'t erc20 \<Rightarrow> issuance \<times> 't \<Rightarrow> bool" for tok where
  created: "sender \<noteq> 0 \<Longrightarrow> issuance_reachable tok (new_issuance self sender now, t)"
| stepped: "issuance_reachable tok s \<Longrightarrow> issuance_step tok s s' \<Longrightarrow> issuance_reachable tok s'"

lemma fraction_le_one:
  "getCumulativeIssuanceFraction s now = Inr f \<Longrightarrow> f \<le> DECIMAL_PRECISION"
  by (auto simp: getCumulativeIssuanceFraction_def res_simps split: if_splits)

lemma issueSHADY_result:
  assumes "issueSHADY s sender now = Inr (n, s')"
  shows "sender = is_issuerAddress s" and "is_totalSHADYIssued s' = is_totalSHADYIssued s + n"
    and "is_totalSHADYIssued s' \<le> SHADYSupplyCap" and "s' = s\<lparr>is_totalSHADYIssued := is_totalSHADYIssued s'\<rparr>"
proof -
  obtain f where f: "getCumulativeIssuanceFraction s now = Inr f" "is_totalSHADYIssued s \<le> SHADYSupplyCap * f div DECIMAL_PRECISION"
      "n = SHADYSupplyCap * f div DECIMAL_PRECISION - is_totalSHADYIssued s"
      "s' = s\<lparr>is_totalSHADYIssued := SHADYSupplyCap * f div DECIMAL_PRECISION\<rparr>" "sender = is_issuerAddress s"
    using assms by (auto simp: issueSHADY_def callerIsIssuer_def res_simps split: if_splits)
  have "SHADYSupplyCap * f div DECIMAL_PRECISION \<le> SHADYSupplyCap * DECIMAL_PRECISION div DECIMAL_PRECISION"
    using fraction_le_one [OF f(1)] by (intro div_le_mono mult_le_mono2)
  then have "SHADYSupplyCap * f div DECIMAL_PRECISION \<le> SHADYSupplyCap" by (simp add: DECIMAL_PRECISION_def)
  with f show "sender = is_issuerAddress s" and "is_totalSHADYIssued s' = is_totalSHADYIssued s + n"
    and "is_totalSHADYIssued s' \<le> SHADYSupplyCap" and "s' = s\<lparr>is_totalSHADYIssued := is_totalSHADYIssued s'\<rparr>"
    by simp_all
qed

lemma sendSHADY_result:
  assumes "sendSHADY tok t s sender account amount = Inr t'" and "moves_the_amount tok"
  shows "sender = is_issuerAddress s"
    and "SHADYSupplyCap - is_totalSHADYIssued s \<le> tk_balanceOf tok t' (is_self s)"
proof -
  obtain b where b: "sender = is_issuerAddress s"
      "SHADYSupplyCap - is_totalSHADYIssued s + amount \<le> tk_balanceOf tok t (is_self s)"
      "tk_transfer tok t (is_self s) account amount = Inr (b, t')"
    using assms(1) by (auto simp: sendSHADY_def callerIsIssuer_def res_simps split: if_splits prod.splits)
  have "tk_balanceOf tok t (is_self s) \<le> tk_balanceOf tok t' (is_self s) + amount"
    by (rule transfer_takes [OF b(3) assms(2)])
  with b show "sender = is_issuerAddress s" and "SHADYSupplyCap - is_totalSHADYIssued s \<le> tk_balanceOf tok t' (is_self s)"
    by simp_all
qed

text \<open>Before the addresses are set nothing is issued; afterwards the tokens that are not issued are there.\<close>

definition reserve_kept :: "'t erc20 \<Rightarrow> issuance \<times> 't \<Rightarrow> bool" where
  "reserve_kept tok st \<longleftrightarrow>
     (let s = fst st; t = snd st
      in is_totalSHADYIssued s \<le> SHADYSupplyCap
         \<and> (if is_owner s = 0 then SHADYSupplyCap \<le> tk_balanceOf tok t (is_self s) + is_totalSHADYIssued s
            else is_issuerAddress s = 0 \<and> is_totalSHADYIssued s = 0))"

lemma reserve_kept_step:
  assumes "issuance_step tok st st'" and "reserve_kept tok st" and "moves_the_amount tok"
  shows "reserve_kept tok st'"
  using assms(1,2)
proof (induction rule: issuance_step.induct)
  case (addresses sender is_contract t s token issuer s')
  then show ?case
    by (auto simp: issuance_setAddresses_def reserve_kept_def res_simps checkContract_def split: if_splits)
next
  case (issued sender s now n s' t)
  then have "is_issuerAddress s \<noteq> 0" using issueSHADY_result(1) by auto
  moreover obtain x where x: "s' = s\<lparr>is_totalSHADYIssued := x\<rparr>" using issueSHADY_result(4) [OF issued.hyps(2)] by blast
  have "is_self s' = is_self s" "is_owner s' = is_owner s" "is_issuerAddress s' = is_issuerAddress s"
    by (simp_all add: x)
  ultimately show ?case
    using issued.prems issueSHADY_result(2,3) [OF issued.hyps(2)] by (auto simp: reserve_kept_def split: if_splits)
next
  case (sent sender t s account amount t')
  then have "is_issuerAddress s \<noteq> 0" using sendSHADY_result(1) [OF _ assms(3)] by auto
  then show ?case
    using sent.prems sendSHADY_result(2) [OF sent.hyps(2) assms(3)] by (auto simp: reserve_kept_def split: if_splits)
next
  case (others t s t')
  then show ?case by (auto simp: reserve_kept_def split: if_splits)
qed

text \<open>A contract that had five tokens more than the cap and has sent them.\<close>

lemma issuance_reachable_sample:
  "issuance_reachable plain_token
     ((new_issuance 7 1 100)\<lparr>is_shadyToken := 2, is_issuerAddress := 3, is_owner := 0\<rparr>,
      \<lambda>a. if a = 7 then SHADYSupplyCap else if a = 9 then 5 else 0)"
proof -
  let ?t = "\<lambda>a::address. if a = 7 then SHADYSupplyCap + 5 else (0::uint)"
  let ?s = "(new_issuance 7 1 100)\<lparr>is_shadyToken := 2, is_issuerAddress := 3, is_owner := 0\<rparr>"
  have "issuance_reachable plain_token (new_issuance 7 1 100, ?t)" by (rule created) simp
  moreover have "issuance_step plain_token (new_issuance 7 1 100, ?t) (?s, ?t)"
    by (rule addresses [of 1 _ "\<lambda>_. True" _ _ 2 3])
      (simp_all add: issuance_setAddresses_def checkContract_def new_issuance_def plain_token_def)
  moreover have "SHADYSupplyCap + 5 \<le> uint_max" by (simp add: SHADYSupplyCap_def uint_max_def)
  then have "issuance_step plain_token (?s, ?t) (?s, \<lambda>a. if a = 7 then SHADYSupplyCap else if a = 9 then 5 else 0)"
    by (intro sent [of 3 _ _ _ 9 5])
      (auto simp: sendSHADY_def callerIsIssuer_def new_issuance_def plain_token_def checked_ok fun_eq_iff)
  ultimately show ?thesis by (blast intro: stepped)
qed

text \<open>
  C28. The tokens that have not been issued stay in the contract. Whatever sequence of calls is made,
  the total that is issued never exceeds the supply cap, and once the addresses are set the contract
  holds at least what is left of the cap: \<open>sendSHADY\<close> can only send what was issued before.
\<close>

theorem issuance_keeps_reserve:
  assumes "issuance_reachable tok (s, t)" and "moves_the_amount tok" and "is_owner s = 0"
  shows "is_totalSHADYIssued s \<le> SHADYSupplyCap
     \<and> SHADYSupplyCap - is_totalSHADYIssued s \<le> tk_balanceOf tok t (is_self s)"
proof -
  have "reserve_kept tok (s, t)"
    using assms(1)
  proof (induction rule: issuance_reachable.induct)
    case (created sender self now t)
    then show ?case by (simp add: reserve_kept_def new_issuance_def)
  next
    case (stepped s s')
    then show ?case using reserve_kept_step assms(2) by blast
  qed
  with assms(3) show ?thesis by (auto simp: reserve_kept_def split: if_splits)
qed

theorem issuance_keeps_reserve_witness:
  "SHADYSupplyCap \<le> tk_balanceOf plain_token (\<lambda>a. if a = 7 then SHADYSupplyCap else if a = 9 then 5 else 0) 7"
  using issuance_keeps_reserve [OF issuance_reachable_sample plain_token_moves] by (simp add: new_issuance_def)

section \<open>The first ten years\<close>

lemma issuance_factor_year: "(3 / 10 :: real) \<le> dec_of ISSUANCE_FACTOR ^ 525600"
proof -
  have "3 / 10 \<le> 1 + real 525600 * (dec_of ISSUANCE_FACTOR - 1)" by (simp add: dec_of_def ISSUANCE_FACTOR_def)
  also have "\<dots> \<le> (1 + (dec_of ISSUANCE_FACTOR - 1)) ^ 525600"
    by (rule Bernoulli_inequality) (simp add: dec_of_def)
  finally show ?thesis by simp
qed

lemma issuance_factor_unit: "0 \<le> dec_of ISSUANCE_FACTOR" "dec_of ISSUANCE_FACTOR \<le> 1"
  "1 - dec_of ISSUANCE_FACTOR = 1318772305 / 10 ^ 15"
  by (simp_all add: dec_of_def ISSUANCE_FACTOR_def)

text \<open>Within ten years a minute more changes the true power by more than what the rounding may add.\<close>

lemma issuance_power_drops:
  assumes "n < m" and "m \<le> 5256000"
  shows "dec_of ISSUANCE_FACTOR ^ m + (real n + real m) * half_ulp \<le> dec_of ISSUANCE_FACTOR ^ n"
proof -
  let ?F = "dec_of ISSUANCE_FACTOR"
  have "(3 / 10) ^ 10 \<le> (?F ^ 525600) ^ 10" using issuance_factor_year by (intro power_mono) auto
  also have "\<dots> = ?F ^ 5256000" by (simp add: power_mult [symmetric])
  also have "\<dots> \<le> ?F ^ (m - 1)" using assms(2) issuance_factor_unit by (intro power_decreasing) auto
  finally have "(3 / 10) ^ 10 * (1318772305 / 10 ^ 15) \<le> ?F ^ (m - 1) * (1 - ?F)"
    unfolding issuance_factor_unit(3) by (intro mult_right_mono) auto
  also have "\<dots> = ?F ^ (m - 1) - ?F ^ m" using assms(1) by (cases m) (simp_all add: algebra_simps)
  also have "\<dots> \<le> ?F ^ n - ?F ^ m" using assms(1) issuance_factor_unit by (intro diff_right_mono power_decreasing) auto
  finally have gap: "(3 / 10) ^ 10 * (1318772305 / 10 ^ 15) \<le> ?F ^ n - ?F ^ m" .
  have "(real n + real m) * half_ulp \<le> 10512000 * half_ulp"
    using assms by (intro mult_right_mono) (auto simp: half_ulp_def)
  also have "\<dots> \<le> (3 / 10) ^ 10 * (1318772305 / 10 ^ 15)" by (simp add: half_ulp_def power_divide)
  finally show ?thesis using gap by simp
qed

lemma issuance_power_antitone:
  assumes "n \<le> m" and "m \<le> 5256000"
  shows "\<exists>r r'. decPow ISSUANCE_FACTOR n = Inr r \<and> decPow ISSUANCE_FACTOR m = Inr r' \<and> r' \<le> r \<and> r \<le> DECIMAL_PRECISION"
proof -
  have F: "ISSUANCE_FACTOR \<le> DECIMAL_PRECISION" by (simp add: ISSUANCE_FACTOR_def DECIMAL_PRECISION_def)
  obtain r where r: "decPow ISSUANCE_FACTOR n = Inr r" "r \<le> DECIMAL_PRECISION"
      "\<bar>dec_of r - dec_of ISSUANCE_FACTOR ^ n\<bar> \<le> real n * half_ulp"
    using decPow_near [OF F, of n] assms by auto
  obtain r' where r': "decPow ISSUANCE_FACTOR m = Inr r'" "\<bar>dec_of r' - dec_of ISSUANCE_FACTOR ^ m\<bar> \<le> real m * half_ulp"
    using decPow_near [OF F, of m] assms by auto
  have "r' \<le> r"
  proof (cases "n = m")
    case True
    with r r' show ?thesis by simp
  next
    case False
    then have "dec_of ISSUANCE_FACTOR ^ m + (real n + real m) * half_ulp \<le> dec_of ISSUANCE_FACTOR ^ n"
      using assms by (intro issuance_power_drops) auto
    then have "dec_of r' \<le> dec_of r" using r(3) r'(2) by (simp add: algebra_simps abs_le_iff)
    then show ?thesis by (simp add: dec_of_def)
  qed
  with r r' show ?thesis by blast
qed

text \<open>The total after an issuance at a time.\<close>

definition total_at :: "issuance \<Rightarrow> uint \<Rightarrow> revert + uint" where
  "total_at s now =
     bind_res (getCumulativeIssuanceFraction s now) (\<lambda>fraction.
     bind_res (u_mul SHADYSupplyCap fraction) (\<lambda>product. u_div product DECIMAL_PRECISION))"

lemma total_at_monotone:
  assumes "is_deploymentTime s \<le> t1" and "t1 \<le> t2" and "t2 \<le> is_deploymentTime s + 315360000"
  shows "\<exists>a b. total_at s t1 = Inr a \<and> total_at s t2 = Inr b \<and> a \<le> b"
proof -
  let ?m = "\<lambda>t. (t - is_deploymentTime s) div 60"
  have "?m t1 \<le> ?m t2" using assms by (intro div_le_mono) simp
  moreover have "?m t2 \<le> 315360000 div 60" using assms by (intro div_le_mono) simp
  ultimately obtain r r' where r: "decPow ISSUANCE_FACTOR (?m t1) = Inr r" "decPow ISSUANCE_FACTOR (?m t2) = Inr r'"
      "r' \<le> r" "r \<le> DECIMAL_PRECISION"
    using issuance_power_antitone [of "?m t1" "?m t2"] by auto
  have cap: "SHADYSupplyCap * f \<le> uint_max" if "f \<le> DECIMAL_PRECISION" for f
  proof -
    have "SHADYSupplyCap * f \<le> SHADYSupplyCap * DECIMAL_PRECISION" using that by (rule mult_le_mono2)
    also have "\<dots> \<le> uint_max" by (simp add: SHADYSupplyCap_def DECIMAL_PRECISION_def uint_max_def)
    finally show ?thesis .
  qed
  have total: "total_at s t = Inr (SHADYSupplyCap * (DECIMAL_PRECISION - x) div DECIMAL_PRECISION)"
    if "decPow ISSUANCE_FACTOR (?m t) = Inr x" "x \<le> DECIMAL_PRECISION" "is_deploymentTime s \<le> t" for t x
    using that cap [of "DECIMAL_PRECISION - x"]
    by (simp add: total_at_def getCumulativeIssuanceFraction_def SECONDS_IN_ONE_MINUTE_def u_sub_def u_div_def u_mul_def
        DECIMAL_PRECISION_def)
  have "SHADYSupplyCap * (DECIMAL_PRECISION - r) div DECIMAL_PRECISION
      \<le> SHADYSupplyCap * (DECIMAL_PRECISION - r') div DECIMAL_PRECISION"
    using r(3) by (intro div_le_mono mult_le_mono2) simp
  then show ?thesis using total [OF r(1,4)] total [OF r(2)] r(3,4) assms by simp
qed

text \<open>
  C33. The issuance does not get stuck. The total is computed by the rounding exponentiation, and a call
  reverts where a later total comes out smaller than the recorded one. In the first ten years this cannot
  happen: for a state that an issuance at some time has left, a call of the issuer at any later time of
  the first ten years returns, and the recorded total becomes the one of that time.
\<close>

theorem issueSHADY_returns:
  assumes "issueSHADY s0 issuer t1 = Inr (n, s)" and "t1 \<le> t2" and "t2 \<le> is_deploymentTime s0 + 315360000"
  shows "\<exists>n' s'. issueSHADY s issuer t2 = Inr (n', s') \<and> total_at s t2 = Inr (is_totalSHADYIssued s')
     \<and> is_totalSHADYIssued s' = is_totalSHADYIssued s + n'"
proof -
  have s: "s = s0\<lparr>is_totalSHADYIssued := is_totalSHADYIssued s\<rparr>" and caller: "issuer = is_issuerAddress s0"
    using issueSHADY_result [OF assms(1)] by simp_all
  then obtain x where x: "s = s0\<lparr>is_totalSHADYIssued := x\<rparr>" by blast
  have same: "total_at s t = total_at s0 t" "callerIsIssuer s issuer = Inr ()" for t
    using caller by (simp_all add: x total_at_def getCumulativeIssuanceFraction_def callerIsIssuer_def)
  have issue: "issueSHADY s' a t = bind_res (callerIsIssuer s' a) (\<lambda>_. bind_res (total_at s' t) (\<lambda>latest.
      bind_res (u_sub latest (is_totalSHADYIssued s')) (\<lambda>issued. Inr (issued, s'\<lparr>is_totalSHADYIssued := latest\<rparr>))))"
    for s' a t by (simp add: issueSHADY_def total_at_def bind_res_assoc)
  have now: "total_at s0 t1 = Inr (is_totalSHADYIssued s)"
    using assms(1) unfolding issue by (auto simp: res_simps)
  have "is_deploymentTime s0 \<le> t1"
    using now by (auto simp: total_at_def getCumulativeIssuanceFraction_def res_simps)
  then obtain b where "total_at s0 t2 = Inr b" "is_totalSHADYIssued s \<le> b"
    using total_at_monotone [of s0 t1 t2] assms(2,3) now by auto
  then show ?thesis unfolding issue by (simp add: same u_sub_def)
qed

theorem issueSHADY_returns_witness:
  "\<exists>s n' s'. issueSHADY (new_issuance 7 1 0 \<lparr>is_issuerAddress := 9\<rparr>) 9 0 = Inr (0, s)
     \<and> issueSHADY s 9 31536000 = Inr (n', s')"
proof -
  let ?s0 = "new_issuance 7 1 0 \<lparr>is_issuerAddress := 9\<rparr>"
  have start: "issueSHADY ?s0 9 0 = Inr (0, ?s0)"
    by (simp add: issueSHADY_def callerIsIssuer_def getCumulativeIssuanceFraction_def new_issuance_def u_sub_def u_div_def
        u_mul_def SECONDS_IN_ONE_MINUTE_def decPow_def DECIMAL_PRECISION_def)
  have "is_deploymentTime ?s0 = 0" by (simp add: new_issuance_def)
  then have "\<exists>n' s'. issueSHADY ?s0 9 31536000 = Inr (n', s')"
    using issueSHADY_returns [OF start, of 31536000] by auto
  with start show ?thesis by blast
qed

end
