(* ===== verification/Protocol_Tokens.thy ===== *)
theory Protocol_Tokens
  imports Issuance
begin

text \<open>
  The two tokens of the protocol and the lockups: \<open>contracts/SHADYToken.sol\<close>, \<open>contracts/SIMToken.sol\<close>,
  \<open>contracts/LockupContract.sol\<close> and \<open>contracts/LockupContractFactory.sol\<close>. The contracts \<open>ERC20\<close> and
  \<open>ERC20Permit\<close> that the tokens inherit are OpenZeppelin's: they are the record \<open>oz_erc20\<close>, whose
  functions take the hook \<open>_beforeTokenTransfer\<close> that the token overrides, and the state of the balances
  and allowances is abstract. The theorems are about the share of the multisig, which stays where it is or
  in lockups for a year, and about the funds of the issuance. Events are not modelled.
\<close>

section \<open>The inherited token\<close>

type_synonym transfer_hook = "address \<Rightarrow> address \<Rightarrow> uint \<Rightarrow> revert + unit"

record ('t, 'p) oz_erc20 =
  oz_balanceOf :: "'t \<Rightarrow> address \<Rightarrow> uint"
  oz_allowance :: "'t \<Rightarrow> address \<Rightarrow> address \<Rightarrow> uint"
  oz_mint :: "transfer_hook \<Rightarrow> 't \<Rightarrow> address \<Rightarrow> uint \<Rightarrow> revert + 't"
  oz_burn :: "transfer_hook \<Rightarrow> 't \<Rightarrow> address \<Rightarrow> uint \<Rightarrow> revert + 't"
  oz_transfer :: "transfer_hook \<Rightarrow> 't \<Rightarrow> address \<Rightarrow> address \<Rightarrow> uint \<Rightarrow> revert + 't"
  oz_transferFrom :: "transfer_hook \<Rightarrow> 't \<Rightarrow> address \<Rightarrow> address \<Rightarrow> address \<Rightarrow> uint \<Rightarrow> revert + 't"
  oz_approve :: "'t \<Rightarrow> address \<Rightarrow> address \<Rightarrow> uint \<Rightarrow> revert + 't"
  oz_spendAllowance :: "'t \<Rightarrow> address \<Rightarrow> address \<Rightarrow> uint \<Rightarrow> revert + 't"
  oz_permit :: "'t \<Rightarrow> address \<Rightarrow> 'p \<Rightarrow> revert + 't"

section \<open>SHADY\<close>

record shady_token =
  sh_self :: address
  sh_deploymentStartTime :: uint
  sh_multisigAddress :: address
  sh_communityIssuanceAddress :: address
  sh_liquidityRewardsIssuanceAddress :: address
  sh_lockupContractFactory :: address

definition ONE_YEAR_IN_SECONDS :: uint where "ONE_YEAR_IN_SECONDS = 31536000"
definition ONE_MILLION :: uint where "ONE_MILLION = 10 ^ 24"

definition isFirstYear :: "shady_token \<Rightarrow> uint \<Rightarrow> revert + bool" where
  "isFirstYear c now =
     bind_res (u_sub now (sh_deploymentStartTime c)) (\<lambda>d. Inr (d < ONE_YEAR_IN_SECONDS))"

definition requireValidRecipient :: "shady_token \<Rightarrow> address \<Rightarrow> revert + unit" where
  "requireValidRecipient c recipient =
     bind_res (require (recipient \<noteq> sh_self c) ''SHADY: Cannot transfer tokens directly to the SHADY token contract'') (\<lambda>_.
     require (recipient \<noteq> sh_communityIssuanceAddress c \<and> recipient \<noteq> sh_liquidityRewardsIssuanceAddress c)
       ''SHADY: Cannot transfer tokens directly to an issuance or ve contract'')"

text \<open>\<open>isRegisteredLockup\<close> of the factory is the argument \<open>registered\<close> here and the definition below in the system.\<close>

definition beforeTokenTransfer :: "(address \<Rightarrow> bool) \<Rightarrow> shady_token \<Rightarrow> uint \<Rightarrow> transfer_hook" where
  "beforeTokenTransfer registered c now from to amount =
     bind_res
       (if from = sh_multisigAddress c
        then bind_res (isFirstYear c now) (\<lambda>first.
          if first then require (registered to) ''SHADY: recipient must be a LockupContract registered in the Factory''
          else Inr ())
        else Inr ()) (\<lambda>_.
     if from \<noteq> 0 then requireValidRecipient c to else Inr ())"

definition requireNotMultisigInFirstYear :: "shady_token \<Rightarrow> uint \<Rightarrow> address \<Rightarrow> revert + unit" where
  "requireNotMultisigInFirstYear c now sender =
     bind_res (isFirstYear c now) (\<lambda>first.
     if first then require (sender \<noteq> sh_multisigAddress c) ''SHADY: caller must not be the multisig'' else Inr ())"

definition shady_constructor ::
    "('t, 'p) oz_erc20 \<Rightarrow> (address \<Rightarrow> bool) \<Rightarrow> (address \<Rightarrow> bool) \<Rightarrow> uint \<Rightarrow> address \<Rightarrow> 't
      \<Rightarrow> address \<Rightarrow> address \<Rightarrow> address \<Rightarrow> address \<Rightarrow> address \<Rightarrow> revert + shady_token \<times> 't" where
  "shady_constructor oz is_contract registered now self t0 communityIssuance liquidityRewards lockupFactory spender multisig =
     bind_res (checkContract is_contract communityIssuance) (\<lambda>_.
     bind_res (checkContract is_contract liquidityRewards) (\<lambda>_.
     bind_res (checkContract is_contract lockupFactory) (\<lambda>_.
     let c = \<lparr>sh_self = self, sh_deploymentStartTime = now, sh_multisigAddress = multisig,
              sh_communityIssuanceAddress = communityIssuance, sh_liquidityRewardsIssuanceAddress = liquidityRewards,
              sh_lockupContractFactory = lockupFactory\<rparr>;
         hook = beforeTokenTransfer registered c now;
         depositorsEntitlement = ONE_MILLION * 30;
         lpRewardsEntitlement = ONE_MILLION * 30;
         spenderEntitlement = ONE_MILLION * 14;
         multisigEntitlement = ONE_MILLION * 100 - depositorsEntitlement - lpRewardsEntitlement - spenderEntitlement
     in bind_res (oz_mint oz hook t0 communityIssuance depositorsEntitlement) (\<lambda>t1.
        bind_res (oz_mint oz hook t1 liquidityRewards lpRewardsEntitlement) (\<lambda>t2.
        bind_res (oz_mint oz hook t2 spender spenderEntitlement) (\<lambda>t3.
        bind_res (oz_mint oz hook t3 multisig multisigEntitlement) (\<lambda>t4.
        Inr (c, t4))))))))"

definition shady_approve :: "('t, 'p) oz_erc20 \<Rightarrow> shady_token \<Rightarrow> uint \<Rightarrow> address \<Rightarrow> address \<Rightarrow> uint \<Rightarrow> 't \<Rightarrow> revert + 't" where
  "shady_approve oz c now sender spender amount t =
     bind_res (requireNotMultisigInFirstYear c now sender) (\<lambda>_. oz_approve oz t sender spender amount)"

definition shady_increaseAllowance :: "('t, 'p) oz_erc20 \<Rightarrow> shady_token \<Rightarrow> uint \<Rightarrow> address \<Rightarrow> address \<Rightarrow> uint \<Rightarrow> 't \<Rightarrow> revert + 't" where
  "shady_increaseAllowance oz c now sender spender addedValue t =
     bind_res (requireNotMultisigInFirstYear c now sender) (\<lambda>_.
     bind_res (u_add (oz_allowance oz t sender spender) addedValue) (\<lambda>a. oz_approve oz t sender spender a))"

definition shady_decreaseAllowance :: "('t, 'p) oz_erc20 \<Rightarrow> shady_token \<Rightarrow> uint \<Rightarrow> address \<Rightarrow> address \<Rightarrow> uint \<Rightarrow> 't \<Rightarrow> revert + 't" where
  "shady_decreaseAllowance oz c now sender spender subtractedValue t =
     bind_res (requireNotMultisigInFirstYear c now sender) (\<lambda>_.
     let currentAllowance = oz_allowance oz t sender spender in
     bind_res (require (subtractedValue \<le> currentAllowance) ''ERC20: decreased allowance below zero'') (\<lambda>_.
     oz_approve oz t sender spender (currentAllowance - subtractedValue)))"

section \<open>SIM\<close>

record sim_token =
  sm_self :: address
  sm_troveManagerAddress :: address
  sm_stabilityPoolAddress :: address
  sm_borrowerOperationsAddress :: address

definition no_hook :: transfer_hook where
  "no_hook _ _ _ = Inr ()"

definition sim_constructor :: "(address \<Rightarrow> bool) \<Rightarrow> address \<Rightarrow> address \<Rightarrow> address \<Rightarrow> address \<Rightarrow> revert + sim_token" where
  "sim_constructor is_contract self troveManager stabilityPool borrowerOperations =
     bind_res (checkContract is_contract troveManager) (\<lambda>_.
     bind_res (checkContract is_contract stabilityPool) (\<lambda>_.
     bind_res (checkContract is_contract borrowerOperations) (\<lambda>_.
     Inr \<lparr>sm_self = self, sm_troveManagerAddress = troveManager, sm_stabilityPoolAddress = stabilityPool,
          sm_borrowerOperationsAddress = borrowerOperations\<rparr>)))"

definition sim_requireValidRecipient :: "sim_token \<Rightarrow> address \<Rightarrow> revert + unit" where
  "sim_requireValidRecipient c recipient =
     bind_res (require (recipient \<noteq> sm_self c) ''SIM: Cannot transfer tokens directly to the SIM token contract'') (\<lambda>_.
     require (recipient \<noteq> sm_stabilityPoolAddress c \<and> recipient \<noteq> sm_troveManagerAddress c
         \<and> recipient \<noteq> sm_borrowerOperationsAddress c)
       ''SIM: Cannot transfer tokens directly to the StabilityPool, TroveManager or BorrowerOps'')"

definition sim_mint :: "('t, 'p) oz_erc20 \<Rightarrow> sim_token \<Rightarrow> address \<Rightarrow> address \<Rightarrow> uint \<Rightarrow> 't \<Rightarrow> revert + 't" where
  "sim_mint oz c sender account amount t =
     bind_res (require (sender = sm_borrowerOperationsAddress c) ''SIMToken: Caller is not BorrowerOperations'') (\<lambda>_.
     oz_mint oz no_hook t account amount)"

definition sim_burn :: "('t, 'p) oz_erc20 \<Rightarrow> sim_token \<Rightarrow> address \<Rightarrow> address \<Rightarrow> uint \<Rightarrow> 't \<Rightarrow> revert + 't" where
  "sim_burn oz c sender account amount t =
     bind_res (require (sender = sm_borrowerOperationsAddress c \<or> sender = sm_troveManagerAddress c \<or> sender = sm_stabilityPoolAddress c)
       ''SIM: Caller is neither BorrowerOperations nor TroveManager nor StabilityPool'') (\<lambda>_.
     oz_burn oz no_hook t account amount)"

definition sim_transfer :: "('t, 'p) oz_erc20 \<Rightarrow> sim_token \<Rightarrow> address \<Rightarrow> address \<Rightarrow> uint \<Rightarrow> 't \<Rightarrow> revert + 't" where
  "sim_transfer oz c sender to amount t =
     bind_res (sim_requireValidRecipient c to) (\<lambda>_. oz_transfer oz no_hook t sender to amount)"

definition sim_transferFrom :: "('t, 'p) oz_erc20 \<Rightarrow> sim_token \<Rightarrow> address \<Rightarrow> address \<Rightarrow> address \<Rightarrow> uint \<Rightarrow> 't \<Rightarrow> revert + 't" where
  "sim_transferFrom oz c sender from to amount t =
     bind_res (sim_requireValidRecipient c to) (\<lambda>_.
     bind_res (oz_spendAllowance oz t from sender amount) (\<lambda>t'.
     oz_transfer oz no_hook t' from to amount))"

definition sim_sendToPool :: "('t, 'p) oz_erc20 \<Rightarrow> sim_token \<Rightarrow> address \<Rightarrow> address \<Rightarrow> address \<Rightarrow> uint \<Rightarrow> 't \<Rightarrow> revert + 't" where
  "sim_sendToPool oz c sender from pool amount t =
     bind_res (require (sender = sm_stabilityPoolAddress c) ''SIM: Caller is not the StabilityPool'') (\<lambda>_.
     oz_transfer oz no_hook t from pool amount)"

definition sim_returnFromPool :: "('t, 'p) oz_erc20 \<Rightarrow> sim_token \<Rightarrow> address \<Rightarrow> address \<Rightarrow> address \<Rightarrow> uint \<Rightarrow> 't \<Rightarrow> revert + 't" where
  "sim_returnFromPool oz c sender pool receiver amount t =
     bind_res (require (sender = sm_troveManagerAddress c \<or> sender = sm_stabilityPoolAddress c)
       ''SIM: Caller is neither TroveManager nor StabilityPool'') (\<lambda>_.
     oz_transfer oz no_hook t pool receiver amount)"

section \<open>Lockups\<close>

record lockup_contract =
  lk_beneficiary :: address
  lk_shadyToken :: address
  lk_unlockTime :: uint

record lockup_factory =
  fc_owner :: address
  fc_shadyTokenAddress :: address
  fc_lockupContractToDeployer :: "address \<Rightarrow> address"

text \<open>\<open>start_of\<close> is \<open>getDeploymentStartTime\<close> of the token at an address.\<close>

definition new_lockup :: "(address \<Rightarrow> uint) \<Rightarrow> address \<Rightarrow> address \<Rightarrow> uint \<Rightarrow> revert + lockup_contract" where
  "new_lockup start_of token beneficiary unlockTime =
     bind_res (u_add (start_of token) ONE_YEAR_IN_SECONDS) (\<lambda>earliest.
     bind_res (require (earliest \<le> unlockTime) ''LockupContract: unlock time must be at least one year after system deployment'') (\<lambda>_.
     Inr \<lparr>lk_beneficiary = beneficiary, lk_shadyToken = token, lk_unlockTime = unlockTime\<rparr>))"

definition setSHADYTokenAddress :: "(address \<Rightarrow> bool) \<Rightarrow> address \<Rightarrow> address \<Rightarrow> lockup_factory \<Rightarrow> revert + lockup_factory" where
  "setSHADYTokenAddress is_contract sender token f =
     bind_res (require (sender = fc_owner f) ''Ownable: caller is not the owner'') (\<lambda>_.
     bind_res (checkContract is_contract token) (\<lambda>_.
     Inr (f\<lparr>fc_shadyTokenAddress := token, fc_owner := 0\<rparr>)))"

text \<open>\<open>new LockupContract(...)\<close> creates a contract at the address \<open>new\<close>.\<close>

definition deployLockupContract ::
    "(address \<Rightarrow> uint) \<Rightarrow> address \<Rightarrow> address \<Rightarrow> address \<Rightarrow> uint \<Rightarrow> lockup_factory \<Rightarrow> revert + lockup_contract \<times> lockup_factory" where
  "deployLockupContract start_of new_address sender beneficiary unlockTime f =
     bind_res (require (fc_shadyTokenAddress f \<noteq> 0) ''LCF: SHADY address is not set'') (\<lambda>_.
     bind_res (new_lockup start_of (fc_shadyTokenAddress f) beneficiary unlockTime) (\<lambda>lockup.
     Inr (lockup, f\<lparr>fc_lockupContractToDeployer := (fc_lockupContractToDeployer f)(new_address := sender)\<rparr>)))"

definition isRegisteredLockup :: "lockup_factory \<Rightarrow> address \<Rightarrow> bool" where
  "isRegisteredLockup f a \<longleftrightarrow> fc_lockupContractToDeployer f a \<noteq> 0"

text \<open>\<open>withdrawSHADY\<close> of the lockup at \<open>self\<close>; \<open>transfer\<close> is that of the token it holds, which returns true or reverts.\<close>

definition withdrawSHADY ::
    "(address \<Rightarrow> uint) \<Rightarrow> (address \<Rightarrow> address \<Rightarrow> uint \<Rightarrow> revert + 's) \<Rightarrow> uint \<Rightarrow> address \<Rightarrow> address \<Rightarrow> lockup_contract \<Rightarrow> revert + 's" where
  "withdrawSHADY balanceOf transfer now sender self l =
     bind_res (require (sender = lk_beneficiary l) ''LockupContract: caller is not the beneficiary'') (\<lambda>_.
     bind_res (require (lk_unlockTime l \<le> now) ''LockupContract: The lockup duration must have passed'') (\<lambda>_.
     transfer self (lk_beneficiary l) (balanceOf self)))"

section \<open>What the inherited token promises\<close>

text \<open>
  The documented behaviour of \<open>ERC20\<close> and \<open>ERC20Permit\<close>: a call that returns has called the hook before
  the tokens moved, has moved the amount, and has changed allowances only where its name says.
\<close>

definition moved :: "(address \<Rightarrow> uint) \<Rightarrow> address \<Rightarrow> address \<Rightarrow> uint \<Rightarrow> address \<Rightarrow> uint" where
  "moved bal from to n a =
     (if from = to then bal a else if a = from then bal a - n else if a = to then bal a + n else bal a)"

definition mint_moves :: "('t, 'p) oz_erc20 \<Rightarrow> bool" where
  "mint_moves oz \<longleftrightarrow> (\<forall>h t a n t'. oz_mint oz h t a n = Inr t' \<longrightarrow>
     oz_balanceOf oz t' = (oz_balanceOf oz t)(a := oz_balanceOf oz t a + n))"

definition transfer_moves :: "('t, 'p) oz_erc20 \<Rightarrow> bool" where
  "transfer_moves oz \<longleftrightarrow> (\<forall>h t from to n t'. oz_transfer oz h t from to n = Inr t' \<longrightarrow>
     h from to n = Inr () \<and> n \<le> oz_balanceOf oz t from
     \<and> oz_balanceOf oz t' = moved (oz_balanceOf oz t) from to n \<and> oz_allowance oz t' = oz_allowance oz t)"

definition transferFrom_moves :: "('t, 'p) oz_erc20 \<Rightarrow> bool" where
  "transferFrom_moves oz \<longleftrightarrow> (\<forall>h t sender from to n t'. oz_transferFrom oz h t sender from to n = Inr t' \<longrightarrow>
     h from to n = Inr () \<and> n \<le> oz_balanceOf oz t from \<and> n \<le> oz_allowance oz t from sender
     \<and> oz_balanceOf oz t' = moved (oz_balanceOf oz t) from to n
     \<and> (\<forall>a b. oz_allowance oz t' a b \<le> oz_allowance oz t a b))"

definition approval_of_owner :: "('t, 'p) oz_erc20 \<Rightarrow> 't \<Rightarrow> address \<Rightarrow> 't \<Rightarrow> bool" where
  "approval_of_owner oz t owner t' \<longleftrightarrow>
     oz_balanceOf oz t' = oz_balanceOf oz t
     \<and> (\<forall>a b. a \<noteq> owner \<longrightarrow> oz_allowance oz t' a b = oz_allowance oz t a b)"

definition approvals_of_owner :: "('t, 'p) oz_erc20 \<Rightarrow> bool" where
  "approvals_of_owner oz \<longleftrightarrow>
     (\<forall>t owner spender n t'. oz_approve oz t owner spender n = Inr t' \<longrightarrow> approval_of_owner oz t owner t')
     \<and> (\<forall>t owner p t'. oz_permit oz t owner p = Inr t' \<longrightarrow> approval_of_owner oz t owner t')"

definition erc20_laws :: "('t, 'p) oz_erc20 \<Rightarrow> bool" where
  "erc20_laws oz \<longleftrightarrow> mint_moves oz \<and> transfer_moves oz \<and> transferFrom_moves oz \<and> approvals_of_owner oz"

lemma mint_law:
  assumes "oz_mint oz h t a n = Inr t'" and "erc20_laws oz"
  shows "oz_balanceOf oz t' = (oz_balanceOf oz t)(a := oz_balanceOf oz t a + n)"
proof -
  have "mint_moves oz" using assms(2) by (simp add: erc20_laws_def)
  from this [unfolded mint_moves_def, rule_format, OF assms(1)] show ?thesis .
qed

lemma transfer_law:
  assumes "oz_transfer oz h t from to n = Inr t'" and "erc20_laws oz"
  shows "h from to n = Inr () \<and> n \<le> oz_balanceOf oz t from
     \<and> oz_balanceOf oz t' = moved (oz_balanceOf oz t) from to n \<and> oz_allowance oz t' = oz_allowance oz t"
proof -
  have "transfer_moves oz" using assms(2) by (simp add: erc20_laws_def)
  from this [unfolded transfer_moves_def, THEN spec, THEN spec, THEN spec, THEN spec, THEN spec, THEN spec, THEN mp, OF assms(1)]
  show ?thesis .
qed

lemma transferFrom_law:
  assumes "oz_transferFrom oz h t sender from to n = Inr t'" and "erc20_laws oz"
  shows "h from to n = Inr () \<and> n \<le> oz_balanceOf oz t from \<and> n \<le> oz_allowance oz t from sender
     \<and> oz_balanceOf oz t' = moved (oz_balanceOf oz t) from to n
     \<and> (\<forall>a b. oz_allowance oz t' a b \<le> oz_allowance oz t a b)"
proof -
  have "transferFrom_moves oz" using assms(2) by (simp add: erc20_laws_def)
  from this [unfolded transferFrom_moves_def, THEN spec, THEN spec, THEN spec, THEN spec, THEN spec, THEN spec, THEN spec, THEN mp, OF assms(1)]
  show ?thesis .
qed

lemma approve_law:
  assumes "oz_approve oz t owner spender n = Inr t'" and "erc20_laws oz"
  shows "approval_of_owner oz t owner t'"
  using assms unfolding erc20_laws_def approvals_of_owner_def by blast

lemma permit_law:
  assumes "oz_permit oz t owner p = Inr t'" and "erc20_laws oz"
  shows "approval_of_owner oz t owner t'"
  using assms unfolding erc20_laws_def approvals_of_owner_def by blast

text \<open>A move out of a set of accounts lowers their sum only if it leaves the set.\<close>

lemma sum_moved:
  assumes "finite K" and "n \<le> bal from" and "from \<in> K \<Longrightarrow> n = 0 \<or> to \<in> K"
  shows "sum bal K \<le> sum (moved bal from to n) K"
proof (cases "from \<in> K \<and> n \<noteq> 0 \<and> from \<noteq> to")
  case False
  then have "\<And>a. a \<in> K \<Longrightarrow> bal a \<le> moved bal from to n a" by (auto simp: moved_def)
  then show ?thesis by (rule sum_mono)
next
  case True
  with assms(3) have "K = insert from (insert to (K - {from, to}))" and ne: "from \<noteq> to" by auto
  then have split: "sum f K = f from + f to + sum f (K - {from, to})" for f :: "address \<Rightarrow> uint"
    using assms(1) by (metis (no_types, lifting) Diff_iff Diff_insert_absorb add.assoc finite_Diff finite_insert insert_iff sum.insert)
  have "sum (moved bal from to n) (K - {from, to}) = sum bal (K - {from, to})"
    by (rule sum.cong) (auto simp: moved_def)
  then show ?thesis using ne assms(2) by (simp add: split moved_def)
qed

section \<open>The share of the multisig\<close>

record 't shady_system =
  sy_token :: shady_token
  sy_state :: 't
  sy_factory :: lockup_factory
  sy_lockups :: "(address \<times> lockup_contract) list"
  sy_now :: uint

definition lockup_addresses :: "'t shady_system \<Rightarrow> address set" where
  "lockup_addresses s = fst ` set (sy_lockups s)"

definition shady_hook :: "'t shady_system \<Rightarrow> transfer_hook" where
  "shady_hook s = beforeTokenTransfer (isRegisteredLockup (sy_factory s)) (sy_token s) (sy_now s)"

text \<open>
  The life of the token: time passes, accounts approve, sign permits and transfer, the factory is bound to
  the token once and deploys lockups at fresh addresses, and the lockups pay out. A lockup contract makes no
  other call, and nobody has a key that signs for its address.
\<close>

inductive shady_step :: "('t, 'p) oz_erc20 \<Rightarrow> 't shady_system \<Rightarrow> 't shady_system \<Rightarrow> bool" for oz where
  tick: "sy_now s \<le> now \<Longrightarrow> shady_step oz s (s\<lparr>sy_now := now\<rparr>)"
| approve: "sender \<notin> lockup_addresses s \<Longrightarrow> shady_approve oz (sy_token s) (sy_now s) sender spender n (sy_state s) = Inr t
    \<Longrightarrow> shady_step oz s (s\<lparr>sy_state := t\<rparr>)"
| increase: "sender \<notin> lockup_addresses s \<Longrightarrow> shady_increaseAllowance oz (sy_token s) (sy_now s) sender spender n (sy_state s) = Inr t
    \<Longrightarrow> shady_step oz s (s\<lparr>sy_state := t\<rparr>)"
| decrease: "sender \<notin> lockup_addresses s \<Longrightarrow> shady_decreaseAllowance oz (sy_token s) (sy_now s) sender spender n (sy_state s) = Inr t
    \<Longrightarrow> shady_step oz s (s\<lparr>sy_state := t\<rparr>)"
| permit: "owner \<notin> lockup_addresses s \<Longrightarrow> oz_permit oz (sy_state s) owner p = Inr t \<Longrightarrow> shady_step oz s (s\<lparr>sy_state := t\<rparr>)"
| transfer: "sender \<notin> lockup_addresses s \<Longrightarrow> oz_transfer oz (shady_hook s) (sy_state s) sender to n = Inr t
    \<Longrightarrow> shady_step oz s (s\<lparr>sy_state := t\<rparr>)"
| transferFrom: "oz_transferFrom oz (shady_hook s) (sy_state s) sender from to n = Inr t \<Longrightarrow> shady_step oz s (s\<lparr>sy_state := t\<rparr>)"
| bind_factory: "setSHADYTokenAddress is_contract sender (sh_self (sy_token s)) (sy_factory s) = Inr f
    \<Longrightarrow> shady_step oz s (s\<lparr>sy_factory := f\<rparr>)"
| deploy: "sender \<noteq> 0 \<Longrightarrow> a \<notin> lockup_addresses s \<Longrightarrow> a \<noteq> sh_multisigAddress (sy_token s) \<Longrightarrow> (\<And>b. oz_allowance oz (sy_state s) a b = 0)
    \<Longrightarrow> start_of (sh_self (sy_token s)) = sh_deploymentStartTime (sy_token s)
    \<Longrightarrow> deployLockupContract start_of a sender beneficiary unlockTime (sy_factory s) = Inr (l, f)
    \<Longrightarrow> shady_step oz s (s\<lparr>sy_factory := f, sy_lockups := sy_lockups s @ [(a, l)]\<rparr>)"
| withdraw: "(a, l) \<in> set (sy_lockups s)
    \<Longrightarrow> withdrawSHADY (oz_balanceOf oz (sy_state s)) (oz_transfer oz (shady_hook s) (sy_state s)) (sy_now s) sender a l = Inr t
    \<Longrightarrow> shady_step oz s (s\<lparr>sy_state := t\<rparr>)"

text \<open>The system after the constructor of the token, with a factory that has not been used.\<close>

inductive shady_created :: "('t, 'p) oz_erc20 \<Rightarrow> 't shady_system \<Rightarrow> bool" for oz where
  "fc_shadyTokenAddress f = 0 \<Longrightarrow> (\<And>a. fc_lockupContractToDeployer f a = 0)
    \<Longrightarrow> shady_constructor oz is_contract (isRegisteredLockup f) now self t0 community rewards factory spender multisig = Inr (c, t)
    \<Longrightarrow> shady_created oz \<lparr>sy_token = c, sy_state = t, sy_factory = f, sy_lockups = [], sy_now = now\<rparr>"

definition locked_accounts :: "'t shady_system \<Rightarrow> address set" where
  "locked_accounts s = insert (sh_multisigAddress (sy_token s)) (lockup_addresses s)"

definition year_end :: "'t shady_system \<Rightarrow> uint" where
  "year_end s = sh_deploymentStartTime (sy_token s) + ONE_YEAR_IN_SECONDS"

definition share_locked :: "('t, 'p) oz_erc20 \<Rightarrow> 't shady_system \<Rightarrow> bool" where
  "share_locked oz s \<longleftrightarrow> (sy_now s < year_end s \<longrightarrow> ONE_MILLION * 26 \<le> sum (oz_balanceOf oz (sy_state s)) (locked_accounts s))"

definition lockups_sound :: "('t, 'p) oz_erc20 \<Rightarrow> 't shady_system \<Rightarrow> bool" where
  "lockups_sound oz s \<longleftrightarrow>
     sh_deploymentStartTime (sy_token s) \<le> sy_now s
     \<and> fc_shadyTokenAddress (sy_factory s) \<in> {0, sh_self (sy_token s)}
     \<and> (\<forall>a. isRegisteredLockup (sy_factory s) a \<longleftrightarrow> a \<in> lockup_addresses s)
     \<and> sh_multisigAddress (sy_token s) \<notin> lockup_addresses s
     \<and> (\<forall>(a, l) \<in> set (sy_lockups s). year_end s \<le> lk_unlockTime l)
     \<and> (\<forall>a \<in> lockup_addresses s. \<forall>b. oz_allowance oz (sy_state s) a b = 0)"

lemma approvals_approve:
  assumes "erc20_laws oz"
  shows "shady_approve oz c now sender spender n t = Inr t' \<Longrightarrow> approval_of_owner oz t sender t'"
    and "shady_increaseAllowance oz c now sender spender n t = Inr t' \<Longrightarrow> approval_of_owner oz t sender t'"
    and "shady_decreaseAllowance oz c now sender spender n t = Inr t' \<Longrightarrow> approval_of_owner oz t sender t'"
  using approve_law [OF _ assms]
  by (auto simp: shady_approve_def shady_increaseAllowance_def shady_decreaseAllowance_def bind_res_eq_Inr Let_def split: if_splits)

text \<open>A step that changes only the state of the token keeps the other parts of the invariant.\<close>

lemma state_step_sound:
  assumes "lockups_sound oz s" and "share_locked oz s"
    and "\<And>a b. a \<in> lockup_addresses s \<Longrightarrow> oz_allowance oz t a b \<le> oz_allowance oz (sy_state s) a b"
    and "sy_now s < year_end s \<Longrightarrow> sum (oz_balanceOf oz (sy_state s)) (locked_accounts s) \<le> sum (oz_balanceOf oz t) (locked_accounts s)"
  shows "lockups_sound oz (s\<lparr>sy_state := t\<rparr>) \<and> share_locked oz (s\<lparr>sy_state := t\<rparr>)"
proof
  have "oz_allowance oz t a b = 0" if "a \<in> lockup_addresses s" for a b
    using assms(1) assms(3) [OF that, of b] that by (simp add: lockups_sound_def)
  then show "lockups_sound oz (s\<lparr>sy_state := t\<rparr>)"
    using assms(1) by (simp add: lockups_sound_def lockup_addresses_def year_end_def)
  show "share_locked oz (s\<lparr>sy_state := t\<rparr>)"
    using assms(2,4) by (fastforce simp: share_locked_def locked_accounts_def lockup_addresses_def year_end_def)
qed

lemma approval_step_sound:
  assumes "approval_of_owner oz (sy_state s) owner t" and "owner \<notin> lockup_addresses s" and "lockups_sound oz s" and "share_locked oz s"
  shows "lockups_sound oz (s\<lparr>sy_state := t\<rparr>) \<and> share_locked oz (s\<lparr>sy_state := t\<rparr>)"
proof (rule state_step_sound [OF assms(3,4)])
  show "oz_allowance oz t a b \<le> oz_allowance oz (sy_state s) a b" if "a \<in> lockup_addresses s" for a b
    using assms(1,2) that unfolding approval_of_owner_def by (metis order_refl)
  show "sum (oz_balanceOf oz (sy_state s)) (locked_accounts s) \<le> sum (oz_balanceOf oz t) (locked_accounts s)"
    using assms(1) by (simp add: approval_of_owner_def)
qed

lemma finite_locked: "finite (locked_accounts s)"
  by (simp add: locked_accounts_def lockup_addresses_def)

text \<open>In the first year the hook lets the multisig send to lockups only.\<close>

lemma hook_first_year:
  assumes "shady_hook s (sh_multisigAddress (sy_token s)) to n = Inr ()" and "lockups_sound oz s" and "sy_now s < year_end s"
  shows "to \<in> lockup_addresses s"
proof -
  have "sh_deploymentStartTime (sy_token s) \<le> sy_now s" "sy_now s - sh_deploymentStartTime (sy_token s) < ONE_YEAR_IN_SECONDS"
    using assms(2,3) by (auto simp: lockups_sound_def year_end_def)
  then have "isRegisteredLockup (sy_factory s) to"
    using assms(1) by (auto simp: shady_hook_def beforeTokenTransfer_def isFirstYear_def checked_ok bind_res_eq_Inr split: if_splits)
  then show ?thesis using assms(2) by (simp add: lockups_sound_def)
qed

lemma moving_step_sound:
  assumes "shady_hook s from to n = Inr ()" and "n \<le> oz_balanceOf oz (sy_state s) from"
    and "oz_balanceOf oz t = moved (oz_balanceOf oz (sy_state s)) from to n"
    and "\<And>a b. oz_allowance oz t a b \<le> oz_allowance oz (sy_state s) a b"
    and "sy_now s < year_end s \<Longrightarrow> from \<in> lockup_addresses s \<Longrightarrow> n = 0"
    and "lockups_sound oz s" and "share_locked oz s"
  shows "lockups_sound oz (s\<lparr>sy_state := t\<rparr>) \<and> share_locked oz (s\<lparr>sy_state := t\<rparr>)"
proof (rule state_step_sound [OF assms(6,7)])
  show "oz_allowance oz t a b \<le> oz_allowance oz (sy_state s) a b" for a b by (rule assms(4))
  assume year: "sy_now s < year_end s"
  have "n = 0 \<or> to \<in> locked_accounts s" if "from \<in> locked_accounts s"
    using that assms(1,5) hook_first_year [OF _ assms(6) year] year unfolding locked_accounts_def by blast
  from sum_moved [where bal = "oz_balanceOf oz (sy_state s)", OF finite_locked [of s] assms(2) this]
  show "sum (oz_balanceOf oz (sy_state s)) (locked_accounts s) \<le> sum (oz_balanceOf oz t) (locked_accounts s)"
    by (simp add: assms(3))
qed

lemma transfer_step_sound:
  assumes "oz_transfer oz (shady_hook s) (sy_state s) from to n = Inr t" and "erc20_laws oz"
    and "sy_now s < year_end s \<Longrightarrow> from \<notin> lockup_addresses s"
    and "lockups_sound oz s" and "share_locked oz s"
  shows "lockups_sound oz (s\<lparr>sy_state := t\<rparr>) \<and> share_locked oz (s\<lparr>sy_state := t\<rparr>)"
proof -
  note law = transfer_law [OF assms(1,2)]
  show ?thesis
    using law assms(3) by (intro moving_step_sound [of s "from" to n oz t] assms(4,5)) auto
qed

lemma transferFrom_step_sound:
  assumes "oz_transferFrom oz (shady_hook s) (sy_state s) sender from to n = Inr t" and "erc20_laws oz"
    and "lockups_sound oz s" and "share_locked oz s"
  shows "lockups_sound oz (s\<lparr>sy_state := t\<rparr>) \<and> share_locked oz (s\<lparr>sy_state := t\<rparr>)"
proof -
  note law = transferFrom_law [OF assms(1,2)]
  have "from \<in> lockup_addresses s \<Longrightarrow> n = 0" using law assms(3) by (auto simp: lockups_sound_def)
  then show ?thesis
    using law by (intro moving_step_sound [of s "from" to n oz t] assms(3,4)) auto
qed

lemma withdraw_step_sound:
  assumes "(a, l) \<in> set (sy_lockups s)"
    and "withdrawSHADY (oz_balanceOf oz (sy_state s)) (oz_transfer oz (shady_hook s) (sy_state s)) (sy_now s) sender a l = Inr t"
    and "erc20_laws oz" and "lockups_sound oz s" and "share_locked oz s"
  shows "lockups_sound oz (s\<lparr>sy_state := t\<rparr>) \<and> share_locked oz (s\<lparr>sy_state := t\<rparr>)"
proof -
  obtain to n where t: "oz_transfer oz (shady_hook s) (sy_state s) a to n = Inr t" and late: "lk_unlockTime l \<le> sy_now s"
    using assms(2) by (auto simp: withdrawSHADY_def split: if_splits)
  have "year_end s \<le> lk_unlockTime l" using assms(1,4) by (auto simp: lockups_sound_def)
  with late have "\<not> sy_now s < year_end s" by simp
  then show ?thesis using transfer_step_sound [OF t assms(3) _ assms(4,5)] by blast
qed

lemma deploy_step_sound:
  assumes "sender \<noteq> 0" and "a \<notin> lockup_addresses s" and "a \<noteq> sh_multisigAddress (sy_token s)"
    and "\<And>b. oz_allowance oz (sy_state s) a b = 0"
    and "start_of (sh_self (sy_token s)) = sh_deploymentStartTime (sy_token s)"
    and "deployLockupContract start_of a sender beneficiary unlockTime (sy_factory s) = Inr (l, f)"
    and "lockups_sound oz s" and "share_locked oz s"
  shows "lockups_sound oz (s\<lparr>sy_factory := f, sy_lockups := sy_lockups s @ [(a, l)]\<rparr>)
    \<and> share_locked oz (s\<lparr>sy_factory := f, sy_lockups := sy_lockups s @ [(a, l)]\<rparr>)"
proof
  let ?s' = "s\<lparr>sy_factory := f, sy_lockups := sy_lockups s @ [(a, l)]\<rparr>"
  have tok: "fc_shadyTokenAddress (sy_factory s) = sh_self (sy_token s)"
    using assms(6,7) by (auto simp: deployLockupContract_def lockups_sound_def split: if_splits)
  have f: "f = (sy_factory s)\<lparr>fc_lockupContractToDeployer := (fc_lockupContractToDeployer (sy_factory s))(a := sender)\<rparr>"
    and l: "year_end s \<le> lk_unlockTime l"
    using assms(6) unfolding deployLockupContract_def tok
    by (auto simp: new_lockup_def bind_res_eq_Inr checked_Inr assms(5) year_end_def split: if_splits)
  have addr: "lockup_addresses ?s' = insert a (lockup_addresses s)" by (simp add: lockup_addresses_def)
  have reg: "isRegisteredLockup f b \<longleftrightarrow> b \<in> insert a (lockup_addresses s)" for b
    using assms(1,7) by (auto simp: isRegisteredLockup_def f lockups_sound_def)
  show "lockups_sound oz ?s'"
    unfolding lockups_sound_def addr
    using assms(3,4,7) l tok by (auto simp: reg lockups_sound_def year_end_def) (simp add: f)
  have "sum (oz_balanceOf oz (sy_state s)) (locked_accounts s) \<le> sum (oz_balanceOf oz (sy_state s)) (locked_accounts ?s')"
    by (rule sum_mono2 [OF finite_locked]) (auto simp: locked_accounts_def addr)
  then show "share_locked oz ?s'" using assms(8) by (auto simp: share_locked_def year_end_def)
qed

lemma shady_step_sound:
  assumes "shady_step oz s s'" and "erc20_laws oz" and "lockups_sound oz s" and "share_locked oz s"
  shows "lockups_sound oz s' \<and> share_locked oz s'"
  using assms(1)
proof cases
  case (tick now)
  then show ?thesis using assms(3,4)
    by (auto simp: lockups_sound_def share_locked_def locked_accounts_def lockup_addresses_def year_end_def)
next
  case (approve sender spender n t)
  then show ?thesis using approval_step_sound [OF approvals_approve(1) [OF assms(2)] _ assms(3,4)] by simp
next
  case (increase sender spender n t)
  then show ?thesis using approval_step_sound [OF approvals_approve(2) [OF assms(2)] _ assms(3,4)] by simp
next
  case (decrease sender spender n t)
  then show ?thesis using approval_step_sound [OF approvals_approve(3) [OF assms(2)] _ assms(3,4)] by simp
next
  case (permit owner p t)
  then show ?thesis using approval_step_sound [OF permit_law [OF _ assms(2)] _ assms(3,4)] by simp
next
  case (transfer sender to n t)
  show ?thesis unfolding transfer(1) by (rule transfer_step_sound [OF transfer(3) assms(2) transfer(2) assms(3,4)])
next
  case (transferFrom sender "from" to n t)
  show ?thesis unfolding transferFrom(1) by (rule transferFrom_step_sound [OF transferFrom(2) assms(2-4)])
next
  case (bind_factory is_contract sender f)
  have f: "f = (sy_factory s)\<lparr>fc_shadyTokenAddress := sh_self (sy_token s), fc_owner := 0\<rparr>"
    using bind_factory(2) by (auto simp: setSHADYTokenAddress_def bind_res_eq_Inr split: if_splits)
  have same: "lockup_addresses (s\<lparr>sy_factory := f\<rparr>) = lockup_addresses s" "year_end (s\<lparr>sy_factory := f\<rparr>) = year_end s"
      "isRegisteredLockup f = isRegisteredLockup (sy_factory s)"
    by (simp_all add: lockup_addresses_def year_end_def isRegisteredLockup_def f fun_eq_iff)
  have "lockups_sound oz (s\<lparr>sy_factory := f\<rparr>)"
    using assms(3) unfolding lockups_sound_def same by (simp add: same) (simp add: f)
  moreover have "share_locked oz (s\<lparr>sy_factory := f\<rparr>)"
    using assms(4) unfolding share_locked_def locked_accounts_def same by simp
  ultimately show ?thesis unfolding bind_factory(1) ..
next
  case (deploy sender a start_of beneficiary unlockTime l f)
  show ?thesis unfolding deploy(1) by (rule deploy_step_sound [OF deploy(2-7) assms(3,4)])
next
  case (withdraw a l sender t)
  show ?thesis unfolding withdraw(1) by (rule withdraw_step_sound [OF withdraw(2,3) assms(2-4)])
qed

text \<open>The constructor mints 26 million to the multisig, whoever else receives tokens.\<close>

lemma constructor_result:
  assumes "shady_constructor oz is_contract registered now self t0 community rewards factory spender multisig = Inr (c, t)"
    and "erc20_laws oz"
  shows "c = \<lparr>sh_self = self, sh_deploymentStartTime = now, sh_multisigAddress = multisig,
      sh_communityIssuanceAddress = community, sh_liquidityRewardsIssuanceAddress = rewards, sh_lockupContractFactory = factory\<rparr>"
    and "ONE_MILLION * 26 \<le> oz_balanceOf oz t multisig" and "ONE_MILLION * 30 \<le> oz_balanceOf oz t community"
proof -
  define c0 where "c0 = \<lparr>sh_self = self, sh_deploymentStartTime = now, sh_multisigAddress = multisig,
      sh_communityIssuanceAddress = community, sh_liquidityRewardsIssuanceAddress = rewards, sh_lockupContractFactory = factory\<rparr>"
  obtain h t1 t2 t3 where t: "oz_mint oz h t0 community (ONE_MILLION * 30) = Inr t1" "oz_mint oz h t1 rewards (ONE_MILLION * 30) = Inr t2"
      "oz_mint oz h t2 spender (ONE_MILLION * 14) = Inr t3" "oz_mint oz h t3 multisig (26 * ONE_MILLION) = Inr t" and c: "c = c0"
    using assms(1) by (auto simp: shady_constructor_def c0_def [symmetric] bind_res_eq_Inr Let_def)
  note laws = mint_law [OF t(1) assms(2)] mint_law [OF t(2) assms(2)] mint_law [OF t(3) assms(2)] mint_law [OF t(4) assms(2)]
  show "c = \<lparr>sh_self = self, sh_deploymentStartTime = now, sh_multisigAddress = multisig,
      sh_communityIssuanceAddress = community, sh_liquidityRewardsIssuanceAddress = rewards, sh_lockupContractFactory = factory\<rparr>"
    using c by (simp add: c0_def)
  show "ONE_MILLION * 26 \<le> oz_balanceOf oz t multisig" by (simp add: laws)
  show "ONE_MILLION * 30 \<le> oz_balanceOf oz t community" by (simp add: laws)
qed

lemma created_sound:
  assumes "shady_created oz s" and "erc20_laws oz"
  shows "lockups_sound oz s \<and> share_locked oz s"
  using assms(1)
proof cases
  case (1 f is_contract now self t0 community rewards factory spender multisig c t)
  note r = constructor_result [OF 1(4) assms(2)]
  show ?thesis
    using r 1(2,3) unfolding 1(1)
    by (simp add: lockups_sound_def share_locked_def locked_accounts_def lockup_addresses_def isRegisteredLockup_def)
qed
lemma reachable_sound:
  assumes "(shady_step oz)\<^sup>*\<^sup>* s0 s" and "shady_created oz s0" and "erc20_laws oz"
  shows "lockups_sound oz s \<and> share_locked oz s"
  using assms(1)
proof (induction rule: rtranclp_induct)
  case base
  then show ?case using created_sound assms(2,3) by blast
next
  case (step y z)
  then show ?case using shady_step_sound [OF step(2) assms(3)] by blast
qed

section \<open>A token that follows the laws\<close>

text \<open>Balances and allowances as two functions.\<close>

definition plain_oz :: "((address \<Rightarrow> uint) \<times> (address \<Rightarrow> address \<Rightarrow> uint), unit) oz_erc20" where
  "plain_oz =
     \<lparr>oz_balanceOf = fst, oz_allowance = snd,
      oz_mint = (\<lambda>h t a n. bind_res (h 0 a n) (\<lambda>_. Inr ((fst t)(a := fst t a + n), snd t))),
      oz_burn = (\<lambda>h t a n. bind_res (h a 0 n) (\<lambda>_. bind_res (u_sub (fst t a) n) (\<lambda>m. Inr ((fst t)(a := m), snd t)))),
      oz_transfer = (\<lambda>h t from to n. bind_res (h from to n) (\<lambda>_.
        if n \<le> fst t from then Inr (moved (fst t) from to n, snd t) else Inl Panic)),
      oz_transferFrom = (\<lambda>h t sender from to n. bind_res (h from to n) (\<lambda>_.
        if n \<le> fst t from \<and> n \<le> snd t from sender
        then Inr (moved (fst t) from to n, (snd t)(from := (snd t from)(sender := snd t from sender - n))) else Inl Panic)),
      oz_approve = (\<lambda>t owner spender n. Inr (fst t, (snd t)(owner := (snd t owner)(spender := n)))),
      oz_spendAllowance = (\<lambda>t owner spender n. if n \<le> snd t owner spender
        then Inr (fst t, (snd t)(owner := (snd t owner)(spender := snd t owner spender - n))) else Inl Panic),
      oz_permit = (\<lambda>t owner _. Inr t)\<rparr>"

lemma plain_oz_laws: "erc20_laws plain_oz"
proof -
  have "mint_moves plain_oz" by (auto simp: mint_moves_def plain_oz_def bind_res_eq_Inr)
  moreover have "transfer_moves plain_oz" by (auto simp: transfer_moves_def plain_oz_def bind_res_eq_Inr split: if_splits)
  moreover have "transferFrom_moves plain_oz" by (auto simp: transferFrom_moves_def plain_oz_def bind_res_eq_Inr split: if_splits)
  moreover have "approvals_of_owner plain_oz" by (auto simp: approvals_of_owner_def approval_of_owner_def plain_oz_def)
  ultimately show ?thesis by (simp add: erc20_laws_def)
qed

text \<open>Ten days after its deployment the multisig sends ten million into a lockup.\<close>

definition sample_factory :: lockup_factory where
  "sample_factory = \<lparr>fc_owner = 9, fc_shadyTokenAddress = 0, fc_lockupContractToDeployer = (\<lambda>_. 0)\<rparr>"

definition sample_token :: shady_token where
  "sample_token = \<lparr>sh_self = 1, sh_deploymentStartTime = 1000, sh_multisigAddress = 5, sh_communityIssuanceAddress = 2,
     sh_liquidityRewardsIssuanceAddress = 3, sh_lockupContractFactory = 4\<rparr>"

definition sample_state :: "(address \<Rightarrow> uint) \<times> (address \<Rightarrow> address \<Rightarrow> uint)" where
  "sample_state = (((((\<lambda>_. 0)(2 := ONE_MILLION * 30))(3 := ONE_MILLION * 30))(6 := ONE_MILLION * 14))(5 := ONE_MILLION * 26), \<lambda>_ _. 0)"

lemma sample_constructor:
  "shady_constructor plain_oz (\<lambda>_. True) (isRegisteredLockup sample_factory) 1000 1 (\<lambda>_. 0, \<lambda>_ _. 0) 2 3 4 6 5 = Inr (sample_token, sample_state)"
  by (simp add: shady_constructor_def sample_token_def sample_state_def plain_oz_def beforeTokenTransfer_def checkContract_def Let_def mult.commute)

definition sample_system :: "((address \<Rightarrow> uint) \<times> (address \<Rightarrow> address \<Rightarrow> uint)) shady_system" where
  "sample_system = \<lparr>sy_token = sample_token, sy_state = sample_state, sy_factory = sample_factory, sy_lockups = [], sy_now = 1000\<rparr>"

lemma sample_created: "shady_created plain_oz sample_system"
  unfolding sample_system_def by (rule shady_created.intros [OF _ _ sample_constructor]) (simp_all add: sample_factory_def)

definition bound_factory :: lockup_factory where
  "bound_factory = \<lparr>fc_owner = 0, fc_shadyTokenAddress = 1, fc_lockupContractToDeployer = (\<lambda>_. 0)(7 := 5)\<rparr>"

definition sample_locked :: "((address \<Rightarrow> uint) \<times> (address \<Rightarrow> address \<Rightarrow> uint)) shady_system" where
  "sample_locked =
     \<lparr>sy_token = sample_token, sy_state = (moved (fst sample_state) 5 7 (ONE_MILLION * 10), \<lambda>_ _. 0), sy_factory = bound_factory,
      sy_lockups = [(7, \<lparr>lk_beneficiary = 8, lk_shadyToken = 1, lk_unlockTime = 40000000\<rparr>)], sy_now = 865000\<rparr>"

lemma sample_lockup_run: "(shady_step plain_oz)\<^sup>*\<^sup>* sample_system sample_locked"
proof -
  let ?l = "\<lparr>lk_beneficiary = 8, lk_shadyToken = 1, lk_unlockTime = 40000000\<rparr>"
  define s1 where "s1 = sample_system\<lparr>sy_factory := sample_factory\<lparr>fc_shadyTokenAddress := 1, fc_owner := 0\<rparr>\<rparr>"
  define s2 where "s2 = s1\<lparr>sy_factory := bound_factory, sy_lockups := [(7, ?l)]\<rparr>"
  define s3 where "s3 = s2\<lparr>sy_now := 865000\<rparr>"
  have a: "shady_step plain_oz sample_system s1"
    unfolding s1_def
    by (rule bind_factory [where is_contract = "\<lambda>_. True" and sender = 9])
      (simp add: setSHADYTokenAddress_def sample_system_def sample_factory_def sample_token_def checkContract_def)
  have "shady_step plain_oz s1 (s1\<lparr>sy_factory := bound_factory, sy_lockups := sy_lockups s1 @ [(7, ?l)]\<rparr>)"
    by (rule deploy [where sender = 5 and start_of = "\<lambda>_. 1000" and beneficiary = 8 and unlockTime = 40000000])
      (simp_all add: s1_def sample_system_def sample_token_def sample_factory_def sample_state_def lockup_addresses_def plain_oz_def
        bound_factory_def deployLockupContract_def new_lockup_def u_add_def uint_max_def ONE_YEAR_IN_SECONDS_def)
  moreover have "s1\<lparr>sy_factory := bound_factory, sy_lockups := sy_lockups s1 @ [(7, ?l)]\<rparr> = s2"
    by (simp add: s2_def s1_def sample_system_def)
  ultimately have b: "shady_step plain_oz s1 s2" by simp
  have c: "shady_step plain_oz s2 s3"
    unfolding s3_def by (rule tick) (simp add: s2_def s1_def sample_system_def)
  have "shady_step plain_oz s3 (s3\<lparr>sy_state := (moved (fst sample_state) 5 7 (ONE_MILLION * 10), \<lambda>_ _. 0)\<rparr>)"
    by (rule transfer [where sender = 5 and to = 7 and n = "ONE_MILLION * 10"])
      (simp_all add: s3_def s2_def s1_def sample_system_def lockup_addresses_def shady_hook_def beforeTokenTransfer_def plain_oz_def
        sample_token_def sample_state_def isFirstYear_def u_sub_def ONE_YEAR_IN_SECONDS_def isRegisteredLockup_def bound_factory_def
        requireValidRecipient_def)
  moreover have "s3\<lparr>sy_state := (moved (fst sample_state) 5 7 (ONE_MILLION * 10), \<lambda>_ _. 0)\<rparr> = sample_locked"
    by (simp add: s3_def s2_def s1_def sample_system_def sample_locked_def)
  ultimately have d: "shady_step plain_oz s3 sample_locked" by simp
  from a b c d show ?thesis by (meson rtranclp.rtrancl_into_rtrancl rtranclp.rtrancl_refl)
qed

section \<open>Properties\<close>

text \<open>
  C27. The share of the multisig stays locked for a year. Whatever calls are made after the deployment of
  the token - transfers, approvals, permits, new lockups, withdrawals - until a year has passed the 26 million
  tokens of the multisig are with the multisig or in lockup contracts of the factory, and no
  lockup opens before that year is over.
\<close>

theorem multisig_share_stays_locked:
  assumes "shady_created oz s0" and "(shady_step oz)\<^sup>*\<^sup>* s0 s" and "erc20_laws oz" and "sy_now s < year_end s"
  shows "ONE_MILLION * 26 \<le> sum (oz_balanceOf oz (sy_state s)) (insert (sh_multisigAddress (sy_token s)) (lockup_addresses s))
    \<and> (\<forall>(a, l) \<in> set (sy_lockups s). year_end s \<le> lk_unlockTime l)"
  using reachable_sound [OF assms(2,1,3)] assms(4) by (simp add: share_locked_def lockups_sound_def locked_accounts_def)

theorem multisig_share_stays_locked_witness:
  "ONE_MILLION * 26 \<le> sum (fst (sy_state sample_locked)) {5, 7} \<and> fst (sy_state sample_locked) 5 = ONE_MILLION * 16"
proof -
  have now: "sy_now sample_locked < year_end sample_locked"
    by (simp add: sample_locked_def year_end_def sample_token_def ONE_YEAR_IN_SECONDS_def)
  have "sh_multisigAddress (sy_token sample_locked) = 5" "lockup_addresses sample_locked = {7}"
      "oz_balanceOf plain_oz (sy_state sample_locked) = fst (sy_state sample_locked)"
    by (simp_all add: sample_locked_def sample_token_def lockup_addresses_def plain_oz_def)
  with multisig_share_stays_locked [OF sample_created sample_lockup_run plain_oz_laws now]
  have "ONE_MILLION * 26 \<le> sum (fst (sy_state sample_locked)) {5, 7}" by simp
  moreover have "fst (sy_state sample_locked) 5 = ONE_MILLION * 16" by (simp add: sample_locked_def sample_state_def moved_def)
  ultimately show ?thesis ..
qed

text \<open>The token as its users call it.\<close>

definition as_erc20 :: "('t, 'p) oz_erc20 \<Rightarrow> transfer_hook \<Rightarrow> 't erc20" where
  "as_erc20 oz h =
     \<lparr>tk_balanceOf = oz_balanceOf oz, tk_transfer = (\<lambda>t from to n. bind_res (oz_transfer oz h t from to n) (\<lambda>t'. Inr (True, t')))\<rparr>"

lemma as_erc20_moves: "erc20_laws oz \<Longrightarrow> moves_the_amount (as_erc20 oz h)"
  unfolding moves_the_amount_def as_erc20_def using transfer_law by (fastforce simp: moved_def bind_res_eq_Inr)

text \<open>
  The token funds the issuance it was built with: after the constructor of the token the owner of the
  community issuance can set its addresses, since the assertion on the balance holds - the thirty
  million that are minted to it are exactly the supply cap of the issuance.
\<close>

theorem token_funds_issuance:
  assumes "shady_constructor oz is_contract registered now self t0 community rewards factory spender multisig = Inr (c, t)"
    and "erc20_laws oz" and "is_contract self" and "self \<noteq> 0"
  shows "issuance_setAddresses (as_erc20 oz h) is_contract t (new_issuance community sender start) sender self issuer =
    Inr ((new_issuance community sender start)\<lparr>is_shadyToken := self, is_issuerAddress := issuer, is_owner := 0\<rparr>)"
proof -
  have "SHADYSupplyCap = ONE_MILLION * 30" by (simp add: SHADYSupplyCap_def ONE_MILLION_def)
  then have "\<not> oz_balanceOf oz t community < SHADYSupplyCap" using constructor_result(3) [OF assms(1,2)] by simp
  then show ?thesis
    using assms(3,4) by (simp add: issuance_setAddresses_def checkContract_def new_issuance_def as_erc20_def)
qed

theorem token_funds_issuance_witness:
  "issuance_setAddresses (as_erc20 plain_oz no_hook) (\<lambda>_. True) sample_state (new_issuance 2 9 500) 9 1 11 =
    Inr ((new_issuance 2 9 500)\<lparr>is_shadyToken := 1, is_issuerAddress := 11, is_owner := 0\<rparr>)"
  by (rule token_funds_issuance [OF sample_constructor plain_oz_laws]) simp_all

end
