(* ===== verification/Price_Feed.thy ===== *)
theory Price_Feed
  imports Liquity_Math
begin

text \<open>
  The price feed (\<open>contracts/PriceFeed.sol\<close>): a state machine over two oracles, API3 and Pyth, with
  the last good price as the fallback, and the rate that turns a price of ETH into one of WSTETH. The
  oracles and the rate receiver are the record \<open>oracles\<close>, what they answer during the call; an oracle
  that reverts is caught (\<open>None\<close>). Signed and narrow integers are \<open>int\<close> with their casts written out.
  Events are not modelled.
\<close>

section \<open>State\<close>

datatype status =
    Api3Working
  | UsingPythAPI3Untrusted
  | UsingPythAPI3Frozen
  | BothOraclesUntrusted
  | UsingAPI3PythUntrusted

record pyth_price =
  py_price :: int
  py_conf :: uint
  py_expo :: int
  py_publishTime :: uint

record price_feed =
  pf_owner :: address
  pf_api3Proxy :: address
  pf_pyth :: address
  pf_rateReceiver :: address
  pf_pythFeedId :: nat
  pf_lastGoodPrice :: uint
  pf_status :: status

record oracles =
  or_now :: uint
  or_read :: "address \<Rightarrow> (int \<times> uint) option"
  or_getPriceUnsafe :: "address \<Rightarrow> nat \<Rightarrow> pyth_price option"
  or_rate :: "address \<Rightarrow> revert + uint"

definition TARGET_DIGITS :: uint where "TARGET_DIGITS = 18"
definition TIMEOUT :: uint where "TIMEOUT = 14400"
definition MAX_PRICE_DIFFERENCE_BETWEEN_ORACLES :: uint where "MAX_PRICE_DIFFERENCE_BETWEEN_ORACLES = 5 * 10 ^ 16"

section \<open>Responses\<close>

definition getAPI3Response :: "oracles \<Rightarrow> price_feed \<Rightarrow> int \<times> uint" where
  "getAPI3Response env s = (case or_read env (pf_api3Proxy s) of Some r \<Rightarrow> r | None \<Rightarrow> (0, 0))"

definition getPythResponse :: "oracles \<Rightarrow> price_feed \<Rightarrow> pyth_price" where
  "getPythResponse env s =
     (case or_getPriceUnsafe env (pf_pyth s) (pf_pythFeedId s) of
        Some p \<Rightarrow> p
      | None \<Rightarrow> \<lparr>py_price = 0, py_conf = 0, py_expo = 0, py_publishTime = 0\<rparr>)"

definition api3IsBroken :: "oracles \<Rightarrow> int \<Rightarrow> uint \<Rightarrow> bool" where
  "api3IsBroken env value timestamp \<longleftrightarrow> value \<le> 0 \<or> timestamp = 0 \<or> or_now env < timestamp"

definition api3IsFrozen :: "oracles \<Rightarrow> uint \<Rightarrow> revert + bool" where
  "api3IsFrozen env timestamp = bind_res (u_sub (or_now env) timestamp) (\<lambda>d. Inr (TIMEOUT < d))"

definition pythIsBroken :: "oracles \<Rightarrow> pyth_price \<Rightarrow> bool" where
  "pythIsBroken env p \<longleftrightarrow> py_price p \<le> 0 \<or> py_publishTime p = 0 \<or> or_now env < py_publishTime p"

definition pythIsFrozen :: "oracles \<Rightarrow> pyth_price \<Rightarrow> revert + bool" where
  "pythIsFrozen env p = bind_res (u_sub (or_now env) (py_publishTime p)) (\<lambda>d. Inr (TIMEOUT < d))"

text \<open>\<open>uint(uint224(x))\<close>; and \<open>uint(uint64(x)) * 10 ** (TARGET_DIGITS - uint(uint32(-expo)))\<close>, whose negation is checked.\<close>

definition scaleAPI3PriceByDigits :: "int \<Rightarrow> uint" where
  "scaleAPI3PriceByDigits v = nat (v mod 2 ^ 224)"

definition scalePythPriceByDigits :: "pyth_price \<Rightarrow> revert + uint" where
  "scalePythPriceByDigits p =
     (if py_expo p = - (2 ^ 31) then Inl Panic
      else bind_res (u_sub TARGET_DIGITS (nat ((- py_expo p) mod 2 ^ 32))) (\<lambda>digits.
           u_mul (nat (py_price p mod 2 ^ 64)) (10 ^ digits)))"

definition bothOraclesSimilarPrice :: "int \<Rightarrow> pyth_price \<Rightarrow> revert + bool" where
  "bothOraclesSimilarPrice v p =
     bind_res (scalePythPriceByDigits p) (\<lambda>scaledPythPrice.
     let scaledAPI3Price = scaleAPI3PriceByDigits v;
         minPrice = LM_min scaledPythPrice scaledAPI3Price;
         maxPrice = LM_max scaledPythPrice scaledAPI3Price
     in bind_res (u_sub maxPrice minPrice) (\<lambda>d.
        bind_res (u_mul d DECIMAL_PRECISION) (\<lambda>m.
        bind_res (u_div m minPrice) (\<lambda>percentPriceDifference.
        Inr (percentPriceDifference \<le> MAX_PRICE_DIFFERENCE_BETWEEN_ORACLES)))))"

text \<open>The disjunction of the source is evaluated from the left and stops at the first true disjunct.\<close>

definition bothOraclesLiveAndUnbrokenAndSimilarPrice :: "oracles \<Rightarrow> int \<Rightarrow> uint \<Rightarrow> pyth_price \<Rightarrow> revert + bool" where
  "bothOraclesLiveAndUnbrokenAndSimilarPrice env v t p =
     (if pythIsBroken env p then Inr False
      else bind_res (pythIsFrozen env p) (\<lambda>frozen.
        if frozen then Inr False
        else if api3IsBroken env v t then Inr False
        else bind_res (api3IsFrozen env t) (\<lambda>frozen.
          if frozen then Inr False
          else bothOraclesSimilarPrice v p)))"

section \<open>Storing\<close>

definition changeStatus :: "status \<Rightarrow> price_feed \<Rightarrow> price_feed" where
  "changeStatus st s = s\<lparr>pf_status := st\<rparr>"

definition storePrice :: "oracles \<Rightarrow> uint \<Rightarrow> price_feed \<Rightarrow> revert + price_feed" where
  "storePrice env currentPrice s =
     bind_res (or_rate env (pf_rateReceiver s)) (\<lambda>rate.
     bind_res (u_mul currentPrice rate) (\<lambda>m.
     Inr (s\<lparr>pf_lastGoodPrice := m div 10 ^ 18\<rparr>)))"

definition storeAPI3Price :: "oracles \<Rightarrow> int \<Rightarrow> price_feed \<Rightarrow> revert + uint \<times> price_feed" where
  "storeAPI3Price env v s =
     (let scaledPrice = scaleAPI3PriceByDigits v in
      bind_res (storePrice env scaledPrice s) (\<lambda>s'. Inr (scaledPrice, s')))"

definition storePythPrice :: "oracles \<Rightarrow> pyth_price \<Rightarrow> price_feed \<Rightarrow> revert + uint \<times> price_feed" where
  "storePythPrice env p s =
     bind_res (scalePythPriceByDigits p) (\<lambda>scaledPrice.
     bind_res (storePrice env scaledPrice s) (\<lambda>s'. Inr (scaledPrice, s')))"

definition returnLastGoodPrice :: "price_feed \<Rightarrow> revert + uint \<times> price_feed" where
  "returnLastGoodPrice s = Inr (pf_lastGoodPrice s, s)"

section \<open>The five cases\<close>

definition fetch_api3Working :: "oracles \<Rightarrow> int \<Rightarrow> uint \<Rightarrow> pyth_price \<Rightarrow> price_feed \<Rightarrow> revert + uint \<times> price_feed" where
  "fetch_api3Working env v t p s =
     (if api3IsBroken env v t then
        if pythIsBroken env p then returnLastGoodPrice (changeStatus BothOraclesUntrusted s)
        else bind_res (pythIsFrozen env p) (\<lambda>frozen.
          if frozen then returnLastGoodPrice (changeStatus UsingPythAPI3Untrusted s)
          else storePythPrice env p (changeStatus UsingPythAPI3Untrusted s))
      else bind_res (api3IsFrozen env t) (\<lambda>frozen.
        if frozen then
          if pythIsBroken env p then returnLastGoodPrice (changeStatus UsingAPI3PythUntrusted s)
          else let s = changeStatus UsingPythAPI3Frozen s in
               bind_res (pythIsFrozen env p) (\<lambda>frozen.
                 if frozen then returnLastGoodPrice s else storePythPrice env p s)
        else storeAPI3Price env v (if pythIsBroken env p then changeStatus UsingAPI3PythUntrusted s else s)))"

definition fetch_usingPythAPI3Untrusted :: "oracles \<Rightarrow> int \<Rightarrow> uint \<Rightarrow> pyth_price \<Rightarrow> price_feed \<Rightarrow> revert + uint \<times> price_feed" where
  "fetch_usingPythAPI3Untrusted env v t p s =
     bind_res (bothOraclesLiveAndUnbrokenAndSimilarPrice env v t p) (\<lambda>similar.
     if similar then storeAPI3Price env v (changeStatus Api3Working s)
     else if pythIsBroken env p then returnLastGoodPrice (changeStatus BothOraclesUntrusted s)
     else bind_res (pythIsFrozen env p) (\<lambda>frozen.
       if frozen then returnLastGoodPrice s else storePythPrice env p s))"

definition fetch_bothOraclesUntrusted :: "oracles \<Rightarrow> int \<Rightarrow> uint \<Rightarrow> pyth_price \<Rightarrow> price_feed \<Rightarrow> revert + uint \<times> price_feed" where
  "fetch_bothOraclesUntrusted env v t p s =
     bind_res (bothOraclesLiveAndUnbrokenAndSimilarPrice env v t p) (\<lambda>similar.
     if similar then storeAPI3Price env v (changeStatus Api3Working s)
     else returnLastGoodPrice s)"

definition fetch_usingPythAPI3Frozen :: "oracles \<Rightarrow> int \<Rightarrow> uint \<Rightarrow> pyth_price \<Rightarrow> price_feed \<Rightarrow> revert + uint \<times> price_feed" where
  "fetch_usingPythAPI3Frozen env v t p s =
     (if api3IsBroken env v t then
        if pythIsBroken env p then returnLastGoodPrice (changeStatus BothOraclesUntrusted s)
        else let s = changeStatus UsingPythAPI3Untrusted s in
             bind_res (pythIsFrozen env p) (\<lambda>frozen.
               if frozen then returnLastGoodPrice s else storePythPrice env p s)
      else bind_res (api3IsFrozen env t) (\<lambda>frozen.
        if frozen then
          if pythIsBroken env p then returnLastGoodPrice (changeStatus UsingAPI3PythUntrusted s)
          else bind_res (pythIsFrozen env p) (\<lambda>frozen.
            if frozen then returnLastGoodPrice s else storePythPrice env p s)
        else if pythIsBroken env p then storeAPI3Price env v (changeStatus UsingAPI3PythUntrusted s)
        else bind_res (pythIsFrozen env p) (\<lambda>frozen.
          if frozen then returnLastGoodPrice s
          else bind_res (bothOraclesSimilarPrice v p) (\<lambda>similar.
            if similar then storeAPI3Price env v (changeStatus Api3Working s)
            else storePythPrice env p (changeStatus UsingPythAPI3Untrusted s)))))"

definition fetch_usingAPI3PythUntrusted :: "oracles \<Rightarrow> int \<Rightarrow> uint \<Rightarrow> pyth_price \<Rightarrow> price_feed \<Rightarrow> revert + uint \<times> price_feed" where
  "fetch_usingAPI3PythUntrusted env v t p s =
     (if api3IsBroken env v t then returnLastGoodPrice (changeStatus BothOraclesUntrusted s)
      else bind_res (api3IsFrozen env t) (\<lambda>frozen.
        if frozen then returnLastGoodPrice s
        else bind_res (bothOraclesLiveAndUnbrokenAndSimilarPrice env v t p) (\<lambda>similar.
          if similar then storeAPI3Price env v (changeStatus Api3Working s)
          else storeAPI3Price env v s)))"

definition fetchPrice :: "oracles \<Rightarrow> price_feed \<Rightarrow> revert + uint \<times> price_feed" where
  "fetchPrice env s =
     (let (api3Value, api3Timestamp) = getAPI3Response env s;
          pythPrice = getPythResponse env s
      in case pf_status s of
           Api3Working \<Rightarrow> fetch_api3Working env api3Value api3Timestamp pythPrice s
         | UsingPythAPI3Untrusted \<Rightarrow> fetch_usingPythAPI3Untrusted env api3Value api3Timestamp pythPrice s
         | BothOraclesUntrusted \<Rightarrow> fetch_bothOraclesUntrusted env api3Value api3Timestamp pythPrice s
         | UsingPythAPI3Frozen \<Rightarrow> fetch_usingPythAPI3Frozen env api3Value api3Timestamp pythPrice s
         | UsingAPI3PythUntrusted \<Rightarrow> fetch_usingAPI3PythUntrusted env api3Value api3Timestamp pythPrice s)"

definition priceFeed_setAddresses ::
    "oracles \<Rightarrow> (address \<Rightarrow> bool) \<Rightarrow> address \<Rightarrow> address \<Rightarrow> address \<Rightarrow> address \<Rightarrow> nat \<Rightarrow> price_feed \<Rightarrow> revert + price_feed" where
  "priceFeed_setAddresses env is_contract sender api3Proxy pyth rateReceiver pythFeedId s0 =
     bind_res (require (sender = pf_owner s0) ''Ownable: caller is not the owner'') (\<lambda>_.
     bind_res (checkContract is_contract api3Proxy) (\<lambda>_.
     bind_res (checkContract is_contract pyth) (\<lambda>_.
     bind_res (checkContract is_contract rateReceiver) (\<lambda>_.
     let s = s0\<lparr>pf_api3Proxy := api3Proxy, pf_pyth := pyth, pf_rateReceiver := rateReceiver, pf_pythFeedId := pythFeedId,
               pf_status := Api3Working\<rparr>;
         (v, t) = getAPI3Response env s
     in bind_res (if api3IsBroken env v t then Inr True else api3IsFrozen env t) (\<lambda>bad.
        bind_res (require (\<not> bad) ''PriceFeed: API3 must be working and current'') (\<lambda>_.
        bind_res (storeAPI3Price env v s) (\<lambda>(_, s').
        Inr (s'\<lparr>pf_owner := 0\<rparr>))))))))"

section \<open>The table of the cases\<close>

text \<open>What the feed distinguishes of an oracle, and what it takes the price from.\<close>

datatype health = Broken | Frozen | Live

datatype source = LastGood | FromAPI3 | FromPyth

definition api3_health :: "oracles \<Rightarrow> price_feed \<Rightarrow> health" where
  "api3_health env s =
     (let (v, t) = getAPI3Response env s
      in if api3IsBroken env v t then Broken else if TIMEOUT < or_now env - t then Frozen else Live)"

definition pyth_health :: "oracles \<Rightarrow> price_feed \<Rightarrow> health" where
  "pyth_health env s =
     (let p = getPythResponse env s
      in if pythIsBroken env p then Broken else if TIMEOUT < or_now env - py_publishTime p then Frozen else Live)"

text \<open>The next status and the source of the price, from the status, the two oracles and whether their prices are similar.\<close>

fun fetch_table :: "status \<Rightarrow> health \<Rightarrow> health \<Rightarrow> bool \<Rightarrow> status \<times> source" where
  "fetch_table Api3Working Broken Broken _ = (BothOraclesUntrusted, LastGood)"
| "fetch_table Api3Working Broken Frozen _ = (UsingPythAPI3Untrusted, LastGood)"
| "fetch_table Api3Working Broken Live _ = (UsingPythAPI3Untrusted, FromPyth)"
| "fetch_table Api3Working Frozen Broken _ = (UsingAPI3PythUntrusted, LastGood)"
| "fetch_table Api3Working Frozen Frozen _ = (UsingPythAPI3Frozen, LastGood)"
| "fetch_table Api3Working Frozen Live _ = (UsingPythAPI3Frozen, FromPyth)"
| "fetch_table Api3Working Live Broken _ = (UsingAPI3PythUntrusted, FromAPI3)"
| "fetch_table Api3Working Live _ _ = (Api3Working, FromAPI3)"
| "fetch_table UsingPythAPI3Untrusted Live Live True = (Api3Working, FromAPI3)"
| "fetch_table UsingPythAPI3Untrusted _ Broken _ = (BothOraclesUntrusted, LastGood)"
| "fetch_table UsingPythAPI3Untrusted _ Frozen _ = (UsingPythAPI3Untrusted, LastGood)"
| "fetch_table UsingPythAPI3Untrusted _ Live _ = (UsingPythAPI3Untrusted, FromPyth)"
| "fetch_table BothOraclesUntrusted Live Live True = (Api3Working, FromAPI3)"
| "fetch_table BothOraclesUntrusted _ _ _ = (BothOraclesUntrusted, LastGood)"
| "fetch_table UsingPythAPI3Frozen Broken Broken _ = (BothOraclesUntrusted, LastGood)"
| "fetch_table UsingPythAPI3Frozen Broken Frozen _ = (UsingPythAPI3Untrusted, LastGood)"
| "fetch_table UsingPythAPI3Frozen Broken Live _ = (UsingPythAPI3Untrusted, FromPyth)"
| "fetch_table UsingPythAPI3Frozen Frozen Broken _ = (UsingAPI3PythUntrusted, LastGood)"
| "fetch_table UsingPythAPI3Frozen Frozen Frozen _ = (UsingPythAPI3Frozen, LastGood)"
| "fetch_table UsingPythAPI3Frozen Frozen Live _ = (UsingPythAPI3Frozen, FromPyth)"
| "fetch_table UsingPythAPI3Frozen Live Broken _ = (UsingAPI3PythUntrusted, FromAPI3)"
| "fetch_table UsingPythAPI3Frozen Live Frozen _ = (UsingPythAPI3Frozen, LastGood)"
| "fetch_table UsingPythAPI3Frozen Live Live True = (Api3Working, FromAPI3)"
| "fetch_table UsingPythAPI3Frozen Live Live False = (UsingPythAPI3Untrusted, FromPyth)"
| "fetch_table UsingAPI3PythUntrusted Broken _ _ = (BothOraclesUntrusted, LastGood)"
| "fetch_table UsingAPI3PythUntrusted Frozen _ _ = (UsingAPI3PythUntrusted, LastGood)"
| "fetch_table UsingAPI3PythUntrusted Live Live True = (Api3Working, FromAPI3)"
| "fetch_table UsingAPI3PythUntrusted Live _ _ = (UsingAPI3PythUntrusted, FromAPI3)"

definition take_from :: "oracles \<Rightarrow> source \<Rightarrow> price_feed \<Rightarrow> revert + uint \<times> price_feed" where
  "take_from env src s =
     (case src of
        LastGood \<Rightarrow> returnLastGoodPrice s
      | FromAPI3 \<Rightarrow> storeAPI3Price env (fst (getAPI3Response env s)) s
      | FromPyth \<Rightarrow> storePythPrice env (getPythResponse env s) s)"

text \<open>The prices are compared only where both oracles are live and the feed was not on API3.\<close>

definition compares :: "oracles \<Rightarrow> price_feed \<Rightarrow> bool" where
  "compares env s \<longleftrightarrow> pf_status s \<noteq> Api3Working \<and> api3_health env s = Live \<and> pyth_health env s = Live"

definition similar :: "oracles \<Rightarrow> price_feed \<Rightarrow> revert + bool" where
  "similar env s =
     (if compares env s then bothOraclesSimilarPrice (fst (getAPI3Response env s)) (getPythResponse env s) else Inr False)"

lemma api3_not_broken: "\<not> api3IsBroken env v t \<Longrightarrow> api3IsFrozen env t = Inr (TIMEOUT < or_now env - t)"
  by (simp add: api3IsBroken_def api3IsFrozen_def checked_ok)

lemma pyth_not_broken: "\<not> pythIsBroken env p \<Longrightarrow> pythIsFrozen env p = Inr (TIMEOUT < or_now env - py_publishTime p)"
  by (simp add: pythIsBroken_def pythIsFrozen_def checked_ok)

lemma changeStatus_same [simp]: "s\<lparr>pf_status := pf_status s\<rparr> = s"
  by (cases s) simp

lemma responses_status [simp]:
  "getAPI3Response env (s\<lparr>pf_status := st\<rparr>) = getAPI3Response env s"
  "getPythResponse env (s\<lparr>pf_status := st\<rparr>) = getPythResponse env s"
  by (simp_all add: getAPI3Response_def getPythResponse_def)

lemmas fetch_defs = fetchPrice_def fetch_api3Working_def fetch_usingPythAPI3Untrusted_def fetch_bothOraclesUntrusted_def
  fetch_usingPythAPI3Frozen_def fetch_usingAPI3PythUntrusted_def bothOraclesLiveAndUnbrokenAndSimilarPrice_def

text \<open>The code follows the table; it reverts only where the comparison or the storing does.\<close>

lemma fetchPrice_follows_table:
  "fetchPrice env s =
     bind_res (similar env s) (\<lambda>b.
     let (st, src) = fetch_table (pf_status s) (api3_health env s) (pyth_health env s) b
     in take_from env src (s\<lparr>pf_status := st\<rparr>))"
proof -
  obtain v t where r: "getAPI3Response env s = (v, t)" by (cases "getAPI3Response env s")
  define p where "p = getPythResponse env s"
  note facts = r p_def [symmetric] similar_def compares_def api3_health_def pyth_health_def take_from_def
    changeStatus_def api3_not_broken pyth_not_broken
  consider "api3IsBroken env v t" | "\<not> api3IsBroken env v t" "TIMEOUT < or_now env - t"
    | "\<not> api3IsBroken env v t" "\<not> TIMEOUT < or_now env - t" by blast
  note api3 = this
  consider "pythIsBroken env p" | "\<not> pythIsBroken env p" "TIMEOUT < or_now env - py_publishTime p"
    | "\<not> pythIsBroken env p" "\<not> TIMEOUT < or_now env - py_publishTime p" by blast
  note pyth = this
  have st: "pf_status s = st \<Longrightarrow> s\<lparr>pf_status := st\<rparr> = s" for st by (cases s) simp
  show ?thesis
    by (rule api3; rule pyth; cases "pf_status s"; cases "bothOraclesSimilarPrice v p"; cases "bothOraclesSimilarPrice v p = Inr True")
      (simp_all add: fetch_defs facts st)
qed

section \<open>What the feed guarantees\<close>

text \<open>Sources of the table are live oracles or the last good price.\<close>

lemma table_source_live:
  "fetch_table st a p b = (st', FromAPI3) \<Longrightarrow> a = Live"
  "fetch_table st a p b = (st', FromPyth) \<Longrightarrow> p = Live"
  by (cases "(st, a, p, b)" rule: fetch_table.cases; simp)+

lemma table_api3Working_iff:
  "fst (fetch_table st a p b) = Api3Working \<longleftrightarrow>
     a = Live \<and> (if st = Api3Working then p \<noteq> Broken else p = Live \<and> b)"
  by (cases "(st, a, p, b)" rule: fetch_table.cases) simp_all

lemma storePrice_result:
  assumes "storePrice env n s = Inr s'"
  obtains rate where "or_rate env (pf_rateReceiver s) = Inr rate" and "s' = s\<lparr>pf_lastGoodPrice := n * rate div 10 ^ 18\<rparr>"
  using assms by (auto simp: storePrice_def bind_res_eq_Inr checked_Inr)

lemma stored_price:
  assumes "storePrice env n s = Inr s'"
  shows "pf_status s' = pf_status s
    \<and> (\<exists>rate. or_rate env (pf_rateReceiver s) = Inr rate \<and> pf_lastGoodPrice s' = n * rate div 10 ^ 18)"
proof -
  obtain rate where r: "or_rate env (pf_rateReceiver s) = Inr rate" "s' = s\<lparr>pf_lastGoodPrice := n * rate div 10 ^ 18\<rparr>"
    using assms by (rule storePrice_result)
  show ?thesis by (rule conjI, simp add: r(2), rule exI [of _ rate], simp only: r) simp
qed

lemma take_from_result:
  assumes "take_from env src s = Inr (price, s')"
  shows "pf_status s' = pf_status s"
    and "case src of
        LastGood \<Rightarrow> price = pf_lastGoodPrice s \<and> pf_lastGoodPrice s' = pf_lastGoodPrice s
      | FromAPI3 \<Rightarrow> price = scaleAPI3PriceByDigits (fst (getAPI3Response env s))
          \<and> (\<exists>rate. or_rate env (pf_rateReceiver s) = Inr rate \<and> pf_lastGoodPrice s' = price * rate div 10 ^ 18)
      | FromPyth \<Rightarrow> scalePythPriceByDigits (getPythResponse env s) = Inr price
          \<and> (\<exists>rate. or_rate env (pf_rateReceiver s) = Inr rate \<and> pf_lastGoodPrice s' = price * rate div 10 ^ 18)"
proof -
  have last: "pf_lastGoodPrice s = price \<and> pf_lastGoodPrice s' = price \<and> pf_status s' = pf_status s" if "src = LastGood"
    using assms that by (auto simp: take_from_def returnLastGoodPrice_def)
  have api3: "price = scaleAPI3PriceByDigits (fst (getAPI3Response env s)) \<and> storePrice env price s = Inr s'" if "src = FromAPI3"
    using assms that by (auto simp: take_from_def storeAPI3Price_def Let_def bind_res_eq_Inr)
  have pyth: "scalePythPriceByDigits (getPythResponse env s) = Inr price \<and> storePrice env price s = Inr s'" if "src = FromPyth"
    using assms that by (auto simp: take_from_def storePythPrice_def bind_res_eq_Inr)
  show "pf_status s' = pf_status s" using last api3 pyth stored_price by (cases src) blast+
  show "case src of
        LastGood \<Rightarrow> price = pf_lastGoodPrice s \<and> pf_lastGoodPrice s' = pf_lastGoodPrice s
      | FromAPI3 \<Rightarrow> price = scaleAPI3PriceByDigits (fst (getAPI3Response env s))
          \<and> (\<exists>rate. or_rate env (pf_rateReceiver s) = Inr rate \<and> pf_lastGoodPrice s' = price * rate div 10 ^ 18)
      | FromPyth \<Rightarrow> scalePythPriceByDigits (getPythResponse env s) = Inr price
          \<and> (\<exists>rate. or_rate env (pf_rateReceiver s) = Inr rate \<and> pf_lastGoodPrice s' = price * rate div 10 ^ 18)"
    using last api3 pyth stored_price [of env price s s'] by (cases src) (auto simp del: power_numeral)
qed

lemma fetchPrice_result:
  assumes "fetchPrice env s = Inr (price, s')"
  obtains b src where "similar env s = Inr b"
    and "fetch_table (pf_status s) (api3_health env s) (pyth_health env s) b = (pf_status s', src)"
    and "take_from env src (s\<lparr>pf_status := pf_status s'\<rparr>) = Inr (price, s')"
proof -
  obtain b where sim: "similar env s = Inr b"
    using assms unfolding fetchPrice_follows_table by (auto simp: bind_res_eq_Inr)
  obtain st src where t: "fetch_table (pf_status s) (api3_health env s) (pyth_health env s) b = (st, src)" by fastforce
  have b: "similar env s = Inr b" "fetch_table (pf_status s) (api3_health env s) (pyth_health env s) b = (st, src)"
      "take_from env src (s\<lparr>pf_status := st\<rparr>) = Inr (price, s')"
    using assms unfolding fetchPrice_follows_table by (simp_all add: sim t)
  moreover have "pf_status s' = st" using take_from_result(1) [OF b(3)] by simp
  ultimately show thesis using that by simp
qed

section \<open>A fetch returns\<close>

text \<open>
  Answers in the range the feed can work with: a price of API3 below \<open>2 ^ 128\<close>, one of Pyth with an
  exponent between \<open>-18\<close> and \<open>0\<close> (an \<open>int64\<close>, as the type says), and a rate below \<open>2 ^ 64\<close>. A price of API3
  times \<open>10 ^ 18\<close> and one times the rate then fit into a word.
\<close>

definition plausible :: "oracles \<Rightarrow> price_feed \<Rightarrow> bool" where
  "plausible env s \<longleftrightarrow>
     fst (getAPI3Response env s) < 2 ^ 128
     \<and> py_price (getPythResponse env s) < 2 ^ 63
     \<and> - 18 \<le> py_expo (getPythResponse env s) \<and> py_expo (getPythResponse env s) \<le> 0
     \<and> (case or_rate env (pf_rateReceiver s) of Inr rate \<Rightarrow> rate < 2 ^ 64 | Inl _ \<Rightarrow> False)"

lemma api3_scaled:
  assumes "0 < v" and "v < 2 ^ 128"
  shows "0 < scaleAPI3PriceByDigits v" and "scaleAPI3PriceByDigits v < 2 ^ 128"
proof -
  have "v mod 2 ^ 224 = v" using assms by (intro mod_pos_pos_trivial) auto
  then show "0 < scaleAPI3PriceByDigits v" and "scaleAPI3PriceByDigits v < 2 ^ 128"
    using assms by (auto simp: scaleAPI3PriceByDigits_def nat_less_iff)
qed

lemma pyth_scaled:
  assumes "0 < py_price p" and "py_price p < 2 ^ 63" and "- 18 \<le> py_expo p" and "py_expo p \<le> 0"
  shows "\<exists>n. scalePythPriceByDigits p = Inr n \<and> 0 < n \<and> n < 2 ^ 128"
proof -
  let ?n = "nat (py_price p)" and ?d = "18 - nat (- py_expo p)"
  have casts: "py_price p mod 2 ^ 64 = py_price p" "(- py_expo p) mod 2 ^ 32 = - py_expo p" "py_expo p \<noteq> - (2 ^ 31)"
    using assms by (auto intro: mod_pos_pos_trivial)
  have digits: "(10::nat) ^ ?d \<le> 10 ^ 18" by (intro power_increasing) auto
  have n: "?n < 2 ^ 63" using assms by (simp add: nat_less_iff)
  have "?n * 10 ^ ?d \<le> ?n * 10 ^ 18" using digits by (rule mult_le_mono2)
  also have "\<dots> < 2 ^ 128" using n by simp
  finally have small: "?n * 10 ^ ?d < 2 ^ 128" .
  then have "?n * 10 ^ ?d \<le> uint_max" by (simp add: uint_max_def)
  then have "scalePythPriceByDigits p = Inr (?n * 10 ^ ?d)"
    unfolding scalePythPriceByDigits_def casts using casts(3) assms by (simp add: TARGET_DIGITS_def checked_ok nat_le_iff)
  with small assms(1) show ?thesis by simp
qed

lemma similar_returns:
  assumes "0 < v" and "v < 2 ^ 128" and "scalePythPriceByDigits p = Inr n" and "0 < n" and "n < 2 ^ 128"
  shows "\<exists>b. bothOraclesSimilarPrice v p = Inr b"
proof -
  define a where "a = scaleAPI3PriceByDigits v"
  have a: "0 < a" "a < 2 ^ 128" using api3_scaled [OF assms(1,2)] by (simp_all add: a_def)
  have "LM_min n a \<le> LM_max n a" "0 < LM_min n a" "LM_max n a < 2 ^ 128"
    using a assms(4,5) by (auto simp: LM_min_def LM_max_def)
  moreover from this have "(LM_max n a - LM_min n a) * DECIMAL_PRECISION \<le> uint_max"
    by (simp add: DECIMAL_PRECISION_def uint_max_def)
  ultimately show ?thesis
    by (simp add: bothOraclesSimilarPrice_def assms(3) a_def [symmetric] Let_def checked_ok)
qed

lemma store_returns:
  assumes "n < 2 ^ 128" and "or_rate env (pf_rateReceiver s) = Inr rate" and "rate < 2 ^ 64"
  shows "\<exists>s'. storePrice env n s = Inr s'"
proof -
  have "n * rate \<le> 2 ^ 128 * 2 ^ 64" using assms by (intro mult_le_mono) auto
  also have "\<dots> \<le> uint_max" by (simp add: uint_max_def)
  finally show ?thesis using assms by (simp add: storePrice_def checked_ok)
qed

lemma health_positive:
  "api3_health env s \<noteq> Broken \<Longrightarrow> 0 < fst (getAPI3Response env s)"
  "pyth_health env s \<noteq> Broken \<Longrightarrow> 0 < py_price (getPythResponse env s)"
  by (auto simp: api3_health_def pyth_health_def api3IsBroken_def pythIsBroken_def Let_def split: prod.splits if_splits)

text \<open>Two live oracles at two thousand dollars and a rate of 1.1, and the same a day later, when both have stopped.\<close>

definition sample_oracles :: oracles where
  "sample_oracles =
     \<lparr>or_now = 100000, or_read = (\<lambda>_. Some (2000000000000000000000, 99000)),
      or_getPriceUnsafe = (\<lambda>_ _. Some \<lparr>py_price = 200000000000, py_conf = 0, py_expo = - 8, py_publishTime = 99000\<rparr>),
      or_rate = (\<lambda>_. Inr (1100000000000000000))\<rparr>"

definition silent_oracles :: oracles where
  "silent_oracles = sample_oracles\<lparr>or_now := 186400, or_read := (\<lambda>_. None), or_getPriceUnsafe := (\<lambda>_ _. None)\<rparr>"

definition sample_feed :: "status \<Rightarrow> price_feed" where
  "sample_feed st =
     \<lparr>pf_owner = 0, pf_api3Proxy = 1, pf_pyth = 2, pf_rateReceiver = 3, pf_pythFeedId = 4, pf_lastGoodPrice = 1900000000000000000000,
      pf_status = st\<rparr>"

lemma sample_status [simp]: "pf_status (sample_feed st) = st" "pf_rateReceiver (sample_feed st) = 3"
  by (simp_all add: sample_feed_def)

lemma sample_responses:
  "getAPI3Response sample_oracles (sample_feed st) = (2000000000000000000000, 99000)"
  "getPythResponse sample_oracles (sample_feed st) = \<lparr>py_price = 200000000000, py_conf = 0, py_expo = - 8, py_publishTime = 99000\<rparr>"
  "api3_health sample_oracles (sample_feed st) = Live" "pyth_health sample_oracles (sample_feed st) = Live"
  "or_rate sample_oracles a = Inr (1100000000000000000)"
  by (simp_all add: getAPI3Response_def getPythResponse_def api3_health_def pyth_health_def sample_oracles_def sample_feed_def
      api3IsBroken_def pythIsBroken_def TIMEOUT_def)

lemma sample_plausible: "plausible sample_oracles (sample_feed st)"
  by (simp add: plausible_def sample_responses)

lemma sample_similar:
  "scaleAPI3PriceByDigits (2000000000000000000000) = 2000000000000000000000"
  "bothOraclesSimilarPrice (2000000000000000000000) \<lparr>py_price = 200000000000, py_conf = 0, py_expo = - 8, py_publishTime = 99000\<rparr> = Inr True"
  by (simp_all add: bothOraclesSimilarPrice_def scalePythPriceByDigits_def scaleAPI3PriceByDigits_def TARGET_DIGITS_def
      LM_min_def LM_max_def u_sub_def u_mul_def u_div_def uint_max_def MAX_PRICE_DIFFERENCE_BETWEEN_ORACLES_def)

lemma sample_fetch:
  "fetchPrice sample_oracles (sample_feed st) =
     Inr (2000000000000000000000, (sample_feed st)\<lparr>pf_status := Api3Working, pf_lastGoodPrice := 2200000000000000000000\<rparr>)"
  by (cases st) (simp_all add: fetchPrice_follows_table similar_def compares_def sample_responses sample_similar take_from_def
      storeAPI3Price_def storePrice_def u_mul_def uint_max_def)

section \<open>Properties\<close>

text \<open>
  C25. The price comes from a live oracle or is the last good one. Whatever the status and whatever the
  oracles answer, a fetch that returns has taken the price of API3 while API3 was neither broken
  nor older than four hours, or that of Pyth under the same conditions, or it has returned the last good
  price and left it as it was; a price that was taken is recorded, at the rate of the receiver, as
  the last good price.
\<close>

theorem fetchPrice_uses_live_oracle:
  assumes "fetchPrice env s = Inr (price, s')"
  shows "(price = pf_lastGoodPrice s \<and> pf_lastGoodPrice s' = pf_lastGoodPrice s)
    \<or> ((api3_health env s = Live \<and> price = scaleAPI3PriceByDigits (fst (getAPI3Response env s))
        \<or> pyth_health env s = Live \<and> scalePythPriceByDigits (getPythResponse env s) = Inr price)
       \<and> (\<exists>rate. or_rate env (pf_rateReceiver s) = Inr rate \<and> pf_lastGoodPrice s' = price * rate div 10 ^ 18))"
proof -
  obtain b src where b: "fetch_table (pf_status s) (api3_health env s) (pyth_health env s) b = (pf_status s', src)"
      "take_from env src (s\<lparr>pf_status := pf_status s'\<rparr>) = Inr (price, s')"
    using assms by (rule fetchPrice_result)
  from table_source_live b(1) take_from_result(2) [OF b(2)] show ?thesis by (cases src) auto
qed

theorem fetchPrice_uses_live_oracle_witness:
  "2000000000000000000000 \<noteq> pf_lastGoodPrice (sample_feed UsingPythAPI3Frozen)
   \<and> (\<exists>rate. or_rate sample_oracles 3 = Inr rate \<and> 2200000000000000000000 = 2000000000000000000000 * rate div 10 ^ 18)"
  using fetchPrice_uses_live_oracle [OF sample_fetch, of UsingPythAPI3Frozen] by (simp add: sample_feed_def)

text \<open>
  C31. When API3 is trusted again. After a fetch the feed works with API3 exactly where API3 was
  live and either the feed was on API3 before and Pyth was not broken, or Pyth was live too and the two
  prices were compared and found similar. In particular one fetch with two live oracles that agree leads
  back to API3 from every status.
\<close>

theorem api3_trusted_iff:
  assumes "fetchPrice env s = Inr (price, s')"
  shows "pf_status s' = Api3Working \<longleftrightarrow>
     api3_health env s = Live
     \<and> (if pf_status s = Api3Working then pyth_health env s \<noteq> Broken
        else pyth_health env s = Live
             \<and> bothOraclesSimilarPrice (fst (getAPI3Response env s)) (getPythResponse env s) = Inr True)"
proof -
  obtain b src where b: "similar env s = Inr b"
      "fetch_table (pf_status s) (api3_health env s) (pyth_health env s) b = (pf_status s', src)"
    using assms by (rule fetchPrice_result)
  have "pf_status s' = fst (fetch_table (pf_status s) (api3_health env s) (pyth_health env s) b)" by (simp add: b(2))
  then show ?thesis using b(1) by (auto simp: table_api3Working_iff similar_def compares_def split: if_splits)
qed

theorem api3_trusted_iff_witness:
  "pyth_health sample_oracles (sample_feed BothOraclesUntrusted) = Live
   \<and> bothOraclesSimilarPrice (2000000000000000000000) (getPythResponse sample_oracles (sample_feed BothOraclesUntrusted)) = Inr True"
  using api3_trusted_iff [OF sample_fetch, of BothOraclesUntrusted] by (simp add: sample_responses)

text \<open>
  C30. A fetch always returns a price: with answers in the range above no status, and no state of the two
  oracles - reverting, broken, frozen, in disagreement - makes it revert.
\<close>

theorem fetchPrice_returns:
  assumes "plausible env s"
  shows "\<exists>price s'. fetchPrice env s = Inr (price, s')"
proof -
  obtain rate where rate: "or_rate env (pf_rateReceiver s) = Inr rate" "rate < 2 ^ 64"
    using assms by (auto simp: plausible_def split: sum.splits)
  have pyth: "pyth_health env s = Live \<Longrightarrow> \<exists>n. scalePythPriceByDigits (getPythResponse env s) = Inr n \<and> 0 < n \<and> n < 2 ^ 128"
    using assms health_positive(2) [of env s] by (intro pyth_scaled) (auto simp: plausible_def)
  have api3: "api3_health env s = Live \<Longrightarrow> 0 < fst (getAPI3Response env s) \<and> fst (getAPI3Response env s) < 2 ^ 128"
    using assms health_positive(1) [of env s] by (auto simp: plausible_def)
  have "\<exists>b. similar env s = Inr b"
    using pyth api3 similar_returns by (auto simp: similar_def compares_def)
  then obtain b where b: "similar env s = Inr b" ..
  obtain st src where t: "fetch_table (pf_status s) (api3_health env s) (pyth_health env s) b = (st, src)" by fastforce
  have store: "n < 2 ^ 128 \<Longrightarrow> \<exists>s'. storePrice env n (s\<lparr>pf_status := st\<rparr>) = Inr s'" for n
    using store_returns [of n env "s\<lparr>pf_status := st\<rparr>" rate] rate by simp
  have "\<exists>r. take_from env src (s\<lparr>pf_status := st\<rparr>) = Inr r"
  proof (cases src)
    case LastGood
    then show ?thesis by (simp add: take_from_def returnLastGoodPrice_def)
  next
    case FromAPI3
    then have "api3_health env s = Live" using t table_source_live(1) by blast
    then show ?thesis using store api3_scaled(2) api3 FromAPI3 by (fastforce simp: take_from_def storeAPI3Price_def Let_def)
  next
    case FromPyth
    then have "pyth_health env s = Live" using t table_source_live(2) by blast
    then show ?thesis using store pyth FromPyth by (fastforce simp: take_from_def storePythPrice_def)
  qed
  then show ?thesis by (auto simp: fetchPrice_follows_table b t)
qed

theorem fetchPrice_returns_witness:
  "\<exists>price s'. fetchPrice sample_oracles (sample_feed UsingAPI3PythUntrusted) = Inr (price, s')"
  by (rule fetchPrice_returns [OF sample_plausible])

text \<open>
  C32. The fetched price and the last good price are in different units. With API3 live the fetch returns the
  price of ETH as the oracle gives it, while it records that price times the rate - the price of WSTETH -
  as the last good price; as soon as both oracles fail the next fetch returns the latter. The same
  collateral is valued at two prices that differ by the rate, only because the oracles have stopped.
\<close>

theorem fetchPrice_mixes_units:
  assumes "pf_status s = Api3Working" and "api3_health env s = Live" and "or_rate env (pf_rateReceiver s) = Inr rate"
    and "fetchPrice env s = Inr (price, s')"
    and "api3_health env' s' = Broken" and "pyth_health env' s' = Broken"
  shows "price = scaleAPI3PriceByDigits (fst (getAPI3Response env s))
    \<and> (\<exists>s2. fetchPrice env' s' = Inr (price * rate div 10 ^ 18, s2))"
proof -
  obtain b src where b: "similar env s = Inr b"
      "fetch_table (pf_status s) (api3_health env s) (pyth_health env s) b = (pf_status s', src)"
      "take_from env src (s\<lparr>pf_status := pf_status s'\<rparr>) = Inr (price, s')"
    using assms(4) by (rule fetchPrice_result)
  have "src = FromAPI3" using b(2) unfolding assms(1,2) by (cases "pyth_health env s") auto
  with take_from_result(2) [OF b(3)] assms(3)
  have p: "price = scaleAPI3PriceByDigits (fst (getAPI3Response env s))" "pf_lastGoodPrice s' = price * rate div 10 ^ 18"
    by auto
  obtain st where "fetch_table (pf_status s') Broken Broken False = (st, LastGood)"
    by (cases "pf_status s'") auto
  then have "fetchPrice env' s' = Inr (pf_lastGoodPrice s', s'\<lparr>pf_status := st\<rparr>)"
    by (simp add: fetchPrice_follows_table similar_def compares_def assms(5,6) take_from_def returnLastGoodPrice_def)
  with p show ?thesis by simp
qed

theorem fetchPrice_mixes_units_witness:
  "fetchPrice sample_oracles (sample_feed Api3Working) =
     Inr (2000000000000000000000, (sample_feed Api3Working)\<lparr>pf_lastGoodPrice := 2200000000000000000000\<rparr>)
   \<and> (\<exists>s2. fetchPrice silent_oracles ((sample_feed Api3Working)\<lparr>pf_lastGoodPrice := 2200000000000000000000\<rparr>) = Inr (2200000000000000000000, s2))"
proof -
  let ?s' = "(sample_feed Api3Working)\<lparr>pf_lastGoodPrice := 2200000000000000000000\<rparr>"
  have f: "fetchPrice sample_oracles (sample_feed Api3Working) = Inr (2000000000000000000000, ?s')"
    by (subst sample_fetch) (simp add: sample_feed_def)
  have "api3_health silent_oracles ?s' = Broken" "pyth_health silent_oracles ?s' = Broken"
    by (simp_all add: api3_health_def pyth_health_def getAPI3Response_def getPythResponse_def silent_oracles_def
        api3IsBroken_def pythIsBroken_def)
  moreover have "pf_status (sample_feed Api3Working) = Api3Working" by (simp add: sample_feed_def)
  ultimately show ?thesis
    using fetchPrice_mixes_units [OF _ sample_responses(3) sample_responses(5) f] f by simp
qed

end
