(* ===== verification/Collateral_Pools.thy ===== *)
theory Collateral_Pools
  imports Evm_Base
begin

text \<open>
  The pools that hold the collateral: \<open>contracts/ActivePool.sol\<close>, \<open>contracts/DefaultPool.sol\<close> and
  \<open>contracts/CollSurplusPool.sol\<close>, with the collateral tracker of the stability pool and the place
  where the borrower operations pay in. Every pool records how much collateral it holds; the token
  \<open>WSTETH\<close> is an \<open>erc20\<close>. The theorem is that the pools hold what they record. Events are not modelled.
\<close>

section \<open>State\<close>

record active_pool =
  ap_owner :: address
  ap_WSTETHAddress :: address
  ap_borrowerOperationsAddress :: address
  ap_troveManagerAddress :: address
  ap_stabilityPoolAddress :: address
  ap_defaultPoolAddress :: address
  ap_collSurplusPoolAddress :: address
  ap_WSTETH :: uint
  ap_SIMDebt :: uint

record default_pool =
  dp_owner :: address
  dp_WSTETHAddress :: address
  dp_troveManagerAddress :: address
  dp_activePoolAddress :: address
  dp_WSTETH :: uint
  dp_SIMDebt :: uint

record coll_surplus_pool =
  cs_owner :: address
  cs_WSTETHAddress :: address
  cs_borrowerOperationsAddress :: address
  cs_troveManagerAddress :: address
  cs_activePoolAddress :: address
  cs_WSTETH :: uint
  cs_balances :: "address \<Rightarrow> uint"

text \<open>The pools with their own addresses, the tracker of the stability pool, and the token.\<close>

record 't pools =
  at_activePool :: address
  at_defaultPool :: address
  at_collSurplusPool :: address
  at_stabilityPool :: address
  activePool :: active_pool
  defaultPool :: default_pool
  collSurplusPool :: coll_surplus_pool
  sp_activePool :: address
  sp_WSTETH :: uint
  wsteth :: 't

section \<open>Setters\<close>

definition only_owner :: "address \<Rightarrow> address \<Rightarrow> revert + unit" where
  "only_owner owner sender = require (sender = owner) ''Ownable: caller is not the owner''"

fun checkContracts :: "(address \<Rightarrow> bool) \<Rightarrow> address list \<Rightarrow> revert + unit" where
  "checkContracts is_contract [] = Inr ()"
| "checkContracts is_contract (a # as) = bind_res (checkContract is_contract a) (\<lambda>_. checkContracts is_contract as)"

definition activePool_setAddresses ::
    "(address \<Rightarrow> bool) \<Rightarrow> address \<Rightarrow> address \<Rightarrow> address \<Rightarrow> address \<Rightarrow> address \<Rightarrow> address \<Rightarrow> address \<Rightarrow> 't pools \<Rightarrow> revert + 't pools" where
  "activePool_setAddresses is_contract sender wst borrowerOperations troveManager stabilityPool defaultPoolAddress collSurplus s =
     bind_res (only_owner (ap_owner (activePool s)) sender) (\<lambda>_.
     bind_res (checkContracts is_contract [wst, borrowerOperations, troveManager, stabilityPool, defaultPoolAddress, collSurplus]) (\<lambda>_.
     Inr (s\<lparr>activePool := (activePool s)
       \<lparr>ap_WSTETHAddress := wst, ap_borrowerOperationsAddress := borrowerOperations,
        ap_troveManagerAddress := troveManager, ap_stabilityPoolAddress := stabilityPool,
        ap_defaultPoolAddress := defaultPoolAddress, ap_collSurplusPoolAddress := collSurplus, ap_owner := 0\<rparr>\<rparr>)))"

definition defaultPool_setAddresses ::
    "(address \<Rightarrow> bool) \<Rightarrow> address \<Rightarrow> address \<Rightarrow> address \<Rightarrow> address \<Rightarrow> 't pools \<Rightarrow> revert + 't pools" where
  "defaultPool_setAddresses is_contract sender wst troveManager activePoolAddress s =
     bind_res (only_owner (dp_owner (defaultPool s)) sender) (\<lambda>_.
     bind_res (checkContracts is_contract [wst, troveManager, activePoolAddress]) (\<lambda>_.
     Inr (s\<lparr>defaultPool := (defaultPool s)
       \<lparr>dp_WSTETHAddress := wst, dp_troveManagerAddress := troveManager, dp_activePoolAddress := activePoolAddress,
        dp_owner := 0\<rparr>\<rparr>)))"

definition collSurplusPool_setAddresses ::
    "(address \<Rightarrow> bool) \<Rightarrow> address \<Rightarrow> address \<Rightarrow> address \<Rightarrow> address \<Rightarrow> address \<Rightarrow> 't pools \<Rightarrow> revert + 't pools" where
  "collSurplusPool_setAddresses is_contract sender wst borrowerOperations troveManager activePoolAddress s =
     bind_res (only_owner (cs_owner (collSurplusPool s)) sender) (\<lambda>_.
     bind_res (checkContracts is_contract [wst, borrowerOperations, troveManager, activePoolAddress]) (\<lambda>_.
     Inr (s\<lparr>collSurplusPool := (collSurplusPool s)
       \<lparr>cs_WSTETHAddress := wst, cs_borrowerOperationsAddress := borrowerOperations,
        cs_troveManagerAddress := troveManager, cs_activePoolAddress := activePoolAddress, cs_owner := 0\<rparr>\<rparr>)))"

section \<open>Receiving\<close>

definition activePool_receiveWSTETH :: "address \<Rightarrow> uint \<Rightarrow> 't pools \<Rightarrow> revert + 't pools" where
  "activePool_receiveWSTETH sender amount s =
     (let p = activePool s in
      bind_res (require (sender = ap_borrowerOperationsAddress p \<or> sender = ap_defaultPoolAddress p)
        ''ActivePool: Caller is neither BO nor Default Pool'') (\<lambda>_.
      bind_res (u_add (ap_WSTETH p) amount) (\<lambda>w.
      Inr (s\<lparr>activePool := p\<lparr>ap_WSTETH := w\<rparr>\<rparr>))))"

definition defaultPool_receiveWSTETH :: "address \<Rightarrow> uint \<Rightarrow> 't pools \<Rightarrow> revert + 't pools" where
  "defaultPool_receiveWSTETH sender amount s =
     (let p = defaultPool s in
      bind_res (require (sender = dp_activePoolAddress p) ''DefaultPool: Caller is not the ActivePool'') (\<lambda>_.
      bind_res (u_add (dp_WSTETH p) amount) (\<lambda>w.
      Inr (s\<lparr>defaultPool := p\<lparr>dp_WSTETH := w\<rparr>\<rparr>))))"

definition collSurplusPool_receiveWSTETH :: "address \<Rightarrow> uint \<Rightarrow> 't pools \<Rightarrow> revert + 't pools" where
  "collSurplusPool_receiveWSTETH sender amount s =
     (let p = collSurplusPool s in
      bind_res (require (sender = cs_activePoolAddress p) ''CollSurplusPool: Caller is not Active Pool'') (\<lambda>_.
      bind_res (u_add (cs_WSTETH p) amount) (\<lambda>w.
      Inr (s\<lparr>collSurplusPool := p\<lparr>cs_WSTETH := w\<rparr>\<rparr>))))"

definition stabilityPool_receiveWSTETH :: "address \<Rightarrow> uint \<Rightarrow> 't pools \<Rightarrow> revert + 't pools" where
  "stabilityPool_receiveWSTETH sender amount s =
     bind_res (require (sender = sp_activePool s) ''StabilityPool: Caller is not ActivePool'') (\<lambda>_.
     bind_res (u_add (sp_WSTETH s) amount) (\<lambda>w.
     Inr (s\<lparr>sp_WSTETH := w\<rparr>)))"

section \<open>Sending\<close>

text \<open>\<open>require(IERC20(WSTETHAddress).transfer(to, amount))\<close> by the contract at \<open>from\<close>.\<close>

definition transfer_WSTETH :: "'t erc20 \<Rightarrow> address \<Rightarrow> address \<Rightarrow> uint \<Rightarrow> 't pools \<Rightarrow> revert + 't pools" where
  "transfer_WSTETH tok from to amount s =
     bind_res (tk_transfer tok (wsteth s) from to amount) (\<lambda>(ok, t).
     bind_res (require ok '''') (\<lambda>_. Inr (s\<lparr>wsteth := t\<rparr>)))"

definition when_res :: "bool \<Rightarrow> ('s \<Rightarrow> revert + 's) \<Rightarrow> 's \<Rightarrow> revert + 's" where
  "when_res b f s = (if b then f s else Inr s)"

definition callerIsBOorTroveMorSP :: "active_pool \<Rightarrow> address \<Rightarrow> revert + unit" where
  "callerIsBOorTroveMorSP p sender =
     require (sender = ap_borrowerOperationsAddress p \<or> sender = ap_troveManagerAddress p \<or> sender = ap_stabilityPoolAddress p)
       ''ActivePool: Caller is neither BorrowerOperations nor TroveManager nor StabilityPool''"

definition callerIsBOorTroveM :: "active_pool \<Rightarrow> address \<Rightarrow> revert + unit" where
  "callerIsBOorTroveM p sender =
     require (sender = ap_borrowerOperationsAddress p \<or> sender = ap_troveManagerAddress p)
       ''ActivePool: Caller is neither BorrowerOperations nor TroveManager''"

definition sendWSTETH :: "'t erc20 \<Rightarrow> address \<Rightarrow> address \<Rightarrow> uint \<Rightarrow> 't pools \<Rightarrow> revert + 't pools" where
  "sendWSTETH tok sender account amount s0 =
     (let p = activePool s0; self = at_activePool s0 in
      bind_res (callerIsBOorTroveMorSP p sender) (\<lambda>_.
      bind_res (u_sub (ap_WSTETH p) amount) (\<lambda>w.
      bind_res (transfer_WSTETH tok self account amount (s0\<lparr>activePool := p\<lparr>ap_WSTETH := w\<rparr>\<rparr>)) (\<lambda>s1.
      bind_res (when_res (account = ap_defaultPoolAddress p) (defaultPool_receiveWSTETH self amount) s1) (\<lambda>s2.
      bind_res (when_res (account = ap_stabilityPoolAddress p) (stabilityPool_receiveWSTETH self amount) s2) (\<lambda>s3.
      when_res (account = ap_collSurplusPoolAddress p) (collSurplusPool_receiveWSTETH self amount) s3))))))"

definition sendWSTETHToActivePool :: "'t erc20 \<Rightarrow> address \<Rightarrow> uint \<Rightarrow> 't pools \<Rightarrow> revert + 't pools" where
  "sendWSTETHToActivePool tok sender amount s0 =
     (let p = defaultPool s0; self = at_defaultPool s0 in
      bind_res (require (sender = dp_troveManagerAddress p) ''DefaultPool: Caller is not the TroveManager'') (\<lambda>_.
      bind_res (u_sub (dp_WSTETH p) amount) (\<lambda>w.
      bind_res (transfer_WSTETH tok self (dp_activePoolAddress p) amount (s0\<lparr>defaultPool := p\<lparr>dp_WSTETH := w\<rparr>\<rparr>)) (\<lambda>s1.
      activePool_receiveWSTETH self amount s1))))"

definition accountSurplus :: "address \<Rightarrow> address \<Rightarrow> uint \<Rightarrow> 't pools \<Rightarrow> revert + 't pools" where
  "accountSurplus sender account amount s =
     (let p = collSurplusPool s in
      bind_res (require (sender = cs_troveManagerAddress p) ''CollSurplusPool: Caller is not TroveManager'') (\<lambda>_.
      bind_res (u_add (cs_balances p account) amount) (\<lambda>newAmount.
      Inr (s\<lparr>collSurplusPool := p\<lparr>cs_balances := (cs_balances p)(account := newAmount)\<rparr>\<rparr>))))"

definition claimColl :: "'t erc20 \<Rightarrow> address \<Rightarrow> address \<Rightarrow> 't pools \<Rightarrow> revert + 't pools" where
  "claimColl tok sender account s =
     (let p = collSurplusPool s; claimableColl = cs_balances p account in
      bind_res (require (sender = cs_borrowerOperationsAddress p) ''CollSurplusPool: Caller is not Borrower Operations'') (\<lambda>_.
      bind_res (require (0 < claimableColl) ''CollSurplusPool: No collateral available to claim'') (\<lambda>_.
      bind_res (u_sub (cs_WSTETH p) claimableColl) (\<lambda>w.
      transfer_WSTETH tok (at_collSurplusPool s) account claimableColl
        (s\<lparr>collSurplusPool := p\<lparr>cs_balances := (cs_balances p)(account := 0), cs_WSTETH := w\<rparr>\<rparr>)))))"

section \<open>Debt\<close>

definition activePool_increaseSIMDebt :: "address \<Rightarrow> uint \<Rightarrow> 't pools \<Rightarrow> revert + 't pools" where
  "activePool_increaseSIMDebt sender amount s =
     bind_res (callerIsBOorTroveM (activePool s) sender) (\<lambda>_.
     bind_res (u_add (ap_SIMDebt (activePool s)) amount) (\<lambda>d.
     Inr (s\<lparr>activePool := (activePool s)\<lparr>ap_SIMDebt := d\<rparr>\<rparr>)))"

definition activePool_decreaseSIMDebt :: "address \<Rightarrow> uint \<Rightarrow> 't pools \<Rightarrow> revert + 't pools" where
  "activePool_decreaseSIMDebt sender amount s =
     bind_res (callerIsBOorTroveMorSP (activePool s) sender) (\<lambda>_.
     bind_res (u_sub (ap_SIMDebt (activePool s)) amount) (\<lambda>d.
     Inr (s\<lparr>activePool := (activePool s)\<lparr>ap_SIMDebt := d\<rparr>\<rparr>)))"

definition defaultPool_increaseSIMDebt :: "address \<Rightarrow> uint \<Rightarrow> 't pools \<Rightarrow> revert + 't pools" where
  "defaultPool_increaseSIMDebt sender amount s =
     bind_res (require (sender = dp_troveManagerAddress (defaultPool s)) ''DefaultPool: Caller is not the TroveManager'') (\<lambda>_.
     bind_res (u_add (dp_SIMDebt (defaultPool s)) amount) (\<lambda>d.
     Inr (s\<lparr>defaultPool := (defaultPool s)\<lparr>dp_SIMDebt := d\<rparr>\<rparr>)))"

definition defaultPool_decreaseSIMDebt :: "address \<Rightarrow> uint \<Rightarrow> 't pools \<Rightarrow> revert + 't pools" where
  "defaultPool_decreaseSIMDebt sender amount s =
     bind_res (require (sender = dp_troveManagerAddress (defaultPool s)) ''DefaultPool: Caller is not the TroveManager'') (\<lambda>_.
     bind_res (u_sub (dp_SIMDebt (defaultPool s)) amount) (\<lambda>d.
     Inr (s\<lparr>defaultPool := (defaultPool s)\<lparr>dp_SIMDebt := d\<rparr>\<rparr>)))"

section \<open>Callers that move collateral\<close>

text \<open>\<open>_activePoolAddColl\<close> of the borrower operations, and the payment of a gain by the stability pool.\<close>

definition activePoolAddColl :: "'t erc20 \<Rightarrow> uint \<Rightarrow> 't pools \<Rightarrow> revert + 't pools" where
  "activePoolAddColl tok amount s =
     (let self = ap_borrowerOperationsAddress (activePool s) in
      bind_res (transfer_WSTETH tok self (at_activePool s) amount s) (\<lambda>s1.
      activePool_receiveWSTETH self amount s1))"

definition sendWSTETHGainToDepositor :: "'t erc20 \<Rightarrow> address \<Rightarrow> uint \<Rightarrow> 't pools \<Rightarrow> revert + 't pools" where
  "sendWSTETHGainToDepositor tok depositor amount s =
     (if amount = 0 then Inr s
      else bind_res (u_sub (sp_WSTETH s) amount) (\<lambda>w.
           transfer_WSTETH tok (at_stabilityPool s) depositor amount (s\<lparr>sp_WSTETH := w\<rparr>)))"

section \<open>The pools hold what they record\<close>

text \<open>
  The addresses the deployment gives the pools: each pool knows the others at the addresses where they
  are, the four pools and the borrower operations are five contracts, and nobody owns a pool any more.
\<close>

definition wired :: "'t pools \<Rightarrow> bool" where
  "wired s \<longleftrightarrow>
     (let ap = activePool s; dp = defaultPool s; cs = collSurplusPool s in
      distinct [at_activePool s, at_defaultPool s, at_collSurplusPool s, at_stabilityPool s, ap_borrowerOperationsAddress ap]
      \<and> ap_defaultPoolAddress ap = at_defaultPool s \<and> ap_stabilityPoolAddress ap = at_stabilityPool s
      \<and> ap_collSurplusPoolAddress ap = at_collSurplusPool s
      \<and> dp_activePoolAddress dp = at_activePool s \<and> cs_activePoolAddress cs = at_activePool s
      \<and> sp_activePool s = at_activePool s
      \<and> ap_owner ap = 0 \<and> dp_owner dp = 0 \<and> cs_owner cs = 0)"

text \<open>The contracts that may report an arrival to a pool.\<close>

definition reporters :: "'t pools \<Rightarrow> address set" where
  "reporters s = {ap_borrowerOperationsAddress (activePool s), at_activePool s, at_defaultPool s}"

text \<open>What the pool at an address records; nothing is recorded at any other address.\<close>

definition recorded :: "'t pools \<Rightarrow> address \<Rightarrow> uint" where
  "recorded s a =
     (if a = at_activePool s then ap_WSTETH (activePool s)
      else if a = at_defaultPool s then dp_WSTETH (defaultPool s)
      else if a = at_collSurplusPool s then cs_WSTETH (collSurplusPool s)
      else if a = at_stabilityPool s then sp_WSTETH s
      else 0)"

definition backed :: "'t erc20 \<Rightarrow> 't pools \<Rightarrow> bool" where
  "backed tok s \<longleftrightarrow> (\<forall>a. recorded s a \<le> tk_balanceOf tok (wsteth s) a)"

text \<open>
  The calls that can be made once the system is wired: the operations of the pools by anybody (no key
  signs for the zero address), the payments of the borrower operations and of the stability pool, and
  transfers of the token by accounts that are not pools. A pool accepts the report of an arrival only
  from its reporters, which make it as part of the operations above.
\<close>

inductive pool_step :: "'t erc20 \<Rightarrow> 't pools \<Rightarrow> 't pools \<Rightarrow> bool" for tok where
  set_active: "sender \<noteq> 0 \<Longrightarrow> activePool_setAddresses is_contract sender a b c d e f s = Inr s' \<Longrightarrow> pool_step tok s s'"
| set_default: "sender \<noteq> 0 \<Longrightarrow> defaultPool_setAddresses is_contract sender a b c s = Inr s' \<Longrightarrow> pool_step tok s s'"
| set_surplus: "sender \<noteq> 0 \<Longrightarrow> collSurplusPool_setAddresses is_contract sender a b c d s = Inr s' \<Longrightarrow> pool_step tok s s'"
| report_active: "sender \<notin> reporters s \<Longrightarrow> activePool_receiveWSTETH sender n s = Inr s' \<Longrightarrow> pool_step tok s s'"
| report_default: "sender \<notin> reporters s \<Longrightarrow> defaultPool_receiveWSTETH sender n s = Inr s' \<Longrightarrow> pool_step tok s s'"
| report_surplus: "sender \<notin> reporters s \<Longrightarrow> collSurplusPool_receiveWSTETH sender n s = Inr s' \<Longrightarrow> pool_step tok s s'"
| report_stability: "sender \<notin> reporters s \<Longrightarrow> stabilityPool_receiveWSTETH sender n s = Inr s' \<Longrightarrow> pool_step tok s s'"
| pay_in: "activePoolAddColl tok n s = Inr s' \<Longrightarrow> pool_step tok s s'"
| send: "sendWSTETH tok sender account n s = Inr s' \<Longrightarrow> pool_step tok s s'"
| send_back: "sendWSTETHToActivePool tok sender n s = Inr s' \<Longrightarrow> pool_step tok s s'"
| surplus: "accountSurplus sender account n s = Inr s' \<Longrightarrow> pool_step tok s s'"
| claim: "claimColl tok sender account s = Inr s' \<Longrightarrow> pool_step tok s s'"
| gain: "sendWSTETHGainToDepositor tok account n s = Inr s' \<Longrightarrow> pool_step tok s s'"
| debt_active: "activePool_increaseSIMDebt sender n s = Inr s' \<or> activePool_decreaseSIMDebt sender n s = Inr s' \<Longrightarrow> pool_step tok s s'"
| debt_default: "defaultPool_increaseSIMDebt sender n s = Inr s' \<or> defaultPool_decreaseSIMDebt sender n s = Inr s' \<Longrightarrow> pool_step tok s s'"
| outside: "from \<notin> {at_activePool s, at_defaultPool s, at_collSurplusPool s, at_stabilityPool s}
    \<Longrightarrow> transfer_WSTETH tok from to n s = Inr s' \<Longrightarrow> pool_step tok s s'"

lemma transfer_WSTETH_result:
  assumes "transfer_WSTETH tok from to n s = Inr s'" and "moves_the_amount tok"
  obtains t where "s' = s\<lparr>wsteth := t\<rparr>"
    and "tk_balanceOf tok (wsteth s) from \<le> tk_balanceOf tok t from + n"
    and "\<And>a. a \<noteq> from \<Longrightarrow> tk_balanceOf tok t a = tk_balanceOf tok (wsteth s) a + (if a = to then n else 0)"
proof -
  obtain ok t where t: "tk_transfer tok (wsteth s) from to n = Inr (ok, t)" and s': "s' = s\<lparr>wsteth := t\<rparr>"
    using assms(1) by (auto simp: transfer_WSTETH_def res_simps split: if_splits prod.splits)
  show thesis
    by (rule that [OF s' transfer_takes [OF t assms(2)] transfer_gives [OF t assms(2)]])
qed

lemma transfer_WSTETH_has:
  assumes "transfer_WSTETH tok from to n s = Inr s'" and "moves_the_amount tok"
  shows "n \<le> tk_balanceOf tok (wsteth s) from"
proof -
  obtain ok t where "tk_transfer tok (wsteth s) from to n = Inr (ok, t)"
    using assms(1) by (auto simp: transfer_WSTETH_def res_simps split: if_splits prod.splits)
  from transfer_has [OF this assms(2)] show ?thesis .
qed

text \<open>
  Tokens on the move: the sender has the amount beyond its record, and afterwards the receiver may
  record it.
\<close>

lemma moved_backed:
  assumes "transfer_WSTETH tok from to n s0 = Inr s1" and "moves_the_amount tok"
    and "\<And>a. recorded s0 a + (if a = from then n else 0) \<le> tk_balanceOf tok (wsteth s0) a"
    and "wsteth s' = wsteth s1"
    and "\<And>a. recorded s' a \<le> recorded s0 a + (if a = to \<and> from \<noteq> to then n else 0)"
  shows "backed tok s'"
  unfolding backed_def
proof
  fix a
  obtain t where t: "s1 = s0\<lparr>wsteth := t\<rparr>"
      "tk_balanceOf tok (wsteth s0) from \<le> tk_balanceOf tok t from + n"
      "\<And>a. a \<noteq> from \<Longrightarrow> tk_balanceOf tok t a = tk_balanceOf tok (wsteth s0) a + (if a = to then n else 0)"
    using transfer_WSTETH_result [OF assms(1,2)] by blast
  show "recorded s' a \<le> tk_balanceOf tok (wsteth s') a"
    using assms(3) [of a] assms(4) assms(5) [of a] t(1,2) t(3) [of a]
    by (cases "a = from") (auto split: if_splits)
qed

lemma transfer_WSTETH_keeps:
  assumes "transfer_WSTETH tok from to n s = Inr s'"
  shows "wired s' = wired s" and "recorded s' = recorded s"
    and "at_activePool s' = at_activePool s" and "at_defaultPool s' = at_defaultPool s"
    and "at_collSurplusPool s' = at_collSurplusPool s" and "at_stabilityPool s' = at_stabilityPool s"
proof -
  obtain t where "s' = s\<lparr>wsteth := t\<rparr>"
    using assms by (auto simp: transfer_WSTETH_def res_simps split: if_splits prod.splits)
  then show "wired s' = wired s" and "recorded s' = recorded s"
    and "at_activePool s' = at_activePool s" and "at_defaultPool s' = at_defaultPool s"
    and "at_collSurplusPool s' = at_collSurplusPool s" and "at_stabilityPool s' = at_stabilityPool s"
    by (simp_all add: wired_def recorded_def fun_eq_iff)
qed

text \<open>The addresses of the pools are different; only the last pool of \<open>recorded\<close> needs it all.\<close>

lemma wired_distinct:
  assumes "wired s"
  shows "at_activePool s \<noteq> at_defaultPool s" and "at_activePool s \<noteq> at_collSurplusPool s" and "at_activePool s \<noteq> at_stabilityPool s"
    and "at_defaultPool s \<noteq> at_collSurplusPool s" and "at_defaultPool s \<noteq> at_stabilityPool s" and "at_collSurplusPool s \<noteq> at_stabilityPool s"
  using assms by (simp_all add: wired_def Let_def)

lemma wired_outsider:
  assumes "wired s"
  shows "ap_borrowerOperationsAddress (activePool s) \<notin> {at_activePool s, at_defaultPool s, at_collSurplusPool s, at_stabilityPool s}"
proof -
  have "distinct [at_activePool s, at_defaultPool s, at_collSurplusPool s, at_stabilityPool s, ap_borrowerOperationsAddress (activePool s)]"
    using assms unfolding wired_def Let_def by blast
  then show ?thesis by auto
qed

lemma activePool_report:
  assumes "activePool_receiveWSTETH sender n s = Inr s'" and "wired s"
  shows "wired s'" and "wsteth s' = wsteth s"
    and "recorded s' a = recorded s a + (if a = at_activePool s then n else 0)"
proof -
  have s': "s' = s\<lparr>activePool := (activePool s)\<lparr>ap_WSTETH := ap_WSTETH (activePool s) + n\<rparr>\<rparr>"
    using assms(1) by (simp add: activePool_receiveWSTETH_def Let_def res_simps split: if_splits)
  show "wired s'" using assms(2) by (simp add: s' wired_def Let_def)
  show "wsteth s' = wsteth s" by (simp add: s')
  show "recorded s' a = recorded s a + (if a = at_activePool s then n else 0)"
    using wired_distinct [OF assms(2)] by (simp add: s' recorded_def)
qed

lemma defaultPool_report:
  assumes "defaultPool_receiveWSTETH sender n s = Inr s'" and "wired s"
  shows "wired s'" and "wsteth s' = wsteth s"
    and "recorded s' a = recorded s a + (if a = at_defaultPool s then n else 0)"
proof -
  have s': "s' = s\<lparr>defaultPool := (defaultPool s)\<lparr>dp_WSTETH := dp_WSTETH (defaultPool s) + n\<rparr>\<rparr>"
    using assms(1) by (simp add: defaultPool_receiveWSTETH_def Let_def res_simps split: if_splits)
  show "wired s'" using assms(2) by (simp add: s' wired_def Let_def)
  show "wsteth s' = wsteth s" by (simp add: s')
  show "recorded s' a = recorded s a + (if a = at_defaultPool s then n else 0)"
    using wired_distinct [OF assms(2)] by (simp add: s' recorded_def)
qed

lemma collSurplusPool_report:
  assumes "collSurplusPool_receiveWSTETH sender n s = Inr s'" and "wired s"
  shows "wired s'" and "wsteth s' = wsteth s"
    and "recorded s' a = recorded s a + (if a = at_collSurplusPool s then n else 0)"
proof -
  have s': "s' = s\<lparr>collSurplusPool := (collSurplusPool s)\<lparr>cs_WSTETH := cs_WSTETH (collSurplusPool s) + n\<rparr>\<rparr>"
    using assms(1) by (simp add: collSurplusPool_receiveWSTETH_def Let_def res_simps split: if_splits)
  show "wired s'" using assms(2) by (simp add: s' wired_def Let_def)
  show "wsteth s' = wsteth s" by (simp add: s')
  show "recorded s' a = recorded s a + (if a = at_collSurplusPool s then n else 0)"
    using wired_distinct [OF assms(2)] by (simp add: s' recorded_def)
qed

lemma stabilityPool_report:
  assumes "stabilityPool_receiveWSTETH sender n s = Inr s'" and "wired s"
  shows "wired s'" and "wsteth s' = wsteth s"
    and "recorded s' a = recorded s a + (if a = at_stabilityPool s then n else 0)"
proof -
  have s': "s' = s\<lparr>sp_WSTETH := sp_WSTETH s + n\<rparr>"
    using assms(1) by (simp add: stabilityPool_receiveWSTETH_def Let_def res_simps split: if_splits)
  show "wired s'" using assms(2) by (simp add: s' wired_def Let_def)
  show "wsteth s' = wsteth s" by (simp add: s')
  show "recorded s' a = recorded s a + (if a = at_stabilityPool s then n else 0)"
    using wired_distinct [OF assms(2)] by (simp add: s' recorded_def)
qed

text \<open>The three conditional reports of \<open>sendWSTETH\<close> come to at most one, at the receiving pool.\<close>

lemma reports_of_send:
  assumes "when_res (account = ap_defaultPoolAddress p) (defaultPool_receiveWSTETH self n) s1 = Inr s2"
    and "when_res (account = ap_stabilityPoolAddress p) (stabilityPool_receiveWSTETH self n) s2 = Inr s3"
    and "when_res (account = ap_collSurplusPoolAddress p) (collSurplusPool_receiveWSTETH self n) s3 = Inr s'"
    and "wired s1"
    and "ap_defaultPoolAddress p = at_defaultPool s1" and "ap_stabilityPoolAddress p = at_stabilityPool s1"
    and "ap_collSurplusPoolAddress p = at_collSurplusPool s1"
  shows "wired s'" and "wsteth s' = wsteth s1"
    and "recorded s' a = recorded s1 a + (if a = account \<and> account \<in> {at_defaultPool s1, at_stabilityPool s1, at_collSurplusPool s1} then n else 0)"
proof -
  note ne = wired_distinct [OF assms(4)] wired_distinct [OF assms(4), symmetric]
  consider "account = at_defaultPool s1" | "account = at_stabilityPool s1" | "account = at_collSurplusPool s1"
    | "account \<notin> {at_defaultPool s1, at_stabilityPool s1, at_collSurplusPool s1}" by blast
  then have "wired s' \<and> wsteth s' = wsteth s1 \<and> recorded s' a = recorded s1 a +
      (if a = account \<and> account \<in> {at_defaultPool s1, at_stabilityPool s1, at_collSurplusPool s1} then n else 0)"
  proof cases
    case 1
    then have "defaultPool_receiveWSTETH self n s1 = Inr s'" using assms(1-3) ne by (simp add: when_res_def assms(5-7))
    from defaultPool_report [OF this assms(4)] 1 show ?thesis by simp
  next
    case 2
    then have "stabilityPool_receiveWSTETH self n s1 = Inr s'" using assms(1-3) ne by (simp add: when_res_def assms(5-7))
    from stabilityPool_report [OF this assms(4)] 2 show ?thesis by simp
  next
    case 3
    then have "collSurplusPool_receiveWSTETH self n s1 = Inr s'" using assms(1-3) ne by (simp add: when_res_def assms(5-7))
    from collSurplusPool_report [OF this assms(4)] 3 show ?thesis by simp
  next
    case 4
    then show ?thesis using assms(1-4) by (simp add: when_res_def assms(5-7))
  qed
  then show "wired s'" and "wsteth s' = wsteth s1"
    and "recorded s' a = recorded s1 a + (if a = account \<and> account \<in> {at_defaultPool s1, at_stabilityPool s1, at_collSurplusPool s1} then n else 0)"
    by blast+
qed
lemma activePoolAddColl_backed:
  assumes "activePoolAddColl tok n s = Inr s'" and "moves_the_amount tok" and "wired s" and "backed tok s"
  shows "wired s' \<and> backed tok s'"
proof -
  let ?bo = "ap_borrowerOperationsAddress (activePool s)"
  obtain s1 where s1: "transfer_WSTETH tok ?bo (at_activePool s) n s = Inr s1" "activePool_receiveWSTETH ?bo n s1 = Inr s'"
    using assms(1) by (auto simp: activePoolAddColl_def Let_def res_simps)
  note keeps = transfer_WSTETH_keeps [OF s1(1)]
  have "wired s1" using assms(3) by (simp add: keeps)
  note rep = activePool_report [OF s1(2) this]
  have ne: "?bo \<noteq> at_activePool s" using wired_outsider [OF assms(3)] by simp
  have zero: "recorded s ?bo = 0" using wired_outsider [OF assms(3)] by (simp add: recorded_def)
  have "n \<le> tk_balanceOf tok (wsteth s) ?bo"
    by (rule transfer_WSTETH_has [OF s1(1) assms(2)])
  then have "\<And>a. recorded s a + (if a = ?bo then n else 0) \<le> tk_balanceOf tok (wsteth s) a"
    using zero assms(4) by (simp add: backed_def)
  from moved_backed [OF s1(1) assms(2) this rep(2)] have "backed tok s'"
    using ne by (simp add: rep(3) keeps)
  with rep(1) show ?thesis ..
qed

lemma sendWSTETH_backed:
  assumes "sendWSTETH tok sender account n s = Inr s'" and "moves_the_amount tok" and "wired s" and "backed tok s"
  shows "wired s' \<and> backed tok s'"
proof -
  let ?p = "activePool s" and ?self = "at_activePool s"
  define s0 where "s0 = s\<lparr>activePool := ?p\<lparr>ap_WSTETH := ap_WSTETH ?p - n\<rparr>\<rparr>"
  obtain s1 s2 s3 where s: "n \<le> ap_WSTETH ?p" "transfer_WSTETH tok ?self account n s0 = Inr s1"
      "when_res (account = ap_defaultPoolAddress ?p) (defaultPool_receiveWSTETH ?self n) s1 = Inr s2"
      "when_res (account = ap_stabilityPoolAddress ?p) (stabilityPool_receiveWSTETH ?self n) s2 = Inr s3"
      "when_res (account = ap_collSurplusPoolAddress ?p) (collSurplusPool_receiveWSTETH ?self n) s3 = Inr s'"
    using assms(1) unfolding s0_def by (auto simp: sendWSTETH_def callerIsBOorTroveMorSP_def Let_def res_simps split: if_splits)
  note keeps = transfer_WSTETH_keeps [OF s(2)]
  have s0: "wired s0" using assms(3) by (simp add: s0_def wired_def Let_def)
  have at: "at_activePool s0 = ?self" by (simp add: s0_def)
  have "ap_defaultPoolAddress ?p = at_defaultPool s1" "ap_stabilityPoolAddress ?p = at_stabilityPool s1"
      "ap_collSurplusPoolAddress ?p = at_collSurplusPool s1" "wired s1"
    using assms(3) s0 by (simp_all add: keeps) (simp_all add: s0_def wired_def Let_def)
  note rep = reports_of_send [OF s(3-5) this(4,1-3)]
  have "recorded s0 a + (if a = ?self then n else 0) = recorded s a" for a
    using s(1) by (simp add: s0_def recorded_def)
  then have "\<And>a. recorded s0 a + (if a = ?self then n else 0) \<le> tk_balanceOf tok (wsteth s0) a"
    using assms(4) by (simp add: backed_def s0_def)
  moreover have "recorded s' a \<le> recorded s0 a + (if a = account \<and> ?self \<noteq> account then n else 0)" for a
    using wired_distinct [OF s0] by (auto simp: rep(3) keeps at)
  ultimately have "backed tok s'" by (rule moved_backed [OF s(2) assms(2) _ rep(2)])
  with rep(1) show ?thesis ..
qed

lemma sendWSTETHToActivePool_backed:
  assumes "sendWSTETHToActivePool tok sender n s = Inr s'" and "moves_the_amount tok" and "wired s" and "backed tok s"
  shows "wired s' \<and> backed tok s'"
proof -
  let ?p = "defaultPool s" and ?self = "at_defaultPool s"
  define s0 where "s0 = s\<lparr>defaultPool := ?p\<lparr>dp_WSTETH := dp_WSTETH ?p - n\<rparr>\<rparr>"
  have ap: "dp_activePoolAddress ?p = at_activePool s" using assms(3) by (simp add: wired_def Let_def)
  obtain s1 where s: "n \<le> dp_WSTETH ?p" "transfer_WSTETH tok ?self (at_activePool s) n s0 = Inr s1"
      "activePool_receiveWSTETH ?self n s1 = Inr s'"
    using assms(1) unfolding s0_def ap [symmetric] by (auto simp: sendWSTETHToActivePool_def Let_def res_simps split: if_splits)
  note keeps = transfer_WSTETH_keeps [OF s(2)]
  have s0: "wired s0" using assms(3) by (simp add: s0_def wired_def Let_def)
  have at: "at_activePool s0 = at_activePool s" "at_defaultPool s0 = ?self" by (simp_all add: s0_def)
  have "wired s1" using s0 by (simp add: keeps)
  note rep = activePool_report [OF s(3) this]
  have "recorded s0 a + (if a = ?self then n else 0) = recorded s a" for a
    using s(1) wired_distinct [OF assms(3)] by (simp add: s0_def recorded_def)
  then have "\<And>a. recorded s0 a + (if a = ?self then n else 0) \<le> tk_balanceOf tok (wsteth s0) a"
    using assms(4) by (simp add: backed_def s0_def)
  from moved_backed [OF s(2) assms(2) this rep(2)] have "backed tok s'"
    using wired_distinct [OF s0] by (simp add: rep(3) keeps at)
  with rep(1) show ?thesis ..
qed

text \<open>A payment to somebody who does not report: the record is lowered first.\<close>

lemma pay_out_backed:
  assumes "transfer_WSTETH tok from to n s0 = Inr s'" and "moves_the_amount tok" and "wired s0"
    and "\<And>a. recorded s0 a + (if a = from then n else 0) \<le> tk_balanceOf tok (wsteth s0) a"
  shows "wired s' \<and> backed tok s'"
  using moved_backed [OF assms(1,2,4) refl] assms(3) by (simp add: transfer_WSTETH_keeps [OF assms(1)])

lemma claimColl_backed:
  assumes "claimColl tok sender account s = Inr s'" and "moves_the_amount tok" and "wired s" and "backed tok s"
  shows "wired s' \<and> backed tok s'"
proof -
  let ?p = "collSurplusPool s"
  let ?n = "cs_balances ?p account"
  define s0 where "s0 = s\<lparr>collSurplusPool := ?p\<lparr>cs_balances := (cs_balances ?p)(account := 0), cs_WSTETH := cs_WSTETH ?p - ?n\<rparr>\<rparr>"
  have s: "?n \<le> cs_WSTETH ?p" "transfer_WSTETH tok (at_collSurplusPool s) account ?n s0 = Inr s'"
    using assms(1) unfolding s0_def by (auto simp: claimColl_def Let_def res_simps split: if_splits)
  have "recorded s0 a + (if a = at_collSurplusPool s then ?n else 0) = recorded s a" for a
    using s(1) wired_distinct [OF assms(3)] by (simp add: s0_def recorded_def)
  then have "\<And>a. recorded s0 a + (if a = at_collSurplusPool s then ?n else 0) \<le> tk_balanceOf tok (wsteth s0) a"
    using assms(4) by (simp add: backed_def s0_def)
  moreover have "wired s0" using assms(3) by (simp add: s0_def wired_def Let_def)
  ultimately show ?thesis using pay_out_backed [OF s(2) assms(2)] by blast
qed

lemma sendWSTETHGainToDepositor_backed:
  assumes "sendWSTETHGainToDepositor tok depositor n s = Inr s'" and "moves_the_amount tok" and "wired s" and "backed tok s"
  shows "wired s' \<and> backed tok s'"
proof (cases "n = 0")
  case True
  then show ?thesis using assms by (simp add: sendWSTETHGainToDepositor_def)
next
  case False
  define s0 where "s0 = s\<lparr>sp_WSTETH := sp_WSTETH s - n\<rparr>"
  have s: "n \<le> sp_WSTETH s" "transfer_WSTETH tok (at_stabilityPool s) depositor n s0 = Inr s'"
    using assms(1) False unfolding s0_def by (auto simp: sendWSTETHGainToDepositor_def res_simps)
  have "recorded s0 a + (if a = at_stabilityPool s then n else 0) = recorded s a" for a
    using s(1) wired_distinct [OF assms(3)] by (simp add: s0_def recorded_def)
  then have "\<And>a. recorded s0 a + (if a = at_stabilityPool s then n else 0) \<le> tk_balanceOf tok (wsteth s0) a"
    using assms(4) by (simp add: backed_def s0_def)
  moreover have "wired s0" using assms(3) by (simp add: s0_def wired_def Let_def)
  ultimately show ?thesis using pay_out_backed [OF s(2) assms(2)] by blast
qed

text \<open>Operations that only write debts or claims keep what the invariant reads.\<close>

definition same_records :: "'t pools \<Rightarrow> 't pools \<Rightarrow> bool" where
  "same_records s s' \<longleftrightarrow> recorded s' = recorded s \<and> wsteth s' = wsteth s \<and> wired s' = wired s"

lemma same_records_updates [simp]:
  "same_records s (s\<lparr>activePool := (activePool s)\<lparr>ap_SIMDebt := d\<rparr>\<rparr>)"
  "same_records s (s\<lparr>defaultPool := (defaultPool s)\<lparr>dp_SIMDebt := d\<rparr>\<rparr>)"
  "same_records s (s\<lparr>collSurplusPool := (collSurplusPool s)\<lparr>cs_balances := m\<rparr>\<rparr>)"
  by (simp_all add: same_records_def recorded_def wired_def Let_def fun_eq_iff)

lemma debts_same_records:
  "activePool_increaseSIMDebt sender n s = Inr s' \<Longrightarrow> same_records s s'"
  "activePool_decreaseSIMDebt sender n s = Inr s' \<Longrightarrow> same_records s s'"
  "defaultPool_increaseSIMDebt sender n s = Inr s' \<Longrightarrow> same_records s s'"
  "defaultPool_decreaseSIMDebt sender n s = Inr s' \<Longrightarrow> same_records s s'"
  "accountSurplus sender account n s = Inr s' \<Longrightarrow> same_records s s'"
  by (auto simp: activePool_increaseSIMDebt_def activePool_decreaseSIMDebt_def defaultPool_increaseSIMDebt_def
      defaultPool_decreaseSIMDebt_def accountSurplus_def callerIsBOorTroveM_def callerIsBOorTroveMorSP_def
      Let_def res_simps split: if_splits)

lemma same_records_backed:
  assumes "same_records s s'" and "wired s" and "backed tok s"
  shows "wired s' \<and> backed tok s'"
  using assms by (simp add: same_records_def backed_def)

text \<open>On a wired system the setters and the reports of outsiders revert.\<close>

lemma wired_refuses:
  assumes "wired s"
  shows "sender \<noteq> 0 \<Longrightarrow> activePool_setAddresses is_contract sender a b c d e f s \<noteq> Inr s'"
    and "sender \<noteq> 0 \<Longrightarrow> defaultPool_setAddresses is_contract sender a b c s \<noteq> Inr s'"
    and "sender \<noteq> 0 \<Longrightarrow> collSurplusPool_setAddresses is_contract sender a b c d s \<noteq> Inr s'"
    and "sender \<notin> reporters s \<Longrightarrow> activePool_receiveWSTETH sender n s \<noteq> Inr s'"
    and "sender \<notin> reporters s \<Longrightarrow> defaultPool_receiveWSTETH sender n s \<noteq> Inr s'"
    and "sender \<notin> reporters s \<Longrightarrow> collSurplusPool_receiveWSTETH sender n s \<noteq> Inr s'"
    and "sender \<notin> reporters s \<Longrightarrow> stabilityPool_receiveWSTETH sender n s \<noteq> Inr s'"
  using assms
  by (simp_all add: wired_def reporters_def only_owner_def activePool_setAddresses_def defaultPool_setAddresses_def
      collSurplusPool_setAddresses_def activePool_receiveWSTETH_def defaultPool_receiveWSTETH_def
      collSurplusPool_receiveWSTETH_def stabilityPool_receiveWSTETH_def Let_def)

lemma outside_backed:
  assumes "from \<notin> {at_activePool s, at_defaultPool s, at_collSurplusPool s, at_stabilityPool s}"
    and "transfer_WSTETH tok from to n s = Inr s'" and "moves_the_amount tok" and "wired s" and "backed tok s"
  shows "wired s' \<and> backed tok s'"
proof (rule pay_out_backed [OF assms(2-4)])
  fix a
  have "n \<le> tk_balanceOf tok (wsteth s) from"
    by (rule transfer_WSTETH_has [OF assms(2,3)])
  then show "recorded s a + (if a = from then n else 0) \<le> tk_balanceOf tok (wsteth s) a"
    using assms(1,5) by (cases "a = from") (auto simp: backed_def recorded_def)
qed

lemma pool_step_backed:
  assumes "pool_step tok s s'" and "moves_the_amount tok" and "wired s" and "backed tok s"
  shows "wired s' \<and> backed tok s'"
  using assms
proof (induction rule: pool_step.induct)
  case set_active
  then show ?case using wired_refuses(1) by blast
next
  case set_default
  then show ?case using wired_refuses(2) by blast
next
  case set_surplus
  then show ?case using wired_refuses(3) by blast
next
  case report_active
  then show ?case using wired_refuses(4) by blast
next
  case report_default
  then show ?case using wired_refuses(5) by blast
next
  case report_surplus
  then show ?case using wired_refuses(6) by blast
next
  case report_stability
  then show ?case using wired_refuses(7) by blast
next
  case pay_in
  then show ?case using activePoolAddColl_backed by blast
next
  case send
  then show ?case using sendWSTETH_backed by blast
next
  case send_back
  then show ?case using sendWSTETHToActivePool_backed by blast
next
  case surplus
  then show ?case using debts_same_records(5) same_records_backed by blast
next
  case claim
  then show ?case using claimColl_backed by blast
next
  case gain
  then show ?case using sendWSTETHGainToDepositor_backed by blast
next
  case debt_active
  then show ?case using debts_same_records(1,2) same_records_backed by blast
next
  case debt_default
  then show ?case using debts_same_records(3,4) same_records_backed by blast
next
  case outside
  then show ?case using outside_backed by blast
qed

lemma pool_steps_backed:
  assumes "(pool_step tok)\<^sup>*\<^sup>* s s'" and "moves_the_amount tok" and "wired s" and "backed tok s"
  shows "wired s' \<and> backed tok s'"
  using assms by (induction rule: rtranclp_induct) (use pool_step_backed in blast)+

text \<open>Five contracts and a trove manager, one hundred tokens at the borrower operations.\<close>

definition sample_pools :: "(address \<Rightarrow> uint) pools" where
  "sample_pools =
     \<lparr>at_activePool = 1, at_defaultPool = 2, at_collSurplusPool = 3, at_stabilityPool = 4,
      activePool = \<lparr>ap_owner = 0, ap_WSTETHAddress = 7, ap_borrowerOperationsAddress = 5, ap_troveManagerAddress = 6,
        ap_stabilityPoolAddress = 4, ap_defaultPoolAddress = 2, ap_collSurplusPoolAddress = 3, ap_WSTETH = 0, ap_SIMDebt = 0\<rparr>,
      defaultPool = \<lparr>dp_owner = 0, dp_WSTETHAddress = 7, dp_troveManagerAddress = 6, dp_activePoolAddress = 1,
        dp_WSTETH = 0, dp_SIMDebt = 0\<rparr>,
      collSurplusPool = \<lparr>cs_owner = 0, cs_WSTETHAddress = 7, cs_borrowerOperationsAddress = 5, cs_troveManagerAddress = 6,
        cs_activePoolAddress = 1, cs_WSTETH = 0, cs_balances = (\<lambda>_. 0)\<rparr>,
      sp_activePool = 1, sp_WSTETH = 0, wsteth = (\<lambda>a. if a = 5 then 100 else 0)\<rparr>"

lemma small_uints: "n \<le> 2 ^ 8 \<Longrightarrow> n \<le> uint_max"
  by (simp add: uint_max_def)

lemma sample_pools_run:
  "\<exists>s'. (pool_step plain_token)\<^sup>*\<^sup>* sample_pools s'
     \<and> ap_WSTETH (activePool s') = 20 \<and> dp_WSTETH (defaultPool s') = 40"
proof -
  define s1 where "s1 = sample_pools\<lparr>activePool := (activePool sample_pools)\<lparr>ap_WSTETH := 60\<rparr>,
    wsteth := (\<lambda>a. if a = 5 then 40 else if a = 1 then 60 else 0)\<rparr>"
  have "activePoolAddColl plain_token 60 sample_pools = Inr s1"
    by (simp add: activePoolAddColl_def activePool_receiveWSTETH_def transfer_WSTETH_def plain_token_def
        sample_pools_def s1_def checked_ok small_uints fun_eq_iff)
  then have "pool_step plain_token sample_pools s1" by (rule pay_in)
  moreover obtain t where t: "sendWSTETH plain_token 6 2 40 s1 =
      Inr (s1\<lparr>activePool := (activePool s1)\<lparr>ap_WSTETH := 20\<rparr>, defaultPool := (defaultPool s1)\<lparr>dp_WSTETH := 40\<rparr>, wsteth := t\<rparr>)"
    by (simp add: sendWSTETH_def callerIsBOorTroveMorSP_def defaultPool_receiveWSTETH_def
        transfer_WSTETH_def when_res_def plain_token_def sample_pools_def s1_def checked_ok small_uints)
  note send [OF t]
  ultimately show ?thesis by (intro exI [of _ "s1\<lparr>activePool := (activePool s1)\<lparr>ap_WSTETH := 20\<rparr>,
      defaultPool := (defaultPool s1)\<lparr>dp_WSTETH := 40\<rparr>, wsteth := t\<rparr>"]) auto
qed

lemma backed_each:
  assumes "wired s" and "backed tok s"
  shows "ap_WSTETH (activePool s) \<le> tk_balanceOf tok (wsteth s) (at_activePool s)"
    and "dp_WSTETH (defaultPool s) \<le> tk_balanceOf tok (wsteth s) (at_defaultPool s)"
    and "cs_WSTETH (collSurplusPool s) \<le> tk_balanceOf tok (wsteth s) (at_collSurplusPool s)"
    and "sp_WSTETH s \<le> tk_balanceOf tok (wsteth s) (at_stabilityPool s)"
proof -
  have b: "\<And>a. recorded s a \<le> tk_balanceOf tok (wsteth s) a" using assms(2) by (simp add: backed_def)
  note ne = wired_distinct [OF assms(1)] wired_distinct [OF assms(1), symmetric]
  show "ap_WSTETH (activePool s) \<le> tk_balanceOf tok (wsteth s) (at_activePool s)"
    using b [of "at_activePool s"] by (simp add: recorded_def)
  show "dp_WSTETH (defaultPool s) \<le> tk_balanceOf tok (wsteth s) (at_defaultPool s)"
    using b [of "at_defaultPool s"] ne by (simp add: recorded_def)
  show "cs_WSTETH (collSurplusPool s) \<le> tk_balanceOf tok (wsteth s) (at_collSurplusPool s)"
    using b [of "at_collSurplusPool s"] ne by (simp add: recorded_def)
  show "sp_WSTETH s \<le> tk_balanceOf tok (wsteth s) (at_stabilityPool s)"
    using b [of "at_stabilityPool s"] ne by (simp add: recorded_def)
qed

text \<open>
  C24. The pools hold what they record. However the system is used after it has been wired - collateral
  paid in by the borrower operations, sent by the active pool to a borrower, to a liquidator or to
  another pool, returned by the default pool, claimed as a surplus or paid as a gain, debts moved, the
  setters and the receive functions tried by anybody - no pool ever records more collateral than the
  token says it has, and the wiring stays as it is.
\<close>

theorem pools_hold_what_they_record:
  assumes "(pool_step tok)\<^sup>*\<^sup>* s s'" and "moves_the_amount tok" and "wired s" and "backed tok s"
  shows "wired s'
     \<and> ap_WSTETH (activePool s') \<le> tk_balanceOf tok (wsteth s') (at_activePool s')
     \<and> dp_WSTETH (defaultPool s') \<le> tk_balanceOf tok (wsteth s') (at_defaultPool s')
     \<and> cs_WSTETH (collSurplusPool s') \<le> tk_balanceOf tok (wsteth s') (at_collSurplusPool s')
     \<and> sp_WSTETH s' \<le> tk_balanceOf tok (wsteth s') (at_stabilityPool s')"
  using pool_steps_backed [OF assms] backed_each by blast

theorem pools_hold_what_they_record_witness:
  "\<exists>s'. (pool_step plain_token)\<^sup>*\<^sup>* sample_pools s' \<and> wired s' \<and> dp_WSTETH (defaultPool s') = 40
     \<and> 40 \<le> wsteth s' (at_defaultPool s') \<and> 20 \<le> wsteth s' (at_activePool s')"
proof -
  obtain s' where s': "(pool_step plain_token)\<^sup>*\<^sup>* sample_pools s'" "ap_WSTETH (activePool s') = 20" "dp_WSTETH (defaultPool s') = 40"
    using sample_pools_run by blast
  have "wired sample_pools" "backed plain_token sample_pools"
    by (simp_all add: sample_pools_def wired_def backed_def recorded_def)
  from pools_hold_what_they_record [OF s'(1) plain_token_moves this] s' show ?thesis
    by (intro exI [of _ s']) (simp add: plain_token_def)
qed

end
