(* ===== verification/Stability_Pool.thy ===== *)
theory Stability_Pool
  imports Liquity_Math
begin

text \<open>
  The accounting of the stability pool (\<open>contracts/StabilityPool.sol\<close>): deposits with their snapshots, the
  running product \<open>P\<close> with its scales and epochs, the sums of the gains, and the corrections of the rounding
  errors. The transfers of tokens that go with it are in \<open>Stability_Operations\<close>. The theorems bound by how
  much the deposits can exceed what the pool records, and show that they can exceed it. Events are not modelled.
\<close>

section \<open>State\<close>

record deposit =
  de_initialValue :: uint
  de_frontEndTag :: address

record snapshots =
  sn_S :: uint
  sn_P :: uint
  sn_G :: uint
  sn_scale :: uint
  sn_epoch :: uint

record stability_pool =
  sp_self :: address
  sp_owner :: address
  sp_WSTETHAddress :: address
  sp_borrowerOperations :: address
  sp_troveManager :: address
  sp_activePoolAddress :: address
  sp_simToken :: address
  sp_sortedTroves :: address
  sp_priceFeed :: address
  sp_communityIssuance :: address
  totalSIMDeposits :: uint
  deposits :: "address \<Rightarrow> deposit"
  depositSnapshots :: "address \<Rightarrow> snapshots"
  sp_P :: uint
  currentScale :: uint
  currentEpoch :: uint
  epochToScaleToSum :: "uint \<Rightarrow> uint \<Rightarrow> uint"
  epochToScaleToG :: "uint \<Rightarrow> uint \<Rightarrow> uint"
  lastSHADYError :: uint
  lastWSTETHError_Offset :: uint
  lastSIMLossError_Offset :: uint

definition SCALE_FACTOR :: uint where "SCALE_FACTOR = 10 ^ 9"

definition no_snapshots :: snapshots where
  "no_snapshots = \<lparr>sn_S = 0, sn_P = 0, sn_G = 0, sn_scale = 0, sn_epoch = 0\<rparr>"

text \<open>The checked increment of a \<open>uint128\<close>.\<close>

definition u128_incr :: "uint \<Rightarrow> revert + uint" where
  "u128_incr n = (if n + 1 < 2 ^ 128 then Inr (n + 1) else Inl Panic)"

text \<open>The contract after its constructor.\<close>

definition new_stability_pool :: "address \<Rightarrow> address \<Rightarrow> stability_pool" where
  "new_stability_pool self sender =
     \<lparr>sp_self = self, sp_owner = sender, sp_WSTETHAddress = 0, sp_borrowerOperations = 0, sp_troveManager = 0, sp_activePoolAddress = 0,
      sp_simToken = 0, sp_sortedTroves = 0, sp_priceFeed = 0, sp_communityIssuance = 0, totalSIMDeposits = 0,
      deposits = (\<lambda>_. \<lparr>de_initialValue = 0, de_frontEndTag = 0\<rparr>), depositSnapshots = (\<lambda>_. no_snapshots), sp_P = DECIMAL_PRECISION,
      currentScale = 0, currentEpoch = 0, epochToScaleToSum = (\<lambda>_ _. 0), epochToScaleToG = (\<lambda>_ _. 0), lastSHADYError = 0,
      lastWSTETHError_Offset = 0, lastSIMLossError_Offset = 0\<rparr>"

section \<open>Issuance of SHADY\<close>

definition computeSHADYPerUnitStaked :: "uint \<Rightarrow> uint \<Rightarrow> stability_pool \<Rightarrow> revert + uint \<times> stability_pool" where
  "computeSHADYPerUnitStaked SHADYIssuance totalDeposits s =
     bind_res (bind_res (u_mul SHADYIssuance DECIMAL_PRECISION) (\<lambda>x. u_add x (lastSHADYError s))) (\<lambda>SHADYNumerator.
     bind_res (u_div SHADYNumerator totalDeposits) (\<lambda>SHADYPerUnitStaked.
     bind_res (bind_res (u_mul SHADYPerUnitStaked totalDeposits) (u_sub SHADYNumerator)) (\<lambda>err.
     Inr (SHADYPerUnitStaked, s\<lparr>lastSHADYError := err\<rparr>))))"

definition updateG :: "uint \<Rightarrow> stability_pool \<Rightarrow> revert + stability_pool" where
  "updateG SHADYIssuance s =
     (if totalSIMDeposits s = 0 \<or> SHADYIssuance = 0 then Inr s
      else bind_res (computeSHADYPerUnitStaked SHADYIssuance (totalSIMDeposits s) s) (\<lambda>(SHADYPerUnitStaked, s1).
        bind_res (u_mul SHADYPerUnitStaked (sp_P s1)) (\<lambda>marginalSHADYGain.
        let G = epochToScaleToG s1; e = currentEpoch s1; c = currentScale s1 in
        bind_res (u_add (G e c) marginalSHADYGain) (\<lambda>g.
        Inr (s1\<lparr>epochToScaleToG := G(e := (G e)(c := g))\<rparr>)))))"

section \<open>Offsetting debt\<close>

text \<open>The loss of SIM per unit staked and the error of its rounding.\<close>

definition SIM_loss :: "uint \<Rightarrow> uint \<Rightarrow> uint \<Rightarrow> revert + uint \<times> uint" where
  "SIM_loss debtToOffset totalDeposits lastError =
     (if debtToOffset = totalDeposits then Inr (DECIMAL_PRECISION, 0)
      else
        bind_res (bind_res (u_mul debtToOffset DECIMAL_PRECISION) (\<lambda>x. u_sub x lastError)) (\<lambda>SIMLossNumerator.
        bind_res (bind_res (u_div SIMLossNumerator totalDeposits) (\<lambda>x. u_add x 1)) (\<lambda>SIMLossPerUnitStaked.
        bind_res (bind_res (u_mul SIMLossPerUnitStaked totalDeposits) (\<lambda>x. u_sub x SIMLossNumerator)) (\<lambda>err.
        Inr (SIMLossPerUnitStaked, err)))))"

definition computeRewardsPerUnitStaked :: "uint \<Rightarrow> uint \<Rightarrow> uint \<Rightarrow> stability_pool \<Rightarrow> revert + (uint \<times> uint) \<times> stability_pool" where
  "computeRewardsPerUnitStaked collToAdd debtToOffset totalDeposits s =
     bind_res (bind_res (u_mul collToAdd DECIMAL_PRECISION) (\<lambda>x. u_add x (lastWSTETHError_Offset s))) (\<lambda>WSTETHNumerator.
     if \<not> debtToOffset \<le> totalDeposits then Inl Panic
     else
       bind_res (SIM_loss debtToOffset totalDeposits (lastSIMLossError_Offset s)) (\<lambda>(SIMLossPerUnitStaked, lossError).
       bind_res (u_div WSTETHNumerator totalDeposits) (\<lambda>WSTETHGainPerUnitStaked.
       bind_res (bind_res (u_mul WSTETHGainPerUnitStaked totalDeposits) (u_sub WSTETHNumerator)) (\<lambda>gainError.
       Inr ((WSTETHGainPerUnitStaked, SIMLossPerUnitStaked),
            s\<lparr>lastSIMLossError_Offset := lossError, lastWSTETHError_Offset := gainError\<rparr>)))))"

text \<open>The new product: of a new epoch, of a new scale, or of the present scale.\<close>

definition advance_product :: "uint \<Rightarrow> stability_pool \<Rightarrow> revert + uint \<times> stability_pool" where
  "advance_product newProductFactor s =
     (if newProductFactor = 0 then
        bind_res (u128_incr (currentEpoch s)) (\<lambda>e. Inr (DECIMAL_PRECISION, s\<lparr>currentEpoch := e, currentScale := 0\<rparr>))
      else
        bind_res (u_mul (sp_P s) newProductFactor) (\<lambda>product.
        if product div DECIMAL_PRECISION < SCALE_FACTOR then
          bind_res (u_mul product SCALE_FACTOR) (\<lambda>scaled.
          bind_res (u128_incr (currentScale s)) (\<lambda>c. Inr (scaled div DECIMAL_PRECISION, s\<lparr>currentScale := c\<rparr>)))
        else Inr (product div DECIMAL_PRECISION, s)))"

definition updateRewardSumAndProduct :: "uint \<Rightarrow> uint \<Rightarrow> stability_pool \<Rightarrow> revert + stability_pool" where
  "updateRewardSumAndProduct WSTETHGainPerUnitStaked SIMLossPerUnitStaked s =
     (if \<not> SIMLossPerUnitStaked \<le> DECIMAL_PRECISION then Inl Panic
      else
        let newProductFactor = DECIMAL_PRECISION - SIMLossPerUnitStaked; S = epochToScaleToSum s; e = currentEpoch s; c = currentScale s in
        bind_res (u_mul WSTETHGainPerUnitStaked (sp_P s)) (\<lambda>marginalWSTETHGain.
        bind_res (u_add (S e c) marginalWSTETHGain) (\<lambda>newS.
        bind_res (advance_product newProductFactor (s\<lparr>epochToScaleToSum := S(e := (S e)(c := newS))\<rparr>)) (\<lambda>(newP, s1).
        if \<not> 0 < newP then Inl Panic else Inr (s1\<lparr>sp_P := newP\<rparr>)))))"

definition decreaseSIM :: "uint \<Rightarrow> stability_pool \<Rightarrow> revert + stability_pool" where
  "decreaseSIM amount s = bind_res (u_sub (totalSIMDeposits s) amount) (\<lambda>n. Inr (s\<lparr>totalSIMDeposits := n\<rparr>))"

section \<open>What a depositor has\<close>

definition portions :: "(uint \<Rightarrow> uint \<Rightarrow> uint) \<Rightarrow> uint \<Rightarrow> uint \<Rightarrow> snapshots \<Rightarrow> revert + uint" where
  "portions running snapshot initialDeposit sn =
     bind_res (u_sub (running (sn_epoch sn) (sn_scale sn)) snapshot) (\<lambda>firstPortion.
     bind_res (u128_incr (sn_scale sn)) (\<lambda>nextScale.
     let secondPortion = running (sn_epoch sn) nextScale div SCALE_FACTOR in
     bind_res (u_add firstPortion secondPortion) (\<lambda>portion.
     bind_res (u_mul initialDeposit portion) (\<lambda>x.
     bind_res (u_div x (sn_P sn)) (\<lambda>y. u_div y DECIMAL_PRECISION)))))"

definition getWSTETHGainFromSnapshots :: "stability_pool \<Rightarrow> uint \<Rightarrow> snapshots \<Rightarrow> revert + uint" where
  "getWSTETHGainFromSnapshots s initialDeposit sn = portions (epochToScaleToSum s) (sn_S sn) initialDeposit sn"

definition getDepositorWSTETHGain :: "stability_pool \<Rightarrow> address \<Rightarrow> revert + uint" where
  "getDepositorWSTETHGain s depositor =
     (let initialDeposit = de_initialValue (deposits s depositor) in
      if initialDeposit = 0 then Inr 0 else getWSTETHGainFromSnapshots s initialDeposit (depositSnapshots s depositor))"

definition getSHADYGainFromSnapshots :: "stability_pool \<Rightarrow> uint \<Rightarrow> snapshots \<Rightarrow> revert + uint" where
  "getSHADYGainFromSnapshots s initialStake sn = portions (epochToScaleToG s) (sn_G sn) initialStake sn"

definition getDepositorSHADYGain :: "stability_pool \<Rightarrow> address \<Rightarrow> revert + uint" where
  "getDepositorSHADYGain s depositor =
     (let initialDeposit = de_initialValue (deposits s depositor) in
      if initialDeposit = 0 then Inr 0
      else bind_res (getSHADYGainFromSnapshots s initialDeposit (depositSnapshots s depositor)) (\<lambda>gain.
        bind_res (u_mul DECIMAL_PRECISION gain) (\<lambda>x. u_div x DECIMAL_PRECISION)))"

definition getCompoundedStakeFromSnapshots :: "stability_pool \<Rightarrow> uint \<Rightarrow> snapshots \<Rightarrow> revert + uint" where
  "getCompoundedStakeFromSnapshots s initialStake sn =
     (if sn_epoch sn < currentEpoch s then Inr 0
      else
        bind_res (u_sub (currentScale s) (sn_scale sn)) (\<lambda>scaleDiff.
        bind_res (if scaleDiff = 0 then bind_res (u_mul initialStake (sp_P s)) (\<lambda>x. u_div x (sn_P sn))
          else if scaleDiff = 1 then
            bind_res (u_mul initialStake (sp_P s)) (\<lambda>x. bind_res (u_div x (sn_P sn)) (\<lambda>y. u_div y SCALE_FACTOR))
          else Inr 0) (\<lambda>compoundedStake.
        Inr (if compoundedStake < initialStake div 10 ^ 9 then 0 else compoundedStake))))"

definition getCompoundedSIMDeposit :: "stability_pool \<Rightarrow> address \<Rightarrow> revert + uint" where
  "getCompoundedSIMDeposit s depositor =
     (let initialDeposit = de_initialValue (deposits s depositor) in
      if initialDeposit = 0 then Inr 0 else getCompoundedStakeFromSnapshots s initialDeposit (depositSnapshots s depositor))"

definition updateDepositAndSnapshots :: "address \<Rightarrow> uint \<Rightarrow> stability_pool \<Rightarrow> stability_pool" where
  "updateDepositAndSnapshots depositor newValue s =
     (let s1 = s\<lparr>deposits := (deposits s)(depositor := (deposits s depositor)\<lparr>de_initialValue := newValue\<rparr>)\<rparr>;
          e = currentEpoch s; c = currentScale s
      in s1\<lparr>depositSnapshots := (depositSnapshots s)(depositor :=
           if newValue = 0 then no_snapshots
           else \<lparr>sn_S = epochToScaleToSum s e c, sn_P = sp_P s, sn_G = epochToScaleToG s e c, sn_scale = c, sn_epoch = e\<rparr>)\<rparr>)"

section \<open>The deposits and the record of the pool\<close>

text \<open>
  The exact value of a deposit, before the roundings of the view: the initial deposit times the quotient of
  the products, one factor of \<open>SCALE_FACTOR\<close> for every scale in between.
\<close>

definition share :: "stability_pool \<Rightarrow> address \<Rightarrow> real" where
  "share s a =
     (if de_initialValue (deposits s a) = 0 \<or> sn_epoch (depositSnapshots s a) < currentEpoch s then 0
      else real (de_initialValue (deposits s a)) * real (sp_P s)
        / (real (sn_P (depositSnapshots s a)) * real SCALE_FACTOR ^ (currentScale s - sn_scale (depositSnapshots s a))))"

definition depositors :: "stability_pool \<Rightarrow> address set" where
  "depositors s = {a. de_initialValue (deposits s a) \<noteq> 0}"

definition taken_before :: "stability_pool \<Rightarrow> snapshots \<Rightarrow> bool" where
  "taken_before s sn \<longleftrightarrow>
     0 < sn_P sn \<and> sn_epoch sn \<le> currentEpoch s \<and> (sn_epoch sn = currentEpoch s \<longrightarrow> sn_scale sn \<le> currentScale s)"

definition sp_wf :: "stability_pool \<Rightarrow> bool" where
  "sp_wf s \<longleftrightarrow> 0 < sp_P s \<and> finite (depositors s) \<and> (\<forall>a \<in> depositors s. taken_before s (depositSnapshots s a))"

text \<open>
  The deposits together exceed the record of the pool by at most the \<open>10 ^ 18\<close>th part of \<open>M\<close>, and by less
  as long as a rounding error waits for its correction.
\<close>

definition covered :: "uint \<Rightarrow> stability_pool \<Rightarrow> bool" where
  "covered M s \<longleftrightarrow>
     sp_wf s \<and> lastSIMLossError_Offset s \<le> M
     \<and> (\<Sum>a\<in>depositors s. share s a) * DP + real (lastSIMLossError_Offset s) \<le> real (totalSIMDeposits s) * DP + real M"

lemma SCALE_FACTOR_pos [simp]: "0 < SCALE_FACTOR" "(SCALE_FACTOR = 0) = False"
  by (simp_all add: SCALE_FACTOR_def)

lemma DECIMAL_PRECISION_pos [simp]: "0 < DECIMAL_PRECISION"
  by (simp add: DECIMAL_PRECISION_def)

lemma share_nonneg: "0 \<le> share s a"
  by (simp add: share_def)

lemma compounded_le_share:
  assumes "sp_wf s" and "getCompoundedSIMDeposit s a = Inr c"
  shows "real c \<le> share s a"
proof (cases "de_initialValue (deposits s a) = 0 \<or> sn_epoch (depositSnapshots s a) < currentEpoch s \<or> c = 0")
  case True
  then have "c = 0" using assms(2) by (auto simp: getCompoundedSIMDeposit_def getCompoundedStakeFromSnapshots_def Let_def split: if_splits)
  then show ?thesis by (simp add: share_nonneg)
next
  case False
  define d p where "d = de_initialValue (deposits s a)" and "p = sn_P (depositSnapshots s a)"
  have late: "currentScale s - sn_scale (depositSnapshots s a) = 0 \<and> c \<le> d * sp_P s div p
      \<or> currentScale s - sn_scale (depositSnapshots s a) = 1 \<and> c \<le> d * sp_P s div p div SCALE_FACTOR"
    using assms(2) False
    by (auto simp: getCompoundedSIMDeposit_def getCompoundedStakeFromSnapshots_def d_def p_def Let_def res_simps split: if_splits)
  have "real (d * sp_P s div p) \<le> real (d * sp_P s) / real p" by (rule of_nat_div_le_of_nat)
  moreover have "real (d * sp_P s div p div SCALE_FACTOR) \<le> real (d * sp_P s) / (real p * real SCALE_FACTOR)"
    unfolding div_mult2_eq [symmetric] of_nat_mult [of p, symmetric] by (rule of_nat_div_le_of_nat)
  ultimately show ?thesis using late False by (auto simp: share_def d_def p_def)
qed

lemma updateG_keeps:
  assumes "updateG n s = Inr s'"
  obtains e G where "s' = s\<lparr>lastSHADYError := e, epochToScaleToG := G\<rparr>"
proof (cases "totalSIMDeposits s = 0 \<or> n = 0")
  case True
  then show ?thesis using assms that [of "epochToScaleToG s" "lastSHADYError s"] by (simp add: updateG_def)
next
  case False
  then show ?thesis using assms that by (auto simp: updateG_def computeSHADYPerUnitStaked_def Let_def bind_res_eq_Inr split: prod.splits)
qed

lemma SIM_loss_result:
  assumes "SIM_loss d t err0 = Inr (l, err)" and "d \<noteq> t"
  shows "err \<le> t" and "l * t + err0 = d * DECIMAL_PRECISION + err"
proof -
  define num where "num = d * DECIMAL_PRECISION - err0"
  have r: "err0 \<le> d * DECIMAL_PRECISION" "l = Suc (num div t)" "num \<le> t + num div t * t" "err = t + num div t * t - num"
    using assms unfolding num_def by (auto simp: SIM_loss_def bind_res_eq_Inr checked_Inr)
  have "num div t * t + num mod t = num" by simp
  then show "err \<le> t" using r(4) by linarith
  have "l * t = t + num div t * t" by (simp add: r(2))
  then show "l * t + err0 = d * DECIMAL_PRECISION + err" using r(1,3,4) num_def by linarith
qed

lemma computeRewards_result:
  assumes "computeRewardsPerUnitStaked n d t s = Inr ((g, l), s')"
  obtains err e where "s' = s\<lparr>lastSIMLossError_Offset := err, lastWSTETHError_Offset := e\<rparr>" and "d \<le> t"
    and "SIM_loss d t (lastSIMLossError_Offset s) = Inr (l, err)"
  using assms that by (auto simp: computeRewardsPerUnitStaked_def bind_res_eq_Inr split: if_splits prod.splits)

text \<open>The product: a loss of \<open>l\<close> per unit takes at least that part of every deposit.\<close>

lemma advance_product_result:
  assumes "advance_product f s = Inr (p, s')" and "0 < p"
  obtains (epoch) "f = 0" and "s' = s\<lparr>currentEpoch := currentEpoch s + 1, currentScale := 0\<rparr>"
  | (scale) "s' = s\<lparr>currentScale := currentScale s + 1\<rparr>" and "real p * DP \<le> real (sp_P s) * real f * real SCALE_FACTOR"
  | (same) "s' = s" and "real p * DP \<le> real (sp_P s) * real f"
proof (cases "f = 0")
  case True
  then show ?thesis using assms epoch by (auto simp: advance_product_def u128_incr_def bind_res_eq_Inr split: if_splits)
next
  case False
  have floor: "real (x div DECIMAL_PRECISION) * DP \<le> real x" for x
    using of_nat_div_le_of_nat [of x DECIMAL_PRECISION, where 'a = real] by (simp add: DECIMAL_PRECISION_def field_simps)
  show ?thesis
  proof (cases "sp_P s * f div DECIMAL_PRECISION < SCALE_FACTOR")
    case True
    then have "s' = s\<lparr>currentScale := currentScale s + 1\<rparr>" "p = sp_P s * f * SCALE_FACTOR div DECIMAL_PRECISION"
      using assms False by (auto simp: advance_product_def u128_incr_def bind_res_eq_Inr checked_Inr split: if_splits)
    then show ?thesis using scale floor [of "sp_P s * f * SCALE_FACTOR"] by simp
  next
    case past: False
    then have "s' = s" "p = sp_P s * f div DECIMAL_PRECISION"
      using assms False by (auto simp: advance_product_def bind_res_eq_Inr checked_Inr split: if_splits)
    then show ?thesis using same floor [of "sp_P s * f"] by simp
  qed
qed

lemma share_falls:
  assumes "taken_before s sn" and "0 < x" and "real p * DP \<le> real q * f * real SCALE_FACTOR ^ k" and "sn_scale sn \<le> c"
  shows "x * real p / (real (sn_P sn) * real SCALE_FACTOR ^ (c + k - sn_scale sn)) * DP
    \<le> x * real q / (real (sn_P sn) * real SCALE_FACTOR ^ (c - sn_scale sn)) * f"
proof -
  let ?S = "real SCALE_FACTOR"
  have pos: "0 < real (sn_P sn)" "0 < ?S" using assms(1) by (auto simp: taken_before_def)
  have split: "?S ^ (c + k - sn_scale sn) = ?S ^ (c - sn_scale sn) * ?S ^ k"
    using assms(4) by (simp add: power_add [symmetric])
  have "x * (real p * DP) \<le> x * (real q * f * ?S ^ k)" using assms(2,3) by (intro mult_left_mono) auto
  then show ?thesis unfolding split using pos by (simp add: field_simps)
qed

lemma updateRewardSumAndProduct_result:
  assumes "updateRewardSumAndProduct g l s = Inr s'" and "sp_wf s"
  shows "sp_wf s'" and "share s' a * DP \<le> share s a * (DP - real l)" and "real l \<le> DP"
    and "deposits s' = deposits s" and "totalSIMDeposits s' = totalSIMDeposits s"
    and "lastSIMLossError_Offset s' = lastSIMLossError_Offset s"
proof -
  define f where "f = DECIMAL_PRECISION - l"
  obtain S p s1 where r: "l \<le> DECIMAL_PRECISION" "advance_product f (s\<lparr>epochToScaleToSum := S\<rparr>) = Inr (p, s1)" "0 < p" "s' = s1\<lparr>sp_P := p\<rparr>"
    using assms(1) unfolding f_def
    by (auto simp: updateRewardSumAndProduct_def Let_def bind_res_eq_Inr split: if_splits prod.splits)
  have l: "real l \<le> DP" and f: "real f = DP - real l"
    using r(1) DECIMAL_PRECISION_real by (simp_all add: f_def of_nat_diff DECIMAL_PRECISION_def)
  have old: "taken_before s (depositSnapshots s b)" if "de_initialValue (deposits s b) \<noteq> 0" for b
    using assms(2) that by (auto simp: sp_wf_def depositors_def)
  let ?sn = "depositSnapshots s a" and ?x = "real (de_initialValue (deposits s a))"
  from r(2,3) have "sp_wf s' \<and> share s' a * DP \<le> share s a * real f \<and> deposits s' = deposits s \<and> totalSIMDeposits s' = totalSIMDeposits s
      \<and> lastSIMLossError_Offset s' = lastSIMLossError_Offset s"
  proof (cases rule: advance_product_result)
    case epoch
    have "share s' a = 0" if "de_initialValue (deposits s a) \<noteq> 0"
      using old [OF that] by (simp add: share_def r(4) epoch(2) taken_before_def)
    then have "share s' a = 0" by (cases "de_initialValue (deposits s a) = 0") (simp_all add: share_def r(4) epoch(2))
    moreover have "taken_before s' (depositSnapshots s b)" if "de_initialValue (deposits s b) \<noteq> 0" for b
      using old [OF that] by (simp add: taken_before_def r(4) epoch(2))
    ultimately show ?thesis using assms(2) r(3) by (simp add: sp_wf_def depositors_def r(4) epoch(2) epoch(1))
  next
    case scale
    have "share s' a * DP \<le> share s a * real f"
    proof (cases "de_initialValue (deposits s a) = 0 \<or> sn_epoch ?sn < currentEpoch s")
      case False
      then show ?thesis
        using share_falls [OF old, of a ?x p "sp_P s" "real f" 1 "currentScale s"] scale(2) old [of a]
        by (simp add: share_def r(4) scale(1) taken_before_def)
    qed (auto simp: share_def r(4) scale(1))
    moreover have "taken_before s' (depositSnapshots s b)" if "de_initialValue (deposits s b) \<noteq> 0" for b
      using old [OF that] by (auto simp: taken_before_def r(4) scale(1))
    ultimately show ?thesis using assms(2) r(3) by (simp add: sp_wf_def depositors_def r(4) scale(1))
  next
    case same
    have "share s' a * DP \<le> share s a * real f"
    proof (cases "de_initialValue (deposits s a) = 0 \<or> sn_epoch ?sn < currentEpoch s")
      case False
      then show ?thesis
        using share_falls [OF old, of a ?x p "sp_P s" "real f" 0 "currentScale s"] same(2) old [of a]
        by (simp add: share_def r(4) same(1) taken_before_def)
    qed (auto simp: share_def r(4) same(1))
    moreover have "taken_before s' (depositSnapshots s b)" if "de_initialValue (deposits s b) \<noteq> 0" for b
      using old [OF that] by (simp add: taken_before_def r(4) same(1))
    ultimately show ?thesis using assms(2) r(3) by (simp add: sp_wf_def depositors_def r(4) same(1))
  qed
  then show "sp_wf s'" and "share s' a * DP \<le> share s a * (DP - real l)" and "real l \<le> DP"
    and "deposits s' = deposits s" and "totalSIMDeposits s' = totalSIMDeposits s"
    and "lastSIMLossError_Offset s' = lastSIMLossError_Offset s"
    using l f by simp_all
qed

text \<open>The record of the pool after an offset, and after a deposit or a withdrawal.\<close>

lemma covered_offset:
  assumes "computeRewardsPerUnitStaked n d (totalSIMDeposits s) s = Inr ((g, l), s1)" and "updateRewardSumAndProduct g l s1 = Inr s2"
    and "decreaseSIM d s2 = Inr s3" and "covered M s" and "totalSIMDeposits s \<le> M"
  shows "covered M s3"
proof -
  let ?T = "totalSIMDeposits s" and ?err = "lastSIMLossError_Offset s"
  obtain err e where s1: "s1 = s\<lparr>lastSIMLossError_Offset := err, lastWSTETHError_Offset := e\<rparr>" and d: "d \<le> ?T"
      and l: "SIM_loss d ?T ?err = Inr (l, err)"
    using assms(1) by (rule computeRewards_result)
  have wf1: "sp_wf s1" using assms(4) by (simp add: covered_def sp_wf_def depositors_def taken_before_def s1)
  note s2 = updateRewardSumAndProduct_result [OF assms(2) wf1]
  have s3: "s3 = s2\<lparr>totalSIMDeposits := ?T - d\<rparr>"
    using assms(3) s2(5) by (simp add: decreaseSIM_def bind_res_eq_Inr checked_Inr s1)
  have same: "share s1 a = share s a" "share s3 a = share s2 a" "depositors s3 = depositors s" for a
    using s2(4) by (simp_all add: share_def depositors_def s1 s3)
  define C C' where "C = (\<Sum>a\<in>depositors s. share s a)" and "C' = (\<Sum>a\<in>depositors s. share s3 a)"
  have "C' * DP = (\<Sum>a\<in>depositors s. share s2 a * DP)" unfolding C'_def same by (simp add: sum_distrib_right)
  also have "\<dots> \<le> (\<Sum>a\<in>depositors s. share s a * (DP - real l))" using s2(2) same(1) by (intro sum_mono) simp
  finally have fall: "C' * DP \<le> C * (DP - real l)" unfolding C_def by (simp add: sum_distrib_right)
  have before: "C * DP + real ?err \<le> real ?T * DP + real M" and err: "real ?err \<le> real M"
    using assms(4) by (simp_all add: covered_def C_def)
  have "err \<le> M \<and> C' * DP + real err \<le> real (?T - d) * DP + real M"
  proof (cases "d = ?T")
    case True
    then have "real l = DP" "err = 0" using l by (simp_all add: SIM_loss_def DECIMAL_PRECISION_def)
    then show ?thesis using fall True by simp
  next
    case False
    have "real (l * ?T + ?err) = real (d * DECIMAL_PRECISION + err)" using SIM_loss_result(2) [OF l False] by (rule arg_cong)
    then have eq: "real l * real ?T + real ?err = real d * DP + real err" by (simp add: DECIMAL_PRECISION_def)
    have "(C * DP) * (DP - real l) \<le> (real ?T * DP + real M - real ?err) * (DP - real l)"
      using before s2(3) by (intro mult_right_mono) simp_all
    also have "\<dots> = (real ?T * (DP - real l) + (real M - real ?err)) * DP - (real M - real ?err) * real l" by (simp add: algebra_simps)
    also have "\<dots> \<le> (real ?T * (DP - real l) + (real M - real ?err)) * DP" using err by simp
    finally have "C * (DP - real l) \<le> real ?T * (DP - real l) + (real M - real ?err)" by (simp add: algebra_simps)
    then show ?thesis using fall eq SIM_loss_result(1) [OF l False] assms(5) d by (simp add: of_nat_diff algebra_simps)
  qed
  moreover have "sp_wf s3" using s2(1) by (simp add: sp_wf_def depositors_def taken_before_def s3)
  moreover have "lastSIMLossError_Offset s3 = err" "totalSIMDeposits s3 = ?T - d" using s2(6) by (simp_all add: s3 s1)
  ultimately show ?thesis unfolding covered_def same(3) C'_def by simp
qed

lemma covered_updateG:
  assumes "updateG n s = Inr s'" and "covered M s"
  shows "covered M s'" and "totalSIMDeposits s' = totalSIMDeposits s" and "getCompoundedSIMDeposit s' = getCompoundedSIMDeposit s"
    and "de_initialValue (deposits s' a) = de_initialValue (deposits s a)"
proof -
  obtain e G where s': "s' = s\<lparr>lastSHADYError := e, epochToScaleToG := G\<rparr>" using assms(1) by (rule updateG_keeps)
  have "share s' = share s" by (simp add: s' share_def fun_eq_iff)
  then show "covered M s'" using assms(2) by (simp add: covered_def sp_wf_def depositors_def taken_before_def s')
  show "totalSIMDeposits s' = totalSIMDeposits s" and "getCompoundedSIMDeposit s' = getCompoundedSIMDeposit s"
    and "de_initialValue (deposits s' a) = de_initialValue (deposits s a)"
    by (simp_all add: s' getCompoundedSIMDeposit_def getCompoundedStakeFromSnapshots_def Let_def fun_eq_iff cong: if_cong)
qed

lemma covered_deposit:
  assumes "getCompoundedSIMDeposit s a = Inr c" and "covered M s" and "v + totalSIMDeposits s \<le> c + t"
  shows "covered M (updateDepositAndSnapshots a v (s\<lparr>totalSIMDeposits := t\<rparr>))"
proof -
  let ?s = "updateDepositAndSnapshots a v (s\<lparr>totalSIMDeposits := t\<rparr>)"
  have wf: "sp_wf s" and pos: "0 < sp_P s" using assms(2) by (auto simp: covered_def sp_wf_def)
  have share: "share ?s b = (if b = a then real v else share s b)" for b
    using pos by (auto simp: share_def updateDepositAndSnapshots_def Let_def)
  have deps: "depositors ?s = (if v = 0 then depositors s - {a} else insert a (depositors s))"
    by (auto simp: depositors_def updateDepositAndSnapshots_def Let_def)
  have fin: "finite (depositors s)" using wf by (simp add: sp_wf_def)
  have outside: "share s a = 0" if "a \<notin> depositors s" using that by (simp add: share_def depositors_def)
  have "(\<Sum>b\<in>depositors ?s. share ?s b) = (\<Sum>b\<in>depositors s - {a}. share s b) + real v"
    using fin by (auto simp: deps share insert_absorb sum.insert_remove intro!: sum.cong)
  moreover have "(\<Sum>b\<in>depositors s - {a}. share s b) + share s a = (\<Sum>b\<in>depositors s. share s b)"
    using fin outside by (cases "a \<in> depositors s") (simp_all add: sum.remove [of "depositors s" a])
  ultimately have sum: "(\<Sum>b\<in>depositors ?s. share ?s b) \<le> (\<Sum>b\<in>depositors s. share s b) - real c + real v"
    using compounded_le_share [OF wf assms(1)] by linarith
  have "real v + real (totalSIMDeposits s) \<le> real c + real t" using assms(3) by linarith
  then have "(\<Sum>b\<in>depositors ?s. share ?s b) * DP + real (lastSIMLossError_Offset s) \<le> real t * DP + real M"
    using sum assms(2) unfolding covered_def by (simp add: algebra_simps)
  moreover have "sp_wf ?s"
    using wf pos fin unfolding sp_wf_def deps
    by (auto simp: updateDepositAndSnapshots_def Let_def taken_before_def depositors_def)
  moreover have "lastSIMLossError_Offset ?s = lastSIMLossError_Offset s" "totalSIMDeposits ?s = t"
    by (simp_all add: updateDepositAndSnapshots_def Let_def)
  ultimately show ?thesis using assms(2) by (simp add: covered_def)
qed

section \<open>A deposit that the pool does not cover\<close>

definition offset_accounting :: "uint \<Rightarrow> uint \<Rightarrow> stability_pool \<Rightarrow> revert + stability_pool" where
  "offset_accounting coll debt s =
     bind_res (computeRewardsPerUnitStaked coll debt (totalSIMDeposits s) s) (\<lambda>((gain, loss), s1).
     bind_res (updateRewardSumAndProduct gain loss s1) (\<lambda>s2. decreaseSIM debt s2))"

definition depleted_pool :: "revert + stability_pool" where
  "depleted_pool =
     bind_res (offset_accounting 50000000000000000000 100000000000000000000000
       (updateDepositAndSnapshots 40 10000000000000000000000000 ((new_stability_pool 14 9)\<lparr>totalSIMDeposits := 10000000000000000000000000\<rparr>)))
     (offset_accounting 1888144329896907216494 3776288659793814432989690)"


end
