(* ===== verification/Trove_Manager.thy ===== *)
theory Trove_Manager
  imports Liquity_Math Sorted_Troves Collateral_Pools
begin

text \<open>
  The book of the troves (\<open>contracts/TroveManager.sol\<close>): debts, collateral, stakes, the rewards that
  redistributions leave pending, the array of owners, and the base rate of the fees. Liquidations and
  redemptions have theories of their own, \<open>Liquidation\<close> and \<open>Redemption\<close>. An operation that reverts gives \<open>Inl\<close>; the pools and the
  sorted list are those of their theories. Events are not modelled.
\<close>

section \<open>State\<close>

datatype trove_status = NonExistent | Active | ClosedByOwner | ClosedByLiquidation | ClosedByRedemption

record trove =
  tr_debt :: uint
  tr_coll :: uint
  tr_stake :: uint
  tr_status :: trove_status
  tr_arrayIndex :: uint

record reward_snapshot =
  rs_WSTETH :: uint
  rs_SIMDebt :: uint

record trove_manager =
  tm_self :: address
  tm_owner :: address
  tm_borrowerOperationsAddress :: address
  tm_activePool :: address
  tm_defaultPool :: address
  tm_stabilityPool :: address
  tm_collSurplusPool :: address
  tm_priceFeed :: address
  tm_simToken :: address
  tm_sortedTroves :: address
  tm_shadyToken :: address
  tm_wstETHVeDistributor :: address
  baseRate :: uint
  lastFeeOperationTime :: uint
  Troves :: "address \<Rightarrow> trove"
  totalStakes :: uint
  totalStakesSnapshot :: uint
  totalCollateralSnapshot :: uint
  L_WSTETH :: uint
  L_SIMDebt :: uint
  rewardSnapshots :: "address \<Rightarrow> reward_snapshot"
  TroveOwners :: "address list"
  lastWSTETHError_Redistribution :: uint
  lastSIMDebtError_Redistribution :: uint

definition TM_SECONDS_IN_ONE_MINUTE :: uint where "TM_SECONDS_IN_ONE_MINUTE = 60"
definition MINUTE_DECAY_FACTOR :: uint where "MINUTE_DECAY_FACTOR = 999037758833783000"
definition REDEMPTION_FEE_FLOOR :: uint where "REDEMPTION_FEE_FLOOR = DECIMAL_PRECISION div 1000 * 5"
definition MAX_BORROWING_FEE :: uint where "MAX_BORROWING_FEE = DECIMAL_PRECISION div 100 * 5"
definition BETA :: uint where "BETA = 2"

definition upd_trove :: "address \<Rightarrow> (trove \<Rightarrow> trove) \<Rightarrow> trove_manager \<Rightarrow> trove_manager" where
  "upd_trove a f m = m\<lparr>Troves := (Troves m)(a := f (Troves m a))\<rparr>"

definition callerIsBorrowerOperations :: "trove_manager \<Rightarrow> address \<Rightarrow> revert + unit" where
  "callerIsBorrowerOperations m sender =
     require (sender = tm_borrowerOperationsAddress m) ''TroveManager: Caller is not the BorrowerOperations contract''"

definition requireTroveIsActive :: "trove_manager \<Rightarrow> address \<Rightarrow> revert + unit" where
  "requireTroveIsActive m borrower =
     require (tr_status (Troves m borrower) = Active) ''TroveManager: Trove does not exist or is closed''"

definition troveManager_setAddresses ::
    "(address \<Rightarrow> bool) \<Rightarrow> address \<Rightarrow> address \<Rightarrow> address \<Rightarrow> address \<Rightarrow> address \<Rightarrow> address \<Rightarrow> address \<Rightarrow> address \<Rightarrow> address \<Rightarrow> address \<Rightarrow> address
      \<Rightarrow> trove_manager \<Rightarrow> revert + trove_manager" where
  "troveManager_setAddresses is_contract sender borrowerOperations activePoolA defaultPoolA stabilityPool collSurplusPoolA priceFeed simToken
      sortedTroves shadyToken veDistributor m =
     bind_res (only_owner (tm_owner m) sender) (\<lambda>_.
     bind_res (checkContracts is_contract [borrowerOperations, activePoolA, defaultPoolA, stabilityPool, collSurplusPoolA, priceFeed, simToken,
        sortedTroves, shadyToken, veDistributor]) (\<lambda>_.
     Inr (m\<lparr>tm_borrowerOperationsAddress := borrowerOperations, tm_activePool := activePoolA, tm_defaultPool := defaultPoolA,
            tm_stabilityPool := stabilityPool, tm_collSurplusPool := collSurplusPoolA, tm_priceFeed := priceFeed, tm_simToken := simToken,
            tm_sortedTroves := sortedTroves, tm_shadyToken := shadyToken, tm_wstETHVeDistributor := veDistributor, tm_owner := 0\<rparr>)))"

section \<open>Pending rewards\<close>

definition pending_reward :: "trove_manager \<Rightarrow> address \<Rightarrow> uint \<Rightarrow> uint \<Rightarrow> revert + uint" where
  "pending_reward m borrower running snapshot =
     bind_res (u_sub running snapshot) (\<lambda>rewardPerUnitStaked.
     if rewardPerUnitStaked = 0 \<or> tr_status (Troves m borrower) \<noteq> Active then Inr 0
     else bind_res (u_mul (tr_stake (Troves m borrower)) rewardPerUnitStaked) (\<lambda>x. Inr (x div DECIMAL_PRECISION)))"

definition getPendingWSTETHReward :: "trove_manager \<Rightarrow> address \<Rightarrow> revert + uint" where
  "getPendingWSTETHReward m borrower = pending_reward m borrower (L_WSTETH m) (rs_WSTETH (rewardSnapshots m borrower))"

definition getPendingSIMDebtReward :: "trove_manager \<Rightarrow> address \<Rightarrow> revert + uint" where
  "getPendingSIMDebtReward m borrower = pending_reward m borrower (L_SIMDebt m) (rs_SIMDebt (rewardSnapshots m borrower))"

definition hasPendingRewards :: "trove_manager \<Rightarrow> address \<Rightarrow> bool" where
  "hasPendingRewards m borrower \<longleftrightarrow>
     tr_status (Troves m borrower) = Active \<and> rs_WSTETH (rewardSnapshots m borrower) < L_WSTETH m"

definition getCurrentTroveAmounts :: "trove_manager \<Rightarrow> address \<Rightarrow> revert + uint \<times> uint" where
  "getCurrentTroveAmounts m borrower =
     bind_res (getPendingWSTETHReward m borrower) (\<lambda>pendingWSTETHReward.
     bind_res (getPendingSIMDebtReward m borrower) (\<lambda>pendingSIMDebtReward.
     bind_res (u_add (tr_coll (Troves m borrower)) pendingWSTETHReward) (\<lambda>currentWSTETH.
     bind_res (u_add (tr_debt (Troves m borrower)) pendingSIMDebtReward) (\<lambda>currentSIMDebt.
     Inr (currentWSTETH, currentSIMDebt)))))"

definition getNominalICR :: "trove_manager \<Rightarrow> address \<Rightarrow> revert + uint" where
  "getNominalICR m borrower =
     bind_res (getCurrentTroveAmounts m borrower) (\<lambda>(currentWSTETH, currentSIMDebt).
     computeNominalCR currentWSTETH currentSIMDebt)"

definition getCurrentICR :: "trove_manager \<Rightarrow> address \<Rightarrow> uint \<Rightarrow> revert + uint" where
  "getCurrentICR m borrower price =
     bind_res (getCurrentTroveAmounts m borrower) (\<lambda>(currentWSTETH, currentSIMDebt).
     computeCR currentWSTETH currentSIMDebt price)"

definition getEntireDebtAndColl :: "trove_manager \<Rightarrow> address \<Rightarrow> revert + uint \<times> uint \<times> uint \<times> uint" where
  "getEntireDebtAndColl m borrower =
     bind_res (getPendingSIMDebtReward m borrower) (\<lambda>pendingSIMDebtReward.
     bind_res (getPendingWSTETHReward m borrower) (\<lambda>pendingWSTETHReward.
     bind_res (u_add (tr_debt (Troves m borrower)) pendingSIMDebtReward) (\<lambda>debt.
     bind_res (u_add (tr_coll (Troves m borrower)) pendingWSTETHReward) (\<lambda>coll.
     Inr (debt, coll, pendingSIMDebtReward, pendingWSTETHReward)))))"

definition updateTroveRewardSnapshots :: "address \<Rightarrow> trove_manager \<Rightarrow> trove_manager" where
  "updateTroveRewardSnapshots borrower m =
     m\<lparr>rewardSnapshots := (rewardSnapshots m)(borrower := \<lparr>rs_WSTETH = L_WSTETH m, rs_SIMDebt = L_SIMDebt m\<rparr>)\<rparr>"

text \<open>\<open>_movePendingTroveRewardsToActivePool\<close>: calls of the trove manager to the two pools.\<close>

definition movePendingTroveRewardsToActivePool ::
    "'t erc20 \<Rightarrow> trove_manager \<Rightarrow> uint \<Rightarrow> uint \<Rightarrow> 't pools \<Rightarrow> revert + 't pools" where
  "movePendingTroveRewardsToActivePool tok m SIM WSTETH s =
     bind_res (defaultPool_decreaseSIMDebt (tm_self m) SIM s) (\<lambda>s1.
     bind_res (activePool_increaseSIMDebt (tm_self m) SIM s1) (\<lambda>s2.
     sendWSTETHToActivePool tok (tm_self m) WSTETH s2))"

definition applyPendingRewards ::
    "'t erc20 \<Rightarrow> address \<Rightarrow> trove_manager \<times> 't pools \<Rightarrow> revert + trove_manager \<times> 't pools" where
  "applyPendingRewards tok borrower = (\<lambda>(m, s).
     if hasPendingRewards m borrower then
       bind_res (requireTroveIsActive m borrower) (\<lambda>_.
       bind_res (getPendingWSTETHReward m borrower) (\<lambda>pendingWSTETHReward.
       bind_res (getPendingSIMDebtReward m borrower) (\<lambda>pendingSIMDebtReward.
       bind_res (u_add (tr_coll (Troves m borrower)) pendingWSTETHReward) (\<lambda>coll.
       bind_res (u_add (tr_debt (Troves m borrower)) pendingSIMDebtReward) (\<lambda>debt.
       let m1 = updateTroveRewardSnapshots borrower (upd_trove borrower (\<lambda>t. t\<lparr>tr_coll := coll, tr_debt := debt\<rparr>) m) in
       bind_res (movePendingTroveRewardsToActivePool tok m1 pendingSIMDebtReward pendingWSTETHReward s) (\<lambda>s'.
       Inr (m1, s')))))))
     else Inr (m, s))"

section \<open>Stakes\<close>

definition removeStake :: "address \<Rightarrow> trove_manager \<Rightarrow> revert + trove_manager" where
  "removeStake borrower m =
     bind_res (u_sub (totalStakes m) (tr_stake (Troves m borrower))) (\<lambda>sum_of_stakes.
     Inr (upd_trove borrower (\<lambda>t. t\<lparr>tr_stake := 0\<rparr>) (m\<lparr>totalStakes := sum_of_stakes\<rparr>)))"

definition computeNewStake :: "trove_manager \<Rightarrow> uint \<Rightarrow> revert + uint" where
  "computeNewStake m coll =
     (if totalCollateralSnapshot m = 0 then Inr coll
      else if \<not> 0 < totalStakesSnapshot m then Inl Panic
      else bind_res (u_mul coll (totalStakesSnapshot m)) (\<lambda>x. u_div x (totalCollateralSnapshot m)))"

definition updateStakeAndTotalStakes :: "address \<Rightarrow> trove_manager \<Rightarrow> revert + uint \<times> trove_manager" where
  "updateStakeAndTotalStakes borrower m =
     bind_res (computeNewStake m (tr_coll (Troves m borrower))) (\<lambda>newStake.
     let oldStake = tr_stake (Troves m borrower) in
     bind_res (u_sub (totalStakes m) oldStake) (\<lambda>x.
     bind_res (u_add x newStake) (\<lambda>sum_of_stakes.
     Inr (newStake, (upd_trove borrower (\<lambda>t. t\<lparr>tr_stake := newStake\<rparr>) m)\<lparr>totalStakes := sum_of_stakes\<rparr>))))"

section \<open>Redistribution\<close>

definition redistributeDebtAndColl :: "'t erc20 \<Rightarrow> uint \<Rightarrow> uint \<Rightarrow> trove_manager \<times> 't pools \<Rightarrow> revert + trove_manager \<times> 't pools" where
  "redistributeDebtAndColl tok debt coll = (\<lambda>(m, s).
     if debt = 0 then Inr (m, s)
     else
       bind_res (bind_res (u_mul coll DECIMAL_PRECISION) (\<lambda>x. u_add x (lastWSTETHError_Redistribution m))) (\<lambda>WSTETHNumerator.
       bind_res (bind_res (u_mul debt DECIMAL_PRECISION) (\<lambda>x. u_add x (lastSIMDebtError_Redistribution m))) (\<lambda>SIMDebtNumerator.
       bind_res (u_div WSTETHNumerator (totalStakes m)) (\<lambda>WSTETHRewardPerUnitStaked.
       bind_res (u_div SIMDebtNumerator (totalStakes m)) (\<lambda>SIMDebtRewardPerUnitStaked.
       bind_res (bind_res (u_mul WSTETHRewardPerUnitStaked (totalStakes m)) (u_sub WSTETHNumerator)) (\<lambda>WSTETHError.
       bind_res (bind_res (u_mul SIMDebtRewardPerUnitStaked (totalStakes m)) (u_sub SIMDebtNumerator)) (\<lambda>SIMDebtError.
       bind_res (u_add (L_WSTETH m) WSTETHRewardPerUnitStaked) (\<lambda>L_W.
       bind_res (u_add (L_SIMDebt m) SIMDebtRewardPerUnitStaked) (\<lambda>L_S.
       let m1 = m\<lparr>lastWSTETHError_Redistribution := WSTETHError, lastSIMDebtError_Redistribution := SIMDebtError,
                  L_WSTETH := L_W, L_SIMDebt := L_S\<rparr> in
       bind_res (activePool_decreaseSIMDebt (tm_self m) debt s) (\<lambda>s1.
       bind_res (defaultPool_increaseSIMDebt (tm_self m) debt s1) (\<lambda>s2.
       bind_res (sendWSTETH tok (tm_self m) (tm_defaultPool m) coll s2) (\<lambda>s3.
       Inr (m1, s3)))))))))))))"

definition updateSystemSnapshots_excludeCollRemainder :: "'t pools \<Rightarrow> uint \<Rightarrow> trove_manager \<Rightarrow> revert + trove_manager" where
  "updateSystemSnapshots_excludeCollRemainder s collRemainder m =
     bind_res (u_sub (ap_WSTETH (activePool s)) collRemainder) (\<lambda>x.
     bind_res (u_add x (dp_WSTETH (defaultPool s))) (\<lambda>coll.
     Inr (m\<lparr>totalStakesSnapshot := totalStakes m, totalCollateralSnapshot := coll\<rparr>)))"

section \<open>Owners\<close>

definition addTroveOwnerToArray :: "address \<Rightarrow> trove_manager \<Rightarrow> uint \<times> trove_manager" where
  "addTroveOwnerToArray borrower m =
     (let owners = TroveOwners m @ [borrower];
          index = (length owners - 1) mod 2 ^ 128
      in (index, upd_trove borrower (\<lambda>t. t\<lparr>tr_arrayIndex := index\<rparr>) (m\<lparr>TroveOwners := owners\<rparr>)))"

definition removeTroveOwner :: "address \<Rightarrow> uint \<Rightarrow> trove_manager \<Rightarrow> revert + trove_manager" where
  "removeTroveOwner borrower len m =
     (if tr_status (Troves m borrower) \<in> {NonExistent, Active} then Inl Panic
      else let index = tr_arrayIndex (Troves m borrower) in
        bind_res (u_sub len 1) (\<lambda>idxLast.
        if \<not> index \<le> idxLast then Inl Panic
        else if \<not> idxLast < length (TroveOwners m) then Inl Panic
        else let addressToMove = TroveOwners m ! idxLast in
          Inr (upd_trove addressToMove (\<lambda>t. t\<lparr>tr_arrayIndex := index\<rparr>)
                 (m\<lparr>TroveOwners := butlast ((TroveOwners m)[index := addressToMove])\<rparr>))))"

text \<open>\<open>_closeTrove\<close>; the trove manager calls \<open>remove\<close> of the sorted list.\<close>

definition closeTrove ::
    "address \<Rightarrow> trove_status \<Rightarrow> trove_manager \<times> sorted_troves \<Rightarrow> (revert + trove_manager \<times> sorted_troves) option" where
  "closeTrove borrower closedStatus = (\<lambda>(m, st).
     if closedStatus \<in> {NonExistent, Active} then Some (Inl Panic)
     else
       let len = length (TroveOwners m) in
       if \<not> (1 < len \<and> 1 < size (st_data st)) then Some (Inl (Revert ''TroveManager: Only one trove in the system''))
       else
         let m1 = (upd_trove borrower (\<lambda>t. t\<lparr>tr_status := closedStatus, tr_coll := 0, tr_debt := 0\<rparr>) m)
                \<lparr>rewardSnapshots := (rewardSnapshots m)(borrower := \<lparr>rs_WSTETH = 0, rs_SIMDebt = 0\<rparr>)\<rparr>
         in case removeTroveOwner borrower len m1 of
              Inl e \<Rightarrow> Some (Inl e)
            | Inr m2 \<Rightarrow> map_option (map_sum id (\<lambda>st'. (m2, st'))) (remove_trove st (tm_self m) borrower))"

section \<open>Fees\<close>

definition minutesPassedSinceLastFeeOp :: "uint \<Rightarrow> trove_manager \<Rightarrow> revert + uint" where
  "minutesPassedSinceLastFeeOp now m =
     bind_res (u_sub now (lastFeeOperationTime m)) (\<lambda>d. u_div d TM_SECONDS_IN_ONE_MINUTE)"

definition calcDecayedBaseRate :: "uint \<Rightarrow> trove_manager \<Rightarrow> revert + uint" where
  "calcDecayedBaseRate now m =
     bind_res (minutesPassedSinceLastFeeOp now m) (\<lambda>minutesPassed.
     bind_res (decPow MINUTE_DECAY_FACTOR minutesPassed) (\<lambda>decayFactor.
     bind_res (u_mul (baseRate m) decayFactor) (\<lambda>x. u_div x DECIMAL_PRECISION)))"

definition updateLastFeeOpTime :: "uint \<Rightarrow> trove_manager \<Rightarrow> revert + trove_manager" where
  "updateLastFeeOpTime now m =
     bind_res (u_sub now (lastFeeOperationTime m)) (\<lambda>timePassed.
     Inr (if TM_SECONDS_IN_ONE_MINUTE \<le> timePassed then m\<lparr>lastFeeOperationTime := now\<rparr> else m))"

definition decayBaseRateFromBorrowing :: "uint \<Rightarrow> address \<Rightarrow> trove_manager \<Rightarrow> revert + trove_manager" where
  "decayBaseRateFromBorrowing now sender m =
     bind_res (callerIsBorrowerOperations m sender) (\<lambda>_.
     bind_res (calcDecayedBaseRate now m) (\<lambda>decayedBaseRate.
     if \<not> decayedBaseRate \<le> DECIMAL_PRECISION then Inl Panic
     else updateLastFeeOpTime now (m\<lparr>baseRate := decayedBaseRate\<rparr>)))"

definition calcBorrowingRate :: "uint \<Rightarrow> revert + uint" where
  "calcBorrowingRate rate =
     bind_res (u_add BORROWING_FEE_FLOOR rate) (\<lambda>x. Inr (LM_min x MAX_BORROWING_FEE))"

definition calcBorrowingFee :: "uint \<Rightarrow> uint \<Rightarrow> revert + uint" where
  "calcBorrowingFee rate SIMDebt = bind_res (u_mul rate SIMDebt) (\<lambda>x. u_div x DECIMAL_PRECISION)"

definition getBorrowingFee :: "trove_manager \<Rightarrow> uint \<Rightarrow> revert + uint" where
  "getBorrowingFee m SIMDebt = bind_res (calcBorrowingRate (baseRate m)) (\<lambda>rate. calcBorrowingFee rate SIMDebt)"

definition getBorrowingFeeWithDecay :: "uint \<Rightarrow> trove_manager \<Rightarrow> uint \<Rightarrow> revert + uint" where
  "getBorrowingFeeWithDecay now m SIMDebt =
     bind_res (calcDecayedBaseRate now m) (\<lambda>r. bind_res (calcBorrowingRate r) (\<lambda>rate. calcBorrowingFee rate SIMDebt))"

definition calcRedemptionRate :: "uint \<Rightarrow> revert + uint" where
  "calcRedemptionRate rate =
     bind_res (u_add REDEMPTION_FEE_FLOOR rate) (\<lambda>x. Inr (LM_min x DECIMAL_PRECISION))"

definition calcRedemptionFee :: "uint \<Rightarrow> uint \<Rightarrow> revert + uint" where
  "calcRedemptionFee redemptionRate WSTETHDrawn =
     bind_res (bind_res (u_mul redemptionRate WSTETHDrawn) (\<lambda>x. u_div x DECIMAL_PRECISION)) (\<lambda>redemptionFee.
     bind_res (require (redemptionFee < WSTETHDrawn) ''TroveManager: Fee would eat up all returned collateral'') (\<lambda>_.
     Inr redemptionFee))"

definition updateBaseRateFromRedemption :: "uint \<Rightarrow> uint \<Rightarrow> uint \<Rightarrow> uint \<Rightarrow> trove_manager \<Rightarrow> revert + uint \<times> trove_manager" where
  "updateBaseRateFromRedemption now WSTETHDrawn price totalSIMSupply m =
     bind_res (calcDecayedBaseRate now m) (\<lambda>decayedBaseRate.
     bind_res (bind_res (u_mul WSTETHDrawn price) (\<lambda>x. u_div x totalSIMSupply)) (\<lambda>redeemedSIMFraction.
     bind_res (u_add decayedBaseRate (redeemedSIMFraction div BETA)) (\<lambda>newBaseRate.
     let newBaseRate = LM_min newBaseRate DECIMAL_PRECISION in
     if \<not> 0 < newBaseRate then Inl Panic
     else bind_res (updateLastFeeOpTime now (m\<lparr>baseRate := newBaseRate\<rparr>)) (\<lambda>m'. Inr (newBaseRate, m')))))"

section \<open>Setters of the borrower operations\<close>

fun status_of_num :: "uint \<Rightarrow> revert + trove_status" where
  "status_of_num n =
     (if n = 0 then Inr NonExistent else if n = 1 then Inr Active else if n = 2 then Inr ClosedByOwner
      else if n = 3 then Inr ClosedByLiquidation else if n = 4 then Inr ClosedByRedemption else Inl Panic)"

definition setTroveStatus :: "address \<Rightarrow> address \<Rightarrow> uint \<Rightarrow> trove_manager \<Rightarrow> revert + trove_manager" where
  "setTroveStatus sender borrower num m =
     bind_res (callerIsBorrowerOperations m sender) (\<lambda>_.
     bind_res (status_of_num num) (\<lambda>st. Inr (upd_trove borrower (\<lambda>t. t\<lparr>tr_status := st\<rparr>) m)))"

definition increaseTroveColl :: "address \<Rightarrow> address \<Rightarrow> uint \<Rightarrow> trove_manager \<Rightarrow> revert + uint \<times> trove_manager" where
  "increaseTroveColl sender borrower n m =
     bind_res (callerIsBorrowerOperations m sender) (\<lambda>_.
     bind_res (u_add (tr_coll (Troves m borrower)) n) (\<lambda>c. Inr (c, upd_trove borrower (\<lambda>t. t\<lparr>tr_coll := c\<rparr>) m)))"

definition decreaseTroveColl :: "address \<Rightarrow> address \<Rightarrow> uint \<Rightarrow> trove_manager \<Rightarrow> revert + uint \<times> trove_manager" where
  "decreaseTroveColl sender borrower n m =
     bind_res (callerIsBorrowerOperations m sender) (\<lambda>_.
     bind_res (u_sub (tr_coll (Troves m borrower)) n) (\<lambda>c. Inr (c, upd_trove borrower (\<lambda>t. t\<lparr>tr_coll := c\<rparr>) m)))"

definition increaseTroveDebt :: "address \<Rightarrow> address \<Rightarrow> uint \<Rightarrow> trove_manager \<Rightarrow> revert + uint \<times> trove_manager" where
  "increaseTroveDebt sender borrower n m =
     bind_res (callerIsBorrowerOperations m sender) (\<lambda>_.
     bind_res (u_add (tr_debt (Troves m borrower)) n) (\<lambda>d. Inr (d, upd_trove borrower (\<lambda>t. t\<lparr>tr_debt := d\<rparr>) m)))"

definition decreaseTroveDebt :: "address \<Rightarrow> address \<Rightarrow> uint \<Rightarrow> trove_manager \<Rightarrow> revert + uint \<times> trove_manager" where
  "decreaseTroveDebt sender borrower n m =
     bind_res (callerIsBorrowerOperations m sender) (\<lambda>_.
     bind_res (u_sub (tr_debt (Troves m borrower)) n) (\<lambda>d. Inr (d, upd_trove borrower (\<lambda>t. t\<lparr>tr_debt := d\<rparr>) m)))"

section \<open>The whole system\<close>

text \<open>The views of \<open>dependencies/Base.sol\<close> over the two pools.\<close>

definition getEntireSystemColl :: "'t pools \<Rightarrow> revert + uint" where
  "getEntireSystemColl s = u_add (ap_WSTETH (activePool s)) (dp_WSTETH (defaultPool s))"

definition getEntireSystemDebt :: "'t pools \<Rightarrow> revert + uint" where
  "getEntireSystemDebt s = u_add (ap_SIMDebt (activePool s)) (dp_SIMDebt (defaultPool s))"

definition getTCR :: "'t pools \<Rightarrow> uint \<Rightarrow> revert + uint" where
  "getTCR s price =
     bind_res (getEntireSystemColl s) (\<lambda>entireSystemColl.
     bind_res (getEntireSystemDebt s) (\<lambda>entireSystemDebt.
     computeCR entireSystemColl entireSystemDebt price))"

definition checkRecoveryMode :: "'t pools \<Rightarrow> uint \<Rightarrow> revert + bool" where
  "checkRecoveryMode s price = bind_res (getTCR s price) (\<lambda>TCR. Inr (TCR < CCR))"

end
