(* ===== verification/Borrower_Operations.thy ===== *)
theory Borrower_Operations
  imports Trove_Manager Price_Feed Protocol_Tokens
begin

text \<open>
  The operations of the borrowers (\<open>contracts/BorrowerOperations.sol\<close>), composed with the contracts they
  call: the price feed, the trove manager, the sorted list, the pools and the SIM token. The state of the
  protocol is the record \<open>protocol\<close>; an operation is a computation over it, written in the order of the
  source. A transaction that reverts leaves the state it found. The WSTETH token, OpenZeppelin's part of the
  SIM token, the oracles and the \<open>checkpoint\<close> of the fee distributor are the record \<open>env\<close>.
\<close>

section \<open>State\<close>

record borrower_operations =
  bo_self :: address
  bo_owner :: address
  bo_WSTETHAddress :: address
  bo_troveManager :: address
  bo_activePool :: address
  bo_defaultPool :: address
  bo_stabilityPoolAddress :: address
  bo_collSurplusPool :: address
  bo_priceFeed :: address
  bo_sortedTroves :: address
  bo_simToken :: address
  bo_simVeDistributor :: address
  bo_feeReceiver :: address

record ('t, 'm, 'd) protocol =
  pr_bo :: borrower_operations
  pr_pools :: "'t pools"
  pr_tm :: trove_manager
  pr_list :: sorted_troves
  pr_simToken :: sim_token
  pr_sim :: 'm
  pr_feed :: price_feed
  pr_dist :: 'd

record ('t, 'm, 'p, 'd) env =
  en_wsteth :: "'t erc20"
  en_transferFrom :: "'t \<Rightarrow> address \<Rightarrow> address \<Rightarrow> address \<Rightarrow> uint \<Rightarrow> revert + bool \<times> 't"
  en_oz :: "('m, 'p) oz_erc20"
  en_oracles :: oracles
  en_checkpoint :: "address \<Rightarrow> 'd \<Rightarrow> revert + 'd"

section \<open>Calls to the other contracts\<close>

type_synonym ('t, 'm, 'd, 'a) op = "(('t, 'm, 'd) protocol, revert, 'a) io"

definition gets :: "(('t, 'm, 'd) protocol \<Rightarrow> revert + 'a) \<Rightarrow> ('t, 'm, 'd, 'a) op" where
  "gets f s = Some (f s, s)"

definition modify :: "(('t, 'm, 'd) protocol \<Rightarrow> revert + ('t, 'm, 'd) protocol) \<Rightarrow> ('t, 'm, 'd, unit) op" where
  "modify f s = (case f s of Inl e \<Rightarrow> Some (Inl e, s) | Inr s' \<Rightarrow> Some (Inr (), s'))"

definition on_pools :: "('t pools \<Rightarrow> revert + 't pools) \<Rightarrow> ('t, 'm, 'd, unit) op" where
  "on_pools f = modify (\<lambda>s. bind_res (f (pr_pools s)) (\<lambda>p. Inr (s\<lparr>pr_pools := p\<rparr>)))"

definition on_tm :: "(address \<Rightarrow> trove_manager \<Rightarrow> revert + trove_manager) \<Rightarrow> ('t, 'm, 'd, unit) op" where
  "on_tm f = modify (\<lambda>s. bind_res (f (bo_self (pr_bo s)) (pr_tm s)) (\<lambda>m. Inr (s\<lparr>pr_tm := m\<rparr>)))"

definition on_list :: "(('t, 'm, 'd) protocol \<Rightarrow> (revert + sorted_troves) option) \<Rightarrow> ('t, 'm, 'd, unit) op" where
  "on_list f s =
     (case f s of
        None \<Rightarrow> None
      | Some (Inl e) \<Rightarrow> Some (Inl e, s)
      | Some (Inr st) \<Rightarrow> Some (Inr (), s\<lparr>pr_list := st\<rparr>))"

definition on_sim :: "(address \<Rightarrow> sim_token \<Rightarrow> 'm \<Rightarrow> revert + 'm) \<Rightarrow> ('t, 'm, 'd, unit) op" where
  "on_sim f = modify (\<lambda>s. bind_res (f (bo_self (pr_bo s)) (pr_simToken s) (pr_sim s)) (\<lambda>t. Inr (s\<lparr>pr_sim := t\<rparr>)))"

definition ensure :: "bool \<Rightarrow> string \<Rightarrow> ('t, 'm, 'd, unit) op" where
  "ensure b message = lift_io (require b message)"

definition assert_io :: "bool \<Rightarrow> ('t, 'm, 'd, unit) op" where
  "assert_io b = lift_io (if b then Inr () else Inl Panic)"

text \<open>A transaction that reverts has no effect.\<close>

definition transaction :: "('t, 'm, 'd, 'a) op \<Rightarrow> ('t, 'm, 'd, 'a) op" where
  "transaction m s = (case m s of Some (Inl e, _) \<Rightarrow> Some (Inl e, s) | r \<Rightarrow> r)"

definition fetch_price :: "('t, 'm, 'p, 'd) env \<Rightarrow> ('t, 'm, 'd, uint) op" where
  "fetch_price E s =
     (case fetchPrice (en_oracles E) (pr_feed s) of
        Inl e \<Rightarrow> Some (Inl e, s)
      | Inr (price, f) \<Rightarrow> Some (Inr price, s\<lparr>pr_feed := f\<rparr>))"

text \<open>\<open>require(IERC20(WSTETHAddress).transferFrom(msg.sender, address(this), amount))\<close>.\<close>

definition take_WSTETH :: "('t, 'm, 'p, 'd) env \<Rightarrow> address \<Rightarrow> uint \<Rightarrow> ('t, 'm, 'd, unit) op" where
  "take_WSTETH E sender amount =
     modify (\<lambda>s. bind_res (en_transferFrom E (wsteth (pr_pools s)) (bo_self (pr_bo s)) sender (bo_self (pr_bo s)) amount) (\<lambda>(ok, t).
       bind_res (require ok '''') (\<lambda>_. Inr (s\<lparr>pr_pools := (pr_pools s)\<lparr>wsteth := t\<rparr>\<rparr>))))"

definition bo_balance :: "('t, 'm, 'p, 'd) env \<Rightarrow> ('t, 'm, 'd) protocol \<Rightarrow> uint" where
  "bo_balance E s = tk_balanceOf (en_wsteth E) (wsteth (pr_pools s)) (bo_self (pr_bo s))"

text \<open>What \<open>getNominalICR\<close> returns for the troves of the list during a call.\<close>

definition nicr_of :: "trove_manager \<Rightarrow> address \<Rightarrow> uint" where
  "nicr_of m a = (case getNominalICR m a of Inr n \<Rightarrow> n | Inl _ \<Rightarrow> 0)"

section \<open>Helpers\<close>

definition requireValidMaxFeePercentage :: "uint \<Rightarrow> bool \<Rightarrow> ('t, 'm, 'd, unit) op" where
  "requireValidMaxFeePercentage maxFee isRecoveryMode =
     (if isRecoveryMode then ensure (maxFee \<le> DECIMAL_PRECISION) ''Max fee percentage must less than or equal to 100%''
      else ensure (BORROWING_FEE_FLOOR \<le> maxFee \<and> maxFee \<le> DECIMAL_PRECISION) ''Max fee percentage must be between 0.5% and 100%'')"

definition trove_active :: "('t, 'm, 'd) protocol \<Rightarrow> address \<Rightarrow> bool" where
  "trove_active s borrower \<longleftrightarrow> tr_status (Troves (pr_tm s) borrower) = Active"

definition requireTroveisActive :: "address \<Rightarrow> ('t, 'm, 'd, unit) op" where
  "requireTroveisActive borrower = gets (\<lambda>s. require (trove_active s borrower) ''BorrowerOps: Trove does not exist or is closed'')"

definition requireTroveisNotActive :: "address \<Rightarrow> ('t, 'm, 'd, unit) op" where
  "requireTroveisNotActive borrower = gets (\<lambda>s. require (\<not> trove_active s borrower) ''BorrowerOps: Trove is active'')"

definition requireSingularCollChange :: "('t, 'm, 'p, 'd) env \<Rightarrow> uint \<Rightarrow> ('t, 'm, 'd, unit) op" where
  "requireSingularCollChange E collWithdrawal =
     gets (\<lambda>s. require (bo_balance E s = 0 \<or> collWithdrawal = 0) ''BorrowerOperations: Cannot withdraw and add coll'')"

definition requireNonZeroAdjustment :: "('t, 'm, 'p, 'd) env \<Rightarrow> uint \<Rightarrow> uint \<Rightarrow> ('t, 'm, 'd, unit) op" where
  "requireNonZeroAdjustment E collWithdrawal SIMChange =
     gets (\<lambda>s. require (bo_balance E s \<noteq> 0 \<or> collWithdrawal \<noteq> 0 \<or> SIMChange \<noteq> 0)
       ''BorrowerOps: There must be either a collateral change or a debt change'')"

definition requireSufficientSIMBalance :: "('t, 'm, 'p, 'd) env \<Rightarrow> address \<Rightarrow> uint \<Rightarrow> ('t, 'm, 'd, unit) op" where
  "requireSufficientSIMBalance E borrower debtRepayment =
     gets (\<lambda>s. require (debtRepayment \<le> oz_balanceOf (en_oz E) (pr_sim s) borrower)
       ''BorrowerOps: Caller doesnt have enough SIM to make repayment'')"

definition getCollChange :: "uint \<Rightarrow> uint \<Rightarrow> uint \<times> bool" where
  "getCollChange collReceived requestedCollWithdrawal =
     (if collReceived \<noteq> 0 then (collReceived, True) else (requestedCollWithdrawal, False))"

definition changed :: "bool \<Rightarrow> uint \<Rightarrow> uint \<Rightarrow> revert + uint" where
  "changed increase x n = (if increase then u_add x n else u_sub x n)"

definition getNewTroveAmounts :: "uint \<Rightarrow> uint \<Rightarrow> uint \<Rightarrow> bool \<Rightarrow> uint \<Rightarrow> bool \<Rightarrow> revert + uint \<times> uint" where
  "getNewTroveAmounts coll debt collChange isCollIncrease debtChange isDebtIncrease =
     bind_res (changed isCollIncrease coll collChange) (\<lambda>newColl.
     bind_res (changed isDebtIncrease debt debtChange) (\<lambda>newDebt. Inr (newColl, newDebt)))"

definition getNewNominalICRFromTroveChange :: "uint \<Rightarrow> uint \<Rightarrow> uint \<Rightarrow> bool \<Rightarrow> uint \<Rightarrow> bool \<Rightarrow> revert + uint" where
  "getNewNominalICRFromTroveChange coll debt collChange isCollIncrease debtChange isDebtIncrease =
     bind_res (getNewTroveAmounts coll debt collChange isCollIncrease debtChange isDebtIncrease) (\<lambda>(newColl, newDebt).
     computeNominalCR newColl newDebt)"

definition getNewICRFromTroveChange :: "uint \<Rightarrow> uint \<Rightarrow> uint \<Rightarrow> bool \<Rightarrow> uint \<Rightarrow> bool \<Rightarrow> uint \<Rightarrow> revert + uint" where
  "getNewICRFromTroveChange coll debt collChange isCollIncrease debtChange isDebtIncrease price =
     bind_res (getNewTroveAmounts coll debt collChange isCollIncrease debtChange isDebtIncrease) (\<lambda>(newColl, newDebt).
     computeCR newColl newDebt price)"

definition getNewTCRFromTroveChange :: "'t pools \<Rightarrow> uint \<Rightarrow> bool \<Rightarrow> uint \<Rightarrow> bool \<Rightarrow> uint \<Rightarrow> revert + uint" where
  "getNewTCRFromTroveChange s collChange isCollIncrease debtChange isDebtIncrease price =
     bind_res (getEntireSystemColl s) (\<lambda>totalColl.
     bind_res (getEntireSystemDebt s) (\<lambda>totalDebt.
     bind_res (changed isCollIncrease totalColl collChange) (\<lambda>newColl.
     bind_res (changed isDebtIncrease totalDebt debtChange) (\<lambda>newDebt.
     computeCR newColl newDebt price))))"

definition triggerBorrowingFee :: "('t, 'm, 'p, 'd) env \<Rightarrow> uint \<Rightarrow> uint \<Rightarrow> ('t, 'm, 'd, uint) op" where
  "triggerBorrowingFee E SIMAmount maxFee =
     bind_io (on_tm (decayBaseRateFromBorrowing (or_now (en_oracles E)))) (\<lambda>_.
     bind_io (gets (\<lambda>s. getBorrowingFee (pr_tm s) SIMAmount)) (\<lambda>SIMFee.
     bind_io (lift_io (requireUserAcceptsFee SIMFee SIMAmount maxFee)) (\<lambda>_.
     bind_io (gets (\<lambda>s. Inr (pr_bo s))) (\<lambda>bo.
     bind_io (on_sim (\<lambda>self c. sim_mint (en_oz E) c self (bo_simVeDistributor bo) (SIMFee div 2))) (\<lambda>_.
     bind_io (modify (\<lambda>s. bind_res (en_checkpoint E (bo_simVeDistributor bo) (pr_dist s)) (\<lambda>d. Inr (s\<lparr>pr_dist := d\<rparr>)))) (\<lambda>_.
     bind_io (on_sim (\<lambda>self c. sim_mint (en_oz E) c self (bo_feeReceiver bo) (SIMFee - SIMFee div 2))) (\<lambda>_.
     return_io SIMFee)))))))"

definition withdrawSIM_from_pool :: "('t, 'm, 'p, 'd) env \<Rightarrow> address \<Rightarrow> uint \<Rightarrow> uint \<Rightarrow> ('t, 'm, 'd, unit) op" where
  "withdrawSIM_from_pool E account SIMAmount netDebtIncrease =
     bind_io (gets (\<lambda>s. Inr (bo_self (pr_bo s)))) (\<lambda>self.
     bind_io (on_pools (activePool_increaseSIMDebt self netDebtIncrease)) (\<lambda>_.
     on_sim (\<lambda>self c. sim_mint (en_oz E) c self account SIMAmount)))"

definition repaySIM_to_pool :: "('t, 'm, 'p, 'd) env \<Rightarrow> address \<Rightarrow> uint \<Rightarrow> ('t, 'm, 'd, unit) op" where
  "repaySIM_to_pool E account SIM =
     bind_io (gets (\<lambda>s. Inr (bo_self (pr_bo s)))) (\<lambda>self.
     bind_io (on_pools (activePool_decreaseSIMDebt self SIM)) (\<lambda>_.
     on_sim (\<lambda>self c. sim_burn (en_oz E) c self account SIM)))"

definition apply_pending :: "('t, 'm, 'p, 'd) env \<Rightarrow> address \<Rightarrow> ('t, 'm, 'd, unit) op" where
  "apply_pending E borrower =
     modify (\<lambda>s. bind_res (callerIsBorrowerOperations (pr_tm s) (bo_self (pr_bo s))) (\<lambda>_.
       bind_res (applyPendingRewards (en_wsteth E) borrower (pr_tm s, pr_pools s)) (\<lambda>(m, p).
       Inr (s\<lparr>pr_tm := m, pr_pools := p\<rparr>))))"

definition update_stake :: "address \<Rightarrow> ('t, 'm, 'd, unit) op" where
  "update_stake borrower =
     on_tm (\<lambda>self m. bind_res (callerIsBorrowerOperations m self) (\<lambda>_.
       bind_res (updateStakeAndTotalStakes borrower m) (\<lambda>(_, m'). Inr m')))"

section \<open>Opening a trove\<close>

definition borrowing_fee_unless :: "('t, 'm, 'p, 'd) env \<Rightarrow> bool \<Rightarrow> uint \<Rightarrow> uint \<Rightarrow> ('t, 'm, 'd, uint) op" where
  "borrowing_fee_unless E free SIMAmount maxFee = (if free then return_io 0 else triggerBorrowingFee E SIMAmount maxFee)"

text \<open>The entry of the trove into the books, its place in the list and in the array.\<close>

definition record_trove :: "address \<Rightarrow> uint \<Rightarrow> uint \<Rightarrow> uint \<Rightarrow> address \<Rightarrow> address \<Rightarrow> ('t, 'm, 'd, unit) op" where
  "record_trove sender amount compositeDebt NICR upperHint lowerHint =
     bind_io (on_tm (\<lambda>self. setTroveStatus self sender 1)) (\<lambda>_.
     bind_io (on_tm (\<lambda>self m. bind_res (increaseTroveColl self sender amount m) (\<lambda>(_, m'). Inr m'))) (\<lambda>_.
     bind_io (on_tm (\<lambda>self m. bind_res (increaseTroveDebt self sender compositeDebt m) (\<lambda>(_, m'). Inr m'))) (\<lambda>_.
     bind_io (on_tm (\<lambda>self m. bind_res (callerIsBorrowerOperations m self) (\<lambda>_. Inr (updateTroveRewardSnapshots sender m)))) (\<lambda>_.
     bind_io (update_stake sender) (\<lambda>_.
     bind_io (on_list (\<lambda>s. insert_trove (nicr_of (pr_tm s)) (pr_list s) (bo_self (pr_bo s)) sender NICR upperHint lowerHint)) (\<lambda>_.
     on_tm (\<lambda>self m. bind_res (callerIsBorrowerOperations m self) (\<lambda>_. Inr (snd (addTroveOwnerToArray sender m)))))))))) "

text \<open>The collateral that opening a trove needs in the two modes.\<close>

definition opening_guards :: "bool \<Rightarrow> uint \<Rightarrow> uint \<Rightarrow> uint \<Rightarrow> uint \<Rightarrow> ('t, 'm, 'd, unit) op" where
  "opening_guards isRecoveryMode ICR amount compositeDebt price =
     (if isRecoveryMode then ensure (CCR \<le> ICR) ''BorrowerOps: Operation must leave trove with ICR >= CCR''
      else bind_io (ensure (MCR \<le> ICR) ''BorrowerOps: An operation that would result in ICR < MCR is not permitted'') (\<lambda>_.
           bind_io (gets (\<lambda>s. getNewTCRFromTroveChange (pr_pools s) amount True compositeDebt True price)) (\<lambda>newTCR.
           ensure (CCR \<le> newTCR) ''BorrowerOps: An operation that would result in TCR < CCR is not permitted'')))"

definition openTrove ::
    "('t, 'm, 'p, 'd) env \<Rightarrow> address \<Rightarrow> uint \<Rightarrow> uint \<Rightarrow> uint \<Rightarrow> address \<Rightarrow> address \<Rightarrow> ('t, 'm, 'd, unit) op" where
  "openTrove E sender amount maxFee SIMAmount upperHint lowerHint =
     transaction (
     bind_io (take_WSTETH E sender amount) (\<lambda>_.
     bind_io (fetch_price E) (\<lambda>price.
     bind_io (gets (\<lambda>s. checkRecoveryMode (pr_pools s) price)) (\<lambda>isRecoveryMode.
     bind_io (requireValidMaxFeePercentage maxFee isRecoveryMode) (\<lambda>_.
     bind_io (requireTroveisNotActive sender) (\<lambda>_.
     bind_io (borrowing_fee_unless E isRecoveryMode SIMAmount maxFee) (\<lambda>SIMFee.
     bind_io (lift_io (u_add SIMAmount SIMFee)) (\<lambda>netDebt.
     bind_io (ensure (MIN_NET_DEBT \<le> netDebt) ''BorrowerOps: Trove's net debt must be greater than minimum'') (\<lambda>_.
     let compositeDebt = getCompositeDebt netDebt in
     bind_io (assert_io (0 < compositeDebt)) (\<lambda>_.
     bind_io (lift_io (computeCR amount compositeDebt price)) (\<lambda>ICR.
     bind_io (lift_io (computeNominalCR amount compositeDebt)) (\<lambda>NICR.
     bind_io (opening_guards isRecoveryMode ICR amount compositeDebt price) (\<lambda>_.
     bind_io (record_trove sender amount compositeDebt NICR upperHint lowerHint) (\<lambda>_.
     bind_io (on_pools (activePoolAddColl (en_wsteth E) amount)) (\<lambda>_.
     withdrawSIM_from_pool E sender SIMAmount netDebt)))))))))))))))"

section \<open>Adjusting a trove\<close>

definition requireValidAdjustmentInCurrentMode ::
    "bool \<Rightarrow> uint \<Rightarrow> bool \<Rightarrow> uint \<Rightarrow> uint \<Rightarrow> uint \<Rightarrow> bool \<Rightarrow> uint \<Rightarrow> uint \<Rightarrow> ('t, 'm, 'd, unit) op" where
  "requireValidAdjustmentInCurrentMode isRecoveryMode collWithdrawal isDebtIncrease oldICR newICR collChange isCollIncrease netDebtChange price =
     (if isRecoveryMode then
        bind_io (ensure (collWithdrawal = 0) ''BorrowerOps: Collateral withdrawal not permitted Recovery Mode'') (\<lambda>_.
        if isDebtIncrease then
          bind_io (ensure (CCR \<le> newICR) ''BorrowerOps: Operation must leave trove with ICR >= CCR'') (\<lambda>_.
          ensure (oldICR \<le> newICR) ''BorrowerOps: Cannot decrease your Trove's ICR in Recovery Mode'')
        else return_io ())
      else
        bind_io (ensure (MCR \<le> newICR) ''BorrowerOps: An operation that would result in ICR < MCR is not permitted'') (\<lambda>_.
        bind_io (gets (\<lambda>s. getNewTCRFromTroveChange (pr_pools s) collChange isCollIncrease netDebtChange isDebtIncrease price)) (\<lambda>newTCR.
        ensure (CCR \<le> newTCR) ''BorrowerOps: An operation that would result in TCR < CCR is not permitted'')))"

definition updateTroveFromAdjustment :: "address \<Rightarrow> uint \<Rightarrow> bool \<Rightarrow> uint \<Rightarrow> bool \<Rightarrow> ('t, 'm, 'd, unit) op" where
  "updateTroveFromAdjustment borrower collChange isCollIncrease debtChange isDebtIncrease =
     bind_io (on_tm (\<lambda>self m. bind_res (if isCollIncrease then increaseTroveColl self borrower collChange m
         else decreaseTroveColl self borrower collChange m) (\<lambda>(_, m'). Inr m'))) (\<lambda>_.
     on_tm (\<lambda>self m. bind_res (if isDebtIncrease then increaseTroveDebt self borrower debtChange m
         else decreaseTroveDebt self borrower debtChange m) (\<lambda>(_, m'). Inr m')))"

definition moveTokensAndWSTETHfromAdjustment ::
    "('t, 'm, 'p, 'd) env \<Rightarrow> address \<Rightarrow> uint \<Rightarrow> bool \<Rightarrow> uint \<Rightarrow> bool \<Rightarrow> uint \<Rightarrow> ('t, 'm, 'd, unit) op" where
  "moveTokensAndWSTETHfromAdjustment E borrower collChange isCollIncrease SIMChange isDebtIncrease netDebtChange =
     bind_io (if isDebtIncrease then withdrawSIM_from_pool E borrower SIMChange netDebtChange
        else repaySIM_to_pool E borrower SIMChange) (\<lambda>_.
     bind_io (gets (\<lambda>s. Inr (bo_self (pr_bo s)))) (\<lambda>self.
     on_pools (if isCollIncrease then activePoolAddColl (en_wsteth E) collChange
        else sendWSTETH (en_wsteth E) self borrower collChange)))"

text \<open>The guards before the pending rewards are applied; the result is the balance of the contract.\<close>

definition adjust_guards ::
    "('t, 'm, 'p, 'd) env \<Rightarrow> address \<Rightarrow> address \<Rightarrow> uint \<Rightarrow> uint \<Rightarrow> bool \<Rightarrow> uint \<Rightarrow> bool \<Rightarrow> ('t, 'm, 'd, uint) op" where
  "adjust_guards E sender borrower collWithdrawal SIMChange isDebtIncrease maxFee isRecoveryMode =
     bind_io (if isDebtIncrease then
         bind_io (requireValidMaxFeePercentage maxFee isRecoveryMode) (\<lambda>_.
         ensure (0 < SIMChange) ''BorrowerOps: Debt increase requires non-zero debtChange'')
       else return_io ()) (\<lambda>_.
     bind_io (requireSingularCollChange E collWithdrawal) (\<lambda>_.
     bind_io (requireNonZeroAdjustment E collWithdrawal SIMChange) (\<lambda>_.
     bind_io (requireTroveisActive borrower) (\<lambda>_.
     bind_io (gets (\<lambda>s. Inr (bo_balance E s))) (\<lambda>b.
     bind_io (gets (\<lambda>s. if sender = borrower \<or> (sender = bo_stabilityPoolAddress (pr_bo s) \<and> 0 < b \<and> SIMChange = 0)
         then Inr () else Inl Panic)) (\<lambda>_.
     return_io b))))))"

text \<open>The guards of a repayment.\<close>

definition repayment_guards :: "('t, 'm, 'p, 'd) env \<Rightarrow> address \<Rightarrow> uint \<Rightarrow> uint \<Rightarrow> ('t, 'm, 'd, unit) op" where
  "repayment_guards E borrower debt netDebtChange =
     bind_io (lift_io (u_sub (getNetDebt debt) netDebtChange)) (\<lambda>left.
     bind_io (ensure (MIN_NET_DEBT \<le> left) ''BorrowerOps: Trove's net debt must be greater than minimum'') (\<lambda>_.
     bind_io (ensure (netDebtChange \<le> debt) ''BorrowerOps: Amount repaid must not be larger than the Trove's debt'') (\<lambda>_.
     requireSufficientSIMBalance E borrower netDebtChange)))"

definition adjustTrove_internal ::
    "('t, 'm, 'p, 'd) env \<Rightarrow> address \<Rightarrow> address \<Rightarrow> uint \<Rightarrow> uint \<Rightarrow> bool \<Rightarrow> address \<Rightarrow> address \<Rightarrow> uint \<Rightarrow> ('t, 'm, 'd, unit) op" where
  "adjustTrove_internal E sender borrower collWithdrawal SIMChange isDebtIncrease upperHint lowerHint maxFee =
     bind_io (fetch_price E) (\<lambda>price.
     bind_io (gets (\<lambda>s. checkRecoveryMode (pr_pools s) price)) (\<lambda>isRecoveryMode.
     bind_io (adjust_guards E sender borrower collWithdrawal SIMChange isDebtIncrease maxFee isRecoveryMode) (\<lambda>b.
     bind_io (apply_pending E borrower) (\<lambda>_.
     let (collChange, isCollIncrease) = getCollChange b collWithdrawal in
     bind_io (borrowing_fee_unless E (\<not> isDebtIncrease \<or> isRecoveryMode) SIMChange maxFee) (\<lambda>SIMFee.
     bind_io (lift_io (u_add SIMChange SIMFee)) (\<lambda>netDebtChange.
     bind_io (gets (\<lambda>s. Inr (Troves (pr_tm s) borrower))) (\<lambda>t.
     let debt = tr_debt t; coll = tr_coll t in
     bind_io (lift_io (computeCR coll debt price)) (\<lambda>oldICR.
     bind_io (lift_io (getNewICRFromTroveChange coll debt collChange isCollIncrease netDebtChange isDebtIncrease price)) (\<lambda>newICR.
     bind_io (assert_io (collWithdrawal \<le> coll)) (\<lambda>_.
     bind_io (requireValidAdjustmentInCurrentMode isRecoveryMode collWithdrawal isDebtIncrease oldICR newICR collChange isCollIncrease
         netDebtChange price) (\<lambda>_.
     bind_io (if \<not> isDebtIncrease \<and> 0 < SIMChange then repayment_guards E borrower debt netDebtChange else return_io ()) (\<lambda>_.
     bind_io (updateTroveFromAdjustment borrower collChange isCollIncrease netDebtChange isDebtIncrease) (\<lambda>_.
     bind_io (update_stake borrower) (\<lambda>_.
     bind_io (lift_io (getNewNominalICRFromTroveChange coll debt collChange isCollIncrease netDebtChange isDebtIncrease)) (\<lambda>newNICR.
     bind_io (on_list (\<lambda>s. reInsert_trove (nicr_of (pr_tm s)) (pr_list s) (bo_self (pr_bo s)) borrower newNICR upperHint lowerHint)) (\<lambda>_.
     moveTokensAndWSTETHfromAdjustment E sender collChange isCollIncrease SIMChange isDebtIncrease netDebtChange))))))))))))))))"

definition addColl :: "('t, 'm, 'p, 'd) env \<Rightarrow> address \<Rightarrow> uint \<Rightarrow> address \<Rightarrow> address \<Rightarrow> ('t, 'm, 'd, unit) op" where
  "addColl E sender amount upperHint lowerHint =
     transaction (bind_io (take_WSTETH E sender amount) (\<lambda>_.
       adjustTrove_internal E sender sender 0 0 False upperHint lowerHint 0))"

definition moveWSTETHGainToTrove :: "('t, 'm, 'p, 'd) env \<Rightarrow> address \<Rightarrow> address \<Rightarrow> address \<Rightarrow> address \<Rightarrow> ('t, 'm, 'd, unit) op" where
  "moveWSTETHGainToTrove E sender borrower upperHint lowerHint =
     transaction (bind_io (gets (\<lambda>s. require (sender = bo_stabilityPoolAddress (pr_bo s)) ''BorrowerOps: Caller is not Stability Pool'')) (\<lambda>_.
       adjustTrove_internal E sender borrower 0 0 False upperHint lowerHint 0))"

definition withdrawColl :: "('t, 'm, 'p, 'd) env \<Rightarrow> address \<Rightarrow> uint \<Rightarrow> address \<Rightarrow> address \<Rightarrow> ('t, 'm, 'd, unit) op" where
  "withdrawColl E sender collWithdrawal upperHint lowerHint =
     transaction (adjustTrove_internal E sender sender collWithdrawal 0 False upperHint lowerHint 0)"

definition withdrawSIM :: "('t, 'm, 'p, 'd) env \<Rightarrow> address \<Rightarrow> uint \<Rightarrow> uint \<Rightarrow> address \<Rightarrow> address \<Rightarrow> ('t, 'm, 'd, unit) op" where
  "withdrawSIM E sender maxFee SIMAmount upperHint lowerHint =
     transaction (adjustTrove_internal E sender sender 0 SIMAmount True upperHint lowerHint maxFee)"

definition repaySIM :: "('t, 'm, 'p, 'd) env \<Rightarrow> address \<Rightarrow> uint \<Rightarrow> address \<Rightarrow> address \<Rightarrow> ('t, 'm, 'd, unit) op" where
  "repaySIM E sender SIMAmount upperHint lowerHint =
     transaction (adjustTrove_internal E sender sender 0 SIMAmount False upperHint lowerHint 0)"

definition adjustTrove ::
    "('t, 'm, 'p, 'd) env \<Rightarrow> address \<Rightarrow> uint \<Rightarrow> uint \<Rightarrow> uint \<Rightarrow> uint \<Rightarrow> bool \<Rightarrow> address \<Rightarrow> address \<Rightarrow> ('t, 'm, 'd, unit) op" where
  "adjustTrove E sender addColAmount maxFee collWithdrawal SIMChange isDebtIncrease upperHint lowerHint =
     transaction (bind_io (if 0 < addColAmount then take_WSTETH E sender addColAmount else return_io ()) (\<lambda>_.
       adjustTrove_internal E sender sender collWithdrawal SIMChange isDebtIncrease upperHint lowerHint maxFee))"

section \<open>Closing a trove, claiming a surplus, setting addresses\<close>

text \<open>The external \<open>closeTrove\<close> of the trove manager.\<close>

definition close_in_books :: "address \<Rightarrow> ('t, 'm, 'd, unit) op" where
  "close_in_books borrower s =
     (case callerIsBorrowerOperations (pr_tm s) (bo_self (pr_bo s)) of
        Inl e \<Rightarrow> Some (Inl e, s)
      | Inr _ \<Rightarrow> (case closeTrove borrower ClosedByOwner (pr_tm s, pr_list s) of
          None \<Rightarrow> None
        | Some (Inl e) \<Rightarrow> Some (Inl e, s)
        | Some (Inr (m, st)) \<Rightarrow> Some (Inr (), s\<lparr>pr_tm := m, pr_list := st\<rparr>)))"

definition bo_closeTrove :: "('t, 'm, 'p, 'd) env \<Rightarrow> address \<Rightarrow> ('t, 'm, 'd, unit) op" where
  "bo_closeTrove E sender =
     transaction (
     bind_io (requireTroveisActive sender) (\<lambda>_.
     bind_io (fetch_price E) (\<lambda>price.
     bind_io (gets (\<lambda>s. checkRecoveryMode (pr_pools s) price)) (\<lambda>isRecoveryMode.
     bind_io (ensure (\<not> isRecoveryMode) ''BorrowerOps: Operation not permitted during Recovery Mode'') (\<lambda>_.
     bind_io (apply_pending E sender) (\<lambda>_.
     bind_io (gets (\<lambda>s. Inr (Troves (pr_tm s) sender))) (\<lambda>t.
     let coll = tr_coll t; debt = tr_debt t in
     bind_io (requireSufficientSIMBalance E sender debt) (\<lambda>_.
     bind_io (gets (\<lambda>s. getNewTCRFromTroveChange (pr_pools s) coll False debt False price)) (\<lambda>newTCR.
     bind_io (ensure (CCR \<le> newTCR) ''BorrowerOps: An operation that would result in TCR < CCR is not permitted'') (\<lambda>_.
     bind_io (on_tm (\<lambda>self m. bind_res (callerIsBorrowerOperations m self) (\<lambda>_. removeStake sender m))) (\<lambda>_.
     bind_io (close_in_books sender) (\<lambda>_.
     bind_io (repaySIM_to_pool E sender debt) (\<lambda>_.
     bind_io (gets (\<lambda>s. Inr (bo_self (pr_bo s)))) (\<lambda>self.
     on_pools (sendWSTETH (en_wsteth E) self sender coll)))))))))))))))"

definition claimCollateral :: "('t, 'm, 'p, 'd) env \<Rightarrow> address \<Rightarrow> ('t, 'm, 'd, unit) op" where
  "claimCollateral E sender =
     transaction (bind_io (gets (\<lambda>s. Inr (bo_self (pr_bo s)))) (\<lambda>self. on_pools (claimColl (en_wsteth E) self sender)))"

definition borrowerOperations_setAddresses ::
    "(address \<Rightarrow> bool) \<Rightarrow> address \<Rightarrow> address \<Rightarrow> address \<Rightarrow> address \<Rightarrow> address \<Rightarrow> address \<Rightarrow> address \<Rightarrow> address \<Rightarrow> address \<Rightarrow> address \<Rightarrow> address
      \<Rightarrow> address \<Rightarrow> borrower_operations \<Rightarrow> revert + borrower_operations" where
  "borrowerOperations_setAddresses is_contract sender wst troveManager activePoolA defaultPoolA stabilityPool collSurplusPoolA priceFeed
      sortedTroves simToken simVeDistributor feeReceiver b =
     bind_res (only_owner (bo_owner b) sender) (\<lambda>_.
     if \<not> 0 < MIN_NET_DEBT then Inl Panic
     else bind_res (checkContracts is_contract [wst, troveManager, activePoolA, defaultPoolA, stabilityPool, collSurplusPoolA, priceFeed,
        sortedTroves, simToken, simVeDistributor]) (\<lambda>_.
     Inr (b\<lparr>bo_WSTETHAddress := wst, bo_troveManager := troveManager, bo_activePool := activePoolA, bo_defaultPool := defaultPoolA,
            bo_stabilityPoolAddress := stabilityPool, bo_collSurplusPool := collSurplusPoolA, bo_priceFeed := priceFeed,
            bo_sortedTroves := sortedTroves, bo_simToken := simToken, bo_simVeDistributor := simVeDistributor,
            bo_feeReceiver := feeReceiver, bo_owner := 0\<rparr>)))"

section \<open>Frames\<close>

text \<open>What the calls that are not to the pools leave alone.\<close>

named_theorems frames \<open>what a call that returns leaves as it was\<close>

lemma gets_returns [res_simps]: "gets f s = Some (Inr a, s') \<longleftrightarrow> f s = Inr a \<and> s' = s"
  by (auto simp: gets_def)

lemma modify_returns [res_simps]: "modify f s = Some (Inr a, s') \<longleftrightarrow> f s = Inr s'"
  by (auto simp: modify_def split: sum.splits)

lemma lift_returns [res_simps]: "lift_io r s = Some (Inr a, s') \<longleftrightarrow> r = Inr a \<and> s' = s"
  by (auto simp: lift_io_def)

lemma ensure_returns [res_simps]: "ensure b m s = Some (Inr a, s') \<longleftrightarrow> b \<and> s' = s"
  by (auto simp: ensure_def lift_io_def require_def)

lemma assert_returns [res_simps]: "assert_io b s = Some (Inr a, s') \<longleftrightarrow> b \<and> s' = s"
  by (auto simp: assert_io_def lift_io_def)

lemma on_pools_returns [res_simps]:
  "on_pools f s = Some (Inr a, s') \<longleftrightarrow> (\<exists>p. f (pr_pools s) = Inr p \<and> s' = s\<lparr>pr_pools := p\<rparr>)"
  by (auto simp: on_pools_def modify_returns bind_res_eq_Inr)

lemma on_tm_frame [frames]: "on_tm f s = Some (Inr a, s') \<Longrightarrow> pr_pools s' = pr_pools s"
  by (auto simp: on_tm_def modify_returns bind_res_eq_Inr)

lemma on_list_frame [frames]: "on_list f s = Some (Inr a, s') \<Longrightarrow> pr_pools s' = pr_pools s"
  by (auto simp: on_list_def split: option.splits sum.splits)

lemma on_sim_frame [frames]: "on_sim f s = Some (Inr a, s') \<Longrightarrow> pr_pools s' = pr_pools s"
  by (auto simp: on_sim_def modify_returns bind_res_eq_Inr)

lemma fetch_price_frame [frames]: "fetch_price E s = Some (Inr price, s') \<Longrightarrow> pr_pools s' = pr_pools s"
  by (auto simp: fetch_price_def split: sum.splits)

lemma triggerBorrowingFee_frame [frames]:
  assumes "triggerBorrowingFee E n maxFee s = Some (Inr fee, s')"
  shows "pr_pools s' = pr_pools s"
proof -
  obtain s1 s2 s3 where s: "on_tm (decayBaseRateFromBorrowing (or_now (en_oracles E))) s = Some (Inr (), s1)"
      "on_sim (\<lambda>self c. sim_mint (en_oz E) c self (bo_simVeDistributor (pr_bo s1)) (fee div 2)) s1 = Some (Inr (), s2)"
      "modify (\<lambda>s. bind_res (en_checkpoint E (bo_simVeDistributor (pr_bo s1)) (pr_dist s)) (\<lambda>d. Inr (s\<lparr>pr_dist := d\<rparr>))) s2 = Some (Inr (), s3)"
      "on_sim (\<lambda>self c. sim_mint (en_oz E) c self (bo_feeReceiver (pr_bo s1)) (fee - fee div 2)) s3 = Some (Inr (), s')"
    using assms by (auto simp: triggerBorrowingFee_def bind_io_eq_Inr gets_returns lift_returns)
  have "pr_pools s3 = pr_pools s2" using s(3) by (auto simp: modify_returns bind_res_eq_Inr)
  then show ?thesis using on_tm_frame [OF s(1)] on_sim_frame [OF s(2)] on_sim_frame [OF s(4)] by simp
qed

lemma borrowing_fee_frame [frames]: "borrowing_fee_unless E free n maxFee s = Some (Inr fee, s') \<Longrightarrow> pr_pools s' = pr_pools s"
  by (auto simp: borrowing_fee_unless_def triggerBorrowingFee_frame split: if_splits)

lemma record_trove_frame [frames]:
  assumes "record_trove a n d i u l s = Some (Inr x, s')"
  shows "pr_pools s' = pr_pools s"
  using assms unfolding record_trove_def update_stake_def
  by (auto simp: bind_io_eq_Inr dest!: on_tm_frame on_list_frame)

lemma updateTroveFromAdjustment_frame [frames]:
  "updateTroveFromAdjustment a c ci d di s = Some (Inr x, s') \<Longrightarrow> pr_pools s' = pr_pools s"
  by (auto simp: updateTroveFromAdjustment_def bind_io_eq_Inr dest!: on_tm_frame)

lemma update_stake_frame [frames]: "update_stake a s = Some (Inr x, s') \<Longrightarrow> pr_pools s' = pr_pools s"
  unfolding update_stake_def by (rule on_tm_frame)

lemma transaction_returns [res_simps]: "transaction m s = Some (Inr a, s') \<longleftrightarrow> m s = Some (Inr a, s')"
  by (auto simp: transaction_def split: option.splits sum.splits)

section \<open>The totals of the system\<close>

text \<open>The collateral and the debt that the active and the default pool record together.\<close>

definition totals :: "'t pools \<Rightarrow> uint \<times> uint" where
  "totals p = (ap_WSTETH (activePool p) + dp_WSTETH (defaultPool p), ap_SIMDebt (activePool p) + dp_SIMDebt (defaultPool p))"

definition chg :: "bool \<Rightarrow> uint \<Rightarrow> uint \<Rightarrow> uint" where
  "chg increase x n = (if increase then x + n else x - n)"

lemma checkRecoveryMode_totals: "totals p = totals q \<Longrightarrow> checkRecoveryMode p price = checkRecoveryMode q price"
  by (simp add: totals_def checkRecoveryMode_def getTCR_def getEntireSystemColl_def getEntireSystemDebt_def u_add_def)

lemma newTCR_totals:
  assumes "getNewTCRFromTroveChange p n ci d di price = Inr TCR"
    and "totals q = (chg ci (fst (totals p)) n, chg di (snd (totals p)) d)"
  shows "getTCR q price = Inr TCR"
  using assms
  by (auto simp: getNewTCRFromTroveChange_def getEntireSystemColl_def getEntireSystemDebt_def getTCR_def totals_def chg_def changed_def
      bind_res_eq_Inr checked_Inr split: if_splits)

lemma newTCR_fits:
  assumes "getNewTCRFromTroveChange p n ci d di price = Inr TCR"
  shows "\<not> ci \<Longrightarrow> n \<le> fst (totals p)" and "\<not> di \<Longrightarrow> d \<le> snd (totals p)"
  using assms
  by (auto simp: getNewTCRFromTroveChange_def getEntireSystemColl_def getEntireSystemDebt_def totals_def changed_def
      bind_res_eq_Inr checked_Inr split: if_splits)

lemma transfer_WSTETH_totals: "transfer_WSTETH tok a b n p = Inr p' \<Longrightarrow> totals p' = totals p \<and> activePool p' = activePool p"
  by (auto simp: transfer_WSTETH_def bind_res_eq_Inr totals_def split: if_splits prod.splits)

lemma activePoolAddColl_totals:
  assumes "activePoolAddColl tok n p = Inr p'"
  shows "totals p' = (fst (totals p) + n, snd (totals p))"
proof -
  obtain p1 where p1: "transfer_WSTETH tok (ap_borrowerOperationsAddress (activePool p)) (at_activePool p) n p = Inr p1"
      "activePool_receiveWSTETH (ap_borrowerOperationsAddress (activePool p)) n p1 = Inr p'"
    using assms by (auto simp: activePoolAddColl_def Let_def bind_res_eq_Inr)
  have "p' = p1\<lparr>activePool := (activePool p1)\<lparr>ap_WSTETH := ap_WSTETH (activePool p1) + n\<rparr>\<rparr>"
    using p1(2) by (auto simp: activePool_receiveWSTETH_def Let_def bind_res_eq_Inr checked_Inr split: if_splits)
  then show ?thesis using transfer_WSTETH_totals [OF p1(1)] by (auto simp: totals_def)
qed

lemma debt_totals:
  "activePool_increaseSIMDebt a n p = Inr p' \<Longrightarrow> totals p' = (fst (totals p), snd (totals p) + n)"
  "activePool_decreaseSIMDebt a n p = Inr p' \<Longrightarrow> totals p' = (fst (totals p), snd (totals p) - n)"
  "defaultPool_decreaseSIMDebt a n p = Inr p1 \<Longrightarrow> activePool_increaseSIMDebt a n p1 = Inr p2 \<Longrightarrow> totals p2 = totals p"
  by (auto simp: activePool_increaseSIMDebt_def activePool_decreaseSIMDebt_def defaultPool_decreaseSIMDebt_def callerIsBOorTroveM_def
      callerIsBOorTroveMorSP_def bind_res_eq_Inr checked_Inr totals_def split: if_splits)

lemma sendWSTETHToActivePool_totals:
  assumes "sendWSTETHToActivePool tok a n p = Inr p'"
  shows "totals p' = totals p"
proof -
  define p0 where "p0 = p\<lparr>defaultPool := (defaultPool p)\<lparr>dp_WSTETH := dp_WSTETH (defaultPool p) - n\<rparr>\<rparr>"
  obtain p1 where p1: "n \<le> dp_WSTETH (defaultPool p)"
      "transfer_WSTETH tok (at_defaultPool p) (dp_activePoolAddress (defaultPool p)) n p0 = Inr p1"
      "activePool_receiveWSTETH (at_defaultPool p) n p1 = Inr p'"
    using assms unfolding p0_def by (auto simp: sendWSTETHToActivePool_def Let_def bind_res_eq_Inr checked_Inr split: if_splits)
  have "p' = p1\<lparr>activePool := (activePool p1)\<lparr>ap_WSTETH := ap_WSTETH (activePool p1) + n\<rparr>\<rparr>"
    using p1(3) by (auto simp: activePool_receiveWSTETH_def Let_def bind_res_eq_Inr checked_Inr split: if_splits)
  then show ?thesis using transfer_WSTETH_totals [OF p1(2)] p1(1) by (auto simp: totals_def p0_def)
qed

lemma other_reports_totals:
  "when_res b (stabilityPool_receiveWSTETH a n) p = Inr p' \<Longrightarrow> totals p' = totals p"
  "when_res b (collSurplusPool_receiveWSTETH a n) p = Inr p' \<Longrightarrow> totals p' = totals p"
  by (auto simp: when_res_def stabilityPool_receiveWSTETH_def collSurplusPool_receiveWSTETH_def totals_def Let_def bind_res_eq_Inr
      split: if_splits)

lemma sendWSTETH_totals:
  assumes "sendWSTETH tok sender account n p = Inr p'" and "account \<noteq> ap_defaultPoolAddress (activePool p)"
  shows "totals p' = (fst (totals p) - n, snd (totals p))"
proof -
  define p0 where "p0 = p\<lparr>activePool := (activePool p)\<lparr>ap_WSTETH := ap_WSTETH (activePool p) - n\<rparr>\<rparr>"
  obtain p1 p2 where p1: "n \<le> ap_WSTETH (activePool p)" "transfer_WSTETH tok (at_activePool p) account n p0 = Inr p1"
      "when_res (account = ap_stabilityPoolAddress (activePool p)) (stabilityPool_receiveWSTETH (at_activePool p) n) p1 = Inr p2"
      "when_res (account = ap_collSurplusPoolAddress (activePool p)) (collSurplusPool_receiveWSTETH (at_activePool p) n) p2 = Inr p'"
    using assms unfolding p0_def
    by (auto simp: sendWSTETH_def callerIsBOorTroveMorSP_def Let_def bind_res_eq_Inr checked_Inr when_res_def [of False] split: if_splits)
  have "totals p' = totals p0"
    using transfer_WSTETH_totals [OF p1(2)] other_reports_totals(1) [OF p1(3)] other_reports_totals(2) [OF p1(4)] by simp
  then show ?thesis using p1(1) by (simp add: totals_def p0_def)
qed

lemma applyPendingRewards_totals:
  assumes "applyPendingRewards tok a (m, p) = Inr (m', p')"
  shows "totals p' = totals p"
proof (cases "hasPendingRewards m a")
  case False
  then show ?thesis using assms by (simp add: applyPendingRewards_def)
next
  case True
  then obtain m' x y where "movePendingTroveRewardsToActivePool tok m' x y p = Inr p'"
    using assms by (auto simp: applyPendingRewards_def bind_res_eq_Inr Let_def)
  then show ?thesis
    using debt_totals(3) sendWSTETHToActivePool_totals
    by (fastforce simp: movePendingTroveRewardsToActivePool_def bind_res_eq_Inr)
qed

lemma apply_pending_totals: "apply_pending E a s = Some (Inr x, s') \<Longrightarrow> totals (pr_pools s') = totals (pr_pools s)"
  by (auto simp: apply_pending_def modify_returns bind_res_eq_Inr applyPendingRewards_totals split: prod.splits)

lemma withdrawSIM_totals:
  assumes "withdrawSIM_from_pool E a n d s = Some (Inr x, s')"
  shows "totals (pr_pools s') = (fst (totals (pr_pools s)), snd (totals (pr_pools s)) + d)"
  using assms by (auto simp: withdrawSIM_from_pool_def bind_io_eq_Inr gets_returns on_pools_returns dest!: on_sim_frame debt_totals(1))

lemma repaySIM_totals:
  assumes "repaySIM_to_pool E a n s = Some (Inr x, s')"
  shows "totals (pr_pools s') = (fst (totals (pr_pools s)), snd (totals (pr_pools s)) - n)"
  using assms by (auto simp: repaySIM_to_pool_def bind_io_eq_Inr gets_returns on_pools_returns dest!: on_sim_frame debt_totals(2))

text \<open>The wiring that the payments rely on stays as it is.\<close>

definition pool_of_default :: "('t, 'm, 'd) protocol \<Rightarrow> address" where
  "pool_of_default s = ap_defaultPoolAddress (activePool (pr_pools s))"

lemma debt_wiring:
  "activePool_increaseSIMDebt a n p = Inr p' \<Longrightarrow> ap_defaultPoolAddress (activePool p') = ap_defaultPoolAddress (activePool p)"
  "activePool_decreaseSIMDebt a n p = Inr p' \<Longrightarrow> ap_defaultPoolAddress (activePool p') = ap_defaultPoolAddress (activePool p)"
  "defaultPool_decreaseSIMDebt a n p = Inr p' \<Longrightarrow> ap_defaultPoolAddress (activePool p') = ap_defaultPoolAddress (activePool p)"
  by (auto simp: activePool_increaseSIMDebt_def activePool_decreaseSIMDebt_def defaultPool_decreaseSIMDebt_def callerIsBOorTroveM_def
      callerIsBOorTroveMorSP_def bind_res_eq_Inr split: if_splits)

lemma sendWSTETHToActivePool_wiring:
  assumes "sendWSTETHToActivePool tok a n p = Inr p'"
  shows "ap_defaultPoolAddress (activePool p') = ap_defaultPoolAddress (activePool p)"
proof -
  define p0 where "p0 = p\<lparr>defaultPool := (defaultPool p)\<lparr>dp_WSTETH := dp_WSTETH (defaultPool p) - n\<rparr>\<rparr>"
  obtain p1 where p1: "transfer_WSTETH tok (at_defaultPool p) (dp_activePoolAddress (defaultPool p)) n p0 = Inr p1"
      "activePool_receiveWSTETH (at_defaultPool p) n p1 = Inr p'"
    using assms unfolding p0_def by (auto simp: sendWSTETHToActivePool_def Let_def bind_res_eq_Inr checked_Inr split: if_splits)
  have "p' = p1\<lparr>activePool := (activePool p1)\<lparr>ap_WSTETH := ap_WSTETH (activePool p1) + n\<rparr>\<rparr>"
    using p1(2) by (auto simp: activePool_receiveWSTETH_def Let_def bind_res_eq_Inr checked_Inr split: if_splits)
  then show ?thesis using transfer_WSTETH_totals [OF p1(1)] by (simp add: p0_def)
qed

lemma apply_pending_wiring:
  assumes "apply_pending E a s = Some (Inr x, s')"
  shows "pool_of_default s' = pool_of_default s"
proof -
  obtain m p where r: "applyPendingRewards (en_wsteth E) a (pr_tm s, pr_pools s) = Inr (m, p)" and s': "s' = s\<lparr>pr_tm := m, pr_pools := p\<rparr>"
    using assms by (auto simp: apply_pending_def modify_returns bind_res_eq_Inr split: prod.splits)
  have "ap_defaultPoolAddress (activePool p) = ap_defaultPoolAddress (activePool (pr_pools s))"
  proof (cases "hasPendingRewards (pr_tm s) a")
    case False
    then show ?thesis using r by (simp add: applyPendingRewards_def)
  next
    case True
    then obtain m' x y where "movePendingTroveRewardsToActivePool (en_wsteth E) m' x y (pr_pools s) = Inr p"
      using r by (auto simp: applyPendingRewards_def bind_res_eq_Inr Let_def)
    then obtain p1 p2 where "defaultPool_decreaseSIMDebt (tm_self m') x (pr_pools s) = Inr p1"
        "activePool_increaseSIMDebt (tm_self m') x p1 = Inr p2" "sendWSTETHToActivePool (en_wsteth E) (tm_self m') y p2 = Inr p"
      by (auto simp: movePendingTroveRewardsToActivePool_def bind_res_eq_Inr)
    then show ?thesis using debt_wiring(1,3) sendWSTETHToActivePool_wiring by metis
  qed
  then show ?thesis by (simp add: s' pool_of_default_def)
qed

lemma SIM_wiring:
  "withdrawSIM_from_pool E a n d s = Some (Inr x, s') \<Longrightarrow> pool_of_default s' = pool_of_default s"
  "repaySIM_to_pool E a n s = Some (Inr x, s') \<Longrightarrow> pool_of_default s' = pool_of_default s"
  by (auto simp: withdrawSIM_from_pool_def repaySIM_to_pool_def pool_of_default_def bind_io_eq_Inr gets_returns on_pools_returns
      dest!: on_sim_frame debt_wiring(1,2))

end
