(* ===== verification/Trove_Books.thy ===== *)
theory Trove_Books
  imports Borrower_Operations
begin

text \<open>
  What the operations of the borrowers do to the books of the whole system: the entries of the troves in
  the trove manager against the records of the active pool, and the collateralisation of the system.
\<close>

section \<open>The books balance\<close>

text \<open>
  The active pool records exactly the collateral and the debt of the troves. An operation of a borrower
  changes the entry of one trove, and the records of the active pool by the same amounts; the two
  changes are made by different calls, so a call is described by what it adds to each of them.
\<close>

definition books_balance :: "trove_manager \<Rightarrow> 't pools \<Rightarrow> bool" where
  "books_balance m p \<longleftrightarrow>
     (\<exists>A. finite A \<and> (\<forall>a. a \<notin> A \<longrightarrow> tr_coll (Troves m a) = 0 \<and> tr_debt (Troves m a) = 0)
        \<and> (\<Sum>a\<in>A. tr_coll (Troves m a)) = ap_WSTETH (activePool p)
        \<and> (\<Sum>a\<in>A. tr_debt (Troves m a)) = ap_SIMDebt (activePool p))"

text \<open>The entry of \<open>b\<close> and the records of the active pool have moved together.\<close>

definition moved_together :: "address \<Rightarrow> trove_manager \<Rightarrow> 't pools \<Rightarrow> trove_manager \<Rightarrow> 't pools \<Rightarrow> bool" where
  "moved_together b m p m' p' \<longleftrightarrow>
     (\<forall>a. a \<noteq> b \<longrightarrow> tr_coll (Troves m' a) = tr_coll (Troves m a) \<and> tr_debt (Troves m' a) = tr_debt (Troves m a))
     \<and> tr_coll (Troves m' b) + ap_WSTETH (activePool p) = tr_coll (Troves m b) + ap_WSTETH (activePool p')
     \<and> tr_debt (Troves m' b) + ap_SIMDebt (activePool p) = tr_debt (Troves m b) + ap_SIMDebt (activePool p')"

lemma sum_one_changed:
  fixes f g :: "nat \<Rightarrow> nat"
  assumes "finite A" and "b \<in> A" and "\<And>a. a \<noteq> b \<Longrightarrow> g a = f a"
  shows "(\<Sum>a\<in>A. g a) + f b = (\<Sum>a\<in>A. f a) + g b"
proof -
  have "(\<Sum>a\<in>A - {b}. g a) = (\<Sum>a\<in>A - {b}. f a)" by (rule sum.cong) (auto simp: assms(3))
  then show ?thesis using assms(1,2) by (simp add: sum.remove [of A b])
qed

lemma moved_together_balance:
  assumes "books_balance m p" and "moved_together b m p m' p'"
  shows "books_balance m' p'"
proof -
  obtain A where A: "finite A" "\<forall>a. a \<notin> A \<longrightarrow> tr_coll (Troves m a) = 0 \<and> tr_debt (Troves m a) = 0"
      "(\<Sum>a\<in>A. tr_coll (Troves m a)) = ap_WSTETH (activePool p)" "(\<Sum>a\<in>A. tr_debt (Troves m a)) = ap_SIMDebt (activePool p)"
    using assms(1) unfolding books_balance_def by blast
  have same: "\<And>a. a \<noteq> b \<Longrightarrow> tr_coll (Troves m' a) = tr_coll (Troves m a) \<and> tr_debt (Troves m' a) = tr_debt (Troves m a)"
    using assms(2) unfolding moved_together_def by blast
  have wider: "(\<Sum>a\<in>insert b A. tr_coll (Troves m a)) = (\<Sum>a\<in>A. tr_coll (Troves m a))"
      "(\<Sum>a\<in>insert b A. tr_debt (Troves m a)) = (\<Sum>a\<in>A. tr_debt (Troves m a))"
    using A(1,2) by (cases "b \<in> A"; simp add: insert_absorb)+
  have "(\<Sum>a\<in>insert b A. tr_coll (Troves m' a)) + tr_coll (Troves m b) = (\<Sum>a\<in>insert b A. tr_coll (Troves m a)) + tr_coll (Troves m' b)"
    and "(\<Sum>a\<in>insert b A. tr_debt (Troves m' a)) + tr_debt (Troves m b) = (\<Sum>a\<in>insert b A. tr_debt (Troves m a)) + tr_debt (Troves m' b)"
    using A(1) same by (auto intro!: sum_one_changed)
  then have "(\<Sum>a\<in>insert b A. tr_coll (Troves m' a)) = ap_WSTETH (activePool p')"
    and "(\<Sum>a\<in>insert b A. tr_debt (Troves m' a)) = ap_SIMDebt (activePool p')"
    using assms(2) A(3,4) unfolding wider moved_together_def by linarith+
  moreover have "\<forall>a. a \<notin> insert b A \<longrightarrow> tr_coll (Troves m' a) = 0 \<and> tr_debt (Troves m' a) = 0"
    using A(2) same by auto
  ultimately show ?thesis unfolding books_balance_def using A(1) by (intro exI [of _ "insert b A"]) simp
qed

lemma moved_together_refl: "moved_together b m p m p"
  by (simp add: moved_together_def)

lemma moved_together_trans:
  "moved_together b m p m1 p1 \<Longrightarrow> moved_together b m1 p1 m' p' \<Longrightarrow> moved_together b m p m' p'"
  unfolding moved_together_def by (intro conjI allI impI; linarith | simp)

text \<open>The entries of a trove that the pools have to follow.\<close>

definition entries :: "trove_manager \<Rightarrow> address \<Rightarrow> uint \<times> uint" where
  "entries m a = (tr_coll (Troves m a), tr_debt (Troves m a))"

definition records :: "'t pools \<Rightarrow> uint \<times> uint" where
  "records p = (ap_WSTETH (activePool p), ap_SIMDebt (activePool p))"

lemma moved_together_frame:
  "entries m' = entries m \<Longrightarrow> records p' = records p \<Longrightarrow> moved_together b m p m' p'"
  by (simp add: moved_together_def entries_def records_def fun_eq_iff)

lemma moved_together_change:
  assumes "entries m' = (entries m)(b := (chg ci (fst (entries m b)) n, chg di (snd (entries m b)) d))"
    and "records p' = (chg ci (fst (records p)) n, chg di (snd (records p)) d)"
    and "\<not> ci \<Longrightarrow> n \<le> fst (entries m b) \<and> n \<le> fst (records p)"
    and "\<not> di \<Longrightarrow> d \<le> snd (entries m b) \<and> d \<le> snd (records p)"
  shows "moved_together b m p m' p'"
proof -
  have other: "entries m' a = entries m a" if "a \<noteq> b" for a using assms(1) that by simp
  have self: "entries m' b = (chg ci (fst (entries m b)) n, chg di (snd (entries m b)) d)" using assms(1) by simp
  have "tr_coll (Troves m' a) = tr_coll (Troves m a) \<and> tr_debt (Troves m' a) = tr_debt (Troves m a)" if "a \<noteq> b" for a
    using other [OF that] by (simp add: entries_def)
  then show ?thesis using self assms(2-4) by (auto simp: moved_together_def entries_def records_def chg_def split: if_splits)
qed

subsection \<open>What the calls do to the entries\<close>

definition entries_of :: "('t, 'm, 'd) protocol \<Rightarrow> address \<Rightarrow> uint \<times> uint" where
  "entries_of s = entries (pr_tm s)"

definition records_of :: "('t, 'm, 'd) protocol \<Rightarrow> uint \<times> uint" where
  "records_of s = records (pr_pools s)"

lemma entries_upd_trove:
  "entries (upd_trove b f m) = (entries m)(b := (tr_coll (f (Troves m b)), tr_debt (f (Troves m b))))"
  by (simp add: entries_def upd_trove_def fun_eq_iff)

lemma entries_kept [simp]:
  "entries (m\<lparr>TroveOwners := x\<rparr>) = entries m" "entries (m\<lparr>totalStakes := n\<rparr>) = entries m"
  "entries (m\<lparr>rewardSnapshots := r\<rparr>) = entries m" "entries (m\<lparr>baseRate := n\<rparr>) = entries m"
  "entries (m\<lparr>lastFeeOperationTime := n\<rparr>) = entries m"
  by (simp_all add: entries_def fun_eq_iff)

lemma entries_same_trove:
  assumes "tr_coll (f (Troves m b)) = tr_coll (Troves m b)" and "tr_debt (f (Troves m b)) = tr_debt (Troves m b)"
  shows "entries (upd_trove b f m) = entries m"
  using assms by (simp add: entries_upd_trove) (simp add: entries_def fun_eq_iff)

lemma stake_entries:
  "updateStakeAndTotalStakes b m = Inr (n, m') \<Longrightarrow> entries m' = entries m"
  "removeStake b m = Inr m' \<Longrightarrow> entries m' = entries m"
  by (auto simp: updateStakeAndTotalStakes_def removeStake_def Let_def bind_res_eq_Inr checked_Inr entries_same_trove)

lemma decay_entries: "decayBaseRateFromBorrowing now sender m = Inr m' \<Longrightarrow> entries m' = entries m"
  by (auto simp: decayBaseRateFromBorrowing_def updateLastFeeOpTime_def callerIsBorrowerOperations_def bind_res_eq_Inr checked_Inr split: if_splits)

lemma owner_entries:
  "entries (snd (addTroveOwnerToArray b m)) = entries m"
  "removeTroveOwner b n m = Inr m' \<Longrightarrow> entries m' = entries m"
  by (auto simp: addTroveOwnerToArray_def removeTroveOwner_def Let_def bind_res_eq_Inr checked_Inr entries_same_trove split: if_splits)

lemma setter_entries:
  "setTroveStatus sender b k m = Inr m' \<Longrightarrow> entries m' = entries m"
  "entries (updateTroveRewardSnapshots b m) = entries m"
  by (auto simp: setTroveStatus_def updateTroveRewardSnapshots_def callerIsBorrowerOperations_def bind_res_eq_Inr entries_same_trove
      simp del: status_of_num.simps split: if_splits)

lemma change_entries:
  "increaseTroveColl sender b n m = Inr (c, m') \<Longrightarrow> entries m' = (entries m)(b := (fst (entries m b) + n, snd (entries m b)))"
  "increaseTroveDebt sender b n m = Inr (c, m') \<Longrightarrow> entries m' = (entries m)(b := (fst (entries m b), snd (entries m b) + n))"
  "decreaseTroveColl sender b n m = Inr (c, m') \<Longrightarrow>
     entries m' = (entries m)(b := (fst (entries m b) - n, snd (entries m b))) \<and> n \<le> fst (entries m b)"
  "decreaseTroveDebt sender b n m = Inr (c, m') \<Longrightarrow>
     entries m' = (entries m)(b := (fst (entries m b), snd (entries m b) - n)) \<and> n \<le> snd (entries m b)"
  by (auto simp: increaseTroveColl_def increaseTroveDebt_def decreaseTroveColl_def decreaseTroveDebt_def callerIsBorrowerOperations_def
      bind_res_eq_Inr checked_Inr entries_upd_trove entries_def split: if_splits)

lemma on_tm_returns: "on_tm f s = Some (Inr x, s') \<longleftrightarrow> (\<exists>m. f (bo_self (pr_bo s)) (pr_tm s) = Inr m \<and> s' = s\<lparr>pr_tm := m\<rparr>)"
  by (auto simp: on_tm_def modify_returns bind_res_eq_Inr)

lemma other_contracts_entries:
  "on_list f s = Some (Inr x, s') \<Longrightarrow> entries_of s' = entries_of s"
  "on_sim g s = Some (Inr x, s') \<Longrightarrow> entries_of s' = entries_of s"
  "on_pools h s = Some (Inr x, s') \<Longrightarrow> entries_of s' = entries_of s"
  "fetch_price E s = Some (Inr price, s') \<Longrightarrow> entries_of s' = entries_of s"
  by (auto simp: on_list_def on_sim_def on_pools_def fetch_price_def entries_of_def modify_returns bind_res_eq_Inr
      split: option.splits sum.splits)

lemma triggerBorrowingFee_entries:
  assumes "triggerBorrowingFee E n maxFee s = Some (Inr fee, s')"
  shows "entries_of s' = entries_of s"
proof -
  obtain s1 s2 s3 where s: "on_tm (decayBaseRateFromBorrowing (or_now (en_oracles E))) s = Some (Inr (), s1)"
      "on_sim (\<lambda>self c. sim_mint (en_oz E) c self (bo_simVeDistributor (pr_bo s1)) (fee div 2)) s1 = Some (Inr (), s2)"
      "modify (\<lambda>s. bind_res (en_checkpoint E (bo_simVeDistributor (pr_bo s1)) (pr_dist s)) (\<lambda>d. Inr (s\<lparr>pr_dist := d\<rparr>))) s2 = Some (Inr (), s3)"
      "on_sim (\<lambda>self c. sim_mint (en_oz E) c self (bo_feeReceiver (pr_bo s1)) (fee - fee div 2)) s3 = Some (Inr (), s')"
    using assms by (auto simp: triggerBorrowingFee_def bind_io_eq_Inr gets_returns lift_returns)
  have "entries_of s1 = entries_of s" using s(1) decay_entries by (auto simp: on_tm_returns entries_of_def)
  moreover have "entries_of s3 = entries_of s2" using s(3) by (auto simp: modify_returns bind_res_eq_Inr entries_of_def)
  ultimately show ?thesis using other_contracts_entries(2) [OF s(2)] other_contracts_entries(2) [OF s(4)] by simp
qed

lemma borrowing_fee_entries:
  "borrowing_fee_unless E free n maxFee s = Some (Inr fee, s') \<Longrightarrow> entries_of s' = entries_of s"
  by (auto simp: borrowing_fee_unless_def triggerBorrowingFee_entries split: if_splits)

lemma update_stake_entries: "update_stake b s = Some (Inr x, s') \<Longrightarrow> entries_of s' = entries_of s"
  by (auto simp: update_stake_def on_tm_returns callerIsBorrowerOperations_def bind_res_eq_Inr entries_of_def stake_entries(1) split: if_splits)

lemma chosen_change_entries:
  "(if ci then increaseTroveColl sender b n m else decreaseTroveColl sender b n m) = Inr (c, m') \<Longrightarrow>
     entries m' = (entries m)(b := (chg ci (fst (entries m b)) n, snd (entries m b))) \<and> (ci \<or> n \<le> fst (entries m b))"
  "(if di then increaseTroveDebt sender b d m else decreaseTroveDebt sender b d m) = Inr (c, m') \<Longrightarrow>
     entries m' = (entries m)(b := (fst (entries m b), chg di (snd (entries m b)) d)) \<and> (di \<or> d \<le> snd (entries m b))"
  using change_entries [where b = b and m = m and m' = m'] by (auto simp: chg_def split: if_splits)

lemma updateTroveFromAdjustment_entries:
  assumes "updateTroveFromAdjustment b n ci d di s = Some (Inr x, s')"
  shows "entries_of s' = (entries_of s)(b := (chg ci (fst (entries_of s b)) n, chg di (snd (entries_of s b)) d))"
    and "\<not> ci \<Longrightarrow> n \<le> fst (entries_of s b)" and "\<not> di \<Longrightarrow> d \<le> snd (entries_of s b)"
proof -
  obtain c1 m1 c2 m2 where m: "(if ci then increaseTroveColl (bo_self (pr_bo s)) b n (pr_tm s) else decreaseTroveColl (bo_self (pr_bo s)) b n (pr_tm s)) = Inr (c1, m1)"
      "(if di then increaseTroveDebt (bo_self (pr_bo s)) b d m1 else decreaseTroveDebt (bo_self (pr_bo s)) b d m1) = Inr (c2, m2)"
      "s' = s\<lparr>pr_tm := m2\<rparr>"
    using assms unfolding updateTroveFromAdjustment_def bind_io_eq_Inr on_tm_returns bind_res_eq_Inr
    by (auto cong: if_cong)
  show "entries_of s' = (entries_of s)(b := (chg ci (fst (entries_of s b)) n, chg di (snd (entries_of s b)) d))"
    and "\<not> ci \<Longrightarrow> n \<le> fst (entries_of s b)" and "\<not> di \<Longrightarrow> d \<le> snd (entries_of s b)"
    using chosen_change_entries(1) [OF m(1)] chosen_change_entries(2) [OF m(2)] by (auto simp: m(3) entries_of_def)
qed

lemma record_trove_entries:
  assumes "record_trove b n d i u l s = Some (Inr x, s')"
  shows "entries_of s' = (entries_of s)(b := (fst (entries_of s b) + n, snd (entries_of s b) + d))"
proof -
  obtain s1 s2 s3 s4 s5 s6 where
      s: "on_tm (\<lambda>self. setTroveStatus self b 1) s = Some (Inr (), s1)"
      "on_tm (\<lambda>self m. bind_res (increaseTroveColl self b n m) (\<lambda>(_, m'). Inr m')) s1 = Some (Inr (), s2)"
      "on_tm (\<lambda>self m. bind_res (increaseTroveDebt self b d m) (\<lambda>(_, m'). Inr m')) s2 = Some (Inr (), s3)"
      "on_tm (\<lambda>self m. bind_res (callerIsBorrowerOperations m self) (\<lambda>_. Inr (updateTroveRewardSnapshots b m))) s3 = Some (Inr (), s4)"
      "update_stake b s4 = Some (Inr (), s5)"
      "on_list (\<lambda>s. insert_trove (nicr_of (pr_tm s)) (pr_list s) (bo_self (pr_bo s)) b i u l) s5 = Some (Inr (), s6)"
      "on_tm (\<lambda>self m. bind_res (callerIsBorrowerOperations m self) (\<lambda>_. Inr (snd (addTroveOwnerToArray b m)))) s6 = Some (Inr x, s')"
    using assms by (auto simp: record_trove_def bind_io_eq_Inr)
  have e1: "entries_of s1 = entries_of s" using s(1) setter_entries(1) by (auto simp: on_tm_returns entries_of_def)
  have e2: "entries_of s2 = (entries_of s1)(b := (fst (entries_of s1 b) + n, snd (entries_of s1 b)))"
    using s(2) change_entries(1) by (auto simp: on_tm_returns bind_res_eq_Inr entries_of_def)
  have e3: "entries_of s3 = (entries_of s2)(b := (fst (entries_of s2 b), snd (entries_of s2 b) + d))"
    using s(3) change_entries(2) by (auto simp: on_tm_returns bind_res_eq_Inr entries_of_def)
  have e4: "entries_of s4 = entries_of s3"
    using s(4) setter_entries(2) by (auto simp: on_tm_returns callerIsBorrowerOperations_def bind_res_eq_Inr entries_of_def split: if_splits)
  have e7: "entries_of s' = entries_of s6"
    using s(7) owner_entries(1) by (auto simp: on_tm_returns callerIsBorrowerOperations_def bind_res_eq_Inr entries_of_def split: if_splits)
  show ?thesis unfolding e7 other_contracts_entries(1) [OF s(6)] update_stake_entries [OF s(5)] e4 e3 e2 e1 by simp
qed

lemma take_WSTETH_books:
  assumes "take_WSTETH E b n s = Some (Inr x, s')"
  shows "entries_of s' = entries_of s" and "records_of s' = records_of s" and "totals (pr_pools s') = totals (pr_pools s)"
    and "pr_feed s' = pr_feed s" and "pool_of_default s' = pool_of_default s"
  using assms by (auto simp: take_WSTETH_def modify_returns bind_res_eq_Inr entries_of_def records_of_def records_def totals_def
      pool_of_default_def split: prod.splits if_splits)

subsection \<open>What the calls do to the records\<close>

lemma records_of_frame: "pr_pools s' = pr_pools s \<Longrightarrow> records_of s' = records_of s"
  by (simp add: records_of_def)

lemma debt_records:
  "activePool_increaseSIMDebt a n p = Inr p' \<Longrightarrow> records p' = (fst (records p), snd (records p) + n)"
  "activePool_decreaseSIMDebt a n p = Inr p' \<Longrightarrow> records p' = (fst (records p), snd (records p) - n) \<and> n \<le> snd (records p)"
  "defaultPool_decreaseSIMDebt a n p = Inr p' \<Longrightarrow> records p' = records p"
  by (auto simp: activePool_increaseSIMDebt_def activePool_decreaseSIMDebt_def defaultPool_decreaseSIMDebt_def callerIsBOorTroveM_def
      callerIsBOorTroveMorSP_def bind_res_eq_Inr checked_Inr records_def split: if_splits)

lemma transfer_WSTETH_records: "transfer_WSTETH tok a b n p = Inr p' \<Longrightarrow> records p' = records p"
  using transfer_WSTETH_totals by (fastforce simp: records_def)

lemma receive_records: "activePool_receiveWSTETH a n p = Inr p' \<Longrightarrow> records p' = (fst (records p) + n, snd (records p))"
  by (auto simp: activePool_receiveWSTETH_def Let_def bind_res_eq_Inr checked_Inr records_def split: if_splits)

lemma activePoolAddColl_records:
  assumes "activePoolAddColl tok n p = Inr p'"
  shows "records p' = (fst (records p) + n, snd (records p))"
proof -
  obtain p1 where p1: "transfer_WSTETH tok (ap_borrowerOperationsAddress (activePool p)) (at_activePool p) n p = Inr p1"
      "activePool_receiveWSTETH (ap_borrowerOperationsAddress (activePool p)) n p1 = Inr p'"
    using assms by (auto simp: activePoolAddColl_def Let_def bind_res_eq_Inr)
  show ?thesis using transfer_WSTETH_records [OF p1(1)] receive_records [OF p1(2)] by simp
qed

lemma sendWSTETHToActivePool_records:
  assumes "sendWSTETHToActivePool tok a n p = Inr p'"
  shows "records p' = (fst (records p) + n, snd (records p))"
proof -
  define p0 where "p0 = p\<lparr>defaultPool := (defaultPool p)\<lparr>dp_WSTETH := dp_WSTETH (defaultPool p) - n\<rparr>\<rparr>"
  obtain p1 where p1: "transfer_WSTETH tok (at_defaultPool p) (dp_activePoolAddress (defaultPool p)) n p0 = Inr p1"
      "activePool_receiveWSTETH (at_defaultPool p) n p1 = Inr p'"
    using assms unfolding p0_def by (auto simp: sendWSTETHToActivePool_def Let_def bind_res_eq_Inr checked_Inr split: if_splits)
  have "records p0 = records p" by (simp add: p0_def records_def)
  then show ?thesis using transfer_WSTETH_records [OF p1(1)] receive_records [OF p1(2)] by simp
qed

lemma other_reports_records:
  "when_res b (defaultPool_receiveWSTETH a n) p = Inr p' \<Longrightarrow> records p' = records p"
  "when_res b (stabilityPool_receiveWSTETH a n) p = Inr p' \<Longrightarrow> records p' = records p"
  "when_res b (collSurplusPool_receiveWSTETH a n) p = Inr p' \<Longrightarrow> records p' = records p"
  by (auto simp: when_res_def defaultPool_receiveWSTETH_def stabilityPool_receiveWSTETH_def collSurplusPool_receiveWSTETH_def records_def
      Let_def bind_res_eq_Inr split: if_splits)

lemma sendWSTETH_records:
  assumes "sendWSTETH tok sender account n p = Inr p'"
  shows "records p' = (fst (records p) - n, snd (records p))" and "n \<le> fst (records p)"
proof -
  define p0 where "p0 = p\<lparr>activePool := (activePool p)\<lparr>ap_WSTETH := ap_WSTETH (activePool p) - n\<rparr>\<rparr>"
  obtain p1 p2 p3 where p1: "n \<le> ap_WSTETH (activePool p)" "transfer_WSTETH tok (at_activePool p) account n p0 = Inr p1"
      "when_res (account = ap_defaultPoolAddress (activePool p)) (defaultPool_receiveWSTETH (at_activePool p) n) p1 = Inr p2"
      "when_res (account = ap_stabilityPoolAddress (activePool p)) (stabilityPool_receiveWSTETH (at_activePool p) n) p2 = Inr p3"
      "when_res (account = ap_collSurplusPoolAddress (activePool p)) (collSurplusPool_receiveWSTETH (at_activePool p) n) p3 = Inr p'"
    using assms unfolding p0_def
    by (auto simp: sendWSTETH_def callerIsBOorTroveMorSP_def Let_def bind_res_eq_Inr checked_Inr split: if_splits)
  have "records p' = records p0"
    using transfer_WSTETH_records [OF p1(2)] other_reports_records(1) [OF p1(3)] other_reports_records(2) [OF p1(4)]
      other_reports_records(3) [OF p1(5)] by simp
  then show "records p' = (fst (records p) - n, snd (records p))" by (simp add: p0_def records_def)
  show "n \<le> fst (records p)" using p1(1) by (simp add: records_def)
qed

subsection \<open>The operations\<close>

definition books_moved :: "address \<Rightarrow> ('t, 'm, 'd) protocol \<Rightarrow> ('t, 'm, 'd) protocol \<Rightarrow> bool" where
  "books_moved b s s' \<longleftrightarrow> moved_together b (pr_tm s) (pr_pools s) (pr_tm s') (pr_pools s')"

lemma books_moved_frame: "entries_of s' = entries_of s \<Longrightarrow> records_of s' = records_of s \<Longrightarrow> books_moved b s s'"
  by (simp add: books_moved_def entries_of_def records_of_def moved_together_frame)

lemma books_moved_change:
  assumes "entries_of s' = (entries_of s)(b := (chg ci (fst (entries_of s b)) n, chg di (snd (entries_of s b)) d))"
    and "records_of s' = (chg ci (fst (records_of s)) n, chg di (snd (records_of s)) d)"
    and "\<not> ci \<Longrightarrow> n \<le> fst (entries_of s b) \<and> n \<le> fst (records_of s)"
    and "\<not> di \<Longrightarrow> d \<le> snd (entries_of s b) \<and> d \<le> snd (records_of s)"
  shows "books_moved b s s'"
  using assms unfolding books_moved_def entries_of_def records_of_def by (rule moved_together_change)

lemma books_moved_trans: "books_moved b s s1 \<Longrightarrow> books_moved b s1 s' \<Longrightarrow> books_moved b s s'"
  unfolding books_moved_def by (rule moved_together_trans)

lemma applyPendingRewards_books:
  assumes "applyPendingRewards tok b (m, p) = Inr (m', p')"
  shows "moved_together b m p m' p'"
proof (cases "hasPendingRewards m b")
  case False
  then show ?thesis using assms by (simp add: applyPendingRewards_def moved_together_refl)
next
  case True
  then obtain n d where m': "m' = updateTroveRewardSnapshots b (upd_trove b (\<lambda>t. t\<lparr>tr_coll := tr_coll (Troves m b) + n,
        tr_debt := tr_debt (Troves m b) + d\<rparr>) m)"
      and "movePendingTroveRewardsToActivePool tok m' d n p = Inr p'"
    using assms by (auto simp: applyPendingRewards_def bind_res_eq_Inr checked_Inr Let_def)
  then obtain p1 p2 where "defaultPool_decreaseSIMDebt (tm_self m') d p = Inr p1"
      "activePool_increaseSIMDebt (tm_self m') d p1 = Inr p2" "sendWSTETHToActivePool tok (tm_self m') n p2 = Inr p'"
    by (auto simp: movePendingTroveRewardsToActivePool_def bind_res_eq_Inr)
  then have rec: "records p' = (fst (records p) + n, snd (records p) + d)"
    using debt_records(1,3) sendWSTETHToActivePool_records by fastforce
  have ent: "entries m' = (entries m)(b := (fst (entries m b) + n, snd (entries m b) + d))"
    unfolding m' setter_entries(2) entries_upd_trove by (simp add: entries_def)
  show ?thesis
    by (rule moved_together_change [where ci = True and di = True and n = n and d = d]) (simp_all add: rec ent chg_def)
qed

lemma apply_pending_books: "apply_pending E b s = Some (Inr x, s') \<Longrightarrow> books_moved b s s'"
  by (auto simp: apply_pending_def modify_returns bind_res_eq_Inr books_moved_def applyPendingRewards_books split: prod.splits)

lemma SIM_books:
  "withdrawSIM_from_pool E a n d s = Some (Inr x, s') \<Longrightarrow>
     entries_of s' = entries_of s \<and> records_of s' = (fst (records_of s), snd (records_of s) + d)"
  "repaySIM_to_pool E a n s = Some (Inr x, s') \<Longrightarrow>
     entries_of s' = entries_of s \<and> records_of s' = (fst (records_of s), snd (records_of s) - n) \<and> n \<le> snd (records_of s)"
proof -
  assume "withdrawSIM_from_pool E a n d s = Some (Inr x, s')"
  then obtain p where "activePool_increaseSIMDebt (bo_self (pr_bo s)) d (pr_pools s) = Inr p"
      "on_sim (\<lambda>self c. sim_mint (en_oz E) c self a n) (s\<lparr>pr_pools := p\<rparr>) = Some (Inr x, s')"
    by (auto simp: withdrawSIM_from_pool_def bind_io_eq_Inr gets_returns on_pools_returns)
  then show "entries_of s' = entries_of s \<and> records_of s' = (fst (records_of s), snd (records_of s) + d)"
    using debt_records(1) other_contracts_entries(2) on_sim_frame by (fastforce simp: records_of_def entries_of_def)
next
  assume "repaySIM_to_pool E a n s = Some (Inr x, s')"
  then obtain p where p: "activePool_decreaseSIMDebt (bo_self (pr_bo s)) n (pr_pools s) = Inr p"
      "on_sim (\<lambda>self c. sim_burn (en_oz E) c self a n) (s\<lparr>pr_pools := p\<rparr>) = Some (Inr x, s')"
    by (auto simp: repaySIM_to_pool_def bind_io_eq_Inr gets_returns on_pools_returns)
  show "entries_of s' = entries_of s \<and> records_of s' = (fst (records_of s), snd (records_of s) - n) \<and> n \<le> snd (records_of s)"
    using debt_records(2) [OF p(1)] other_contracts_entries(2) [OF p(2)] on_sim_frame [OF p(2)] by (simp add: records_of_def entries_of_def)
qed

lemma moveTokens_books:
  assumes "moveTokensAndWSTETHfromAdjustment E a n ci c di d s = Some (Inr x, s')" and "di \<or> d = c"
  shows "entries_of s' = entries_of s" and "records_of s' = (chg ci (fst (records_of s)) n, chg di (snd (records_of s)) d)"
    and "\<not> ci \<Longrightarrow> n \<le> fst (records_of s)" and "\<not> di \<Longrightarrow> d \<le> snd (records_of s)"
proof -
  obtain s1 p where s1: "(if di then withdrawSIM_from_pool E a c d else repaySIM_to_pool E a c) s = Some (Inr (), s1)"
      and p: "(if ci then activePoolAddColl (en_wsteth E) n else sendWSTETH (en_wsteth E) (bo_self (pr_bo s1)) a n) (pr_pools s1) = Inr p"
      and s': "s' = s1\<lparr>pr_pools := p\<rparr>"
    using assms(1) by (auto simp: moveTokensAndWSTETHfromAdjustment_def bind_io_eq_Inr gets_returns on_pools_returns cong: if_cong)
  have d: "entries_of s1 = entries_of s \<and> records_of s1 = (fst (records_of s), chg di (snd (records_of s)) d) \<and> (di \<or> d \<le> snd (records_of s))"
    using s1 assms(2) SIM_books(1) [of E a c d s "()" s1] SIM_books(2) [of E a c s "()" s1] by (cases di) (simp_all add: chg_def)
  have c: "records p = (chg ci (fst (records_of s1)) n, snd (records_of s1)) \<and> (ci \<or> n \<le> fst (records_of s1))"
    using p activePoolAddColl_records [of "en_wsteth E" n "pr_pools s1" p]
      sendWSTETH_records [of "en_wsteth E" "bo_self (pr_bo s1)" a n "pr_pools s1" p]
    by (cases ci) (simp_all add: chg_def records_of_def)
  show "entries_of s' = entries_of s" using d by (simp add: s' entries_of_def)
  show "records_of s' = (chg ci (fst (records_of s)) n, chg di (snd (records_of s)) d)" using c d by (simp add: s' records_of_def)
  show "\<not> ci \<Longrightarrow> n \<le> fst (records_of s)" and "\<not> di \<Longrightarrow> d \<le> snd (records_of s)" using c d by auto
qed

text \<open>An adjustment that returns, as the sequence of its calls.\<close>

lemma adjust_guards_state: "adjust_guards E sender b w c di maxFee rm s = Some (Inr n, s') \<Longrightarrow> s' = s"
  by (auto simp: adjust_guards_def requireValidMaxFeePercentage_def requireSingularCollChange_def requireNonZeroAdjustment_def
      requireTroveisActive_def bind_io_eq_Inr gets_returns ensure_returns return_io_def split: if_splits)

lemma requireValidAdjustment_state:
  "requireValidAdjustmentInCurrentMode rm w di oldICR newICR n ci d price s = Some (Inr x, s') \<Longrightarrow> s' = s"
  by (auto simp: requireValidAdjustmentInCurrentMode_def bind_io_eq_Inr gets_returns ensure_returns return_io_def split: if_splits)

lemma repayment_guards_state:
  "(if b then repayment_guards E a d n else return_io ()) s = Some (Inr x, s') \<Longrightarrow> s' = s"
  by (auto simp: repayment_guards_def requireSufficientSIMBalance_def bind_io_eq_Inr lift_returns ensure_returns gets_returns
      return_io_def split: if_splits)

lemma bind_ioE:
  assumes "bind_io m f s = Some (Inr x, s')"
  obtains a s1 where "m s = Some (Inr a, s1)" and "f a s1 = Some (Inr x, s')"
  using assms by (auto simp: bind_io_eq_Inr)

lemma adjustTrove_internal_steps:
  assumes "adjustTrove_internal E sender b w c di u l maxFee s = Some (Inr x, s')"
  obtains price rm bal n ci fee oldICR newICR s1 s2 s3 s4 s5 s6 x1 x2 x3 x4
  where "fetch_price E s = Some (Inr price, s1)" and "checkRecoveryMode (pr_pools s1) price = Inr rm"
    and "adjust_guards E sender b w c di maxFee rm s1 = Some (Inr bal, s1)" and "n = fst (getCollChange bal w)" and "ci = snd (getCollChange bal w)"
    and "apply_pending E b s1 = Some (Inr x1, s2)"
    and "borrowing_fee_unless E (\<not> di \<or> rm) c maxFee s2 = Some (Inr fee, s3)"
    and "getNewICRFromTroveChange (tr_coll (Troves (pr_tm s3) b)) (tr_debt (Troves (pr_tm s3) b)) n ci (c + fee) di price = Inr newICR"
    and "requireValidAdjustmentInCurrentMode rm w di oldICR newICR n ci (c + fee) price s3 = Some (Inr x2, s3)"
    and "updateTroveFromAdjustment b n ci (c + fee) di s3 = Some (Inr x3, s4)"
    and "update_stake b s4 = Some (Inr x4, s5)"
    and "entries_of s6 = entries_of s5" and "pr_pools s6 = pr_pools s5"
    and "moveTokensAndWSTETHfromAdjustment E sender n ci c di (c + fee) s6 = Some (Inr x, s')"
  using assms unfolding adjustTrove_internal_def Let_def case_prod_unfold
  apply (elim bind_ioE)
  apply (simp only: gets_returns lift_returns assert_returns checked_Inr sum.inject)
  apply (elim conjE)
  apply (frule adjust_guards_state, frule requireValidAdjustment_state, frule repayment_guards_state)
  apply hypsubst
  apply (rule that, assumption+, rule refl, rule refl, assumption+)
    apply (erule other_contracts_entries(1))
   apply (erule on_list_frame)
  apply assumption
  done

lemma adjustTrove_internal_books:
  assumes "adjustTrove_internal E sender b w c di u l maxFee s = Some (Inr x, s')"
  shows "books_moved b s s'"
  using assms
proof (rule adjustTrove_internal_steps)
  fix price rm bal n ci fee oldICR newICR s1 s2 s3 s4 s5 s6 x1 x2 x3 x4
  assume a: "fetch_price E s = Some (Inr price, s1)" "apply_pending E b s1 = Some (Inr x1, s2)"
      "borrowing_fee_unless E (\<not> di \<or> rm) c maxFee s2 = Some (Inr fee, s3)"
      "updateTroveFromAdjustment b n ci (c + fee) di s3 = Some (Inr x3, s4)" "update_stake b s4 = Some (Inr x4, s5)"
      "entries_of s6 = entries_of s5" "pr_pools s6 = pr_pools s5"
      "moveTokensAndWSTETHfromAdjustment E sender n ci c di (c + fee) s6 = Some (Inr x, s')"
  have free: "di \<or> c + fee = c" using a(3) by (auto simp: borrowing_fee_unless_def return_io_def split: if_splits)
  have e: "entries_of s6 = entries_of s4" using a(6) update_stake_entries [OF a(5)] by simp
  have r: "records_of s6 = records_of s3"
    using a(7) update_stake_frame [OF a(5)] updateTroveFromAdjustment_frame [OF a(4)] by (simp add: records_of_def)
  have "books_moved b s3 s'"
    using updateTroveFromAdjustment_entries [OF a(4)] moveTokens_books [OF a(8) free] e r
    by (intro books_moved_change [where ci = ci and di = di and n = n and d = "c + fee"]) auto
  moreover have "books_moved b s s1"
    using other_contracts_entries(4) [OF a(1)] records_of_frame [OF fetch_price_frame [OF a(1)]] by (rule books_moved_frame)
  moreover have "books_moved b s2 s3"
    using borrowing_fee_entries [OF a(3)] records_of_frame [OF borrowing_fee_frame [OF a(3)]] by (rule books_moved_frame)
  ultimately show ?thesis using apply_pending_books [OF a(2)] by (blast intro: books_moved_trans)
qed

lemma maxFee_state: "requireValidMaxFeePercentage maxFee rm s = Some (Inr x, s') \<Longrightarrow> s' = s"
  by (auto simp: requireValidMaxFeePercentage_def ensure_returns split: if_splits)

lemma opening_guards_returns:
  "opening_guards rm ICR n d price s = Some (Inr x, s') \<Longrightarrow>
     s' = s \<and> (rm \<or> MCR \<le> ICR) \<and> (rm \<or> (\<exists>TCR. getNewTCRFromTroveChange (pr_pools s) n True d True price = Inr TCR \<and> CCR \<le> TCR))"
  by (auto simp: opening_guards_def bind_io_eq_Inr gets_returns ensure_returns split: if_splits)

lemma openTrove_steps:
  assumes "openTrove E sender n maxFee c u l s = Some (Inr x, s')"
  obtains price rm fee ICR i s0 s1 s2 s3 s4 x0 x1 x2
  where "take_WSTETH E sender n s = Some (Inr x0, s0)"
    and "fetch_price E s0 = Some (Inr price, s1)" and "checkRecoveryMode (pr_pools s1) price = Inr rm"
    and "borrowing_fee_unless E rm c maxFee s1 = Some (Inr fee, s2)"
    and "computeCR n (c + fee) price = Inr ICR" and "rm \<or> MCR \<le> ICR"
    and "rm \<or> (\<exists>TCR. getNewTCRFromTroveChange (pr_pools s2) n True (c + fee) True price = Inr TCR \<and> CCR \<le> TCR)"
    and "record_trove sender n (c + fee) i u l s2 = Some (Inr x1, s3)"
    and "on_pools (activePoolAddColl (en_wsteth E) n) s3 = Some (Inr x2, s4)"
    and "withdrawSIM_from_pool E sender c (c + fee) s4 = Some (Inr x, s')"
  using assms unfolding openTrove_def transaction_returns Let_def
  apply (elim bind_ioE)
  apply (simp only: gets_returns lift_returns assert_returns ensure_returns checked_Inr requireTroveisNotActive_def getCompositeDebt_def)
  apply (elim conjE)
  apply (frule maxFee_state, frule opening_guards_returns, elim conjE)
  apply hypsubst
  apply (rule that, assumption+)
  done

lemma openTrove_books:
  assumes "openTrove E sender n maxFee c u l s = Some (Inr x, s')"
  shows "books_moved sender s s'"
  using assms
proof (rule openTrove_steps)
  fix price rm fee ICR i s0 s1 s2 s3 s4 x0 x1 x2
  assume a: "take_WSTETH E sender n s = Some (Inr x0, s0)" "fetch_price E s0 = Some (Inr price, s1)"
      "borrowing_fee_unless E rm c maxFee s1 = Some (Inr fee, s2)" "record_trove sender n (c + fee) i u l s2 = Some (Inr x1, s3)"
      "on_pools (activePoolAddColl (en_wsteth E) n) s3 = Some (Inr x2, s4)"
      "withdrawSIM_from_pool E sender c (c + fee) s4 = Some (Inr x, s')"
  have e: "entries_of s2 = entries_of s" "entries_of s' = entries_of s3"
    using take_WSTETH_books(1) [OF a(1)] other_contracts_entries(4) [OF a(2)] borrowing_fee_entries [OF a(3)]
      other_contracts_entries(3) [OF a(5)] SIM_books(1) [OF a(6)] by simp_all
  have r: "records_of s3 = records_of s"
    using record_trove_frame [OF a(4)] borrowing_fee_frame [OF a(3)] fetch_price_frame [OF a(2)] take_WSTETH_books(2) [OF a(1)]
    by (simp add: records_of_def)
  have "records_of s4 = (fst (records_of s3) + n, snd (records_of s3))"
    using a(5) activePoolAddColl_records by (auto simp: on_pools_returns records_of_def)
  then show ?thesis
    using SIM_books(1) [OF a(6)] record_trove_entries [OF a(4)] e r
    by (intro books_moved_change [where ci = True and di = True and n = n and d = "c + fee"]) (simp_all add: chg_def)
qed

lemma close_in_books_entries:
  assumes "close_in_books b s = Some (Inr x, s')"
  shows "entries_of s' = (entries_of s)(b := (0, 0))" and "pr_pools s' = pr_pools s"
proof -
  define m1 where "m1 = (upd_trove b (\<lambda>t. t\<lparr>tr_status := ClosedByOwner, tr_coll := 0, tr_debt := 0\<rparr>) (pr_tm s))
                \<lparr>rewardSnapshots := (rewardSnapshots (pr_tm s))(b := \<lparr>rs_WSTETH = 0, rs_SIMDebt = 0\<rparr>)\<rparr>"
  obtain m2 st where m2: "removeTroveOwner b (length (TroveOwners (pr_tm s))) m1 = Inr m2" "s' = s\<lparr>pr_tm := m2, pr_list := st\<rparr>"
    using assms unfolding m1_def
    by (auto simp: close_in_books_def closeTrove_def Let_def callerIsBorrowerOperations_def require_def map_option_case map_sum_def
        split: sum.splits option.splits if_splits prod.splits)
  have "entries m2 = (entries (pr_tm s))(b := (0, 0))"
    using owner_entries(2) [OF m2(1)] by (simp add: m1_def entries_upd_trove)
  then show "entries_of s' = (entries_of s)(b := (0, 0))" and "pr_pools s' = pr_pools s" by (simp_all add: m2(2) entries_of_def)
qed

lemma entries_of_trove:
  "tr_coll (Troves (pr_tm s) b) = fst (entries_of s b)" "tr_debt (Troves (pr_tm s) b) = snd (entries_of s b)"
  by (simp_all add: entries_of_def entries_def)

lemma remove_stake_entries:
  "on_tm (\<lambda>self m. bind_res (callerIsBorrowerOperations m self) (\<lambda>_. removeStake b m)) s = Some (Inr x, s') \<Longrightarrow> entries_of s' = entries_of s"
  by (auto simp: on_tm_returns callerIsBorrowerOperations_def bind_res_eq_Inr entries_of_def stake_entries(2) split: if_splits)

lemma bo_closeTrove_steps:
  assumes "bo_closeTrove E sender s = Some (Inr x, s')"
  obtains price TCR s1 s2 s3 s4 s5 x1 x3 x4
  where "fetch_price E s = Some (Inr price, s1)" and "checkRecoveryMode (pr_pools s1) price = Inr False"
    and "apply_pending E sender s1 = Some (Inr x1, s2)"
    and "getNewTCRFromTroveChange (pr_pools s2) (fst (entries_of s2 sender)) False (snd (entries_of s2 sender)) False price = Inr TCR"
    and "CCR \<le> TCR"
    and "entries_of s3 = entries_of s2" and "pr_pools s3 = pr_pools s2"
    and "close_in_books sender s3 = Some (Inr x3, s4)"
    and "repaySIM_to_pool E sender (snd (entries_of s2 sender)) s4 = Some (Inr x4, s5)"
    and "on_pools (sendWSTETH (en_wsteth E) (bo_self (pr_bo s5)) sender (fst (entries_of s2 sender))) s5 = Some (Inr x, s')"
  using assms unfolding bo_closeTrove_def transaction_returns Let_def
  apply (elim bind_ioE)
  apply (simp only: gets_returns ensure_returns requireTroveisActive_def requireSufficientSIMBalance_def sum.inject)
  apply (elim conjE)
  apply hypsubst
  apply (simp only: entries_of_trove)
  apply (rule that, assumption+, rule remove_stake_entries, assumption, rule on_tm_frame, assumption+)
  done

lemma bo_closeTrove_books:
  assumes "bo_closeTrove E sender s = Some (Inr x, s')"
  shows "books_moved sender s s'"
  using assms
proof (rule bo_closeTrove_steps)
  fix price TCR s1 s2 s3 s4 s5 x1 x3 x4
  assume a: "fetch_price E s = Some (Inr price, s1)" "apply_pending E sender s1 = Some (Inr x1, s2)"
      "entries_of s3 = entries_of s2" "pr_pools s3 = pr_pools s2" "close_in_books sender s3 = Some (Inr x3, s4)"
      "repaySIM_to_pool E sender (snd (entries_of s2 sender)) s4 = Some (Inr x4, s5)"
      "on_pools (sendWSTETH (en_wsteth E) (bo_self (pr_bo s5)) sender (fst (entries_of s2 sender))) s5 = Some (Inr x, s')"
  let ?coll = "fst (entries_of s2 sender)" and ?debt = "snd (entries_of s2 sender)"
  have r: "records_of s4 = records_of s2" using close_in_books_entries(2) [OF a(5)] a(4) by (simp add: records_of_def)
  have send: "records_of s' = (fst (records_of s5) - ?coll, snd (records_of s5))" "?coll \<le> fst (records_of s5)"
    using a(7) sendWSTETH_records by (auto simp: on_pools_returns records_of_def)
  have e: "entries_of s' = (entries_of s2)(sender := (0, 0))"
    using other_contracts_entries(3) [OF a(7)] SIM_books(2) [OF a(6)] close_in_books_entries(1) [OF a(5)] a(3) by simp
  have "books_moved sender s2 s'"
    using SIM_books(2) [OF a(6)] send e r
    by (intro books_moved_change [where ci = False and di = False and n = ?coll and d = ?debt]) (simp_all add: chg_def)
  moreover have "books_moved sender s s1"
    using other_contracts_entries(4) [OF a(1)] records_of_frame [OF fetch_price_frame [OF a(1)]] by (rule books_moved_frame)
  ultimately show ?thesis using apply_pending_books [OF a(2)] by (blast intro: books_moved_trans)
qed

lemma claimCollateral_books:
  assumes "claimCollateral E sender s = Some (Inr x, s')"
  shows "entries_of s' = entries_of s" and "records_of s' = records_of s" and "totals (pr_pools s') = totals (pr_pools s)"
    and "pr_feed s' = pr_feed s" and "pool_of_default s' = pool_of_default s"
proof -
  obtain p where p: "claimColl (en_wsteth E) (bo_self (pr_bo s)) sender (pr_pools s) = Inr p" and s': "s' = s\<lparr>pr_pools := p\<rparr>"
    using assms by (auto simp: claimCollateral_def transaction_returns bind_io_eq_Inr gets_returns on_pools_returns)
  have "totals p = totals (pr_pools s) \<and> activePool p = activePool (pr_pools s)"
    using p by (auto simp: claimColl_def Let_def bind_res_eq_Inr totals_def dest!: transfer_WSTETH_totals split: if_splits)
  then show "entries_of s' = entries_of s" and "records_of s' = records_of s" and "totals (pr_pools s') = totals (pr_pools s)"
    and "pr_feed s' = pr_feed s" and "pool_of_default s' = pool_of_default s"
    by (simp_all add: s' entries_of_def records_of_def records_def pool_of_default_def)
qed

section \<open>The operations of the borrowers as steps\<close>

text \<open>The adjustments of a trove, by the borrower or on behalf of the stability pool.\<close>

inductive trove_adjustment :: "('t, 'm, 'p, 'd) env \<Rightarrow> address \<Rightarrow> address \<Rightarrow> ('t, 'm, 'd) protocol \<Rightarrow> ('t, 'm, 'd) protocol \<Rightarrow> bool" for E where
  add_coll: "addColl E a n u l s = Some (Inr (), s') \<Longrightarrow> trove_adjustment E a a s s'"
| move_gain: "moveWSTETHGainToTrove E a b u l s = Some (Inr (), s') \<Longrightarrow> trove_adjustment E a b s s'"
| withdraw_coll: "withdrawColl E a n u l s = Some (Inr (), s') \<Longrightarrow> trove_adjustment E a a s s'"
| withdraw_SIM: "withdrawSIM E a maxFee n u l s = Some (Inr (), s') \<Longrightarrow> trove_adjustment E a a s s'"
| repay_SIM: "repaySIM E a n u l s = Some (Inr (), s') \<Longrightarrow> trove_adjustment E a a s s'"
| adjust: "adjustTrove E a n maxFee w c di u l s = Some (Inr (), s') \<Longrightarrow> trove_adjustment E a a s s'"

inductive borrower_call :: "('t, 'm, 'p, 'd) env \<Rightarrow> address \<Rightarrow> ('t, 'm, 'd) protocol \<Rightarrow> ('t, 'm, 'd) protocol \<Rightarrow> bool" for E where
  opened: "openTrove E a n maxFee c u l s = Some (Inr (), s') \<Longrightarrow> borrower_call E a s s'"
| adjusted: "trove_adjustment E a b s s' \<Longrightarrow> borrower_call E a s s'"
| closed: "bo_closeTrove E a s = Some (Inr (), s') \<Longrightarrow> borrower_call E a s s'"
| claimed: "claimCollateral E a s = Some (Inr (), s') \<Longrightarrow> borrower_call E a s s'"

inductive_cases borrower_callE: "borrower_call E a s s'"

text \<open>Every adjustment is \<open>_adjustTrove\<close>, at most after collateral has come in.\<close>

lemma trove_adjustment_internal:
  assumes "trove_adjustment E a b s s'"
  obtains s0 w c di u l maxFee where "adjustTrove_internal E a b w c di u l maxFee s0 = Some (Inr (), s')"
    and "entries_of s0 = entries_of s" and "records_of s0 = records_of s" and "totals (pr_pools s0) = totals (pr_pools s)"
    and "pr_feed s0 = pr_feed s" and "pool_of_default s0 = pool_of_default s"
  using assms
proof cases
  case (add_coll n u l)
  then obtain x s0 where r: "take_WSTETH E a n s = Some (Inr x, s0)" "adjustTrove_internal E a a 0 0 False u l 0 s0 = Some (Inr (), s')"
    by (auto simp: addColl_def transaction_returns elim!: bind_ioE)
  show thesis using that [of 0 0 False u l 0 s0] r(2) take_WSTETH_books [OF r(1)] add_coll(1) by simp
next
  case (move_gain u l)
  then show thesis using that by (auto simp: moveWSTETHGainToTrove_def transaction_returns gets_returns elim!: bind_ioE)
next
  case (withdraw_coll n u l)
  then show thesis using that by (auto simp: withdrawColl_def transaction_returns)
next
  case (withdraw_SIM maxFee n u l)
  then show thesis using that by (auto simp: withdrawSIM_def transaction_returns)
next
  case (repay_SIM n u l)
  then show thesis using that by (auto simp: repaySIM_def transaction_returns)
next
  case (adjust n maxFee w c di u l)
  then obtain x s0 where r: "(if 0 < n then take_WSTETH E a n else return_io ()) s = Some (Inr x, s0)"
      "adjustTrove_internal E a a w c di u l maxFee s0 = Some (Inr (), s')"
    by (auto simp: adjustTrove_def transaction_returns elim!: bind_ioE)
  show thesis
  proof (cases "0 < n")
    case True
    then show ?thesis using that [of w c di u l maxFee s0] r(2) take_WSTETH_books [of E a n s x s0] r(1) adjust(1) by simp
  next
    case False
    then show ?thesis using that [of w c di u l maxFee s] r adjust(1) by (simp add: return_io_def)
  qed
qed

lemma borrower_call_books:
  assumes "borrower_call E a s s'"
  shows "\<exists>b. books_moved b s s'"
  using assms
proof cases
  case (opened n maxFee c u l)
  then show ?thesis using openTrove_books by blast
next
  case (adjusted b)
  then show ?thesis
  proof (rule trove_adjustment_internal)
    fix s0 w c di u l maxFee
    assume "adjustTrove_internal E a b w c di u l maxFee s0 = Some (Inr (), s')"
      "entries_of s0 = entries_of s" "records_of s0 = records_of s"
    then have "books_moved b s s0" "books_moved b s0 s'"
      using books_moved_frame adjustTrove_internal_books by blast+
    then show ?thesis using books_moved_trans by blast
  qed
next
  case closed
  then show ?thesis using bo_closeTrove_books by blast
next
  case claimed
  then show ?thesis using claimCollateral_books(1,2) books_moved_frame by blast
qed

section \<open>The collateralisation of the system\<close>

lemma fetch_price_value:
  assumes "fetch_price E s = Some (Inr price, s')" and "fetchPrice (en_oracles E) (pr_feed s) = Inr (price', f)"
  shows "price = price'"
  using assms by (simp add: fetch_price_def)

lemma moveTokens_totals:
  assumes "moveTokensAndWSTETHfromAdjustment E a n ci c di d s = Some (Inr x, s')" and "di \<or> d = c" and "a \<noteq> pool_of_default s"
  shows "totals (pr_pools s') = (chg ci (fst (totals (pr_pools s))) n, chg di (snd (totals (pr_pools s))) d)"
proof -
  obtain s1 p where s1: "(if di then withdrawSIM_from_pool E a c d else repaySIM_to_pool E a c) s = Some (Inr (), s1)"
      and p: "(if ci then activePoolAddColl (en_wsteth E) n else sendWSTETH (en_wsteth E) (bo_self (pr_bo s1)) a n) (pr_pools s1) = Inr p"
      and s': "s' = s1\<lparr>pr_pools := p\<rparr>"
    using assms(1) by (auto simp: moveTokensAndWSTETHfromAdjustment_def bind_io_eq_Inr gets_returns on_pools_returns cong: if_cong)
  have t1: "totals (pr_pools s1) = (fst (totals (pr_pools s)), chg di (snd (totals (pr_pools s))) d)"
    using s1 assms(2) withdrawSIM_totals [of E a c d s "()" s1] repaySIM_totals [of E a c s "()" s1] by (cases di) (simp_all add: chg_def)
  have "a \<noteq> ap_defaultPoolAddress (activePool (pr_pools s1))"
    using s1 assms(3) SIM_wiring(1) [of E a c d s "()" s1] SIM_wiring(2) [of E a c s "()" s1] by (cases di) (simp_all add: pool_of_default_def)
  then have "totals p = (chg ci (fst (totals (pr_pools s1))) n, snd (totals (pr_pools s1)))"
    using p activePoolAddColl_totals [of "en_wsteth E" n "pr_pools s1" p]
      sendWSTETH_totals [of "en_wsteth E" "bo_self (pr_bo s1)" a n "pr_pools s1" p] by (cases ci) (simp_all add: chg_def)
  then show ?thesis using t1 by (simp add: s')
qed

lemma normal_mode_guards:
  "requireValidAdjustmentInCurrentMode False w di oldICR newICR n ci d price s = Some (Inr x, s') \<Longrightarrow>
     MCR \<le> newICR \<and> (\<exists>TCR. getNewTCRFromTroveChange (pr_pools s) n ci d di price = Inr TCR \<and> CCR \<le> TCR)"
  by (auto simp: requireValidAdjustmentInCurrentMode_def bind_io_eq_Inr gets_returns ensure_returns)

lemma normal_mode_after:
  assumes "getNewTCRFromTroveChange p n ci d di price = Inr TCR" and "CCR \<le> TCR"
    and "totals q = (chg ci (fst (totals p)) n, chg di (snd (totals p)) d)"
  shows "checkRecoveryMode q price = Inr False"
  using newTCR_totals [OF assms(1,3)] assms(2) by (simp add: checkRecoveryMode_def)

lemma adjustTrove_internal_mode:
  assumes "adjustTrove_internal E sender b w c di u l maxFee s = Some (Inr x, s')"
    and "fetchPrice (en_oracles E) (pr_feed s) = Inr (price, f)" and "checkRecoveryMode (pr_pools s) price = Inr False"
  shows "\<exists>ICR. computeCR (fst (entries_of s' b)) (snd (entries_of s' b)) price = Inr ICR \<and> MCR \<le> ICR"
    and "sender \<noteq> pool_of_default s \<Longrightarrow> checkRecoveryMode (pr_pools s') price = Inr False"
proof -
  obtain rm bal n ci fee oldICR newICR s1 s2 s3 s4 s5 s6 x1 x2 x3 x4 price' where
      a: "fetch_price E s = Some (Inr price', s1)" "checkRecoveryMode (pr_pools s1) price' = Inr rm"
      "apply_pending E b s1 = Some (Inr x1, s2)" "borrowing_fee_unless E (\<not> di \<or> rm) c maxFee s2 = Some (Inr fee, s3)"
      "getNewICRFromTroveChange (tr_coll (Troves (pr_tm s3) b)) (tr_debt (Troves (pr_tm s3) b)) n ci (c + fee) di price' = Inr newICR"
      "requireValidAdjustmentInCurrentMode rm w di oldICR newICR n ci (c + fee) price' s3 = Some (Inr x2, s3)"
      "updateTroveFromAdjustment b n ci (c + fee) di s3 = Some (Inr x3, s4)" "update_stake b s4 = Some (Inr x4, s5)"
      "entries_of s6 = entries_of s5" "pr_pools s6 = pr_pools s5"
      "moveTokensAndWSTETHfromAdjustment E sender n ci c di (c + fee) s6 = Some (Inr x, s')"
    using assms(1) by (rule adjustTrove_internal_steps)
  have [simp]: "price' = price" using fetch_price_value [OF a(1) assms(2)] .
  have mode: "\<not> rm" using a(2) assms(3) fetch_price_frame [OF a(1)] by simp
  have free: "di \<or> c + fee = c" using a(4) by (auto simp: borrowing_fee_unless_def return_io_def split: if_splits)
  obtain TCR where guards: "MCR \<le> newICR" "getNewTCRFromTroveChange (pr_pools s3) n ci (c + fee) di price = Inr TCR" "CCR \<le> TCR"
    using normal_mode_guards a(6) mode by (metis (full_types) \<open>price' = price\<close>)
  have pools: "pr_pools s6 = pr_pools s3"
    using a(10) update_stake_frame [OF a(8)] updateTroveFromAdjustment_frame [OF a(7)] by simp
  have "entries_of s' = entries_of s4" using moveTokens_books(1) [OF a(11) free] a(9) update_stake_entries [OF a(8)] by simp
  then have "computeCR (fst (entries_of s' b)) (snd (entries_of s' b)) price = Inr newICR"
    using a(5) updateTroveFromAdjustment_entries(1) [OF a(7)]
    by (auto simp: getNewICRFromTroveChange_def getNewTroveAmounts_def changed_def bind_res_eq_Inr checked_Inr entries_of_trove chg_def
        split: if_splits)
  then show "\<exists>ICR. computeCR (fst (entries_of s' b)) (snd (entries_of s' b)) price = Inr ICR \<and> MCR \<le> ICR" using guards(1) by blast
  assume "sender \<noteq> pool_of_default s"
  then have "sender \<noteq> pool_of_default s6"
    using pools apply_pending_wiring [OF a(3)] fetch_price_frame [OF a(1)] borrowing_fee_frame [OF a(4)] by (simp add: pool_of_default_def)
  from moveTokens_totals [OF a(11) free this] show "checkRecoveryMode (pr_pools s') price = Inr False"
    unfolding pools by (rule normal_mode_after [OF guards(2,3)])
qed

lemma openTrove_mode:
  assumes "openTrove E sender n maxFee c u l s = Some (Inr x, s')"
    and "fetchPrice (en_oracles E) (pr_feed s) = Inr (price, f)" and "checkRecoveryMode (pr_pools s) price = Inr False"
  shows "checkRecoveryMode (pr_pools s') price = Inr False"
proof -
  obtain price' rm fee ICR i s0 s1 s2 s3 s4 x0 x1 x2 where
      a: "take_WSTETH E sender n s = Some (Inr x0, s0)" "fetch_price E s0 = Some (Inr price', s1)"
      "checkRecoveryMode (pr_pools s1) price' = Inr rm" "borrowing_fee_unless E rm c maxFee s1 = Some (Inr fee, s2)"
      "rm \<or> (\<exists>TCR. getNewTCRFromTroveChange (pr_pools s2) n True (c + fee) True price' = Inr TCR \<and> CCR \<le> TCR)"
      "record_trove sender n (c + fee) i u l s2 = Some (Inr x1, s3)"
      "on_pools (activePoolAddColl (en_wsteth E) n) s3 = Some (Inr x2, s4)"
      "withdrawSIM_from_pool E sender c (c + fee) s4 = Some (Inr x, s')"
    using assms(1) by (rule openTrove_steps)
  have [simp]: "price' = price" using fetch_price_value [OF a(2)] assms(2) take_WSTETH_books(4) [OF a(1)] by simp
  have "totals (pr_pools s1) = totals (pr_pools s)" using fetch_price_frame [OF a(2)] take_WSTETH_books(3) [OF a(1)] by simp
  then have "\<not> rm" using a(3) assms(3) checkRecoveryMode_totals by (metis \<open>price' = price\<close> sum.inject(2))
  then obtain TCR where guards: "getNewTCRFromTroveChange (pr_pools s2) n True (c + fee) True price = Inr TCR" "CCR \<le> TCR"
    using a(5) by auto
  have "totals (pr_pools s4) = (fst (totals (pr_pools s2)) + n, snd (totals (pr_pools s2)))"
    using a(7) activePoolAddColl_totals record_trove_frame [OF a(6)] by (auto simp: on_pools_returns)
  then have "totals (pr_pools s') = (chg True (fst (totals (pr_pools s2))) n, chg True (snd (totals (pr_pools s2))) (c + fee))"
    using withdrawSIM_totals [OF a(8)] by (simp add: chg_def)
  then show ?thesis by (rule normal_mode_after [OF guards])
qed

lemma bo_closeTrove_mode:
  assumes "bo_closeTrove E sender s = Some (Inr x, s')"
    and "fetchPrice (en_oracles E) (pr_feed s) = Inr (price, f)" and "sender \<noteq> pool_of_default s"
  shows "checkRecoveryMode (pr_pools s') price = Inr False"
proof -
  obtain price' TCR s1 s2 s3 s4 s5 x1 x3 x4 where
      a: "fetch_price E s = Some (Inr price', s1)" "apply_pending E sender s1 = Some (Inr x1, s2)"
      "getNewTCRFromTroveChange (pr_pools s2) (fst (entries_of s2 sender)) False (snd (entries_of s2 sender)) False price' = Inr TCR"
      "CCR \<le> TCR" "pr_pools s3 = pr_pools s2" "close_in_books sender s3 = Some (Inr x3, s4)"
      "repaySIM_to_pool E sender (snd (entries_of s2 sender)) s4 = Some (Inr x4, s5)"
      "on_pools (sendWSTETH (en_wsteth E) (bo_self (pr_bo s5)) sender (fst (entries_of s2 sender))) s5 = Some (Inr x, s')"
    using assms(1) by (rule bo_closeTrove_steps)
  have [simp]: "price' = price" using fetch_price_value [OF a(1) assms(2)] .
  have pools: "pr_pools s4 = pr_pools s2" using close_in_books_entries(2) [OF a(6)] a(5) by simp
  have "sender \<noteq> pool_of_default s5"
    using assms(3) SIM_wiring(2) [OF a(7)] pools apply_pending_wiring [OF a(2)] fetch_price_frame [OF a(1)] by (simp add: pool_of_default_def)
  then have "totals (pr_pools s') = (fst (totals (pr_pools s5)) - fst (entries_of s2 sender), snd (totals (pr_pools s5)))"
    using a(8) sendWSTETH_totals by (auto simp: on_pools_returns pool_of_default_def)
  then have "totals (pr_pools s') = (chg False (fst (totals (pr_pools s2))) (fst (entries_of s2 sender)),
      chg False (snd (totals (pr_pools s2))) (snd (entries_of s2 sender)))"
    using repaySIM_totals [OF a(7)] pools by (simp add: chg_def)
  then show ?thesis by (rule normal_mode_after [OF a(3) [simplified] a(4)])
qed

text \<open>
  C9. No adjustment in Normal Mode leaves a trove undercollateralised: when the system is not in Recovery
  Mode at the price of the feed and any of the operations that adjust a trove returns, the collateral and
  the debt that the book then has for the trove give a ratio of at least the minimum of 110 percent at
  that price.
\<close>

theorem adjusted_trove_is_collateralised:
  assumes "trove_adjustment E sender borrower s s'" and "fetchPrice (en_oracles E) (pr_feed s) = Inr (price, feed)"
    and "checkRecoveryMode (pr_pools s) price = Inr False"
  shows "\<exists>ICR. computeCR (tr_coll (Troves (pr_tm s') borrower)) (tr_debt (Troves (pr_tm s') borrower)) price = Inr ICR \<and> MCR \<le> ICR"
proof -
  obtain s0 w c di u l maxFee where "adjustTrove_internal E sender borrower w c di u l maxFee s0 = Some (Inr (), s')"
      "totals (pr_pools s0) = totals (pr_pools s)" "pr_feed s0 = pr_feed s"
    using assms(1) by (rule trove_adjustment_internal)
  then show ?thesis
    using adjustTrove_internal_mode(1) assms(2,3) checkRecoveryMode_totals unfolding entries_of_trove by metis
qed

text \<open>
  C8. The borrowers cannot bring the system into Recovery Mode: when it is in Normal Mode at the price of
  the feed and an operation of a borrower returns, it is in Normal Mode at that price afterwards. (The
  default pool is a contract that calls none of these operations.)
\<close>

theorem borrowing_keeps_normal_mode:
  assumes "borrower_call E sender s s'" and "fetchPrice (en_oracles E) (pr_feed s) = Inr (price, feed)"
    and "checkRecoveryMode (pr_pools s) price = Inr False" and "sender \<noteq> pool_of_default s"
  shows "checkRecoveryMode (pr_pools s') price = Inr False"
  using assms(1)
proof cases
  case (opened n maxFee c u l)
  then show ?thesis using openTrove_mode assms(2,3) by blast
next
  case (adjusted b)
  obtain s0 w c di u l maxFee where "adjustTrove_internal E sender b w c di u l maxFee s0 = Some (Inr (), s')"
      "totals (pr_pools s0) = totals (pr_pools s)" "pr_feed s0 = pr_feed s" "pool_of_default s0 = pool_of_default s"
    using adjusted by (rule trove_adjustment_internal)
  then show ?thesis using adjustTrove_internal_mode(2) assms(2-4) checkRecoveryMode_totals by metis
next
  case closed
  then show ?thesis using bo_closeTrove_mode assms(2,4) by blast
next
  case claimed
  then show ?thesis using claimCollateral_books(3) assms(3) checkRecoveryMode_totals by metis
qed

section \<open>Collateral sent to the borrower operations\<close>

text \<open>
  The collateral that comes with a call is read off the balance of the contract. A transfer of any amount
  by anybody leaves a balance, and a later withdrawal is taken for a withdrawal with a top-up.
\<close>

text \<open>
  C20. After any account has transferred a positive amount of the collateral token to the borrower
  operations, every withdrawal of collateral, by any borrower, reverts with "Cannot withdraw and add
  coll", as long as the price feed answers and the mode of the system can be computed.
\<close>

theorem donation_blocks_withdrawals:
  assumes "moves_the_amount (en_wsteth E)" and "donor \<noteq> bo_self (pr_bo s)" and "0 < gift"
    and "transfer_WSTETH (en_wsteth E) donor (bo_self (pr_bo s)) gift (pr_pools s) = Inr p"
    and "fetchPrice (en_oracles E) (pr_feed s) = Inr (price, feed)" and "checkRecoveryMode p price = Inr mode" and "0 < n"
  shows "withdrawColl E sender n upper lower (s\<lparr>pr_pools := p\<rparr>) =
    Some (Inl (Revert ''BorrowerOperations: Cannot withdraw and add coll''), s\<lparr>pr_pools := p\<rparr>)"
proof -
  obtain t where "p = (pr_pools s)\<lparr>wsteth := t\<rparr>"
      "\<And>a. a \<noteq> donor \<Longrightarrow> tk_balanceOf (en_wsteth E) t a = tk_balanceOf (en_wsteth E) (wsteth (pr_pools s)) a + (if a = bo_self (pr_bo s) then gift else 0)"
    using transfer_WSTETH_result [OF assms(4,1)] by blast
  then have "0 < tk_balanceOf (en_wsteth E) (wsteth p) (bo_self (pr_bo s))" using assms(2,3) by simp
  then show ?thesis
    using assms(5-7)
    by (simp add: withdrawColl_def adjustTrove_internal_def adjust_guards_def requireSingularCollChange_def transaction_def bind_io_def
        fetch_price_def gets_def return_io_def bo_balance_def)
qed

section \<open>A system with its first trove\<close>

text \<open>
  The contracts as the deployment leaves them, at the addresses 10 to 19, and an account with a hundred
  WSTETH, which opens a trove.
\<close>

definition sample_env :: "(address \<Rightarrow> uint, (address \<Rightarrow> uint) \<times> (address \<Rightarrow> address \<Rightarrow> uint), unit, unit) env" where
  "sample_env =
     \<lparr>en_wsteth = plain_token, en_transferFrom = (\<lambda>t sender a b n. tk_transfer plain_token t a b n), en_oz = plain_oz,
      en_oracles = sample_oracles, en_checkpoint = (\<lambda>_ d. Inr d)\<rparr>"

definition no_trove :: trove where
  "no_trove = \<lparr>tr_debt = 0, tr_coll = 0, tr_stake = 0, tr_status = NonExistent, tr_arrayIndex = 0\<rparr>"

definition sample_bo :: borrower_operations where
  "sample_bo = \<lparr>bo_self = 10, bo_owner = 0, bo_WSTETHAddress = 1, bo_troveManager = 11, bo_activePool = 12, bo_defaultPool = 13,
     bo_stabilityPoolAddress = 14, bo_collSurplusPool = 15, bo_priceFeed = 16, bo_sortedTroves = 17, bo_simToken = 18,
     bo_simVeDistributor = 19, bo_feeReceiver = 30\<rparr>"

definition sample_pools :: "(address \<Rightarrow> uint) pools" where
  "sample_pools =
     \<lparr>at_activePool = 12, at_defaultPool = 13, at_collSurplusPool = 15, at_stabilityPool = 14,
      activePool = \<lparr>ap_owner = 0, ap_WSTETHAddress = 1, ap_borrowerOperationsAddress = 10, ap_troveManagerAddress = 11,
        ap_stabilityPoolAddress = 14, ap_defaultPoolAddress = 13, ap_collSurplusPoolAddress = 15, ap_WSTETH = 0, ap_SIMDebt = 0\<rparr>,
      defaultPool = \<lparr>dp_owner = 0, dp_WSTETHAddress = 1, dp_troveManagerAddress = 11, dp_activePoolAddress = 12, dp_WSTETH = 0, dp_SIMDebt = 0\<rparr>,
      collSurplusPool = \<lparr>cs_owner = 0, cs_WSTETHAddress = 1, cs_borrowerOperationsAddress = 10, cs_troveManagerAddress = 11,
        cs_activePoolAddress = 12, cs_WSTETH = 0, cs_balances = (\<lambda>_. 0)\<rparr>,
      sp_activePool = 12, sp_WSTETH = 0, wsteth = (\<lambda>_. 0)(40 := 100000000000000000000)\<rparr>"

definition sample_tm :: trove_manager where
  "sample_tm =
     \<lparr>tm_self = 11, tm_owner = 0, tm_borrowerOperationsAddress = 10, tm_activePool = 12, tm_defaultPool = 13, tm_stabilityPool = 14,
      tm_collSurplusPool = 15, tm_priceFeed = 16, tm_simToken = 18, tm_sortedTroves = 17, tm_shadyToken = 20, tm_wstETHVeDistributor = 21,
      baseRate = 0, lastFeeOperationTime = 100000, Troves = (\<lambda>_. no_trove), totalStakes = 0, totalStakesSnapshot = 0,
      totalCollateralSnapshot = 0, L_WSTETH = 0, L_SIMDebt = 0, rewardSnapshots = (\<lambda>_. \<lparr>rs_WSTETH = 0, rs_SIMDebt = 0\<rparr>), TroveOwners = [],
      lastWSTETHError_Redistribution = 0, lastSIMDebtError_Redistribution = 0\<rparr>"

definition sample_list :: sorted_troves where
  "sample_list =
     \<lparr>st_owner = 0, st_borrowerOperationsAddress = 10, st_troveManager = 11,
      st_data = \<lparr>head = 0, tail = 0, maxSize = 1000000, size = 0, nodes = (\<lambda>_. no_node)\<rparr>\<rparr>"

definition sample_start :: "(address \<Rightarrow> uint, (address \<Rightarrow> uint) \<times> (address \<Rightarrow> address \<Rightarrow> uint), unit) protocol" where
  "sample_start =
     \<lparr>pr_bo = sample_bo, pr_pools = sample_pools, pr_tm = sample_tm, pr_list = sample_list,
      pr_simToken = \<lparr>sm_self = 18, sm_troveManagerAddress = 11, sm_stabilityPoolAddress = 14, sm_borrowerOperationsAddress = 10\<rparr>,
      pr_sim = (\<lambda>_. 0, \<lambda>_ _. 0), pr_feed = sample_feed Api3Working, pr_dist = ()\<rparr>"

lemmas run_io = transaction_def bind_io_def lift_io_def return_io_def gets_def modify_def ensure_def assert_io_def on_pools_def on_tm_def
  on_list_def on_sim_def take_WSTETH_def fetch_price_def

lemmas run_guards = requireValidMaxFeePercentage_def requireTroveisNotActive_def requireTroveisActive_def trove_active_def opening_guards_def
  callerIsBorrowerOperations_def Sorted_Troves.callerIsBOorTroveM_def Collateral_Pools.callerIsBOorTroveM_def callerIsBOorTroveMorSP_def
  requireUserAcceptsFee_def insert_guards_def isFull_def contains_def isEmpty_def validInsertPosition_def

lemmas run_numbers = u_add_def u_sub_def u_mul_def u_div_def uint_max_def DECIMAL_PRECISION_def NICR_PRECISION_def MCR_def CCR_def
  MIN_NET_DEBT_def BORROWING_FEE_FLOOR_def MAX_BORROWING_FEE_def TM_SECONDS_IN_ONE_MINUTE_def LM_min_def computeCR_def computeNominalCR_def
  getCompositeDebt_def

lemmas run_calls = checkRecoveryMode_def getTCR_def getEntireSystemColl_def getEntireSystemDebt_def getNewTCRFromTroveChange_def changed_def
  borrowing_fee_unless_def triggerBorrowingFee_def decayBaseRateFromBorrowing_def calcDecayedBaseRate_def minutesPassedSinceLastFeeOp_def
  decPow_def updateLastFeeOpTime_def getBorrowingFee_def calcBorrowingRate_def calcBorrowingFee_def sim_mint_def
  record_trove_def setTroveStatus_def increaseTroveColl_def increaseTroveDebt_def updateTroveRewardSnapshots_def update_stake_def
  updateStakeAndTotalStakes_def computeNewStake_def upd_trove_def insert_trove_def list_insert_def insert_position_def link_def
  in_data_def set_exists_def addTroveOwnerToArray_def activePoolAddColl_def transfer_WSTETH_def activePool_receiveWSTETH_def
  withdrawSIM_from_pool_def activePool_increaseSIMDebt_def

lemmas run_samples = sample_start_def sample_env_def sample_bo_def sample_pools_def sample_tm_def
  sample_list_def no_trove_def no_node_def sample_fetch plain_token_def plain_oz_def no_hook_def

lemma sample_now [simp]: "or_now sample_oracles = 100000"
  by (simp add: sample_oracles_def)

lemma sample_opens:
  "\<exists>s'. openTrove sample_env 40 10000000000000000000 50000000000000000 5000000000000000000000 0 0 sample_start = Some (Inr (), s')"
  by (simp add: openTrove_def run_io run_guards run_numbers run_samples run_calls Let_def)

text \<open>The same system once the trove is open.\<close>

definition sample_opened :: "(address \<Rightarrow> uint, (address \<Rightarrow> uint) \<times> (address \<Rightarrow> address \<Rightarrow> uint), unit) protocol" where
  "sample_opened = sample_start
     \<lparr>pr_pools := sample_pools\<lparr>activePool := (activePool sample_pools)\<lparr>ap_WSTETH := 10000000000000000000, ap_SIMDebt := 5025000000000000000000\<rparr>,
        wsteth := ((\<lambda>_. 0)(40 := 90000000000000000000))(12 := 10000000000000000000)\<rparr>,
      pr_tm := sample_tm\<lparr>Troves := (\<lambda>_. no_trove)(40 := \<lparr>tr_debt = 5025000000000000000000, tr_coll = 10000000000000000000,
          tr_stake = 10000000000000000000, tr_status = Active, tr_arrayIndex = 0\<rparr>), totalStakes := 10000000000000000000, TroveOwners := [40]\<rparr>,
      pr_list := sample_list\<lparr>st_data := \<lparr>head = 40, tail = 40, maxSize = 1000000, size = 1,
        nodes = (\<lambda>_. no_node)(40 := \<lparr>nd_exists = True, nd_nextId = 0, nd_prevId = 0\<rparr>)\<rparr>\<rparr>\<rparr>"

lemmas run_adjustment = adjustTrove_internal_def adjust_guards_def requireSingularCollChange_def requireNonZeroAdjustment_def bo_balance_def
  apply_pending_def applyPendingRewards_def hasPendingRewards_def getCollChange_def getNewICRFromTroveChange_def getNewTroveAmounts_def
  requireValidAdjustmentInCurrentMode_def updateTroveFromAdjustment_def getNewNominalICRFromTroveChange_def reInsert_trove_def
  list_reInsert_def list_remove_def unlink_def moveTokensAndWSTETHfromAdjustment_def repaySIM_to_pool_def activePool_decreaseSIMDebt_def
  sim_burn_def decreaseTroveDebt_def decreaseTroveColl_def

lemma sample_adds:
  "\<exists>s'. addColl sample_env 40 1000000000000000000 0 0 sample_opened = Some (Inr (), s')"
  by (simp add: addColl_def run_adjustment run_io run_guards run_numbers sample_opened_def run_samples run_calls Let_def)

lemma sample_mode:
  "checkRecoveryMode (pr_pools sample_opened) 2000000000000000000000 = Inr False"
  "checkRecoveryMode (pr_pools sample_start) 2000000000000000000000 = Inr False"
  by (simp_all add: run_numbers sample_opened_def run_samples run_calls)

text \<open>The properties at these states.\<close>

theorem adjusted_trove_is_collateralised_witness:
  "\<exists>s' ICR. addColl sample_env 40 1000000000000000000 0 0 sample_opened = Some (Inr (), s')
     \<and> computeCR (tr_coll (Troves (pr_tm s') 40)) (tr_debt (Troves (pr_tm s') 40)) 2000000000000000000000 = Inr ICR \<and> MCR \<le> ICR"
proof -
  obtain s' where s': "addColl sample_env 40 1000000000000000000 0 0 sample_opened = Some (Inr (), s')"
    using sample_adds by blast
  have "fetchPrice (en_oracles sample_env) (pr_feed sample_opened) = Inr (2000000000000000000000,
      (sample_feed Api3Working)\<lparr>pf_status := Api3Working, pf_lastGoodPrice := 2200000000000000000000\<rparr>)"
    by (simp add: sample_env_def sample_opened_def sample_start_def sample_fetch)
  from adjusted_trove_is_collateralised [OF trove_adjustment.add_coll [OF s'] this sample_mode(1)] show ?thesis using s' by blast
qed

theorem borrowing_keeps_normal_mode_witness:
  "\<exists>s'. openTrove sample_env 40 10000000000000000000 50000000000000000 5000000000000000000000 0 0 sample_start = Some (Inr (), s')
     \<and> checkRecoveryMode (pr_pools s') 2000000000000000000000 = Inr False"
proof -
  obtain s' where s': "openTrove sample_env 40 10000000000000000000 50000000000000000 5000000000000000000000 0 0 sample_start = Some (Inr (), s')"
    using sample_opens by blast
  have f: "fetchPrice (en_oracles sample_env) (pr_feed sample_start) = Inr (2000000000000000000000,
      (sample_feed Api3Working)\<lparr>pf_status := Api3Working, pf_lastGoodPrice := 2200000000000000000000\<rparr>)"
    by (simp add: sample_env_def sample_start_def sample_fetch)
  have "40 \<noteq> pool_of_default sample_start" by (simp add: pool_of_default_def sample_start_def sample_pools_def)
  from borrowing_keeps_normal_mode [OF borrower_call.opened [OF s'] f sample_mode(2) this] show ?thesis using s' by blast
qed

theorem donation_blocks_withdrawals_witness:
  "withdrawColl sample_env 40 1 0 0 (sample_opened\<lparr>pr_pools := (pr_pools sample_opened)
       \<lparr>wsteth := (((\<lambda>_. 0)(40 := 90000000000000000000))(12 := 10000000000000000000))(40 := 89999999999999999999, 10 := 1)\<rparr>\<rparr>) =
    Some (Inl (Revert ''BorrowerOperations: Cannot withdraw and add coll''), sample_opened\<lparr>pr_pools := (pr_pools sample_opened)
       \<lparr>wsteth := (((\<lambda>_. 0)(40 := 90000000000000000000))(12 := 10000000000000000000))(40 := 89999999999999999999, 10 := 1)\<rparr>\<rparr>)"
proof (rule donation_blocks_withdrawals [where donor = 40 and gift = 1 and s = sample_opened and price = "2000000000000000000000" and mode = False])
  show "moves_the_amount (en_wsteth sample_env)" by (simp add: sample_env_def plain_token_moves)
  show "fetchPrice (en_oracles sample_env) (pr_feed sample_opened) = Inr (2000000000000000000000,
      (sample_feed Api3Working)\<lparr>pf_status := Api3Working, pf_lastGoodPrice := 2200000000000000000000\<rparr>)"
    by (simp add: sample_env_def sample_opened_def sample_start_def sample_fetch)
qed (simp_all add: transfer_WSTETH_def sample_opened_def run_samples run_numbers run_calls)

end
