(* ===== verification/Stability_Operations.thy ===== *)
theory Stability_Operations
  imports Stability_Pool Trove_Books Issuance
begin

text \<open>
  The operations of the stability pool (\<open>contracts/StabilityPool.sol\<close>) over the whole system: deposits and
  withdrawals with the payment of the gains, the gain that goes into a trove, and the offset of a liquidation.
  The tracker of the collateral, \<open>WSTETH\<close> of the contract, is \<open>sp_WSTETH\<close> of the pools. The theorem bounds
  what the depositors can claim together by what the pool records. Events are not modelled.
\<close>

section \<open>The system\<close>

record ('t, 'm, 'd, 'y) system =
  sy_pr :: "('t, 'm, 'd) protocol"
  sy_sp :: stability_pool
  sy_issuance :: issuance
  sy_shady :: 'y

record ('t, 'm, 'p, 'd, 'y) system_env =
  se_env :: "('t, 'm, 'p, 'd) env"
  se_shady :: "'y erc20"

type_synonym ('t, 'm, 'd, 'y, 'a) sysop = "(('t, 'm, 'd, 'y) system, revert, 'a) io"

definition in_protocol :: "('t, 'm, 'd, 'a) op \<Rightarrow> ('t, 'm, 'd, 'y, 'a) sysop" where
  "in_protocol m sy =
     (case m (sy_pr sy) of None \<Rightarrow> None | Some (r, s) \<Rightarrow> Some (r, sy\<lparr>sy_pr := s\<rparr>))"

definition sys_gets :: "(('t, 'm, 'd, 'y) system \<Rightarrow> revert + 'a) \<Rightarrow> ('t, 'm, 'd, 'y, 'a) sysop" where
  "sys_gets f sy = Some (f sy, sy)"

definition on_sp :: "(stability_pool \<Rightarrow> revert + stability_pool) \<Rightarrow> ('t, 'm, 'd, 'y, unit) sysop" where
  "on_sp f sy = (case f (sy_sp sy) of Inl e \<Rightarrow> Some (Inl e, sy) | Inr s \<Rightarrow> Some (Inr (), sy\<lparr>sy_sp := s\<rparr>))"

text \<open>A call of the stability pool to the SIM token.\<close>

definition sp_on_sim :: "(sim_token \<Rightarrow> address \<Rightarrow> 'm \<Rightarrow> revert + 'm) \<Rightarrow> ('t, 'm, 'd, 'y, unit) sysop" where
  "sp_on_sim f sy =
     (case f (pr_simToken (sy_pr sy)) (sp_self (sy_sp sy)) (pr_sim (sy_pr sy)) of
        Inl e \<Rightarrow> Some (Inl e, sy)
      | Inr t \<Rightarrow> Some (Inr (), sy\<lparr>sy_pr := (sy_pr sy)\<lparr>pr_sim := t\<rparr>\<rparr>))"

definition sys_transaction :: "('t, 'm, 'd, 'y, 'a) sysop \<Rightarrow> ('t, 'm, 'd, 'y, 'a) sysop" where
  "sys_transaction m sy = (case m sy of Some (Inl e, _) \<Rightarrow> Some (Inl e, sy) | r \<Rightarrow> r)"

section \<open>Issuance and payments\<close>

definition triggerSHADYIssuance :: "('t, 'm, 'p, 'd, 'y) system_env \<Rightarrow> ('t, 'm, 'd, 'y, unit) sysop" where
  "triggerSHADYIssuance SE sy =
     (case issueSHADY (sy_issuance sy) (sp_self (sy_sp sy)) (or_now (en_oracles (se_env SE))) of
        Inl e \<Rightarrow> Some (Inl e, sy)
      | Inr (SHADYIssuance, i) \<Rightarrow> on_sp (updateG SHADYIssuance) (sy\<lparr>sy_issuance := i\<rparr>))"

definition payOutSHADYGains :: "('t, 'm, 'p, 'd, 'y) system_env \<Rightarrow> address \<Rightarrow> ('t, 'm, 'd, 'y, unit) sysop" where
  "payOutSHADYGains SE depositor sy =
     (case bind_res (getDepositorSHADYGain (sy_sp sy) depositor) (\<lambda>gain.
           sendSHADY (se_shady SE) (sy_shady sy) (sy_issuance sy) (sp_self (sy_sp sy)) depositor gain) of
        Inl e \<Rightarrow> Some (Inl e, sy)
      | Inr t \<Rightarrow> Some (Inr (), sy\<lparr>sy_shady := t\<rparr>))"

definition sendSIMtoStabilityPool :: "('t, 'm, 'p, 'd, 'y) system_env \<Rightarrow> address \<Rightarrow> uint \<Rightarrow> ('t, 'm, 'd, 'y, unit) sysop" where
  "sendSIMtoStabilityPool SE account amount =
     bind_io (sp_on_sim (\<lambda>c self. sim_sendToPool (en_oz (se_env SE)) c self account self amount)) (\<lambda>_.
     on_sp (\<lambda>s. bind_res (u_add (totalSIMDeposits s) amount) (\<lambda>n. Inr (s\<lparr>totalSIMDeposits := n\<rparr>))))"

definition sendSIMToDepositor :: "('t, 'm, 'p, 'd, 'y) system_env \<Rightarrow> address \<Rightarrow> uint \<Rightarrow> ('t, 'm, 'd, 'y, unit) sysop" where
  "sendSIMToDepositor SE depositor SIMWithdrawal =
     (if SIMWithdrawal = 0 then return_io ()
      else bind_io (sp_on_sim (\<lambda>c self. sim_returnFromPool (en_oz (se_env SE)) c self self depositor SIMWithdrawal)) (\<lambda>_.
           on_sp (decreaseSIM SIMWithdrawal)))"

definition requireNoUnderCollateralizedTroves :: "('t, 'm, 'p, 'd, 'y) system_env \<Rightarrow> ('t, 'm, 'd, 'y, unit) sysop" where
  "requireNoUnderCollateralizedTroves SE =
     bind_io (in_protocol (fetch_price (se_env SE))) (\<lambda>price.
     bind_io (sys_gets (\<lambda>sy. getCurrentICR (pr_tm (sy_pr sy)) (tail (st_data (pr_list (sy_pr sy)))) price)) (\<lambda>ICR.
     lift_io (require (MCR \<le> ICR) ''StabilityPool: Cannot withdraw while there are troves with ICR < MCR'')))"

text \<open>What a depositor gets and loses: the gain of collateral and the compounded deposit.\<close>

definition depositor_values :: "uint \<Rightarrow> address \<Rightarrow> ('t, 'm, 'd, 'y, uint \<times> uint) sysop" where
  "depositor_values initialDeposit depositor =
     bind_io (sys_gets (\<lambda>sy. getDepositorWSTETHGain (sy_sp sy) depositor)) (\<lambda>gain.
     bind_io (sys_gets (\<lambda>sy. getCompoundedSIMDeposit (sy_sp sy) depositor)) (\<lambda>compounded.
     bind_io (lift_io (u_sub initialDeposit compounded)) (\<lambda>_. return_io (gain, compounded))))"

definition initial_deposit :: "address \<Rightarrow> ('t, 'm, 'd, 'y, uint) sysop" where
  "initial_deposit depositor = sys_gets (\<lambda>sy. Inr (de_initialValue (deposits (sy_sp sy) depositor)))"

section \<open>Operations\<close>

definition provideToSP :: "('t, 'm, 'p, 'd, 'y) system_env \<Rightarrow> address \<Rightarrow> uint \<Rightarrow> ('t, 'm, 'd, 'y, unit) sysop" where
  "provideToSP SE sender amount =
     sys_transaction (
     bind_io (lift_io (require (0 < amount) ''StabilityPool: Amount must be non-zero'')) (\<lambda>_.
     bind_io (initial_deposit sender) (\<lambda>initialDeposit.
     bind_io (triggerSHADYIssuance SE) (\<lambda>_.
     bind_io (depositor_values initialDeposit sender) (\<lambda>(depositorWSTETHGain, compoundedSIMDeposit).
     bind_io (payOutSHADYGains SE sender) (\<lambda>_.
     bind_io (sendSIMtoStabilityPool SE sender amount) (\<lambda>_.
     bind_io (lift_io (u_add compoundedSIMDeposit amount)) (\<lambda>newDeposit.
     bind_io (on_sp (\<lambda>s. Inr (updateDepositAndSnapshots sender newDeposit s))) (\<lambda>_.
     in_protocol (on_pools (sendWSTETHGainToDepositor (en_wsteth (se_env SE)) sender depositorWSTETHGain)))))))))))"

definition withdrawFromSP :: "('t, 'm, 'p, 'd, 'y) system_env \<Rightarrow> address \<Rightarrow> uint \<Rightarrow> ('t, 'm, 'd, 'y, unit) sysop" where
  "withdrawFromSP SE sender amount =
     sys_transaction (
     bind_io (if amount \<noteq> 0 then requireNoUnderCollateralizedTroves SE else return_io ()) (\<lambda>_.
     bind_io (initial_deposit sender) (\<lambda>initialDeposit.
     bind_io (lift_io (require (0 < initialDeposit) ''StabilityPool: User must have a non-zero deposit'')) (\<lambda>_.
     bind_io (triggerSHADYIssuance SE) (\<lambda>_.
     bind_io (depositor_values initialDeposit sender) (\<lambda>(depositorWSTETHGain, compoundedSIMDeposit).
     let SIMtoWithdraw = LM_min amount compoundedSIMDeposit in
     bind_io (payOutSHADYGains SE sender) (\<lambda>_.
     bind_io (sendSIMToDepositor SE sender SIMtoWithdraw) (\<lambda>_.
     bind_io (lift_io (u_sub compoundedSIMDeposit SIMtoWithdraw)) (\<lambda>newDeposit.
     bind_io (on_sp (\<lambda>s. Inr (updateDepositAndSnapshots sender newDeposit s))) (\<lambda>_.
     in_protocol (on_pools (sendWSTETHGainToDepositor (en_wsteth (se_env SE)) sender depositorWSTETHGain))))))))))))"

definition withdrawWSTETHGainToTrove ::
    "('t, 'm, 'p, 'd, 'y) system_env \<Rightarrow> address \<Rightarrow> address \<Rightarrow> address \<Rightarrow> ('t, 'm, 'd, 'y, unit) sysop" where
  "withdrawWSTETHGainToTrove SE sender upperHint lowerHint =
     sys_transaction (
     bind_io (initial_deposit sender) (\<lambda>initialDeposit.
     bind_io (lift_io (require (0 < initialDeposit) ''StabilityPool: User must have a non-zero deposit'')) (\<lambda>_.
     bind_io (sys_gets (\<lambda>sy. require (trove_active (sy_pr sy) sender)
         ''StabilityPool: caller must have an active trove to withdraw WSTETHGain to'')) (\<lambda>_.
     bind_io (sys_gets (\<lambda>sy. bind_res (getDepositorWSTETHGain (sy_sp sy) sender) (\<lambda>gain.
         require (0 < gain) ''StabilityPool: caller must have non-zero WSTETH Gain''))) (\<lambda>_.
     bind_io (triggerSHADYIssuance SE) (\<lambda>_.
     bind_io (depositor_values initialDeposit sender) (\<lambda>(depositorWSTETHGain, compoundedSIMDeposit).
     bind_io (payOutSHADYGains SE sender) (\<lambda>_.
     bind_io (on_sp (\<lambda>s. Inr (updateDepositAndSnapshots sender compoundedSIMDeposit s))) (\<lambda>_.
     bind_io (sys_gets (\<lambda>sy. Inr (sp_self (sy_sp sy), bo_self (pr_bo (sy_pr sy))))) (\<lambda>(self, borrowerOperations).
     bind_io (in_protocol (on_pools (\<lambda>p. bind_res (u_sub (sp_WSTETH p) depositorWSTETHGain) (\<lambda>w.
         transfer_WSTETH (en_wsteth (se_env SE)) (at_stabilityPool p) borrowerOperations depositorWSTETHGain (p\<lparr>sp_WSTETH := w\<rparr>))))) (\<lambda>_.
     in_protocol (moveWSTETHGainToTrove (se_env SE) self sender upperHint lowerHint))))))))))))"

definition moveOffsetCollAndDebt :: "('t, 'm, 'p, 'd, 'y) system_env \<Rightarrow> uint \<Rightarrow> uint \<Rightarrow> ('t, 'm, 'd, 'y, unit) sysop" where
  "moveOffsetCollAndDebt SE collToAdd debtToOffset =
     bind_io (sys_gets (\<lambda>sy. Inr (sp_self (sy_sp sy)))) (\<lambda>self.
     bind_io (in_protocol (on_pools (activePool_decreaseSIMDebt self debtToOffset))) (\<lambda>_.
     bind_io (on_sp (decreaseSIM debtToOffset)) (\<lambda>_.
     bind_io (sp_on_sim (\<lambda>c self. sim_burn (en_oz (se_env SE)) c self self debtToOffset)) (\<lambda>_.
     in_protocol (on_pools (sendWSTETH (en_wsteth (se_env SE)) self self collToAdd))))))"

definition offset :: "('t, 'm, 'p, 'd, 'y) system_env \<Rightarrow> address \<Rightarrow> uint \<Rightarrow> uint \<Rightarrow> ('t, 'm, 'd, 'y, unit) sysop" where
  "offset SE sender debtToOffset collToAdd =
     bind_io (sys_gets (\<lambda>sy. require (sender = sp_troveManager (sy_sp sy)) ''StabilityPool: Caller is not TroveManager'')) (\<lambda>_.
     bind_io (sys_gets (\<lambda>sy. Inr (totalSIMDeposits (sy_sp sy)))) (\<lambda>totalSIM.
     if totalSIM = 0 \<or> debtToOffset = 0 then return_io ()
     else
       bind_io (triggerSHADYIssuance SE) (\<lambda>_.
       bind_io (sys_gets (\<lambda>sy. computeRewardsPerUnitStaked collToAdd debtToOffset totalSIM (sy_sp sy))) (\<lambda>((gain, loss), s).
       bind_io (on_sp (\<lambda>_. updateRewardSumAndProduct gain loss s)) (\<lambda>_.
       moveOffsetCollAndDebt SE collToAdd debtToOffset)))))"

definition stabilityPool_setAddresses ::
    "(address \<Rightarrow> bool) \<Rightarrow> address \<Rightarrow> address \<Rightarrow> address \<Rightarrow> address \<Rightarrow> address \<Rightarrow> address \<Rightarrow> address \<Rightarrow> address \<Rightarrow> address
      \<Rightarrow> stability_pool \<Rightarrow> revert + stability_pool" where
  "stabilityPool_setAddresses is_contract sender wst borrowerOperations troveManager activePoolA simToken sortedTroves priceFeed communityIssuance s =
     bind_res (only_owner (sp_owner s) sender) (\<lambda>_.
     bind_res (checkContracts is_contract [wst, borrowerOperations, troveManager, activePoolA, simToken, sortedTroves, priceFeed,
        communityIssuance]) (\<lambda>_.
     Inr (s\<lparr>sp_WSTETHAddress := wst, sp_borrowerOperations := borrowerOperations, sp_troveManager := troveManager,
            sp_activePoolAddress := activePoolA, sp_simToken := simToken, sp_sortedTroves := sortedTroves, sp_priceFeed := priceFeed,
            sp_communityIssuance := communityIssuance, sp_owner := 0\<rparr>)))"

section \<open>What the operations do to the accounting\<close>

named_theorems sp_effects \<open>what a call that returns does to the state of the stability pool\<close>

lemma in_protocol_sp [sp_effects]: "in_protocol m sy = Some (r, sy') \<Longrightarrow> sy_sp sy' = sy_sp sy"
  by (auto simp: in_protocol_def split: option.splits)

lemma sp_on_sim_sp [sp_effects]: "sp_on_sim f sy = Some (r, sy') \<Longrightarrow> sy_sp sy' = sy_sp sy"
  by (auto simp: sp_on_sim_def split: sum.splits)

lemma payOutSHADYGains_sp [sp_effects]: "payOutSHADYGains SE a sy = Some (r, sy') \<Longrightarrow> sy_sp sy' = sy_sp sy"
  by (auto simp: payOutSHADYGains_def split: sum.splits)

lemma on_sp_returns: "on_sp f sy = Some (Inr x, sy') \<longleftrightarrow> (\<exists>s. f (sy_sp sy) = Inr s \<and> sy' = sy\<lparr>sy_sp := s\<rparr>)"
  by (auto simp: on_sp_def split: sum.splits)

lemma sys_gets_returns: "sys_gets f sy = Some (Inr a, sy') \<longleftrightarrow> f sy = Inr a \<and> sy' = sy"
  by (auto simp: sys_gets_def)

lemma sys_transaction_returns: "sys_transaction m sy = Some (Inr a, sy') \<longleftrightarrow> m sy = Some (Inr a, sy')"
  by (auto simp: sys_transaction_def split: option.splits sum.splits)

lemmas sys_returns = sys_gets_returns lift_returns return_io_def sys_transaction_returns initial_deposit_def

lemma requireNoUnderCollateralizedTroves_sp [sp_effects]:
  "requireNoUnderCollateralizedTroves SE sy = Some (Inr x, sy') \<Longrightarrow> sy_sp sy' = sy_sp sy"
  by (auto simp: requireNoUnderCollateralizedTroves_def bind_io_eq_Inr sys_returns dest: in_protocol_sp)

lemma triggerSHADYIssuance_sp:
  assumes "triggerSHADYIssuance SE sy = Some (Inr x, sy')"
  obtains n where "updateG n (sy_sp sy) = Inr (sy_sp sy')"
  using assms that by (auto simp: triggerSHADYIssuance_def on_sp_returns split: sum.splits)

lemma depositor_values_returns:
  assumes "depositor_values d a sy = Some (Inr v, sy')"
  shows "sy' = sy" and "getDepositorWSTETHGain (sy_sp sy) a = Inr (fst v)" and "getCompoundedSIMDeposit (sy_sp sy) a = Inr (snd v)"
  using assms by (auto simp: depositor_values_def bind_io_eq_Inr sys_returns)

lemma sendSIMtoStabilityPool_sp:
  assumes "sendSIMtoStabilityPool SE a n sy = Some (Inr x, sy')"
  shows "sy_sp sy' = (sy_sp sy)\<lparr>totalSIMDeposits := totalSIMDeposits (sy_sp sy) + n\<rparr>"
  using assms
  by (auto simp: sendSIMtoStabilityPool_def bind_io_eq_Inr on_sp_returns bind_res_eq_Inr checked_Inr dest!: sp_on_sim_sp)

lemma sendSIMToDepositor_sp:
  assumes "sendSIMToDepositor SE a n sy = Some (Inr x, sy')"
  shows "sy_sp sy' = (sy_sp sy)\<lparr>totalSIMDeposits := totalSIMDeposits (sy_sp sy) - n\<rparr>" and "n \<le> totalSIMDeposits (sy_sp sy)"
proof -
  have "sy_sp sy' = (sy_sp sy)\<lparr>totalSIMDeposits := totalSIMDeposits (sy_sp sy) - n\<rparr> \<and> n \<le> totalSIMDeposits (sy_sp sy)"
  proof (cases "n = 0")
    case False
    then show ?thesis using assms
      by (auto simp: sendSIMToDepositor_def bind_io_eq_Inr on_sp_returns decreaseSIM_def bind_res_eq_Inr checked_Inr dest!: sp_on_sim_sp)
  qed (use assms in \<open>simp add: sendSIMToDepositor_def return_io_def\<close>)
  then show "sy_sp sy' = (sy_sp sy)\<lparr>totalSIMDeposits := totalSIMDeposits (sy_sp sy) - n\<rparr>" and "n \<le> totalSIMDeposits (sy_sp sy)" by simp_all
qed

text \<open>
  Each operation of a depositor issues SHADY, changes the total and stores the new deposit, in this order;
  the new deposit and the total change by the same amount.
\<close>

definition redeposit :: "address \<Rightarrow> stability_pool \<Rightarrow> stability_pool \<Rightarrow> bool" where
  "redeposit a s s' \<longleftrightarrow>
     (\<exists>n s1 c t v. updateG n s = Inr s1 \<and> getCompoundedSIMDeposit s1 a = Inr c \<and> v + totalSIMDeposits s1 = c + t
        \<and> s' = updateDepositAndSnapshots a v (s1\<lparr>totalSIMDeposits := t\<rparr>))"

lemma redepositI:
  assumes "triggerSHADYIssuance SE sy = Some (Inr x, sy1)" and "depositor_values d a sy1 = Some (Inr w, sy2)" and "sy_sp sy = s"
    and "v + totalSIMDeposits (sy_sp sy2) = snd w + t" and "s' = updateDepositAndSnapshots a v ((sy_sp sy2)\<lparr>totalSIMDeposits := t\<rparr>)"
  shows "redeposit a s s'"
  using triggerSHADYIssuance_sp [OF assms(1)] depositor_values_returns(1,3) [OF assms(2)] assms(3-5) unfolding redeposit_def by metis

lemma redeposit_sameI:
  assumes "triggerSHADYIssuance SE sy = Some (Inr x, sy1)" and "depositor_values d a sy1 = Some (Inr w, sy2)" and "sy_sp sy = s"
    and "s' = updateDepositAndSnapshots a (snd w) (sy_sp sy2)"
  shows "redeposit a s s'"
  using assms(4) by (intro redepositI [OF assms(1-3), where t = "totalSIMDeposits (sy_sp sy2)"]) (cases "sy_sp sy2", simp_all)

lemma provideToSP_redeposit:
  assumes "provideToSP SE a n sy = Some (Inr x, sy')"
  shows "redeposit a (sy_sp sy) (sy_sp sy')"
  using assms unfolding provideToSP_def sys_transaction_returns case_prod_unfold
  apply (elim bind_ioE)
  apply (simp only: sys_returns checked_Inr on_sp_returns sum.inject)
  apply (elim conjE exE)
  apply hypsubst
  apply (drule in_protocol_sp sendSIMtoStabilityPool_sp payOutSHADYGains_sp)+
  apply (erule (1) redepositI [where t = "totalSIMDeposits (sy_sp _) + n"])
    apply simp_all
  done

lemma withdrawFromSP_redeposit:
  assumes "withdrawFromSP SE a n sy = Some (Inr x, sy')"
  shows "redeposit a (sy_sp sy) (sy_sp sy')"
  using assms unfolding withdrawFromSP_def sys_transaction_returns case_prod_unfold Let_def
  apply (elim bind_ioE)
  apply (simp only: sys_gets_returns lift_returns sys_transaction_returns initial_deposit_def checked_Inr on_sp_returns sum.inject)
  apply (elim conjE exE)
  apply hypsubst
  apply (frule sendSIMToDepositor_sp(1), drule sendSIMToDepositor_sp(2))
  apply (drule in_protocol_sp payOutSHADYGains_sp)+
  apply (erule (1) redepositI [where t = "totalSIMDeposits (sy_sp _) - LM_min n _"])
    apply (simp_all add: return_io_def requireNoUnderCollateralizedTroves_sp split: if_splits)
  done

lemma withdrawWSTETHGainToTrove_redeposit:
  assumes "withdrawWSTETHGainToTrove SE a u l sy = Some (Inr x, sy')"
  shows "redeposit a (sy_sp sy) (sy_sp sy')"
  using assms unfolding withdrawWSTETHGainToTrove_def sys_transaction_returns case_prod_unfold Let_def
  apply (elim bind_ioE)
  apply (simp only: sys_gets_returns lift_returns sys_transaction_returns initial_deposit_def checked_Inr on_sp_returns sum.inject)
  apply (elim conjE exE)
  apply hypsubst
  apply (drule in_protocol_sp payOutSHADYGains_sp)+
  apply (erule (1) redeposit_sameI)
   apply simp_all
  done

lemma covered_redeposit:
  assumes "redeposit a s s'" and "covered M s"
  shows "covered M s'"
proof -
  obtain n s1 c t v where g: "updateG n s = Inr s1" "getCompoundedSIMDeposit s1 a = Inr c" "v + totalSIMDeposits s1 = c + t"
      and s': "s' = updateDepositAndSnapshots a v (s1\<lparr>totalSIMDeposits := t\<rparr>)"
    using assms(1) by (auto simp: redeposit_def)
  show ?thesis unfolding s' using g covered_updateG(1) [OF g(1) assms(2)] by (intro covered_deposit) auto
qed

lemma moveOffsetCollAndDebt_sp:
  assumes "moveOffsetCollAndDebt SE n d sy = Some (Inr x, sy')"
  shows "decreaseSIM d (sy_sp sy) = Inr (sy_sp sy')"
  using assms unfolding moveOffsetCollAndDebt_def
  apply (elim bind_ioE)
  apply (simp only: sys_gets_returns on_sp_returns sum.inject)
  apply (elim conjE exE)
  apply hypsubst
  apply (drule in_protocol_sp sp_on_sim_sp)+
  apply simp
  done

lemma covered_offset_call:
  assumes "offset SE sender d n sy = Some (Inr x, sy')" and "covered M (sy_sp sy)" and "totalSIMDeposits (sy_sp sy) \<le> M"
  shows "covered M (sy_sp sy')"
proof (cases "totalSIMDeposits (sy_sp sy) = 0 \<or> d = 0")
  case True
  then show ?thesis using assms by (auto simp: offset_def bind_io_eq_Inr sys_gets_returns return_io_def)
next
  case False
  then obtain sy1 g l s s2 where r: "triggerSHADYIssuance SE sy = Some (Inr (), sy1)"
      "computeRewardsPerUnitStaked n d (totalSIMDeposits (sy_sp sy)) (sy_sp sy1) = Inr ((g, l), s)"
      "updateRewardSumAndProduct g l s = Inr s2" "moveOffsetCollAndDebt SE n d (sy1\<lparr>sy_sp := s2\<rparr>) = Some (Inr x, sy')"
    using assms(1) by (auto simp: offset_def bind_io_eq_Inr sys_gets_returns on_sp_returns)
  obtain i where i: "updateG i (sy_sp sy) = Inr (sy_sp sy1)" using r(1) by (rule triggerSHADYIssuance_sp)
  note g = covered_updateG [OF i assms(2)]
  show ?thesis
    using covered_offset [OF _ r(3) _ g(1)] moveOffsetCollAndDebt_sp [OF r(4)] r(2) g(2) assms(3) by simp
qed

section \<open>Runs\<close>

text \<open>
  A call to the stability pool at some time and price, or anything that leaves its accounting alone: the
  other contracts and tokens may change in any way.
\<close>

inductive sp_step :: "('t, 'm, 'p, 'd, 'y) system_env \<Rightarrow> ('t, 'm, 'd, 'y) system \<Rightarrow> ('t, 'm, 'd, 'y) system \<Rightarrow> bool" for SE where
  provide: "provideToSP (SE\<lparr>se_env := (se_env SE)\<lparr>en_oracles := now\<rparr>\<rparr>) a n sy = Some (Inr x, sy') \<Longrightarrow> sp_step SE sy sy'"
| withdraw: "withdrawFromSP (SE\<lparr>se_env := (se_env SE)\<lparr>en_oracles := now\<rparr>\<rparr>) a n sy = Some (Inr x, sy') \<Longrightarrow> sp_step SE sy sy'"
| gain_to_trove: "withdrawWSTETHGainToTrove (SE\<lparr>se_env := (se_env SE)\<lparr>en_oracles := now\<rparr>\<rparr>) a u l sy = Some (Inr x, sy') \<Longrightarrow> sp_step SE sy sy'"
| offsets: "offset (SE\<lparr>se_env := (se_env SE)\<lparr>en_oracles := now\<rparr>\<rparr>) a d n sy = Some (Inr x, sy') \<Longrightarrow> sp_step SE sy sy'"
| set_addresses: "stabilityPool_setAddresses is_contract a a1 a2 a3 a4 a5 a6 a7 a8 (sy_sp sy) = Inr s \<Longrightarrow> sp_step SE sy (sy\<lparr>sy_sp := s\<rparr>)"
| elsewhere: "sy_sp sy' = sy_sp sy \<Longrightarrow> sp_step SE sy sy'"

text \<open>A run from the deployed pool, with the largest total of deposits it has seen.\<close>

inductive sp_run :: "('t, 'm, 'p, 'd, 'y) system_env \<Rightarrow> ('t, 'm, 'd, 'y) system \<Rightarrow> uint \<Rightarrow> bool" for SE where
  deployed: "sy_sp sy = new_stability_pool self owner \<Longrightarrow> sp_run SE sy 0"
| run_step: "sp_run SE sy peak \<Longrightarrow> sp_step SE sy sy' \<Longrightarrow> sp_run SE sy' (max peak (totalSIMDeposits (sy_sp sy')))"

lemma covered_mono: "covered M s \<Longrightarrow> M \<le> M' \<Longrightarrow> covered M' s"
  by (auto simp: covered_def)

lemma covered_setAddresses:
  assumes "stabilityPool_setAddresses is_contract a a1 a2 a3 a4 a5 a6 a7 a8 s = Inr s'" and "covered M s"
  shows "covered M s'"
proof -
  have s': "s' = s\<lparr>sp_WSTETHAddress := a1, sp_borrowerOperations := a2, sp_troveManager := a3, sp_activePoolAddress := a4, sp_simToken := a5,
      sp_sortedTroves := a6, sp_priceFeed := a7, sp_communityIssuance := a8, sp_owner := 0\<rparr>"
    using assms(1) by (auto simp: stabilityPool_setAddresses_def bind_res_eq_Inr)
  have "share s' = share s" by (simp add: s' share_def fun_eq_iff)
  then show ?thesis using assms(2) by (simp add: covered_def sp_wf_def depositors_def taken_before_def s')
qed

lemma covered_step:
  assumes "sp_step SE sy sy'" and "covered M (sy_sp sy)" and "totalSIMDeposits (sy_sp sy) \<le> M"
  shows "covered M (sy_sp sy')"
  using assms
  by (cases rule: sp_step.cases)
    (auto intro: covered_redeposit provideToSP_redeposit withdrawFromSP_redeposit withdrawWSTETHGainToTrove_redeposit
      covered_offset_call covered_setAddresses)

lemma run_covered:
  assumes "sp_run SE sy M"
  shows "covered M (sy_sp sy) \<and> totalSIMDeposits (sy_sp sy) \<le> M"
  using assms
proof induction
  case (deployed sy self owner)
  then show ?case by (simp add: covered_def sp_wf_def depositors_def new_stability_pool_def)
next
  case (run_step sy peak sy')
  then show ?case using covered_step [of SE sy sy' peak] by (auto intro: covered_mono)
qed

lemma covered_claims:
  assumes "covered M s" and "finite A" and "\<And>a. a \<in> A \<Longrightarrow> getCompoundedSIMDeposit s a = Inr (c a)"
  shows "(\<Sum>a\<in>A. c a) * 10 ^ 18 \<le> totalSIMDeposits s * 10 ^ 18 + M"
proof -
  have wf: "sp_wf s" using assms(1) by (simp add: covered_def)
  then have fin: "finite (depositors s)" by (simp add: sp_wf_def)
  have "real (\<Sum>a\<in>A. c a) \<le> (\<Sum>a\<in>A. share s a)" using assms(3) compounded_le_share [OF wf] by (simp add: sum_mono)
  also have "\<dots> = (\<Sum>a\<in>A \<inter> depositors s. share s a)"
    using assms(2) by (intro sum.mono_neutral_right) (auto simp: share_def depositors_def)
  also have "\<dots> \<le> (\<Sum>a\<in>depositors s. share s a)" using fin share_nonneg by (intro sum_mono2) auto
  finally have "real (\<Sum>a\<in>A. c a) * DP \<le> (\<Sum>a\<in>depositors s. share s a) * DP" by (rule mult_right_mono) simp
  also have "\<dots> \<le> real (totalSIMDeposits s) * DP + real M" using assms(1) by (simp add: covered_def)
  finally have "real ((\<Sum>a\<in>A. c a) * 10 ^ 18) \<le> real (totalSIMDeposits s * 10 ^ 18 + M)" by simp
  then show ?thesis by (simp only: of_nat_le_iff)
qed

text \<open>
  C21. What the depositors of the stability pool can claim. Whatever sequence of deposits, withdrawals, gains
  moved to troves and offsets leads from the deployed pool to a state, the compounded deposits that the
  contract reports exceed the SIM it records by at most the \<open>10 ^ 18\<close>th part of the largest total it has held,
  less than a unit of SIM for every SIM.
\<close>

theorem compounded_deposits_bounded:
  assumes "sp_run SE sy peak" and "finite A" and "\<And>a. a \<in> A \<Longrightarrow> getCompoundedSIMDeposit (sy_sp sy) a = Inr (compounded a)"
  shows "(\<Sum>a\<in>A. compounded a) * 10 ^ 18 \<le> totalSIMDeposits (sy_sp sy) * 10 ^ 18 + peak"
  using run_covered [OF assms(1)] covered_claims assms(2,3) by blast

section \<open>A system that does it\<close>

definition sample_pool_env ::
    "(address \<Rightarrow> uint, (address \<Rightarrow> uint) \<times> (address \<Rightarrow> address \<Rightarrow> uint), unit, unit, address \<Rightarrow> uint) system_env" where
  "sample_pool_env = \<lparr>se_env = sample_env, se_shady = plain_token\<rparr>"

definition sample_pool_system ::
    "(address \<Rightarrow> uint, (address \<Rightarrow> uint) \<times> (address \<Rightarrow> address \<Rightarrow> uint), unit, address \<Rightarrow> uint) system" where
  "sample_pool_system =
     \<lparr>sy_pr = sample_opened\<lparr>pr_sim := ((\<lambda>_. 0)(40 := 5000000000000000000000), \<lambda>_ _. 0)\<rparr>, sy_sp = new_stability_pool 14 9,
      sy_issuance = \<lparr>is_self = 22, is_owner = 0, is_shadyToken = 20, is_issuerAddress = 14, is_totalSHADYIssued = 0, is_deploymentTime = 100000\<rparr>,
      sy_shady = (\<lambda>_. 0)(22 := 30000000000000000000000000)\<rparr>"

lemmas run_stability = sys_transaction_def in_protocol_def sys_gets_def on_sp_def sp_on_sim_def initial_deposit_def depositor_values_def
  triggerSHADYIssuance_def payOutSHADYGains_def sendSIMtoStabilityPool_def issueSHADY_def sendSHADY_def callerIsIssuer_def
  getCumulativeIssuanceFraction_def updateG_def getDepositorWSTETHGain_def getDepositorSHADYGain_def getCompoundedSIMDeposit_def
  getCompoundedStakeFromSnapshots_def sim_sendToPool_def sendWSTETHGainToDepositor_def new_stability_pool_def updateDepositAndSnapshots_def
  SECONDS_IN_ONE_MINUTE_def SHADYSupplyCap_def ISSUANCE_FACTOR_def decPow_def

lemma sample_provides:
  "\<exists>sy'. provideToSP sample_pool_env 40 100000000000000000000 sample_pool_system = Some (Inr (), sy')
     \<and> totalSIMDeposits (sy_sp sy') = 100000000000000000000 \<and> getCompoundedSIMDeposit (sy_sp sy') 40 = Inr 100000000000000000000"
  by (simp add: provideToSP_def run_stability sample_pool_env_def sample_pool_system_def sample_opened_def run_samples run_io run_numbers
      moved_def Let_def)

lemma compounded_deposits_bounded_witness:
  "\<exists>sy'. sp_run sample_pool_env sy' 100000000000000000000 \<and> getCompoundedSIMDeposit (sy_sp sy') 40 = Inr 100000000000000000000
     \<and> (\<Sum>a\<in>{40::nat}. 100000000000000000000) * 10 ^ 18 \<le> totalSIMDeposits (sy_sp sy') * 10 ^ 18 + 100000000000000000000"
proof -
  obtain sy' where p: "provideToSP sample_pool_env 40 100000000000000000000 sample_pool_system = Some (Inr (), sy')"
      and t: "totalSIMDeposits (sy_sp sy') = 100000000000000000000" "getCompoundedSIMDeposit (sy_sp sy') 40 = Inr 100000000000000000000"
    using sample_provides by blast
  have start: "sp_run sample_pool_env sample_pool_system 0"
    by (rule deployed [where self = 14 and owner = 9]) (simp add: sample_pool_system_def)
  have "sp_step sample_pool_env sample_pool_system sy'"
    using provide [where SE = sample_pool_env and now = sample_oracles] p by (simp add: sample_pool_env_def sample_env_def)
  from run_step [OF start this] have r: "sp_run sample_pool_env sy' 100000000000000000000" by (simp add: t)
  then show ?thesis
    using compounded_deposits_bounded [OF r, where A = "{40}" and compounded = "\<lambda>_. 100000000000000000000"] t(2) by blast
qed

end
