(* ===== verification/Liquidation.thy ===== *)
theory Liquidation
  imports Stability_Operations
begin

text \<open>
  The liquidations (\<open>contracts/TroveManager.sol\<close>): of one trove in the two modes, of the troves at the end of
  the list or of a batch, and the settlement of their totals with the pools. The theorems say which troves a
  liquidation can close and that the books of the troves balance after it. Events are not modelled.
\<close>

section \<open>Data\<close>

record liquidation_values =
  lv_entireTroveDebt :: uint
  lv_entireTroveColl :: uint
  lv_collGasCompensation :: uint
  lv_debtToOffset :: uint
  lv_collToSendToSP :: uint
  lv_debtToRedistribute :: uint
  lv_collToRedistribute :: uint
  lv_collSurplus :: uint

record liquidation_totals =
  totalCollInSequence :: uint
  totalDebtInSequence :: uint
  totalCollGasCompensation :: uint
  totalDebtToOffset :: uint
  totalCollToSendToSP :: uint
  totalDebtToRedistribute :: uint
  totalCollToRedistribute :: uint
  totalCollSurplus :: uint

definition zero_values :: liquidation_values where
  "zero_values =
     \<lparr>lv_entireTroveDebt = 0, lv_entireTroveColl = 0, lv_collGasCompensation = 0, lv_debtToOffset = 0, lv_collToSendToSP = 0,
      lv_debtToRedistribute = 0, lv_collToRedistribute = 0, lv_collSurplus = 0\<rparr>"

definition zero_totals :: liquidation_totals where
  "zero_totals =
     \<lparr>totalCollInSequence = 0, totalDebtInSequence = 0, totalCollGasCompensation = 0, totalDebtToOffset = 0, totalCollToSendToSP = 0,
      totalDebtToRedistribute = 0, totalCollToRedistribute = 0, totalCollSurplus = 0\<rparr>"

definition hundred_pct :: uint where "hundred_pct = 1000000000000000000"

section \<open>One trove\<close>

text \<open>Steps of the trove manager on its own state, and its calls to the list.\<close>

definition within_tm :: "(trove_manager \<Rightarrow> revert + trove_manager) \<Rightarrow> ('t, 'm, 'd, unit) op" where
  "within_tm f = modify (\<lambda>s. bind_res (f (pr_tm s)) (\<lambda>m. Inr (s\<lparr>pr_tm := m\<rparr>)))"

definition close_trove :: "address \<Rightarrow> trove_status \<Rightarrow> ('t, 'm, 'd, unit) op" where
  "close_trove borrower status s =
     (case closeTrove borrower status (pr_tm s, pr_list s) of
        None \<Rightarrow> None
      | Some (Inl e) \<Rightarrow> Some (Inl e, s)
      | Some (Inr (m, st)) \<Rightarrow> Some (Inr (), s\<lparr>pr_tm := m, pr_list := st\<rparr>))"

definition move_pending :: "('t, 'm, 'p, 'd) env \<Rightarrow> uint \<Rightarrow> uint \<Rightarrow> ('t, 'm, 'd, unit) op" where
  "move_pending E SIM WSTETH =
     modify (\<lambda>s. bind_res (movePendingTroveRewardsToActivePool (en_wsteth E) (pr_tm s) SIM WSTETH (pr_pools s)) (\<lambda>p. Inr (s\<lparr>pr_pools := p\<rparr>)))"

definition getOffsetAndRedistributionVals :: "uint \<Rightarrow> uint \<Rightarrow> uint \<Rightarrow> revert + uint \<times> uint \<times> uint \<times> uint" where
  "getOffsetAndRedistributionVals debt coll SIMInStabPool =
     (if 0 < SIMInStabPool then
        let debtToOffset = LM_min debt SIMInStabPool in
        bind_res (bind_res (u_mul coll debtToOffset) (\<lambda>x. u_div x debt)) (\<lambda>collToSendToSP.
        bind_res (u_sub debt debtToOffset) (\<lambda>debtToRedistribute.
        bind_res (u_sub coll collToSendToSP) (\<lambda>collToRedistribute.
        Inr (debtToOffset, collToSendToSP, debtToRedistribute, collToRedistribute))))
      else Inr (0, 0, debt, coll))"

definition getCappedOffsetVals :: "uint \<Rightarrow> uint \<Rightarrow> uint \<Rightarrow> revert + liquidation_values" where
  "getCappedOffsetVals entireTroveDebt entireTroveColl price =
     bind_res (bind_res (u_mul entireTroveDebt MCR) (\<lambda>x. u_div x price)) (\<lambda>cappedCollPortion.
     let gas = getCollGasCompensation cappedCollPortion in
     bind_res (u_sub cappedCollPortion gas) (\<lambda>collToSendToSP.
     bind_res (u_sub entireTroveColl cappedCollPortion) (\<lambda>collSurplus.
     Inr \<lparr>lv_entireTroveDebt = entireTroveDebt, lv_entireTroveColl = entireTroveColl, lv_collGasCompensation = gas,
          lv_debtToOffset = entireTroveDebt, lv_collToSendToSP = collToSendToSP, lv_debtToRedistribute = 0, lv_collToRedistribute = 0,
          lv_collSurplus = collSurplus\<rparr>)))"

text \<open>The pending rewards of the trove come back to the active pool and its stake goes.\<close>

definition detach_trove :: "('t, 'm, 'p, 'd) env \<Rightarrow> address \<Rightarrow> uint \<Rightarrow> uint \<Rightarrow> ('t, 'm, 'd, unit) op" where
  "detach_trove E borrower pendingDebtReward pendingCollReward =
     bind_io (move_pending E pendingDebtReward pendingCollReward) (\<lambda>_. within_tm (removeStake borrower))"

definition liquidateNormalMode :: "('t, 'm, 'p, 'd) env \<Rightarrow> address \<Rightarrow> uint \<Rightarrow> ('t, 'm, 'd, liquidation_values) op" where
  "liquidateNormalMode E borrower SIMInStabPool =
     bind_io (gets (\<lambda>s. getEntireDebtAndColl (pr_tm s) borrower)) (\<lambda>(debt, coll, pendingDebtReward, pendingCollReward).
     bind_io (detach_trove E borrower pendingDebtReward pendingCollReward) (\<lambda>_.
     let gas = getCollGasCompensation coll in
     bind_io (lift_io (u_sub coll gas)) (\<lambda>collToLiquidate.
     bind_io (lift_io (getOffsetAndRedistributionVals debt collToLiquidate SIMInStabPool)) (\<lambda>(debtO, collO, debtR, collR).
     bind_io (close_trove borrower ClosedByLiquidation) (\<lambda>_.
     return_io \<lparr>lv_entireTroveDebt = debt, lv_entireTroveColl = coll, lv_collGasCompensation = gas, lv_debtToOffset = debtO,
       lv_collToSendToSP = collO, lv_debtToRedistribute = debtR, lv_collToRedistribute = collR, lv_collSurplus = 0\<rparr>)))))"

definition liquidateRecoveryMode ::
    "('t, 'm, 'p, 'd) env \<Rightarrow> address \<Rightarrow> uint \<Rightarrow> uint \<Rightarrow> uint \<Rightarrow> uint \<Rightarrow> ('t, 'm, 'd, liquidation_values) op" where
  "liquidateRecoveryMode E borrower ICR SIMInStabPool TCR price =
     bind_io (gets (\<lambda>s. Inr (length (TroveOwners (pr_tm s))))) (\<lambda>owners.
     if owners \<le> 1 then return_io zero_values
     else
       bind_io (gets (\<lambda>s. getEntireDebtAndColl (pr_tm s) borrower)) (\<lambda>(debt, coll, pendingDebtReward, pendingCollReward).
       let gas = getCollGasCompensation coll in
       bind_io (lift_io (u_sub coll gas)) (\<lambda>collToLiquidate.
       if ICR \<le> hundred_pct then
         bind_io (detach_trove E borrower pendingDebtReward pendingCollReward) (\<lambda>_.
         bind_io (close_trove borrower ClosedByLiquidation) (\<lambda>_.
         return_io \<lparr>lv_entireTroveDebt = debt, lv_entireTroveColl = coll, lv_collGasCompensation = gas, lv_debtToOffset = 0,
           lv_collToSendToSP = 0, lv_debtToRedistribute = debt, lv_collToRedistribute = collToLiquidate, lv_collSurplus = 0\<rparr>))
       else if hundred_pct < ICR \<and> ICR < MCR then
         bind_io (detach_trove E borrower pendingDebtReward pendingCollReward) (\<lambda>_.
         bind_io (lift_io (getOffsetAndRedistributionVals debt collToLiquidate SIMInStabPool)) (\<lambda>(debtO, collO, debtR, collR).
         bind_io (close_trove borrower ClosedByLiquidation) (\<lambda>_.
         return_io \<lparr>lv_entireTroveDebt = debt, lv_entireTroveColl = coll, lv_collGasCompensation = gas, lv_debtToOffset = debtO,
           lv_collToSendToSP = collO, lv_debtToRedistribute = debtR, lv_collToRedistribute = collR, lv_collSurplus = 0\<rparr>)))
       else if MCR \<le> ICR \<and> ICR < TCR \<and> debt \<le> SIMInStabPool then
         bind_io (move_pending E pendingDebtReward pendingCollReward) (\<lambda>_.
         bind_io (assert_io (SIMInStabPool \<noteq> 0)) (\<lambda>_.
         bind_io (within_tm (removeStake borrower)) (\<lambda>_.
         bind_io (lift_io (getCappedOffsetVals debt coll price)) (\<lambda>v.
         bind_io (close_trove borrower ClosedByLiquidation) (\<lambda>_.
         bind_io (if 0 < lv_collSurplus v
           then modify (\<lambda>s. bind_res (accountSurplus (tm_self (pr_tm s)) borrower (lv_collSurplus v) (pr_pools s)) (\<lambda>p. Inr (s\<lparr>pr_pools := p\<rparr>)))
           else return_io ()) (\<lambda>_.
         return_io v))))))
       else return_io zero_values)))"

section \<open>Sequences\<close>

definition addLiquidationValuesToTotals :: "liquidation_totals \<Rightarrow> liquidation_values \<Rightarrow> revert + liquidation_totals" where
  "addLiquidationValuesToTotals t v =
     bind_res (u_add (totalCollGasCompensation t) (lv_collGasCompensation v)) (\<lambda>gas.
     bind_res (u_add (totalDebtInSequence t) (lv_entireTroveDebt v)) (\<lambda>debt.
     bind_res (u_add (totalCollInSequence t) (lv_entireTroveColl v)) (\<lambda>coll.
     bind_res (u_add (totalDebtToOffset t) (lv_debtToOffset v)) (\<lambda>debtO.
     bind_res (u_add (totalCollToSendToSP t) (lv_collToSendToSP v)) (\<lambda>collO.
     bind_res (u_add (totalDebtToRedistribute t) (lv_debtToRedistribute v)) (\<lambda>debtR.
     bind_res (u_add (totalCollToRedistribute t) (lv_collToRedistribute v)) (\<lambda>collR.
     bind_res (u_add (totalCollSurplus t) (lv_collSurplus v)) (\<lambda>surplus.
     Inr \<lparr>totalCollInSequence = coll, totalDebtInSequence = debt, totalCollGasCompensation = gas, totalDebtToOffset = debtO,
          totalCollToSendToSP = collO, totalDebtToRedistribute = debtR, totalCollToRedistribute = collR, totalCollSurplus = surplus\<rparr>))))))))"

definition checkPotentialRecoveryMode :: "uint \<Rightarrow> uint \<Rightarrow> uint \<Rightarrow> revert + bool" where
  "checkPotentialRecoveryMode entireSystemColl entireSystemDebt price =
     bind_res (computeCR entireSystemColl entireSystemDebt price) (\<lambda>TCR. Inr (TCR < CCR))"

text \<open>The variables of a sequence, with the running totals.\<close>

record liquidation_sequence =
  ls_remainingSIMInStabPool :: uint
  ls_backToNormalMode :: bool
  ls_entireSystemDebt :: uint
  ls_entireSystemColl :: uint
  ls_totals :: liquidation_totals

text \<open>The liquidation of one trove within a sequence: in Normal Mode, and before the system is back in it.\<close>

definition normal_in_sequence ::
    "('t, 'm, 'p, 'd) env \<Rightarrow> address \<Rightarrow> liquidation_sequence \<Rightarrow> ('t, 'm, 'd, liquidation_sequence) op" where
  "normal_in_sequence E user vars =
     bind_io (liquidateNormalMode E user (ls_remainingSIMInStabPool vars)) (\<lambda>v.
     bind_io (lift_io (u_sub (ls_remainingSIMInStabPool vars) (lv_debtToOffset v))) (\<lambda>remaining.
     bind_io (lift_io (addLiquidationValuesToTotals (ls_totals vars) v)) (\<lambda>t.
     return_io (vars\<lparr>ls_remainingSIMInStabPool := remaining, ls_totals := t\<rparr>))))"

definition recovery_in_sequence ::
    "('t, 'm, 'p, 'd) env \<Rightarrow> uint \<Rightarrow> address \<Rightarrow> uint \<Rightarrow> liquidation_sequence \<Rightarrow> ('t, 'm, 'd, liquidation_sequence) op" where
  "recovery_in_sequence E price user ICR vars =
     bind_io (lift_io (computeCR (ls_entireSystemColl vars) (ls_entireSystemDebt vars) price)) (\<lambda>TCR.
     bind_io (liquidateRecoveryMode E user ICR (ls_remainingSIMInStabPool vars) TCR price) (\<lambda>v.
     bind_io (lift_io (u_sub (ls_remainingSIMInStabPool vars) (lv_debtToOffset v))) (\<lambda>remaining.
     bind_io (lift_io (u_sub (ls_entireSystemDebt vars) (lv_debtToOffset v))) (\<lambda>systemDebt.
     bind_io (lift_io (bind_res (bind_res (u_sub (ls_entireSystemColl vars) (lv_collToSendToSP v)) (\<lambda>x. u_sub x (lv_collGasCompensation v)))
        (\<lambda>x. u_sub x (lv_collSurplus v)))) (\<lambda>systemColl.
     bind_io (lift_io (addLiquidationValuesToTotals (ls_totals vars) v)) (\<lambda>t.
     bind_io (lift_io (checkPotentialRecoveryMode systemColl systemDebt price)) (\<lambda>recovery.
     return_io \<lparr>ls_remainingSIMInStabPool = remaining, ls_backToNormalMode = (\<not> recovery), ls_entireSystemDebt = systemDebt,
       ls_entireSystemColl = systemColl, ls_totals = t\<rparr>)))))))"

text \<open>From the end of the list upwards.\<close>

fun liquidateTrovesSequence_RecoveryMode ::
    "('t, 'm, 'p, 'd) env \<Rightarrow> uint \<Rightarrow> address \<Rightarrow> uint \<Rightarrow> address \<Rightarrow> liquidation_sequence \<Rightarrow> ('t, 'm, 'd, liquidation_sequence) op" where
  "liquidateTrovesSequence_RecoveryMode E price firstUser n user vars =
     (if n = 0 \<or> user = firstUser then return_io vars
      else
        bind_io (gets (\<lambda>s. Inr (getPrev (st_data (pr_list s)) user))) (\<lambda>nextUser.
        bind_io (gets (\<lambda>s. getCurrentICR (pr_tm s) user price)) (\<lambda>ICR.
        if \<not> ls_backToNormalMode vars then
          if MCR \<le> ICR \<and> ls_remainingSIMInStabPool vars = 0 then return_io vars
          else bind_io (recovery_in_sequence E price user ICR vars) (\<lambda>vars'.
            liquidateTrovesSequence_RecoveryMode E price firstUser (n - 1) nextUser vars')
        else if ICR < MCR then
          bind_io (normal_in_sequence E user vars) (\<lambda>vars'.
            liquidateTrovesSequence_RecoveryMode E price firstUser (n - 1) nextUser vars')
        else return_io vars)))"

fun liquidateTrovesSequence_NormalMode ::
    "('t, 'm, 'p, 'd) env \<Rightarrow> uint \<Rightarrow> uint \<Rightarrow> liquidation_sequence \<Rightarrow> ('t, 'm, 'd, liquidation_sequence) op" where
  "liquidateTrovesSequence_NormalMode E price n vars =
     (if n = 0 then return_io vars
      else
        bind_io (gets (\<lambda>s. Inr (tail (st_data (pr_list s))))) (\<lambda>user.
        bind_io (gets (\<lambda>s. getCurrentICR (pr_tm s) user price)) (\<lambda>ICR.
        if ICR < MCR then
          bind_io (normal_in_sequence E user vars) (\<lambda>vars'. liquidateTrovesSequence_NormalMode E price (n - 1) vars')
        else return_io vars)))"

text \<open>A batch of troves.\<close>

fun batchLiquidate_RecoveryMode ::
    "('t, 'm, 'p, 'd) env \<Rightarrow> uint \<Rightarrow> address list \<Rightarrow> liquidation_sequence \<Rightarrow> ('t, 'm, 'd, liquidation_sequence) op" where
  "batchLiquidate_RecoveryMode E price [] vars = return_io vars"
| "batchLiquidate_RecoveryMode E price (user # users) vars =
     bind_io (gets (\<lambda>s. Inr (tr_status (Troves (pr_tm s) user)))) (\<lambda>status.
     if status \<noteq> Active then batchLiquidate_RecoveryMode E price users vars
     else
       bind_io (gets (\<lambda>s. getCurrentICR (pr_tm s) user price)) (\<lambda>ICR.
       if \<not> ls_backToNormalMode vars then
         if MCR \<le> ICR \<and> ls_remainingSIMInStabPool vars = 0 then batchLiquidate_RecoveryMode E price users vars
         else bind_io (recovery_in_sequence E price user ICR vars) (\<lambda>vars'. batchLiquidate_RecoveryMode E price users vars')
       else if ICR < MCR then
         bind_io (normal_in_sequence E user vars) (\<lambda>vars'. batchLiquidate_RecoveryMode E price users vars')
       else batchLiquidate_RecoveryMode E price users vars))"

fun batchLiquidate_NormalMode ::
    "('t, 'm, 'p, 'd) env \<Rightarrow> uint \<Rightarrow> address list \<Rightarrow> liquidation_sequence \<Rightarrow> ('t, 'm, 'd, liquidation_sequence) op" where
  "batchLiquidate_NormalMode E price [] vars = return_io vars"
| "batchLiquidate_NormalMode E price (user # users) vars =
     bind_io (gets (\<lambda>s. getCurrentICR (pr_tm s) user price)) (\<lambda>ICR.
     if ICR < MCR then
       bind_io (normal_in_sequence E user vars) (\<lambda>vars'. batchLiquidate_NormalMode E price users vars')
     else batchLiquidate_NormalMode E price users vars)"

text \<open>The sequence a call runs, by the mode at its start.\<close>

definition start_sequence :: "uint \<Rightarrow> uint \<Rightarrow> uint \<Rightarrow> liquidation_sequence" where
  "start_sequence SIMInStabPool systemDebt systemColl =
     \<lparr>ls_remainingSIMInStabPool = SIMInStabPool, ls_backToNormalMode = False, ls_entireSystemDebt = systemDebt,
      ls_entireSystemColl = systemColl, ls_totals = zero_totals\<rparr>"

datatype liquidation_request = Sequence uint | Batch "address list"

definition run_sequence ::
    "('t, 'm, 'p, 'd) env \<Rightarrow> uint \<Rightarrow> uint \<Rightarrow> bool \<Rightarrow> liquidation_request \<Rightarrow> ('t, 'm, 'd, liquidation_totals) op" where
  "run_sequence E price SIMInStabPool recoveryModeAtStart request =
     bind_io (if recoveryModeAtStart then
         bind_io (gets (\<lambda>s. getEntireSystemDebt (pr_pools s))) (\<lambda>systemDebt.
         bind_io (gets (\<lambda>s. getEntireSystemColl (pr_pools s))) (\<lambda>systemColl.
         let vars = start_sequence SIMInStabPool systemDebt systemColl in
         case request of
           Sequence n \<Rightarrow>
             bind_io (gets (\<lambda>s. Inr (tail (st_data (pr_list s)), head (st_data (pr_list s))))) (\<lambda>(user, firstUser).
             liquidateTrovesSequence_RecoveryMode E price firstUser n user vars)
         | Batch users \<Rightarrow> batchLiquidate_RecoveryMode E price users vars))
       else
         let vars = start_sequence SIMInStabPool 0 0 in
         case request of
           Sequence n \<Rightarrow> liquidateTrovesSequence_NormalMode E price n vars
         | Batch users \<Rightarrow> batchLiquidate_NormalMode E price users vars) (\<lambda>vars.
     return_io (ls_totals vars))"

section \<open>The calls\<close>

definition tm_pools :: "(address \<Rightarrow> 't pools \<Rightarrow> revert + 't pools) \<Rightarrow> ('t, 'm, 'd, unit) op" where
  "tm_pools f = modify (\<lambda>s. bind_res (f (tm_self (pr_tm s)) (pr_pools s)) (\<lambda>p. Inr (s\<lparr>pr_pools := p\<rparr>)))"

definition sendGasCompensation :: "('t, 'm, 'p, 'd) env \<Rightarrow> address \<Rightarrow> uint \<Rightarrow> ('t, 'm, 'd, unit) op" where
  "sendGasCompensation E liquidator WSTETH =
     (if 0 < WSTETH then tm_pools (\<lambda>self. sendWSTETH (en_wsteth E) self liquidator WSTETH) else return_io ())"

text \<open>The part of the trove manager in the settlement that follows the offset by the stability pool.\<close>

definition settle_after_offset :: "('t, 'm, 'p, 'd) env \<Rightarrow> address \<Rightarrow> liquidation_totals \<Rightarrow> ('t, 'm, 'd, unit) op" where
  "settle_after_offset E sender t =
     bind_io (modify (\<lambda>s. bind_res (redistributeDebtAndColl (en_wsteth E) (totalDebtToRedistribute t) (totalCollToRedistribute t)
         (pr_tm s, pr_pools s)) (\<lambda>(m, p). Inr (s\<lparr>pr_tm := m, pr_pools := p\<rparr>)))) (\<lambda>_.
     bind_io (if 0 < totalCollSurplus t
       then modify (\<lambda>s. bind_res (sendWSTETH (en_wsteth E) (tm_self (pr_tm s)) (tm_collSurplusPool (pr_tm s)) (totalCollSurplus t) (pr_pools s))
         (\<lambda>p. Inr (s\<lparr>pr_pools := p\<rparr>)))
       else return_io ()) (\<lambda>_.
     bind_io (modify (\<lambda>s. bind_res (updateSystemSnapshots_excludeCollRemainder (pr_pools s) (totalCollGasCompensation t) (pr_tm s))
         (\<lambda>m. Inr (s\<lparr>pr_tm := m\<rparr>)))) (\<lambda>_.
     bind_io (lift_io (bind_res (u_sub (totalCollInSequence t) (totalCollGasCompensation t)) (\<lambda>x. u_sub x (totalCollSurplus t)))) (\<lambda>_.
     sendGasCompensation E sender (totalCollGasCompensation t)))))"

definition liquidation_call ::
    "('t, 'm, 'p, 'd, 'y) system_env \<Rightarrow> address \<Rightarrow> liquidation_request \<Rightarrow> ('t, 'm, 'd, 'y, unit) sysop" where
  "liquidation_call SE sender request =
     bind_io (in_protocol (fetch_price (se_env SE))) (\<lambda>price.
     bind_io (sys_gets (\<lambda>sy. Inr (totalSIMDeposits (sy_sp sy)))) (\<lambda>SIMInStabPool.
     bind_io (sys_gets (\<lambda>sy. checkRecoveryMode (pr_pools (sy_pr sy)) price)) (\<lambda>recoveryModeAtStart.
     bind_io (in_protocol (run_sequence (se_env SE) price SIMInStabPool recoveryModeAtStart request)) (\<lambda>t.
     bind_io (lift_io (require (0 < totalDebtInSequence t) ''TroveManager: nothing to liquidate'')) (\<lambda>_.
     bind_io (sys_gets (\<lambda>sy. Inr (tm_self (pr_tm (sy_pr sy))))) (\<lambda>self.
     bind_io (offset SE self (totalDebtToOffset t) (totalCollToSendToSP t)) (\<lambda>_.
     in_protocol (settle_after_offset (se_env SE) sender t))))))))"

definition liquidateTroves :: "('t, 'm, 'p, 'd, 'y) system_env \<Rightarrow> address \<Rightarrow> uint \<Rightarrow> ('t, 'm, 'd, 'y, unit) sysop" where
  "liquidateTroves SE sender n = sys_transaction (liquidation_call SE sender (Sequence n))"

definition batch_call :: "('t, 'm, 'p, 'd, 'y) system_env \<Rightarrow> address \<Rightarrow> address list \<Rightarrow> ('t, 'm, 'd, 'y, unit) sysop" where
  "batch_call SE sender troveArray =
     bind_io (lift_io (require (troveArray \<noteq> []) ''TroveManager: Calldata address array must not be empty'')) (\<lambda>_.
     liquidation_call SE sender (Batch troveArray))"

definition batchLiquidateTroves :: "('t, 'm, 'p, 'd, 'y) system_env \<Rightarrow> address \<Rightarrow> address list \<Rightarrow> ('t, 'm, 'd, 'y, unit) sysop" where
  "batchLiquidateTroves SE sender troveArray = sys_transaction (batch_call SE sender troveArray)"

definition liquidate :: "('t, 'm, 'p, 'd, 'y) system_env \<Rightarrow> address \<Rightarrow> address \<Rightarrow> ('t, 'm, 'd, 'y, unit) sysop" where
  "liquidate SE sender borrower =
     sys_transaction (
     bind_io (sys_gets (\<lambda>sy. requireTroveIsActive (pr_tm (sy_pr sy)) borrower)) (\<lambda>_.
     batch_call SE sender [borrower]))"

declare liquidateTrovesSequence_RecoveryMode.simps [simp del] and liquidateTrovesSequence_NormalMode.simps [simp del]

section \<open>What the liquidation of a trove changes\<close>

text \<open>Everything the ratio of a trove depends on, with its status.\<close>

definition trove_view :: "trove_manager \<Rightarrow> address \<Rightarrow> (uint \<times> uint \<times> uint \<times> trove_status) \<times> reward_snapshot \<times> uint \<times> uint" where
  "trove_view m a =
     ((tr_debt (Troves m a), tr_coll (Troves m a), tr_stake (Troves m a), tr_status (Troves m a)), rewardSnapshots m a, L_WSTETH m, L_SIMDebt m)"

lemma view_ICR: "trove_view m a = trove_view m' a \<Longrightarrow> getCurrentICR m a price = getCurrentICR m' a price"
  by (simp add: trove_view_def getCurrentICR_def getCurrentTroveAmounts_def getPendingWSTETHReward_def getPendingSIMDebtReward_def pending_reward_def
      cong: if_cong)

lemma removeStake_view: "removeStake b m = Inr m' \<Longrightarrow> a \<noteq> b \<Longrightarrow> trove_view m' a = trove_view m a"
  by (auto simp: removeStake_def bind_res_eq_Inr checked_Inr trove_view_def upd_trove_def)

lemma removeTroveOwner_view: "removeTroveOwner b n m = Inr m' \<Longrightarrow> trove_view m' a = trove_view m a"
  by (auto simp: removeTroveOwner_def bind_res_eq_Inr checked_Inr trove_view_def upd_trove_def Let_def split: if_splits)

lemma closeTrove_result:
  assumes "closeTrove b st (m, l) = Some (Inr (m', l'))"
  shows "entries m' = (entries m)(b := (0, 0))" and "a \<noteq> b \<Longrightarrow> trove_view m' a = trove_view m a"
    and "remove_trove l (tm_self m) b = Some (Inr l')" and "tm_self m' = tm_self m"
proof -
  define m1 where "m1 = (upd_trove b (\<lambda>t. t\<lparr>tr_status := st, tr_coll := 0, tr_debt := 0\<rparr>) m)
                \<lparr>rewardSnapshots := (rewardSnapshots m)(b := \<lparr>rs_WSTETH = 0, rs_SIMDebt = 0\<rparr>)\<rparr>"
  have r: "removeTroveOwner b (length (TroveOwners m)) m1 = Inr m'" and l: "remove_trove l (tm_self m) b = Some (Inr l')"
    using assms unfolding m1_def by (auto simp: closeTrove_def Let_def map_option_case map_sum_def split: sum.splits option.splits if_splits)
  show "remove_trove l (tm_self m) b = Some (Inr l')" by (rule l)
  show "entries m' = (entries m)(b := (0, 0))"
    using owner_entries(2) [OF r] by (simp add: m1_def entries_upd_trove)
  show "trove_view m' a = trove_view m a" if "a \<noteq> b"
    using removeTroveOwner_view [OF r, of a] that by (simp add: m1_def trove_view_def upd_trove_def)
  show "tm_self m' = tm_self m"
    using r by (auto simp: removeTroveOwner_def bind_res_eq_Inr upd_trove_def Let_def m1_def split: if_splits)
qed

text \<open>
  A trove has been taken out of the books: its entries are gone, the active pool has received what was
  pending for it, and the other troves are as before.
\<close>

definition taken_out :: "address \<Rightarrow> uint \<Rightarrow> uint \<Rightarrow> ('t, 'm, 'd) protocol \<Rightarrow> ('t, 'm, 'd) protocol \<Rightarrow> bool" where
  "taken_out b coll debt s s' \<longleftrightarrow>
     entries_of s' = (entries_of s)(b := (0, 0))
     \<and> fst (records_of s') + fst (entries_of s b) = fst (records_of s) + coll
     \<and> snd (records_of s') + snd (entries_of s b) = snd (records_of s) + debt
     \<and> (\<forall>a. a \<noteq> b \<longrightarrow> trove_view (pr_tm s') a = trove_view (pr_tm s) a)"

lemma within_tm_returns: "within_tm f s = Some (Inr x, s') \<longleftrightarrow> (\<exists>m. f (pr_tm s) = Inr m \<and> s' = s\<lparr>pr_tm := m\<rparr>)"
  by (auto simp: within_tm_def modify_returns bind_res_eq_Inr)

lemma close_trove_returns:
  "close_trove b st s = Some (Inr x, s') \<longleftrightarrow>
     (\<exists>m l. closeTrove b st (pr_tm s, pr_list s) = Some (Inr (m, l)) \<and> s' = s\<lparr>pr_tm := m, pr_list := l\<rparr>)"
  by (auto simp: close_trove_def split: option.splits sum.splits)

lemma move_pending_returns:
  assumes "move_pending E d n s = Some (Inr x, s')"
  obtains p where "s' = s\<lparr>pr_pools := p\<rparr>" and "records p = (fst (records_of s) + n, snd (records_of s) + d)"
proof -
  obtain p where p: "movePendingTroveRewardsToActivePool (en_wsteth E) (pr_tm s) d n (pr_pools s) = Inr p" and s': "s' = s\<lparr>pr_pools := p\<rparr>"
    using assms by (auto simp: move_pending_def modify_returns bind_res_eq_Inr)
  obtain p1 p2 where "defaultPool_decreaseSIMDebt (tm_self (pr_tm s)) d (pr_pools s) = Inr p1"
      "activePool_increaseSIMDebt (tm_self (pr_tm s)) d p1 = Inr p2" "sendWSTETHToActivePool (en_wsteth E) (tm_self (pr_tm s)) n p2 = Inr p"
    using p by (auto simp: movePendingTroveRewardsToActivePool_def bind_res_eq_Inr)
  then have "records p = (fst (records_of s) + n, snd (records_of s) + d)"
    using debt_records(1,3) sendWSTETHToActivePool_records by (fastforce simp: records_of_def)
  then show thesis using that s' by blast
qed

lemma entire_amounts:
  assumes "getEntireDebtAndColl m b = Inr (debt, coll, pd, pc)"
  shows "debt = tr_debt (Troves m b) + pd" and "coll = tr_coll (Troves m b) + pc" and "getCurrentTroveAmounts m b = Inr (coll, debt)"
  using assms by (auto simp: getEntireDebtAndColl_def getCurrentTroveAmounts_def bind_res_eq_Inr checked_Inr)

lemma taken_outI:
  assumes "getEntireDebtAndColl (pr_tm s) b = Inr (debt, coll, pd, pc)"
    and "move_pending E pd pc s = Some (Inr x, s1)" and "within_tm (removeStake b) s1 = Some (Inr y, s2)"
    and "close_trove b st s2 = Some (Inr z, s')"
  shows "taken_out b coll debt s s'"
proof -
  obtain p where s1: "s1 = s\<lparr>pr_pools := p\<rparr>" and p: "records p = (fst (records_of s) + pc, snd (records_of s) + pd)"
    using assms(2) by (rule move_pending_returns)
  obtain m where m: "removeStake b (pr_tm s) = Inr m" and s2: "s2 = s1\<lparr>pr_tm := m\<rparr>"
    using assms(3) by (auto simp: within_tm_returns s1)
  obtain m' l where c: "closeTrove b st (m, pr_list s) = Some (Inr (m', l))" and s': "s' = s2\<lparr>pr_tm := m', pr_list := l\<rparr>"
    using assms(4) by (auto simp: close_trove_returns s2 s1)
  show ?thesis
    using closeTrove_result(1) [OF c] stake_entries(2) [OF m] entire_amounts(1,2) [OF assms(1)] p
      closeTrove_result(2) [OF c] removeStake_view [OF m]
    by (simp add: taken_out_def s' s2 s1 entries_of_def records_of_def entries_def)
qed

text \<open>How the values of a liquidation split the debt and the collateral of the trove.\<close>

definition split_up :: "liquidation_values \<Rightarrow> bool" where
  "split_up v \<longleftrightarrow>
     lv_debtToOffset v + lv_debtToRedistribute v = lv_entireTroveDebt v
     \<and> lv_collGasCompensation v + lv_collToSendToSP v + lv_collToRedistribute v + lv_collSurplus v = lv_entireTroveColl v
     \<and> (lv_debtToOffset v = 0 \<longrightarrow> lv_collToSendToSP v = 0) \<and> (lv_debtToRedistribute v = 0 \<longrightarrow> lv_collToRedistribute v = 0)"

lemma offset_vals_split:
  assumes "getOffsetAndRedistributionVals debt coll SIM = Inr (debtO, collO, debtR, collR)" and "0 < debt"
  shows "debtO + debtR = debt" and "collO + collR = coll" and "debtO \<le> SIM" and "debtO = 0 \<longrightarrow> collO = 0" and "debtR = 0 \<longrightarrow> collR = 0"
  using assms by (auto simp: getOffsetAndRedistributionVals_def LM_min_def Let_def bind_res_eq_Inr checked_Inr split: if_splits)

lemma gas_le: "getCollGasCompensation n \<le> n"
  by (simp add: getCollGasCompensation_def)

lemma ratio_needs_debt:
  assumes "getCurrentICR m b price = Inr ICR" and "getEntireDebtAndColl m b = Inr (debt, coll, pd, pc)" and "ICR < MCR"
  shows "0 < debt"
proof (rule ccontr)
  assume "\<not> 0 < debt"
  then have "ICR = uint_max" using assms(1) entire_amounts(3) [OF assms(2)] by (simp add: getCurrentICR_def computeCR_def uint_max_def)
  then show False using assms(3) by (simp add: uint_max_def MCR_def)
qed

lemma liquidateNormalMode_effect:
  assumes "liquidateNormalMode E b SIM s = Some (Inr v, s')" and "getCurrentICR (pr_tm s) b price = Inr ICR" and "ICR < MCR"
  shows "taken_out b (lv_entireTroveColl v) (lv_entireTroveDebt v) s s'" and "split_up v" and "lv_debtToOffset v \<le> SIM"
proof -
  obtain debt coll pd pc s1 s2 debtO collO debtR collR x where
      e: "getEntireDebtAndColl (pr_tm s) b = Inr (debt, coll, pd, pc)"
      and s: "move_pending E pd pc s = Some (Inr (), s1)" "within_tm (removeStake b) s1 = Some (Inr (), s2)"
        "close_trove b ClosedByLiquidation s2 = Some (Inr x, s')"
      and o: "getOffsetAndRedistributionVals debt (coll - getCollGasCompensation coll) SIM = Inr (debtO, collO, debtR, collR)"
      and v: "v = \<lparr>lv_entireTroveDebt = debt, lv_entireTroveColl = coll, lv_collGasCompensation = getCollGasCompensation coll, lv_debtToOffset = debtO,
        lv_collToSendToSP = collO, lv_debtToRedistribute = debtR, lv_collToRedistribute = collR, lv_collSurplus = 0\<rparr>"
    using assms(1)
    by (auto simp: liquidateNormalMode_def detach_trove_def bind_io_eq_Inr gets_returns lift_returns checked_Inr Let_def return_io_def)
  show "taken_out b (lv_entireTroveColl v) (lv_entireTroveDebt v) s s'" using taken_outI [OF e s] by (simp add: v)
  have "0 < debt" using ratio_needs_debt [OF assms(2) e assms(3)] .
  note o = offset_vals_split [OF o this]
  show "split_up v" using o gas_le [of coll] by (simp add: split_up_def v)
  show "lv_debtToOffset v \<le> SIM" using o(3) by (simp add: v)
qed

lemma capped_vals_split:
  assumes "getCappedOffsetVals debt coll price = Inr v"
  shows "split_up v" and "lv_debtToOffset v = debt" and "lv_entireTroveDebt v = debt" and "lv_entireTroveColl v = coll"
  using assms gas_le [of "debt * MCR div price"]
  by (auto simp: getCappedOffsetVals_def split_up_def Let_def bind_res_eq_Inr checked_Inr)

lemma accountSurplus_records: "accountSurplus a b n p = Inr p' \<Longrightarrow> records p' = records p"
  by (auto simp: accountSurplus_def Let_def bind_res_eq_Inr records_def split: if_splits)

lemma liquidateRecoveryMode_effect:
  assumes "liquidateRecoveryMode E b ICR SIM TCR price s = Some (Inr v, s')" and "getCurrentICR (pr_tm s) b price = Inr ICR"
  shows "v = zero_values \<and> s' = s \<or>
    taken_out b (lv_entireTroveColl v) (lv_entireTroveDebt v) s s' \<and> split_up v \<and> lv_debtToOffset v \<le> SIM \<and> (ICR < MCR \<or> ICR < TCR)"
proof (cases "length (TroveOwners (pr_tm s)) \<le> 1")
  case True
  then show ?thesis using assms(1) by (auto simp: liquidateRecoveryMode_def bind_io_eq_Inr gets_returns return_io_def)
next
  case False
  let ?gas = getCollGasCompensation
  obtain debt coll pd pc where e: "getEntireDebtAndColl (pr_tm s) b = Inr (debt, coll, pd, pc)"
    using assms(1) False by (auto simp: liquidateRecoveryMode_def bind_io_eq_Inr gets_returns)
  consider (redistribute) "ICR \<le> hundred_pct" | (full) "hundred_pct < ICR" "ICR < MCR"
    | (capped) "MCR \<le> ICR" "ICR < TCR" "debt \<le> SIM" | (none) "hundred_pct < ICR" "\<not> ICR < MCR" "\<not> (MCR \<le> ICR \<and> ICR < TCR \<and> debt \<le> SIM)"
    by linarith
  then show ?thesis
  proof cases
    case redistribute
    have low: "ICR < MCR" using redistribute by (simp add: hundred_pct_def MCR_def)
    obtain s1 s2 x where s: "move_pending E pd pc s = Some (Inr (), s1)" "within_tm (removeStake b) s1 = Some (Inr (), s2)"
        "close_trove b ClosedByLiquidation s2 = Some (Inr x, s')"
      and v: "v = \<lparr>lv_entireTroveDebt = debt, lv_entireTroveColl = coll, lv_collGasCompensation = ?gas coll, lv_debtToOffset = 0,
           lv_collToSendToSP = 0, lv_debtToRedistribute = debt, lv_collToRedistribute = coll - ?gas coll, lv_collSurplus = 0\<rparr>"
      using assms(1) False e redistribute
      by (auto simp: liquidateRecoveryMode_def detach_trove_def bind_io_eq_Inr gets_returns lift_returns checked_Inr Let_def return_io_def)
    show ?thesis using taken_outI [OF e s] ratio_needs_debt [OF assms(2) e low] low gas_le [of coll] by (simp add: v split_up_def)
  next
    case full
    obtain s1 s2 debtO collO debtR collR x where
        s: "move_pending E pd pc s = Some (Inr (), s1)" "within_tm (removeStake b) s1 = Some (Inr (), s2)"
          "close_trove b ClosedByLiquidation s2 = Some (Inr x, s')"
        and o: "getOffsetAndRedistributionVals debt (coll - ?gas coll) SIM = Inr (debtO, collO, debtR, collR)"
        and v: "v = \<lparr>lv_entireTroveDebt = debt, lv_entireTroveColl = coll, lv_collGasCompensation = ?gas coll, lv_debtToOffset = debtO,
          lv_collToSendToSP = collO, lv_debtToRedistribute = debtR, lv_collToRedistribute = collR, lv_collSurplus = 0\<rparr>"
      using assms(1) False e full
      by (auto simp: liquidateRecoveryMode_def detach_trove_def bind_io_eq_Inr gets_returns lift_returns checked_Inr Let_def return_io_def)
    note o = offset_vals_split [OF o ratio_needs_debt [OF assms(2) e full(2)]]
    have "split_up v" using o gas_le [of coll] by (simp add: v split_up_def)
    then show ?thesis using taken_outI [OF e s] o(3) full(2) by (simp add: v)
  next
    case capped
    then have not: "\<not> ICR \<le> hundred_pct" "\<not> ICR < MCR" by (simp_all add: hundred_pct_def MCR_def)
    obtain s1 s2 s3 x y where s: "move_pending E pd pc s = Some (Inr (), s1)" "within_tm (removeStake b) s1 = Some (Inr (), s2)"
        "close_trove b ClosedByLiquidation s2 = Some (Inr x, s3)"
        and v: "getCappedOffsetVals debt coll price = Inr v"
        and last: "(if 0 < lv_collSurplus v
           then modify (\<lambda>s. bind_res (accountSurplus (tm_self (pr_tm s)) b (lv_collSurplus v) (pr_pools s)) (\<lambda>p. Inr (s\<lparr>pr_pools := p\<rparr>)))
           else return_io ()) s3 = Some (Inr y, s')"
      using assms(1) False e capped not
      by (auto simp: liquidateRecoveryMode_def bind_io_eq_Inr gets_returns lift_returns assert_returns checked_Inr Let_def return_io_def
          simp del: split_paired_Ex cong: if_cong)
    have "records_of s' = records_of s3 \<and> pr_tm s' = pr_tm s3"
      using last by (auto simp: modify_returns bind_res_eq_Inr records_of_def return_io_def accountSurplus_records split: if_splits)
    then have "taken_out b coll debt s s'" using taken_outI [OF e s] by (simp add: taken_out_def entries_of_def)
    then show ?thesis using capped_vals_split [OF v] capped by simp
  next
    case none
    then show ?thesis using assms(1) False e
      by (auto simp: liquidateRecoveryMode_def bind_io_eq_Inr gets_returns lift_returns Let_def return_io_def)
  qed
qed

section \<open>Sequences as steps\<close>

text \<open>
  The four loops differ in the order in which they visit the troves. Each of them is a sequence of steps that
  liquidate one trove in Normal Mode, or in Recovery Mode as long as the system has not left it.
\<close>

inductive liquidation_step ::
    "('t, 'm, 'p, 'd) env \<Rightarrow> uint \<Rightarrow> bool \<Rightarrow> ('t, 'm, 'd) protocol \<times> liquidation_sequence \<Rightarrow> ('t, 'm, 'd) protocol \<times> liquidation_sequence \<Rightarrow> bool"
  for E price recovery where
  normal: "getCurrentICR (pr_tm s) b price = Inr ICR \<Longrightarrow> ICR < MCR \<Longrightarrow> normal_in_sequence E b vars s = Some (Inr vars', s')
    \<Longrightarrow> liquidation_step E price recovery (s, vars) (s', vars')"
| in_recovery: "recovery \<Longrightarrow> \<not> ls_backToNormalMode vars \<Longrightarrow> getCurrentICR (pr_tm s) b price = Inr ICR
    \<Longrightarrow> recovery_in_sequence E price b ICR vars s = Some (Inr vars', s') \<Longrightarrow> liquidation_step E price recovery (s, vars) (s', vars')"

abbreviation liquidation_steps where
  "liquidation_steps E price recovery s vars s' vars' \<equiv> (liquidation_step E price recovery)\<^sup>*\<^sup>* (s, vars) (s', vars')"

lemma first_normal:
  assumes "getCurrentICR (pr_tm s) b price = Inr ICR" and "ICR < MCR" and "normal_in_sequence E b vars s = Some (Inr vars1, s1)"
    and "liquidation_steps E price recovery s1 vars1 s' vars'"
  shows "liquidation_steps E price recovery s vars s' vars'"
  using liquidation_step.normal [OF assms(1-3)] assms(4) by (rule converse_rtranclp_into_rtranclp)

lemma first_recovery:
  assumes "\<not> ls_backToNormalMode vars" and "getCurrentICR (pr_tm s) b price = Inr ICR"
    and "recovery_in_sequence E price b ICR vars s = Some (Inr vars1, s1)" and "liquidation_steps E price True s1 vars1 s' vars'"
  shows "liquidation_steps E price True s vars s' vars'"
  using liquidation_step.in_recovery [OF TrueI assms(1-3)] assms(4) by (rule converse_rtranclp_into_rtranclp)

lemma sequence_normal_steps:
  "liquidateTrovesSequence_NormalMode E price n vars s = Some (Inr vars', s') \<Longrightarrow> liquidation_steps E price recovery s vars s' vars'"
proof (induction n arbitrary: vars s)
  case (Suc n)
  from Suc.prems show ?case
    by (subst (asm) liquidateTrovesSequence_NormalMode.simps)
      (auto simp: bind_io_eq_Inr gets_returns return_io_def split: if_splits intro: first_normal Suc.IH)
qed (simp add: liquidateTrovesSequence_NormalMode.simps return_io_def)

lemma sequence_recovery_steps:
  "liquidateTrovesSequence_RecoveryMode E price firstUser n user vars s = Some (Inr vars', s') \<Longrightarrow> liquidation_steps E price True s vars s' vars'"
proof (induction n arbitrary: user vars s)
  case (Suc n)
  from Suc.prems show ?case
    by (subst (asm) liquidateTrovesSequence_RecoveryMode.simps)
      (auto simp: bind_io_eq_Inr gets_returns return_io_def split: if_splits intro: first_normal first_recovery Suc.IH)
qed (simp add: liquidateTrovesSequence_RecoveryMode.simps return_io_def)

lemma batch_normal_steps:
  "batchLiquidate_NormalMode E price users vars s = Some (Inr vars', s') \<Longrightarrow> liquidation_steps E price recovery s vars s' vars'"
  by (induction users arbitrary: vars s)
    (auto simp: bind_io_eq_Inr gets_returns return_io_def split: if_splits intro: first_normal)

lemma batch_recovery_steps:
  "batchLiquidate_RecoveryMode E price users vars s = Some (Inr vars', s') \<Longrightarrow> liquidation_steps E price True s vars s' vars'"
  by (induction users arbitrary: vars s)
    (auto simp: bind_io_eq_Inr gets_returns return_io_def split: if_splits intro: first_normal first_recovery)

section \<open>The books during a liquidation\<close>

text \<open>The active pool records \<open>n\<close> of collateral and \<open>d\<close> of debt more than the troves have.\<close>

definition books_with :: "uint \<Rightarrow> uint \<Rightarrow> ('t, 'm, 'd) protocol \<Rightarrow> bool" where
  "books_with n d s \<longleftrightarrow>
     (\<exists>A. finite A \<and> (\<forall>a. a \<notin> A \<longrightarrow> entries_of s a = (0, 0))
        \<and> (\<Sum>a\<in>A. fst (entries_of s a)) + n = fst (records_of s) \<and> (\<Sum>a\<in>A. snd (entries_of s a)) + d = snd (records_of s))"

lemma books_with_0: "books_with 0 0 s \<longleftrightarrow> books_balance (pr_tm s) (pr_pools s)"
  by (simp add: books_with_def books_balance_def entries_of_def entries_def records_of_def records_def)

text \<open>The entry of one trove becomes \<open>e\<close>, and the active pool follows, up to what is owed before and after.\<close>

lemma books_with_change:
  assumes "books_with n d s" and e: "entries_of s' = (entries_of s)(b := e)"
    and "fst (records_of s') + fst (entries_of s b) + n = fst (records_of s) + fst e + n'"
    and "snd (records_of s') + snd (entries_of s b) + d = snd (records_of s) + snd e + d'"
  shows "books_with n' d' s'"
proof -
  obtain A where A: "finite A" "\<forall>a. a \<notin> A \<longrightarrow> entries_of s a = (0, 0)"
      "(\<Sum>a\<in>A. fst (entries_of s a)) + n = fst (records_of s)" "(\<Sum>a\<in>A. snd (entries_of s a)) + d = snd (records_of s)"
    using assms(1) unfolding books_with_def by blast
  have "(\<Sum>a\<in>insert b A. f (entries_of s a)) = (\<Sum>a\<in>A. f (entries_of s a))" if "f (0, 0) = 0" for f :: "nat \<times> nat \<Rightarrow> nat"
    using A(1,2) that by (cases "b \<in> A") (simp_all add: insert_absorb)
  moreover have "(\<Sum>a\<in>insert b A. f (entries_of s' a)) + f (entries_of s b) = (\<Sum>a\<in>insert b A. f (entries_of s a)) + f e"
    for f :: "nat \<times> nat \<Rightarrow> nat"
    using sum_one_changed [of "insert b A" b "\<lambda>a. f (entries_of s' a)" "\<lambda>a. f (entries_of s a)"] A(1) by (simp add: e)
  ultimately have sums: "(\<Sum>a\<in>insert b A. f (entries_of s' a)) + f (entries_of s b) = (\<Sum>a\<in>A. f (entries_of s a)) + f e"
    if "f (0, 0) = 0" for f :: "nat \<times> nat \<Rightarrow> nat"
    using that by metis
  have "(\<Sum>a\<in>insert b A. fst (entries_of s' a)) + n' = fst (records_of s')"
    using sums [of fst] A(3) assms(3) by simp
  moreover have "(\<Sum>a\<in>insert b A. snd (entries_of s' a)) + d' = snd (records_of s')"
    using sums [of snd] A(4) assms(4) by simp
  moreover have "\<forall>a. a \<notin> insert b A \<longrightarrow> entries_of s' a = (0, 0)" using A(2) by (simp add: e)
  ultimately show ?thesis unfolding books_with_def using A(1) by blast
qed

lemma taken_out_books:
  assumes "books_with n d s" and "taken_out b coll debt s s'"
  shows "books_with (n + coll) (d + debt) s'"
  using assms(2) unfolding taken_out_def by (intro books_with_change [OF assms(1)]) auto

lemma books_with_pay:
  assumes "books_with n d s" and "entries_of s' = entries_of s" and "records_of s' = (fst (records_of s) - x, snd (records_of s) - y)"
    and "x \<le> n" and "y \<le> d"
  shows "books_with (n - x) (d - y) s'"
proof -
  obtain A where A: "finite A" "\<forall>a. a \<notin> A \<longrightarrow> entries_of s a = (0, 0)"
      "(\<Sum>a\<in>A. fst (entries_of s a)) + n = fst (records_of s)" "(\<Sum>a\<in>A. snd (entries_of s a)) + d = snd (records_of s)"
    using assms(1) unfolding books_with_def by blast
  have "(\<Sum>a\<in>A. fst (entries_of s' a)) + (n - x) = fst (records_of s')" "(\<Sum>a\<in>A. snd (entries_of s' a)) + (d - y) = snd (records_of s')"
    unfolding assms(2,3) A(3,4) [symmetric] fst_conv snd_conv using assms(4,5) by linarith+
  then show ?thesis unfolding books_with_def using A(1,2) assms(2) by metis
qed

text \<open>What a sequence has taken out and not yet settled.\<close>

definition coll_owed :: "liquidation_totals \<Rightarrow> uint" where
  "coll_owed t = totalCollGasCompensation t + totalCollToSendToSP t + totalCollToRedistribute t + totalCollSurplus t"

definition debt_owed :: "liquidation_totals \<Rightarrow> uint" where
  "debt_owed t = totalDebtToOffset t + totalDebtToRedistribute t"

definition tallied :: "uint \<Rightarrow> ('t, 'm, 'd) protocol \<times> liquidation_sequence \<Rightarrow> bool" where
  "tallied SIM = (\<lambda>(s, vars). let t = ls_totals vars in
     books_with (coll_owed t) (debt_owed t) s \<and> ls_remainingSIMInStabPool vars + totalDebtToOffset t = SIM
     \<and> (totalDebtToOffset t = 0 \<longrightarrow> totalCollToSendToSP t = 0) \<and> (totalDebtToRedistribute t = 0 \<longrightarrow> totalCollToRedistribute t = 0))"

lemma added_totals:
  assumes "addLiquidationValuesToTotals t v = Inr t'"
  shows "totalDebtToOffset t' = totalDebtToOffset t + lv_debtToOffset v" "totalCollToSendToSP t' = totalCollToSendToSP t + lv_collToSendToSP v"
    "totalDebtToRedistribute t' = totalDebtToRedistribute t + lv_debtToRedistribute v"
    "totalCollToRedistribute t' = totalCollToRedistribute t + lv_collToRedistribute v"
    "totalCollGasCompensation t' = totalCollGasCompensation t + lv_collGasCompensation v"
    "totalCollSurplus t' = totalCollSurplus t + lv_collSurplus v"
  using assms by (auto simp: addLiquidationValuesToTotals_def bind_res_eq_Inr checked_Inr)

lemma tallied_add:
  assumes "tallied SIM (s, vars)" and "taken_out b (lv_entireTroveColl v) (lv_entireTroveDebt v) s s' \<and> split_up v \<or> v = zero_values \<and> s' = s"
    and "addLiquidationValuesToTotals (ls_totals vars) v = Inr (ls_totals vars')" and "lv_debtToOffset v \<le> ls_remainingSIMInStabPool vars"
    and "ls_remainingSIMInStabPool vars' = ls_remainingSIMInStabPool vars - lv_debtToOffset v"
  shows "tallied SIM (s', vars')"
  using assms(2)
proof
  let ?t = "ls_totals vars" and ?t' = "ls_totals vars'"
  assume v: "taken_out b (lv_entireTroveColl v) (lv_entireTroveDebt v) s s' \<and> split_up v"
  have owed: "coll_owed ?t' = coll_owed ?t + lv_entireTroveColl v" "debt_owed ?t' = debt_owed ?t + lv_entireTroveDebt v"
    using v by (simp_all add: coll_owed_def debt_owed_def split_up_def added_totals [OF assms(3)])
  have "books_with (coll_owed ?t) (debt_owed ?t) s" using assms(1) by (simp add: tallied_def Let_def)
  then have "books_with (coll_owed ?t') (debt_owed ?t') s'" unfolding owed using v by (auto intro: taken_out_books)
  then show ?thesis using assms(1,4,5) v by (auto simp: tallied_def Let_def split_up_def added_totals [OF assms(3)])
next
  let ?t = "ls_totals vars" and ?t' = "ls_totals vars'"
  assume v: "v = zero_values \<and> s' = s"
  have "coll_owed ?t' = coll_owed ?t" "debt_owed ?t' = debt_owed ?t"
    using v by (simp_all add: coll_owed_def debt_owed_def zero_values_def added_totals [OF assms(3)])
  then show ?thesis using assms(1,5) v by (simp add: tallied_def Let_def zero_values_def added_totals [OF assms(3)])
qed

lemma tallied_step:
  assumes "liquidation_step E price recovery c c'" and "tallied SIM c"
  shows "tallied SIM c'"
  using assms(1)
proof cases
  case (normal s b ICR vars vars' s')
  obtain v where v: "liquidateNormalMode E b (ls_remainingSIMInStabPool vars) s = Some (Inr v, s')"
      "addLiquidationValuesToTotals (ls_totals vars) v = Inr (ls_totals vars')" "lv_debtToOffset v \<le> ls_remainingSIMInStabPool vars"
      "ls_remainingSIMInStabPool vars' = ls_remainingSIMInStabPool vars - lv_debtToOffset v"
    using normal(5) by (auto simp: normal_in_sequence_def bind_io_eq_Inr lift_returns checked_Inr return_io_def)
  show ?thesis
    using tallied_add [OF _ _ v(2-4)] assms(2) liquidateNormalMode_effect(1,2) [OF v(1) normal(3,4)] normal(1,2) by blast
next
  case (in_recovery vars s b ICR vars' s')
  obtain v TCR where v: "liquidateRecoveryMode E b ICR (ls_remainingSIMInStabPool vars) TCR price s = Some (Inr v, s')"
      "addLiquidationValuesToTotals (ls_totals vars) v = Inr (ls_totals vars')" "lv_debtToOffset v \<le> ls_remainingSIMInStabPool vars"
      "ls_remainingSIMInStabPool vars' = ls_remainingSIMInStabPool vars - lv_debtToOffset v"
    using in_recovery(6) by (auto simp: recovery_in_sequence_def bind_io_eq_Inr bind_res_eq_Inr lift_returns checked_Inr return_io_def)
  show ?thesis
    using tallied_add [OF _ _ v(2-4)] assms(2) liquidateRecoveryMode_effect [OF v(1) in_recovery(5)] in_recovery(1,2) by blast
qed

lemma tallied_steps: "(liquidation_step E price recovery)\<^sup>*\<^sup>* c c' \<Longrightarrow> tallied SIM c \<Longrightarrow> tallied SIM c'"
  by (induction rule: rtranclp_induct) (auto intro: tallied_step)

section \<open>The settlement\<close>

lemma entries_kept_by_redistribution [simp]:
  "entries (m\<lparr>lastWSTETHError_Redistribution := x\<rparr>) = entries m" "entries (m\<lparr>lastSIMDebtError_Redistribution := x\<rparr>) = entries m"
  "entries (m\<lparr>L_WSTETH := x\<rparr>) = entries m" "entries (m\<lparr>L_SIMDebt := x\<rparr>) = entries m"
  "entries (m\<lparr>totalStakesSnapshot := x\<rparr>) = entries m" "entries (m\<lparr>totalCollateralSnapshot := x\<rparr>) = entries m"
  by (simp_all add: entries_def fun_eq_iff)

lemma defaultPool_increase_records: "defaultPool_increaseSIMDebt a n p = Inr p' \<Longrightarrow> records p' = records p"
  by (auto simp: defaultPool_increaseSIMDebt_def bind_res_eq_Inr records_def split: if_splits)

lemma redistribute_effect:
  assumes "redistributeDebtAndColl tok debt coll (m, p) = Inr (m', p')" and "debt = 0 \<longrightarrow> coll = 0"
  shows "records p' = (fst (records p) - coll, snd (records p) - debt)" and "entries m' = entries m" and "Troves m' = Troves m"
proof -
  have "records p' = (fst (records p) - coll, snd (records p) - debt) \<and> entries m' = entries m \<and> Troves m' = Troves m"
  proof (cases "debt = 0")
    case True
    then show ?thesis using assms by (simp add: redistributeDebtAndColl_def)
  next
    case False
    then obtain p1 p2 where p: "activePool_decreaseSIMDebt (tm_self m) debt p = Inr p1" "defaultPool_increaseSIMDebt (tm_self m) debt p1 = Inr p2"
        "sendWSTETH tok (tm_self m) (tm_defaultPool m) coll p2 = Inr p'" and m: "entries m' = entries m" "Troves m' = Troves m"
      using assms(1) by (auto simp: redistributeDebtAndColl_def bind_res_eq_Inr Let_def)
    show ?thesis using debt_records(2) [OF p(1)] defaultPool_increase_records [OF p(2)] sendWSTETH_records(1) [OF p(3)] m by simp
  qed
  then show "records p' = (fst (records p) - coll, snd (records p) - debt)" "entries m' = entries m" "Troves m' = Troves m" by simp_all
qed

lemma sendGasCompensation_effect:
  "sendGasCompensation E a n s = Some (Inr x, s') \<Longrightarrow>
     records_of s' = (fst (records_of s) - n, snd (records_of s)) \<and> pr_tm s' = pr_tm s"
  by (auto simp: sendGasCompensation_def tm_pools_def modify_returns bind_res_eq_Inr return_io_def records_of_def sendWSTETH_records(1)
      split: if_splits)

lemma surplus_effect:
  "(if 0 < n then modify (\<lambda>s. bind_res (sendWSTETH tok (f s) (g s) n (pr_pools s)) (\<lambda>p. Inr (s\<lparr>pr_pools := p\<rparr>))) else return_io ()) s
     = Some (Inr x, s') \<Longrightarrow> records_of s' = (fst (records_of s) - n, snd (records_of s)) \<and> pr_tm s' = pr_tm s"
  by (auto simp: modify_returns bind_res_eq_Inr return_io_def records_of_def sendWSTETH_records(1) split: if_splits)

lemma settle_effect:
  assumes "settle_after_offset E sender t s = Some (Inr x, s')" and "totalDebtToRedistribute t = 0 \<longrightarrow> totalCollToRedistribute t = 0"
  shows "entries_of s' = entries_of s" and "Troves (pr_tm s') = Troves (pr_tm s)"
    and "records_of s' = (fst (records_of s) - (totalCollToRedistribute t + totalCollSurplus t + totalCollGasCompensation t),
      snd (records_of s) - totalDebtToRedistribute t)"
proof -
  obtain s1 s2 s3 where s1: "modify (\<lambda>s. bind_res (redistributeDebtAndColl (en_wsteth E) (totalDebtToRedistribute t) (totalCollToRedistribute t)
         (pr_tm s, pr_pools s)) (\<lambda>(m, p). Inr (s\<lparr>pr_tm := m, pr_pools := p\<rparr>))) s = Some (Inr (), s1)"
      and s2: "(if 0 < totalCollSurplus t
        then modify (\<lambda>s. bind_res (sendWSTETH (en_wsteth E) (tm_self (pr_tm s)) (tm_collSurplusPool (pr_tm s)) (totalCollSurplus t) (pr_pools s))
          (\<lambda>p. Inr (s\<lparr>pr_pools := p\<rparr>))) else return_io ()) s1 = Some (Inr (), s2)"
      and s3: "modify (\<lambda>s. bind_res (updateSystemSnapshots_excludeCollRemainder (pr_pools s) (totalCollGasCompensation t) (pr_tm s))
          (\<lambda>m. Inr (s\<lparr>pr_tm := m\<rparr>))) s2 = Some (Inr (), s3)"
      and g: "sendGasCompensation E sender (totalCollGasCompensation t) s3 = Some (Inr x, s')"
    using assms(1) unfolding settle_after_offset_def by (elim bind_ioE) (auto simp: lift_returns)
  obtain m p where r: "redistributeDebtAndColl (en_wsteth E) (totalDebtToRedistribute t) (totalCollToRedistribute t) (pr_tm s, pr_pools s) = Inr (m, p)"
      and s1: "s1 = s\<lparr>pr_tm := m, pr_pools := p\<rparr>"
    using s1 by (auto simp: modify_returns bind_res_eq_Inr)
  have e3: "records_of s3 = records_of s2 \<and> entries_of s3 = entries_of s2 \<and> Troves (pr_tm s3) = Troves (pr_tm s2)"
    using s3 by (auto simp: modify_returns bind_res_eq_Inr updateSystemSnapshots_excludeCollRemainder_def records_of_def entries_of_def)
  note r = redistribute_effect [OF r assms(2)] and g = sendGasCompensation_effect [OF g] and s2 = surplus_effect [OF s2]
  show "entries_of s' = entries_of s" and "Troves (pr_tm s') = Troves (pr_tm s)"
    using r(2,3) g s2 e3 by (simp_all add: entries_of_def s1)
  show "records_of s' = (fst (records_of s) - (totalCollToRedistribute t + totalCollSurplus t + totalCollGasCompensation t),
      snd (records_of s) - totalDebtToRedistribute t)"
    using r(1) g s2 e3 by (simp add: records_of_def s1)
qed

lemma settle_troves:
  assumes "settle_after_offset E sender t s = Some (Inr x, s')"
  shows "Troves (pr_tm s') = Troves (pr_tm s)"
proof -
  have "Troves m = Troves (pr_tm s)" if "redistributeDebtAndColl tok debt coll (pr_tm s, pr_pools s) = Inr (m, p)" for s tok debt coll m p
    using that by (auto simp: redistributeDebtAndColl_def bind_res_eq_Inr Let_def split: if_splits)
  then show ?thesis using assms unfolding settle_after_offset_def
    by (elim bind_ioE) (auto simp: lift_returns modify_returns bind_res_eq_Inr updateSystemSnapshots_excludeCollRemainder_def
        dest!: sendGasCompensation_effect surplus_effect)
qed

text \<open>The offset by the stability pool, seen from the books of the troves.\<close>

lemma in_protocol_returns:
  "in_protocol m sy = Some (Inr x, sy') \<longleftrightarrow> (\<exists>s. m (sy_pr sy) = Some (Inr x, s) \<and> sy' = sy\<lparr>sy_pr := s\<rparr>)"
  by (auto simp: in_protocol_def split: option.splits)

lemma triggerSHADYIssuance_pr: "triggerSHADYIssuance SE sy = Some (Inr x, sy') \<Longrightarrow> sy_pr sy' = sy_pr sy"
  by (auto simp: triggerSHADYIssuance_def on_sp_returns split: sum.splits)

lemma moveOffsetCollAndDebt_books:
  assumes "moveOffsetCollAndDebt SE n d sy = Some (Inr x, sy')"
  shows "pr_tm (sy_pr sy') = pr_tm (sy_pr sy)" and "records_of (sy_pr sy') = (fst (records_of (sy_pr sy)) - n, snd (records_of (sy_pr sy)) - d)"
proof -
  obtain sp p q sy2 where r: "activePool_decreaseSIMDebt (sp_self (sy_sp sy)) d (pr_pools (sy_pr sy)) = Inr p"
      "sp_on_sim (\<lambda>c self. sim_burn (en_oz (se_env SE)) c self self d) (sy\<lparr>sy_pr := (sy_pr sy)\<lparr>pr_pools := p\<rparr>, sy_sp := sp\<rparr>) = Some (Inr (), sy2)"
      "sendWSTETH (en_wsteth (se_env SE)) (sp_self (sy_sp sy)) (sp_self (sy_sp sy)) n (pr_pools (sy_pr sy2)) = Inr q"
      "sy' = sy2\<lparr>sy_pr := (sy_pr sy2)\<lparr>pr_pools := q\<rparr>\<rparr>"
    using assms unfolding moveOffsetCollAndDebt_def
    by (elim bind_ioE) (auto simp: sys_gets_returns in_protocol_returns on_sp_returns on_pools_returns)
  have "pr_tm (sy_pr sy2) = pr_tm (sy_pr sy) \<and> pr_pools (sy_pr sy2) = p"
    using r(2) by (auto simp: sp_on_sim_def split: sum.splits)
  then show "pr_tm (sy_pr sy') = pr_tm (sy_pr sy)"
    and "records_of (sy_pr sy') = (fst (records_of (sy_pr sy)) - n, snd (records_of (sy_pr sy)) - d)"
    using r(4) debt_records(2) [OF r(1)] sendWSTETH_records(1) [OF r(3)] by (simp_all add: records_of_def)
qed

lemma offset_books:
  assumes "offset SE a d n sy = Some (Inr x, sy')" and "d = 0 \<longrightarrow> n = 0" and "d \<le> totalSIMDeposits (sy_sp sy)"
  shows "pr_tm (sy_pr sy') = pr_tm (sy_pr sy)" and "records_of (sy_pr sy') = (fst (records_of (sy_pr sy)) - n, snd (records_of (sy_pr sy)) - d)"
proof -
  have "pr_tm (sy_pr sy') = pr_tm (sy_pr sy) \<and> records_of (sy_pr sy') = (fst (records_of (sy_pr sy)) - n, snd (records_of (sy_pr sy)) - d)"
  proof (cases "d = 0")
    case True
    then show ?thesis using assms(1,2) by (auto simp: offset_def bind_io_eq_Inr sys_gets_returns return_io_def)
  next
    case False
    then obtain sy1 s2 where r: "triggerSHADYIssuance SE sy = Some (Inr (), sy1)"
        "moveOffsetCollAndDebt SE n d (sy1\<lparr>sy_sp := s2\<rparr>) = Some (Inr x, sy')"
      using assms(1,3) by (auto simp: offset_def bind_io_eq_Inr sys_gets_returns on_sp_returns)
    show ?thesis using moveOffsetCollAndDebt_books [OF r(2)] triggerSHADYIssuance_pr [OF r(1)] by simp
  qed
  then show "pr_tm (sy_pr sy') = pr_tm (sy_pr sy)" and "records_of (sy_pr sy') = (fst (records_of (sy_pr sy)) - n, snd (records_of (sy_pr sy)) - d)"
    by simp_all
qed

section \<open>The calls as steps\<close>

definition in_mode :: "uint \<Rightarrow> liquidation_sequence \<Rightarrow> bool" where
  "in_mode price vars \<longleftrightarrow>
     ls_backToNormalMode vars \<or> (\<exists>TCR. computeCR (ls_entireSystemColl vars) (ls_entireSystemDebt vars) price = Inr TCR \<and> TCR < CCR)"

lemma run_sequence_steps:
  assumes "run_sequence E price SIM recovery request s = Some (Inr t, s')" and "checkRecoveryMode (pr_pools s) price = Inr recovery"
  obtains vars vars' where "liquidation_steps E price recovery s vars s' vars'" and "t = ls_totals vars'" and "ls_totals vars = zero_totals"
    and "ls_remainingSIMInStabPool vars = SIM" and "recovery \<Longrightarrow> in_mode price vars"
proof (cases recovery)
  case True
  obtain d c vars' where r: "getEntireSystemDebt (pr_pools s) = Inr d" "getEntireSystemColl (pr_pools s) = Inr c" "t = ls_totals vars'"
      "liquidation_steps E price True s (start_sequence SIM d c) s' vars'"
    using assms(1) True
    by (cases request) (auto simp: run_sequence_def bind_io_eq_Inr gets_returns return_io_def Let_def
        dest!: sequence_recovery_steps batch_recovery_steps)
  have "in_mode price (start_sequence SIM d c)"
    using assms(2) True r(1,2) by (auto simp: in_mode_def start_sequence_def checkRecoveryMode_def getTCR_def bind_res_eq_Inr)
  then show thesis using that [OF _ r(3)] r(4) True by (simp add: start_sequence_def)
next
  case False
  obtain vars' where "t = ls_totals vars'" "liquidation_steps E price recovery s (start_sequence SIM 0 0) s' vars'"
    using assms(1) False
    by (cases request) (auto simp: run_sequence_def bind_io_eq_Inr return_io_def Let_def intro: sequence_normal_steps batch_normal_steps)
  then show thesis using that False by (simp add: start_sequence_def)
qed

inductive liquidation ::
    "('t, 'm, 'p, 'd, 'y) system_env \<Rightarrow> address \<Rightarrow> ('t, 'm, 'd, 'y) system \<Rightarrow> ('t, 'm, 'd, 'y) system \<Rightarrow> bool" for SE where
  one: "liquidate SE sender b sy = Some (Inr (), sy') \<Longrightarrow> liquidation SE sender sy sy'"
| sequence: "liquidateTroves SE sender n sy = Some (Inr (), sy') \<Longrightarrow> liquidation SE sender sy sy'"
| batch: "batchLiquidateTroves SE sender users sy = Some (Inr (), sy') \<Longrightarrow> liquidation SE sender sy sy'"

lemma liquidation_steps_of:
  assumes "liquidation SE sender sy sy'"
  obtains price s1 recovery t s2 vars vars' sy3 x y
  where "fetch_price (se_env SE) (sy_pr sy) = Some (Inr price, s1)" and "checkRecoveryMode (pr_pools s1) price = Inr recovery"
    and "liquidation_steps (se_env SE) price recovery s1 vars s2 vars'" and "t = ls_totals vars'" and "ls_totals vars = zero_totals"
    and "ls_remainingSIMInStabPool vars = totalSIMDeposits (sy_sp sy)" and "recovery \<longrightarrow> in_mode price vars"
    and "offset SE (tm_self (pr_tm s2)) (totalDebtToOffset t) (totalCollToSendToSP t) (sy\<lparr>sy_pr := s2\<rparr>) = Some (Inr x, sy3)"
    and "settle_after_offset (se_env SE) sender t (sy_pr sy3) = Some (Inr y, sy_pr sy')" and "sy_sp sy' = sy_sp sy3"
proof -
  obtain request where "liquidation_call SE sender request sy = Some (Inr (), sy')"
    using assms
    by cases (auto simp: liquidate_def liquidateTroves_def batchLiquidateTroves_def batch_call_def sys_transaction_returns bind_io_eq_Inr
        sys_gets_returns lift_returns)
  then obtain price s1 recovery t s2 sy3 x y where
      r: "fetch_price (se_env SE) (sy_pr sy) = Some (Inr price, s1)" "checkRecoveryMode (pr_pools s1) price = Inr recovery"
      "run_sequence (se_env SE) price (totalSIMDeposits (sy_sp sy)) recovery request s1 = Some (Inr t, s2)"
      "offset SE (tm_self (pr_tm s2)) (totalDebtToOffset t) (totalCollToSendToSP t) (sy\<lparr>sy_pr := s2\<rparr>) = Some (Inr x, sy3)"
      "settle_after_offset (se_env SE) sender t (sy_pr sy3) = Some (Inr y, sy_pr sy')" "sy_sp sy' = sy_sp sy3"
    unfolding liquidation_call_def by (elim bind_ioE) (auto simp: sys_gets_returns lift_returns in_protocol_returns)
  show thesis
    using r(3,2) by (rule run_sequence_steps) (rule that [OF r(1,2) _ _ _ _ _ r(4,5,6)], auto)
qed

section \<open>What a liquidation leaves\<close>

lemma liquidation_books:
  assumes "liquidation SE sender sy sy'" and "books_balance (pr_tm (sy_pr sy)) (pr_pools (sy_pr sy))"
  shows "books_balance (pr_tm (sy_pr sy')) (pr_pools (sy_pr sy'))"
proof -
  obtain price s1 recovery t s2 vars vars' sy3 x y where
      r: "fetch_price (se_env SE) (sy_pr sy) = Some (Inr price, s1)" "liquidation_steps (se_env SE) price recovery s1 vars s2 vars'"
      "t = ls_totals vars'" "ls_totals vars = zero_totals" "ls_remainingSIMInStabPool vars = totalSIMDeposits (sy_sp sy)"
      and o: "offset SE (tm_self (pr_tm s2)) (totalDebtToOffset t) (totalCollToSendToSP t) (sy\<lparr>sy_pr := s2\<rparr>) = Some (Inr x, sy3)"
      and c: "settle_after_offset (se_env SE) sender t (sy_pr sy3) = Some (Inr y, sy_pr sy')"
    using assms(1) by (rule liquidation_steps_of)
  have "books_with 0 0 s1"
    using assms(2) other_contracts_entries(4) [OF r(1)] fetch_price_frame [OF r(1)]
    by (simp add: books_with_0 [symmetric] books_with_def records_of_def)
  then have "tallied (totalSIMDeposits (sy_sp sy)) (s1, vars)"
    by (simp add: tallied_def r(4,5) zero_totals_def coll_owed_def debt_owed_def)
  then have t: "tallied (totalSIMDeposits (sy_sp sy)) (s2, vars')" using r(2) tallied_steps by blast
  have bound: "totalDebtToOffset t \<le> totalSIMDeposits (sy_sp (sy\<lparr>sy_pr := s2\<rparr>))" "totalDebtToOffset t = 0 \<longrightarrow> totalCollToSendToSP t = 0"
      "totalDebtToRedistribute t = 0 \<longrightarrow> totalCollToRedistribute t = 0"
    using t by (auto simp: tallied_def r(3) Let_def)
  note o = offset_books [OF o bound(2,1)]
  have books: "books_with (coll_owed t) (debt_owed t) s2" using t by (simp add: tallied_def r(3) Let_def)
  have "books_with (coll_owed t - totalCollToSendToSP t) (debt_owed t - totalDebtToOffset t) (sy_pr sy3)"
    using o by (intro books_with_pay [OF books]) (simp_all add: entries_of_def coll_owed_def debt_owed_def)
  from books_with_pay [OF this settle_effect(1) [OF c bound(3)] settle_effect(3) [OF c bound(3)]]
  show ?thesis by (simp add: books_with_0 coll_owed_def debt_owed_def)
qed

lemma step_spares:
  assumes "liquidation_step E price recovery (s, vars) (s', vars')" and "getCurrentICR (pr_tm s) a price = Inr ICR"
    and "(if recovery then CCR else MCR) \<le> ICR" and "recovery \<Longrightarrow> in_mode price vars"
  shows "trove_view (pr_tm s') a = trove_view (pr_tm s) a" and "recovery \<Longrightarrow> in_mode price vars'"
proof -
  have healthy: "MCR \<le> ICR" using assms(3) by (simp add: MCR_def CCR_def split: if_splits)
  have "trove_view (pr_tm s') a = trove_view (pr_tm s) a \<and> (recovery \<longrightarrow> in_mode price vars')"
    using assms(1)
  proof cases
    case (normal b ICRb)
    then obtain v where v: "liquidateNormalMode E b (ls_remainingSIMInStabPool vars) s = Some (Inr v, s')"
        "ls_backToNormalMode vars' = ls_backToNormalMode vars" "ls_entireSystemColl vars' = ls_entireSystemColl vars"
        "ls_entireSystemDebt vars' = ls_entireSystemDebt vars"
      by (auto simp: normal_in_sequence_def bind_io_eq_Inr lift_returns return_io_def)
    have "a \<noteq> b" using normal(1,2) assms(2) healthy by auto
    then show ?thesis
      using liquidateNormalMode_effect(1) [OF v(1) normal(1,2)] assms(4) v(2-4) by (simp add: taken_out_def in_mode_def)
  next
    case (in_recovery b ICRb)
    then obtain v TCR where v: "liquidateRecoveryMode E b ICRb (ls_remainingSIMInStabPool vars) TCR price s = Some (Inr v, s')"
        "computeCR (ls_entireSystemColl vars) (ls_entireSystemDebt vars) price = Inr TCR" "in_mode price vars'"
      by (auto simp: recovery_in_sequence_def bind_io_eq_Inr lift_returns return_io_def checkPotentialRecoveryMode_def bind_res_eq_Inr in_mode_def)
    have "TCR < CCR" using assms(4) in_recovery(1,2) v(2) by (simp add: in_mode_def)
    then have "a \<noteq> b \<or> v = zero_values \<and> s' = s"
      using liquidateRecoveryMode_effect [OF v(1) in_recovery(3)] assms(2,3) in_recovery(1,3) healthy by auto
    then show ?thesis using liquidateRecoveryMode_effect [OF v(1) in_recovery(3)] v(3) by (auto simp: taken_out_def)
  qed
  then show "trove_view (pr_tm s') a = trove_view (pr_tm s) a" and "recovery \<Longrightarrow> in_mode price vars'" by simp_all
qed

lemma steps_spare:
  assumes "(liquidation_step E price recovery)\<^sup>*\<^sup>* c c'" and "getCurrentICR (pr_tm (fst c)) a price = Inr ICR"
    and "(if recovery then CCR else MCR) \<le> ICR" and "recovery \<Longrightarrow> in_mode price (snd c)"
  shows "trove_view (pr_tm (fst c')) a = trove_view (pr_tm (fst c)) a \<and> (recovery \<longrightarrow> in_mode price (snd c'))"
  using assms(1)
proof (induction rule: rtranclp_induct)
  case base
  then show ?case using assms(4) by simp
next
  case (step d d')
  have "getCurrentICR (pr_tm (fst d)) a price = Inr ICR"
    using view_ICR [of "pr_tm (fst d)" a "pr_tm (fst c)" price] step.IH assms(2) by simp
  then show ?case
    using step_spares [of E price recovery "fst d" "snd d" "fst d'" "snd d'" a ICR] step assms(3) by auto
qed

lemma offset_troves:
  assumes "offset SE a d n sy = Some (Inr x, sy')"
  shows "pr_tm (sy_pr sy') = pr_tm (sy_pr sy)"
proof (cases "totalSIMDeposits (sy_sp sy) = 0 \<or> d = 0")
  case True
  then show ?thesis using assms by (auto simp: offset_def bind_io_eq_Inr sys_gets_returns return_io_def)
next
  case False
  then show ?thesis using assms
    by (auto simp: offset_def bind_io_eq_Inr sys_gets_returns on_sp_returns dest!: moveOffsetCollAndDebt_books(1) triggerSHADYIssuance_pr)
qed

text \<open>
  C6. Who can be liquidated. When a liquidation, of one trove, of a batch or of the troves at the end of the
  list, returns, a trove whose ratio at the price of the feed was at least 110 percent is as it was: its debt,
  its collateral, its stake and its status. In Recovery Mode this holds for the troves with a ratio of at
  least 150 percent, however the sequence leaves Recovery Mode on its way.
\<close>

theorem healthy_troves_survive:
  assumes "liquidation SE sender sy sy'" and "fetchPrice (en_oracles (se_env SE)) (pr_feed (sy_pr sy)) = Inr (price, feed)"
    and "checkRecoveryMode (pr_pools (sy_pr sy)) price = Inr recovery"
    and "getCurrentICR (pr_tm (sy_pr sy)) borrower price = Inr ICR" and "(if recovery then CCR else MCR) \<le> ICR"
  shows "tr_debt (Troves (pr_tm (sy_pr sy')) borrower) = tr_debt (Troves (pr_tm (sy_pr sy)) borrower)
    \<and> tr_coll (Troves (pr_tm (sy_pr sy')) borrower) = tr_coll (Troves (pr_tm (sy_pr sy)) borrower)
    \<and> tr_stake (Troves (pr_tm (sy_pr sy')) borrower) = tr_stake (Troves (pr_tm (sy_pr sy)) borrower)
    \<and> tr_status (Troves (pr_tm (sy_pr sy')) borrower) = tr_status (Troves (pr_tm (sy_pr sy)) borrower)"
proof -
  obtain price' s1 recovery' t s2 vars vars' sy3 x y where
      r: "fetch_price (se_env SE) (sy_pr sy) = Some (Inr price', s1)" "checkRecoveryMode (pr_pools s1) price' = Inr recovery'"
      "liquidation_steps (se_env SE) price' recovery' s1 vars s2 vars'" "recovery' \<longrightarrow> in_mode price' vars"
      and o: "offset SE (tm_self (pr_tm s2)) (totalDebtToOffset t) (totalCollToSendToSP t) (sy\<lparr>sy_pr := s2\<rparr>) = Some (Inr x, sy3)"
      and c: "settle_after_offset (se_env SE) sender t (sy_pr sy3) = Some (Inr y, sy_pr sy')"
    using assms(1) by (rule liquidation_steps_of)
  have s1: "price' = price" "pr_tm s1 = pr_tm (sy_pr sy)" "pr_pools s1 = pr_pools (sy_pr sy)"
    using r(1) assms(2) by (auto simp: fetch_price_def)
  have mode: "recovery' = recovery" using r(2) assms(3) by (simp add: s1)
  have "trove_view (pr_tm s2) borrower = trove_view (pr_tm (sy_pr sy)) borrower"
    using steps_spare [OF r(3)] r(4) assms(4,5) by (simp add: s1 mode)
  then show ?thesis using settle_troves [OF c] offset_troves [OF o] by (simp add: trove_view_def)
qed

section \<open>A liquidation\<close>

text \<open>Two troves, with ratios of 398 and 105 percent at the price of 2000, and nothing in the stability pool.\<close>

definition sample_two_troves :: "(address \<Rightarrow> uint, (address \<Rightarrow> uint) \<times> (address \<Rightarrow> address \<Rightarrow> uint), unit) protocol" where
  "sample_two_troves = sample_start
     \<lparr>pr_pools := sample_pools\<lparr>activePool := (activePool sample_pools)\<lparr>ap_WSTETH := 12000000000000000000, ap_SIMDebt := 8825000000000000000000\<rparr>,
        wsteth := (\<lambda>_. 0)(12 := 12000000000000000000)\<rparr>,
      pr_tm := sample_tm\<lparr>
        Troves := (\<lambda>_. no_trove)(
          40 := \<lparr>tr_debt = 5025000000000000000000, tr_coll = 10000000000000000000, tr_stake = 10000000000000000000, tr_status = Active, tr_arrayIndex = 0\<rparr>,
          41 := \<lparr>tr_debt = 3800000000000000000000, tr_coll = 2000000000000000000, tr_stake = 2000000000000000000, tr_status = Active, tr_arrayIndex = 1\<rparr>),
        totalStakes := 12000000000000000000, TroveOwners := [40, 41]\<rparr>,
      pr_list := sample_list\<lparr>st_data := \<lparr>head = 40, tail = 41, maxSize = 1000000, size = 2,
        nodes = (\<lambda>_. no_node)(
          40 := \<lparr>nd_exists = True, nd_nextId = 41, nd_prevId = 0\<rparr>,
          41 := \<lparr>nd_exists = True, nd_nextId = 0, nd_prevId = 40\<rparr>)\<rparr>\<rparr>\<rparr>"

definition sample_liquidation_system ::
    "(address \<Rightarrow> uint, (address \<Rightarrow> uint) \<times> (address \<Rightarrow> address \<Rightarrow> uint), unit, address \<Rightarrow> uint) system" where
  "sample_liquidation_system = sample_pool_system\<lparr>sy_pr := sample_two_troves, sy_sp := (new_stability_pool 14 9)\<lparr>sp_troveManager := 11\<rparr>\<rparr>"

lemmas run_liquidation = liquidate_def batch_call_def liquidation_call_def run_sequence_def start_sequence_def zero_totals_def
  normal_in_sequence_def liquidateNormalMode_def detach_trove_def move_pending_def within_tm_def close_trove_def
  movePendingTroveRewardsToActivePool_def defaultPool_decreaseSIMDebt_def sendWSTETHToActivePool_def removeStake_def closeTrove_def
  removeTroveOwner_def remove_trove_def callerIsTroveManager_def addLiquidationValuesToTotals_def getOffsetAndRedistributionVals_def
  getCollGasCompensation_def PERCENT_DIVISOR_def offset_def settle_after_offset_def redistributeDebtAndColl_def defaultPool_increaseSIMDebt_def
  defaultPool_receiveWSTETH_def updateSystemSnapshots_excludeCollRemainder_def sendGasCompensation_def tm_pools_def sendWSTETH_def when_res_def
  getEntireDebtAndColl_def getCurrentICR_def getCurrentTroveAmounts_def getPendingWSTETHReward_def getPendingSIMDebtReward_def pending_reward_def
  requireTroveIsActive_def set_next_def set_prev_def getPrev_def getNext_def

lemma sample_liquidates:
  "\<exists>sy'. liquidate sample_pool_env 42 41 sample_liquidation_system = Some (Inr (), sy')"
  by (simp add: run_liquidation run_stability run_adjustment sample_pool_env_def sample_liquidation_system_def sample_two_troves_def
      sample_pool_system_def run_samples run_io run_guards run_numbers run_calls moved_def Let_def)

lemma sample_two_troves_state:
  "fetchPrice (en_oracles (se_env sample_pool_env)) (pr_feed (sy_pr sample_liquidation_system)) = Inr (2000000000000000000000,
     (sample_feed Api3Working)\<lparr>pf_status := Api3Working, pf_lastGoodPrice := 2200000000000000000000\<rparr>)"
  "checkRecoveryMode (pr_pools (sy_pr sample_liquidation_system)) 2000000000000000000000 = Inr False"
  "getCurrentICR (pr_tm (sy_pr sample_liquidation_system)) 40 2000000000000000000000 = Inr 3980099502487562189"
  by (simp_all add: sample_pool_env_def sample_liquidation_system_def sample_two_troves_def sample_pool_system_def run_samples run_calls
      run_numbers run_liquidation)

theorem healthy_troves_survive_witness:
  "\<exists>sy'. liquidate sample_pool_env 42 41 sample_liquidation_system = Some (Inr (), sy')
     \<and> tr_debt (Troves (pr_tm (sy_pr sy')) 40) = tr_debt (Troves (pr_tm (sy_pr sample_liquidation_system)) 40)
     \<and> tr_status (Troves (pr_tm (sy_pr sy')) 40) = tr_status (Troves (pr_tm (sy_pr sample_liquidation_system)) 40)"
proof -
  obtain sy' where l: "liquidate sample_pool_env 42 41 sample_liquidation_system = Some (Inr (), sy')" using sample_liquidates by blast
  have "(if False then CCR else MCR) \<le> 3980099502487562189" by (simp add: MCR_def)
  from healthy_troves_survive [OF liquidation.one [OF l] sample_two_troves_state this] show ?thesis using l by blast
qed

end
