(* ===== verification/Redemption.thy ===== *)
theory Redemption
  imports Liquidation
begin

text \<open>
  Redemptions (\<open>contracts/TroveManager.sol\<close>): the holder of SIM gives it up for collateral of the troves with the
  lowest ratios. The walk up the list for the first trove that can be redeemed from is a partial function. The
  theorems say what the redeemer pays and gets, and that the call ends. Events are not modelled.
\<close>

section \<open>Data\<close>

record single_redemption =
  sr_SIMLot :: uint
  sr_WSTETHLot :: uint
  sr_cancelledPartial :: bool

record redemption_totals =
  remainingSIM :: uint
  totalSIMToRedeem :: uint
  totalWSTETHDrawn :: uint

definition BOOTSTRAP_PERIOD :: uint where "BOOTSTRAP_PERIOD = 2592000"

section \<open>One trove\<close>

definition redeemCloseTrove :: "('t, 'm, 'p, 'd) env \<Rightarrow> address \<Rightarrow> uint \<Rightarrow> ('t, 'm, 'd, unit) op" where
  "redeemCloseTrove E borrower WSTETH =
     bind_io (tm_pools (\<lambda>self. accountSurplus self borrower WSTETH)) (\<lambda>_.
     modify (\<lambda>s. bind_res (sendWSTETH (en_wsteth E) (tm_self (pr_tm s)) (tm_collSurplusPool (pr_tm s)) WSTETH (pr_pools s))
       (\<lambda>p. Inr (s\<lparr>pr_pools := p\<rparr>))))"

text \<open>The trove manager moves a trove in the list, and puts in its new debt and collateral.\<close>

definition reinsert_redeemed :: "address \<Rightarrow> uint \<Rightarrow> uint \<Rightarrow> uint \<Rightarrow> address \<Rightarrow> address \<Rightarrow> ('t, 'm, 'd, unit) op" where
  "reinsert_redeemed borrower newNICR newDebt newColl upperHint lowerHint =
     bind_io (on_list (\<lambda>s. reInsert_trove (nicr_of (pr_tm s)) (pr_list s) (tm_self (pr_tm s)) borrower newNICR upperHint lowerHint)) (\<lambda>_.
     within_tm (\<lambda>m. bind_res (updateStakeAndTotalStakes borrower (upd_trove borrower (\<lambda>t. t\<lparr>tr_debt := newDebt, tr_coll := newColl\<rparr>) m))
       (\<lambda>(_, m'). Inr m')))"

definition redeemCollateralFromTrove ::
    "('t, 'm, 'p, 'd) env \<Rightarrow> address \<Rightarrow> uint \<Rightarrow> uint \<Rightarrow> address \<Rightarrow> address \<Rightarrow> uint \<Rightarrow> ('t, 'm, 'd, single_redemption) op" where
  "redeemCollateralFromTrove E borrower maxSIMamount price upperHint lowerHint hintNICR =
     bind_io (gets (\<lambda>s. Inr (Troves (pr_tm s) borrower))) (\<lambda>t.
     let SIMLot = LM_min maxSIMamount (tr_debt t) in
     bind_io (lift_io (bind_res (u_mul SIMLot DECIMAL_PRECISION) (\<lambda>x. u_div x price))) (\<lambda>WSTETHLot.
     bind_io (lift_io (u_sub (tr_debt t) SIMLot)) (\<lambda>newDebt.
     bind_io (lift_io (u_sub (tr_coll t) WSTETHLot)) (\<lambda>newColl.
     if newDebt = 0 then
       bind_io (within_tm (removeStake borrower)) (\<lambda>_.
       bind_io (close_trove borrower ClosedByRedemption) (\<lambda>_.
       bind_io (redeemCloseTrove E borrower newColl) (\<lambda>_.
       return_io \<lparr>sr_SIMLot = SIMLot, sr_WSTETHLot = WSTETHLot, sr_cancelledPartial = False\<rparr>)))
     else
       bind_io (lift_io (computeNominalCR newColl newDebt)) (\<lambda>newNICR.
       if newNICR \<noteq> hintNICR \<or> getNetDebt newDebt < MIN_NET_DEBT then
         return_io \<lparr>sr_SIMLot = SIMLot, sr_WSTETHLot = WSTETHLot, sr_cancelledPartial = True\<rparr>
       else
         bind_io (reinsert_redeemed borrower newNICR newDebt newColl upperHint lowerHint) (\<lambda>_.
         return_io \<lparr>sr_SIMLot = SIMLot, sr_WSTETHLot = WSTETHLot, sr_cancelledPartial = False\<rparr>))))))"

section \<open>The call\<close>

text \<open>The first trove, from \<open>b\<close> up the list, with a ratio of at least \<open>MCR\<close>.\<close>

partial_function (option) skip_below_MCR :: "trove_manager \<Rightarrow> trove_list \<Rightarrow> uint \<Rightarrow> address \<Rightarrow> (revert + address) option" where
  "skip_below_MCR m d price b =
     (if b = 0 then Some (Inr 0)
      else case getCurrentICR m b price of
        Inl e \<Rightarrow> Some (Inl e)
      | Inr ICR \<Rightarrow> if ICR < MCR then skip_below_MCR m d price (getPrev d b) else Some (Inr b))"

declare skip_below_MCR.simps [code]

definition isValidFirstRedemptionHint :: "trove_manager \<Rightarrow> trove_list \<Rightarrow> address \<Rightarrow> uint \<Rightarrow> revert + bool" where
  "isValidFirstRedemptionHint m d hint price =
     (if hint = 0 \<or> \<not> contains d hint then Inr False
      else bind_res (getCurrentICR m hint price) (\<lambda>ICR.
        if ICR < MCR then Inr False
        else
          let nextTrove = getNext d hint in
          if nextTrove = 0 then Inr True else bind_res (getCurrentICR m nextTrove price) (\<lambda>n. Inr (n < MCR))))"

definition first_borrower :: "address \<Rightarrow> uint \<Rightarrow> ('t, 'm, 'd, address) op" where
  "first_borrower hint price s =
     (case isValidFirstRedemptionHint (pr_tm s) (st_data (pr_list s)) hint price of
        Inl e \<Rightarrow> Some (Inl e, s)
      | Inr valid \<Rightarrow>
          if valid then Some (Inr hint, s)
          else map_option (\<lambda>r. (r, s)) (skip_below_MCR (pr_tm s) (st_data (pr_list s)) price (tail (st_data (pr_list s)))))"

definition apply_own_pending :: "('t, 'm, 'p, 'd) env \<Rightarrow> address \<Rightarrow> ('t, 'm, 'd, unit) op" where
  "apply_own_pending E borrower =
     modify (\<lambda>s. bind_res (applyPendingRewards (en_wsteth E) borrower (pr_tm s, pr_pools s)) (\<lambda>(m, p). Inr (s\<lparr>pr_tm := m, pr_pools := p\<rparr>)))"

fun redeem_loop ::
    "('t, 'm, 'p, 'd) env \<Rightarrow> uint \<Rightarrow> address \<Rightarrow> address \<Rightarrow> uint \<Rightarrow> uint \<Rightarrow> address \<Rightarrow> redemption_totals \<Rightarrow> ('t, 'm, 'd, redemption_totals) op" where
  "redeem_loop E price upperHint lowerHint hintNICR maxIterations currentBorrower t =
     (if currentBorrower = 0 \<or> remainingSIM t = 0 \<or> maxIterations = 0 then return_io t
      else
        bind_io (gets (\<lambda>s. Inr (getPrev (st_data (pr_list s)) currentBorrower))) (\<lambda>nextUserToCheck.
        bind_io (apply_own_pending E currentBorrower) (\<lambda>_.
        bind_io (redeemCollateralFromTrove E currentBorrower (remainingSIM t) price upperHint lowerHint hintNICR) (\<lambda>single.
        if sr_cancelledPartial single then return_io t
        else
          bind_io (lift_io (u_add (totalSIMToRedeem t) (sr_SIMLot single))) (\<lambda>redeemed.
          bind_io (lift_io (u_add (totalWSTETHDrawn t) (sr_WSTETHLot single))) (\<lambda>drawn.
          bind_io (lift_io (u_sub (remainingSIM t) (sr_SIMLot single))) (\<lambda>remaining.
          redeem_loop E price upperHint lowerHint hintNICR (maxIterations - 1) nextUserToCheck
            \<lparr>remainingSIM = remaining, totalSIMToRedeem = redeemed, totalWSTETHDrawn = drawn\<rparr>)))))))"

declare redeem_loop.simps [simp del]

text \<open>The guards before the loop; they return the price and the debt of the system.\<close>

definition redemption_guards ::
    "('t, 'm, 'p, 'd) env \<Rightarrow> shady_token \<Rightarrow> address \<Rightarrow> uint \<Rightarrow> uint \<Rightarrow> ('t, 'm, 'd, uint \<times> uint) op" where
  "redemption_guards E shadyToken sender SIMamount maxFeePercentage =
     bind_io (ensure (REDEMPTION_FEE_FLOOR \<le> maxFeePercentage \<and> maxFeePercentage \<le> DECIMAL_PRECISION)
       ''Max fee percentage must be between 0.5% and 100%'') (\<lambda>_.
     bind_io (lift_io (bind_res (u_add (sh_deploymentStartTime shadyToken) BOOTSTRAP_PERIOD) (\<lambda>end_of_bootstrap.
       require (end_of_bootstrap \<le> or_now (en_oracles E)) ''TroveManager: Redemptions are not allowed during bootstrap phase''))) (\<lambda>_.
     bind_io (fetch_price E) (\<lambda>price.
     bind_io (gets (\<lambda>s. bind_res (getTCR (pr_pools s) price) (\<lambda>TCR.
       require (MCR \<le> TCR) ''TroveManager: Cannot redeem when TCR < MCR''))) (\<lambda>_.
     bind_io (ensure (0 < SIMamount) ''TroveManager: Amount must be greater than zero'') (\<lambda>_.
     bind_io (gets (\<lambda>s. require (SIMamount \<le> oz_balanceOf (en_oz E) (pr_sim s) sender)
       ''TroveManager: Requested redemption amount must be <= user's SIM token balance'')) (\<lambda>_.
     bind_io (gets (\<lambda>s. getEntireSystemDebt (pr_pools s))) (\<lambda>totalSIMSupplyAtStart.
     bind_io (gets (\<lambda>s. if oz_balanceOf (en_oz E) (pr_sim s) sender \<le> totalSIMSupplyAtStart then Inr () else Inl Panic)) (\<lambda>_.
     return_io (price, totalSIMSupplyAtStart)))))))))"

text \<open>The fee, the burning of the SIM and the payments after the loop.\<close>

definition settle_redemption ::
    "('t, 'm, 'p, 'd) env \<Rightarrow> address \<Rightarrow> uint \<Rightarrow> uint \<Rightarrow> uint \<Rightarrow> redemption_totals \<Rightarrow> ('t, 'm, 'd, unit) op" where
  "settle_redemption E sender price totalSIMSupplyAtStart maxFeePercentage t =
     bind_io (ensure (0 < totalWSTETHDrawn t) ''TroveManager: Unable to redeem any amount'') (\<lambda>_.
     bind_io (within_tm (\<lambda>m. bind_res (updateBaseRateFromRedemption (or_now (en_oracles E)) (totalWSTETHDrawn t) price totalSIMSupplyAtStart m)
       (\<lambda>(_, m'). Inr m'))) (\<lambda>_.
     bind_io (gets (\<lambda>s. bind_res (calcRedemptionRate (baseRate (pr_tm s))) (\<lambda>rate. calcRedemptionFee rate (totalWSTETHDrawn t)))) (\<lambda>WSTETHFee.
     bind_io (lift_io (requireUserAcceptsFee WSTETHFee (totalWSTETHDrawn t) maxFeePercentage)) (\<lambda>_.
     bind_io (gets (\<lambda>s. Inr (tm_wstETHVeDistributor (pr_tm s)))) (\<lambda>distributor.
     bind_io (tm_pools (\<lambda>self. sendWSTETH (en_wsteth E) self distributor WSTETHFee)) (\<lambda>_.
     bind_io (modify (\<lambda>s. bind_res (en_checkpoint E distributor (pr_dist s)) (\<lambda>d. Inr (s\<lparr>pr_dist := d\<rparr>)))) (\<lambda>_.
     bind_io (lift_io (u_sub (totalWSTETHDrawn t) WSTETHFee)) (\<lambda>WSTETHToSendToRedeemer.
     bind_io (modify (\<lambda>s. bind_res (sim_burn (en_oz E) (pr_simToken s) (tm_self (pr_tm s)) sender (totalSIMToRedeem t) (pr_sim s))
       (\<lambda>m. Inr (s\<lparr>pr_sim := m\<rparr>)))) (\<lambda>_.
     bind_io (tm_pools (\<lambda>self. activePool_decreaseSIMDebt self (totalSIMToRedeem t))) (\<lambda>_.
     tm_pools (\<lambda>self. sendWSTETH (en_wsteth E) self sender WSTETHToSendToRedeemer)))))))))))"

definition redeemCollateral ::
    "('t, 'm, 'p, 'd) env \<Rightarrow> shady_token \<Rightarrow> address \<Rightarrow> uint \<Rightarrow> address \<Rightarrow> address \<Rightarrow> address \<Rightarrow> uint \<Rightarrow> uint \<Rightarrow> uint \<Rightarrow> ('t, 'm, 'd, unit) op" where
  "redeemCollateral E shadyToken sender SIMamount firstRedemptionHint upperHint lowerHint hintNICR maxIterations maxFeePercentage =
     transaction (
     bind_io (redemption_guards E shadyToken sender SIMamount maxFeePercentage) (\<lambda>(price, totalSIMSupplyAtStart).
     bind_io (first_borrower firstRedemptionHint price) (\<lambda>currentBorrower.
     bind_io (redeem_loop E price upperHint lowerHint hintNICR (if maxIterations = 0 then uint_max else maxIterations) currentBorrower
       \<lparr>remainingSIM = SIMamount, totalSIMToRedeem = 0, totalWSTETHDrawn = 0\<rparr>) (\<lambda>t.
     settle_redemption E sender price totalSIMSupplyAtStart maxFeePercentage t))))"

section \<open>What a redemption does to the books\<close>

lemma tm_pools_returns:
  "tm_pools f s = Some (Inr x, s') \<longleftrightarrow> (\<exists>p. f (tm_self (pr_tm s)) (pr_pools s) = Inr p \<and> s' = s\<lparr>pr_pools := p\<rparr>)"
  by (auto simp: tm_pools_def modify_returns bind_res_eq_Inr)

lemma books_moved_with:
  assumes "books_moved b s s'" and "books_with n d s"
  shows "books_with n d s'"
proof (rule books_with_change [OF assms(2)])
  show "entries_of s' = (entries_of s)(b := entries_of s' b)"
    using assms(1) by (auto simp: books_moved_def moved_together_def entries_of_def entries_def fun_eq_iff)
qed (use assms(1) in \<open>simp_all add: books_moved_def moved_together_def entries_of_def entries_def records_of_def records_def\<close>)

text \<open>The debt of the system and the SIM of the accounts, which the redemption from a trove leaves alone.\<close>

definition unredeemed :: "('t, 'm, 'd) protocol \<Rightarrow> uint \<times> 'm \<times> sim_token" where
  "unredeemed s = (snd (totals (pr_pools s)), pr_sim s, pr_simToken s)"

lemma reports_debt:
  "when_res b (defaultPool_receiveWSTETH a n) p = Inr p' \<Longrightarrow> snd (totals p') = snd (totals p)"
  "when_res b (stabilityPool_receiveWSTETH a n) p = Inr p' \<Longrightarrow> snd (totals p') = snd (totals p)"
  "when_res b (collSurplusPool_receiveWSTETH a n) p = Inr p' \<Longrightarrow> snd (totals p') = snd (totals p)"
  by (auto simp: when_res_def defaultPool_receiveWSTETH_def stabilityPool_receiveWSTETH_def collSurplusPool_receiveWSTETH_def totals_def
      Let_def bind_res_eq_Inr split: if_splits)

lemma sendWSTETH_debt:
  assumes "sendWSTETH tok sender account n p = Inr p'"
  shows "snd (totals p') = snd (totals p)"
proof -
  define p0 where "p0 = p\<lparr>activePool := (activePool p)\<lparr>ap_WSTETH := ap_WSTETH (activePool p) - n\<rparr>\<rparr>"
  obtain p1 p2 p3 where p1: "transfer_WSTETH tok (at_activePool p) account n p0 = Inr p1"
      "when_res (account = ap_defaultPoolAddress (activePool p)) (defaultPool_receiveWSTETH (at_activePool p) n) p1 = Inr p2"
      "when_res (account = ap_stabilityPoolAddress (activePool p)) (stabilityPool_receiveWSTETH (at_activePool p) n) p2 = Inr p3"
      "when_res (account = ap_collSurplusPoolAddress (activePool p)) (collSurplusPool_receiveWSTETH (at_activePool p) n) p3 = Inr p'"
    using assms unfolding p0_def
    by (auto simp: sendWSTETH_def callerIsBOorTroveMorSP_def Let_def bind_res_eq_Inr checked_Inr split: if_splits)
  have "snd (totals p') = snd (totals p0)"
    using transfer_WSTETH_totals [OF p1(1)] reports_debt(1) [OF p1(2)] reports_debt(2) [OF p1(3)] reports_debt(3) [OF p1(4)] by simp
  then show ?thesis by (simp add: p0_def totals_def)
qed

lemma accountSurplus_totals: "accountSurplus a b n p = Inr p' \<Longrightarrow> totals p' = totals p"
  by (auto simp: accountSurplus_def Let_def bind_res_eq_Inr totals_def split: if_splits)

lemma apply_own_pending_effect:
  assumes "apply_own_pending E b s = Some (Inr x, s')"
  shows "books_moved b s s'" and "unredeemed s' = unredeemed s"
  using assms
  by (auto simp: apply_own_pending_def modify_returns bind_res_eq_Inr books_moved_def unredeemed_def
      dest: applyPendingRewards_books applyPendingRewards_totals)

lemma redeemCloseTrove_effect:
  assumes "redeemCloseTrove E b n s = Some (Inr x, s')"
  shows "entries_of s' = entries_of s" and "records_of s' = (fst (records_of s) - n, snd (records_of s))" and "n \<le> fst (records_of s)"
    and "unredeemed s' = unredeemed s"
proof -
  obtain p q where p: "accountSurplus (tm_self (pr_tm s)) b n (pr_pools s) = Inr p"
      "sendWSTETH (en_wsteth E) (tm_self (pr_tm s)) (tm_collSurplusPool (pr_tm s)) n p = Inr q" and s': "s' = s\<lparr>pr_pools := q\<rparr>"
    using assms by (auto simp: redeemCloseTrove_def bind_io_eq_Inr tm_pools_returns modify_returns bind_res_eq_Inr)
  note r = accountSurplus_records [OF p(1)] sendWSTETH_records [OF p(2)] accountSurplus_totals [OF p(1)] sendWSTETH_debt [OF p(2)]
  show "entries_of s' = entries_of s" by (simp add: s' entries_of_def)
  show "records_of s' = (fst (records_of s) - n, snd (records_of s))" and "n \<le> fst (records_of s)"
    using r by (simp_all add: s' records_of_def)
  show "unredeemed s' = unredeemed s" using r by (simp add: s' unredeemed_def)
qed

lemma reinsert_redeemed_effect:
  assumes "reinsert_redeemed b i d c u l s = Some (Inr x, s')"
  shows "entries_of s' = (entries_of s)(b := (c, d))" and "pr_pools s' = pr_pools s" and "unredeemed s' = unredeemed s"
proof -
  obtain st m k where m: "updateStakeAndTotalStakes b (upd_trove b (\<lambda>t. t\<lparr>tr_debt := d, tr_coll := c\<rparr>) (pr_tm s)) = Inr (k, m)"
      and s': "s' = s\<lparr>pr_list := st, pr_tm := m\<rparr>"
    using assms by (auto simp: reinsert_redeemed_def bind_io_eq_Inr on_list_def within_tm_returns bind_res_eq_Inr split: option.splits sum.splits)
  show "entries_of s' = (entries_of s)(b := (c, d))"
    using stake_entries(1) [OF m] by (simp add: s' entries_of_def entries_upd_trove)
  show "pr_pools s' = pr_pools s" and "unredeemed s' = unredeemed s" by (simp_all add: s' unredeemed_def)
qed

lemma close_redeemed_effect:
  assumes "within_tm (removeStake b) s = Some (Inr x, s1)" and "close_trove b st s1 = Some (Inr y, s2)"
  shows "entries_of s2 = (entries_of s)(b := (0, 0))" and "pr_pools s2 = pr_pools s" and "unredeemed s2 = unredeemed s"
proof -
  obtain m where m: "removeStake b (pr_tm s) = Inr m" "s1 = s\<lparr>pr_tm := m\<rparr>" using assms(1) by (auto simp: within_tm_returns)
  obtain m' l where c: "closeTrove b st (m, pr_list s) = Some (Inr (m', l))" "s2 = s1\<lparr>pr_tm := m', pr_list := l\<rparr>"
    using assms(2) by (auto simp: close_trove_returns m(2))
  show "entries_of s2 = (entries_of s)(b := (0, 0))"
    using closeTrove_result(1) [OF c(1)] stake_entries(2) [OF m(1)] by (simp add: c(2) entries_of_def)
  show "pr_pools s2 = pr_pools s" and "unredeemed s2 = unredeemed s" by (simp_all add: c(2) m(2) unredeemed_def)
qed

lemma face_value: "bind_res (u_mul lot DECIMAL_PRECISION) (\<lambda>x. u_div x price) = Inr w \<Longrightarrow> w * price \<le> lot * 10 ^ 18"
  by (auto simp: bind_res_eq_Inr checked_Inr DECIMAL_PRECISION_def)

lemma redeem_from_trove_effect:
  assumes "redeemCollateralFromTrove E b maxSIM price u l h s = Some (Inr r, s')"
  shows "unredeemed s' = unredeemed s" and "sr_cancelledPartial r \<Longrightarrow> s' = s"
    and "sr_WSTETHLot r * price \<le> sr_SIMLot r * 10 ^ 18" and "sr_SIMLot r \<le> maxSIM"
    and "\<not> sr_cancelledPartial r \<Longrightarrow> books_with n d s \<Longrightarrow> books_with (n + sr_WSTETHLot r) (d + sr_SIMLot r) s'"
proof -
  let ?t = "Troves (pr_tm s) b"
  define lot where "lot = LM_min maxSIM (tr_debt ?t)"
  have lot: "lot \<le> maxSIM" "lot \<le> tr_debt ?t" by (simp_all add: lot_def LM_min_def)
  obtain w where w: "bind_res (u_mul lot DECIMAL_PRECISION) (\<lambda>x. u_div x price) = Inr w" "w \<le> tr_coll ?t"
      and r: "sr_SIMLot r = lot" "sr_WSTETHLot r = w"
      and s': "tr_debt ?t - lot = 0 \<and> \<not> sr_cancelledPartial r
          \<and> (\<exists>s1 s2. within_tm (removeStake b) s = Some (Inr (), s1) \<and> close_trove b ClosedByRedemption s1 = Some (Inr (), s2)
              \<and> redeemCloseTrove E b (tr_coll ?t - w) s2 = Some (Inr (), s'))
        \<or> sr_cancelledPartial r \<and> s' = s
        \<or> \<not> sr_cancelledPartial r \<and> reinsert_redeemed b h (tr_debt ?t - lot) (tr_coll ?t - w) u l s = Some (Inr (), s')"
    using assms unfolding redeemCollateralFromTrove_def lot_def Let_def
    by (elim bind_ioE) (auto simp: gets_returns lift_returns checked_Inr return_io_def bind_io_eq_Inr simp del: split_paired_Ex split: if_splits)
  show "sr_WSTETHLot r * price \<le> sr_SIMLot r * 10 ^ 18" using face_value [OF w(1)] by (simp add: r)
  show "sr_SIMLot r \<le> maxSIM" using lot by (simp add: r)
  show "unredeemed s' = unredeemed s"
    using s'
  proof (elim disjE conjE exE)
    fix s1 s2
    assume "within_tm (removeStake b) s = Some (Inr (), s1)" "close_trove b ClosedByRedemption s1 = Some (Inr (), s2)"
      "redeemCloseTrove E b (tr_coll ?t - w) s2 = Some (Inr (), s')"
    then show ?thesis using close_redeemed_effect(3) redeemCloseTrove_effect(4) by fastforce
  next
    assume "reinsert_redeemed b h (tr_debt ?t - lot) (tr_coll ?t - w) u l s = Some (Inr (), s')"
    then show ?thesis by (rule reinsert_redeemed_effect(3))
  qed simp
  show "s' = s" if "sr_cancelledPartial r" using s' that by blast
  have e: "entries_of s b = (tr_coll ?t, tr_debt ?t)" by (simp add: entries_of_def entries_def)
  assume "\<not> sr_cancelledPartial r" and books: "books_with n d s"
  with s' show "books_with (n + sr_WSTETHLot r) (d + sr_SIMLot r) s'"
  proof (elim disjE conjE exE)
    fix s1 s2
    assume c: "tr_debt ?t - lot = 0" "within_tm (removeStake b) s = Some (Inr (), s1)" "close_trove b ClosedByRedemption s1 = Some (Inr (), s2)"
      "redeemCloseTrove E b (tr_coll ?t - w) s2 = Some (Inr (), s')"
    show ?thesis
      using close_redeemed_effect(1,2) [OF c(2,3)] redeemCloseTrove_effect(1-3) [OF c(4)] c(1) lot w(2) e
      by (intro books_with_change [OF books, where b = b and e = "(0, 0)"]) (simp_all add: r records_of_def)
  next
    assume c: "reinsert_redeemed b h (tr_debt ?t - lot) (tr_coll ?t - w) u l s = Some (Inr (), s')"
    show ?thesis
      using reinsert_redeemed_effect(1,2) [OF c] lot w(2) e
      by (intro books_with_change [OF books, where b = b and e = "(tr_coll ?t - w, tr_debt ?t - lot)"]) (simp_all add: r records_of_def)
  qed simp_all
qed

lemma redeem_loop_step:
  assumes "redeem_loop E price u l h (Suc n) b t s = Some (Inr t', s')" and "\<not> (b = 0 \<or> remainingSIM t = 0)"
  obtains s1 r s2 where "apply_own_pending E b s = Some (Inr (), s1)"
    and "redeemCollateralFromTrove E b (remainingSIM t) price u l h s1 = Some (Inr r, s2)"
    and "sr_cancelledPartial r \<and> t' = t \<and> s' = s2
      \<or> \<not> sr_cancelledPartial r \<and> sr_SIMLot r \<le> remainingSIM t
        \<and> redeem_loop E price u l h n (getPrev (st_data (pr_list s)) b)
            \<lparr>remainingSIM = remainingSIM t - sr_SIMLot r, totalSIMToRedeem = totalSIMToRedeem t + sr_SIMLot r,
             totalWSTETHDrawn = totalWSTETHDrawn t + sr_WSTETHLot r\<rparr> s2 = Some (Inr t', s')"
  using assms
  by (subst (asm) redeem_loop.simps) (auto simp: bind_io_eq_Inr gets_returns lift_returns checked_Inr return_io_def split: if_splits)

lemma redeem_loop_effect:
  assumes "redeem_loop E price u l h n b t s = Some (Inr t', s')"
  shows "unredeemed s' = unredeemed s \<and> totalSIMToRedeem t' + remainingSIM t' = totalSIMToRedeem t + remainingSIM t
    \<and> (totalWSTETHDrawn t * price \<le> totalSIMToRedeem t * 10 ^ 18 \<longrightarrow> totalWSTETHDrawn t' * price \<le> totalSIMToRedeem t' * 10 ^ 18)
    \<and> (books_with (totalWSTETHDrawn t) (totalSIMToRedeem t) s \<longrightarrow> books_with (totalWSTETHDrawn t') (totalSIMToRedeem t') s')"
  using assms
proof (induction n arbitrary: b t s)
  case 0
  then show ?case by (simp add: redeem_loop.simps return_io_def)
next
  case (Suc n)
  show ?case
  proof (cases "b = 0 \<or> remainingSIM t = 0")
    case True
    then show ?thesis using Suc.prems by (subst (asm) redeem_loop.simps) (simp add: return_io_def)
  next
    case False
    with Suc.prems obtain s1 r s2 where s1: "apply_own_pending E b s = Some (Inr (), s1)"
        and r: "redeemCollateralFromTrove E b (remainingSIM t) price u l h s1 = Some (Inr r, s2)"
        and rest: "sr_cancelledPartial r \<and> t' = t \<and> s' = s2
          \<or> \<not> sr_cancelledPartial r \<and> sr_SIMLot r \<le> remainingSIM t
            \<and> redeem_loop E price u l h n (getPrev (st_data (pr_list s)) b)
                \<lparr>remainingSIM = remainingSIM t - sr_SIMLot r, totalSIMToRedeem = totalSIMToRedeem t + sr_SIMLot r,
                 totalWSTETHDrawn = totalWSTETHDrawn t + sr_WSTETHLot r\<rparr> s2 = Some (Inr t', s')"
      by (rule redeem_loop_step)
    note p = apply_own_pending_effect [OF s1] and e = redeem_from_trove_effect [OF r]
    from rest show ?thesis
    proof (elim disjE conjE)
      assume "sr_cancelledPartial r" "t' = t" "s' = s2"
      then show ?thesis using p e(1,2) books_moved_with by auto
    next
      assume c: "\<not> sr_cancelledPartial r" "sr_SIMLot r \<le> remainingSIM t"
        and more: "redeem_loop E price u l h n (getPrev (st_data (pr_list s)) b)
                \<lparr>remainingSIM = remainingSIM t - sr_SIMLot r, totalSIMToRedeem = totalSIMToRedeem t + sr_SIMLot r,
                 totalWSTETHDrawn = totalWSTETHDrawn t + sr_WSTETHLot r\<rparr> s2 = Some (Inr t', s')"
      have "(totalWSTETHDrawn t + sr_WSTETHLot r) * price \<le> (totalSIMToRedeem t + sr_SIMLot r) * 10 ^ 18"
        if "totalWSTETHDrawn t * price \<le> totalSIMToRedeem t * 10 ^ 18"
        using add_mono [OF that e(3)] by (simp only: distrib_right)
      moreover have "books_with (totalWSTETHDrawn t + sr_WSTETHLot r) (totalSIMToRedeem t + sr_SIMLot r) s2"
        if "books_with (totalWSTETHDrawn t) (totalSIMToRedeem t) s"
        using e(5) [OF c(1) books_moved_with [OF p(1) that]] .
      moreover have "totalSIMToRedeem t + sr_SIMLot r + (remainingSIM t - sr_SIMLot r) = totalSIMToRedeem t + remainingSIM t"
        using c(2) by simp
      ultimately show ?thesis
        using Suc.IH [OF more] p(2) e(1) unfolding redemption_totals.simps by metis
    qed
  qed
qed

lemma fee_at_least_floor:
  assumes "bind_res (calcRedemptionRate rate) (\<lambda>r. calcRedemptionFee r drawn) = Inr fee"
  shows "drawn * REDEMPTION_FEE_FLOOR div 10 ^ 18 \<le> fee" and "fee < drawn"
proof -
  obtain r where r: "r = LM_min (REDEMPTION_FEE_FLOOR + rate) DECIMAL_PRECISION" "fee = r * drawn div DECIMAL_PRECISION" "fee < drawn"
    using assms by (auto simp: calcRedemptionRate_def calcRedemptionFee_def bind_res_eq_Inr checked_Inr split: if_splits)
  have "REDEMPTION_FEE_FLOOR \<le> r" by (simp add: r(1) LM_min_def REDEMPTION_FEE_FLOOR_def DECIMAL_PRECISION_def)
  then have "drawn * REDEMPTION_FEE_FLOOR div DECIMAL_PRECISION \<le> fee"
    unfolding r(2) by (intro div_le_mono) (simp add: mult.commute)
  then show "drawn * REDEMPTION_FEE_FLOOR div 10 ^ 18 \<le> fee" by (simp add: DECIMAL_PRECISION_def)
  show "fee < drawn" by (rule r(3))
qed

lemma updateLastFeeOpTime_keeps:
  assumes "updateLastFeeOpTime now m = Inr m'"
  shows "entries m' = entries m" "tm_self m' = tm_self m" "tm_wstETHVeDistributor m' = tm_wstETHVeDistributor m"
proof -
  have "m' = m\<lparr>lastFeeOperationTime := now\<rparr> \<or> m' = m"
    using assms by (auto simp: updateLastFeeOpTime_def bind_res_eq_Inr split: if_splits)
  then show "entries m' = entries m" "tm_self m' = tm_self m" "tm_wstETHVeDistributor m' = tm_wstETHVeDistributor m" by auto
qed

lemma updateBaseRateFromRedemption_keeps:
  assumes "updateBaseRateFromRedemption now n price sup0 m = Inr (k, m')"
  shows "entries m' = entries m" "tm_self m' = tm_self m" "tm_wstETHVeDistributor m' = tm_wstETHVeDistributor m"
proof -
  obtain r where "updateLastFeeOpTime now (m\<lparr>baseRate := r\<rparr>) = Inr m'"
    using assms unfolding updateBaseRateFromRedemption_def Let_def bind_res_eq_Inr
    by (elim exE conjE, simp only: split: if_splits) (auto simp only: bind_res_eq_Inr sum.inject prod.inject sum.distinct)
  from updateLastFeeOpTime_keeps [OF this]
  show "entries m' = entries m" "tm_self m' = tm_self m" "tm_wstETHVeDistributor m' = tm_wstETHVeDistributor m" by simp_all
qed

lemma settle_redemption_steps:
  assumes "settle_redemption E sender price sup0 maxFee t s = Some (Inr x, s')"
  obtains fee q p where "0 < totalWSTETHDrawn t" and "totalWSTETHDrawn t * REDEMPTION_FEE_FLOOR div 10 ^ 18 \<le> fee" and "fee < totalWSTETHDrawn t"
    and "sim_burn (en_oz E) (pr_simToken s) (tm_self (pr_tm s)) sender (totalSIMToRedeem t) (pr_sim s) = Inr (pr_sim s')"
    and "sendWSTETH (en_wsteth E) (tm_self (pr_tm s)) (tm_wstETHVeDistributor (pr_tm s)) fee (pr_pools s) = Inr q"
    and "activePool_decreaseSIMDebt (tm_self (pr_tm s)) (totalSIMToRedeem t) q = Inr p"
    and "sendWSTETH (en_wsteth E) (tm_self (pr_tm s)) sender (totalWSTETHDrawn t - fee) p = Inr (pr_pools s')"
    and "entries_of s' = entries_of s"
proof -
  obtain s1 s2 s3 s4 s5 fee x1 x2 x3 x4 x5 where r0: "0 < totalWSTETHDrawn t" "fee \<le> totalWSTETHDrawn t"
      and r1: "within_tm (\<lambda>m. bind_res (updateBaseRateFromRedemption (or_now (en_oracles E)) (totalWSTETHDrawn t) price sup0 m) (\<lambda>(_, m'). Inr m')) s
          = Some (Inr x1, s1)"
      and r2: "bind_res (calcRedemptionRate (baseRate (pr_tm s1))) (\<lambda>rate. calcRedemptionFee rate (totalWSTETHDrawn t)) = Inr fee"
      and r3: "tm_pools (\<lambda>self. sendWSTETH (en_wsteth E) self (tm_wstETHVeDistributor (pr_tm s1)) fee) s1 = Some (Inr x2, s2)"
      and r4: "modify (\<lambda>s. bind_res (en_checkpoint E (tm_wstETHVeDistributor (pr_tm s1)) (pr_dist s)) (\<lambda>d. Inr (s\<lparr>pr_dist := d\<rparr>))) s2 = Some (Inr x3, s3)"
      and r5: "modify (\<lambda>s. bind_res (sim_burn (en_oz E) (pr_simToken s) (tm_self (pr_tm s)) sender (totalSIMToRedeem t) (pr_sim s))
          (\<lambda>m. Inr (s\<lparr>pr_sim := m\<rparr>))) s3 = Some (Inr x4, s4)"
      and r6: "tm_pools (\<lambda>self. activePool_decreaseSIMDebt self (totalSIMToRedeem t)) s4 = Some (Inr x5, s5)"
      and r7: "tm_pools (\<lambda>self. sendWSTETH (en_wsteth E) self sender (totalWSTETHDrawn t - fee)) s5 = Some (Inr x, s')"
    using assms unfolding settle_redemption_def
    apply (elim bind_ioE)
    apply (simp only: ensure_returns gets_returns lift_returns checked_Inr sum.inject)
    apply (elim conjE)
    apply hypsubst
    apply (rule that, assumption+)
    done
  obtain m k where m: "updateBaseRateFromRedemption (or_now (en_oracles E)) (totalWSTETHDrawn t) price sup0 (pr_tm s) = Inr (k, m)"
      and s1: "s1 = s\<lparr>pr_tm := m\<rparr>"
    using r1 by (auto simp: within_tm_returns bind_res_eq_Inr)
  have m: "entries m = entries (pr_tm s)" "tm_self m = tm_self (pr_tm s)" "tm_wstETHVeDistributor m = tm_wstETHVeDistributor (pr_tm s)"
    by (rule updateBaseRateFromRedemption_keeps [OF m])+
  obtain q where q: "sendWSTETH (en_wsteth E) (tm_self m) (tm_wstETHVeDistributor m) fee (pr_pools s) = Inr q" and s2: "s2 = s1\<lparr>pr_pools := q\<rparr>"
    using r3 by (auto simp: tm_pools_returns s1)
  obtain d where s3: "s3 = s2\<lparr>pr_dist := d\<rparr>" using r4 by (auto simp: modify_returns bind_res_eq_Inr)
  obtain t' where t': "sim_burn (en_oz E) (pr_simToken s) (tm_self m) sender (totalSIMToRedeem t) (pr_sim s) = Inr t'" and s4: "s4 = s3\<lparr>pr_sim := t'\<rparr>"
    using r5 by (auto simp: modify_returns bind_res_eq_Inr s3 s2 s1)
  obtain p where p: "activePool_decreaseSIMDebt (tm_self m) (totalSIMToRedeem t) q = Inr p" and s5: "s5 = s4\<lparr>pr_pools := p\<rparr>"
    using r6 by (auto simp: tm_pools_returns s4 s3 s2 s1)
  obtain p' where p': "sendWSTETH (en_wsteth E) (tm_self m) sender (totalWSTETHDrawn t - fee) p = Inr p'" and s': "s' = s5\<lparr>pr_pools := p'\<rparr>"
    using r7 by (auto simp: tm_pools_returns s5 s4 s3 s2 s1)
  show thesis
    using that [of fee q p] r0 fee_at_least_floor [OF r2] q t' p p' m by (simp add: s' s5 s4 s3 s2 s1 entries_of_def)
qed

lemma redemption_guards_returns:
  assumes "redemption_guards E shadyToken sender n maxFee s = Some (Inr v, s1)"
  shows "fetch_price E s = Some (Inr (fst v), s1)"
  using assms unfolding redemption_guards_def
  apply (elim bind_ioE)
  apply (simp only: ensure_returns gets_returns lift_returns return_io_def option.inject prod.inject sum.inject)
  apply (elim conjE)
  apply hypsubst
  apply (simp only: fst_conv)
  done

lemma first_borrower_returns: "first_borrower h price s = Some (Inr b, s') \<Longrightarrow> s' = s"
  by (auto simp: first_borrower_def split: sum.splits if_splits)

lemma redeemCollateral_steps:
  assumes "redeemCollateral E shadyToken sender n first u l h k maxFee s = Some (Inr x, s')"
  obtains price s1 sup0 b t s2 where "fetch_price E s = Some (Inr price, s1)"
    and "redeem_loop E price u l h (if k = 0 then uint_max else k) b \<lparr>remainingSIM = n, totalSIMToRedeem = 0, totalWSTETHDrawn = 0\<rparr> s1 = Some (Inr t, s2)"
    and "settle_redemption E sender price sup0 maxFee t s2 = Some (Inr x, s')" and "first_borrower first price s1 = Some (Inr b, s1)"
proof -
  obtain v s0 b s1 t s2 where g: "redemption_guards E shadyToken sender n maxFee s = Some (Inr v, s0)"
      and f: "first_borrower first (fst v) s0 = Some (Inr b, s1)"
      and l: "redeem_loop E (fst v) u l h (if k = 0 then uint_max else k) b \<lparr>remainingSIM = n, totalSIMToRedeem = 0, totalWSTETHDrawn = 0\<rparr> s1
        = Some (Inr t, s2)"
      and r: "settle_redemption E sender (fst v) (snd v) maxFee t s2 = Some (Inr x, s')"
    using assms unfolding redeemCollateral_def transaction_returns case_prod_unfold by (elim bind_ioE) (rule that, assumption+)
  show thesis using that [OF _ l r] f redemption_guards_returns [OF g] first_borrower_returns [OF f] by simp
qed

lemma redemption_books:
  assumes "redeemCollateral E shadyToken sender n first u l h k maxFee s = Some (Inr x, s')" and "books_balance (pr_tm s) (pr_pools s)"
  shows "books_balance (pr_tm s') (pr_pools s')"
  using assms(1)
proof (rule redeemCollateral_steps)
  fix price s1 sup0 b t s2
  assume r: "fetch_price E s = Some (Inr price, s1)"
      "redeem_loop E price u l h (if k = 0 then uint_max else k) b \<lparr>remainingSIM = n, totalSIMToRedeem = 0, totalWSTETHDrawn = 0\<rparr> s1 = Some (Inr t, s2)"
      "settle_redemption E sender price sup0 maxFee t s2 = Some (Inr x, s')"
  have "books_with 0 0 s1"
    using assms(2) other_contracts_entries(4) [OF r(1)] fetch_price_frame [OF r(1)]
    by (simp add: books_with_0 [symmetric] books_with_def records_of_def)
  then have books: "books_with (totalWSTETHDrawn t) (totalSIMToRedeem t) s2" using redeem_loop_effect [OF r(2)] by simp
  obtain fee q p where f: "fee < totalWSTETHDrawn t"
      "sendWSTETH (en_wsteth E) (tm_self (pr_tm s2)) (tm_wstETHVeDistributor (pr_tm s2)) fee (pr_pools s2) = Inr q"
      "activePool_decreaseSIMDebt (tm_self (pr_tm s2)) (totalSIMToRedeem t) q = Inr p"
      "sendWSTETH (en_wsteth E) (tm_self (pr_tm s2)) sender (totalWSTETHDrawn t - fee) p = Inr (pr_pools s')" "entries_of s' = entries_of s2"
    using r(3) by (rule settle_redemption_steps)
  have "records_of s' = (fst (records_of s2) - totalWSTETHDrawn t, snd (records_of s2) - totalSIMToRedeem t)"
    using sendWSTETH_records [OF f(2)] debt_records(2) [OF f(3)] sendWSTETH_records [OF f(4)] f(1) by (simp add: records_of_def)
  from books_with_pay [OF books f(5) this] show ?thesis by (simp add: books_with_0)
qed

lemma settle_redemption_debt:
  assumes "settle_redemption E sender price sup0 maxFee t s = Some (Inr x, s')"
  shows "snd (totals (pr_pools s')) + totalSIMToRedeem t = snd (totals (pr_pools s))"
proof -
  obtain fee q p where f: "sendWSTETH (en_wsteth E) (tm_self (pr_tm s)) (tm_wstETHVeDistributor (pr_tm s)) fee (pr_pools s) = Inr q"
      "activePool_decreaseSIMDebt (tm_self (pr_tm s)) (totalSIMToRedeem t) q = Inr p"
      "sendWSTETH (en_wsteth E) (tm_self (pr_tm s)) sender (totalWSTETHDrawn t - fee) p = Inr (pr_pools s')"
    using assms by (rule settle_redemption_steps)
  have "totalSIMToRedeem t \<le> snd (totals q)" using debt_records(2) [OF f(2)] by (simp add: records_def totals_def)
  then show ?thesis using sendWSTETH_debt [OF f(3)] debt_totals(2) [OF f(2)] sendWSTETH_debt [OF f(1)] by simp
qed

section \<open>What the redeemer pays and gets\<close>

text \<open>
  C7. Redemption at face value. When a redemption returns, it has cancelled an amount of SIM that is at most
  the one that was asked for: it is burnt from the account of the redeemer, and the debt of the system has
  fallen by exactly this amount. The collateral drawn from the troves is worth at most the SIM at the price
  of the feed; the redeemer is paid the collateral less a fee, which is at least half a percent.
\<close>

theorem redemption_at_face_value:
  assumes "redeemCollateral E shadyToken redeemer SIMamount firstHint upperHint lowerHint hintNICR maxIterations maxFee s = Some (Inr (), s')"
    and "fetchPrice (en_oracles E) (pr_feed s) = Inr (price, feed)"
  shows "\<exists>redeemed drawn fee manager p. redeemed \<le> SIMamount \<and> drawn * price \<le> redeemed * 10 ^ 18
    \<and> sim_burn (en_oz E) (pr_simToken s) manager redeemer redeemed (pr_sim s) = Inr (pr_sim s')
    \<and> ap_SIMDebt (activePool (pr_pools s')) + dp_SIMDebt (defaultPool (pr_pools s')) + redeemed
        = ap_SIMDebt (activePool (pr_pools s)) + dp_SIMDebt (defaultPool (pr_pools s))
    \<and> drawn * 5000000000000000 div 10 ^ 18 \<le> fee \<and> fee < drawn
    \<and> sendWSTETH (en_wsteth E) manager redeemer (drawn - fee) p = Inr (pr_pools s')"
  using assms(1)
proof (rule redeemCollateral_steps)
  fix price' s1 sup0 b t s2
  assume r: "fetch_price E s = Some (Inr price', s1)"
      "redeem_loop E price' upperHint lowerHint hintNICR (if maxIterations = 0 then uint_max else maxIterations) b
        \<lparr>remainingSIM = SIMamount, totalSIMToRedeem = 0, totalWSTETHDrawn = 0\<rparr> s1 = Some (Inr t, s2)"
      "settle_redemption E redeemer price' sup0 maxFee t s2 = Some (Inr (), s')"
  have price: "price' = price" using fetch_price_value [OF r(1) assms(2)] .
  have same: "unredeemed s1 = unredeemed s" using r(1) by (auto simp: fetch_price_def unredeemed_def split: sum.splits)
  have loop: "unredeemed s2 = unredeemed s" "totalSIMToRedeem t \<le> SIMamount" "totalWSTETHDrawn t * price \<le> totalSIMToRedeem t * 10 ^ 18"
    using redeem_loop_effect [OF r(2)] same by (auto simp: price)
  obtain fee q p where f: "totalWSTETHDrawn t * REDEMPTION_FEE_FLOOR div 10 ^ 18 \<le> fee" "fee < totalWSTETHDrawn t"
      "sim_burn (en_oz E) (pr_simToken s2) (tm_self (pr_tm s2)) redeemer (totalSIMToRedeem t) (pr_sim s2) = Inr (pr_sim s')"
      "sendWSTETH (en_wsteth E) (tm_self (pr_tm s2)) (tm_wstETHVeDistributor (pr_tm s2)) fee (pr_pools s2) = Inr q"
      "activePool_decreaseSIMDebt (tm_self (pr_tm s2)) (totalSIMToRedeem t) q = Inr p"
      "sendWSTETH (en_wsteth E) (tm_self (pr_tm s2)) redeemer (totalWSTETHDrawn t - fee) p = Inr (pr_pools s')"
    using r(3) by (rule settle_redemption_steps)
  have "snd (totals (pr_pools s')) + totalSIMToRedeem t = snd (totals (pr_pools s))"
    using settle_redemption_debt [OF r(3)] loop(1) by (simp add: unredeemed_def)
  then show ?thesis
    using loop f(1-3,6) by (intro exI [of _ "totalSIMToRedeem t"] exI [of _ "totalWSTETHDrawn t"] exI [of _ fee] exI [of _ "tm_self (pr_tm s2)"] exI [of _ p])
      (simp add: unredeemed_def totals_def REDEMPTION_FEE_FLOOR_def DECIMAL_PRECISION_def)
qed

section \<open>A redemption\<close>

text \<open>
  After the first month, an account with a thousand SIM redeems them: the trove with the ratio of 105 percent
  is passed over, the other one gives half a WSTETH and goes back to its place.
\<close>

definition late_oracles :: oracles where
  "late_oracles =
     \<lparr>or_now = 3000000, or_read = (\<lambda>_. Some (2000000000000000000000, 2999000)),
      or_getPriceUnsafe = (\<lambda>_ _. Some \<lparr>py_price = 200000000000, py_conf = 0, py_expo = - 8, py_publishTime = 2999000\<rparr>),
      or_rate = (\<lambda>_. Inr (1100000000000000000))\<rparr>"

definition late_env :: "(address \<Rightarrow> uint, (address \<Rightarrow> uint) \<times> (address \<Rightarrow> address \<Rightarrow> uint), unit, unit) env" where
  "late_env = sample_env\<lparr>en_oracles := late_oracles\<rparr>"

definition sample_shady :: shady_token where
  "sample_shady = \<lparr>sh_self = 20, sh_deploymentStartTime = 100000, sh_multisigAddress = 5, sh_communityIssuanceAddress = 22,
     sh_liquidityRewardsIssuanceAddress = 23, sh_lockupContractFactory = 24\<rparr>"

definition sample_redeemable :: "(address \<Rightarrow> uint, (address \<Rightarrow> uint) \<times> (address \<Rightarrow> address \<Rightarrow> uint), unit) protocol" where
  "sample_redeemable = sample_two_troves
     \<lparr>pr_sim := ((\<lambda>_. 0)(42 := 1000000000000000000000), \<lambda>_ _. 0), pr_tm := (pr_tm sample_two_troves)\<lparr>lastFeeOperationTime := 3000000\<rparr>\<rparr>"

lemma late_fetch:
  "fetchPrice late_oracles (sample_feed Api3Working) =
     Inr (2000000000000000000000, (sample_feed Api3Working)\<lparr>pf_status := Api3Working, pf_lastGoodPrice := 2200000000000000000000\<rparr>)"
proof -
  have "getAPI3Response late_oracles (sample_feed Api3Working) = (2000000000000000000000, 2999000)"
    "getPythResponse late_oracles (sample_feed Api3Working) = \<lparr>py_price = 200000000000, py_conf = 0, py_expo = - 8, py_publishTime = 2999000\<rparr>"
    "api3_health late_oracles (sample_feed Api3Working) = Live" "pyth_health late_oracles (sample_feed Api3Working) = Live"
    "or_rate late_oracles a = Inr (1100000000000000000)" for a
    by (simp_all add: getAPI3Response_def getPythResponse_def api3_health_def pyth_health_def late_oracles_def sample_feed_def
      api3IsBroken_def pythIsBroken_def TIMEOUT_def)
  moreover have "bothOraclesSimilarPrice (2000000000000000000000) \<lparr>py_price = 200000000000, py_conf = 0, py_expo = - 8, py_publishTime = 2999000\<rparr> = Inr True"
    by (simp add: bothOraclesSimilarPrice_def scalePythPriceByDigits_def scaleAPI3PriceByDigits_def TARGET_DIGITS_def
      LM_min_def LM_max_def u_sub_def u_mul_def u_div_def uint_max_def MAX_PRICE_DIFFERENCE_BETWEEN_ORACLES_def)
  ultimately show ?thesis
    by (simp add: fetchPrice_follows_table similar_def compares_def sample_similar take_from_def storeAPI3Price_def storePrice_def u_mul_def uint_max_def)
qed

lemma late_now [simp]: "or_now late_oracles = 3000000"
  by (simp add: late_oracles_def)

lemmas run_redemption = redeemCollateral_def redemption_guards_def first_borrower_def isValidFirstRedemptionHint_def skip_below_MCR.simps
  redeem_loop.simps apply_own_pending_def redeemCollateralFromTrove_def reinsert_redeemed_def settle_redemption_def getNetDebt_def
  updateBaseRateFromRedemption_def calcRedemptionRate_def calcRedemptionFee_def REDEMPTION_FEE_FLOOR_def BETA_def BOOTSTRAP_PERIOD_def
  requireUserAcceptsFee_def nicr_of_def getNominalICR_def findInsertPosition_def descendList_def descend.simps

lemma sample_redeems:
  "\<exists>s'. redeemCollateral late_env sample_shady 42 1000000000000000000000 0 0 0 236024844720496894 0 1000000000000000000 sample_redeemable = Some (Inr (), s')"
  by (simp add: run_redemption run_liquidation run_adjustment late_env_def sample_shady_def sample_redeemable_def sample_two_troves_def
      run_samples run_io run_guards run_numbers run_calls late_fetch moved_def Let_def)

theorem redemption_at_face_value_witness:
  "\<exists>s' redeemed drawn fee manager p.
     redeemCollateral late_env sample_shady 42 1000000000000000000000 0 0 0 236024844720496894 0 1000000000000000000 sample_redeemable = Some (Inr (), s')
     \<and> redeemed \<le> 1000000000000000000000 \<and> drawn * 2000000000000000000000 \<le> redeemed * 10 ^ 18 \<and> fee < drawn
     \<and> sendWSTETH (en_wsteth late_env) manager 42 (drawn - fee) p = Inr (pr_pools s')"
proof -
  obtain s' where s': "redeemCollateral late_env sample_shady 42 1000000000000000000000 0 0 0 236024844720496894 0 1000000000000000000 sample_redeemable
      = Some (Inr (), s')"
    using sample_redeems by blast
  have "fetchPrice (en_oracles late_env) (pr_feed sample_redeemable) = Inr (2000000000000000000000,
      (sample_feed Api3Working)\<lparr>pf_status := Api3Working, pf_lastGoodPrice := 2200000000000000000000\<rparr>)"
    by (simp add: late_env_def sample_redeemable_def sample_two_troves_def sample_start_def late_fetch)
  from redemption_at_face_value [OF s' this] show ?thesis using s' by blast
qed

end
