(* ===== verification/System_Calls.thy ===== *)
theory System_Calls
  imports Redemption
begin

text \<open>
  The protocol as a whole: the calls that borrowers, depositors, liquidators and redeemers make, in any order.
  Two theorems span the components: every call ends, with a result or a revert, in every state that calls lead
  to, and the active pool records exactly what the troves have.
\<close>

section \<open>Calls\<close>

datatype system_call =
    OpenTrove uint uint uint address address
  | AddColl uint address address
  | WithdrawColl uint address address
  | WithdrawSIM uint uint address address
  | RepaySIM uint address address
  | AdjustTrove uint uint uint uint bool address address
  | MoveGain address address address
  | CloseTrove
  | ClaimCollateral
  | ProvideToSP uint
  | WithdrawFromSP uint
  | GainToTrove address address
  | Liquidate address
  | LiquidateTroves uint
  | BatchLiquidate "address list"
  | RedeemCollateral uint address address address uint uint uint

fun perform :: "('t, 'm, 'p, 'd, 'y) system_env \<Rightarrow> shady_token \<Rightarrow> address \<Rightarrow> system_call \<Rightarrow> ('t, 'm, 'd, 'y, unit) sysop" where
  "perform SE shady sender (OpenTrove n maxFee c u l) = in_protocol (openTrove (se_env SE) sender n maxFee c u l)"
| "perform SE shady sender (AddColl n u l) = in_protocol (addColl (se_env SE) sender n u l)"
| "perform SE shady sender (WithdrawColl n u l) = in_protocol (withdrawColl (se_env SE) sender n u l)"
| "perform SE shady sender (WithdrawSIM maxFee n u l) = in_protocol (withdrawSIM (se_env SE) sender maxFee n u l)"
| "perform SE shady sender (RepaySIM n u l) = in_protocol (repaySIM (se_env SE) sender n u l)"
| "perform SE shady sender (AdjustTrove n maxFee w c di u l) = in_protocol (adjustTrove (se_env SE) sender n maxFee w c di u l)"
| "perform SE shady sender (MoveGain b u l) = in_protocol (moveWSTETHGainToTrove (se_env SE) sender b u l)"
| "perform SE shady sender CloseTrove = in_protocol (bo_closeTrove (se_env SE) sender)"
| "perform SE shady sender ClaimCollateral = in_protocol (claimCollateral (se_env SE) sender)"
| "perform SE shady sender (ProvideToSP n) = provideToSP SE sender n"
| "perform SE shady sender (WithdrawFromSP n) = withdrawFromSP SE sender n"
| "perform SE shady sender (GainToTrove u l) = withdrawWSTETHGainToTrove SE sender u l"
| "perform SE shady sender (Liquidate b) = liquidate SE sender b"
| "perform SE shady sender (LiquidateTroves n) = liquidateTroves SE sender n"
| "perform SE shady sender (BatchLiquidate users) = batchLiquidateTroves SE sender users"
| "perform SE shady sender (RedeemCollateral n first u l h k maxFee) =
     in_protocol (redeemCollateral (se_env SE) shady sender n first u l h k maxFee)"

text \<open>Any sequence of calls by anybody, between which time passes and the oracles answer anew.\<close>

inductive calls :: "('t, 'm, 'p, 'd, 'y) system_env \<Rightarrow> shady_token \<Rightarrow> ('t, 'm, 'd, 'y) system \<Rightarrow> ('t, 'm, 'd, 'y) system \<Rightarrow> bool"
  for SE shady where
  none: "calls SE shady sy sy"
| call: "calls SE shady sy sy1 \<Longrightarrow> perform (SE\<lparr>se_env := (se_env SE)\<lparr>en_oracles := oracles_now\<rparr>\<rparr>) shady sender c sy1 = Some (r, sy')
    \<Longrightarrow> calls SE shady sy sy'"

section \<open>Computations that end\<close>

text \<open>From every state with the invariant, the computation ends, and it keeps the invariant where it does not revert.\<close>

definition settles :: "('w \<Rightarrow> bool) \<Rightarrow> ('w, 'e, 'a) io \<Rightarrow> bool" where
  "settles I m \<longleftrightarrow> (\<forall>w. I w \<longrightarrow> (\<exists>r w'. m w = Some (r, w') \<and> (\<forall>a. r = Inr a \<longrightarrow> I w')))"

named_theorems settling \<open>computations that end\<close>

lemma settlesI: "(\<And>w. I w \<Longrightarrow> \<exists>r w'. m w = Some (r, w') \<and> (\<forall>a. r = Inr a \<longrightarrow> I w')) \<Longrightarrow> settles I m"
  by (simp add: settles_def)

lemma settlesD: "settles I m \<Longrightarrow> I w \<Longrightarrow> m w = Some (Inr a, w') \<Longrightarrow> I w'"
  by (fastforce simp: settles_def)

lemma settles_then [settling]: "settles I m \<Longrightarrow> (\<And>a. settles I (f a)) \<Longrightarrow> settles I (bind_io m f)"
  unfolding settles_def bind_io_def by (fastforce split: option.splits sum.splits)

lemma settles_return [settling]: "settles I (return_io a)"
  by (simp add: settles_def return_io_def)

lemma settles_lift [settling]: "settles I (lift_io r)"
  by (simp add: settles_def lift_io_def)

lemma settles_if [settling]: "settles I m \<Longrightarrow> settles I n \<Longrightarrow> settles I (if b then m else n)"
  by simp

lemma settles_prod [settling]: "(\<And>x y. settles I (f x y)) \<Longrightarrow> settles I (case p of (x, y) \<Rightarrow> f x y)"
  by (cases p) simp

section \<open>The list stays a list\<close>

definition listed :: "('t, 'm, 'd) protocol \<Rightarrow> bool" where
  "listed s \<longleftrightarrow> (\<exists>xs. room (st_data (pr_list s)) xs)"

lemma listed_same: "pr_list s' = pr_list s \<Longrightarrow> listed s' = listed s"
  by (simp add: listed_def)

lemma settles_gets [settling]: "settles listed (gets f)"
  by (simp add: settles_def gets_def)

lemma settles_modify: "(\<And>s s'. f s = Inr s' \<Longrightarrow> pr_list s' = pr_list s) \<Longrightarrow> settles listed (modify f)"
  by (fastforce simp: settles_def modify_def listed_def split: sum.splits)

lemma settles_transaction [settling]: "settles listed m \<Longrightarrow> settles listed (transaction m)"
  by (fastforce simp: settles_def transaction_def split: option.splits sum.splits)

lemma settles_ensure [settling]: "settles listed (ensure b e)"
  unfolding ensure_def by (rule settles_lift)

lemma settles_assert [settling]: "settles listed (assert_io b)"
  unfolding assert_io_def by (rule settles_lift)

lemma settles_calls [settling]:
  "settles listed (on_pools f)" "settles listed (on_tm g)" "settles listed (on_sim h)" "settles listed (take_WSTETH E a n)"
  "settles listed (within_tm k)" "settles listed (tm_pools i)" "settles listed (move_pending E n d)"
  unfolding on_pools_def on_tm_def on_sim_def take_WSTETH_def within_tm_def tm_pools_def move_pending_def
  by (rule settles_modify, auto simp: bind_res_eq_Inr split: prod.splits if_splits)+

lemma settles_applying [settling]:
  "settles listed (apply_pending E b)" "settles listed (apply_own_pending E b)"
  "settles listed (modify (\<lambda>s. bind_res (f s) (\<lambda>d. Inr (s\<lparr>pr_dist := d\<rparr>))))"
  "settles listed (modify (\<lambda>s. bind_res (g s) (\<lambda>d. Inr (s\<lparr>pr_sim := d\<rparr>))))"
  "settles listed (modify (\<lambda>s. bind_res (p s) (\<lambda>d. Inr (s\<lparr>pr_pools := d\<rparr>))))"
  "settles listed (modify (\<lambda>s. bind_res (t s) (\<lambda>d. Inr (s\<lparr>pr_tm := d\<rparr>))))"
  "settles listed (modify (\<lambda>s. bind_res (q s) (\<lambda>(m, d). Inr (s\<lparr>pr_tm := m, pr_pools := d\<rparr>))))"
  unfolding apply_pending_def apply_own_pending_def
  by (rule settles_modify, auto simp: bind_res_eq_Inr split: prod.splits)+

lemma settles_fetch_price [settling]: "settles listed (fetch_price E)"
  by (auto simp: settles_def fetch_price_def listed_def split: sum.splits)

lemma settles_on_list:
  assumes "\<And>s xs. room (st_data (pr_list s)) xs \<Longrightarrow> \<exists>r. f s = Some r \<and> (\<forall>st. r = Inr st \<longrightarrow> (\<exists>ys. room (st_data st) ys))"
  shows "settles listed (on_list f)"
proof (rule settlesI)
  fix s :: "('a, 'b, 'c) protocol"
  assume "listed s"
  then obtain r where r: "f s = Some r" "\<forall>st. r = Inr st \<longrightarrow> (\<exists>ys. room (st_data st) ys)" using assms unfolding listed_def by blast
  then show "\<exists>r w'. on_list f s = Some (r, w') \<and> (\<forall>a. r = Inr a \<longrightarrow> listed w')"
    by (cases r) (auto simp: on_list_def listed_def)
qed

lemma room_insert:
  assumes "room d xs"
  shows "\<exists>r. list_insert nicr d i N p n = Some r \<and> (\<forall>d'. r = Inr d' \<longrightarrow> (\<exists>ys. room d' ys))"
proof -
  have "list_insert nicr d i N p n \<noteq> None"
    using list_insert_cases [of d xs nicr i N p n] assms by (auto simp: room_def)
  then obtain r where r: "list_insert nicr d i N p n = Some r" by blast
  moreover have "\<exists>ys. room d' ys" if "r = Inr d'" for d'
    using linked.insert_fits [OF assms, of nicr i N "(p, n)" d'] r that by (auto simp: insert_result_def)
  ultimately show ?thesis by blast
qed

lemma room_remove: "room d xs \<Longrightarrow> list_remove d i = Inr d' \<Longrightarrow> \<exists>ys. room d' ys"
  using linked.remove_takes [of d xs i d'] by (auto simp: remove_result_def)

lemma map_sum_eq_Inr: "map_sum f g r = Inr y \<longleftrightarrow> (\<exists>x. r = Inr x \<and> y = g x)"
  by (cases r) auto

lemma settles_insert [settling]: "settles listed (on_list (\<lambda>s. insert_trove (nicr s) (pr_list s) (a s) i N p n))"
proof (rule settles_on_list)
  fix s :: "('a, 'b, 'c) protocol" and xs
  assume "room (st_data (pr_list s)) xs"
  then show "\<exists>r. insert_trove (nicr s) (pr_list s) (a s) i N p n = Some r \<and> (\<forall>st. r = Inr st \<longrightarrow> (\<exists>ys. room (st_data st) ys))"
    using room_insert [of "st_data (pr_list s)" xs "nicr s" i N p n]
    by (auto simp: insert_trove_def in_data_def map_sum_eq_Inr split: sum.splits)
qed

lemma settles_reInsert [settling]: "settles listed (on_list (\<lambda>s. reInsert_trove (nicr s) (pr_list s) (a s) i N p n))"
proof (rule settles_on_list)
  fix s :: "('a, 'b, 'c) protocol" and xs
  assume r: "room (st_data (pr_list s)) xs"
  have "\<exists>r. list_reInsert (nicr s) (st_data (pr_list s)) i N p n = Some r \<and> (\<forall>d. r = Inr d \<longrightarrow> (\<exists>ys. room d ys))"
    using room_remove [OF r, of i] room_insert [where nicr = "nicr s" and i = i and N = N and p = p and n = n]
    by (fastforce simp: list_reInsert_def bind_res_eq_Inr split: sum.splits)
  then show "\<exists>r. reInsert_trove (nicr s) (pr_list s) (a s) i N p n = Some r \<and> (\<forall>st. r = Inr st \<longrightarrow> (\<exists>ys. room (st_data st) ys))"
    by (auto simp: reInsert_trove_def in_data_def map_sum_eq_Inr split: sum.splits)
qed

lemma closeTrove_listed:
  assumes "room (st_data st) xs"
  shows "\<exists>r. closeTrove b status (m, st) = Some r \<and> (\<forall>m' st'. r = Inr (m', st') \<longrightarrow> (\<exists>ys. room (st_data st') ys))"
proof -
  have rem: "\<exists>r. remove_trove st a b = Some r \<and> (\<forall>st'. r = Inr st' \<longrightarrow> (\<exists>ys. room (st_data st') ys))" for a
    using room_remove [OF assms, of b] by (auto simp: remove_trove_def in_data_def map_sum_eq_Inr split: sum.splits)
  have "closeTrove b status (m, st) \<noteq> None"
    using rem [of "tm_self m"] by (auto simp: closeTrove_def Let_def split: sum.splits)
  then obtain r where r: "closeTrove b status (m, st) = Some r" by blast
  moreover have "\<exists>ys. room (st_data st') ys" if "r = Inr (m', st')" for m' st'
    using closeTrove_result(3) [of b status m st m' st'] r rem [of "tm_self m"] that by auto
  ultimately show ?thesis by blast
qed

lemma listed_closeTrove:
  assumes "listed s"
  shows "\<exists>r. closeTrove b status (pr_tm s, pr_list s) = Some r \<and> (\<forall>m' st'. r = Inr (m', st') \<longrightarrow> (\<exists>ys. room (st_data st') ys))"
  using assms closeTrove_listed unfolding listed_def by blast

lemma settles_close_trove [settling]: "settles listed (close_trove b status)"
proof (rule settlesI)
  fix s :: "('a, 'b, 'c) protocol"
  assume "listed s"
  from listed_closeTrove [OF this, of b status] show "\<exists>r w'. close_trove b status s = Some (r, w') \<and> (\<forall>a. r = Inr a \<longrightarrow> listed w')"
    by (auto simp: close_trove_def listed_def split: sum.splits)
qed

lemma settles_close_in_books [settling]: "settles listed (close_in_books b)"
proof (rule settlesI)
  fix s :: "('a, 'b, 'c) protocol"
  assume "listed s"
  from listed_closeTrove [OF this, of b ClosedByOwner] \<open>listed s\<close>
  show "\<exists>r w'. close_in_books b s = Some (r, w') \<and> (\<forall>a. r = Inr a \<longrightarrow> listed w')"
    by (auto simp: close_in_books_def listed_def split: sum.splits)
qed

section \<open>Every call ends\<close>

subsection \<open>Borrowers\<close>

lemma settles_parts [settling]:
  "settles listed (requireValidMaxFeePercentage maxFee rm)" "settles listed (requireTroveisActive b)" "settles listed (requireTroveisNotActive b)"
  "settles listed (requireSingularCollChange E n)" "settles listed (requireNonZeroAdjustment E n c)" "settles listed (requireSufficientSIMBalance E b n)"
  "settles listed (update_stake b)" "settles listed (withdrawSIM_from_pool E b n d)" "settles listed (repaySIM_to_pool E b n)"
  "settles listed (updateTroveFromAdjustment b n ci d di)" "settles listed (requireValidAdjustmentInCurrentMode rm w di i j n ci d price)"
  "settles listed (opening_guards rm i n d price)"
  unfolding requireValidMaxFeePercentage_def requireTroveisActive_def requireTroveisNotActive_def requireSingularCollChange_def
    requireNonZeroAdjustment_def requireSufficientSIMBalance_def update_stake_def withdrawSIM_from_pool_def repaySIM_to_pool_def
    updateTroveFromAdjustment_def requireValidAdjustmentInCurrentMode_def opening_guards_def
  by (intro settling)+

lemma settles_more_parts [settling]:
  "settles listed (triggerBorrowingFee E n maxFee)" "settles listed (repayment_guards E b n d)" "settles listed (record_trove b n d i u l)"
  "settles listed (adjust_guards E a b n c di maxFee rm)" "settles listed (moveTokensAndWSTETHfromAdjustment E b n ci c di d)"
  unfolding triggerBorrowingFee_def repayment_guards_def record_trove_def adjust_guards_def moveTokensAndWSTETHfromAdjustment_def
  by (intro settling)+

lemma settles_borrowing_fee [settling]: "settles listed (borrowing_fee_unless E free n maxFee)"
  unfolding borrowing_fee_unless_def by (intro settling)

lemma settles_adjustTrove_internal [settling]: "settles listed (adjustTrove_internal E a b w c di u l maxFee)"
  unfolding adjustTrove_internal_def Let_def by (intro settling)

lemma settles_borrowers [settling]:
  "settles listed (openTrove E a n maxFee c u l)" "settles listed (addColl E a n u l)" "settles listed (withdrawColl E a n u l)"
  "settles listed (withdrawSIM E a maxFee n u l)" "settles listed (repaySIM E a n u l)" "settles listed (adjustTrove E a n maxFee w c di u l)"
  "settles listed (moveWSTETHGainToTrove E a b u l)" "settles listed (bo_closeTrove E a)" "settles listed (claimCollateral E a)"
  unfolding openTrove_def addColl_def withdrawColl_def withdrawSIM_def repaySIM_def adjustTrove_def moveWSTETHGainToTrove_def
    bo_closeTrove_def claimCollateral_def Let_def
  by (intro settling)+

subsection \<open>Redemptions\<close>

lemma skip_ends:
  "represents d (xs @ zs) \<Longrightarrow> \<exists>r. skip_below_MCR m d price (hd0 (rev xs)) = Some r"
proof (induction xs arbitrary: zs rule: rev_induct)
  case Nil
  then show ?case by (simp add: skip_below_MCR.simps)
next
  case (snoc x xs)
  have "getPrev d x = hd0 (rev xs)" using getPrev_represents [of d xs x zs] snoc.prems by simp
  then show ?case
    using snoc.IH [of "x # zs"] snoc.prems by (subst skip_below_MCR.simps) (auto split: sum.splits)
qed

lemma settles_first_borrower [settling]: "settles listed (first_borrower h price)"
proof (rule settlesI)
  fix s :: "('a, 'b, 'c) protocol"
  assume "listed s"
  then obtain xs where "represents (st_data (pr_list s)) xs" by (auto simp: listed_def room_def)
  then have "\<exists>r. skip_below_MCR (pr_tm s) (st_data (pr_list s)) price (tail (st_data (pr_list s))) = Some r"
    using skip_ends [of "st_data (pr_list s)" xs "[]"] representsD(4) by simp
  then show "\<exists>r w'. first_borrower h price s = Some (r, w') \<and> (\<forall>a. r = Inr a \<longrightarrow> listed w')"
    using \<open>listed s\<close> by (auto simp: first_borrower_def split: sum.splits)
qed

lemma settles_redeem_from_trove [settling]: "settles listed (redeemCollateralFromTrove E b n price u l h)"
  unfolding redeemCollateralFromTrove_def redeemCloseTrove_def reinsert_redeemed_def Let_def by (intro settling)

lemma settles_redeem_loop [settling]: "settles listed (redeem_loop E price u l h n b t)"
proof (induction n arbitrary: b t)
  case 0
  show ?case by (subst redeem_loop.simps) (simp add: settles_return)
next
  case (Suc n)
  show ?case unfolding redeem_loop.simps [of E price u l h "Suc n"] diff_Suc_1 by (intro settling Suc.IH)
qed

lemma settles_redemption [settling]: "settles listed (redeemCollateral E shady a n first u l h k maxFee)"
  unfolding redeemCollateral_def redemption_guards_def settle_redemption_def by (intro settling)

subsection \<open>Liquidations\<close>

lemma settles_liquidate_one [settling]:
  "settles listed (liquidateNormalMode E b n)" "settles listed (liquidateRecoveryMode E b i n TCR price)"
  unfolding liquidateNormalMode_def liquidateRecoveryMode_def detach_trove_def Let_def by (intro settling)+

lemma settles_in_sequence [settling]:
  "settles listed (normal_in_sequence E b vars)" "settles listed (recovery_in_sequence E price b i vars)"
  unfolding normal_in_sequence_def recovery_in_sequence_def by (intro settling)+

lemma settles_sequence_normal [settling]: "settles listed (liquidateTrovesSequence_NormalMode E price n vars)"
proof (induction n arbitrary: vars)
  case 0
  show ?case by (subst liquidateTrovesSequence_NormalMode.simps) (simp add: settles_return)
next
  case (Suc n)
  show ?case unfolding liquidateTrovesSequence_NormalMode.simps [of E price "Suc n"] diff_Suc_1 by (intro settling Suc.IH)
qed

lemma settles_sequence_recovery [settling]: "settles listed (liquidateTrovesSequence_RecoveryMode E price first n b vars)"
proof (induction n arbitrary: b vars)
  case 0
  show ?case by (subst liquidateTrovesSequence_RecoveryMode.simps) (simp add: settles_return)
next
  case (Suc n)
  show ?case unfolding liquidateTrovesSequence_RecoveryMode.simps [of E price first "Suc n"] diff_Suc_1 by (intro settling Suc.IH)
qed

lemma settles_batch_normal [settling]: "settles listed (batchLiquidate_NormalMode E price users vars)"
proof (induction users arbitrary: vars)
  case (Cons b users)
  show ?case unfolding batchLiquidate_NormalMode.simps by (intro settling Cons.IH)
qed (simp add: settles_return)

lemma settles_batch_recovery [settling]: "settles listed (batchLiquidate_RecoveryMode E price users vars)"
proof (induction users arbitrary: vars)
  case (Cons b users)
  show ?case unfolding batchLiquidate_RecoveryMode.simps by (intro settling Cons.IH)
qed (simp add: settles_return)

lemma settles_run_sequence [settling]: "settles listed (run_sequence E price n rm request)"
  unfolding run_sequence_def Let_def by (cases request) (simp_all only: liquidation_request.case, (intro settling)+)

lemma settles_settlement [settling]: "settles listed (settle_after_offset E a t)" "settles listed (sendGasCompensation E a n)"
  unfolding settle_after_offset_def sendGasCompensation_def by (intro settling)+

subsection \<open>The system\<close>

definition sys_listed :: "('t, 'm, 'd, 'y) system \<Rightarrow> bool" where
  "sys_listed sy \<longleftrightarrow> listed (sy_pr sy)"

lemma settles_in_protocol [settling]:
  fixes m :: "('t, 'm, 'd, 'x) op"
  assumes "settles listed m"
  shows "settles sys_listed (in_protocol m :: ('t, 'm, 'd, 'y, 'x) sysop)"
proof (rule settlesI)
  fix sy :: "('t, 'm, 'd, 'y) system"
  assume "sys_listed sy"
  then obtain r s where "m (sy_pr sy) = Some (r, s)" "\<forall>a. r = Inr a \<longrightarrow> listed s"
    using assms unfolding settles_def sys_listed_def by blast
  then show "\<exists>r w'. in_protocol m sy = Some (r, w') \<and> (\<forall>a. r = Inr a \<longrightarrow> sys_listed w')"
    by (auto simp: in_protocol_def sys_listed_def)
qed

lemma settles_sys_gets [settling]: "settles sys_listed (sys_gets f)"
  by (simp add: settles_def sys_gets_def)

lemma settles_on_sp [settling]: "settles sys_listed (on_sp f)"
  by (auto simp: settles_def on_sp_def sys_listed_def split: sum.splits)

lemma settles_sp_on_sim [settling]: "settles sys_listed (sp_on_sim f)"
  by (auto simp: settles_def sp_on_sim_def sys_listed_def listed_def split: sum.splits)

lemma settles_sys_transaction [settling]: "settles sys_listed m \<Longrightarrow> settles sys_listed (sys_transaction m)"
  by (fastforce simp: settles_def sys_transaction_def split: option.splits sum.splits)

lemma settles_issuance [settling]:
  "settles sys_listed (triggerSHADYIssuance SE)" "settles sys_listed (payOutSHADYGains SE a)"
  by (auto simp: settles_def triggerSHADYIssuance_def payOutSHADYGains_def on_sp_def sys_listed_def split: sum.splits)

lemma settles_pool_parts [settling]:
  "settles sys_listed (sendSIMtoStabilityPool SE a n)" "settles sys_listed (sendSIMToDepositor SE a n)"
  "settles sys_listed (requireNoUnderCollateralizedTroves SE)" "settles sys_listed (depositor_values d a)"
  "settles sys_listed (initial_deposit a)" "settles sys_listed (moveOffsetCollAndDebt SE n d)"
  unfolding sendSIMtoStabilityPool_def sendSIMToDepositor_def requireNoUnderCollateralizedTroves_def depositor_values_def initial_deposit_def
    moveOffsetCollAndDebt_def
  by (intro settling)+

lemma settles_depositors [settling]:
  "settles sys_listed (provideToSP SE a n)" "settles sys_listed (withdrawFromSP SE a n)" "settles sys_listed (withdrawWSTETHGainToTrove SE a u l)"
  unfolding provideToSP_def withdrawFromSP_def withdrawWSTETHGainToTrove_def Let_def by (intro settling)+

lemma settles_offset [settling]: "settles sys_listed (offset SE a d n)"
  unfolding offset_def case_prod_unfold by (intro settling)

lemma settles_liquidations [settling]:
  "settles sys_listed (liquidate SE a b)" "settles sys_listed (liquidateTroves SE a n)" "settles sys_listed (batchLiquidateTroves SE a users)"
  unfolding liquidate_def liquidateTroves_def batchLiquidateTroves_def batch_call_def liquidation_call_def by (intro settling)+

lemma settles_perform: "settles sys_listed (perform SE shady sender c)"
  by (cases c) (simp_all add: settling)

text \<open>A call that reverts has no effect.\<close>

definition atomic :: "('w, 'e, 'a) io \<Rightarrow> bool" where
  "atomic m \<longleftrightarrow> (\<forall>w e w'. m w = Some (Inl e, w') \<longrightarrow> w' = w)"

lemma atomic_transaction: "atomic (transaction m)" "atomic (sys_transaction n)"
  by (auto simp: atomic_def transaction_def sys_transaction_def split: option.splits sum.splits)

lemma atomic_in_protocol:
  assumes "atomic m"
  shows "atomic (in_protocol m)"
proof -
  have "sy\<lparr>sy_pr := sy_pr sy\<rparr> = sy" for sy :: "('a, 'b, 'c, 'd) system" by (cases sy) simp
  then show ?thesis using assms by (fastforce simp: atomic_def in_protocol_def split: option.splits)
qed

lemma atomic_perform: "atomic (perform SE shady sender c)"
  by (cases c) (simp_all add: atomic_in_protocol atomic_transaction openTrove_def addColl_def withdrawColl_def withdrawSIM_def repaySIM_def
      adjustTrove_def moveWSTETHGainToTrove_def bo_closeTrove_def claimCollateral_def provideToSP_def withdrawFromSP_def
      withdrawWSTETHGainToTrove_def liquidate_def liquidateTroves_def batchLiquidateTroves_def redeemCollateral_def)

lemma calls_listed:
  assumes "calls SE shady sy sy'" and "sys_listed sy"
  shows "sys_listed sy'"
  using assms
proof induction
  case (call sy sy1 oracles_now sender c r sy')
  show ?case
  proof (cases r)
    case (Inl e)
    then show ?thesis using call atomic_perform unfolding atomic_def by blast
  next
    case (Inr x)
    then show ?thesis using call settlesD [OF settles_perform] by blast
  qed
qed simp

text \<open>
  C5. Every call ends. Start from a state whose list of troves is a doubly linked list, such as the empty one,
  and let anybody make any calls. In every state this leads to, every call to the borrower operations, the
  stability pool and the trove manager returns, with a result or with a revert, and a call that reverts
  leaves the state as it was: no hints, no order of the calls and no answers of the oracles make the walks
  along the list, the sequences of liquidations or the redemptions run forever.
\<close>

theorem every_call_ends:
  assumes "calls SE shady sy sy'" and "represents (st_data (pr_list (sy_pr sy))) xs"
    and "length xs \<le> maxSize (st_data (pr_list (sy_pr sy)))" and "maxSize (st_data (pr_list (sy_pr sy))) \<le> uint_max"
  shows "\<exists>r sy''. perform SE shady sender c sy' = Some (r, sy'') \<and> (\<forall>e. r = Inl e \<longrightarrow> sy'' = sy')"
proof -
  have "sys_listed sy'" using calls_listed [OF assms(1)] assms(2-4) by (auto simp: sys_listed_def listed_def room_def)
  then show ?thesis
    using settles_perform [of SE shady sender c] atomic_perform [of SE shady sender c] unfolding settles_def atomic_def by blast
qed

section \<open>The books of the system\<close>

definition keeps :: "('w \<Rightarrow> bool) \<Rightarrow> ('w, 'e, 'a) io \<Rightarrow> bool" where
  "keeps I m \<longleftrightarrow> (\<forall>w a w'. I w \<longrightarrow> m w = Some (Inr a, w') \<longrightarrow> I w')"

named_theorems keeping \<open>computations that keep an invariant\<close>

lemma keeps_then [keeping]: "keeps I m \<Longrightarrow> (\<And>a. keeps I (f a)) \<Longrightarrow> keeps I (bind_io m f)"
  unfolding keeps_def bind_io_eq_Inr by blast

lemma keeps_basic [keeping]: "keeps I (return_io a)" "keeps I (lift_io r)"
  by (simp_all add: keeps_def return_io_def lift_io_def)

lemma keeps_if [keeping]: "keeps I m \<Longrightarrow> keeps I n \<Longrightarrow> keeps I (if b then m else n)"
  by simp

lemma keeps_prod [keeping]: "(\<And>x y. keeps I (g x y)) \<Longrightarrow> keeps I (case p of (x, y) \<Rightarrow> g x y)"
  by (cases p) simp

definition balanced :: "('t, 'm, 'd, 'y) system \<Rightarrow> bool" where
  "balanced sy \<longleftrightarrow> books_balance (pr_tm (sy_pr sy)) (pr_pools (sy_pr sy))"

lemma keeps_sameI:
  assumes "\<And>sy a sy'. m sy = Some (Inr a, sy') \<Longrightarrow> pr_tm (sy_pr sy') = pr_tm (sy_pr sy) \<and> records (pr_pools (sy_pr sy')) = records (pr_pools (sy_pr sy))"
  shows "keeps balanced m"
proof -
  have "balanced sy'" if "balanced sy" "m sy = Some (Inr a, sy')" for sy a sy'
  proof -
    have same: "pr_tm (sy_pr sy') = pr_tm (sy_pr sy)" "ap_WSTETH (activePool (pr_pools (sy_pr sy'))) = ap_WSTETH (activePool (pr_pools (sy_pr sy)))"
        "ap_SIMDebt (activePool (pr_pools (sy_pr sy'))) = ap_SIMDebt (activePool (pr_pools (sy_pr sy)))"
      using assms [OF that(2)] by (simp_all add: records_def)
    show ?thesis using that(1) unfolding balanced_def books_balance_def same .
  qed
  then show ?thesis unfolding keeps_def by blast
qed

lemma keeps_system [keeping]:
  "keeps balanced (sys_gets f)" "keeps balanced (on_sp g)" "keeps balanced (sp_on_sim h)"
  "keeps balanced (triggerSHADYIssuance SE)" "keeps balanced (payOutSHADYGains SE a)" "keeps balanced (in_protocol (fetch_price E))"
  by (rule keeps_sameI, force simp: sys_gets_def on_sp_def sp_on_sim_def triggerSHADYIssuance_def payOutSHADYGains_def in_protocol_def
      fetch_price_def split: sum.splits)+

lemma keeps_transaction [keeping]: "keeps I m \<Longrightarrow> keeps I (sys_transaction m)"
  by (auto simp: keeps_def sys_transaction_returns)

lemma keeps_gain [keeping]:
  "keeps balanced (in_protocol (on_pools (sendWSTETHGainToDepositor tok a n)))"
  "keeps balanced (in_protocol (on_pools (\<lambda>p. bind_res (u_sub (sp_WSTETH p) n) (\<lambda>w. transfer_WSTETH tok (at_stabilityPool p) b n (p\<lparr>sp_WSTETH := w\<rparr>)))))"
proof -
  have "records q = records p" if "transfer_WSTETH tok x y n (p\<lparr>sp_WSTETH := w\<rparr>) = Inr q" for x y w and p q :: "'a pools"
    using transfer_WSTETH_records [OF that] by (simp add: records_def)
  then show "keeps balanced (in_protocol (on_pools (sendWSTETHGainToDepositor tok a n)))"
    and "keeps balanced (in_protocol (on_pools (\<lambda>p. bind_res (u_sub (sp_WSTETH p) n) (\<lambda>w. transfer_WSTETH tok (at_stabilityPool p) b n (p\<lparr>sp_WSTETH := w\<rparr>)))))"
    by (auto intro!: keeps_sameI simp: in_protocol_returns on_pools_returns sendWSTETHGainToDepositor_def bind_res_eq_Inr split: if_splits)
qed

lemma keeps_borrower_call:
  assumes "\<And>s s'. m s = Some (Inr (), s') \<Longrightarrow> borrower_call E a s s'"
  shows "keeps balanced (in_protocol m)"
proof -
  have "books_balance (pr_tm s') (pr_pools s')" if "m s = Some (Inr (), s')" "books_balance (pr_tm s) (pr_pools s)" for s s'
    using borrower_call_books [OF assms [OF that(1)]] moved_together_balance that(2) unfolding books_moved_def by blast
  then show ?thesis by (auto simp: keeps_def balanced_def in_protocol_returns)
qed

lemma keeps_borrowers [keeping]:
  "keeps balanced (in_protocol (openTrove E a n maxFee c u l))" "keeps balanced (in_protocol (addColl E a n u l))"
  "keeps balanced (in_protocol (withdrawColl E a n u l))" "keeps balanced (in_protocol (withdrawSIM E a maxFee n u l))"
  "keeps balanced (in_protocol (repaySIM E a n u l))" "keeps balanced (in_protocol (adjustTrove E a n maxFee w c di u l))"
  "keeps balanced (in_protocol (moveWSTETHGainToTrove E a b u l))" "keeps balanced (in_protocol (bo_closeTrove E a))"
  "keeps balanced (in_protocol (claimCollateral E a))"
  by (rule keeps_borrower_call, (erule borrower_call.opened borrower_call.closed borrower_call.claimed
      | (rule borrower_call.adjusted, erule trove_adjustment.intros)))+

lemma keeps_depositors [keeping]:
  "keeps balanced (provideToSP SE a n)" "keeps balanced (withdrawFromSP SE a n)" "keeps balanced (withdrawWSTETHGainToTrove SE a u l)"
  unfolding provideToSP_def withdrawFromSP_def withdrawWSTETHGainToTrove_def sendSIMtoStabilityPool_def sendSIMToDepositor_def
    requireNoUnderCollateralizedTroves_def depositor_values_def initial_deposit_def Let_def
  by (intro keeping)+

lemma keeps_liquidation:
  assumes "\<And>sy sy'. m sy = Some (Inr (), sy') \<Longrightarrow> liquidation SE a sy sy'"
  shows "keeps balanced m"
  unfolding keeps_def balanced_def using liquidation_books [OF assms] by simp

lemma keeps_liquidations [keeping]:
  "keeps balanced (liquidate SE a b)" "keeps balanced (liquidateTroves SE a n)" "keeps balanced (batchLiquidateTroves SE a users)"
  by (rule keeps_liquidation, erule liquidation.intros)+

lemma keeps_redemption [keeping]: "keeps balanced (in_protocol (redeemCollateral E shady a n first u l h k maxFee))"
  unfolding keeps_def balanced_def in_protocol_returns using redemption_books by fastforce

lemma keeps_perform: "keeps balanced (perform SE shady sender c)"
  by (cases c) (simp_all add: keeping)

text \<open>
  C4. The books of the whole system. Whatever the borrowers, the depositors of the stability pool, the
  liquidators and the redeemers call, in whatever order and with whatever answers of the oracles, the
  collateral and the debt that the active pool records stay those of all troves together: what a
  liquidation takes out of a trove goes to the stability pool, the default pool, the surplus of the owner or
  the liquidator, and what a redemption takes out is paid to the redeemer, the distributor or kept as surplus.
\<close>

theorem system_books_balance:
  assumes "calls SE shady sy sy'" and "books_balance (pr_tm (sy_pr sy)) (pr_pools (sy_pr sy))"
  shows "books_balance (pr_tm (sy_pr sy')) (pr_pools (sy_pr sy'))"
  using assms
proof induction
  case (call sy sy1 oracles_now sender c r sy')
  let ?SE = "SE\<lparr>se_env := (se_env SE)\<lparr>en_oracles := oracles_now\<rparr>\<rparr>"
  show ?case
  proof (cases r)
    case (Inl e)
    then have "sy' = sy1" using call.hyps(2) atomic_perform [of ?SE] unfolding atomic_def by blast
    then show ?thesis using call by simp
  next
    case (Inr x)
    then show ?thesis using call keeps_perform [of ?SE] unfolding keeps_def balanced_def by blast
  qed
qed simp

section \<open>A system that is used\<close>

text \<open>From the two troves of the sample, one is liquidated.\<close>

lemma sample_liquidated:
  "\<exists>sy'. calls sample_pool_env sample_shady sample_liquidation_system sy'
     \<and> liquidate sample_pool_env 42 41 sample_liquidation_system = Some (Inr (), sy')"
proof -
  obtain sy' where l: "liquidate sample_pool_env 42 41 sample_liquidation_system = Some (Inr (), sy')" using sample_liquidates by blast
  have "calls sample_pool_env sample_shady sample_liquidation_system sy'"
    using calls.call [OF calls.none, where SE = sample_pool_env and oracles_now = sample_oracles and c = "Liquidate 41" and sender = 42] l
    by (simp add: sample_pool_env_def sample_env_def)
  then show ?thesis using l by blast
qed

lemma sample_books: "books_balance (pr_tm (sy_pr sample_liquidation_system)) (pr_pools (sy_pr sample_liquidation_system))"
  unfolding books_balance_def
  by (intro exI [of _ "{40, 41}"]) (simp add: sample_liquidation_system_def sample_pool_system_def sample_two_troves_def run_samples)

theorem system_books_balance_witness:
  "\<exists>sy'. liquidate sample_pool_env 42 41 sample_liquidation_system = Some (Inr (), sy') \<and> books_balance (pr_tm (sy_pr sy')) (pr_pools (sy_pr sy'))"
  using sample_liquidated system_books_balance [OF _ sample_books] by blast

lemma sample_listed: "represents (st_data (pr_list (sy_pr sample_liquidation_system))) [40, 41]"
  by (auto simp: represents_def nodes_of_def sample_liquidation_system_def sample_pool_system_def sample_two_troves_def sample_start_def sample_list_def
      no_node_def fun_eq_iff)

theorem every_call_ends_witness:
  "\<exists>sy' r sy''. liquidate sample_pool_env 42 41 sample_liquidation_system = Some (Inr (), sy')
     \<and> perform sample_pool_env sample_shady 42 (RedeemCollateral 1 0 0 0 0 0 1000000000000000000) sy' = Some (r, sy'')"
proof -
  have "length [40, 41::nat] \<le> maxSize (st_data (pr_list (sy_pr sample_liquidation_system)))"
    "maxSize (st_data (pr_list (sy_pr sample_liquidation_system))) \<le> uint_max"
    by (simp_all add: sample_liquidation_system_def sample_pool_system_def sample_two_troves_def sample_start_def sample_list_def uint_max_def)
  then show ?thesis
    using sample_liquidated every_call_ends [OF _ sample_listed, of sample_pool_env sample_shady] by blast
qed

end
