(* ===== verification/Hint_Helpers.thy ===== *)
theory Hint_Helpers
  imports Redemption
begin

text \<open>
  The views for the front ends: \<open>contracts/HintHelpers.sol\<close>, which finds the hints of a redemption and of an
  insertion, and \<open>contracts/MultiTroveGetter.sol\<close>, which reads a page of the sorted list. They read the trove
  manager and the list and change nothing. The theorems say that a redemption of the amount that the helper
  reports, with its hints, redeems all of it, and that the getter returns the page.
\<close>

section \<open>The contracts\<close>

record hint_helpers =
  hh_owner :: address
  hh_sortedTroves :: address
  hh_troveManager :: address

definition hintHelpers_setAddresses ::
    "(address \<Rightarrow> bool) \<Rightarrow> address \<Rightarrow> address \<Rightarrow> address \<Rightarrow> hint_helpers \<Rightarrow> revert + hint_helpers" where
  "hintHelpers_setAddresses is_contract sender sortedTroves troveManager c =
     bind_res (only_owner (hh_owner c) sender) (\<lambda>_.
     bind_res (checkContracts is_contract [sortedTroves, troveManager]) (\<lambda>_.
     Inr (c\<lparr>hh_sortedTroves := sortedTroves, hh_troveManager := troveManager, hh_owner := 0\<rparr>)))"

record multi_trove_getter =
  mg_troveManager :: address
  mg_sortedTroves :: address

definition new_multi_trove_getter :: "address \<Rightarrow> address \<Rightarrow> multi_trove_getter" where
  "new_multi_trove_getter troveManager sortedTroves = \<lparr>mg_troveManager = troveManager, mg_sortedTroves = sortedTroves\<rparr>"

section \<open>Hints for a redemption\<close>

text \<open>The amount that is left, and the ratio after the partial redemption, are the result of the loop.\<close>

definition partial_hint :: "trove_manager \<Rightarrow> uint \<Rightarrow> address \<Rightarrow> uint \<Rightarrow> uint \<Rightarrow> revert + uint \<times> uint" where
  "partial_hint m price user netSIMDebt remaining =
     bind_res (u_sub netSIMDebt MIN_NET_DEBT) (\<lambda>redeemable.
     let maxRedeemableSIM = LM_min remaining redeemable in
     bind_res (getPendingWSTETHReward m user) (\<lambda>pendingWSTETH.
     bind_res (u_add (tr_coll (Troves m user)) pendingWSTETH) (\<lambda>WSTETH.
     bind_res (bind_res (u_mul maxRedeemableSIM DECIMAL_PRECISION) (\<lambda>x. u_div x price)) (\<lambda>lot.
     bind_res (u_sub WSTETH lot) (\<lambda>newColl.
     bind_res (u_sub netSIMDebt maxRedeemableSIM) (\<lambda>newDebt.
     bind_res (computeNominalCR newColl (getCompositeDebt newDebt)) (\<lambda>NICR.
     bind_res (u_sub remaining maxRedeemableSIM) (\<lambda>rest.
     Inr (rest, NICR)))))))))"

fun hint_loop :: "trove_manager \<Rightarrow> trove_list \<Rightarrow> uint \<Rightarrow> uint \<Rightarrow> address \<Rightarrow> uint \<Rightarrow> revert + uint \<times> uint" where
  "hint_loop m d price maxIterations user remaining =
     (if user = 0 \<or> remaining = 0 then Inr (remaining, 0)
      else if maxIterations = 0 then Inl Panic
      else if maxIterations - 1 = 0 then Inr (remaining, 0)
      else
        bind_res (getPendingSIMDebtReward m user) (\<lambda>pending.
        bind_res (u_add (getNetDebt (tr_debt (Troves m user))) pending) (\<lambda>netSIMDebt.
        if remaining < netSIMDebt then
          (if MIN_NET_DEBT < netSIMDebt then partial_hint m price user netSIMDebt remaining else Inr (remaining, 0))
        else
          bind_res (u_sub remaining netSIMDebt) (\<lambda>rest.
          hint_loop m d price (maxIterations - 1) (getPrev d user) rest))))"

declare hint_loop.simps [simp del]

definition getRedemptionHints ::
    "trove_manager \<Rightarrow> trove_list \<Rightarrow> uint \<Rightarrow> uint \<Rightarrow> uint \<Rightarrow> (revert + address \<times> uint \<times> uint) option" where
  "getRedemptionHints m d SIMamount price maxIterations =
     map_option (\<lambda>r. bind_res r (\<lambda>first.
       bind_res (hint_loop m d price (if maxIterations = 0 then uint_max else maxIterations) first SIMamount) (\<lambda>(remaining, NICR).
       bind_res (u_sub SIMamount remaining) (\<lambda>truncated.
       Inr (first, NICR, truncated)))))
       (skip_below_MCR m d price (tail d))"

section \<open>Hints for an insertion\<close>

text \<open>
  The hash function is the argument \<open>keccak\<close>. \<open>getTroveFromTroveOwnersArray\<close> reverts beyond the array, which
  the remainder excludes.
\<close>

fun approx_loop ::
    "(uint \<Rightarrow> uint) \<Rightarrow> trove_manager \<Rightarrow> uint \<Rightarrow> uint \<Rightarrow> address \<Rightarrow> uint \<Rightarrow> uint \<Rightarrow> revert + address \<times> uint \<times> uint" where
  "approx_loop keccak m CR 0 hint diff seed = Inr (hint, diff, seed)"
| "approx_loop keccak m CR (Suc trials) hint diff seed =
     (let seed' = keccak seed; i = seed' mod length (TroveOwners m) in
      if \<not> i < length (TroveOwners m) then Inl Panic
      else
        let current = TroveOwners m ! i in
        bind_res (getNominalICR m current) (\<lambda>currentNICR.
        bind_res (getAbsoluteDifference currentNICR CR) (\<lambda>currentDiff.
        if currentDiff < diff then approx_loop keccak m CR trials current currentDiff seed'
        else approx_loop keccak m CR trials hint diff seed')))"

definition getApproxHint ::
    "(uint \<Rightarrow> uint) \<Rightarrow> trove_manager \<Rightarrow> trove_list \<Rightarrow> uint \<Rightarrow> uint \<Rightarrow> uint \<Rightarrow> revert + address \<times> uint \<times> uint" where
  "getApproxHint keccak m d CR numTrials inputRandomSeed =
     (if length (TroveOwners m) = 0 then Inr (0, 0, inputRandomSeed)
      else
        bind_res (getNominalICR m (tail d)) (\<lambda>NICR.
        bind_res (getAbsoluteDifference CR NICR) (\<lambda>diff.
        approx_loop keccak m CR (numTrials - 1) (tail d) diff inputRandomSeed)))"

section \<open>Pages of the list\<close>

record combined_trove_data =
  ct_owner :: address
  ct_debt :: uint
  ct_coll :: uint
  ct_stake :: uint
  ct_snapshotETH :: uint
  ct_snapshotLUSDDebt :: uint

definition combined_data :: "trove_manager \<Rightarrow> address \<Rightarrow> combined_trove_data" where
  "combined_data m a =
     \<lparr>ct_owner = a, ct_debt = tr_debt (Troves m a), ct_coll = tr_coll (Troves m a), ct_stake = tr_stake (Troves m a),
      ct_snapshotETH = rs_WSTETH (rewardSnapshots m a), ct_snapshotLUSDDebt = rs_SIMDebt (rewardSnapshots m a)\<rparr>"

text \<open>The two loops of \<open>_getMultipleSortedTrovesFromHead\<close> and \<open>FromTail\<close>, which differ in the link they follow.\<close>

primrec follow :: "(address \<Rightarrow> address) \<Rightarrow> uint \<Rightarrow> address \<Rightarrow> address" where
  "follow along 0 a = a"
| "follow along (Suc n) a = follow along n (along a)"

primrec read_troves :: "trove_manager \<Rightarrow> (address \<Rightarrow> address) \<Rightarrow> uint \<Rightarrow> address \<Rightarrow> combined_trove_data list" where
  "read_troves m along 0 a = []"
| "read_troves m along (Suc n) a = combined_data m a # read_troves m along n (along a)"

definition getMultipleSortedTrovesFromHead :: "trove_manager \<Rightarrow> trove_list \<Rightarrow> uint \<Rightarrow> uint \<Rightarrow> combined_trove_data list" where
  "getMultipleSortedTrovesFromHead m d startIdx n = read_troves m (getNext d) n (follow (getNext d) startIdx (head d))"

definition getMultipleSortedTrovesFromTail :: "trove_manager \<Rightarrow> trove_list \<Rightarrow> uint \<Rightarrow> uint \<Rightarrow> combined_trove_data list" where
  "getMultipleSortedTrovesFromTail m d startIdx n = read_troves m (getPrev d) n (follow (getPrev d) startIdx (tail d))"

definition getMultipleSortedTroves :: "trove_manager \<Rightarrow> trove_list \<Rightarrow> int \<Rightarrow> uint \<Rightarrow> combined_trove_data list" where
  "getMultipleSortedTroves m d startIdx0 n =
     (let descends = 0 \<le> startIdx0;
          startIdx = (if descends then nat startIdx0 else nat (- (startIdx0 + 1)))
      in if size d \<le> startIdx then []
         else
           let maxCount = size d - startIdx;
               n = (if maxCount < n then maxCount else n)
           in if descends then getMultipleSortedTrovesFromHead m d startIdx n
              else getMultipleSortedTrovesFromTail m d startIdx n)"

section \<open>The page\<close>

text \<open>The links of a list lead from each of its elements to the next one.\<close>

definition walks :: "(address \<Rightarrow> address) \<Rightarrow> address list \<Rightarrow> bool" where
  "walks along ws \<longleftrightarrow> (\<forall>us p vs. ws = us @ p # vs \<longrightarrow> along p = hd0 vs)"

lemma walks_Cons: "walks along (p # ws) \<Longrightarrow> along p = hd0 ws \<and> walks along ws"
  unfolding walks_def by (metis append_Cons append_Nil)

lemma walks_next: "represents d xs \<Longrightarrow> walks (getNext d) xs"
  by (auto simp: walks_def intro: getNext_represents)

lemma walks_prev: "represents d xs \<Longrightarrow> walks (getPrev d) (rev xs)"
  unfolding walks_def
proof (intro allI impI)
  fix us p vs
  assume d: "represents d xs" and "rev xs = us @ p # vs"
  then have "xs = rev vs @ p # rev us" by (metis append.assoc append_Cons append_Nil rev.simps(2) rev_append rev_rev_ident)
  with d show "getPrev d p = hd0 vs" using getPrev_represents [of d "rev vs" p "rev us"] by simp
qed

lemma follow_walks: "walks along ws \<Longrightarrow> n < length ws \<Longrightarrow> follow along n (hd0 ws) = hd0 (drop n ws)"
proof (induction n arbitrary: ws)
  case (Suc n)
  then obtain p vs where ws: "ws = p # vs" by (cases ws) auto
  with Suc.prems show ?case using Suc.IH [of vs] walks_Cons [of along p vs] by simp
qed simp

lemma walks_drop: "walks along ws \<Longrightarrow> walks along (drop n ws)"
  unfolding walks_def by (metis append.assoc append_take_drop_id)

lemma read_walks: "walks along ws \<Longrightarrow> n \<le> length ws \<Longrightarrow> read_troves m along n (hd0 ws) = map (combined_data m) (take n ws)"
proof (induction n arbitrary: ws)
  case (Suc n)
  then obtain p vs where ws: "ws = p # vs" by (cases ws) auto
  with Suc.prems show ?case using Suc.IH [of vs] walks_Cons [of along p vs] by simp
qed simp

lemma read_page:
  assumes "walks along ws"
  shows "(if length ws \<le> i then []
      else read_troves m along (if length ws - i < n then length ws - i else n) (follow along i (hd0 ws))) = map (combined_data m) (take n (drop i ws))"
  using assms by (simp add: follow_walks read_walks [OF walks_drop])

text \<open>
  Pages of the list. On a list that represents a sequence of troves, the getter returns the data of the
  troves from the index on, at most as many as are asked for: counted from the highest ratio where the index is
  not negative, and from the lowest one, with -1 for the last trove, where it is. An index beyond the list gives the
  empty page.
\<close>

theorem getMultipleSortedTroves_pages:
  assumes "represents d xs"
  shows "getMultipleSortedTroves m d i n =
    map (combined_data m) (take n (if 0 \<le> i then drop (nat i) xs else drop (nat (- i) - 1) (rev xs)))"
proof -
  have size: "size d = length xs" and ends: "head d = hd0 xs" "tail d = hd0 (rev xs)" using assms by (simp_all add: represents_def)
  have last: "nat (- (i + 1)) = nat (- i) - 1" by simp
  show ?thesis
  proof (cases "0 \<le> i")
    case True
    then show ?thesis
      by (simp only: if_True read_page [OF walks_next [OF assms], symmetric])
        (simp add: getMultipleSortedTroves_def getMultipleSortedTrovesFromHead_def size ends Let_def)
  next
    case False
    then show ?thesis
      by (simp only: if_False read_page [OF walks_prev [OF assms], symmetric])
        (simp add: getMultipleSortedTroves_def getMultipleSortedTrovesFromTail_def size ends last [simplified] Let_def)
  qed
qed

section \<open>The redemption that the hints predict\<close>

text \<open>
  The pending debt of a trove is added to it together with its pending collateral, by a test on the
  collateral alone: \<open>snapshots_agree\<close> says that no debt is pending where no collateral is.
\<close>

definition snapshots_agree :: "trove_manager \<Rightarrow> address \<Rightarrow> bool" where
  "snapshots_agree m a \<longleftrightarrow>
     (\<not> rs_WSTETH (rewardSnapshots m a) < L_WSTETH m \<longrightarrow> rs_SIMDebt (rewardSnapshots m a) = L_SIMDebt m)"

lemma view_pending:
  assumes "trove_view m' a = trove_view m a"
  shows "getPendingSIMDebtReward m' a = getPendingSIMDebtReward m a" "getPendingWSTETHReward m' a = getPendingWSTETHReward m a"
    "tr_debt (Troves m' a) = tr_debt (Troves m a)" "tr_coll (Troves m' a) = tr_coll (Troves m a)" "snapshots_agree m' a = snapshots_agree m a"
  using assms
  by (simp_all add: trove_view_def getPendingSIMDebtReward_def getPendingWSTETHReward_def pending_reward_def snapshots_agree_def cong: if_cong)

lemma apply_own_pending_adds:
  assumes "apply_own_pending E b s = Some (Inr x, s')" and "getPendingSIMDebtReward (pr_tm s) b = Inr debt" and "snapshots_agree (pr_tm s) b"
  shows "tr_debt (Troves (pr_tm s') b) = tr_debt (Troves (pr_tm s) b) + debt"
    and "getPendingWSTETHReward (pr_tm s) b = Inr coll \<Longrightarrow> tr_coll (Troves (pr_tm s') b) = tr_coll (Troves (pr_tm s) b) + coll"
    and "a \<noteq> b \<Longrightarrow> trove_view (pr_tm s') a = trove_view (pr_tm s) a" and "pr_list s' = pr_list s"
proof -
  let ?m = "pr_tm s"
  obtain m p where mp: "applyPendingRewards (en_wsteth E) b (?m, pr_pools s) = Inr (m, p)" and s': "s' = s\<lparr>pr_tm := m, pr_pools := p\<rparr>"
    using assms(1) by (auto simp: apply_own_pending_def modify_returns bind_res_eq_Inr)
  have none: "debt = 0" "getPendingWSTETHReward ?m b = Inr coll \<Longrightarrow> coll = 0" if "\<not> hasPendingRewards ?m b" for coll
    using that assms(2,3)
    by (auto simp: getPendingSIMDebtReward_def getPendingWSTETHReward_def pending_reward_def hasPendingRewards_def snapshots_agree_def
        bind_res_eq_Inr checked_Inr split: if_splits)
  have res: "tr_debt (Troves m b) = tr_debt (Troves ?m b) + debt
      \<and> (\<forall>coll. getPendingWSTETHReward ?m b = Inr coll \<longrightarrow> tr_coll (Troves m b) = tr_coll (Troves ?m b) + coll)
      \<and> (\<forall>a. a \<noteq> b \<longrightarrow> trove_view m a = trove_view ?m a)"
    using mp assms(2) none
    by (auto simp: applyPendingRewards_def bind_res_eq_Inr checked_Inr Let_def upd_trove_def updateTroveRewardSnapshots_def trove_view_def
        split: if_splits)
  then show "tr_debt (Troves (pr_tm s') b) = tr_debt (Troves ?m b) + debt"
    and "getPendingWSTETHReward ?m b = Inr coll \<Longrightarrow> tr_coll (Troves (pr_tm s') b) = tr_coll (Troves ?m b) + coll"
    and "a \<noteq> b \<Longrightarrow> trove_view (pr_tm s') a = trove_view ?m a"
    by (simp_all add: s')
  show "pr_list s' = pr_list s" by (simp add: s')
qed

lemma close_redeemed_view:
  assumes "within_tm (removeStake b) s = Some (Inr x, s1)" and "close_trove b st s1 = Some (Inr y, s2)"
    and "redeemCloseTrove E b n s2 = Some (Inr z, s3)"
  shows "a \<noteq> b \<Longrightarrow> trove_view (pr_tm s3) a = trove_view (pr_tm s) a"
    and "represents (st_data (pr_list s)) (ys @ b # zs) \<Longrightarrow> represents (st_data (pr_list s3)) (ys @ zs)"
proof -
  obtain m where m: "removeStake b (pr_tm s) = Inr m" "s1 = s\<lparr>pr_tm := m\<rparr>" using assms(1) by (auto simp: within_tm_returns)
  obtain m' l where c: "closeTrove b st (m, pr_list s) = Some (Inr (m', l))" "s2 = s1\<lparr>pr_tm := m', pr_list := l\<rparr>"
    using assms(2) by (auto simp: close_trove_returns m(2))
  obtain p where s3: "s3 = s2\<lparr>pr_pools := p\<rparr>"
    using assms(3) by (auto simp: redeemCloseTrove_def bind_io_eq_Inr tm_pools_returns modify_returns bind_res_eq_Inr)
  show "trove_view (pr_tm s3) a = trove_view (pr_tm s) a" if "a \<noteq> b"
    using closeTrove_result(2) [OF c(1) that] removeStake_view [OF m(1) that] by (simp add: s3 c(2) m(2))
  assume d: "represents (st_data (pr_list s)) (ys @ b # zs)"
  from closeTrove_result(3) [OF c(1)] obtain d' where "list_remove (st_data (pr_list s)) b = Inr d'" "l = (pr_list s)\<lparr>st_data := d'\<rparr>"
    by (auto simp: remove_result_def dest!: remove_trove_Inr split: sum.splits)
  moreover have "remove1 b (ys @ b # zs) = ys @ zs" using representsD(1) [OF d] by (simp add: remove1_append)
  ultimately show "represents (st_data (pr_list s3)) (ys @ zs)"
    using list_remove_cases [OF d, of b] by (auto simp: s3 c(2))
qed

lemma redeem_all_of_trove:
  assumes "redeemCollateralFromTrove E b maxSIM price u l h s = Some (Inr r, s')" and "tr_debt (Troves (pr_tm s) b) \<le> maxSIM"
  shows "sr_SIMLot r = tr_debt (Troves (pr_tm s) b)" "\<not> sr_cancelledPartial r"
    and "a \<noteq> b \<Longrightarrow> trove_view (pr_tm s') a = trove_view (pr_tm s) a"
    and "represents (st_data (pr_list s)) (ys @ b # zs) \<Longrightarrow> represents (st_data (pr_list s')) (ys @ zs)"
proof -
  have lot: "LM_min maxSIM (tr_debt (Troves (pr_tm s) b)) = tr_debt (Troves (pr_tm s) b)" using assms(2) by (simp add: LM_min_def)
  obtain w s1 s2 where c: "within_tm (removeStake b) s = Some (Inr (), s1)" "close_trove b ClosedByRedemption s1 = Some (Inr (), s2)"
      "redeemCloseTrove E b (tr_coll (Troves (pr_tm s) b) - w) s2 = Some (Inr (), s')"
      and r: "sr_SIMLot r = tr_debt (Troves (pr_tm s) b)" "\<not> sr_cancelledPartial r"
    using assms(1) lot unfolding redeemCollateralFromTrove_def Let_def
    by (elim bind_ioE) (auto simp: gets_returns lift_returns checked_Inr return_io_def bind_io_eq_Inr simp del: split_paired_Ex split: if_splits)
  show "sr_SIMLot r = tr_debt (Troves (pr_tm s) b)" "\<not> sr_cancelledPartial r" by (rule r)+
  show "a \<noteq> b \<Longrightarrow> trove_view (pr_tm s') a = trove_view (pr_tm s) a"
    and "represents (st_data (pr_list s)) (ys @ b # zs) \<Longrightarrow> represents (st_data (pr_list s')) (ys @ zs)"
    using close_redeemed_view [OF c] by blast+
qed

lemma redeem_part_of_trove:
  assumes "redeemCollateralFromTrove E b maxSIM price u l h s = Some (Inr r, s')" and "maxSIM + MIN_NET_DEBT \<le> tr_debt (Troves (pr_tm s) b)"
    and "bind_res (u_mul maxSIM DECIMAL_PRECISION) (\<lambda>x. u_div x price) = Inr w"
    and "computeNominalCR (tr_coll (Troves (pr_tm s) b) - w) (tr_debt (Troves (pr_tm s) b) - maxSIM) = Inr h"
  shows "sr_SIMLot r = maxSIM" and "\<not> sr_cancelledPartial r"
proof -
  have "0 < MIN_NET_DEBT" by (simp add: MIN_NET_DEBT_def)
  then have lot: "LM_min maxSIM (tr_debt (Troves (pr_tm s) b)) = maxSIM" and left: "tr_debt (Troves (pr_tm s) b) - maxSIM \<noteq> 0"
      "\<not> getNetDebt (tr_debt (Troves (pr_tm s) b) - maxSIM) < MIN_NET_DEBT"
    using assms(2) by (simp_all add: LM_min_def getNetDebt_def)
  then show "sr_SIMLot r = maxSIM" and "\<not> sr_cancelledPartial r"
    using assms unfolding redeemCollateralFromTrove_def Let_def
    by (elim bind_ioE; auto simp: gets_returns lift_returns checked_Inr bind_res_eq_Inr return_io_def bind_io_eq_Inr simp del: split_paired_Ex split: if_splits)+
qed

lemma partial_hintD:
  assumes "partial_hint m price b net A = Inr (rest, h)"
  obtains pc w where "getPendingWSTETHReward m b = Inr pc" and "rest + LM_min A (net - MIN_NET_DEBT) = A"
    and "bind_res (u_mul (LM_min A (net - MIN_NET_DEBT)) DECIMAL_PRECISION) (\<lambda>x. u_div x price) = Inr w"
    and "computeNominalCR (tr_coll (Troves m b) + pc - w) (net - LM_min A (net - MIN_NET_DEBT)) = Inr h"
    and "LM_min A (net - MIN_NET_DEBT) + MIN_NET_DEBT \<le> net"
proof -
  have "LM_min A (net - MIN_NET_DEBT) \<le> A" "LM_min A (net - MIN_NET_DEBT) \<le> net - MIN_NET_DEBT" by (simp_all add: LM_min_def)
  with assms show thesis
    by (auto simp: partial_hint_def Let_def bind_res_eq_Inr checked_Inr getCompositeDebt_def intro!: that)
qed

lemma partial_predicted:
  assumes "redeemCollateralFromTrove E b R price u l h s = Some (Inr r, s')" and "partial_hint m price b net A = Inr (rest, h)"
    and "R + rest = A" and "tr_debt (Troves (pr_tm s) b) = net"
    and "\<And>pc. getPendingWSTETHReward m b = Inr pc \<Longrightarrow> tr_coll (Troves (pr_tm s) b) = tr_coll (Troves m b) + pc"
  shows "sr_SIMLot r = R" and "\<not> sr_cancelledPartial r"
proof -
  obtain pc w where h: "getPendingWSTETHReward m b = Inr pc" "rest + LM_min A (net - MIN_NET_DEBT) = A"
      "bind_res (u_mul (LM_min A (net - MIN_NET_DEBT)) DECIMAL_PRECISION) (\<lambda>x. u_div x price) = Inr w"
      "computeNominalCR (tr_coll (Troves m b) + pc - w) (net - LM_min A (net - MIN_NET_DEBT)) = Inr h"
      "LM_min A (net - MIN_NET_DEBT) + MIN_NET_DEBT \<le> net"
    using assms(2) by (rule partial_hintD)
  have R: "LM_min A (net - MIN_NET_DEBT) = R" using h(2) assms(3) by simp
  from redeem_part_of_trove [OF assms(1), unfolded assms(4) assms(5) [OF h(1)], OF h(5,3,4) [unfolded R]]
  show "sr_SIMLot r = R" and "\<not> sr_cancelledPartial r" by blast+
qed

lemma full_predicted:
  assumes "apply_own_pending E b s = Some (Inr x, s1)" and "redeemCollateralFromTrove E b R price u l h s1 = Some (Inr r, s2)"
    and "getPendingSIMDebtReward (pr_tm s) b = Inr pending" and "snapshots_agree (pr_tm s) b"
    and "tr_debt (Troves (pr_tm s) b) + pending \<le> R" and "represents (st_data (pr_list s)) (ys @ b # zs)"
  shows "sr_SIMLot r = tr_debt (Troves (pr_tm s) b) + pending" and "\<not> sr_cancelledPartial r"
    and "represents (st_data (pr_list s2)) (ys @ zs)" and "a \<noteq> b \<Longrightarrow> trove_view (pr_tm s2) a = trove_view (pr_tm s) a"
proof -
  note adds = apply_own_pending_adds [OF assms(1,3,4)] and all = redeem_all_of_trove [OF assms(2)]
  have enough: "tr_debt (Troves (pr_tm s1) b) \<le> R" using adds(1) assms(5) by simp
  show "sr_SIMLot r = tr_debt (Troves (pr_tm s) b) + pending" and "\<not> sr_cancelledPartial r"
    using all(1,2) [OF enough] adds(1) by simp_all
  show "represents (st_data (pr_list s2)) (ys @ zs)" using all(4) [OF enough] assms(6) adds(4) by simp
  show "trove_view (pr_tm s2) a = trove_view (pr_tm s) a" if "a \<noteq> b" using all(3) [OF enough that] adds(3) [OF that] by simp
qed

lemma redeem_loop_done: "remainingSIM t = 0 \<or> b = 0 \<Longrightarrow> redeem_loop E price u l h k b t s = Some (Inr t', s') \<Longrightarrow> t' = t"
  by (subst (asm) redeem_loop.simps) (elim disjE; simp add: return_io_def)

lemma hint_loop_rest: "hint_loop m d price n b A = Inr (rest, h) \<Longrightarrow> rest \<le> A"
proof (induction n arbitrary: b A)
  case 0
  then show ?case by (simp add: hint_loop.simps split: if_splits)
next
  case (Suc n)
  from Suc.prems show ?case
    by (subst (asm) hint_loop.simps)
      (auto simp: partial_hint_def Let_def bind_res_eq_Inr checked_Inr split: if_splits dest!: Suc.IH)
qed

text \<open>A round of the helper's loop that takes something, and what the redemption makes of its partial hint.\<close>

lemma hint_loop_step:
  assumes "hint_loop m d price (Suc n) b A = Inr (rest, h)" and "b \<noteq> 0" and "rest \<noteq> A"
  obtains pending where "getPendingSIMDebtReward m b = Inr pending" and "n \<noteq> 0"
    and "A < tr_debt (Troves m b) + pending \<longrightarrow> partial_hint m price b (tr_debt (Troves m b) + pending) A = Inr (rest, h)"
    and "tr_debt (Troves m b) + pending \<le> A
      \<longrightarrow> hint_loop m d price n (getPrev d b) (A - (tr_debt (Troves m b) + pending)) = Inr (rest, h)"
proof -
  have "A \<noteq> 0" "n \<noteq> 0" using assms by (auto simp: hint_loop.simps split: if_splits)
  then show thesis
    using assms that by (subst (asm) hint_loop.simps) (auto simp: bind_res_eq_Inr checked_Inr getNetDebt_def split: if_splits)
qed

lemma partial_hint_settles:
  assumes "apply_own_pending E b s = Some (Inr x, s1)" and "redeemCollateralFromTrove E b R price u l h s1 = Some (Inr r, s2)"
    and "trove_view (pr_tm s) b = trove_view m b" and "snapshots_agree m b" and "getPendingSIMDebtReward m b = Inr pending"
    and "partial_hint m price b (tr_debt (Troves m b) + pending) A = Inr (rest, h)" and "R + rest = A"
  shows "sr_SIMLot r = R" and "\<not> sr_cancelledPartial r"
proof -
  note same = view_pending [OF assms(3)]
  have pend: "getPendingSIMDebtReward (pr_tm s) b = Inr pending" "snapshots_agree (pr_tm s) b" using same assms(4,5) by simp_all
  have debt: "tr_debt (Troves (pr_tm s1) b) = tr_debt (Troves m b) + pending" using apply_own_pending_adds(1) [OF assms(1) pend] same(3) by simp
  have coll: "tr_coll (Troves (pr_tm s1) b) = tr_coll (Troves m b) + pc" if "getPendingWSTETHReward m b = Inr pc" for pc
    using apply_own_pending_adds(2) [OF assms(1) pend] same(2,4) that by simp
  show "sr_SIMLot r = R" and "\<not> sr_cancelledPartial r"
    by (rule partial_predicted [OF assms(2,6,7) debt coll]; assumption)+
qed

text \<open>
  The troves from \<open>b\<close> up, the list \<open>ys\<close> from its end, are in the state \<open>s\<close> of the redemption as they were for
  the helper; \<open>zs\<close> are the troves below, of which the redemption has closed some.
\<close>

lemma hint_loop_predicts:
  assumes "hint_loop m d price n b A = Inr (rest, h)" and "represents d (ys @ zs)" and "b = hd0 (rev ys)"
    and "represents (st_data (pr_list s)) (ys @ zs')" and "\<And>a. a \<in> set ys \<Longrightarrow> trove_view (pr_tm s) a = trove_view m a"
    and "\<And>a. a \<in> set ys \<Longrightarrow> snapshots_agree m a"
    and "redeem_loop E price u l h k b t s = Some (Inr t', s')" and "remainingSIM t + rest = A" and "n \<le> Suc k"
  shows "remainingSIM t' = 0"
  using assms
proof (induction n arbitrary: b A ys zs zs' s k t)
  case 0
  then show ?case by (subst (asm) (1) hint_loop.simps) (auto simp: redeem_loop.simps return_io_def split: if_splits)
next
  case (Suc n)
  show ?case
  proof (cases "b = 0 \<or> remainingSIM t = 0")
    case True
    then have "t' = t" using redeem_loop_done [OF _ Suc.prems(7)] by blast
    moreover have "b = 0 \<Longrightarrow> rest = A" using Suc.prems(1) by (simp add: hint_loop.simps)
    ultimately show ?thesis using True Suc.prems(8) by auto
  next
    case False
    then have "b \<noteq> 0" "rest \<noteq> A" using Suc.prems(8) by auto
    with Suc.prems(1) obtain pending where pending: "getPendingSIMDebtReward m b = Inr pending" "n \<noteq> 0"
      and part: "A < tr_debt (Troves m b) + pending \<longrightarrow> partial_hint m price b (tr_debt (Troves m b) + pending) A = Inr (rest, h)"
      and all: "tr_debt (Troves m b) + pending \<le> A
        \<longrightarrow> hint_loop m d price n (getPrev d b) (A - (tr_debt (Troves m b) + pending)) = Inr (rest, h)"
      by (rule hint_loop_step)
    let ?net = "tr_debt (Troves m b) + pending"
    obtain k' where k: "k = Suc k'" using Suc.prems(9) pending(2) by (cases k) auto
    obtain ys' where ys: "ys = ys' @ [b]" using Suc.prems(3) False by (cases ys rule: rev_cases) auto
    have b: "trove_view (pr_tm s) b = trove_view m b" "snapshots_agree m b" using Suc.prems(5,6) ys by auto
    obtain s1 r s2 where s1: "apply_own_pending E b s = Some (Inr (), s1)"
        and r: "redeemCollateralFromTrove E b (remainingSIM t) price u l h s1 = Some (Inr r, s2)"
        and next_step: "sr_cancelledPartial r \<and> t' = t \<and> s' = s2
          \<or> \<not> sr_cancelledPartial r \<and> sr_SIMLot r \<le> remainingSIM t
            \<and> redeem_loop E price u l h k' (getPrev (st_data (pr_list s)) b)
                \<lparr>remainingSIM = remainingSIM t - sr_SIMLot r, totalSIMToRedeem = totalSIMToRedeem t + sr_SIMLot r,
                 totalWSTETHDrawn = totalWSTETHDrawn t + sr_WSTETHLot r\<rparr> s2 = Some (Inr t', s')"
      using Suc.prems(7) False unfolding k by (rule redeem_loop_step)
    show ?thesis
    proof (cases "A < ?net")
      case True
      note settled = partial_hint_settles [OF s1 r b pending(1) part [rule_format, OF True] Suc.prems(8)]
      from next_step settled(2) have "t' = \<lparr>remainingSIM = remainingSIM t - sr_SIMLot r, totalSIMToRedeem = totalSIMToRedeem t + sr_SIMLot r,
          totalWSTETHDrawn = totalWSTETHDrawn t + sr_WSTETHLot r\<rparr>"
        by (auto simp: settled(1) dest!: redeem_loop_done [rotated])
      then show ?thesis by (simp add: settled(1))
    next
      case False
      with all have rest: "hint_loop m d price n (getPrev d b) (A - ?net) = Inr (rest, h)" by simp
      then have enough: "?net \<le> remainingSIM t" using Suc.prems(8) False hint_loop_rest by fastforce
      have lists: "represents d (ys' @ b # zs)" "represents (st_data (pr_list s)) (ys' @ b # zs')" using Suc.prems(2,4) ys by simp_all
      note prev = lists [THEN getPrev_represents] and same = view_pending [OF b(1)]
      have pend: "getPendingSIMDebtReward (pr_tm s) b = Inr pending" "snapshots_agree (pr_tm s) b" using same pending(1) b(2) by simp_all
      note full = full_predicted [OF s1 r pend _ lists(2), unfolded same(3), OF enough]
      show ?thesis
      proof (rule Suc.IH [OF rest lists(1) prev(1) full(3)])
        show "trove_view (pr_tm s2) a = trove_view m a" if "a \<in> set ys'" for a
          using full(4) [of a] Suc.prems(5) [of a] that ys representsD(1) [OF lists(1)] by auto
        show "snapshots_agree m a" if "a \<in> set ys'" for a using Suc.prems(6) that ys by simp
        show "redeem_loop E price u l h k' (getPrev d b)
            \<lparr>remainingSIM = remainingSIM t - ?net, totalSIMToRedeem = totalSIMToRedeem t + ?net,
             totalWSTETHDrawn = totalWSTETHDrawn t + sr_WSTETHLot r\<rparr> s2 = Some (Inr t', s')"
          using next_step full(1,2) prev by simp
      qed (use Suc.prems(8,9) k enough in simp_all)
    qed
  qed
qed

lemma skip_below_MCR_finds:
  assumes "represents d (ys @ zs)" and "skip_below_MCR m d price (hd0 (rev ys)) = Some (Inr b)"
  obtains us vs where "ys @ zs = us @ vs" and "b = hd0 (rev us)"
  using assms
proof (induction ys arbitrary: zs thesis rule: rev_induct)
  case Nil
  then show ?case using Nil.prems(1) [of "[]" zs] by (simp add: skip_below_MCR.simps)
next
  case (snoc y ys)
  then have "y \<noteq> 0" "getPrev d y = hd0 (rev ys)" using getPrev_represents [of d ys y zs] representsD(2) [OF snoc.prems(2)] by auto
  then consider "b = y" | "skip_below_MCR m d price (hd0 (rev ys)) = Some (Inr b)"
    using snoc.prems(3) by (subst (asm) skip_below_MCR.simps) (auto split: sum.splits if_splits)
  then show ?case
  proof cases
    case 1
    then show ?thesis using snoc.prems(1) [of "ys @ [y]" zs] by simp
  next
    case 2
    show ?thesis
    proof (rule snoc.IH [of "y # zs"])
      show "represents d (ys @ y # zs)" using snoc.prems(2) by simp
      show "skip_below_MCR m d price (hd0 (rev ys)) = Some (Inr b)" by (rule 2)
      show thesis if "ys @ y # zs = us @ vs" and "b = hd0 (rev us)" for us vs using snoc.prems(1) [of us vs] that by simp
    qed
  qed
qed


lemma sample_hints:
  "getRedemptionHints (pr_tm sample_redeemable) (st_data (pr_list sample_redeemable)) 1000000000000000000000 2000000000000000000000 0
     = Some (Inr (40, 236024844720496894, 1000000000000000000000))"
  by (simp add: getRedemptionHints_def hint_loop.simps partial_hint_def run_redemption run_liquidation run_adjustment sample_redeemable_def sample_two_troves_def
      run_samples run_io run_guards run_numbers run_calls moved_def Let_def)

lemma sample_redeemable_list: "represents (st_data (pr_list sample_redeemable)) [40, 41]"
  by (simp add: represents_def sample_redeemable_def sample_two_troves_def run_samples nodes_of_def no_node_def fun_eq_iff)

lemma sample_predicted:
  "\<exists>s'. redeemCollateral late_env sample_shady 42 1000000000000000000000 40 0 0 236024844720496894 0 1000000000000000000 sample_redeemable = Some (Inr (), s')"
  by (simp add: run_redemption run_liquidation run_adjustment late_env_def sample_shady_def sample_redeemable_def sample_two_troves_def
      run_samples run_io run_guards run_numbers run_calls late_fetch moved_def Let_def)


theorem getMultipleSortedTroves_pages_witness:
  "getMultipleSortedTroves (pr_tm sample_redeemable) (st_data (pr_list sample_redeemable)) (- 1) 5 = [combined_data (pr_tm sample_redeemable) 41, combined_data (pr_tm sample_redeemable) 40]"
  using getMultipleSortedTroves_pages [OF sample_redeemable_list, of "pr_tm sample_redeemable" "- 1" 5] by simp

text \<open>A redemption may take as many troves as the cap allows; the helper considers one fewer, and none where the cap is one.\<close>

lemma hints_of_one_iteration:
  "getRedemptionHints m d SIMamount price 1 = Some (Inr (first, NICR, truncated)) \<Longrightarrow> truncated = 0"
  by (auto simp: getRedemptionHints_def hint_loop.simps bind_res_eq_Inr checked_Inr split: if_splits)

text \<open>
  The hint for an insertion is the last trove or an owner in the array, and the difference that is returned is
  that of its ratio.
\<close>

lemma approx_loop_hint:
  assumes "approx_loop keccak m CR n hint diff seed = Inr (hint', diff', seed')"
    and "hint = a \<or> hint \<in> set (TroveOwners m)" and "bind_res (getNominalICR m hint) (\<lambda>r. getAbsoluteDifference r CR) = Inr diff"
  shows "(hint' = a \<or> hint' \<in> set (TroveOwners m)) \<and> bind_res (getNominalICR m hint') (\<lambda>r. getAbsoluteDifference r CR) = Inr diff' \<and> diff' \<le> diff"
  using assms
proof (induction n arbitrary: hint diff seed)
  case (Suc n)
  let ?c = "TroveOwners m ! (keccak seed mod length (TroveOwners m))"
  from Suc.prems(1) obtain r d where c: "?c \<in> set (TroveOwners m)" "getNominalICR m ?c = Inr r" "getAbsoluteDifference r CR = Inr d"
      and more: "approx_loop keccak m CR n (if d < diff then ?c else hint) (if d < diff then d else diff) (keccak seed) = Inr (hint', diff', seed')"
    by (auto simp: Let_def bind_res_eq_Inr split: if_splits)
  have "(hint' = a \<or> hint' \<in> set (TroveOwners m)) \<and> bind_res (getNominalICR m hint') (\<lambda>r. getAbsoluteDifference r CR) = Inr diff'
      \<and> diff' \<le> (if d < diff then d else diff)"
    by (rule Suc.IH [OF more]) (use c Suc.prems(2,3) in auto)
  then show ?case by (auto split: if_splits)
qed simp

lemma getAbsoluteDifference_commute: "getAbsoluteDifference a b = getAbsoluteDifference b a"
  by (simp add: getAbsoluteDifference_def)

lemma getApproxHint_hint:
  assumes "getApproxHint keccak m d CR numTrials seed = Inr (hint, diff, seed')" and "TroveOwners m \<noteq> []"
  shows "(hint = tail d \<or> hint \<in> set (TroveOwners m)) \<and> bind_res (getNominalICR m hint) (\<lambda>r. getAbsoluteDifference r CR) = Inr diff"
proof -
  from assms obtain r diff0 where "getNominalICR m (tail d) = Inr r" "getAbsoluteDifference CR r = Inr diff0"
      "approx_loop keccak m CR (numTrials - 1) (tail d) diff0 seed = Inr (hint, diff, seed')"
    by (auto simp: getApproxHint_def bind_res_eq_Inr)
  then show ?thesis
    using approx_loop_hint [of keccak m CR "numTrials - 1" "tail d" diff0 seed hint diff seed' "tail d"]
    by (simp add: getAbsoluteDifference_commute [of CR])
qed

end
