(* ===== verification/Governance.thy ===== *)
theory Governance
  imports Evm_Base
begin

text \<open>
  The governance of the upgradeable contracts: \<open>contracts/Controller.sol\<close> with its two time locks, the proxies
  (\<open>contracts/ProxyControlled.sol\<close>, \<open>contracts/dependencies/UpgradeableProxy.sol\<close>) and the base of the contracts behind
  them (\<open>contracts/dependencies/ControllableV3.sol\<close>, \<open>TetuERC165.sol\<close>, \<open>InterfaceIds.sol\<close>). OpenZeppelin's
  \<open>EnumerableMap\<close> and the code of the implementations, which may be any contract, are parameters. The theorems say
  that neither the governance nor an implementation changes before an announcement is two days old. Events are not
  modelled.
\<close>

section \<open>Interfaces\<close>

text \<open>The identifiers are the first bytes of the hashes of these names; they are taken to be distinct.\<close>

datatype interface_id = I_VE | I_CONTROLLER | I_TETU_ERC165 | I_CONTROLLABLE | I_VE_DISTRIBUTOR | Other_interface uint

text \<open>
  What the contracts ask of others: whether an address has code, and what \<open>supportsInterface\<close>, \<open>governance\<close>,
  \<open>totalSupply\<close> and \<open>balanceOf\<close> return there. The two functions of \<open>IControllable\<close> that a proxy calls on itself run the
  code of its implementation on the storage of the proxy.
\<close>

record proxy =
  px_implementation :: address
  px_initialized :: bool
  px_controller :: address
  px_created :: uint
  px_createdBlock :: uint
  px_revision :: uint
  px_previousImplementation :: address

record logic =
  lg_is_contract :: "address \<Rightarrow> bool"
  lg_supportsInterface :: "address \<Rightarrow> interface_id \<Rightarrow> revert + bool"
  lg_governance :: "address \<Rightarrow> revert + address"
  lg_totalSupply :: "address \<Rightarrow> revert + uint"
  lg_balanceOf :: "address \<Rightarrow> address \<Rightarrow> revert + uint"
  lg_isController :: "address \<Rightarrow> proxy \<Rightarrow> address \<Rightarrow> revert + bool"
  lg_increaseRevision :: "address \<Rightarrow> proxy \<Rightarrow> address \<Rightarrow> revert + proxy"

definition isInterfaceSupported :: "logic \<Rightarrow> address \<Rightarrow> interface_id \<Rightarrow> revert + bool" where
  "isInterfaceSupported L a interface =
     bind_res (require (a \<noteq> 0) ''Zero address'') (\<lambda>_.
     if \<not> lg_is_contract L a then Inr False
     else case lg_supportsInterface L a interface of Inl _ \<Rightarrow> Inr False | Inr b \<Rightarrow> Inr b)"

definition requireInterface :: "logic \<Rightarrow> address \<Rightarrow> interface_id \<Rightarrow> revert + unit" where
  "requireInterface L a interface =
     bind_res (isInterfaceSupported L a interface) (\<lambda>b. require b ''Interface is not supported'')"

definition isERC20 :: "logic \<Rightarrow> address \<Rightarrow> address \<Rightarrow> revert + bool" where
  "isERC20 L self a =
     bind_res (require (a \<noteq> 0) ''Zero address'') (\<lambda>_.
     if \<not> lg_is_contract L a then Inr False
     else Inr ((case lg_totalSupply L a of Inl _ \<Rightarrow> False | Inr _ \<Rightarrow> True) \<and> (case lg_balanceOf L a self of Inl _ \<Rightarrow> False | Inr _ \<Rightarrow> True)))"

definition requireERC20 :: "logic \<Rightarrow> address \<Rightarrow> address \<Rightarrow> revert + unit" where
  "requireERC20 L self a = bind_res (isERC20 L self a) (\<lambda>b. require b ''Not ERC20'')"

section \<open>Controllable contracts\<close>

text \<open>\<open>supportsInterface\<close> of the base, and of a contract that adds one interface; \<open>base\<close> is that of OpenZeppelin's \<open>ERC165\<close>.\<close>

definition controllable_supportsInterface :: "(interface_id \<Rightarrow> bool) \<Rightarrow> interface_id \<Rightarrow> bool" where
  "controllable_supportsInterface base interface \<longleftrightarrow> interface = I_CONTROLLABLE \<or> interface = I_TETU_ERC165 \<or> base interface"

definition controller_supportsInterface :: "(interface_id \<Rightarrow> bool) \<Rightarrow> interface_id \<Rightarrow> bool" where
  "controller_supportsInterface base interface \<longleftrightarrow> interface = I_CONTROLLER \<or> controllable_supportsInterface base interface"

definition isController :: "proxy \<Rightarrow> address \<Rightarrow> bool" where
  "isController p a \<longleftrightarrow> a = px_controller p"

definition isGovernance :: "logic \<Rightarrow> proxy \<Rightarrow> address \<Rightarrow> revert + bool" where
  "isGovernance L p a = bind_res (lg_governance L (px_controller p)) (\<lambda>g. Inr (g = a))"

text \<open>The modifier \<open>initializer\<close> of OpenZeppelin lets a call pass once.\<close>

definition initializer :: "proxy \<Rightarrow> revert + proxy" where
  "initializer p =
     bind_res (require (\<not> px_initialized p) ''Initializable: contract is already initialized'') (\<lambda>_. Inr (p\<lparr>px_initialized := True\<rparr>))"

definition Controllable_init :: "logic \<Rightarrow> uint \<Rightarrow> uint \<Rightarrow> address \<Rightarrow> proxy \<Rightarrow> revert + proxy" where
  "Controllable_init L now block controller p =
     bind_res (require (controller \<noteq> 0) ''Zero controller'') (\<lambda>_.
     bind_res (requireInterface L controller I_CONTROLLER) (\<lambda>_.
     bind_res (lg_governance L controller) (\<lambda>g.
     bind_res (require (g \<noteq> 0) ''Zero governance'') (\<lambda>_.
     Inr (p\<lparr>px_controller := controller, px_created := now, px_createdBlock := block\<rparr>)))))"

text \<open>\<open>increaseRevision\<close>, which only the contract itself may call.\<close>

definition increaseRevision :: "address \<Rightarrow> address \<Rightarrow> address \<Rightarrow> proxy \<Rightarrow> revert + proxy" where
  "increaseRevision self sender oldLogic p =
     bind_res (require (sender = self) ''Increase revision forbidden'') (\<lambda>_.
     bind_res (u_add (px_revision p) 1) (\<lambda>r.
     Inr (p\<lparr>px_revision := r, px_previousImplementation := oldLogic\<rparr>)))"

section \<open>Proxies\<close>

definition setImplementation :: "logic \<Rightarrow> address \<Rightarrow> proxy \<Rightarrow> revert + proxy" where
  "setImplementation L newImplementation p =
     bind_res (require (lg_is_contract L newImplementation) ''UpgradeableProxy: new implementation is not a contract'') (\<lambda>_.
     Inr (p\<lparr>px_implementation := newImplementation\<rparr>))"

definition initProxy :: "logic \<Rightarrow> address \<Rightarrow> proxy \<Rightarrow> revert + proxy" where
  "initProxy L newLogic p =
     bind_res (lg_supportsInterface L newLogic I_CONTROLLABLE) (\<lambda>b.
     bind_res (require b ''Proxy: Wrong implementation'') (\<lambda>_.
     bind_res (require (px_implementation p = 0) ''Already inited'') (\<lambda>_.
     setImplementation L newLogic p)))"

definition upgrade :: "logic \<Rightarrow> address \<Rightarrow> address \<Rightarrow> proxy \<Rightarrow> revert + proxy" where
  "upgrade L sender newImplementation p =
     bind_res (lg_supportsInterface L newImplementation I_CONTROLLABLE) (\<lambda>b.
     bind_res (require b ''Proxy: Wrong implementation'') (\<lambda>_.
     bind_res (lg_isController L (px_implementation p) p sender) (\<lambda>c.
     bind_res (require c ''Proxy: Forbidden'') (\<lambda>_.
     bind_res (lg_increaseRevision L (px_implementation p) p (px_implementation p)) (\<lambda>p1.
     bind_res (setImplementation L newImplementation p1) (\<lambda>p2.
     bind_res (lg_isController L newImplementation p2 sender) (\<lambda>c'.
     bind_res (require c' ''Proxy: Wrong implementation'') (\<lambda>_.
     Inr p2))))))))"

section \<open>The controller\<close>

text \<open>
  \<open>EnumerableMap\<close>: \<open>set\<close> tells whether the key was new, \<open>get\<close> reverts where there is no entry, and \<open>at\<close> lists the entries.
\<close>

record 'e enumerable_map =
  em_set :: "'e \<Rightarrow> uint \<Rightarrow> uint \<Rightarrow> bool \<times> 'e"
  em_get :: "'e \<Rightarrow> uint \<Rightarrow> revert + uint"
  em_remove :: "'e \<Rightarrow> uint \<Rightarrow> 'e"
  em_length :: "'e \<Rightarrow> uint"
  em_at :: "'e \<Rightarrow> uint \<Rightarrow> revert + uint \<times> uint"

datatype address_type = UNKNOWN | GOVERNANCE

fun type_num :: "address_type \<Rightarrow> uint" where
  "type_num UNKNOWN = 0"
| "type_num GOVERNANCE = 1"

definition TIME_LOCK :: uint where "TIME_LOCK = 172800"

record 'e governed =
  gv_self :: address
  gv_governance :: address
  gv_addressTimeLocks :: 'e
  gv_addressAnnounces :: 'e
  gv_proxyTimeLocks :: 'e
  gv_proxyAnnounces :: "address \<Rightarrow> address"
  gv_proxies :: "address \<Rightarrow> proxy"

definition onlyGovernance :: "'e governed \<Rightarrow> address \<Rightarrow> revert + unit" where
  "onlyGovernance s sender = require (sender = gv_governance s) ''DENIED''"

text \<open>A call of one of the proxies.\<close>

definition at_proxy :: "address \<Rightarrow> (proxy \<Rightarrow> revert + proxy) \<Rightarrow> 'e governed \<Rightarrow> revert + 'e governed" where
  "at_proxy a f s = bind_res (f (gv_proxies s a)) (\<lambda>p. Inr (s\<lparr>gv_proxies := (gv_proxies s)(a := p)\<rparr>))"

definition controller_init :: "logic \<Rightarrow> uint \<Rightarrow> uint \<Rightarrow> address \<Rightarrow> 'e governed \<Rightarrow> revert + 'e governed" where
  "controller_init L now block governance s =
     bind_res (at_proxy (gv_self s) initializer s) (\<lambda>s1.
     bind_res (require (governance \<noteq> 0) ''WRONG_INPUT'') (\<lambda>_.
     at_proxy (gv_self s) (Controllable_init (L\<lparr>lg_governance := (lg_governance L)(gv_self s := Inr governance)\<rparr>) now block (gv_self s))
       (s1\<lparr>gv_governance := governance\<rparr>)))"

definition announceAddressChange ::
    "'e enumerable_map \<Rightarrow> uint \<Rightarrow> address \<Rightarrow> address_type \<Rightarrow> address \<Rightarrow> 'e governed \<Rightarrow> revert + 'e governed" where
  "announceAddressChange em now sender type value s =
     bind_res (onlyGovernance s sender) (\<lambda>_.
     bind_res (require (value \<noteq> 0) ''ZERO_VALUE'') (\<lambda>_.
     let (fresh, announces) = em_set em (gv_addressAnnounces s) (type_num type) value in
     bind_res (require fresh ''ANNOUNCED'') (\<lambda>_.
     bind_res (u_add now TIME_LOCK) (\<lambda>timeLock.
     Inr (s\<lparr>gv_addressAnnounces := announces, gv_addressTimeLocks := snd (em_set em (gv_addressTimeLocks s) (type_num type) timeLock)\<rparr>)))))"

definition changeAddress :: "'e enumerable_map \<Rightarrow> uint \<Rightarrow> address \<Rightarrow> address_type \<Rightarrow> 'e governed \<Rightarrow> revert + 'e governed" where
  "changeAddress em now sender type s =
     bind_res (onlyGovernance s sender) (\<lambda>_.
     bind_res (em_get em (gv_addressAnnounces s) (type_num type)) (\<lambda>newAddress.
     bind_res (em_get em (gv_addressTimeLocks s) (type_num type)) (\<lambda>timeLock.
     bind_res (require (type = GOVERNANCE) ''UNKNOWN'') (\<lambda>_.
     let oldAddress = gv_governance s in
     bind_res (if oldAddress \<noteq> 0 then require (timeLock < now) ''LOCKED'' else Inr ()) (\<lambda>_.
     Inr (s\<lparr>gv_governance := newAddress,
            gv_addressAnnounces := em_remove em (gv_addressAnnounces s) (type_num type),
            gv_addressTimeLocks := em_remove em (gv_addressTimeLocks s) (type_num type)\<rparr>))))))"

definition removeAddressAnnounce :: "'e enumerable_map \<Rightarrow> address \<Rightarrow> address_type \<Rightarrow> 'e governed \<Rightarrow> revert + 'e governed" where
  "removeAddressAnnounce em sender type s =
     bind_res (onlyGovernance s sender) (\<lambda>_.
     Inr (s\<lparr>gv_addressAnnounces := em_remove em (gv_addressAnnounces s) (type_num type),
            gv_addressTimeLocks := em_remove em (gv_addressTimeLocks s) (type_num type)\<rparr>))"

definition announce_proxy :: "'e enumerable_map \<Rightarrow> uint \<Rightarrow> address \<times> address \<Rightarrow> 'e governed \<Rightarrow> revert + 'e governed" where
  "announce_proxy em now = (\<lambda>(proxy, implementation) s.
     bind_res (require (implementation \<noteq> 0) ''ZERO_IMPL'') (\<lambda>_.
     bind_res (u_add now TIME_LOCK) (\<lambda>timeLock.
     let (fresh, locks) = em_set em (gv_proxyTimeLocks s) proxy timeLock in
     bind_res (require fresh ''ANNOUNCED'') (\<lambda>_.
     Inr (s\<lparr>gv_proxyTimeLocks := locks, gv_proxyAnnounces := (gv_proxyAnnounces s)(proxy := implementation)\<rparr>)))))"

definition announceProxyUpgrade ::
    "'e enumerable_map \<Rightarrow> uint \<Rightarrow> address \<Rightarrow> address list \<Rightarrow> address list \<Rightarrow> 'e governed \<Rightarrow> revert + 'e governed" where
  "announceProxyUpgrade em now sender proxies implementations s =
     bind_res (onlyGovernance s sender) (\<lambda>_.
     bind_res (require (length proxies = length implementations) ''WRONG_INPUT'') (\<lambda>_.
     fold_res (announce_proxy em now) (zip proxies implementations) s))"

definition forget_proxy :: "'e enumerable_map \<Rightarrow> address \<Rightarrow> 'e governed \<Rightarrow> 'e governed" where
  "forget_proxy em proxy s =
     s\<lparr>gv_proxyTimeLocks := em_remove em (gv_proxyTimeLocks s) proxy, gv_proxyAnnounces := (gv_proxyAnnounces s)(proxy := 0)\<rparr>"

definition upgrade_one :: "'e enumerable_map \<Rightarrow> logic \<Rightarrow> uint \<Rightarrow> address \<Rightarrow> 'e governed \<Rightarrow> revert + 'e governed" where
  "upgrade_one em L now proxy s =
     bind_res (em_get em (gv_proxyTimeLocks s) proxy) (\<lambda>timeLock.
     bind_res (require (timeLock < now) ''LOCKED'') (\<lambda>_.
     bind_res (at_proxy proxy (upgrade L (gv_self s) (gv_proxyAnnounces s proxy)) s) (\<lambda>s1.
     Inr (forget_proxy em proxy s1))))"

definition upgradeProxy :: "'e enumerable_map \<Rightarrow> logic \<Rightarrow> uint \<Rightarrow> address \<Rightarrow> address list \<Rightarrow> 'e governed \<Rightarrow> revert + 'e governed" where
  "upgradeProxy em L now sender proxies s =
     bind_res (onlyGovernance s sender) (\<lambda>_. fold_res (upgrade_one em L now) proxies s)"

definition removeProxyAnnounce :: "'e enumerable_map \<Rightarrow> address \<Rightarrow> address \<Rightarrow> 'e governed \<Rightarrow> revert + 'e governed" where
  "removeProxyAnnounce em sender proxy s =
     bind_res (onlyGovernance s sender) (\<lambda>_. Inr (forget_proxy em proxy s))"

text \<open>The lists of what is announced.\<close>

fun map_entries :: "'e enumerable_map \<Rightarrow> 'e \<Rightarrow> (uint \<Rightarrow> revert + address) \<Rightarrow> uint \<Rightarrow> uint \<Rightarrow> revert + (uint \<times> address \<times> uint) list" where
  "map_entries em e value i 0 = Inr []"
| "map_entries em e value i (Suc n) =
     bind_res (em_at em e i) (\<lambda>(k, timeLock).
     bind_res (value k) (\<lambda>v.
     bind_res (map_entries em e value (i + 1) n) (\<lambda>rest. Inr ((k, v, timeLock) # rest))))"

definition addressAnnouncesList :: "'e enumerable_map \<Rightarrow> 'e governed \<Rightarrow> revert + (uint \<times> address \<times> uint) list" where
  "addressAnnouncesList em s =
     map_entries em (gv_addressTimeLocks s) (em_get em (gv_addressAnnounces s)) 0 (em_length em (gv_addressTimeLocks s))"

definition proxyAnnouncesList :: "'e enumerable_map \<Rightarrow> 'e governed \<Rightarrow> revert + (uint \<times> address \<times> uint) list" where
  "proxyAnnouncesList em s =
     map_entries em (gv_proxyTimeLocks s) (\<lambda>k. Inr (gv_proxyAnnounces s k)) 0 (em_length em (gv_proxyTimeLocks s))"

section \<open>Runs\<close>

datatype governance_call =
    ControllerInit address
  | AnnounceAddressChange address_type address
  | ChangeAddress address_type
  | RemoveAddressAnnounce address_type
  | AnnounceProxyUpgrade "address list" "address list"
  | UpgradeProxy "address list"
  | RemoveProxyAnnounce address
  | InitProxy address address
  | Upgrade address address
  | InitControllable address address

fun gov_perform :: "'e enumerable_map \<Rightarrow> logic \<Rightarrow> uint \<Rightarrow> uint \<Rightarrow> address \<Rightarrow> governance_call \<Rightarrow> 'e governed \<Rightarrow> revert + 'e governed" where
  "gov_perform em L now block sender (ControllerInit governance) = controller_init L now block governance"
| "gov_perform em L now block sender (AnnounceAddressChange type value) = announceAddressChange em now sender type value"
| "gov_perform em L now block sender (ChangeAddress type) = changeAddress em now sender type"
| "gov_perform em L now block sender (RemoveAddressAnnounce type) = removeAddressAnnounce em sender type"
| "gov_perform em L now block sender (AnnounceProxyUpgrade proxies implementations) = announceProxyUpgrade em now sender proxies implementations"
| "gov_perform em L now block sender (UpgradeProxy proxies) = upgradeProxy em L now sender proxies"
| "gov_perform em L now block sender (RemoveProxyAnnounce proxy) = removeProxyAnnounce em sender proxy"
| "gov_perform em L now block sender (InitProxy proxy newLogic) = at_proxy proxy (initProxy L newLogic)"
| "gov_perform em L now block sender (Upgrade proxy implementation) = at_proxy proxy (upgrade L sender implementation)"
| "gov_perform em L now block sender (InitControllable proxy controller) =
     at_proxy proxy (\<lambda>p. bind_res (initializer p) (Controllable_init L now block controller))"

text \<open>
  The calls that returned, with their times and callers, in whatever order they were made. The controller itself calls a
  proxy only in \<open>upgradeProxy\<close>.
\<close>

inductive gov_run :: "'e enumerable_map \<Rightarrow> logic \<Rightarrow> 'e governed \<Rightarrow> (uint \<times> address \<times> governance_call) list \<Rightarrow> 'e governed \<Rightarrow> bool"
  for em L s0 where
  start: "gov_run em L s0 [] s0"
| call: "gov_run em L s0 calls s \<Longrightarrow> sender \<noteq> gv_self s \<Longrightarrow> gov_perform em L now block sender c s = Inr s'
    \<Longrightarrow> gov_run em L s0 (calls @ [(now, sender, c)]) s'"

text \<open>The documented behaviour of the map: \<open>set\<close>, \<open>get\<close> and \<open>remove\<close> of one key leave the others alone.\<close>

definition enumerates :: "'e enumerable_map \<Rightarrow> bool" where
  "enumerates em \<longleftrightarrow>
     (\<forall>e k v b e'. em_set em e k v = (b, e') \<longrightarrow> (b \<longleftrightarrow> (\<forall>x. em_get em e k \<noteq> Inr x))
        \<and> (\<forall>k'. em_get em e' k' = (if k' = k then Inr v else em_get em e k')))
     \<and> (\<forall>e k x. em_get em (em_remove em e k) k \<noteq> Inr x)
     \<and> (\<forall>e k k'. k' \<noteq> k \<longrightarrow> em_get em (em_remove em e k) k' = em_get em e k')"

text \<open>An implementation that says that it is controllable has the functions of \<open>ControllableV3\<close>.\<close>

definition controllable_logic :: "logic \<Rightarrow> bool" where
  "controllable_logic L \<longleftrightarrow> \<not> lg_is_contract L 0
     \<and> (\<forall>impl. lg_supportsInterface L impl I_CONTROLLABLE = Inr True \<longrightarrow>
          (\<forall>p a. lg_isController L impl p a = Inr (isController p a))
          \<and> (\<forall>p old. lg_increaseRevision L impl p old = increaseRevision impl impl old p))"

definition nothing_announced :: "'e enumerable_map \<Rightarrow> 'e governed \<Rightarrow> bool" where
  "nothing_announced em s \<longleftrightarrow>
     (\<forall>k x. em_get em (gv_addressTimeLocks s) k \<noteq> Inr x \<and> em_get em (gv_addressAnnounces s) k \<noteq> Inr x \<and> em_get em (gv_proxyTimeLocks s) k \<noteq> Inr x)"

lemma enumeratesD:
  assumes "enumerates em"
  shows "em_set em e k v = (b, e') \<Longrightarrow> em_get em e' k' = (if k' = k then Inr v else em_get em e k')"
    and "em_get em (snd (em_set em e k v)) k' = (if k' = k then Inr v else em_get em e k')"
    and "em_get em (em_remove em e k) k' = Inr x \<Longrightarrow> k' \<noteq> k \<and> em_get em e k' = Inr x"
  using assms unfolding enumerates_def by (blast, metis prod.collapse, metis)

text \<open>A new implementation for a proxy was announced two days before \<open>now\<close>, and the same for a new governance.\<close>

definition upgrade_announced :: "(uint \<times> address \<times> governance_call) list \<Rightarrow> address \<Rightarrow> address \<Rightarrow> uint \<Rightarrow> bool" where
  "upgrade_announced calls proxy implementation t \<longleftrightarrow>
     (\<exists>ta a proxies implementations. (ta, a, AnnounceProxyUpgrade proxies implementations) \<in> set calls
        \<and> (proxy, implementation) \<in> set (zip proxies implementations) \<and> t = ta + TIME_LOCK)"

definition governance_announced :: "(uint \<times> address \<times> governance_call) list \<Rightarrow> address \<Rightarrow> uint \<Rightarrow> bool" where
  "governance_announced calls value t \<longleftrightarrow>
     (\<exists>ta a. (ta, a, AnnounceAddressChange GOVERNANCE value) \<in> set calls \<and> t = ta + TIME_LOCK)"

definition locks_announced :: "'e enumerable_map \<Rightarrow> (uint \<times> address \<times> governance_call) list \<Rightarrow> 'e governed \<Rightarrow> bool" where
  "locks_announced em calls s \<longleftrightarrow>
     (\<forall>v t. em_get em (gv_addressAnnounces s) 1 = Inr v \<longrightarrow> em_get em (gv_addressTimeLocks s) 1 = Inr t \<longrightarrow> governance_announced calls v t)
     \<and> (\<forall>p t. em_get em (gv_proxyTimeLocks s) p = Inr t \<longrightarrow> upgrade_announced calls p (gv_proxyAnnounces s p) t)"

lemma announced_more:
  "upgrade_announced calls p i t \<Longrightarrow> upgrade_announced (calls @ later) p i t"
  "governance_announced calls v t \<Longrightarrow> governance_announced (calls @ later) v t"
  by (auto simp: upgrade_announced_def governance_announced_def)

lemma locks_announced_more: "locks_announced em calls s \<Longrightarrow> locks_announced em (calls @ later) s"
  by (auto simp: locks_announced_def intro: announced_more)

lemma locks_announced_same:
  "locks_announced em calls s \<Longrightarrow> gv_addressAnnounces s' = gv_addressAnnounces s \<Longrightarrow> gv_addressTimeLocks s' = gv_addressTimeLocks s
    \<Longrightarrow> gv_proxyTimeLocks s' = gv_proxyTimeLocks s \<Longrightarrow> gv_proxyAnnounces s' = gv_proxyAnnounces s \<Longrightarrow> locks_announced em calls s'"
  by (simp add: locks_announced_def)

lemma at_proxy_returns:
  "at_proxy a f s = Inr s' \<longleftrightarrow> (\<exists>p. f (gv_proxies s a) = Inr p \<and> s' = s\<lparr>gv_proxies := (gv_proxies s)(a := p)\<rparr>)"
  by (auto simp: at_proxy_def bind_res_eq_Inr)

lemma locks_announced_forget:
  assumes "enumerates em" and "locks_announced em calls s"
  shows "locks_announced em calls (forget_proxy em p s)"
  using assms(2) unfolding locks_announced_def forget_proxy_def
  by (auto dest!: enumeratesD(3) [OF assms(1)])

lemma locks_announced_announce:
  assumes "enumerates em" and "locks_announced em calls s" and "announce_proxy em now x s = Inr s'"
    and "(now, a, AnnounceProxyUpgrade proxies implementations) \<in> set calls" and "x \<in> set (zip proxies implementations)"
  shows "locks_announced em calls s'"
proof -
  obtain p i where x: "x = (p, i)" by (cases x)
  with assms(3) obtain locks where locks: "em_set em (gv_proxyTimeLocks s) p (now + TIME_LOCK) = (True, locks)"
      and s': "s' = s\<lparr>gv_proxyTimeLocks := locks, gv_proxyAnnounces := (gv_proxyAnnounces s)(p := i)\<rparr>"
    by (auto simp: announce_proxy_def bind_res_eq_Inr checked_Inr split: prod.splits if_splits)
  have "upgrade_announced calls p i (now + TIME_LOCK)" using assms(4,5) x unfolding upgrade_announced_def by blast
  then show ?thesis
    using assms(2) by (auto simp: locks_announced_def s' enumeratesD(1) [OF assms(1) locks] split: if_splits)
qed

lemma locks_announced_upgrade:
  assumes "enumerates em" and "locks_announced em calls s" and "upgrade_one em L now p s = Inr s'"
  shows "locks_announced em calls s'"
proof -
  obtain q where "s' = forget_proxy em p (s\<lparr>gv_proxies := (gv_proxies s)(p := q)\<rparr>)"
    using assms(3) by (auto simp: upgrade_one_def bind_res_eq_Inr at_proxy_returns split: if_splits)
  moreover have "locks_announced em calls (s\<lparr>gv_proxies := (gv_proxies s)(p := q)\<rparr>)"
    by (rule locks_announced_same [OF assms(2)]) simp_all
  ultimately show ?thesis using locks_announced_forget [OF assms(1)] by simp
qed

lemma locks_announced_addresses:
  assumes "enumerates em" and "locks_announced em calls s"
  shows "announceAddressChange em now sender type v s = Inr s' \<Longrightarrow> locks_announced em (calls @ [(now, sender, AnnounceAddressChange type v)]) s'"
    and "changeAddress em now sender type s = Inr s' \<Longrightarrow> locks_announced em calls s'"
    and "removeAddressAnnounce em sender type s = Inr s' \<Longrightarrow> locks_announced em calls s'"
proof -
  assume "announceAddressChange em now sender type v s = Inr s'"
  then obtain announces where a: "em_set em (gv_addressAnnounces s) (type_num type) v = (True, announces)"
      and s': "s' = s\<lparr>gv_addressAnnounces := announces,
        gv_addressTimeLocks := snd (em_set em (gv_addressTimeLocks s) (type_num type) (now + TIME_LOCK))\<rparr>"
    by (auto simp: announceAddressChange_def bind_res_eq_Inr checked_Inr split: prod.splits if_splits)
  have "governance_announced (calls @ [(now, sender, AnnounceAddressChange type v)]) v (now + TIME_LOCK)" if "type_num type = 1"
    using that by (cases type) (auto simp: governance_announced_def)
  then show "locks_announced em (calls @ [(now, sender, AnnounceAddressChange type v)]) s'"
    using assms(2)
    by (auto simp: locks_announced_def s' enumeratesD(1) [OF assms(1) a] enumeratesD(2) [OF assms(1)] intro: announced_more split: if_splits)
next
  assume "changeAddress em now sender type s = Inr s'"
  then show "locks_announced em calls s'"
    using assms(2)
    by (auto simp: changeAddress_def bind_res_eq_Inr Let_def locks_announced_def dest!: enumeratesD(3) [OF assms(1)] split: if_splits)
next
  assume "removeAddressAnnounce em sender type s = Inr s'"
  then show "locks_announced em calls s'"
    using assms(2)
    by (auto simp: removeAddressAnnounce_def bind_res_eq_Inr locks_announced_def dest!: enumeratesD(3) [OF assms(1)])
qed

lemma locks_announced_perform:
  assumes em: "enumerates em" and "locks_announced em calls s" and "gov_perform em L now block sender c s = Inr s'"
  shows "locks_announced em (calls @ [(now, sender, c)]) s'"
proof (cases c)
  case (AnnounceAddressChange type v)
  then show ?thesis using assms locks_announced_addresses(1) by simp
next
  case (AnnounceProxyUpgrade ps "is")
  then have "fold_res (announce_proxy em now) (zip ps is) s = Inr s'"
    using assms(3) by (auto simp: announceProxyUpgrade_def onlyGovernance_def bind_res_eq_Inr split: if_splits)
  then show ?thesis
  proof (rule fold_res_invariant)
    show "locks_announced em (calls @ [(now, sender, c)]) s" using assms(2) by (rule locks_announced_more)
  qed (use AnnounceProxyUpgrade in \<open>auto intro: locks_announced_announce [OF em]\<close>)
next
  case (UpgradeProxy ps)
  then have "fold_res (upgrade_one em L now) ps s = Inr s'"
    using assms(3) by (auto simp: upgradeProxy_def onlyGovernance_def bind_res_eq_Inr split: if_splits)
  then show ?thesis
  proof (rule fold_res_invariant)
    show "locks_announced em (calls @ [(now, sender, c)]) s" using assms(2) by (rule locks_announced_more)
  qed (auto intro: locks_announced_upgrade [OF em])
qed (use assms in \<open>auto simp: controller_init_def at_proxy_returns bind_res_eq_Inr removeProxyAnnounce_def onlyGovernance_def
      intro: locks_announced_more locks_announced_forget [OF em] locks_announced_addresses(2,3) [OF em] locks_announced_same split: if_splits\<close>)

lemma run_locks_announced:
  assumes "enumerates em" and "gov_run em L s0 calls s" and "nothing_announced em s0"
  shows "locks_announced em calls s"
  using assms(2)
proof induction
  case start
  then show ?case using assms(3) by (auto simp: nothing_announced_def locks_announced_def)
next
  case (call calls s sender now block c s')
  then show ?case using locks_announced_perform [OF assms(1)] by blast
qed

section \<open>The governance\<close>

lemma upgrade_one_governance: "upgrade_one em L now p s = Inr s' \<Longrightarrow> gv_governance s' = gv_governance s \<and> gv_self s' = gv_self s"
  by (auto simp: upgrade_one_def forget_proxy_def bind_res_eq_Inr at_proxy_returns split: if_splits)

lemma announce_proxy_governance:
  "announce_proxy em now x s = Inr s' \<Longrightarrow> gv_governance s' = gv_governance s \<and> gv_self s' = gv_self s \<and> gv_proxies s' = gv_proxies s"
  by (auto simp: announce_proxy_def bind_res_eq_Inr case_prod_unfold Let_def split: if_splits)

lemma batch_governance:
  "upgradeProxy em L now sender ps s = Inr s' \<Longrightarrow> gv_governance s' = gv_governance s \<and> gv_self s' = gv_self s"
  "announceProxyUpgrade em now sender ps is s = Inr s' \<Longrightarrow> gv_governance s' = gv_governance s \<and> gv_self s' = gv_self s \<and> gv_proxies s' = gv_proxies s"
  by (auto simp: upgradeProxy_def announceProxyUpgrade_def onlyGovernance_def bind_res_eq_Inr dest!: upgrade_one_governance announce_proxy_governance
      elim!: fold_res_invariant [where I = "\<lambda>x. gv_governance x = gv_governance s \<and> gv_self x = gv_self s"]
        fold_res_invariant [where I = "\<lambda>x. gv_governance x = gv_governance s \<and> gv_self x = gv_self s \<and> gv_proxies x = gv_proxies s"]
      split: if_splits)

lemma perform_governance:
  assumes "gov_perform em L now block sender c s = Inr s'" and "px_initialized (gv_proxies s (gv_self s))" and "gv_governance s' \<noteq> gv_governance s"
  shows "c = ChangeAddress GOVERNANCE"
  using assms
  by (cases c)
    (auto simp: controller_init_def initializer_def changeAddress_def announceAddressChange_def removeAddressAnnounce_def removeProxyAnnounce_def
      forget_proxy_def onlyGovernance_def Let_def bind_res_eq_Inr at_proxy_returns dest: batch_governance split: if_splits prod.splits)

text \<open>
  C13. A new governance waits. Whatever has been called since a state in which nothing was announced: a call that
  changes the governance of an initialised controller comes from the present governance, and the new one was
  announced more than two days before.
\<close>

theorem governance_changes_wait:
  assumes "enumerates em" and "nothing_announced em s0" and "gov_run em L s0 calls s"
    and "gov_perform em L now block sender c s = Inr s'" and "gv_governance s' \<noteq> gv_governance s"
    and "px_initialized (gv_proxies s (gv_self s))" and "gv_governance s \<noteq> 0"
  shows "sender = gv_governance s \<and> (\<exists>ta a. (ta, a, AnnounceAddressChange GOVERNANCE (gv_governance s')) \<in> set calls \<and> ta + 172800 < now)"
proof -
  have "changeAddress em now sender GOVERNANCE s = Inr s'" using perform_governance [OF assms(4,6,5)] assms(4) by simp
  then obtain t where "sender = gv_governance s" "em_get em (gv_addressAnnounces s) 1 = Inr (gv_governance s')"
      "em_get em (gv_addressTimeLocks s) 1 = Inr t" "t < now"
    using assms(7) by (auto simp: changeAddress_def onlyGovernance_def Let_def bind_res_eq_Inr split: if_splits)
  moreover have "locks_announced em calls s" using assms(1,3,2) by (rule run_locks_announced)
  ultimately show ?thesis unfolding locks_announced_def governance_announced_def TIME_LOCK_def by blast
qed

section \<open>Upgrades\<close>

text \<open>The proxy runs a controllable implementation and has the controller as its controller.\<close>

definition in_charge :: "logic \<Rightarrow> 'e governed \<Rightarrow> address \<Rightarrow> bool" where
  "in_charge L s p \<longleftrightarrow> px_initialized (gv_proxies s p) \<and> px_controller (gv_proxies s p) = gv_self s
     \<and> lg_is_contract L (px_implementation (gv_proxies s p)) \<and> lg_supportsInterface L (px_implementation (gv_proxies s p)) I_CONTROLLABLE = Inr True"

lemma in_charge_same: "in_charge L s p \<Longrightarrow> gv_proxies s' p = gv_proxies s p \<Longrightarrow> gv_self s' = gv_self s \<Longrightarrow> in_charge L s' p"
  by (simp add: in_charge_def)

lemma upgrade_effect:
  assumes "upgrade L sender impl q = Inr q'" and "controllable_logic L" and "lg_supportsInterface L (px_implementation q) I_CONTROLLABLE = Inr True"
  shows "sender = px_controller q" and "px_implementation q' = impl" and "px_controller q' = px_controller q" and "px_initialized q' = px_initialized q"
    and "lg_is_contract L impl" and "lg_supportsInterface L impl I_CONTROLLABLE = Inr True"
  using assms
  by (auto simp: upgrade_def setImplementation_def controllable_logic_def isController_def increaseRevision_def bind_res_eq_Inr checked_Inr split: if_splits)

lemma upgrade_one_effect:
  assumes "upgrade_one em L now q s = Inr s'" and "controllable_logic L" and "in_charge L s p"
  shows "in_charge L s' p"
    and "px_implementation (gv_proxies s' p) = px_implementation (gv_proxies s p)
      \<or> q = p \<and> px_implementation (gv_proxies s' p) = gv_proxyAnnounces s p \<and> (\<exists>t<now. em_get em (gv_proxyTimeLocks s) p = Inr t)"
proof -
  obtain t q' where t: "em_get em (gv_proxyTimeLocks s) q = Inr t" "t < now"
      and q': "upgrade L (gv_self s) (gv_proxyAnnounces s q) (gv_proxies s q) = Inr q'"
      and s': "s' = forget_proxy em q (s\<lparr>gv_proxies := (gv_proxies s)(q := q')\<rparr>)"
    using assms(1) by (auto simp: upgrade_one_def bind_res_eq_Inr at_proxy_returns split: if_splits)
  have "lg_supportsInterface L (px_implementation (gv_proxies s p)) I_CONTROLLABLE = Inr True" using assms(3) by (simp add: in_charge_def)
  then have "q = p \<Longrightarrow> px_implementation q' = gv_proxyAnnounces s p \<and> px_controller q' = px_controller (gv_proxies s p)
      \<and> px_initialized q' = px_initialized (gv_proxies s p)
      \<and> lg_is_contract L (px_implementation q') \<and> lg_supportsInterface L (px_implementation q') I_CONTROLLABLE = Inr True"
    using upgrade_effect [OF q' assms(2)] by simp
  then show "in_charge L s' p" and "px_implementation (gv_proxies s' p) = px_implementation (gv_proxies s p)
      \<or> q = p \<and> px_implementation (gv_proxies s' p) = gv_proxyAnnounces s p \<and> (\<exists>t<now. em_get em (gv_proxyTimeLocks s) p = Inr t)"
    using t assms(3) by (auto simp: s' forget_proxy_def in_charge_def)
qed

text \<open>No other call replaces the implementation.\<close>

lemma perform_in_charge:
  assumes "gov_perform em L now block sender c s = Inr s'" and "controllable_logic L" and "in_charge L s p" and "sender \<noteq> gv_self s"
    and "\<And>ps. c \<noteq> UpgradeProxy ps"
  shows "gv_proxies s' p = gv_proxies s p" and "gv_self s' = gv_self s"
proof -
  have p: "px_initialized (gv_proxies s p)" "px_controller (gv_proxies s p) = gv_self s" "px_implementation (gv_proxies s p) \<noteq> 0"
      "lg_supportsInterface L (px_implementation (gv_proxies s p)) I_CONTROLLABLE = Inr True"
    using assms(2,3) unfolding in_charge_def controllable_logic_def by metis+
  have "upgrade L sender impl (gv_proxies s p) \<noteq> Inr q" for impl q
    using upgrade_effect(1) [OF _ assms(2) p(4)] p(2) assms(4) by auto
  then have "gv_proxies s' p = gv_proxies s p \<and> gv_self s' = gv_self s"
    using assms(1,5) p(1,3)
    by (cases c)
      (auto simp: controller_init_def initializer_def changeAddress_def announceAddressChange_def removeAddressAnnounce_def removeProxyAnnounce_def
        initProxy_def forget_proxy_def onlyGovernance_def Let_def bind_res_eq_Inr at_proxy_returns dest: batch_governance split: if_splits prod.splits)
  then show "gv_proxies s' p = gv_proxies s p" and "gv_self s' = gv_self s" by simp_all
qed

lemma upgradeProxy_effect:
  assumes "upgradeProxy em L now sender ps s = Inr s'" and "enumerates em" and "controllable_logic L" and "in_charge L s p" and "locks_announced em calls s"
  shows "in_charge L s' p" and "sender = gv_governance s"
    and "px_implementation (gv_proxies s' p) = px_implementation (gv_proxies s p)
      \<or> (\<exists>t<now. upgrade_announced calls p (px_implementation (gv_proxies s' p)) t)"
proof -
  have fold: "fold_res (upgrade_one em L now) ps s = Inr s'" and "sender = gv_governance s"
    using assms(1) by (auto simp: upgradeProxy_def onlyGovernance_def bind_res_eq_Inr split: if_splits)
  then show "sender = gv_governance s" by simp
  let ?I = "\<lambda>x. locks_announced em calls x \<and> in_charge L x p
    \<and> (px_implementation (gv_proxies x p) = px_implementation (gv_proxies s p)
      \<or> (\<exists>t<now. upgrade_announced calls p (px_implementation (gv_proxies x p)) t))"
  have "?I s'"
  proof (rule fold_res_invariant [OF fold, where I = ?I])
    fix q x x'
    assume x: "?I x" and one: "upgrade_one em L now q x = Inr x'"
    have "px_implementation (gv_proxies x' p) = gv_proxyAnnounces x p \<and> em_get em (gv_proxyTimeLocks x) p = Inr t
        \<Longrightarrow> upgrade_announced calls p (px_implementation (gv_proxies x' p)) t" for t
      using x unfolding locks_announced_def by auto
    then show "?I x'"
      using locks_announced_upgrade [OF assms(2) _ one] upgrade_one_effect [OF one assms(3), of p] x by metis
  qed (use assms in simp)
  then show "in_charge L s' p" and "px_implementation (gv_proxies s' p) = px_implementation (gv_proxies s p)
      \<or> (\<exists>t<now. upgrade_announced calls p (px_implementation (gv_proxies s' p)) t)"
    by blast+
qed

lemma run_in_charge:
  assumes "gov_run em L s0 calls s" and "enumerates em" and "nothing_announced em s0" and "controllable_logic L" and "in_charge L s0 p"
  shows "in_charge L s p"
  using assms(1)
proof induction
  case (call calls s sender now block c s')
  show ?case
  proof (cases "\<exists>ps. c = UpgradeProxy ps")
    case True
    then obtain ps where "upgradeProxy em L now sender ps s = Inr s'" using call by auto
    then show ?thesis using upgradeProxy_effect(1) [OF _ assms(2,4) call.IH run_locks_announced [OF assms(2) call.hyps(1) assms(3)]] by blast
  next
    case False
    then show ?thesis using perform_in_charge [OF call.hyps(3) assms(4) call.IH call.hyps(2)] in_charge_same [OF call.IH] by blast
  qed
qed (rule assms)

text \<open>
  C12. Upgrades wait. Let a proxy run a controllable implementation, with the controller as its controller, in a state in
  which nothing was announced. Whatever anybody calls afterwards, a call that replaces the implementation comes
  from the governance, and the new implementation was announced for this proxy more than two days before.
\<close>

theorem upgrades_wait:
  assumes "enumerates em" and "nothing_announced em s0" and "controllable_logic L" and "in_charge L s0 p" and "gov_run em L s0 calls s"
    and "gov_perform em L now block sender c s = Inr s'" and "sender \<noteq> gv_self s"
    and "px_implementation (gv_proxies s' p) \<noteq> px_implementation (gv_proxies s p)"
  shows "sender = gv_governance s
    \<and> (\<exists>ta a proxies implementations. (ta, a, AnnounceProxyUpgrade proxies implementations) \<in> set calls
        \<and> (p, px_implementation (gv_proxies s' p)) \<in> set (zip proxies implementations) \<and> ta + 172800 < now)"
proof -
  have s: "in_charge L s p" using assms(5,1,2,3,4) by (rule run_in_charge)
  obtain ps where "upgradeProxy em L now sender ps s = Inr s'"
    using perform_in_charge(1) [OF assms(6,3) s assms(7)] assms(6,8) by fastforce
  from upgradeProxy_effect(2,3) [OF this assms(1,3) s run_locks_announced [OF assms(1,5,2)]] assms(8)
  show ?thesis unfolding upgrade_announced_def TIME_LOCK_def by blast
qed

section \<open>A controller and a proxy\<close>

text \<open>A map that is a list of pairs.\<close>

definition alist_map :: "(uint \<times> uint) list enumerable_map" where
  "alist_map =
     \<lparr>em_set = (\<lambda>e k v. (map_of e k = None, (k, v) # filter (\<lambda>x. fst x \<noteq> k) e)),
      em_get = (\<lambda>e k. case map_of e k of None \<Rightarrow> Inl (Revert ''EnumerableMap: nonexistent key'') | Some v \<Rightarrow> Inr v),
      em_remove = (\<lambda>e k. filter (\<lambda>x. fst x \<noteq> k) e), em_length = length,
      em_at = (\<lambda>e i. if i < length e then Inr (e ! i) else Inl Panic)\<rparr>"

lemma alist_map_enumerates: "enumerates alist_map"
proof -
  have del: "map_of (filter (\<lambda>x. fst x \<noteq> k) e) k' = (if k' = k then None else map_of e k')" for e :: "(uint \<times> uint) list" and k k'
    by (induction e) auto
  show ?thesis by (auto simp: enumerates_def alist_map_def del split: option.splits)
qed

text \<open>The controller 1 and the governance 2; the proxy 3 runs the implementation 4, and 5 and 6 are further implementations.\<close>

definition sample_logic :: logic where
  "sample_logic =
     \<lparr>lg_is_contract = (\<lambda>a. a \<in> {1, 3, 4, 5, 6}), lg_supportsInterface = (\<lambda>a i. Inr (a \<in> {4, 5, 6} \<and> i = I_CONTROLLABLE)),
      lg_governance = (\<lambda>a. Inr 2), lg_totalSupply = (\<lambda>a. Inl Panic), lg_balanceOf = (\<lambda>a b. Inl Panic),
      lg_isController = (\<lambda>impl p a. Inr (isController p a)), lg_increaseRevision = (\<lambda>impl p old. increaseRevision impl impl old p)\<rparr>"

definition sample_governed :: "(uint \<times> uint) list governed" where
  "sample_governed =
     \<lparr>gv_self = 1, gv_governance = 2, gv_addressTimeLocks = [], gv_addressAnnounces = [], gv_proxyTimeLocks = [], gv_proxyAnnounces = (\<lambda>_. 0),
      gv_proxies = (\<lambda>_. \<lparr>px_implementation = 4, px_initialized = True, px_controller = 1, px_created = 0, px_createdBlock = 0,
        px_revision = 0, px_previousImplementation = 0\<rparr>)\<rparr>"

lemmas run_governance = announceProxyUpgrade_def announce_proxy_def upgradeProxy_def upgrade_one_def upgrade_def setImplementation_def at_proxy_def
  forget_proxy_def onlyGovernance_def announceAddressChange_def changeAddress_def isController_def increaseRevision_def u_add_def uint_max_def TIME_LOCK_def
  sample_logic_def sample_governed_def alist_map_def

lemma sample_conditions:
  "nothing_announced alist_map sample_governed" "controllable_logic sample_logic" "in_charge sample_logic sample_governed 3"
  by (auto simp: nothing_announced_def controllable_logic_def in_charge_def sample_governed_def sample_logic_def alist_map_def)

lemma sample_first_call:
  assumes "gov_perform alist_map sample_logic now 0 2 c sample_governed = Inr s"
  shows "gov_run alist_map sample_logic sample_governed [(now, 2, c)] s"
  using gov_run.call [OF gov_run.start _ assms] by (simp add: sample_governed_def)

theorem upgrades_wait_witness:
  "\<exists>s s'. gov_run alist_map sample_logic sample_governed [(1000, 2, AnnounceProxyUpgrade [3] [5])] s
     \<and> gov_perform alist_map sample_logic 173801 0 2 (UpgradeProxy [3]) s = Inr s' \<and> px_implementation (gv_proxies s' 3) = 5
     \<and> (\<exists>ta a proxies implementations. (ta, a, AnnounceProxyUpgrade proxies implementations) \<in> set [(1000::nat, 2::nat, AnnounceProxyUpgrade [3] [5])]
        \<and> (3, 5) \<in> set (zip proxies implementations) \<and> ta + 172800 < 173801)"
proof -
  obtain s where s: "gov_perform alist_map sample_logic 1000 0 2 (AnnounceProxyUpgrade [3] [5]) sample_governed = Inr s"
    by (simp add: run_governance)
  from s obtain s' where s': "gov_perform alist_map sample_logic 173801 0 2 (UpgradeProxy [3]) s = Inr s'"
      "px_implementation (gv_proxies s' 3) = 5" "px_implementation (gv_proxies s 3) = 4" "gv_self s = 1"
    by (auto simp: run_governance)
  from sample_first_call [OF s] show ?thesis
    using upgrades_wait [OF alist_map_enumerates sample_conditions _ s'(1)] s s' by auto
qed

theorem governance_changes_wait_witness:
  "\<exists>s s'. gov_run alist_map sample_logic sample_governed [(1000, 2, AnnounceAddressChange GOVERNANCE 7)] s
     \<and> gov_perform alist_map sample_logic 173801 0 2 (ChangeAddress GOVERNANCE) s = Inr s' \<and> gv_governance s' = 7 \<and> gv_governance s = 2
     \<and> (\<exists>ta a. (ta, a, AnnounceAddressChange GOVERNANCE 7) \<in> set [(1000::nat, 2::nat, AnnounceAddressChange GOVERNANCE 7)] \<and> ta + 172800 < 173801)"
proof -
  obtain s where s: "gov_perform alist_map sample_logic 1000 0 2 (AnnounceAddressChange GOVERNANCE 7) sample_governed = Inr s"
    by (simp add: run_governance)
  from s obtain s' where s': "gov_perform alist_map sample_logic 173801 0 2 (ChangeAddress GOVERNANCE) s = Inr s'"
      "gv_governance s' = 7" "gv_governance s = 2" "px_initialized (gv_proxies s (gv_self s))"
    by (auto simp: run_governance)
  from sample_first_call [OF s] show ?thesis
    using governance_changes_wait [OF alist_map_enumerates sample_conditions(1) _ s'(1)] s' by auto
qed

end
