(* ===== verification/Voting_Escrow.thy ===== *)
theory Voting_Escrow
  imports Governance
begin

text \<open>
  The voting escrow (\<open>contracts/Ve.sol\<close>): tokens are locked in NFTs until the end of a week, and a lock has a voting
  power that falls linearly to zero at its end. The theory holds the state and every operation, with the fixed point
  division of \<open>contracts/dependencies/FixedPointMathLib.sol\<close> and the checked arithmetic on \<open>int128\<close>. The staked tokens are
  other contracts; the answer of a receiving contract to \<open>onERC721Received\<close> is a parameter, and the contract is taken not
  to be called again in the middle of a call. Events and the picture of \<open>tokenURI\<close> are not modelled.
\<close>

section \<open>Numbers\<close>

definition mulDivDown :: "uint \<Rightarrow> uint \<Rightarrow> uint \<Rightarrow> revert + uint" where
  "mulDivDown x y denominator = (if denominator \<noteq> 0 \<and> x * y \<le> uint_max then Inr (x * y div denominator) else Inl (Revert ''''))"

definition mulDivUp :: "uint \<Rightarrow> uint \<Rightarrow> uint \<Rightarrow> revert + uint" where
  "mulDivUp x y denominator =
     (if denominator \<noteq> 0 \<and> x * y \<le> uint_max then Inr (if x * y = 0 then 0 else (x * y - 1) div denominator + 1) else Inl (Revert ''''))"

definition WAD :: uint where "WAD = 10 ^ 18"

definition divWadDown :: "uint \<Rightarrow> uint \<Rightarrow> revert + uint" where "divWadDown x y = mulDivDown x WAD y"
definition divWadUp :: "uint \<Rightarrow> uint \<Rightarrow> revert + uint" where "divWadUp x y = mulDivUp x WAD y"

text \<open>An \<open>int128\<close> is an integer; an operation whose result does not fit reverts, and a conversion wraps around.\<close>

type_synonym int128 = int

definition fits_int128 :: "int \<Rightarrow> bool" where
  "fits_int128 x \<longleftrightarrow> - (2 ^ 127) \<le> x \<and> x < 2 ^ 127"

definition checked_int128 :: "int \<Rightarrow> revert + int128" where
  "checked_int128 x = (if fits_int128 x then Inr x else Inl Panic)"

definition i_add :: "int128 \<Rightarrow> int128 \<Rightarrow> revert + int128" where "i_add a b = checked_int128 (a + b)"
definition i_sub :: "int128 \<Rightarrow> int128 \<Rightarrow> revert + int128" where "i_sub a b = checked_int128 (a - b)"
definition i_mul :: "int128 \<Rightarrow> int128 \<Rightarrow> revert + int128" where "i_mul a b = checked_int128 (a * b)"

text \<open>\<open>int128(int256(n))\<close>, which is also \<open>int128(uint128(n))\<close>.\<close>

definition to_int128 :: "uint \<Rightarrow> int128" where
  "to_int128 n = (int n + 2 ^ 127) mod 2 ^ 128 - 2 ^ 127"

text \<open>The division of Solidity rounds towards zero; the divisor is a positive constant.\<close>

definition i_div :: "int128 \<Rightarrow> int128 \<Rightarrow> int128" where
  "i_div a b = (if 0 \<le> a then a div b else - (- a div b))"

definition positiveInt128 :: "int128 \<Rightarrow> int128" where
  "positiveInt128 x = (if x < 0 then 0 else x)"

section \<open>State\<close>

record point =
  pt_bias :: int128
  pt_slope :: int128
  pt_ts :: uint
  pt_blk :: uint

datatype time_lock_type = UNKNOWN_LOCK | ADD_TOKEN | WHITELIST_TRANSFER

datatype deposit_type = DEPOSIT_FOR_TYPE | CREATE_LOCK_TYPE | INCREASE_LOCK_AMOUNT | INCREASE_UNLOCK_TIME | MERGE_TYPE

record escrow =
  ve_self :: address
  ve_controllable :: proxy
  ve_troveManagerAddress :: address
  ve_borrowerOperationsAddress :: address
  ve_shadyAddress :: address
  ve_tokens :: "address list"
  ve_tokenWeights :: "address \<Rightarrow> uint"
  ve_isValidToken :: "address \<Rightarrow> bool"
  ve_tokenId :: uint
  ve_lockedAmounts :: "uint \<Rightarrow> address \<Rightarrow> uint"
  ve_lockedDerivedAmount :: "uint \<Rightarrow> uint"
  ve_lockedEnd :: "uint \<Rightarrow> uint"
  ve_epoch :: uint
  ve_pointHistory :: "uint \<Rightarrow> point"
  ve_userPointHistory :: "uint \<Rightarrow> uint \<Rightarrow> point"
  ve_userPointEpoch :: "uint \<Rightarrow> uint"
  ve_slopeChanges :: "uint \<Rightarrow> int128"
  ve_ownershipChange :: "uint \<Rightarrow> uint"
  ve_idToOwner :: "uint \<Rightarrow> address"
  ve_idToApprovals :: "uint \<Rightarrow> address"
  ve_ownerToNFTokenCount :: "address \<Rightarrow> uint"
  ve_ownerToNFTokenIdList :: "address \<Rightarrow> uint \<Rightarrow> uint"
  ve_tokenToOwnerIndex :: "uint \<Rightarrow> uint"
  ve_ownerToOperators :: "address \<Rightarrow> address \<Rightarrow> bool"
  ve_supportedInterfaces :: "interface_id \<Rightarrow> bool"
  ve_isWhitelistedTransfer :: "address \<Rightarrow> bool"
  ve_govActionTimeLock :: "time_lock_type \<Rightarrow> uint"

definition WEEK :: uint where "WEEK = 604800"
definition MAX_TIME :: uint where "MAX_TIME = 9676800"
definition I_MAX_TIME :: int128 where "I_MAX_TIME = 9676800"
definition MULTIPLIER :: uint where "MULTIPLIER = 10 ^ 18"
definition WEIGHT_DENOMINATOR :: uint where "WEIGHT_DENOMINATOR = 100 * 10 ^ 18"
definition ERC165_INTERFACE_ID :: interface_id where "ERC165_INTERFACE_ID = Other_interface 33540519"
definition ERC721_INTERFACE_ID :: interface_id where "ERC721_INTERFACE_ID = Other_interface 2158778573"
definition ERC721_METADATA_INTERFACE_ID :: interface_id where "ERC721_METADATA_INTERFACE_ID = Other_interface 1532892063"
definition GOV_ACTION_TIME_LOCK :: uint where "GOV_ACTION_TIME_LOCK = 64800"

text \<open>The staked tokens: their balances, transfers through OpenZeppelin's \<open>SafeERC20\<close>, and decimals.\<close>

record 't staking_tokens =
  sk_balanceOf :: "'t \<Rightarrow> address \<Rightarrow> address \<Rightarrow> uint"
  sk_safeTransfer :: "'t \<Rightarrow> address \<Rightarrow> address \<Rightarrow> address \<Rightarrow> uint \<Rightarrow> revert + 't"
  sk_safeTransferFrom :: "'t \<Rightarrow> address \<Rightarrow> address \<Rightarrow> address \<Rightarrow> address \<Rightarrow> uint \<Rightarrow> revert + 't"
  sk_decimals :: "address \<Rightarrow> revert + uint"

text \<open>What a call sees of its surroundings: the caller, the block and the other contracts.\<close>

record 't ve_env =
  vn_sender :: address
  vn_now :: uint
  vn_block :: uint
  vn_logic :: logic
  vn_onERC721Received :: "address \<Rightarrow> address \<Rightarrow> address \<Rightarrow> uint \<Rightarrow> string \<Rightarrow> revert + bool"
  vn_stk :: "'t staking_tokens"

section \<open>Governance actions\<close>

definition ve_isGovernance :: "'t ve_env \<Rightarrow> escrow \<Rightarrow> revert + unit" where
  "ve_isGovernance E v =
     bind_res (isGovernance (vn_logic E) (ve_controllable v) (vn_sender E)) (\<lambda>b. require b ''FORBIDDEN'')"

definition addToken_internal :: "'t ve_env \<Rightarrow> address \<Rightarrow> uint \<Rightarrow> escrow \<Rightarrow> revert + escrow" where
  "addToken_internal E token weight v =
     bind_res (require (token \<noteq> 0 \<and> weight \<noteq> 0) ''WRONG_INPUT'') (\<lambda>_.
     bind_res (requireERC20 (vn_logic E) (ve_self v) token) (\<lambda>_.
     bind_res (require (token \<notin> set (ve_tokens v)) ''WRONG_INPUT'') (\<lambda>_.
     Inr (v\<lparr>ve_tokens := ve_tokens v @ [token], ve_tokenWeights := (ve_tokenWeights v)(token := weight),
            ve_isValidToken := (ve_isValidToken v)(token := True)\<rparr>))))"

definition ve_setAddresses :: "'t ve_env \<Rightarrow> address \<Rightarrow> address \<Rightarrow> address \<Rightarrow> address \<Rightarrow> escrow \<Rightarrow> revert + escrow" where
  "ve_setAddresses E troveManager borrowerOperations shady controller v =
     bind_res (initializer (ve_controllable v)) (\<lambda>p.
     bind_res (sk_decimals (vn_stk E) shady) (\<lambda>decimals.
     bind_res (require (decimals = 18) '''') (\<lambda>_.
     bind_res (checkContract (lg_is_contract (vn_logic E)) troveManager) (\<lambda>_.
     bind_res (checkContract (lg_is_contract (vn_logic E)) borrowerOperations) (\<lambda>_.
     bind_res (checkContract (lg_is_contract (vn_logic E)) shady) (\<lambda>_.
     bind_res (Controllable_init (vn_logic E) (vn_now E) (vn_block E) controller p) (\<lambda>p'.
     addToken_internal E shady (100 * 10 ^ 18)
       (v\<lparr>ve_controllable := p', ve_troveManagerAddress := troveManager, ve_borrowerOperationsAddress := borrowerOperations,
          ve_shadyAddress := shady,
          ve_pointHistory := (ve_pointHistory v)(0 := (ve_pointHistory v 0)\<lparr>pt_blk := vn_block E, pt_ts := vn_now E\<rparr>),
          ve_supportedInterfaces := (\<lambda>i. i \<in> {ERC165_INTERFACE_ID, ERC721_INTERFACE_ID, ERC721_METADATA_INTERFACE_ID}
            \<or> ve_supportedInterfaces v i)\<rparr>))))))))"

definition ve_supportsInterface :: "(interface_id \<Rightarrow> bool) \<Rightarrow> escrow \<Rightarrow> interface_id \<Rightarrow> bool" where
  "ve_supportsInterface base v interface \<longleftrightarrow>
     ve_supportedInterfaces v interface \<or> interface = I_VE \<or> controllable_supportsInterface base interface"

definition announceAction :: "'t ve_env \<Rightarrow> time_lock_type \<Rightarrow> escrow \<Rightarrow> revert + escrow" where
  "announceAction E type v =
     bind_res (ve_isGovernance E v) (\<lambda>_.
     bind_res (require (ve_govActionTimeLock v type = 0 \<and> type \<noteq> UNKNOWN_LOCK) ''WRONG_INPUT'') (\<lambda>_.
     bind_res (u_add (vn_now E) GOV_ACTION_TIME_LOCK) (\<lambda>t.
     Inr (v\<lparr>ve_govActionTimeLock := (ve_govActionTimeLock v)(type := t)\<rparr>))))"

definition whitelistTransferFor :: "'t ve_env \<Rightarrow> address \<Rightarrow> escrow \<Rightarrow> revert + escrow" where
  "whitelistTransferFor E value v =
     bind_res (ve_isGovernance E v) (\<lambda>_.
     bind_res (require (value \<noteq> 0) ''WRONG_INPUT'') (\<lambda>_.
     let timeLock = ve_govActionTimeLock v WHITELIST_TRANSFER in
     bind_res (require (timeLock \<noteq> 0 \<and> timeLock < vn_now E) ''TIME_LOCK'') (\<lambda>_.
     Inr (v\<lparr>ve_isWhitelistedTransfer := (ve_isWhitelistedTransfer v)(value := True),
            ve_govActionTimeLock := (ve_govActionTimeLock v)(WHITELIST_TRANSFER := 0)\<rparr>))))"

definition ve_addToken :: "'t ve_env \<Rightarrow> address \<Rightarrow> uint \<Rightarrow> escrow \<Rightarrow> revert + escrow" where
  "ve_addToken E token weight v =
     bind_res (ve_isGovernance E v) (\<lambda>_.
     let timeLock = ve_govActionTimeLock v ADD_TOKEN in
     bind_res (require (timeLock \<noteq> 0 \<and> timeLock < vn_now E) ''TIME_LOCK'') (\<lambda>_.
     bind_res (addToken_internal E token weight v) (\<lambda>v'.
     Inr (v'\<lparr>ve_govActionTimeLock := (ve_govActionTimeLock v')(ADD_TOKEN := 0)\<rparr>))))"

section \<open>NFTs\<close>

definition isApprovedOrOwner :: "escrow \<Rightarrow> address \<Rightarrow> uint \<Rightarrow> bool" where
  "isApprovedOrOwner v spender i \<longleftrightarrow>
     ve_idToOwner v i = spender \<or> spender = ve_idToApprovals v i \<or> ve_ownerToOperators v (ve_idToOwner v i) spender"

definition set_in_list :: "address \<Rightarrow> uint \<Rightarrow> uint \<Rightarrow> escrow \<Rightarrow> escrow" where
  "set_in_list a k i v = v\<lparr>ve_ownerToNFTokenIdList := (ve_ownerToNFTokenIdList v)(a := (ve_ownerToNFTokenIdList v a)(k := i))\<rparr>"

definition set_index :: "uint \<Rightarrow> uint \<Rightarrow> escrow \<Rightarrow> escrow" where
  "set_index i k v = v\<lparr>ve_tokenToOwnerIndex := (ve_tokenToOwnerIndex v)(i := k)\<rparr>"

definition addTokenToOwnerList :: "address \<Rightarrow> uint \<Rightarrow> escrow \<Rightarrow> escrow" where
  "addTokenToOwnerList to i v =
     (let currentCount = ve_ownerToNFTokenCount v to
      in set_index i currentCount (set_in_list to currentCount i v))"

definition removeTokenFromOwnerList :: "address \<Rightarrow> uint \<Rightarrow> escrow \<Rightarrow> revert + escrow" where
  "removeTokenFromOwnerList owner i v =
     bind_res (u_sub (ve_ownerToNFTokenCount v owner) 1) (\<lambda>currentCount.
     let currentIndex = ve_tokenToOwnerIndex v i in
     Inr (if currentCount = currentIndex then set_index i 0 (set_in_list owner currentCount 0 v)
          else
            let lastTokenId = ve_ownerToNFTokenIdList v owner currentCount in
            set_index i 0 (set_in_list owner currentCount 0
              (set_index lastTokenId currentIndex (set_in_list owner currentIndex lastTokenId v)))))"

definition addTokenTo :: "address \<Rightarrow> uint \<Rightarrow> escrow \<Rightarrow> revert + escrow" where
  "addTokenTo to i v =
     (let v1 = addTokenToOwnerList to i (v\<lparr>ve_idToOwner := (ve_idToOwner v)(i := to)\<rparr>) in
      bind_res (u_add (ve_ownerToNFTokenCount v1 to) 1) (\<lambda>n.
      Inr (v1\<lparr>ve_ownerToNFTokenCount := (ve_ownerToNFTokenCount v1)(to := n)\<rparr>)))"

definition removeTokenFrom :: "address \<Rightarrow> uint \<Rightarrow> escrow \<Rightarrow> revert + escrow" where
  "removeTokenFrom owner i v =
     bind_res (require (ve_idToOwner v i = owner) ''NOT_OWNER'') (\<lambda>_.
     bind_res (removeTokenFromOwnerList owner i (v\<lparr>ve_idToOwner := (ve_idToOwner v)(i := 0)\<rparr>)) (\<lambda>v1.
     bind_res (u_sub (ve_ownerToNFTokenCount v1 owner) 1) (\<lambda>n.
     Inr (v1\<lparr>ve_ownerToNFTokenCount := (ve_ownerToNFTokenCount v1)(owner := n)\<rparr>))))"

definition transferFrom_internal :: "'t ve_env \<Rightarrow> address \<Rightarrow> address \<Rightarrow> uint \<Rightarrow> address \<Rightarrow> escrow \<Rightarrow> revert + escrow" where
  "transferFrom_internal E owner to i sender v =
     bind_res (require (isApprovedOrOwner v sender i) ''NOT_OWNER'') (\<lambda>_.
     bind_res (require (to \<noteq> 0) ''WRONG_INPUT'') (\<lambda>_.
     bind_res (removeTokenFrom owner i (if ve_idToApprovals v i \<noteq> 0 then v\<lparr>ve_idToApprovals := (ve_idToApprovals v)(i := 0)\<rparr> else v)) (\<lambda>v1.
     bind_res (addTokenTo to i v1) (\<lambda>v2.
     Inr (v2\<lparr>ve_ownershipChange := (ve_ownershipChange v2)(i := vn_block E)\<rparr>)))))"

definition ve_transferFrom :: "address \<Rightarrow> address \<Rightarrow> uint \<Rightarrow> escrow \<Rightarrow> revert + escrow" where
  "ve_transferFrom owner to i v = Inl (Revert ''FORBIDDEN'')"

definition checkOnERC721Received :: "'t ve_env \<Rightarrow> address \<Rightarrow> address \<Rightarrow> uint \<Rightarrow> string \<Rightarrow> revert + unit" where
  "checkOnERC721Received E owner to i data =
     (if lg_is_contract (vn_logic E) to then
        (case vn_onERC721Received E to (vn_sender E) owner i data of
           Inr b \<Rightarrow> require b ''ERC721: transfer to non ERC721Receiver implementer''
         | Inl reason \<Rightarrow> Inl (if reason = Revert '''' then Revert ''ERC721: transfer to non ERC721Receiver implementer'' else reason))
      else Inr ())"

definition safeTransferFrom :: "'t ve_env \<Rightarrow> address \<Rightarrow> address \<Rightarrow> uint \<Rightarrow> string \<Rightarrow> escrow \<Rightarrow> revert + escrow" where
  "safeTransferFrom E owner to i data v =
     bind_res (require (ve_isWhitelistedTransfer v to \<or> ve_isWhitelistedTransfer v owner) ''FORBIDDEN'') (\<lambda>_.
     bind_res (transferFrom_internal E owner to i (vn_sender E) v) (\<lambda>v1.
     bind_res (checkOnERC721Received E owner to i data) (\<lambda>_. Inr v1)))"

definition ve_approve :: "'t ve_env \<Rightarrow> address \<Rightarrow> uint \<Rightarrow> escrow \<Rightarrow> revert + escrow" where
  "ve_approve E approved i v =
     (let owner = ve_idToOwner v i in
      bind_res (require (owner \<noteq> 0) ''WRONG_INPUT'') (\<lambda>_.
      bind_res (require (approved \<noteq> owner) ''IDENTICAL_ADDRESS'') (\<lambda>_.
      bind_res (require (owner = vn_sender E \<or> ve_ownerToOperators v owner (vn_sender E)) ''NOT_OWNER'') (\<lambda>_.
      Inr (v\<lparr>ve_idToApprovals := (ve_idToApprovals v)(i := approved)\<rparr>)))))"

definition setApprovalForAll :: "'t ve_env \<Rightarrow> address \<Rightarrow> bool \<Rightarrow> escrow \<Rightarrow> revert + escrow" where
  "setApprovalForAll E operator approved v =
     bind_res (require (operator \<noteq> vn_sender E) ''IDENTICAL_ADDRESS'') (\<lambda>_.
     Inr (v\<lparr>ve_ownerToOperators := (ve_ownerToOperators v)(vn_sender E := (ve_ownerToOperators v (vn_sender E))(operator := approved))\<rparr>))"

definition ve_mint :: "'t ve_env \<Rightarrow> address \<Rightarrow> uint \<Rightarrow> escrow \<Rightarrow> revert + escrow" where
  "ve_mint E to i v =
     bind_res (require (to \<noteq> 0) ''WRONG_INPUT'') (\<lambda>_.
     bind_res (addTokenTo to i v) (\<lambda>v1.
     bind_res (checkOnERC721Received E 0 to i '''') (\<lambda>_. Inr v1)))"

definition ve_burn :: "'t ve_env \<Rightarrow> uint \<Rightarrow> escrow \<Rightarrow> revert + escrow" where
  "ve_burn E i v =
     (let owner = ve_idToOwner v i in
      bind_res (ve_approve E 0 i v) (\<lambda>v1. removeTokenFrom owner i v1))"

section \<open>Checkpoints\<close>

record checkpoint_info =
  ci_tokenId :: uint
  ci_oldDerivedAmount :: uint
  ci_newDerivedAmount :: uint
  ci_oldEnd :: uint
  ci_newEnd :: uint

definition no_point :: point where
  "no_point = \<lparr>pt_bias = 0, pt_slope = 0, pt_ts = 0, pt_blk = 0\<rparr>"

text \<open>The slope and the bias of a lock of the derived amount until \<open>end\<close>, zero where it has ended.\<close>

definition lock_point :: "uint \<Rightarrow> uint \<Rightarrow> uint \<Rightarrow> revert + point" where
  "lock_point now derivedAmount lockEnd =
     (if now < lockEnd \<and> 0 < derivedAmount then
        let slope = i_div (to_int128 derivedAmount) I_MAX_TIME in
        bind_res (i_mul slope (to_int128 (lockEnd - now))) (\<lambda>bias.
        Inr (no_point\<lparr>pt_slope := slope, pt_bias := bias\<rparr>))
      else Inr no_point)"

text \<open>
  The loop over the weeks since the last point, \<open>n\<close> iterations of which are left. In the source \<open>initialLastPoint\<close> is a
  second reference to \<open>lastPoint\<close> in memory and not a copy: it has the time \<open>ti\<close> when the block is computed from it.
\<close>

definition week_block :: "uint \<Rightarrow> uint \<Rightarrow> point \<Rightarrow> revert + uint" where
  "week_block blockSlope ti initialLastPoint =
     bind_res (u_sub ti (pt_ts initialLastPoint)) (\<lambda>dt.
     bind_res (u_mul blockSlope dt) (\<lambda>x.
     u_add (pt_blk initialLastPoint) (x div MULTIPLIER)))"

fun fill_weeks ::
    "(uint \<Rightarrow> int128) \<Rightarrow> uint \<Rightarrow> uint \<Rightarrow> uint \<Rightarrow> nat \<Rightarrow> uint \<Rightarrow> uint \<Rightarrow> point \<Rightarrow> uint \<Rightarrow> (uint \<Rightarrow> point) \<Rightarrow> revert + point \<times> uint \<times> (uint \<Rightarrow> point)" where
  "fill_weeks slopes now block blockSlope 0 ti0 lastCheckpoint lastPoint epoch history = Inr (lastPoint, epoch, history)"
| "fill_weeks slopes now block blockSlope (Suc n) ti0 lastCheckpoint lastPoint epoch history =
     bind_res (u_add ti0 WEEK) (\<lambda>ti1.
     let ti = (if now < ti1 then now else ti1);
         dSlope = (if now < ti1 then 0 else slopes ti1) in
     bind_res (u_sub ti lastCheckpoint) (\<lambda>dt.
     bind_res (i_mul (pt_slope lastPoint) (to_int128 dt)) (\<lambda>fall.
     bind_res (i_sub (pt_bias lastPoint) fall) (\<lambda>bias.
     bind_res (i_add (pt_slope lastPoint) dSlope) (\<lambda>slope.
     let lastPoint = lastPoint\<lparr>pt_bias := positiveInt128 bias, pt_slope := positiveInt128 slope, pt_ts := ti\<rparr> in
     bind_res (week_block blockSlope ti lastPoint) (\<lambda>blk.
     let lastPoint = lastPoint\<lparr>pt_blk := blk\<rparr> in
     bind_res (u_add epoch 1) (\<lambda>epoch.
     if ti = now then Inr (lastPoint\<lparr>pt_blk := block\<rparr>, epoch, history)
     else fill_weeks slopes now block blockSlope n ti ti lastPoint epoch (history(epoch := lastPoint)))))))))"

text \<open>The part that concerns the NFT: the point moves with the lock, the changes of the slope are scheduled, and the
  point of the lock is recorded.\<close>

definition move_point :: "point \<Rightarrow> point \<Rightarrow> point \<Rightarrow> revert + point" where
  "move_point uOld uNew lastPoint =
     bind_res (i_sub (pt_slope uNew) (pt_slope uOld)) (\<lambda>dSlope.
     bind_res (i_add (pt_slope lastPoint) dSlope) (\<lambda>slope.
     bind_res (i_sub (pt_bias uNew) (pt_bias uOld)) (\<lambda>dBias.
     bind_res (i_add (pt_bias lastPoint) dBias) (\<lambda>bias.
     Inr (lastPoint\<lparr>pt_slope := positiveInt128 slope, pt_bias := positiveInt128 bias\<rparr>)))))"

definition schedule_slopes :: "uint \<Rightarrow> checkpoint_info \<Rightarrow> point \<Rightarrow> point \<Rightarrow> (uint \<Rightarrow> int128) \<Rightarrow> revert + (uint \<Rightarrow> int128)" where
  "schedule_slopes now info uOld uNew slopes =
     (let oldDSlope = slopes (ci_oldEnd info);
          newDSlope = (if ci_newEnd info = 0 then 0 else slopes (ci_newEnd info)) in
      bind_res
        (if now < ci_oldEnd info then
           bind_res (i_add oldDSlope (pt_slope uOld)) (\<lambda>d.
           bind_res (if ci_newEnd info = ci_oldEnd info then i_sub d (pt_slope uNew) else Inr d) (\<lambda>d'.
           Inr (slopes(ci_oldEnd info := d'))))
         else Inr slopes) (\<lambda>slopes1.
      if now < ci_newEnd info \<and> ci_oldEnd info < ci_newEnd info then
        bind_res (i_sub newDSlope (pt_slope uNew)) (\<lambda>d. Inr (slopes1(ci_newEnd info := d)))
      else Inr slopes1))"

definition USER_POINTS :: uint where "USER_POINTS = 1000000000"

definition record_user_point :: "'t ve_env \<Rightarrow> uint \<Rightarrow> point \<Rightarrow> escrow \<Rightarrow> revert + escrow" where
  "record_user_point E i uNew v =
     bind_res (u_add (ve_userPointEpoch v i) 1) (\<lambda>userEpoch.
     if userEpoch < USER_POINTS then
       Inr (v\<lparr>ve_userPointEpoch := (ve_userPointEpoch v)(i := userEpoch),
              ve_userPointHistory := (ve_userPointHistory v)(i := (ve_userPointHistory v i)(userEpoch := uNew\<lparr>pt_ts := vn_now E, pt_blk := vn_block E\<rparr>))\<rparr>)
     else Inl Panic)"

definition last_point :: "'t ve_env \<Rightarrow> escrow \<Rightarrow> point" where
  "last_point E v =
     (if 0 < ve_epoch v then ve_pointHistory v (ve_epoch v)
      else \<lparr>pt_bias = 0, pt_slope = 0, pt_ts = vn_now E, pt_blk = vn_block E\<rparr>)"

definition block_slope :: "'t ve_env \<Rightarrow> point \<Rightarrow> revert + uint" where
  "block_slope E lastPoint =
     (if pt_ts lastPoint < vn_now E then
        bind_res (u_sub (vn_block E) (pt_blk lastPoint)) (\<lambda>b.
        bind_res (u_mul MULTIPLIER b) (\<lambda>x. Inr (x div (vn_now E - pt_ts lastPoint))))
      else Inr 0)"

definition checkpoint_internal :: "'t ve_env \<Rightarrow> checkpoint_info \<Rightarrow> escrow \<Rightarrow> revert + escrow" where
  "checkpoint_internal E info v =
     (let user = ci_tokenId info \<noteq> 0; lastPoint = last_point E v in
      bind_res (if user then lock_point (vn_now E) (ci_oldDerivedAmount info) (ci_oldEnd info) else Inr no_point) (\<lambda>uOld.
      bind_res (if user then lock_point (vn_now E) (ci_newDerivedAmount info) (ci_newEnd info) else Inr no_point) (\<lambda>uNew.
      bind_res (block_slope E lastPoint) (\<lambda>blockSlope.
      bind_res (fill_weeks (ve_slopeChanges v) (vn_now E) (vn_block E) blockSlope 255 (pt_ts lastPoint div WEEK * WEEK) (pt_ts lastPoint) lastPoint
        (ve_epoch v) (ve_pointHistory v)) (\<lambda>(lastPoint, epoch, history).
      bind_res (if user then move_point uOld uNew lastPoint else Inr lastPoint) (\<lambda>lastPoint.
      let v1 = v\<lparr>ve_epoch := epoch, ve_pointHistory := history(epoch := lastPoint)\<rparr> in
      if user then
        bind_res (schedule_slopes (vn_now E) info uOld uNew (ve_slopeChanges v)) (\<lambda>slopes.
        record_user_point E (ci_tokenId info) uNew (v1\<lparr>ve_slopeChanges := slopes\<rparr>))
      else Inr v1))))))"

definition ve_checkpoint :: "'t ve_env \<Rightarrow> escrow \<Rightarrow> revert + escrow" where
  "ve_checkpoint E = checkpoint_internal E \<lparr>ci_tokenId = 0, ci_oldDerivedAmount = 0, ci_newDerivedAmount = 0, ci_oldEnd = 0, ci_newEnd = 0\<rparr>"

section \<open>Voting power\<close>

definition balanceOfNFT_at :: "escrow \<Rightarrow> uint \<Rightarrow> uint \<Rightarrow> revert + uint" where
  "balanceOfNFT_at v i t =
     (let epoch = ve_userPointEpoch v i in
      if epoch = 0 then Inr 0
      else
        let lastPoint = ve_userPointHistory v i epoch in
        bind_res (require (pt_ts lastPoint \<le> t) ''WRONG_INPUT'') (\<lambda>_.
        bind_res (i_mul (pt_slope lastPoint) (to_int128 (t - pt_ts lastPoint))) (\<lambda>fall.
        bind_res (i_sub (pt_bias lastPoint) fall) (\<lambda>bias.
        Inr (nat (positiveInt128 bias))))))"

definition balanceOfNFT :: "'t ve_env \<Rightarrow> escrow \<Rightarrow> uint \<Rightarrow> revert + uint" where
  "balanceOfNFT E v i = (if ve_ownershipChange v i = vn_block E then Inr 0 else balanceOfNFT_at v i (vn_now E))"

text \<open>The binary search for the last point of a history whose block is at most \<open>block\<close>, in \<open>n\<close> iterations.\<close>

fun find_block :: "(uint \<Rightarrow> point) \<Rightarrow> uint \<Rightarrow> nat \<Rightarrow> uint \<Rightarrow> uint \<Rightarrow> uint" where
  "find_block history block 0 lo hi = lo"
| "find_block history block (Suc n) lo hi =
     (if hi \<le> lo then lo
      else
        let mid = (lo + hi + 1) div 2 in
        if pt_blk (history mid) \<le> block then find_block history block n mid hi else find_block history block n lo (mid - 1))"

definition findBlockEpoch :: "escrow \<Rightarrow> uint \<Rightarrow> uint \<Rightarrow> uint" where
  "findBlockEpoch v block maxEpoch = find_block (ve_pointHistory v) block 128 0 maxEpoch"

fun supply_weeks :: "(uint \<Rightarrow> int128) \<Rightarrow> uint \<Rightarrow> nat \<Rightarrow> uint \<Rightarrow> point \<Rightarrow> revert + point" where
  "supply_weeks slopes t 0 ti0 lastPoint = Inr lastPoint"
| "supply_weeks slopes t (Suc n) ti0 lastPoint =
     bind_res (u_add ti0 WEEK) (\<lambda>ti1.
     let ti = (if t < ti1 then t else ti1);
         dSlope = (if t < ti1 then 0 else slopes ti1) in
     bind_res (u_sub ti (pt_ts lastPoint)) (\<lambda>dt.
     bind_res (i_mul (pt_slope lastPoint) (to_int128 dt)) (\<lambda>fall.
     bind_res (i_sub (pt_bias lastPoint) fall) (\<lambda>bias.
     if ti = t then Inr (lastPoint\<lparr>pt_bias := bias\<rparr>)
     else
       bind_res (i_add (pt_slope lastPoint) dSlope) (\<lambda>slope.
       supply_weeks slopes t n ti (lastPoint\<lparr>pt_bias := bias, pt_slope := slope, pt_ts := ti\<rparr>))))))"

definition supplyAt :: "escrow \<Rightarrow> point \<Rightarrow> uint \<Rightarrow> revert + uint" where
  "supplyAt v pt t =
     bind_res (supply_weeks (ve_slopeChanges v) t 255 (pt_ts pt div WEEK * WEEK) pt) (\<lambda>lastPoint.
     Inr (nat (positiveInt128 (pt_bias lastPoint))))"

definition totalSupplyAtT :: "escrow \<Rightarrow> uint \<Rightarrow> revert + uint" where
  "totalSupplyAtT v t = supplyAt v (ve_pointHistory v (ve_epoch v)) t"

definition totalSupplyAt :: "'t ve_env \<Rightarrow> escrow \<Rightarrow> uint \<Rightarrow> revert + uint" where
  "totalSupplyAt E v block =
     bind_res (require (block \<le> vn_block E) ''WRONG_INPUT'') (\<lambda>_.
     let epoch = ve_epoch v;
         targetEpoch = findBlockEpoch v block epoch;
         pt = ve_pointHistory v targetEpoch in
     if block < pt_blk pt then Inr 0
     else
       bind_res
         (if targetEpoch < epoch then
            let next_pt = ve_pointHistory v (targetEpoch + 1) in
            bind_res (u_sub (pt_ts next_pt) (pt_ts pt)) (\<lambda>dts.
            bind_res (u_mul (block - pt_blk pt) dts) (\<lambda>x.
            bind_res (u_sub (pt_blk next_pt) (pt_blk pt)) (\<lambda>db. u_div x db)))
          else if pt_blk pt \<noteq> vn_block E then
            bind_res (u_sub (vn_now E) (pt_ts pt)) (\<lambda>dts.
            bind_res (u_mul (block - pt_blk pt) dts) (\<lambda>x.
            bind_res (u_sub (vn_block E) (pt_blk pt)) (\<lambda>db. u_div x db)))
          else Inr 0) (\<lambda>dt.
       bind_res (u_add (pt_ts pt) dt) (\<lambda>t. supplyAt v pt t)))"

definition balanceOfAtNFT :: "'t ve_env \<Rightarrow> escrow \<Rightarrow> uint \<Rightarrow> uint \<Rightarrow> revert + uint" where
  "balanceOfAtNFT E v i block =
     bind_res (require (block \<le> vn_block E) ''WRONG_INPUT'') (\<lambda>_.
     let uPoint = ve_userPointHistory v i (find_block (ve_userPointHistory v i) block 128 0 (ve_userPointEpoch v i));
         maxEpoch = ve_epoch v;
         epoch = findBlockEpoch v block maxEpoch;
         point0 = ve_pointHistory v epoch;
         (blk1, ts1) = (if epoch < maxEpoch then (pt_blk (ve_pointHistory v (epoch + 1)), pt_ts (ve_pointHistory v (epoch + 1)))
                        else (vn_block E, vn_now E)) in
     bind_res (u_sub blk1 (pt_blk point0)) (\<lambda>dBlock.
     bind_res (u_sub ts1 (pt_ts point0)) (\<lambda>dt.
     bind_res (if dBlock \<noteq> 0 \<and> pt_blk point0 < block then
         bind_res (u_mul dt (block - pt_blk point0)) (\<lambda>x. u_add (pt_ts point0) (x div dBlock))
       else Inr (pt_ts point0)) (\<lambda>blockTime.
     bind_res (u_sub blockTime (pt_ts uPoint)) (\<lambda>passed.
     bind_res (i_mul (pt_slope uPoint) (to_int128 passed)) (\<lambda>fall.
     bind_res (i_sub (pt_bias uPoint) fall) (\<lambda>bias.
     Inr (nat (positiveInt128 bias)))))))))"

section \<open>Locks\<close>

record deposit_info =
  di_stakingToken :: address
  di_tokenId :: uint
  di_value :: uint
  di_unlockTime :: uint
  di_lockedAmount :: uint
  di_lockedDerivedAmount :: uint
  di_lockedEnd :: uint
  di_depositType :: deposit_type

definition calculateDerivedAmount :: "uint \<Rightarrow> uint \<Rightarrow> uint \<Rightarrow> uint \<Rightarrow> uint \<Rightarrow> revert + uint" where
  "calculateDerivedAmount currentAmount oldDerivedAmount newAmount weight decimals =
     bind_res (if 10 ^ decimals \<le> uint_max then Inr (10 ^ decimals) else Inl Panic) (\<lambda>one.
     bind_res
       (if oldDerivedAmount \<noteq> 0 \<and> currentAmount \<noteq> 0 then
          bind_res (divWadUp currentAmount one) (\<lambda>current.
          bind_res (mulDivUp current weight WEIGHT_DENOMINATOR) (\<lambda>currentDerivedAmount.
          Inr (if currentDerivedAmount < oldDerivedAmount then oldDerivedAmount - currentDerivedAmount else 0)))
        else Inr oldDerivedAmount) (\<lambda>old.
     bind_res (divWadDown newAmount one) (\<lambda>new.
     bind_res (mulDivDown new weight WEIGHT_DENOMINATOR) (\<lambda>new'.
     u_add old new'))))"

text \<open>The state of the escrow together with the state of the staked tokens.\<close>

type_synonym 't ve_state = "escrow \<times> 't"

definition pullStakingToken :: "'t ve_env \<Rightarrow> address \<Rightarrow> address \<Rightarrow> uint \<Rightarrow> 't ve_state \<Rightarrow> revert + 't ve_state" where
  "pullStakingToken E token owner amount = (\<lambda>(v, t).
     bind_res (sk_safeTransferFrom (vn_stk E) t token (ve_self v) owner (ve_self v) amount) (\<lambda>t'. Inr (v, t')))"

definition transferUnderlyingToken :: "'t ve_env \<Rightarrow> address \<Rightarrow> address \<Rightarrow> uint \<Rightarrow> 't ve_state \<Rightarrow> revert + 't ve_state" where
  "transferUnderlyingToken E token recipient amount = (\<lambda>(v, t).
     bind_res (sk_safeTransfer (vn_stk E) t token (ve_self v) recipient amount) (\<lambda>t'. Inr (v, t')))"

definition set_locked :: "uint \<Rightarrow> address \<Rightarrow> uint \<Rightarrow> escrow \<Rightarrow> escrow" where
  "set_locked i token n v = v\<lparr>ve_lockedAmounts := (ve_lockedAmounts v)(i := (ve_lockedAmounts v i)(token := n))\<rparr>"

definition deposit_amounts :: "'t ve_env \<Rightarrow> deposit_info \<Rightarrow> escrow \<Rightarrow> revert + uint \<times> escrow" where
  "deposit_amounts E info v =
     (if di_value info \<noteq> 0 then
        bind_res (u_add (di_lockedAmount info) (di_value info)) (\<lambda>newAmount.
        bind_res (sk_decimals (vn_stk E) (di_stakingToken info)) (\<lambda>decimals.
        bind_res (calculateDerivedAmount (di_lockedAmount info) (di_lockedDerivedAmount info) newAmount (ve_tokenWeights v (di_stakingToken info)) decimals)
          (\<lambda>newLockedDerivedAmount.
        Inr (newLockedDerivedAmount, (set_locked (di_tokenId info) (di_stakingToken info) newAmount v)
          \<lparr>ve_lockedDerivedAmount := (ve_lockedDerivedAmount v)(di_tokenId info := newLockedDerivedAmount)\<rparr>))))
      else Inr (di_lockedDerivedAmount info, v))"

definition depositFor :: "'t ve_env \<Rightarrow> deposit_info \<Rightarrow> 't ve_state \<Rightarrow> revert + 't ve_state" where
  "depositFor E info = (\<lambda>(v, t).
     bind_res (deposit_amounts E info v) (\<lambda>(newLockedDerivedAmount, v1).
     let v2 = (if di_unlockTime info \<noteq> 0 then v1\<lparr>ve_lockedEnd := (ve_lockedEnd v1)(di_tokenId info := di_unlockTime info)\<rparr> else v1);
         newLockedEnd = (if di_unlockTime info \<noteq> 0 then di_unlockTime info else di_lockedEnd info) in
     bind_res (checkpoint_internal E \<lparr>ci_tokenId = di_tokenId info, ci_oldDerivedAmount = di_lockedDerivedAmount info,
       ci_newDerivedAmount = newLockedDerivedAmount, ci_oldEnd = di_lockedEnd info, ci_newEnd = newLockedEnd\<rparr> v2) (\<lambda>v3.
     if di_value info \<noteq> 0 \<and> di_depositType info \<noteq> MERGE_TYPE
     then pullStakingToken E (di_stakingToken info) (vn_sender E) (di_value info) (v3, t)
     else Inr (v3, t))))"

text \<open>A function of the escrow alone.\<close>

definition on_escrow :: "(escrow \<Rightarrow> revert + escrow) \<Rightarrow> 't ve_state \<Rightarrow> revert + 't ve_state" where
  "on_escrow f = (\<lambda>(v, t). bind_res (f v) (\<lambda>v'. Inr (v', t)))"

definition incrementTokenIdAndGet :: "escrow \<Rightarrow> revert + uint \<times> escrow" where
  "incrementTokenIdAndGet v = bind_res (u_add (ve_tokenId v) 1) (\<lambda>n. Inr (n, v\<lparr>ve_tokenId := n\<rparr>))"

definition unlock_time :: "'t ve_env \<Rightarrow> uint \<Rightarrow> revert + uint" where
  "unlock_time E lockDuration = bind_res (u_add (vn_now E) lockDuration) (\<lambda>t. Inr (t div WEEK * WEEK))"

definition createLockFor :: "'t ve_env \<Rightarrow> address \<Rightarrow> uint \<Rightarrow> uint \<Rightarrow> address \<Rightarrow> 't ve_state \<Rightarrow> revert + uint \<times> 't ve_state" where
  "createLockFor E token value lockDuration to = (\<lambda>(v, t).
     bind_res (require (0 < value) ''WRONG_INPUT'') (\<lambda>_.
     bind_res (unlock_time E lockDuration) (\<lambda>unlockTime.
     bind_res (require (vn_now E < unlockTime) ''LOW_LOCK_PERIOD'') (\<lambda>_.
     bind_res (u_add (vn_now E) MAX_TIME) (\<lambda>latest.
     bind_res (require (unlockTime \<le> latest) ''HIGH_LOCK_PERIOD'') (\<lambda>_.
     bind_res (require (ve_isValidToken v token) ''INVALID_TOKEN'') (\<lambda>_.
     bind_res (incrementTokenIdAndGet v) (\<lambda>(i, v1).
     bind_res (ve_mint E to i v1) (\<lambda>v2.
     bind_res (depositFor E \<lparr>di_stakingToken = token, di_tokenId = i, di_value = value, di_unlockTime = unlockTime, di_lockedAmount = 0,
       di_lockedDerivedAmount = 0, di_lockedEnd = 0, di_depositType = CREATE_LOCK_TYPE\<rparr> (v2, t)) (\<lambda>s.
     Inr (i, s)))))))))))"

definition createLock :: "'t ve_env \<Rightarrow> address \<Rightarrow> uint \<Rightarrow> uint \<Rightarrow> 't ve_state \<Rightarrow> revert + uint \<times> 't ve_state" where
  "createLock E token value lockDuration = createLockFor E token value lockDuration (vn_sender E)"

definition increaseAmount :: "'t ve_env \<Rightarrow> address \<Rightarrow> uint \<Rightarrow> uint \<Rightarrow> 't ve_state \<Rightarrow> revert + 't ve_state" where
  "increaseAmount E token i value = (\<lambda>(v, t).
     bind_res (require (0 < value) ''WRONG_INPUT'') (\<lambda>_.
     bind_res (require (0 < ve_lockedDerivedAmount v i) ''NFT_WITHOUT_POWER'') (\<lambda>_.
     bind_res (require (vn_now E < ve_lockedEnd v i) ''EXPIRED'') (\<lambda>_.
     bind_res (require (ve_isValidToken v token) ''INVALID_TOKEN'') (\<lambda>_.
     depositFor E \<lparr>di_stakingToken = token, di_tokenId = i, di_value = value, di_unlockTime = 0, di_lockedAmount = ve_lockedAmounts v i token,
       di_lockedDerivedAmount = ve_lockedDerivedAmount v i, di_lockedEnd = ve_lockedEnd v i, di_depositType = INCREASE_LOCK_AMOUNT\<rparr> (v, t))))))"

definition increaseUnlockTime :: "'t ve_env \<Rightarrow> uint \<Rightarrow> uint \<Rightarrow> 't ve_state \<Rightarrow> revert + (uint \<times> uint) \<times> 't ve_state" where
  "increaseUnlockTime E i lockDuration = (\<lambda>(v, t).
     bind_res (unlock_time E lockDuration) (\<lambda>unlockTime.
     bind_res (require (0 < ve_lockedDerivedAmount v i) ''NFT_WITHOUT_POWER'') (\<lambda>_.
     bind_res (require (vn_now E < ve_lockedEnd v i) ''EXPIRED'') (\<lambda>_.
     bind_res (require (ve_lockedEnd v i < unlockTime) ''LOW_UNLOCK_TIME'') (\<lambda>_.
     bind_res (u_add (vn_now E) MAX_TIME) (\<lambda>latest.
     bind_res (require (unlockTime \<le> latest) ''HIGH_LOCK_PERIOD'') (\<lambda>_.
     bind_res (require (isApprovedOrOwner v (vn_sender E) i) ''NOT_OWNER'') (\<lambda>_.
     bind_res (depositFor E \<lparr>di_stakingToken = 0, di_tokenId = i, di_value = 0, di_unlockTime = unlockTime, di_lockedAmount = 0,
       di_lockedDerivedAmount = ve_lockedDerivedAmount v i, di_lockedEnd = ve_lockedEnd v i, di_depositType = INCREASE_UNLOCK_TIME\<rparr> (v, t)) (\<lambda>(v', t').
     bind_res (balanceOfNFT E v' i) (\<lambda>power.
     Inr ((power, ve_lockedEnd v' i), (v', t'))))))))))))"

text \<open>One token of the loop of \<open>merge\<close>, which carries the end of the lock that the next checkpoint starts from.\<close>

definition merge_token ::
    "'t ve_env \<Rightarrow> uint \<Rightarrow> uint \<Rightarrow> uint \<Rightarrow> address \<Rightarrow> uint \<times> 't ve_state \<Rightarrow> revert + uint \<times> 't ve_state" where
  "merge_token E source target lockEnd token = (\<lambda>(newLockedEndTo, v, t).
     let amount = ve_lockedAmounts v source token in
     if amount = 0 then Inr (newLockedEndTo, v, t)
     else
       let v1 = set_locked source token 0 v in
       bind_res (depositFor E \<lparr>di_stakingToken = token, di_tokenId = target, di_value = amount, di_unlockTime = lockEnd,
         di_lockedAmount = ve_lockedAmounts v1 target token, di_lockedDerivedAmount = ve_lockedDerivedAmount v1 target,
         di_lockedEnd = newLockedEndTo, di_depositType = MERGE_TYPE\<rparr> (v1, t)) (\<lambda>s.
       Inr (lockEnd, s)))"

definition ve_merge :: "'t ve_env \<Rightarrow> uint \<Rightarrow> uint \<Rightarrow> 't ve_state \<Rightarrow> revert + 't ve_state" where
  "ve_merge E source target = (\<lambda>(v, t).
     bind_res (require (source \<noteq> target) ''IDENTICAL_ADDRESS'') (\<lambda>_.
     bind_res (require (ve_idToOwner v source = vn_sender E \<and> ve_idToOwner v target = vn_sender E) ''NOT_OWNER'') (\<lambda>_.
     let lockedEndFrom = ve_lockedEnd v source;
         lockedEndTo = ve_lockedEnd v target in
     bind_res (require (vn_now E < lockedEndFrom \<and> vn_now E < lockedEndTo) ''EXPIRED'') (\<lambda>_.
     let lockEnd = (if lockedEndTo \<le> lockedEndFrom then lockedEndFrom else lockedEndTo);
         oldDerivedAmount = ve_lockedDerivedAmount v source in
     bind_res (fold_res (merge_token E source target lockEnd) (ve_tokens v) (lockedEndTo, v, t)) (\<lambda>(_, v1, t1).
     let v2 = v1\<lparr>ve_lockedDerivedAmount := (ve_lockedDerivedAmount v1)(source := 0), ve_lockedEnd := (ve_lockedEnd v1)(source := 0)\<rparr> in
     bind_res (checkpoint_internal E \<lparr>ci_tokenId = source, ci_oldDerivedAmount = oldDerivedAmount, ci_newDerivedAmount = 0,
       ci_oldEnd = lockedEndFrom, ci_newEnd = lockedEndFrom\<rparr> v2) (\<lambda>v3.
     bind_res (ve_burn E source v3) (\<lambda>v4. Inr (v4, t1))))))))"

text \<open>One token of the loop of \<open>split\<close>, which carries the derived amount that is left.\<close>

definition split_token ::
    "'t ve_env \<Rightarrow> uint \<Rightarrow> uint \<Rightarrow> uint \<Rightarrow> uint \<Rightarrow> address \<Rightarrow> uint \<times> 't ve_state \<Rightarrow> revert + uint \<times> 't ve_state" where
  "split_token E i new_id percent lockEnd token = (\<lambda>(derived, v, t).
     let amount = ve_lockedAmounts v i token in
     if amount = 0 then Inr (derived, v, t)
     else
       bind_res (u_mul amount percent) (\<lambda>x.
       let amountForNewNFT = x div (100 * 10 ^ 18) in
       bind_res (require (amountForNewNFT \<noteq> 0) ''LOW_PERCENT'') (\<lambda>_.
       bind_res (u_sub amount amountForNewNFT) (\<lambda>rest.
       bind_res (sk_decimals (vn_stk E) token) (\<lambda>decimals.
       bind_res (calculateDerivedAmount amount derived rest (ve_tokenWeights v token) decimals) (\<lambda>derived'.
       let v1 = set_locked i token rest v in
       bind_res (depositFor E \<lparr>di_stakingToken = token, di_tokenId = new_id, di_value = amountForNewNFT, di_unlockTime = lockEnd, di_lockedAmount = 0,
         di_lockedDerivedAmount = ve_lockedDerivedAmount v1 new_id, di_lockedEnd = lockEnd, di_depositType = MERGE_TYPE\<rparr> (v1, t)) (\<lambda>s.
       Inr (derived', s))))))))"

definition ve_split :: "'t ve_env \<Rightarrow> uint \<Rightarrow> uint \<Rightarrow> 't ve_state \<Rightarrow> revert + 't ve_state" where
  "ve_split E i percent = (\<lambda>(v, t).
     bind_res (require (ve_idToOwner v i = vn_sender E) ''NOT_OWNER'') (\<lambda>_.
     bind_res (require (percent \<noteq> 0 \<and> percent < 100 * 10 ^ 18) ''WRONG_INPUT'') (\<lambda>_.
     let oldLockedDerivedAmount = ve_lockedDerivedAmount v i;
         lockEnd = ve_lockedEnd v i in
     bind_res (require (vn_now E < lockEnd) ''EXPIRED'') (\<lambda>_.
     bind_res (incrementTokenIdAndGet v) (\<lambda>(new_id, v1).
     bind_res (ve_mint E (vn_sender E) new_id v1) (\<lambda>v2.
     bind_res (fold_res (split_token E i new_id percent lockEnd) (ve_tokens v2) (oldLockedDerivedAmount, v2, t)) (\<lambda>(derived, v3, t3).
     let v4 = v3\<lparr>ve_lockedDerivedAmount := (ve_lockedDerivedAmount v3)(i := derived)\<rparr> in
     bind_res (checkpoint_internal E \<lparr>ci_tokenId = i, ci_oldDerivedAmount = oldLockedDerivedAmount, ci_newDerivedAmount = derived,
       ci_oldEnd = lockEnd, ci_newEnd = lockEnd\<rparr> v4) (\<lambda>v5.
     Inr (v5, t3)))))))))"

definition ve_withdraw :: "'t ve_env \<Rightarrow> address \<Rightarrow> uint \<Rightarrow> 't ve_state \<Rightarrow> revert + 't ve_state" where
  "ve_withdraw E token i = (\<lambda>(v, t).
     bind_res (require (isApprovedOrOwner v (vn_sender E) i) ''NOT_OWNER'') (\<lambda>_.
     let oldLockedAmount = ve_lockedAmounts v i token;
         oldLockedDerivedAmount = ve_lockedDerivedAmount v i;
         oldLockedEnd = ve_lockedEnd v i in
     bind_res (require (oldLockedEnd \<le> vn_now E) ''NOT_EXPIRED'') (\<lambda>_.
     bind_res (require (0 < oldLockedAmount) ''ZERO_LOCKED'') (\<lambda>_.
     bind_res (sk_decimals (vn_stk E) token) (\<lambda>decimals.
     bind_res (calculateDerivedAmount oldLockedAmount oldLockedDerivedAmount 0 (ve_tokenWeights v token) decimals) (\<lambda>newLockedDerivedAmount.
     let newLockEnd = (if newLockedDerivedAmount = 0 then 0 else oldLockedEnd);
         v1 = set_locked i token 0 (v\<lparr>ve_lockedEnd := (ve_lockedEnd v)(i := newLockEnd),
                ve_lockedDerivedAmount := (ve_lockedDerivedAmount v)(i := newLockedDerivedAmount)\<rparr>) in
     bind_res (checkpoint_internal E \<lparr>ci_tokenId = i, ci_oldDerivedAmount = oldLockedDerivedAmount, ci_newDerivedAmount = newLockedDerivedAmount,
       ci_oldEnd = oldLockedEnd, ci_newEnd = newLockEnd\<rparr> v1) (\<lambda>v2.
     bind_res (if newLockedDerivedAmount = 0 then ve_burn E i v2 else Inr v2) (\<lambda>v3.
     transferUnderlyingToken E token (vn_sender E) oldLockedAmount (v3, t)))))))))"

definition withdrawAll :: "'t ve_env \<Rightarrow> uint \<Rightarrow> 't ve_state \<Rightarrow> revert + 't ve_state" where
  "withdrawAll E i = (\<lambda>s.
     fold_res (\<lambda>token s. if ve_lockedAmounts (fst s) i token \<noteq> 0 then ve_withdraw E token i s else Inr s) (ve_tokens (fst s)) s)"

section \<open>Calls\<close>

datatype ve_call =
    SetAddresses address address address address
  | AnnounceAction time_lock_type
  | WhitelistTransferFor address
  | AddToken address uint
  | SafeTransferFrom address address uint string
  | Approve address uint
  | SetApprovalForAll address bool
  | Checkpoint
  | CreateLockFor address uint uint address
  | CreateLock address uint uint
  | IncreaseAmount address uint uint
  | IncreaseUnlockTime uint uint
  | Merge uint uint
  | Split uint uint
  | Withdraw address uint
  | WithdrawAll uint

fun ve_perform :: "'t ve_env \<Rightarrow> ve_call \<Rightarrow> 't ve_state \<Rightarrow> revert + 't ve_state" where
  "ve_perform E (SetAddresses troveManager borrowerOperations shady controller) = on_escrow (ve_setAddresses E troveManager borrowerOperations shady controller)"
| "ve_perform E (AnnounceAction type) = on_escrow (announceAction E type)"
| "ve_perform E (WhitelistTransferFor value) = on_escrow (whitelistTransferFor E value)"
| "ve_perform E (AddToken token weight) = on_escrow (ve_addToken E token weight)"
| "ve_perform E (SafeTransferFrom owner to i data) = on_escrow (safeTransferFrom E owner to i data)"
| "ve_perform E (Approve approved i) = on_escrow (ve_approve E approved i)"
| "ve_perform E (SetApprovalForAll operator approved) = on_escrow (setApprovalForAll E operator approved)"
| "ve_perform E Checkpoint = on_escrow (ve_checkpoint E)"
| "ve_perform E (CreateLockFor token value lockDuration to) = (\<lambda>s. map_sum id snd (createLockFor E token value lockDuration to s))"
| "ve_perform E (CreateLock token value lockDuration) = (\<lambda>s. map_sum id snd (createLock E token value lockDuration s))"
| "ve_perform E (IncreaseAmount token i value) = increaseAmount E token i value"
| "ve_perform E (IncreaseUnlockTime i lockDuration) = (\<lambda>s. map_sum id snd (increaseUnlockTime E i lockDuration s))"
| "ve_perform E (Merge source target) = ve_merge E source target"
| "ve_perform E (Split i percent) = ve_split E i percent"
| "ve_perform E (Withdraw token i) = ve_withdraw E token i"
| "ve_perform E (WithdrawAll i) = withdrawAll E i"

end
