(* ===== verification/Escrow_Ownership.thy ===== *)
theory Escrow_Ownership
  imports Voting_Escrow
begin

text \<open>
  Who owns the NFTs of the voting escrow (\<open>contracts/Ve.sol\<close>): the lists of the tokens of every owner agree with the owners
  of the tokens after whatever calls, and what an approved spender cannot do.
\<close>

section \<open>What the operations leave alone\<close>

text \<open>A checkpoint writes points and slopes, a deposit also the amounts of the lock.\<close>

lemma record_user_point_frame:
  assumes "record_user_point E i p v = Inr v'"
  obtains e h where "v' = v\<lparr>ve_userPointEpoch := e, ve_userPointHistory := h\<rparr>"
  using assms by (auto simp: record_user_point_def bind_res_eq_Inr split: if_splits)

lemma checkpoint_user_steps:
  assumes "checkpoint_internal E info v = Inr v'" and "ci_tokenId info \<noteq> 0"
  obtains uOld uNew blockSlope pt ep h pt' sl where "lock_point (vn_now E) (ci_oldDerivedAmount info) (ci_oldEnd info) = Inr uOld"
    and "lock_point (vn_now E) (ci_newDerivedAmount info) (ci_newEnd info) = Inr uNew" and "block_slope E (last_point E v) = Inr blockSlope"
    and "fill_weeks (ve_slopeChanges v) (vn_now E) (vn_block E) blockSlope 255 (pt_ts (last_point E v) div WEEK * WEEK) (pt_ts (last_point E v))
      (last_point E v) (ve_epoch v) (ve_pointHistory v) = Inr (pt, ep, h)"
    and "move_point uOld uNew pt = Inr pt'" and "schedule_slopes (vn_now E) info uOld uNew (ve_slopeChanges v) = Inr sl"
    and "record_user_point E (ci_tokenId info) uNew (v\<lparr>ve_epoch := ep, ve_pointHistory := h(ep := pt'), ve_slopeChanges := sl\<rparr>) = Inr v'"
  using assms(1) by (simp add: checkpoint_internal_def Let_def assms(2)) (auto simp: bind_res_eq_Inr intro: that)

lemma checkpoint_global_steps:
  assumes "checkpoint_internal E info v = Inr v'" and "ci_tokenId info = 0"
  obtains blockSlope pt ep h where "block_slope E (last_point E v) = Inr blockSlope"
    and "fill_weeks (ve_slopeChanges v) (vn_now E) (vn_block E) blockSlope 255 (pt_ts (last_point E v) div WEEK * WEEK) (pt_ts (last_point E v))
      (last_point E v) (ve_epoch v) (ve_pointHistory v) = Inr (pt, ep, h)"
    and "v' = v\<lparr>ve_epoch := ep, ve_pointHistory := h(ep := pt)\<rparr>"
  using assms(1) by (simp add: checkpoint_internal_def Let_def assms(2)) (auto simp: bind_res_eq_Inr intro: that)

lemma checkpoint_frame:
  assumes "checkpoint_internal E info v = Inr v'"
  obtains ep h ue uh sl where
    "v' = v\<lparr>ve_epoch := ep, ve_pointHistory := h, ve_slopeChanges := sl, ve_userPointEpoch := ue, ve_userPointHistory := uh\<rparr>"
proof (cases "ci_tokenId info = 0")
  case True
  from assms True show thesis
  proof (rule checkpoint_global_steps)
    fix ep h pt
    assume "v' = v\<lparr>ve_epoch := ep, ve_pointHistory := h(ep := pt)\<rparr>"
    then show thesis using that [where ep = ep and h = "h(ep := pt)" and sl = "ve_slopeChanges v" and ue = "ve_userPointEpoch v" and uh = "ve_userPointHistory v"] by simp
  qed
next
  case False
  from assms False show thesis by (rule checkpoint_user_steps) (erule record_user_point_frame, simp add: that)
qed

text \<open>What belongs to the NFTs.\<close>

definition nft_part where
  "nft_part v = (ve_idToOwner v, ve_idToApprovals v, ve_ownerToNFTokenCount v, ve_ownerToNFTokenIdList v, ve_tokenToOwnerIndex v,
     ve_ownerToOperators v, ve_tokenId v)"

lemma checkpoint_nft: "checkpoint_internal E info v = Inr v' \<Longrightarrow> nft_part v' = nft_part v"
  by (erule checkpoint_frame) (simp add: nft_part_def)

text \<open>What a call that returned has done, step by step.\<close>

lemma require_Inr: "require b m = Inr u \<longleftrightarrow> b"
  by (simp add: require_def)

lemmas returned = bind_res_eq_Inr require_Inr prod.case ex_simps

lemma depositFor_steps:
  assumes "depositFor E info (v, t) = Inr (v', t')"
  obtains d v1 where "deposit_amounts E info v = Inr (d, v1)"
    and "checkpoint_internal E \<lparr>ci_tokenId = di_tokenId info, ci_oldDerivedAmount = di_lockedDerivedAmount info, ci_newDerivedAmount = d,
        ci_oldEnd = di_lockedEnd info, ci_newEnd = (if di_unlockTime info \<noteq> 0 then di_unlockTime info else di_lockedEnd info)\<rparr>
      (if di_unlockTime info \<noteq> 0 then v1\<lparr>ve_lockedEnd := (ve_lockedEnd v1)(di_tokenId info := di_unlockTime info)\<rparr> else v1) = Inr v'"
    and "(if di_value info \<noteq> 0 \<and> di_depositType info \<noteq> MERGE_TYPE
      then sk_safeTransferFrom (vn_stk E) t (di_stakingToken info) (ve_self v') (vn_sender E) (ve_self v') (di_value info) else Inr t) = Inr t'"
proof -
  obtain d v1 where d: "deposit_amounts E info v = Inr (d, v1)"
      and c: "bind_res (checkpoint_internal E \<lparr>ci_tokenId = di_tokenId info, ci_oldDerivedAmount = di_lockedDerivedAmount info, ci_newDerivedAmount = d,
        ci_oldEnd = di_lockedEnd info, ci_newEnd = (if di_unlockTime info \<noteq> 0 then di_unlockTime info else di_lockedEnd info)\<rparr>
        (if di_unlockTime info \<noteq> 0 then v1\<lparr>ve_lockedEnd := (ve_lockedEnd v1)(di_tokenId info := di_unlockTime info)\<rparr> else v1)) (\<lambda>v3.
        if di_value info \<noteq> 0 \<and> di_depositType info \<noteq> MERGE_TYPE
        then pullStakingToken E (di_stakingToken info) (vn_sender E) (di_value info) (v3, t) else Inr (v3, t)) = Inr (v', t')"
    using assms unfolding depositFor_def Let_def by (auto simp: bind_res_eq_Inr simp del: fun_upd_apply split del: if_split)
  from c obtain v3 where "checkpoint_internal E \<lparr>ci_tokenId = di_tokenId info, ci_oldDerivedAmount = di_lockedDerivedAmount info, ci_newDerivedAmount = d,
        ci_oldEnd = di_lockedEnd info, ci_newEnd = (if di_unlockTime info \<noteq> 0 then di_unlockTime info else di_lockedEnd info)\<rparr>
        (if di_unlockTime info \<noteq> 0 then v1\<lparr>ve_lockedEnd := (ve_lockedEnd v1)(di_tokenId info := di_unlockTime info)\<rparr> else v1) = Inr v3"
      and p: "(if di_value info \<noteq> 0 \<and> di_depositType info \<noteq> MERGE_TYPE
        then pullStakingToken E (di_stakingToken info) (vn_sender E) (di_value info) (v3, t) else Inr (v3, t)) = Inr (v', t')"
    by (simp only: bind_res_eq_Inr) (elim exE conjE)
  moreover from p have "v3 = v'" and "(if di_value info \<noteq> 0 \<and> di_depositType info \<noteq> MERGE_TYPE
      then sk_safeTransferFrom (vn_stk E) t (di_stakingToken info) (ve_self v') (vn_sender E) (ve_self v') (di_value info) else Inr t) = Inr t'"
    by (auto simp: pullStakingToken_def bind_res_eq_Inr split: if_splits)
  ultimately show thesis using that d by blast
qed

lemma deposit_amounts_frame:
  assumes "deposit_amounts E info v = Inr (d, v1)"
  shows "di_value info = 0 \<Longrightarrow> d = di_lockedDerivedAmount info \<and> v1 = v"
    and "di_value info \<noteq> 0 \<Longrightarrow> v1 = v\<lparr>ve_lockedAmounts := (ve_lockedAmounts v)(di_tokenId info :=
        (ve_lockedAmounts v (di_tokenId info))(di_stakingToken info := di_lockedAmount info + di_value info)),
      ve_lockedDerivedAmount := (ve_lockedDerivedAmount v)(di_tokenId info := d)\<rparr>"
  using assms by (auto simp: deposit_amounts_def set_locked_def bind_res_eq_Inr checked_Inr split: if_splits)

lemma createLock_steps:
  assumes "createLockFor E token value duration to (v, t) = Inr (i, v', t')"
  obtains unlockTime v1 v2 where "0 < value" and "vn_now E < unlockTime" and "unlockTime \<le> vn_now E + MAX_TIME" and "WEEK dvd unlockTime"
    and "ve_isValidToken v token"
    and "incrementTokenIdAndGet v = Inr (i, v1)" and "ve_mint E to i v1 = Inr v2"
    and "depositFor E \<lparr>di_stakingToken = token, di_tokenId = i, di_value = value, di_unlockTime = unlockTime, di_lockedAmount = 0,
       di_lockedDerivedAmount = 0, di_lockedEnd = 0, di_depositType = CREATE_LOCK_TYPE\<rparr> (v2, t) = Inr (v', t')"
  using assms unfolding createLockFor_def unlock_time_def
  by (simp only: returned checked_Inr sum.inject case_prod_unfold) (elim exE conjE, hypsubst, auto intro: that)

lemma increaseAmount_steps:
  assumes "increaseAmount E token i value (v, t) = Inr (v', t')"
  shows "0 < value" and "0 < ve_lockedDerivedAmount v i" and "vn_now E < ve_lockedEnd v i" and "ve_isValidToken v token"
    and "depositFor E \<lparr>di_stakingToken = token, di_tokenId = i, di_value = value, di_unlockTime = 0, di_lockedAmount = ve_lockedAmounts v i token,
       di_lockedDerivedAmount = ve_lockedDerivedAmount v i, di_lockedEnd = ve_lockedEnd v i, di_depositType = INCREASE_LOCK_AMOUNT\<rparr> (v, t) = Inr (v', t')"
  using assms unfolding increaseAmount_def by (auto split: if_splits)

lemma increaseUnlockTime_steps:
  assumes "increaseUnlockTime E i duration (v, t) = Inr (r, v', t')"
  obtains unlockTime where "0 < ve_lockedDerivedAmount v i" and "vn_now E < ve_lockedEnd v i" and "ve_lockedEnd v i < unlockTime"
    and "unlockTime \<le> vn_now E + MAX_TIME" and "WEEK dvd unlockTime" and "isApprovedOrOwner v (vn_sender E) i"
    and "depositFor E \<lparr>di_stakingToken = 0, di_tokenId = i, di_value = 0, di_unlockTime = unlockTime, di_lockedAmount = 0,
       di_lockedDerivedAmount = ve_lockedDerivedAmount v i, di_lockedEnd = ve_lockedEnd v i, di_depositType = INCREASE_UNLOCK_TIME\<rparr> (v, t) = Inr (v', t')"
  using assms unfolding increaseUnlockTime_def unlock_time_def
  by (simp only: returned checked_Inr sum.inject case_prod_unfold) (elim exE conjE, hypsubst, auto intro: that)

lemma merge_steps:
  assumes "ve_merge E source target (v, t) = Inr (v', t')"
  obtains lockEnd x v1 v3 where "source \<noteq> target" and "ve_idToOwner v source = vn_sender E" and "ve_idToOwner v target = vn_sender E"
    and "vn_now E < ve_lockedEnd v source" and "vn_now E < ve_lockedEnd v target" and "lockEnd = max (ve_lockedEnd v source) (ve_lockedEnd v target)"
    and "fold_res (merge_token E source target lockEnd) (ve_tokens v) (ve_lockedEnd v target, v, t) = Inr (x, v1, t')"
    and "checkpoint_internal E \<lparr>ci_tokenId = source, ci_oldDerivedAmount = ve_lockedDerivedAmount v source, ci_newDerivedAmount = 0,
       ci_oldEnd = ve_lockedEnd v source, ci_newEnd = ve_lockedEnd v source\<rparr>
      (v1\<lparr>ve_lockedDerivedAmount := (ve_lockedDerivedAmount v1)(source := 0), ve_lockedEnd := (ve_lockedEnd v1)(source := 0)\<rparr>) = Inr v3"
    and "ve_burn E source v3 = Inr v'"
proof -
  have m: "(if ve_lockedEnd v target \<le> ve_lockedEnd v source then ve_lockedEnd v source else ve_lockedEnd v target) = max (ve_lockedEnd v source) (ve_lockedEnd v target)"
    by simp
  define lockEnd where "lockEnd = max (ve_lockedEnd v source) (ve_lockedEnd v target)"
  define info where "info = \<lparr>ci_tokenId = source, ci_oldDerivedAmount = ve_lockedDerivedAmount v source, ci_newDerivedAmount = 0,
     ci_oldEnd = ve_lockedEnd v source, ci_newEnd = ve_lockedEnd v source\<rparr>"
  have g: "source \<noteq> target" "ve_idToOwner v source = vn_sender E" "ve_idToOwner v target = vn_sender E"
      "vn_now E < ve_lockedEnd v source" "vn_now E < ve_lockedEnd v target"
    and r: "bind_res (fold_res (merge_token E source target lockEnd) (ve_tokens v) (ve_lockedEnd v target, v, t)) (\<lambda>(_, v1, t1).
       bind_res (checkpoint_internal E info
         (v1\<lparr>ve_lockedDerivedAmount := (ve_lockedDerivedAmount v1)(source := 0), ve_lockedEnd := (ve_lockedEnd v1)(source := 0)\<rparr>)) (\<lambda>v3.
       bind_res (ve_burn E source v3) (\<lambda>v4. Inr (v4, t1)))) = Inr (v', t')"
    using assms unfolding ve_merge_def Let_def m prod.case lockEnd_def [symmetric] info_def [symmetric] by (simp_all split: if_splits)
  from r obtain y where y: "fold_res (merge_token E source target lockEnd) (ve_tokens v) (ve_lockedEnd v target, v, t) = Inr y"
      and r': "(\<lambda>(_, v1, t1). bind_res (checkpoint_internal E info
         (v1\<lparr>ve_lockedDerivedAmount := (ve_lockedDerivedAmount v1)(source := 0), ve_lockedEnd := (ve_lockedEnd v1)(source := 0)\<rparr>)) (\<lambda>v3.
       bind_res (ve_burn E source v3) (\<lambda>v4. Inr (v4, t1)))) y = Inr (v', t')"
    unfolding bind_res_eq_Inr by (elim exE conjE)
  obtain x v1 t1 where xv: "y = (x, v1, t1)" by (cases y)
  from r' obtain v3 where "checkpoint_internal E info
       (v1\<lparr>ve_lockedDerivedAmount := (ve_lockedDerivedAmount v1)(source := 0), ve_lockedEnd := (ve_lockedEnd v1)(source := 0)\<rparr>) = Inr v3"
      "ve_burn E source v3 = Inr v'" "t1 = t'"
    unfolding xv prod.case bind_res_eq_Inr by (elim exE conjE) simp
  then show thesis using that [OF g lockEnd_def] y unfolding xv info_def by simp
qed

lemma split_steps:
  assumes "ve_split E i percent (v, t) = Inr (v', t')"
  obtains j v1 v2 x v3 where "ve_idToOwner v i = vn_sender E" and "percent \<noteq> 0" and "percent < 100 * 10 ^ 18" and "vn_now E < ve_lockedEnd v i"
    and "incrementTokenIdAndGet v = Inr (j, v1)" and "ve_mint E (vn_sender E) j v1 = Inr v2"
    and "fold_res (split_token E i j percent (ve_lockedEnd v i)) (ve_tokens v2) (ve_lockedDerivedAmount v i, v2, t) = Inr (x, v3, t')"
    and "checkpoint_internal E \<lparr>ci_tokenId = i, ci_oldDerivedAmount = ve_lockedDerivedAmount v i, ci_newDerivedAmount = x,
       ci_oldEnd = ve_lockedEnd v i, ci_newEnd = ve_lockedEnd v i\<rparr>
      (v3\<lparr>ve_lockedDerivedAmount := (ve_lockedDerivedAmount v3)(i := x)\<rparr>) = Inr v'"
  using assms unfolding ve_split_def Let_def
  by (simp only: returned sum.inject case_prod_unfold) (elim exE conjE, auto intro: that)

lemma withdraw_steps:
  assumes "ve_withdraw E token i (v, t) = Inr (v', t')"
  obtains d v2 newEnd where "isApprovedOrOwner v (vn_sender E) i" and "ve_lockedEnd v i \<le> vn_now E" and "0 < ve_lockedAmounts v i token"
    and "newEnd = (if d = 0 then 0 else ve_lockedEnd v i)"
    and "checkpoint_internal E \<lparr>ci_tokenId = i, ci_oldDerivedAmount = ve_lockedDerivedAmount v i, ci_newDerivedAmount = d,
       ci_oldEnd = ve_lockedEnd v i, ci_newEnd = newEnd\<rparr>
      (set_locked i token 0 (v\<lparr>ve_lockedEnd := (ve_lockedEnd v)(i := newEnd), ve_lockedDerivedAmount := (ve_lockedDerivedAmount v)(i := d)\<rparr>)) = Inr v2"
    and "(if d = 0 then ve_burn E i v2 else Inr v2) = Inr v'"
    and "sk_safeTransfer (vn_stk E) t token (ve_self v') (vn_sender E) (ve_lockedAmounts v i token) = Inr t'"
  using assms unfolding ve_withdraw_def Let_def transferUnderlyingToken_def
  by (simp only: returned sum.inject prod.inject) (elim exE conjE, hypsubst, rule that, assumption+, rule refl, assumption+)

lemma depositFor_nft:
  assumes "depositFor E info (v, t) = Inr (v', t')"
  shows "nft_part v' = nft_part v"
  using assms
proof (rule depositFor_steps)
  fix d v1
  assume d: "deposit_amounts E info v = Inr (d, v1)"
    and c: "checkpoint_internal E \<lparr>ci_tokenId = di_tokenId info, ci_oldDerivedAmount = di_lockedDerivedAmount info, ci_newDerivedAmount = d,
        ci_oldEnd = di_lockedEnd info, ci_newEnd = (if di_unlockTime info \<noteq> 0 then di_unlockTime info else di_lockedEnd info)\<rparr>
      (if di_unlockTime info \<noteq> 0 then v1\<lparr>ve_lockedEnd := (ve_lockedEnd v1)(di_tokenId info := di_unlockTime info)\<rparr> else v1) = Inr v'"
  have "nft_part v1 = nft_part v" using deposit_amounts_frame [OF d] by (cases "di_value info = 0") (auto simp: nft_part_def)
  then show ?thesis using checkpoint_nft [OF c] by (auto simp: nft_part_def split: if_splits)
qed

section \<open>Lists of tokens\<close>

text \<open>
  The list of an owner has the tokens of the owner, each at its index; tokens have been minted, only a token with an owner
  has an approved spender, and nobody is an operator of the zero address.
\<close>

definition well_owned :: "escrow \<Rightarrow> bool" where
  "well_owned v \<longleftrightarrow>
     (\<forall>i. ve_idToOwner v i \<noteq> 0 \<longrightarrow> ve_tokenToOwnerIndex v i < ve_ownerToNFTokenCount v (ve_idToOwner v i)
        \<and> ve_ownerToNFTokenIdList v (ve_idToOwner v i) (ve_tokenToOwnerIndex v i) = i \<and> 0 < i \<and> i \<le> ve_tokenId v)
     \<and> (\<forall>a k. k < ve_ownerToNFTokenCount v a \<longrightarrow> ve_idToOwner v (ve_ownerToNFTokenIdList v a k) = a
        \<and> ve_tokenToOwnerIndex v (ve_ownerToNFTokenIdList v a k) = k)
     \<and> ve_ownerToNFTokenCount v 0 = 0
     \<and> (\<forall>i. ve_idToOwner v i = 0 \<longrightarrow> ve_idToApprovals v i = 0) \<and> (\<forall>b. \<not> ve_ownerToOperators v 0 b)"

lemma well_owned_same: "well_owned v \<Longrightarrow> nft_part v' = nft_part v \<Longrightarrow> well_owned v'"
  by (simp add: well_owned_def nft_part_def)

lemma well_ownedD:
  assumes "well_owned v"
  shows "ve_idToOwner v i \<noteq> 0 \<Longrightarrow> ve_tokenToOwnerIndex v i < ve_ownerToNFTokenCount v (ve_idToOwner v i)
      \<and> ve_ownerToNFTokenIdList v (ve_idToOwner v i) (ve_tokenToOwnerIndex v i) = i \<and> 0 < i \<and> i \<le> ve_tokenId v"
    and "k < ve_ownerToNFTokenCount v a \<Longrightarrow> ve_idToOwner v (ve_ownerToNFTokenIdList v a k) = a
      \<and> ve_tokenToOwnerIndex v (ve_ownerToNFTokenIdList v a k) = k"
    and "ve_ownerToNFTokenCount v 0 = 0" and "ve_idToOwner v i = 0 \<Longrightarrow> ve_idToApprovals v i = 0" and "\<not> ve_ownerToOperators v 0 b"
  using assms unfolding well_owned_def by blast+

lemma well_ownedI:
  assumes "\<And>i. ve_idToOwner v i \<noteq> 0 \<Longrightarrow> ve_tokenToOwnerIndex v i < ve_ownerToNFTokenCount v (ve_idToOwner v i)"
    and "\<And>i. ve_idToOwner v i \<noteq> 0 \<Longrightarrow> ve_ownerToNFTokenIdList v (ve_idToOwner v i) (ve_tokenToOwnerIndex v i) = i"
    and "\<And>i. ve_idToOwner v i \<noteq> 0 \<Longrightarrow> 0 < i \<and> i \<le> ve_tokenId v"
    and "\<And>a k. k < ve_ownerToNFTokenCount v a \<Longrightarrow> ve_idToOwner v (ve_ownerToNFTokenIdList v a k) = a"
    and "\<And>a k. k < ve_ownerToNFTokenCount v a \<Longrightarrow> ve_tokenToOwnerIndex v (ve_ownerToNFTokenIdList v a k) = k"
    and "ve_ownerToNFTokenCount v 0 = 0" and "\<And>i. ve_idToOwner v i = 0 \<Longrightarrow> ve_idToApprovals v i = 0" and "\<And>b. \<not> ve_ownerToOperators v 0 b"
  shows "well_owned v"
  using assms unfolding well_owned_def by blast

lemma addTokenTo_well_owned:
  assumes "addTokenTo to i v = Inr v'" and "well_owned v" and "ve_idToOwner v i = 0" and "to \<noteq> 0" and "0 < i" and "i \<le> ve_tokenId v"
  shows "well_owned v'"
proof -
  let ?n = "ve_ownerToNFTokenCount v to"
  have v': "ve_idToOwner v' = (ve_idToOwner v)(i := to)" "ve_tokenToOwnerIndex v' = (ve_tokenToOwnerIndex v)(i := ?n)"
    "ve_ownerToNFTokenIdList v' = (ve_ownerToNFTokenIdList v)(to := (ve_ownerToNFTokenIdList v to)(?n := i))"
    "ve_ownerToNFTokenCount v' = (ve_ownerToNFTokenCount v)(to := ?n + 1)" "ve_tokenId v' = ve_tokenId v"
    "ve_idToApprovals v' = ve_idToApprovals v" "ve_ownerToOperators v' = ve_ownerToOperators v"
    using assms(1) by (auto simp: addTokenTo_def addTokenToOwnerList_def set_index_def set_in_list_def Let_def bind_res_eq_Inr checked_Inr)
  note w = well_ownedD [OF assms(2)]
  have index: "ve_tokenToOwnerIndex v j < ve_ownerToNFTokenCount v (ve_idToOwner v j)" if "ve_idToOwner v j \<noteq> 0" for j using w(1) [OF that] by simp
  have other: "ve_ownerToNFTokenIdList v a k \<noteq> i" if "k < ve_ownerToNFTokenCount v a" for a k
    using w(2) [OF that] w(3) assms(3) that by auto
  show ?thesis
  proof (rule well_ownedI)
    fix j
    assume "ve_idToOwner v' j \<noteq> 0"
    then have j: "j = i \<or> j \<noteq> i \<and> ve_idToOwner v j \<noteq> 0" by (auto simp: v' split: if_splits)
    show "ve_tokenToOwnerIndex v' j < ve_ownerToNFTokenCount v' (ve_idToOwner v' j)"
      using j index [of j] by (auto simp: v' less_Suc_eq)
    show "ve_ownerToNFTokenIdList v' (ve_idToOwner v' j) (ve_tokenToOwnerIndex v' j) = j"
      using j index [of j] w(1) [of j] by (auto simp: v')
    show "0 < j \<and> j \<le> ve_tokenId v'" using j w(1) [of j] assms(5,6) by (auto simp: v')
  next
    fix a k
    assume "k < ve_ownerToNFTokenCount v' a"
    then have k: "a = to \<and> k = ?n \<or> k < ve_ownerToNFTokenCount v a" by (auto simp: v' less_Suc_eq split: if_splits)
    then show "ve_idToOwner v' (ve_ownerToNFTokenIdList v' a k) = a" and "ve_tokenToOwnerIndex v' (ve_ownerToNFTokenIdList v' a k) = k"
      using w(2) [of k a] other [of k a] by (auto simp: v')
  qed (use w(3-5) assms(4) in \<open>auto simp: v' split: if_splits\<close>)
qed

lemma removeTokenFrom_fields:
  assumes "removeTokenFrom owner i v = Inr v'"
  shows "ve_idToOwner v i = owner" and "ve_idToOwner v' = (ve_idToOwner v)(i := 0)" and "ve_tokenId v' = ve_tokenId v"
    and "ve_idToApprovals v' = ve_idToApprovals v" and "ve_ownerToOperators v' = ve_ownerToOperators v"
    and "ve_ownerToNFTokenCount v' = (ve_ownerToNFTokenCount v)(owner := ve_ownerToNFTokenCount v owner - 1)"
    and "ve_ownerToNFTokenCount v owner - 1 = ve_tokenToOwnerIndex v i \<Longrightarrow> ve_tokenToOwnerIndex v' = (ve_tokenToOwnerIndex v)(i := 0)
      \<and> ve_ownerToNFTokenIdList v' = (ve_ownerToNFTokenIdList v)(owner := (ve_ownerToNFTokenIdList v owner)(ve_tokenToOwnerIndex v i := 0))"
    and "n = ve_ownerToNFTokenCount v owner - 1 \<Longrightarrow> n \<noteq> ve_tokenToOwnerIndex v i
      \<Longrightarrow> ve_tokenToOwnerIndex v' = (ve_tokenToOwnerIndex v)(ve_ownerToNFTokenIdList v owner n := ve_tokenToOwnerIndex v i, i := 0)
        \<and> ve_ownerToNFTokenIdList v' = (ve_ownerToNFTokenIdList v)(owner :=
          (ve_ownerToNFTokenIdList v owner)(ve_tokenToOwnerIndex v i := ve_ownerToNFTokenIdList v owner n, n := 0))"
  using assms
  by (auto simp: removeTokenFrom_def removeTokenFromOwnerList_def set_index_def set_in_list_def Let_def bind_res_eq_Inr checked_Inr split: if_splits)

text \<open>The token \<open>i\<close> at the index \<open>k\<close> goes; the last token, at the index \<open>n\<close>, takes its place.\<close>

lemma removal_shape:
  assumes "removeTokenFrom owner i v = Inr v'" and "well_owned v" and "owner \<noteq> 0"
  obtains n k last where "ve_ownerToNFTokenCount v owner = Suc n" and "k \<le> n" and "ve_tokenToOwnerIndex v i = k"
    and "ve_ownerToNFTokenIdList v owner k = i" and "ve_ownerToNFTokenIdList v owner n = last" and "ve_idToOwner v last = owner" and "ve_tokenToOwnerIndex v last = n"
    and "ve_tokenToOwnerIndex v' = (if n = k then (ve_tokenToOwnerIndex v)(i := 0) else (ve_tokenToOwnerIndex v)(last := k, i := 0))"
    and "ve_ownerToNFTokenIdList v' = (ve_ownerToNFTokenIdList v)(owner := (if n = k then (ve_ownerToNFTokenIdList v owner)(k := 0)
      else (ve_ownerToNFTokenIdList v owner)(k := last, n := 0)))"
proof -
  define n k where "n = ve_ownerToNFTokenCount v owner - 1" and "k = ve_tokenToOwnerIndex v i"
  define last where "last = ve_ownerToNFTokenIdList v owner n"
  note f = removeTokenFrom_fields [OF assms(1)] and w = well_ownedD [OF assms(2)]
  have k: "k < ve_ownerToNFTokenCount v owner" "ve_ownerToNFTokenIdList v owner k = i" using w(1) [of i] f(1) assms(3) by (auto simp: k_def)
  then have n: "ve_ownerToNFTokenCount v owner = Suc n" by (simp add: n_def)
  have last: "ve_idToOwner v last = owner" "ve_tokenToOwnerIndex v last = n" using w(2) [of n owner] n by (auto simp: last_def)
  have same: "n = k \<Longrightarrow> ve_tokenToOwnerIndex v' = (ve_tokenToOwnerIndex v)(i := 0)
      \<and> ve_ownerToNFTokenIdList v' = (ve_ownerToNFTokenIdList v)(owner := (ve_ownerToNFTokenIdList v owner)(k := 0))"
    using f(7) unfolding n_def k_def by blast
  have moved: "n \<noteq> k \<Longrightarrow> ve_tokenToOwnerIndex v' = (ve_tokenToOwnerIndex v)(last := k, i := 0)
      \<and> ve_ownerToNFTokenIdList v' = (ve_ownerToNFTokenIdList v)(owner := (ve_ownerToNFTokenIdList v owner)(k := last, n := 0))"
    using f(8) unfolding n_def k_def last_def by blast
  show thesis
    by (rule that [OF n _ _ k(2) _ last]; (cases "n = k"; simp add: same moved n_def [symmetric] k_def [symmetric] last_def [symmetric])?)
      (use k(1) n in \<open>simp_all add: k_def last_def\<close>)
qed

text \<open>A token that stays has its place in the list, and the places of the list have their tokens.\<close>

lemma removal_keeps_tokens:
  assumes "removeTokenFrom owner i v = Inr v'" and "well_owned v" and "owner \<noteq> 0" and "j \<noteq> i" and "ve_idToOwner v j \<noteq> 0"
  shows "ve_tokenToOwnerIndex v' j < ve_ownerToNFTokenCount v' (ve_idToOwner v j)"
    and "ve_ownerToNFTokenIdList v' (ve_idToOwner v j) (ve_tokenToOwnerIndex v' j) = j"
proof -
  obtain n k last where n: "ve_ownerToNFTokenCount v owner = Suc n" and k: "k \<le> n" "ve_tokenToOwnerIndex v i = k" "ve_ownerToNFTokenIdList v owner k = i"
      and last: "ve_ownerToNFTokenIdList v owner n = last" "ve_idToOwner v last = owner" "ve_tokenToOwnerIndex v last = n"
      and index: "ve_tokenToOwnerIndex v' = (if n = k then (ve_tokenToOwnerIndex v)(i := 0) else (ve_tokenToOwnerIndex v)(last := k, i := 0))"
      and list: "ve_ownerToNFTokenIdList v' = (ve_ownerToNFTokenIdList v)(owner := (if n = k then (ve_ownerToNFTokenIdList v owner)(k := 0)
        else (ve_ownerToNFTokenIdList v owner)(k := last, n := 0)))"
    using assms(1-3) by (rule removal_shape)
  define o_j k_j where "o_j = ve_idToOwner v j" and "k_j = ve_tokenToOwnerIndex v j"
  have wj: "k_j < ve_ownerToNFTokenCount v o_j" "ve_ownerToNFTokenIdList v o_j k_j = j"
    using well_ownedD(1) [OF assms(2,5)] by (simp_all add: o_j_def k_j_def)
  have own: "k_j \<noteq> k" "k_j \<noteq> n \<or> j = last" "k_j \<le> n" if "o_j = owner"
    using wj k(3) assms(4) n that last(1) by (blast, blast, simp)
  have index_j: "ve_tokenToOwnerIndex v' j = (if n \<noteq> k \<and> j = last then k else k_j)" using assms(4) by (auto simp: index k_j_def)
  have lasts: "j = last \<Longrightarrow> o_j = owner \<and> k_j = n" using last by (simp add: o_j_def k_j_def)
  have counts: "ve_ownerToNFTokenCount v' o_j = (if o_j = owner then n else ve_ownerToNFTokenCount v o_j)"
    using n by (auto simp: removeTokenFrom_fields(6) [OF assms(1)])
  show "ve_tokenToOwnerIndex v' j < ve_ownerToNFTokenCount v' (ve_idToOwner v j)"
    unfolding o_j_def [symmetric] index_j counts using own lasts wj(1) k(1) le_neq_implies_less by (cases "o_j = owner") auto
  show "ve_ownerToNFTokenIdList v' (ve_idToOwner v j) (ve_tokenToOwnerIndex v' j) = j"
    unfolding o_j_def [symmetric] index_j list using own lasts wj(2) by (cases "o_j = owner") auto
qed

lemma removal_keeps_places:
  assumes "removeTokenFrom owner i v = Inr v'" and "well_owned v" and "owner \<noteq> 0" and "m < ve_ownerToNFTokenCount v' a"
  shows "ve_idToOwner v' (ve_ownerToNFTokenIdList v' a m) = a \<and> ve_tokenToOwnerIndex v' (ve_ownerToNFTokenIdList v' a m) = m"
proof -
  obtain n k last where n: "ve_ownerToNFTokenCount v owner = Suc n" and k: "k \<le> n" "ve_tokenToOwnerIndex v i = k"
      and last: "ve_ownerToNFTokenIdList v owner n = last" "ve_idToOwner v last = owner" "ve_tokenToOwnerIndex v last = n"
      and index: "ve_tokenToOwnerIndex v' = (if n = k then (ve_tokenToOwnerIndex v)(i := 0) else (ve_tokenToOwnerIndex v)(last := k, i := 0))"
      and list: "ve_ownerToNFTokenIdList v' = (ve_ownerToNFTokenIdList v)(owner := (if n = k then (ve_ownerToNFTokenIdList v owner)(k := 0)
        else (ve_ownerToNFTokenIdList v owner)(k := last, n := 0)))"
    using assms(1-3) by (rule removal_shape)
  note f = removeTokenFrom_fields [OF assms(1)]
  define x where "x = ve_ownerToNFTokenIdList v a m"
  have mn: "m < ve_ownerToNFTokenCount v a" "a \<noteq> owner \<or> m < n" using assms(4) n by (auto simp: f(6) split: if_splits)
  have x: "ve_idToOwner v x = a" "ve_tokenToOwnerIndex v x = m" using well_ownedD(2) [OF assms(2) mn(1)] by (simp_all add: x_def)
  show ?thesis
  proof (cases "a = owner \<and> n \<noteq> k \<and> m = k")
    case True
    then have "ve_ownerToNFTokenIdList v' a m = last" by (simp add: list)
    moreover have "last \<noteq> i" using last(3) k True by auto
    ultimately show ?thesis using True last(2) by (simp add: f(2) index)
  next
    case False
    then have "ve_ownerToNFTokenIdList v' a m = x" using mn(2) by (auto simp: list x_def)
    moreover have "x \<noteq> i" using x f(1) k(2) False mn(2) by auto
    moreover have "x \<noteq> last" using x last mn(2) by auto
    ultimately show ?thesis using x by (simp add: f(2) index)
  qed
qed

lemma removeTokenFrom_well_owned:
  assumes "removeTokenFrom owner i v = Inr v'" and "well_owned v" and "owner \<noteq> 0" and "ve_idToApprovals v i = 0"
  shows "well_owned v'"
proof -
  note f = removeTokenFrom_fields [OF assms(1)] and w = well_ownedD [OF assms(2)]
  show ?thesis
  proof (rule well_ownedI)
    fix j
    assume "ve_idToOwner v' j \<noteq> 0"
    then have j: "j \<noteq> i" "ve_idToOwner v j \<noteq> 0" "ve_idToOwner v' j = ve_idToOwner v j" by (auto simp: f(2) split: if_splits)
    show "ve_tokenToOwnerIndex v' j < ve_ownerToNFTokenCount v' (ve_idToOwner v' j)"
      and "ve_ownerToNFTokenIdList v' (ve_idToOwner v' j) (ve_tokenToOwnerIndex v' j) = j"
      using removal_keeps_tokens [OF assms(1-3) j(1,2)] by (simp_all add: j(3))
    show "0 < j \<and> j \<le> ve_tokenId v'" using w(1) [OF j(2)] by (simp add: f(3))
  next
    show "ve_idToApprovals v' j = 0" if "ve_idToOwner v' j = 0" for j using that w(4) [of j] assms(4) by (auto simp: f(2,4) split: if_splits)
  qed (use removal_keeps_places [OF assms(1-3)] w(3,5) in \<open>auto simp: f(5,6)\<close>)
qed

section \<open>Calls\<close>

lemma unowned_not_approved:
  assumes "well_owned v" and "isApprovedOrOwner v sender i" and "sender \<noteq> 0"
  shows "ve_idToOwner v i \<noteq> 0"
proof
  assume "ve_idToOwner v i = 0"
  with assms well_ownedD(4,5) [OF assms(1)] show False by (auto simp: isApprovedOrOwner_def)
qed

lemma transfer_well_owned:
  assumes "transferFrom_internal E owner to i sender v = Inr v'" and "well_owned v" and "sender \<noteq> 0"
  shows "well_owned v'"
proof -
  define v0 where "v0 = (if ve_idToApprovals v i \<noteq> 0 then v\<lparr>ve_idToApprovals := (ve_idToApprovals v)(i := 0)\<rparr> else v)"
  obtain v1 v2 where g: "isApprovedOrOwner v sender i" "to \<noteq> 0" "removeTokenFrom owner i v0 = Inr v1" "addTokenTo to i v1 = Inr v2"
      and v': "v' = v2\<lparr>ve_ownershipChange := (ve_ownershipChange v2)(i := vn_block E)\<rparr>"
    using assms(1) unfolding transferFrom_internal_def v0_def [symmetric] by (auto simp: bind_res_eq_Inr split: if_splits)
  have v0: "well_owned v0" "ve_idToApprovals v0 i = 0" "ve_idToOwner v0 = ve_idToOwner v" "ve_tokenId v0 = ve_tokenId v"
    using assms(2) by (auto simp: v0_def well_owned_def)
  note f = removeTokenFrom_fields [OF g(3)]
  have owned: "ve_idToOwner v i \<noteq> 0" using assms(2) g(1) assms(3) by (rule unowned_not_approved)
  then have "well_owned v1" using removeTokenFrom_well_owned [OF g(3) v0(1)] f(1) v0(2,3) by simp
  then have "well_owned v2"
    using addTokenTo_well_owned [OF g(4)] g(2) f(2,3) v0(4) well_ownedD(1) [OF assms(2) owned] by simp
  then show ?thesis by (rule well_owned_same) (simp add: v' nft_part_def)
qed

lemma well_owned_later:
  assumes "well_owned v" and "ve_tokenId v \<le> n"
  shows "well_owned (v\<lparr>ve_tokenId := n\<rparr>)"
  unfolding well_owned_def
proof (intro conjI allI impI)
  show "i \<le> ve_tokenId (v\<lparr>ve_tokenId := n\<rparr>)" if "ve_idToOwner (v\<lparr>ve_tokenId := n\<rparr>) i \<noteq> 0" for i
    using well_ownedD(1) [OF assms(1), of i] assms(2) that by simp
qed (use well_ownedD [OF assms(1)] in simp_all)

lemma mint_well_owned:
  assumes "incrementTokenIdAndGet v = Inr (i, v1)" and "ve_mint E to i v1 = Inr v'" and "well_owned v"
  shows "well_owned v'" and "ve_tokens v' = ve_tokens v"
proof -
  have v1: "i = Suc (ve_tokenId v)" "v1 = v\<lparr>ve_tokenId := i\<rparr>" using assms(1) by (auto simp: incrementTokenIdAndGet_def bind_res_eq_Inr checked_Inr)
  have add: "addTokenTo to i v1 = Inr v'" "to \<noteq> 0" using assms(2) by (auto simp: ve_mint_def bind_res_eq_Inr split: if_splits)
  have "well_owned v1" using well_owned_later [OF assms(3), of i] by (simp add: v1)
  moreover have "ve_idToOwner v1 i = 0" using well_ownedD(1) [OF assms(3), of i] by (auto simp: v1)
  ultimately show "well_owned v'" using addTokenTo_well_owned [OF add(1)] add(2) by (simp add: v1)
  show "ve_tokens v' = ve_tokens v"
    using add(1) by (auto simp: addTokenTo_def addTokenToOwnerList_def set_index_def set_in_list_def Let_def bind_res_eq_Inr v1)
qed

lemma burn_well_owned:
  assumes "ve_burn E i v = Inr v'" and "well_owned v"
  shows "well_owned v'"
proof -
  obtain v1 where v1: "v1 = v\<lparr>ve_idToApprovals := (ve_idToApprovals v)(i := 0)\<rparr>" "ve_idToOwner v i \<noteq> 0" "removeTokenFrom (ve_idToOwner v i) i v1 = Inr v'"
    using assms(1) by (auto simp: ve_burn_def ve_approve_def Let_def bind_res_eq_Inr split: if_splits)
  have "well_owned v1" using assms(2) by (auto simp: v1(1) well_owned_def)
  then show ?thesis using removeTokenFrom_well_owned [OF v1(3)] v1(1,2) by simp
qed

lemma createLock_well_owned:
  assumes "createLockFor E token value d to (v, t) = Inr (i, v', t')" and "well_owned v"
  shows "well_owned v'"
  using assms(1) by (rule createLock_steps) (rule well_owned_same [OF mint_well_owned(1) depositFor_nft], assumption+, rule assms(2), assumption)

lemma tokens_loop:
  assumes "fold_res f tokens (x, v, t) = Inr (x', v', t')" and "P x v t"
    and "\<And>token x v t x' v' t'. token \<in> set tokens \<Longrightarrow> P x v t \<Longrightarrow> f token (x, v, t) = Inr (x', v', t') \<Longrightarrow> P x' v' t'"
  shows "P x' v' t'"
proof -
  have "(\<lambda>(x, v, t). P x v t) (x', v', t')"
    by (rule fold_res_invariant [OF assms(1)]) (use assms(2,3) in auto)
  then show ?thesis by simp
qed

lemma set_locked_nft: "nft_part (set_locked i token n v) = nft_part v"
  by (simp add: set_locked_def nft_part_def)

lemma merge_token_steps:
  assumes "merge_token E source target e token (x, v, t) = Inr (x', v', t')"
  shows "ve_lockedAmounts v source token = 0 \<and> (x', v', t') = (x, v, t)
    \<or> ve_lockedAmounts v source token \<noteq> 0 \<and> x' = e
      \<and> depositFor E \<lparr>di_stakingToken = token, di_tokenId = target, di_value = ve_lockedAmounts v source token, di_unlockTime = e,
         di_lockedAmount = ve_lockedAmounts (set_locked source token 0 v) target token, di_lockedDerivedAmount = ve_lockedDerivedAmount v target,
         di_lockedEnd = x, di_depositType = MERGE_TYPE\<rparr> (set_locked source token 0 v, t) = Inr (v', t')"
  using assms by (auto simp: merge_token_def Let_def bind_res_eq_Inr set_locked_def split: if_splits)

lemma split_token_steps:
  assumes "split_token E i j percent e token (x, v, t) = Inr (x', v', t')"
  shows "ve_lockedAmounts v i token = 0 \<and> (x', v', t') = (x, v, t)
    \<or> (\<exists>n. ve_lockedAmounts v i token \<noteq> 0 \<and> n \<noteq> 0 \<and> n \<le> ve_lockedAmounts v i token
      \<and> depositFor E \<lparr>di_stakingToken = token, di_tokenId = j, di_value = n, di_unlockTime = e, di_lockedAmount = 0,
         di_lockedDerivedAmount = ve_lockedDerivedAmount v j, di_lockedEnd = e, di_depositType = MERGE_TYPE\<rparr>
        (set_locked i token (ve_lockedAmounts v i token - n) v, t) = Inr (v', t'))"
  using assms by (auto simp: split_token_def Let_def bind_res_eq_Inr checked_Inr set_locked_def split: if_splits)

lemma token_steps_nft:
  "merge_token E source target e token (x, v, t) = Inr (x', v', t') \<Longrightarrow> nft_part v' = nft_part v"
  "split_token E i j percent e token (x, v, t) = Inr (x', v', t') \<Longrightarrow> nft_part v' = nft_part v"
  by (auto simp: set_locked_nft dest!: merge_token_steps split_token_steps depositFor_nft)

lemma tokens_loop_nft:
  "fold_res (merge_token E source target e) tokens (x, v, t) = Inr (x', v', t') \<Longrightarrow> nft_part v' = nft_part v"
  "fold_res (split_token E i j percent e) tokens (x, v, t) = Inr (x', v', t') \<Longrightarrow> nft_part v' = nft_part v"
  using tokens_loop [where P = "\<lambda>x v' t. nft_part v' = nft_part v"] token_steps_nft by metis+

lemma merge_well_owned:
  assumes "ve_merge E source target (v, t) = Inr (v', t')" and "well_owned v"
  shows "well_owned v'"
  using assms(1)
proof (rule merge_steps)
  fix e x v1 v3
  assume l: "fold_res (merge_token E source target e) (ve_tokens v) (ve_lockedEnd v target, v, t) = Inr (x, v1, t')"
    and c: "checkpoint_internal E \<lparr>ci_tokenId = source, ci_oldDerivedAmount = ve_lockedDerivedAmount v source, ci_newDerivedAmount = 0,
       ci_oldEnd = ve_lockedEnd v source, ci_newEnd = ve_lockedEnd v source\<rparr>
      (v1\<lparr>ve_lockedDerivedAmount := (ve_lockedDerivedAmount v1)(source := 0), ve_lockedEnd := (ve_lockedEnd v1)(source := 0)\<rparr>) = Inr v3"
    and b: "ve_burn E source v3 = Inr v'"
  have "nft_part v3 = nft_part v" using tokens_loop_nft(1) [OF l] checkpoint_nft [OF c] by (simp add: nft_part_def)
  then show ?thesis using burn_well_owned [OF b] well_owned_same [OF assms(2)] by blast
qed

lemma split_well_owned:
  assumes "ve_split E i percent (v, t) = Inr (v', t')" and "well_owned v"
  shows "well_owned v'"
  using assms(1)
proof (rule split_steps)
  fix j v1 v2 x v3
  assume m: "incrementTokenIdAndGet v = Inr (j, v1)" "ve_mint E (vn_sender E) j v1 = Inr v2"
    and l: "fold_res (split_token E i j percent (ve_lockedEnd v i)) (ve_tokens v2) (ve_lockedDerivedAmount v i, v2, t) = Inr (x, v3, t')"
    and c: "checkpoint_internal E \<lparr>ci_tokenId = i, ci_oldDerivedAmount = ve_lockedDerivedAmount v i, ci_newDerivedAmount = x,
       ci_oldEnd = ve_lockedEnd v i, ci_newEnd = ve_lockedEnd v i\<rparr>
      (v3\<lparr>ve_lockedDerivedAmount := (ve_lockedDerivedAmount v3)(i := x)\<rparr>) = Inr v'"
  have "nft_part v' = nft_part v2" using tokens_loop_nft(2) [OF l] checkpoint_nft [OF c] by (simp add: nft_part_def)
  then show ?thesis using mint_well_owned(1) [OF m assms(2)] well_owned_same by blast
qed

lemma withdraw_well_owned:
  assumes "ve_withdraw E token i (v, t) = Inr (v', t')" and "well_owned v"
  shows "well_owned v'"
  using assms(1)
proof (rule withdraw_steps)
  fix d v2 newEnd
  assume c: "checkpoint_internal E \<lparr>ci_tokenId = i, ci_oldDerivedAmount = ve_lockedDerivedAmount v i, ci_newDerivedAmount = d,
       ci_oldEnd = ve_lockedEnd v i, ci_newEnd = newEnd\<rparr>
      (set_locked i token 0 (v\<lparr>ve_lockedEnd := (ve_lockedEnd v)(i := newEnd), ve_lockedDerivedAmount := (ve_lockedDerivedAmount v)(i := d)\<rparr>)) = Inr v2"
    and b: "(if d = 0 then ve_burn E i v2 else Inr v2) = Inr v'"
  have "nft_part v2 = nft_part v" using checkpoint_nft [OF c] by (simp add: nft_part_def set_locked_def)
  then have "well_owned v2" by (rule well_owned_same [OF assms(2)])
  then show ?thesis using b burn_well_owned by (auto split: if_splits)
qed

lemma settings_nft:
  "ve_setAddresses E a b c d v = Inr v' \<Longrightarrow> nft_part v' = nft_part v"
  "announceAction E type v = Inr v' \<Longrightarrow> nft_part v' = nft_part v"
  "whitelistTransferFor E a v = Inr v' \<Longrightarrow> nft_part v' = nft_part v"
  "ve_addToken E token weight v = Inr v' \<Longrightarrow> nft_part v' = nft_part v"
  by (auto simp: ve_setAddresses_def addToken_internal_def announceAction_def whitelistTransferFor_def ve_addToken_def Let_def bind_res_eq_Inr nft_part_def
      split: if_splits)

lemma approvals_well_owned:
  assumes "well_owned v"
  shows "ve_approve E a i v = Inr v' \<Longrightarrow> well_owned v'"
    and "setApprovalForAll E a b v = Inr v' \<Longrightarrow> vn_sender E \<noteq> 0 \<Longrightarrow> well_owned v'"
  using assms by (auto simp: ve_approve_def setApprovalForAll_def well_owned_def Let_def split: if_splits)

lemma withdrawAll_loop:
  assumes "withdrawAll E i s = Inr s'" and "P s" and "\<And>token v t v' t'. P (v, t) \<Longrightarrow> ve_withdraw E token i (v, t) = Inr (v', t') \<Longrightarrow> P (v', t')"
  shows "P s'"
  by (rule fold_res_invariant [OF assms(1) [unfolded withdrawAll_def], where I = P]) (use assms(2,3) in \<open>auto split: if_splits\<close>)

lemma perform_well_owned:
  assumes "ve_perform E c (v, t) = Inr (v', t')" and "well_owned v" and "vn_sender E \<noteq> 0"
  shows "well_owned v'"
proof (cases c)
  case (WithdrawAll i)
  then have "withdrawAll E i (v, t) = Inr (v', t')" using assms(1) by simp
  then have "well_owned (fst (v', t'))"
    by (rule withdrawAll_loop [where P = "\<lambda>s. well_owned (fst s)"]) (use assms(2) withdraw_well_owned in auto)
  then show ?thesis by simp
next
  case (Merge i j)
  then show ?thesis using assms(1,2) merge_well_owned by simp
next
  case (Split i n)
  then show ?thesis using assms(1,2) split_well_owned by simp
next
  case (Withdraw token i)
  then show ?thesis using assms(1,2) withdraw_well_owned by simp
next
  case (IncreaseAmount token i n)
  then have "increaseAmount E token i n (v, t) = Inr (v', t')" using assms(1) by simp
  from increaseAmount_steps(5) [OF this] show ?thesis by (rule well_owned_same [OF assms(2) depositFor_nft])
next
  case (IncreaseUnlockTime i d)
  then obtain r where "increaseUnlockTime E i d (v, t) = Inr (r, v', t')"
    using assms(1) by (cases "increaseUnlockTime E i d (v, t)") auto
  then show ?thesis by (rule increaseUnlockTime_steps) (rule well_owned_same [OF assms(2) depositFor_nft])
next
  case (CreateLock token n d)
  then obtain i where "createLockFor E token n d (vn_sender E) (v, t) = Inr (i, v', t')"
    using assms(1) by (cases "createLockFor E token n d (vn_sender E) (v, t)") (auto simp: createLock_def)
  then show ?thesis using assms(2) by (rule createLock_well_owned)
next
  case (CreateLockFor token n d to)
  then obtain i where "createLockFor E token n d to (v, t) = Inr (i, v', t')"
    using assms(1) by (cases "createLockFor E token n d to (v, t)") auto
  then show ?thesis using assms(2) by (rule createLock_well_owned)
next
  case (SafeTransferFrom a b i data)
  then obtain v1 where "transferFrom_internal E a b i (vn_sender E) v = Inr v1" "v' = v1"
    using assms(1) by (auto simp: on_escrow_def safeTransferFrom_def bind_res_eq_Inr split: if_splits)
  then show ?thesis using transfer_well_owned assms(2,3) by blast
qed (use assms in \<open>auto simp: on_escrow_def bind_res_eq_Inr ve_checkpoint_def intro: approvals_well_owned [OF assms(2)]
      settings_nft [THEN well_owned_same [OF assms(2)]] checkpoint_nft [THEN well_owned_same [OF assms(2)]]\<close>)

section \<open>Runs\<close>

text \<open>
  The escrow after deployment, and what calls lead to. A caller is neither the zero address nor the escrow itself, and
  every call has its own time, block and answers of the other contracts; the staked tokens are fixed.
\<close>

definition new_escrow :: "address \<Rightarrow> proxy \<Rightarrow> escrow" where
  "new_escrow self p =
     \<lparr>ve_self = self, ve_controllable = p, ve_troveManagerAddress = 0, ve_borrowerOperationsAddress = 0, ve_shadyAddress = 0, ve_tokens = [],
      ve_tokenWeights = (\<lambda>_. 0), ve_isValidToken = (\<lambda>_. False), ve_tokenId = 0, ve_lockedAmounts = (\<lambda>_ _. 0), ve_lockedDerivedAmount = (\<lambda>_. 0),
      ve_lockedEnd = (\<lambda>_. 0), ve_epoch = 0, ve_pointHistory = (\<lambda>_. no_point), ve_userPointHistory = (\<lambda>_ _. no_point), ve_userPointEpoch = (\<lambda>_. 0),
      ve_slopeChanges = (\<lambda>_. 0), ve_ownershipChange = (\<lambda>_. 0), ve_idToOwner = (\<lambda>_. 0), ve_idToApprovals = (\<lambda>_. 0),
      ve_ownerToNFTokenCount = (\<lambda>_. 0), ve_ownerToNFTokenIdList = (\<lambda>_ _. 0), ve_tokenToOwnerIndex = (\<lambda>_. 0),
      ve_ownerToOperators = (\<lambda>_ _. False), ve_supportedInterfaces = (\<lambda>_. False), ve_isWhitelistedTransfer = (\<lambda>_. False),
      ve_govActionTimeLock = (\<lambda>_. 0)\<rparr>"

inductive ve_run :: "'t staking_tokens \<Rightarrow> 't ve_state \<Rightarrow> 't ve_state \<Rightarrow> bool" for K s0 where
  start: "ve_run K s0 s0"
| call: "ve_run K s0 s \<Longrightarrow> vn_stk E = K \<Longrightarrow> vn_sender E \<noteq> 0 \<Longrightarrow> vn_sender E \<noteq> ve_self (fst s) \<Longrightarrow> ve_perform E c s = Inr s' \<Longrightarrow> ve_run K s0 s'"

text \<open>What every call keeps holds in every state of a run.\<close>

lemma ve_run_invariant:
  assumes "ve_run K s0 s" and "P s0"
    and "\<And>E c s s'. P s \<Longrightarrow> vn_stk E = K \<Longrightarrow> vn_sender E \<noteq> 0 \<Longrightarrow> vn_sender E \<noteq> ve_self (fst s) \<Longrightarrow> ve_perform E c s = Inr s' \<Longrightarrow> P s'"
  shows "P s"
  using assms(1) by induction (use assms(2,3) in blast)+

lemma run_well_owned:
  assumes "ve_run K (new_escrow self p, t0) s"
  shows "well_owned (fst s)"
  using assms
proof (rule ve_run_invariant)
  show "well_owned (fst (new_escrow self p, t0))" by (simp add: well_owned_def new_escrow_def)
qed (use perform_well_owned in force)

text \<open>
  C17. The lists of tokens. In every state that calls to the escrow lead to, the list of an owner enumerates the tokens of the
  owner, each of them once: its places below the count of the owner correspond one to one to the tokens whose owner
  this is, and every token with an owner has been minted.
\<close>

theorem owned_tokens_listed:
  assumes "ve_run K (new_escrow self p, t0) (v, t)" and "a \<noteq> 0"
  shows "bij_betw (ve_ownerToNFTokenIdList v a) {..<ve_ownerToNFTokenCount v a} {i. ve_idToOwner v i = a} \<and> {i. ve_idToOwner v i = a} \<subseteq> {1..ve_tokenId v}"
proof -
  have w: "well_owned v" using run_well_owned [OF assms(1)] by simp
  have "bij_betw (ve_ownerToNFTokenIdList v a) {..<ve_ownerToNFTokenCount v a} {i. ve_idToOwner v i = a}"
    by (rule bij_betw_byWitness [where f' = "ve_tokenToOwnerIndex v"]) (use well_ownedD(1,2) [OF w] assms(2) in auto)
  then show ?thesis using well_ownedD(1) [OF w] assms(2) by (auto simp: Suc_le_eq)
qed

text \<open>
  C19. What an approved spender cannot do. A withdrawal is open to the spender that the owner has approved for the token;
  when it would leave nothing in the lock it burns the token, which clears the approval, and this only the owner and
  its operators may do: the withdrawal of the spender does not return.
\<close>

theorem approved_spender_cannot_empty_lock:
  assumes "ve_withdraw E token i (v, t) = Inr (v', t')" and "ve_idToOwner v i \<noteq> vn_sender E" and "\<not> ve_ownerToOperators v (ve_idToOwner v i) (vn_sender E)"
  shows "ve_idToApprovals v i = vn_sender E \<and> ve_lockedDerivedAmount v' i \<noteq> 0"
  using assms(1)
proof (rule withdraw_steps)
  fix d v2 newEnd
  assume a: "isApprovedOrOwner v (vn_sender E) i"
    and c: "checkpoint_internal E \<lparr>ci_tokenId = i, ci_oldDerivedAmount = ve_lockedDerivedAmount v i, ci_newDerivedAmount = d,
       ci_oldEnd = ve_lockedEnd v i, ci_newEnd = newEnd\<rparr>
      (set_locked i token 0 (v\<lparr>ve_lockedEnd := (ve_lockedEnd v)(i := newEnd), ve_lockedDerivedAmount := (ve_lockedDerivedAmount v)(i := d)\<rparr>)) = Inr v2"
    and b: "(if d = 0 then ve_burn E i v2 else Inr v2) = Inr v'"
  have v2: "ve_idToOwner v2 = ve_idToOwner v" "ve_ownerToOperators v2 = ve_ownerToOperators v" "ve_lockedDerivedAmount v2 i = d"
    using c by (rule checkpoint_frame, simp add: set_locked_def)+
  have "d \<noteq> 0" using b assms(2,3) by (auto simp: ve_burn_def ve_approve_def Let_def v2 split: if_splits)
  then show ?thesis using a b assms(2,3) v2(3) by (auto simp: isApprovedOrOwner_def)
qed

section \<open>A sample run\<close>

text \<open>Staked tokens that are nothing but balances, and contracts that answer every call.\<close>

definition plain_tokens :: "(address \<Rightarrow> address \<Rightarrow> uint) staking_tokens" where
  "plain_tokens =
     (let move = (\<lambda>t token from to n. if n \<le> t token from
            then Inr (t(token := (t token)(from := t token from - n, to := ((t token)(from := t token from - n)) to + n)))
            else Inl (Revert ''ERC20: transfer amount exceeds balance'')) in
      \<lparr>sk_balanceOf = (\<lambda>t token a. t token a), sk_safeTransfer = (\<lambda>t token caller to n. move t token caller to n),
       sk_safeTransferFrom = (\<lambda>t token caller from to n. move t token from to n), sk_decimals = (\<lambda>_. Inr 18)\<rparr>)"

definition sample_ve_env :: "address \<Rightarrow> uint \<Rightarrow> uint \<Rightarrow> (address \<Rightarrow> address \<Rightarrow> uint) ve_env" where
  "sample_ve_env sender now block =
     \<lparr>vn_sender = sender, vn_now = now, vn_block = block,
      vn_logic = \<lparr>lg_is_contract = (\<lambda>a. a \<in> {3, 4, 5, 6, 7}), lg_supportsInterface = (\<lambda>a i. Inr (a = 6 \<and> i = I_CONTROLLER)),
        lg_governance = (\<lambda>a. Inr 2), lg_totalSupply = (\<lambda>a. Inr 0), lg_balanceOf = (\<lambda>a b. Inr 0),
        lg_isController = (\<lambda>impl p a. Inr False), lg_increaseRevision = (\<lambda>impl p old. Inr p)\<rparr>,
      vn_onERC721Received = (\<lambda>_ _ _ _ _. Inr True), vn_stk = plain_tokens\<rparr>"

definition sample_proxy :: proxy where
  "sample_proxy = \<lparr>px_implementation = 1, px_initialized = False, px_controller = 0, px_created = 0, px_createdBlock = 0,
     px_revision = 0, px_previousImplementation = 0\<rparr>"

definition sample_balances :: "address \<Rightarrow> address \<Rightarrow> uint" where
  "sample_balances = (\<lambda>token a. if token \<in> {5, 7} \<and> a = 9 then 10 ^ 21 else 0)"

lemmas sample_defs = sample_ve_env_def sample_proxy_def sample_balances_def plain_tokens_def Let_def

lemmas fill_weeks_numeral = fill_weeks.simps(2) [where n = "pred_numeral k" for k, folded numeral_eq_Suc]

text \<open>A continuation is evaluated once its argument is known.\<close>

lemma bind_first: "m = m' \<Longrightarrow> bind_res m f = bind_res m' f"
  by simp

lemmas run_checkpoint = checkpoint_internal_def last_point_def block_slope_def lock_point_def move_point_def schedule_slopes_def record_user_point_def
  fill_weeks_numeral week_block_def positiveInt128_def no_point_def USER_POINTS_def WEEK_def I_MAX_TIME_def MULTIPLIER_def
  i_add_def i_sub_def i_mul_def i_div_def to_int128_def checked_int128_def fits_int128_def u_add_def u_sub_def u_mul_def u_div_def uint_max_def

lemmas run_deposit = depositFor_def deposit_amounts_def pullStakingToken_def transferUnderlyingToken_def set_locked_def calculateDerivedAmount_def
  divWadUp_def divWadDown_def mulDivUp_def mulDivDown_def WAD_def WEIGHT_DENOMINATOR_def

lemmas run_nft = ve_mint_def addTokenTo_def addTokenToOwnerList_def set_index_def set_in_list_def checkOnERC721Received_def incrementTokenIdAndGet_def
  isApprovedOrOwner_def ve_approve_def

lemmas run_setup = on_escrow_def ve_setAddresses_def addToken_internal_def initializer_def checkContract_def Controllable_init_def requireInterface_def
  isInterfaceSupported_def requireERC20_def isERC20_def new_escrow_def

definition sample_escrow :: escrow where
  "sample_escrow =
     (new_escrow 10 sample_proxy)\<lparr>ve_controllable := sample_proxy\<lparr>px_initialized := True, px_controller := 6, px_created := 1, px_createdBlock := 1\<rparr>,
        ve_troveManagerAddress := 3, ve_borrowerOperationsAddress := 4, ve_shadyAddress := 5, ve_tokens := [5],
        ve_tokenWeights := (\<lambda>_. 0)(5 := 100 * 10 ^ 18), ve_isValidToken := (\<lambda>_. False)(5 := True),
        ve_pointHistory := (\<lambda>_. no_point)(0 := no_point\<lparr>pt_ts := 1, pt_blk := 1\<rparr>),
        ve_supportedInterfaces := (\<lambda>i. i \<in> {ERC165_INTERFACE_ID, ERC721_INTERFACE_ID, ERC721_METADATA_INTERFACE_ID} \<or> False)\<rparr>"

lemma sample_setup:
  "ve_perform (sample_ve_env 2 1 1) (SetAddresses 3 4 5 6) (new_escrow 10 sample_proxy, sample_balances) = Inr (sample_escrow, sample_balances)"
  by (simp add: run_setup sample_defs sample_escrow_def no_point_def)

text \<open>The lock of one token that the first call makes.\<close>

definition sample_locked :: "escrow \<Rightarrow> bool" where
  "sample_locked v \<longleftrightarrow> ve_idToOwner v 1 = 9 \<and> ve_lockedEnd v 1 = 1209600 \<and> ve_lockedAmounts v 1 5 = 10 ^ 18 \<and> ve_lockedDerivedAmount v 1 = 10 ^ 18
     \<and> ve_userPointEpoch v 1 = 1 \<and> pt_ts (ve_userPointHistory v 1 1) = 1 \<and> ve_ownershipChange v 1 = 0
     \<and> ve_tokenId v = 1 \<and> ve_epoch v = 1 \<and> pt_ts (ve_pointHistory v 1) = 1 \<and> (\<forall>i k. 0 \<le> pt_slope (ve_userPointHistory v i k))
     \<and> ve_lockedDerivedAmount v = (\<lambda>_. 0)(1 := 10 ^ 18)"

lemma sample_lock:
  "\<exists>v t. ve_perform (sample_ve_env 9 1 1) (CreateLock 5 (10 ^ 18) 1209600) (sample_escrow, sample_balances) = Inr (v, t)
    \<and> sample_locked v"
  by (simp add: sample_locked_def run_setup sample_defs sample_escrow_def createLock_def createLockFor_def unlock_time_def MAX_TIME_def run_nft run_deposit run_checkpoint cong: bind_first)

lemma sample_escrow_run:
  "\<exists>v t. ve_run plain_tokens (new_escrow 10 sample_proxy, sample_balances) (v, t) \<and> sample_locked v"
proof -
  have "ve_run plain_tokens (new_escrow 10 sample_proxy, sample_balances) (sample_escrow, sample_balances)"
    by (rule ve_run.call [OF ve_run.start _ _ _ sample_setup]) (simp_all add: sample_ve_env_def new_escrow_def)
  moreover have "vn_stk (sample_ve_env 9 1 1) = plain_tokens" "vn_sender (sample_ve_env 9 1 1) \<noteq> 0"
      "vn_sender (sample_ve_env 9 1 1) \<noteq> ve_self (fst (sample_escrow, sample_balances))"
    by (simp_all add: sample_ve_env_def sample_escrow_def new_escrow_def)
  ultimately show ?thesis using sample_lock ve_run.call by metis
qed

theorem owned_tokens_listed_witness:
  "\<exists>v t. ve_run plain_tokens (new_escrow 10 sample_proxy, sample_balances) (v, t) \<and> 1 \<in> {i. ve_idToOwner v i = 9}
    \<and> bij_betw (ve_ownerToNFTokenIdList v 9) {..<ve_ownerToNFTokenCount v 9} {i. ve_idToOwner v i = 9} \<and> {i. ve_idToOwner v i = 9} \<subseteq> {1..ve_tokenId v}"
  using sample_escrow_run owned_tokens_listed [of plain_tokens 10 sample_proxy sample_balances _ _ 9] by (auto simp: sample_locked_def)

text \<open>A lock of two tokens that has ended, with an approved spender.\<close>

definition sample_ended :: escrow where
  "sample_ended = sample_escrow\<lparr>ve_tokens := [5, 7], ve_tokenWeights := (\<lambda>_. 100 * 10 ^ 18), ve_idToOwner := (\<lambda>_. 0)(1 := 9),
     ve_idToApprovals := (\<lambda>_. 0)(1 := 8), ve_lockedAmounts := (\<lambda>_ token. if token \<in> {5, 7} then 10 ^ 18 else 0),
     ve_lockedDerivedAmount := (\<lambda>_. 2 * 10 ^ 18), ve_lockedEnd := (\<lambda>_. 604800)\<rparr>"

theorem approved_spender_cannot_empty_lock_witness:
  "\<exists>v t. ve_withdraw (sample_ve_env 8 604801 2) 5 1 (sample_ended, \<lambda>token a. if a = 10 then 10 ^ 18 else 0) = Inr (v, t)
    \<and> ve_lockedDerivedAmount v 1 \<noteq> 0 \<and> ve_idToApprovals sample_ended 1 = 8"
proof -
  obtain v t where r: "ve_withdraw (sample_ve_env 8 604801 2) 5 1 (sample_ended, \<lambda>token a. if a = 10 then 10 ^ 18 else 0) = Inr (v, t)"
    by (simp add: new_escrow_def sample_defs sample_ended_def sample_escrow_def ve_withdraw_def run_nft run_deposit run_checkpoint cong: bind_first)
  moreover have "ve_idToOwner sample_ended 1 \<noteq> vn_sender (sample_ve_env 8 604801 2)" "vn_sender (sample_ve_env 8 604801 2) = 8"
      "\<not> ve_ownerToOperators sample_ended (ve_idToOwner sample_ended 1) (vn_sender (sample_ve_env 8 604801 2))"
    by (simp_all add: sample_ended_def sample_escrow_def sample_ve_env_def new_escrow_def)
  ultimately show ?thesis using approved_spender_cannot_empty_lock [OF r] by auto
qed

end
