(* ===== verification/Escrow_Locks.thy ===== *)
theory Escrow_Locks
  imports Escrow_Ownership
begin

text \<open>
  The locks of the voting escrow (\<open>contracts/Ve.sol\<close>). A locale states what a property of the locks has to withstand: a
  deposit that is pulled in, an amount that moves between two locks, a payment, and a checkpoint that settles a lock. Every
  call of the escrow is a sequence of such steps, so that a property with these laws holds in every run. It is interpreted
  for the amounts, which the escrow holds, and for the points of the locks, which give their voting power.
\<close>

section \<open>Locks and the steps that change them\<close>

text \<open>What belongs to the locks; the point with number 0 is no checkpoint.\<close>

definition lock_part where
  "lock_part v = (ve_self v, ve_lockedAmounts v, ve_lockedDerivedAmount v, ve_lockedEnd v, ve_userPointEpoch v, ve_userPointHistory v,
     ve_epoch v, (ve_pointHistory v)(0 := no_point), ve_slopeChanges v)"

definition set_lock :: "uint \<Rightarrow> uint \<Rightarrow> uint \<Rightarrow> escrow \<Rightarrow> escrow" where
  "set_lock i d e v = v\<lparr>ve_lockedDerivedAmount := (ve_lockedDerivedAmount v)(i := d), ve_lockedEnd := (ve_lockedEnd v)(i := e)\<rparr>"

lemma lock_fields [simp]:
  "ve_self (set_locked i token n v) = ve_self v"
  "ve_lockedDerivedAmount (set_locked i token n v) = ve_lockedDerivedAmount v"
  "ve_lockedEnd (set_locked i token n v) = ve_lockedEnd v"
  "ve_userPointEpoch (set_locked i token n v) = ve_userPointEpoch v"
  "ve_userPointHistory (set_locked i token n v) = ve_userPointHistory v"
  "ve_lockedAmounts (set_locked i token n v) = (ve_lockedAmounts v)(i := (ve_lockedAmounts v i)(token := n))"
  "ve_self (set_lock i d e v) = ve_self v"
  "ve_lockedAmounts (set_lock i d e v) = ve_lockedAmounts v"
  "ve_lockedDerivedAmount (set_lock i d e v) = (ve_lockedDerivedAmount v)(i := d)"
  "ve_lockedEnd (set_lock i d e v) = (ve_lockedEnd v)(i := e)"
  "ve_userPointEpoch (set_lock i d e v) = ve_userPointEpoch v"
  "ve_userPointHistory (set_lock i d e v) = ve_userPointHistory v"
  "ve_tokenId (set_locked i token n v) = ve_tokenId v"
  "ve_tokenId (set_lock i d e v) = ve_tokenId v"
  by (simp_all add: set_locked_def set_lock_def)

lemma checkpoint_keeps_locks:
  assumes "checkpoint_internal E info v = Inr v'"
  shows "ve_self v' = ve_self v" "ve_lockedAmounts v' = ve_lockedAmounts v" "ve_lockedDerivedAmount v' = ve_lockedDerivedAmount v"
    "ve_lockedEnd v' = ve_lockedEnd v"
  using assms by (rule checkpoint_frame, simp)+

lemma checkpoint_keeps_nfts:
  assumes "checkpoint_internal E info v = Inr v'"
  shows "ve_tokenId v' = ve_tokenId v"
  using assms by (rule checkpoint_frame) simp

lemma nft_steps_locks:
  "ve_mint E to i v = Inr v' \<Longrightarrow> lock_part v' = lock_part v"
  "ve_burn E i v = Inr v' \<Longrightarrow> lock_part v' = lock_part v"
  "transferFrom_internal E owner to i a v = Inr v' \<Longrightarrow> lock_part v' = lock_part v"
  "incrementTokenIdAndGet v = Inr (j, v') \<Longrightarrow> lock_part v' = lock_part v"
  "ve_approve E a i v = Inr v' \<Longrightarrow> lock_part v' = lock_part v"
  "setApprovalForAll E a b v = Inr v' \<Longrightarrow> lock_part v' = lock_part v"
  by (auto simp: ve_mint_def ve_burn_def ve_approve_def setApprovalForAll_def transferFrom_internal_def incrementTokenIdAndGet_def addTokenTo_def
      addTokenToOwnerList_def removeTokenFrom_def removeTokenFromOwnerList_def set_index_def set_in_list_def Let_def bind_res_eq_Inr lock_part_def
      split: if_splits)

lemma nft_steps_tokenId:
  "ve_mint E to i v = Inr v' \<Longrightarrow> ve_tokenId v' = ve_tokenId v"
  "ve_burn E i v = Inr v' \<Longrightarrow> ve_tokenId v' = ve_tokenId v"
  "transferFrom_internal E owner to i a v = Inr v' \<Longrightarrow> ve_tokenId v' = ve_tokenId v"
  "ve_approve E a i v = Inr v' \<Longrightarrow> ve_tokenId v' = ve_tokenId v"
  "setApprovalForAll E a b v = Inr v' \<Longrightarrow> ve_tokenId v' = ve_tokenId v"
  by (auto simp: ve_mint_def ve_burn_def ve_approve_def setApprovalForAll_def transferFrom_internal_def addTokenTo_def
      addTokenToOwnerList_def removeTokenFrom_def removeTokenFromOwnerList_def set_index_def set_in_list_def Let_def bind_res_eq_Inr
      split: if_splits)

lemma settings_tokenId:
  "ve_setAddresses E a b c d v = Inr v' \<Longrightarrow> ve_tokenId v' = ve_tokenId v"
  "announceAction E type v = Inr v' \<Longrightarrow> ve_tokenId v' = ve_tokenId v"
  "whitelistTransferFor E a v = Inr v' \<Longrightarrow> ve_tokenId v' = ve_tokenId v"
  "ve_addToken E token weight v = Inr v' \<Longrightarrow> ve_tokenId v' = ve_tokenId v"
  by (drule settings_nft, simp add: nft_part_def)+

lemma new_nft:
  assumes "incrementTokenIdAndGet v = Inr (i, v1)" and "ve_mint E to i v1 = Inr v2"
  shows "lock_part v2 = lock_part v" and "i = Suc (ve_tokenId v)" and "ve_tokenId v2 = i"
  using nft_steps_locks(4) [OF assms(1)] nft_steps_locks(1) [OF assms(2)] nft_steps_tokenId(1) [OF assms(2)] assms(1)
  by (auto simp: incrementTokenIdAndGet_def bind_res_eq_Inr checked_Inr)

lemma settings_locks:
  "ve_setAddresses E a b c d v = Inr v' \<Longrightarrow> lock_part v' = lock_part v"
  "announceAction E type v = Inr v' \<Longrightarrow> lock_part v' = lock_part v"
  "whitelistTransferFor E a v = Inr v' \<Longrightarrow> lock_part v' = lock_part v"
  "ve_addToken E token weight v = Inr v' \<Longrightarrow> lock_part v' = lock_part v"
  by (auto simp: ve_setAddresses_def addToken_internal_def announceAction_def whitelistTransferFor_def ve_addToken_def Let_def bind_res_eq_Inr lock_part_def
      split: if_splits)

lemma lock_partD:
  assumes "lock_part v' = lock_part v"
  shows "ve_self v' = ve_self v" "ve_lockedAmounts v' = ve_lockedAmounts v" "ve_lockedDerivedAmount v' = ve_lockedDerivedAmount v"
    "ve_lockedEnd v' = ve_lockedEnd v" "ve_userPointEpoch v' = ve_userPointEpoch v" "ve_userPointHistory v' = ve_userPointHistory v"
    "ve_epoch v' = ve_epoch v" "e \<noteq> 0 \<Longrightarrow> ve_pointHistory v' e = ve_pointHistory v e" "ve_slopeChanges v' = ve_slopeChanges v"
  using assms by (auto simp: lock_part_def dest: fun_cong [where x = e])

text \<open>A deposit sets the amount, settles the lock, and pulls the tokens in unless they are in the escrow.\<close>

lemma depositFor_settles:
  assumes "depositFor E info (v, t) = Inr (v', t')"
    and "di_value info = 0 \<Longrightarrow> di_lockedDerivedAmount info = ve_lockedDerivedAmount v (di_tokenId info)"
    and "di_unlockTime info = 0 \<Longrightarrow> di_lockedEnd info = ve_lockedEnd v (di_tokenId info)"
  obtains d e w where "w = (if di_value info = 0 then v else set_locked (di_tokenId info) (di_stakingToken info) (di_lockedAmount info + di_value info) v)"
    and "checkpoint_internal E \<lparr>ci_tokenId = di_tokenId info, ci_oldDerivedAmount = di_lockedDerivedAmount info, ci_newDerivedAmount = d,
        ci_oldEnd = di_lockedEnd info, ci_newEnd = e\<rparr> (set_lock (di_tokenId info) d e w) = Inr v'"
    and "e = (if di_unlockTime info \<noteq> 0 then di_unlockTime info else di_lockedEnd info)"
    and "(if di_value info \<noteq> 0 \<and> di_depositType info \<noteq> MERGE_TYPE
      then sk_safeTransferFrom (vn_stk E) t (di_stakingToken info) (ve_self v) (vn_sender E) (ve_self v) (di_value info) else Inr t) = Inr t'"
  using assms(1)
proof (rule depositFor_steps)
  fix d v1
  let ?e = "if di_unlockTime info \<noteq> 0 then di_unlockTime info else di_lockedEnd info"
  let ?w = "if di_value info = 0 then v else set_locked (di_tokenId info) (di_stakingToken info) (di_lockedAmount info + di_value info) v"
  assume d: "deposit_amounts E info v = Inr (d, v1)"
    and c: "checkpoint_internal E \<lparr>ci_tokenId = di_tokenId info, ci_oldDerivedAmount = di_lockedDerivedAmount info, ci_newDerivedAmount = d,
        ci_oldEnd = di_lockedEnd info, ci_newEnd = ?e\<rparr>
      (if di_unlockTime info \<noteq> 0 then v1\<lparr>ve_lockedEnd := (ve_lockedEnd v1)(di_tokenId info := di_unlockTime info)\<rparr> else v1) = Inr v'"
    and p: "(if di_value info \<noteq> 0 \<and> di_depositType info \<noteq> MERGE_TYPE
      then sk_safeTransferFrom (vn_stk E) t (di_stakingToken info) (ve_self v') (vn_sender E) (ve_self v') (di_value info) else Inr t) = Inr t'"
  have s: "(if di_unlockTime info \<noteq> 0 then v1\<lparr>ve_lockedEnd := (ve_lockedEnd v1)(di_tokenId info := di_unlockTime info)\<rparr> else v1)
      = set_lock (di_tokenId info) d ?e ?w"
    using deposit_amounts_frame [OF d] assms(2,3) by (cases "di_value info = 0") (auto simp: set_lock_def set_locked_def)
  have self: "ve_self v' = ve_self v" using checkpoint_keeps_locks(1) [OF c [unfolded s]] by simp
  have p': "(if di_value info \<noteq> 0 \<and> di_depositType info \<noteq> MERGE_TYPE
      then sk_safeTransferFrom (vn_stk E) t (di_stakingToken info) (ve_self v) (vn_sender E) (ve_self v) (di_value info) else Inr t) = Inr t'"
    using p unfolding self .
  show thesis by (rule that [OF refl c [unfolded s] refl p'])
qed

section \<open>The interface\<close>

text \<open>
  A property \<open>P\<close> of the locks, at the time of the last call. Nothing is locked in an NFT that has not been minted. A
  checkpoint that settles the lock of an NFT knows what the lock was, and its new end is a week within the longest lock
  time or the end of a lock.
\<close>

locale lock_invariant =
  fixes K :: "'t staking_tokens" and P :: "uint \<Rightarrow> 't ve_state \<Rightarrow> bool"
  assumes minted: "P n (v, t) \<Longrightarrow> 0 < ve_lockedDerivedAmount v i \<Longrightarrow> 0 < i \<and> i \<le> ve_tokenId v"
    and same: "P n (v, t) \<Longrightarrow> lock_part v' = lock_part v \<Longrightarrow> ve_tokenId v \<le> ve_tokenId v' \<Longrightarrow> P n (v', t)"
    and tick: "P (vn_now (E :: 't ve_env)) (v, t) \<Longrightarrow> ve_checkpoint E v = Inr v' \<Longrightarrow> P (vn_now E) (v', t)"
    and settle: "P (vn_now (E :: 't ve_env)) (v, t) \<Longrightarrow> checkpoint_internal E \<lparr>ci_tokenId = i, ci_oldDerivedAmount = ve_lockedDerivedAmount v i,
        ci_newDerivedAmount = d, ci_oldEnd = e0, ci_newEnd = e'\<rparr> (set_lock i d e v) = Inr v'
      \<Longrightarrow> 0 < i \<Longrightarrow> i \<le> ve_tokenId v \<Longrightarrow> e0 = ve_lockedEnd v i \<or> ve_lockedDerivedAmount v i = 0 \<Longrightarrow> e0 \<le> e' \<or> e0 \<le> vn_now E
      \<Longrightarrow> d = 0 \<or> e' = e \<Longrightarrow> WEEK dvd e \<and> e \<le> vn_now E + MAX_TIME \<or> (\<exists>j. e = ve_lockedEnd v j) \<Longrightarrow> P (vn_now E) (v', t)"
    and pull: "P n (v, t) \<Longrightarrow> m \<le> ve_lockedAmounts v i token \<Longrightarrow> from \<noteq> ve_self v
      \<Longrightarrow> sk_safeTransferFrom K t token (ve_self v) from (ve_self v) k = Inr t' \<Longrightarrow> P n (set_locked i token (m + k) v, t')"
    and move: "P n (v, t) \<Longrightarrow> i \<noteq> j \<Longrightarrow> m \<le> ve_lockedAmounts v j token \<Longrightarrow> k \<le> ve_lockedAmounts v i token
      \<Longrightarrow> P n (set_locked j token (m + k) (set_locked i token (ve_lockedAmounts v i token - k) v), t)"
    and payout: "P n (v, t) \<Longrightarrow> sk_safeTransfer K t token (ve_self v) to (ve_lockedAmounts v i token) = Inr t'
      \<Longrightarrow> P n (set_locked i token 0 v, t')"
begin

lemma deposit:
  assumes "depositFor E info (v, t) = Inr (v', t')" and "P (vn_now E) (v, t)" and "vn_stk E = K" and "vn_sender E \<noteq> ve_self v"
    and "di_depositType info \<noteq> MERGE_TYPE" and "di_lockedAmount info \<le> ve_lockedAmounts v (di_tokenId info) (di_stakingToken info)"
    and "di_lockedDerivedAmount info = ve_lockedDerivedAmount v (di_tokenId info)" and "0 < di_tokenId info" and "di_tokenId info \<le> ve_tokenId v"
    and "di_lockedEnd info = ve_lockedEnd v (di_tokenId info) \<or> di_unlockTime info \<noteq> 0 \<and> ve_lockedDerivedAmount v (di_tokenId info) = 0"
    and "di_unlockTime info = 0 \<or> di_lockedEnd info \<le> di_unlockTime info \<and> WEEK dvd di_unlockTime info \<and> di_unlockTime info \<le> vn_now E + MAX_TIME"
  shows "P (vn_now E) (v', t')"
  using assms(1)
proof (rule depositFor_settles)
  fix d e w
  assume w: "w = (if di_value info = 0 then v else set_locked (di_tokenId info) (di_stakingToken info) (di_lockedAmount info + di_value info) v)"
    and c: "checkpoint_internal E \<lparr>ci_tokenId = di_tokenId info, ci_oldDerivedAmount = di_lockedDerivedAmount info, ci_newDerivedAmount = d,
        ci_oldEnd = di_lockedEnd info, ci_newEnd = e\<rparr> (set_lock (di_tokenId info) d e w) = Inr v'"
    and e: "e = (if di_unlockTime info \<noteq> 0 then di_unlockTime info else di_lockedEnd info)"
    and p: "(if di_value info \<noteq> 0 \<and> di_depositType info \<noteq> MERGE_TYPE
      then sk_safeTransferFrom (vn_stk E) t (di_stakingToken info) (ve_self v) (vn_sender E) (ve_self v) (di_value info) else Inr t) = Inr t'"
  have pw: "P (vn_now E) (w, t')"
    using p assms(2-6) pull [OF assms(2,6,4)] by (cases "di_value info = 0") (simp_all add: w)
  have f: "ve_lockedDerivedAmount w = ve_lockedDerivedAmount v" "ve_lockedEnd w = ve_lockedEnd v" "ve_tokenId w = ve_tokenId v" by (simp_all add: w)
  show ?thesis by (rule settle [OF pw c [unfolded assms(7) f(1) [symmetric]]]) (use e f assms(8-11) in auto)
qed (use assms(7,10) in auto)

lemma deposit_moved:
  assumes "depositFor E \<lparr>di_stakingToken = token, di_tokenId = j, di_value = k, di_unlockTime = u, di_lockedAmount = m,
       di_lockedDerivedAmount = ve_lockedDerivedAmount v j, di_lockedEnd = e0, di_depositType = MERGE_TYPE\<rparr> (set_locked i token r v, t) = Inr (v', t')"
    and "P (vn_now E) (v, t)" and "i \<noteq> j" and "u \<noteq> 0" and "k \<noteq> 0" and "r = ve_lockedAmounts v i token - k"
    and "m \<le> ve_lockedAmounts v j token" and "k \<le> ve_lockedAmounts v i token" and "0 < j" and "j \<le> ve_tokenId v"
    and "e0 = ve_lockedEnd v j \<or> ve_lockedDerivedAmount v j = 0" and "e0 \<le> u" and "\<exists>l. u = ve_lockedEnd v l"
  shows "P (vn_now E) (v', t')" and "ve_tokenId v' = ve_tokenId v" and "ve_lockedEnd v' = (ve_lockedEnd v)(j := u)"
    and "l \<noteq> j \<Longrightarrow> ve_lockedDerivedAmount v' l = ve_lockedDerivedAmount v l"
proof -
  have "P (vn_now E) (v', t') \<and> ve_tokenId v' = ve_tokenId v \<and> ve_lockedEnd v' = (ve_lockedEnd v)(j := u)
      \<and> (\<forall>l. l \<noteq> j \<longrightarrow> ve_lockedDerivedAmount v' l = ve_lockedDerivedAmount v l)"
    using assms(1)
  proof (rule depositFor_settles, goal_cases)
    case (3 d e w)
    have w: "w = set_locked j token (m + k) (set_locked i token r v)" and e: "e = u" and t': "t' = t" using 3(1,3,4) assms(4,5) by simp_all
    have pw: "P (vn_now E) (w, t')" using move [OF assms(2,3,7,8)] by (simp add: w t' assms(6))
    have f: "ve_lockedDerivedAmount w = ve_lockedDerivedAmount v" "ve_lockedEnd w = ve_lockedEnd v" "ve_tokenId w = ve_tokenId v" by (simp_all add: w)
    have c: "checkpoint_internal E \<lparr>ci_tokenId = j, ci_oldDerivedAmount = ve_lockedDerivedAmount w j, ci_newDerivedAmount = d, ci_oldEnd = e0, ci_newEnd = u\<rparr>
        (set_lock j d u w) = Inr v'"
      using 3(2) by (simp add: f e)
    have "P (vn_now E) (v', t')" by (rule settle [OF pw c]) (use f assms(9-13) in auto)
    then show ?case using checkpoint_keeps_locks(3,4) [OF c] checkpoint_keeps_nfts [OF c] by (simp add: f)
  qed (use assms(4,5) in simp_all)
  then show "P (vn_now E) (v', t')" and "ve_tokenId v' = ve_tokenId v" and "ve_lockedEnd v' = (ve_lockedEnd v)(j := u)"
    and "l \<noteq> j \<Longrightarrow> ve_lockedDerivedAmount v' l = ve_lockedDerivedAmount v l" by simp_all
qed

lemma create:
  assumes "createLockFor E token value duration to (v, t) = Inr (i, v', t')" and "P (vn_now E) (v, t)" and "vn_stk E = K" and "vn_sender E \<noteq> ve_self v"
  shows "P (vn_now E) (v', t')"
  using assms(1)
proof (rule createLock_steps)
  fix unlockTime v1 v2
  assume u: "vn_now E < unlockTime" "unlockTime \<le> vn_now E + MAX_TIME" "WEEK dvd unlockTime"
    and i: "incrementTokenIdAndGet v = Inr (i, v1)" and m: "ve_mint E to i v1 = Inr v2"
    and d: "depositFor E \<lparr>di_stakingToken = token, di_tokenId = i, di_value = value, di_unlockTime = unlockTime, di_lockedAmount = 0,
       di_lockedDerivedAmount = 0, di_lockedEnd = 0, di_depositType = CREATE_LOCK_TYPE\<rparr> (v2, t) = Inr (v', t')" and "0 < value"
  note n = new_nft [OF i m]
  have "ve_lockedDerivedAmount v2 i = 0" using minted [OF assms(2), of i] lock_partD(3) [OF n(1)] n(2) by (cases "ve_lockedDerivedAmount v i") auto
  then show ?thesis using u assms(3,4) lock_partD(1) [OF n(1)] n(2,3) by (intro deposit [OF d same [OF assms(2) n(1)]]) simp_all
qed

lemma merge:
  assumes "ve_merge E source target (v, t) = Inr (v', t')" and "P (vn_now E) (v, t)" and "well_owned v" and "vn_sender E \<noteq> 0"
  shows "P (vn_now E) (v', t')"
  using assms(1)
proof (rule merge_steps)
  fix e x v1 v3
  assume n: "source \<noteq> target" and o: "ve_idToOwner v source = vn_sender E" "ve_idToOwner v target = vn_sender E"
    and e: "vn_now E < ve_lockedEnd v source" "e = max (ve_lockedEnd v source) (ve_lockedEnd v target)"
    and l: "fold_res (merge_token E source target e) (ve_tokens v) (ve_lockedEnd v target, v, t) = Inr (x, v1, t')"
    and c: "checkpoint_internal E \<lparr>ci_tokenId = source, ci_oldDerivedAmount = ve_lockedDerivedAmount v source, ci_newDerivedAmount = 0,
       ci_oldEnd = ve_lockedEnd v source, ci_newEnd = ve_lockedEnd v source\<rparr>
      (v1\<lparr>ve_lockedDerivedAmount := (ve_lockedDerivedAmount v1)(source := 0), ve_lockedEnd := (ve_lockedEnd v1)(source := 0)\<rparr>) = Inr v3"
    and b: "ve_burn E source v3 = Inr v'"
  have e0: "e \<noteq> 0" "ve_lockedEnd v target \<le> e" using e by simp_all
  have ids: "0 < source" "source \<le> ve_tokenId v" "0 < target" "target \<le> ve_tokenId v" using well_ownedD(1) [OF assms(3)] o assms(4) by auto
  define I where "I = (\<lambda>x v' t. P (vn_now E) (v', t) \<and> ve_tokenId v' = ve_tokenId v \<and> x = ve_lockedEnd v' target \<and> x \<le> e
    \<and> ve_lockedEnd v' source = ve_lockedEnd v source \<and> ve_lockedDerivedAmount v' source = ve_lockedDerivedAmount v source
    \<and> (\<exists>l. e = ve_lockedEnd v' l))"
  have "\<exists>l. e = ve_lockedEnd v l" unfolding e(2) max_def by auto
  then have "I (ve_lockedEnd v target) v t" using assms(2) e0 by (simp add: I_def)
  with l have "I x v1 t'"
  proof (rule tokens_loop)
    fix token x v t x' v' t'
    assume i: "I x v t" and "merge_token E source target e token (x, v, t) = Inr (x', v', t')"
    from merge_token_steps [OF this(2)] show "I x' v' t'"
    proof (elim disjE conjE)
      assume d: "depositFor E \<lparr>di_stakingToken = token, di_tokenId = target, di_value = ve_lockedAmounts v source token, di_unlockTime = e,
         di_lockedAmount = ve_lockedAmounts (set_locked source token 0 v) target token, di_lockedDerivedAmount = ve_lockedDerivedAmount v target,
         di_lockedEnd = x, di_depositType = MERGE_TYPE\<rparr> (set_locked source token 0 v, t) = Inr (v', t')"
        and a: "ve_lockedAmounts v source token \<noteq> 0" and "x' = e"
      have p: "P (vn_now E) (v, t)" using i by (simp add: I_def)
      note m = deposit_moved [OF d p n e0(1) a]
      have "P (vn_now E) (v', t')" "ve_tokenId v' = ve_tokenId v" "ve_lockedEnd v' = (ve_lockedEnd v)(target := e)"
          "ve_lockedDerivedAmount v' source = ve_lockedDerivedAmount v source"
        by (rule m; use i n ids in \<open>auto simp: I_def\<close>)+
      then show ?thesis using i n \<open>x' = e\<close> by (auto simp: I_def)
    qed (use i in simp)
  qed
  then have v1: "P (vn_now E) (v1, t')" "ve_tokenId v1 = ve_tokenId v" "ve_lockedEnd v1 source = ve_lockedEnd v source"
      "ve_lockedDerivedAmount v1 source = ve_lockedDerivedAmount v source"
    by (simp_all add: I_def)
  have "P (vn_now E) (v3, t')"
    by (rule settle [OF v1(1) c [folded set_lock_def v1(4)]]) (use ids v1 in auto)
  then show ?thesis by (rule same) (use nft_steps_locks(2) [OF b] nft_steps_tokenId(2) [OF b] in simp_all)
qed

lemma split_loop:
  assumes "fold_res (split_token E i j percent e) tokens (x, v, t) = Inr (x', v', t')" and "P (vn_now E) (v, t)" and "i \<noteq> j" and "e \<noteq> 0"
    and "0 < j" and "j \<le> ve_tokenId v" and "e = ve_lockedEnd v i" and "ve_lockedDerivedAmount v j = 0"
  shows "P (vn_now E) (v', t') \<and> ve_lockedEnd v' i = e \<and> ve_lockedDerivedAmount v' i = ve_lockedDerivedAmount v i \<and> ve_tokenId v' = ve_tokenId v"
proof -
  define I where "I = (\<lambda>(x :: uint) v' t. P (vn_now E) (v', t) \<and> ve_lockedEnd v' i = e \<and> ve_lockedDerivedAmount v' i = ve_lockedDerivedAmount v i
    \<and> ve_tokenId v' = ve_tokenId v \<and> (e = ve_lockedEnd v' j \<or> ve_lockedDerivedAmount v' j = 0))"
  have "I x v t" using assms(2,7,8) by (simp add: I_def)
  with assms(1) have "I x' v' t'"
  proof (rule tokens_loop)
    fix token x v1 t x' v' t'
    assume q: "I x v1 t" and "split_token E i j percent e token (x, v1, t) = Inr (x', v', t')"
    from split_token_steps [OF this(2)] show "I x' v' t'"
    proof (elim disjE exE conjE)
      fix n
      assume d: "depositFor E \<lparr>di_stakingToken = token, di_tokenId = j, di_value = n, di_unlockTime = e, di_lockedAmount = 0,
           di_lockedDerivedAmount = ve_lockedDerivedAmount v1 j, di_lockedEnd = e, di_depositType = MERGE_TYPE\<rparr>
          (set_locked i token (ve_lockedAmounts v1 i token - n) v1, t) = Inr (v', t')" and n: "n \<noteq> 0" "n \<le> ve_lockedAmounts v1 i token"
      have p: "P (vn_now E) (v1, t)" using q by (simp add: I_def)
      note m = deposit_moved [OF d p assms(3,4) n(1)]
      have "P (vn_now E) (v', t')" "ve_tokenId v' = ve_tokenId v1" "ve_lockedEnd v' = (ve_lockedEnd v1)(j := e)"
          "ve_lockedDerivedAmount v' i = ve_lockedDerivedAmount v1 i"
        by (rule m; use q n assms(3,5,6) in \<open>auto simp: I_def\<close>)+
      then show ?thesis using q by (auto simp: I_def)
    qed (use q in simp)
  qed
  then show ?thesis by (simp add: I_def)
qed

lemma split_lock:
  assumes "ve_split E i percent (v, t) = Inr (v', t')" and "P (vn_now E) (v, t)" and "well_owned v" and "vn_sender E \<noteq> 0"
  shows "P (vn_now E) (v', t')"
  using assms(1)
proof (rule split_steps)
  fix j v1 v2 x v3
  assume o: "ve_idToOwner v i = vn_sender E" and e: "vn_now E < ve_lockedEnd v i"
    and j: "incrementTokenIdAndGet v = Inr (j, v1)" and m: "ve_mint E (vn_sender E) j v1 = Inr v2"
    and l: "fold_res (split_token E i j percent (ve_lockedEnd v i)) (ve_tokens v2) (ve_lockedDerivedAmount v i, v2, t) = Inr (x, v3, t')"
    and c: "checkpoint_internal E \<lparr>ci_tokenId = i, ci_oldDerivedAmount = ve_lockedDerivedAmount v i, ci_newDerivedAmount = x,
       ci_oldEnd = ve_lockedEnd v i, ci_newEnd = ve_lockedEnd v i\<rparr>
      (v3\<lparr>ve_lockedDerivedAmount := (ve_lockedDerivedAmount v3)(i := x)\<rparr>) = Inr v'"
  note n = new_nft [OF j m]
  have i: "0 < i" "i \<le> ve_tokenId v" using well_ownedD(1) [OF assms(3), of i] o assms(4) by auto
  have "ve_lockedDerivedAmount v j = 0" using minted [OF assms(2), of j] n(2) by (cases "ve_lockedDerivedAmount v j") auto
  then have "P (vn_now E) (v3, t') \<and> ve_lockedEnd v3 i = ve_lockedEnd v i \<and> ve_lockedDerivedAmount v3 i = ve_lockedDerivedAmount v2 i \<and> ve_tokenId v3 = ve_tokenId v2"
    using e i n(2,3) lock_partD(3,4) [OF n(1)] by (intro split_loop [OF l same [OF assms(2) n(1)]]) simp_all
  then have v3: "P (vn_now E) (v3, t')" "ve_lockedEnd v3 i = ve_lockedEnd v i" "ve_lockedDerivedAmount v3 i = ve_lockedDerivedAmount v i"
      "ve_tokenId v3 = Suc (ve_tokenId v)"
    by (simp_all add: n(2,3) lock_partD(3) [OF n(1)])
  have s: "v3\<lparr>ve_lockedDerivedAmount := (ve_lockedDerivedAmount v3)(i := x)\<rparr> = set_lock i x (ve_lockedEnd v i) v3"
    by (simp add: set_lock_def v3(2) [symmetric])
  have "\<exists>j. ve_lockedEnd v i = ve_lockedEnd v3 j" using v3(2) by metis
  then show ?thesis by (intro settle [OF v3(1) c [unfolded s, folded v3(3)]]) (use i v3 in auto)
qed

lemma withdraw:
  assumes "ve_withdraw E token i (v, t) = Inr (v', t')" and "P (vn_now E) (v, t)" and "vn_stk E = K" and "well_owned v" and "vn_sender E \<noteq> 0"
  shows "P (vn_now E) (v', t')"
  using assms(1)
proof (rule withdraw_steps)
  fix d v2 newEnd
  assume a: "isApprovedOrOwner v (vn_sender E) i" and e: "ve_lockedEnd v i \<le> vn_now E" "newEnd = (if d = 0 then 0 else ve_lockedEnd v i)"
    and c: "checkpoint_internal E \<lparr>ci_tokenId = i, ci_oldDerivedAmount = ve_lockedDerivedAmount v i, ci_newDerivedAmount = d,
       ci_oldEnd = ve_lockedEnd v i, ci_newEnd = newEnd\<rparr>
      (set_locked i token 0 (v\<lparr>ve_lockedEnd := (ve_lockedEnd v)(i := newEnd), ve_lockedDerivedAmount := (ve_lockedDerivedAmount v)(i := d)\<rparr>)) = Inr v2"
    and b: "(if d = 0 then ve_burn E i v2 else Inr v2) = Inr v'"
    and p: "sk_safeTransfer (vn_stk E) t token (ve_self v') (vn_sender E) (ve_lockedAmounts v i token) = Inr t'"
  have s: "set_locked i token 0 (v\<lparr>ve_lockedEnd := (ve_lockedEnd v)(i := newEnd), ve_lockedDerivedAmount := (ve_lockedDerivedAmount v)(i := d)\<rparr>)
      = set_lock i d newEnd (set_locked i token 0 v)"
    by (simp add: set_lock_def set_locked_def)
  have i: "0 < i" "i \<le> ve_tokenId v" using well_ownedD(1) [OF assms(4) unowned_not_approved [OF assms(4) a assms(5)]] by simp_all
  have l: "lock_part v' = lock_part v2" "ve_tokenId v2 \<le> ve_tokenId v'" using b nft_steps_locks(2) nft_steps_tokenId(2) [of E i v2 v'] by (auto split: if_splits)
  have self: "ve_self v' = ve_self v" using lock_partD(1) [OF l(1)] checkpoint_keeps_locks(1) [OF c [unfolded s]] by simp
  have w: "P (vn_now E) (set_locked i token 0 v, t')" using payout [OF assms(2)] p by (simp add: self assms(3))
  have c': "checkpoint_internal E \<lparr>ci_tokenId = i, ci_oldDerivedAmount = ve_lockedDerivedAmount (set_locked i token 0 v) i, ci_newDerivedAmount = d,
       ci_oldEnd = ve_lockedEnd v i, ci_newEnd = newEnd\<rparr> (set_lock i d newEnd (set_locked i token 0 v)) = Inr v2"
    using c unfolding s by simp
  have "P (vn_now E) (v2, t')" by (rule settle [OF w c']) (use i e in auto)
  then show ?thesis using same l by blast
qed

lemma same_settings:
  assumes "P n (v, t)"
  shows "ve_setAddresses E a b c d v = Inr v' \<Longrightarrow> P n (v', t)" and "announceAction E type v = Inr v' \<Longrightarrow> P n (v', t)"
    and "whitelistTransferFor E a v = Inr v' \<Longrightarrow> P n (v', t)" and "ve_addToken E token weight v = Inr v' \<Longrightarrow> P n (v', t)"
    and "ve_approve E a i v = Inr v' \<Longrightarrow> P n (v', t)" and "setApprovalForAll E a yes v = Inr v' \<Longrightarrow> P n (v', t)"
  by (rule same [OF assms]; simp add: settings_locks settings_tokenId nft_steps_locks nft_steps_tokenId)+

lemma perform:
  assumes "ve_perform E c (v, t) = Inr (v', t')" and "P (vn_now E) (v, t)" and "vn_stk E = K" and "vn_sender E \<noteq> 0" and "vn_sender E \<noteq> ve_self v"
    and "well_owned v"
  shows "P (vn_now E) (v', t')"
proof (cases c)
  case (WithdrawAll i)
  then have "withdrawAll E i (v, t) = Inr (v', t')" using assms(1) by simp
  then have "(\<lambda>(v, t). P (vn_now E) (v, t) \<and> well_owned v) (v', t')"
    by (rule withdrawAll_loop) (use assms(2-4,6) withdraw withdraw_well_owned in auto)
  then show ?thesis by simp
next
  case (Merge i j)
  then show ?thesis using assms(1,2,4,6) merge by simp
next
  case (Split i n)
  then show ?thesis using assms(1,2,4,6) split_lock by simp
next
  case (Withdraw token i)
  then show ?thesis using assms(1-4,6) withdraw by simp
next
  case (IncreaseAmount token i n)
  then have "increaseAmount E token i n (v, t) = Inr (v', t')" using assms(1) by simp
  note d = increaseAmount_steps [OF this]
  from deposit [OF d(5) assms(2,3,5)] show ?thesis using minted [OF assms(2) d(2)] by simp
next
  case (IncreaseUnlockTime i d)
  then obtain r where "increaseUnlockTime E i d (v, t) = Inr (r, v', t')"
    using assms(1) by (cases "increaseUnlockTime E i d (v, t)") auto
  then show ?thesis
  proof (rule increaseUnlockTime_steps)
    fix u
    assume u: "ve_lockedEnd v i < u" "u \<le> vn_now E + MAX_TIME" "WEEK dvd u" and a: "isApprovedOrOwner v (vn_sender E) i"
      and d: "depositFor E \<lparr>di_stakingToken = 0, di_tokenId = i, di_value = 0, di_unlockTime = u, di_lockedAmount = 0,
       di_lockedDerivedAmount = ve_lockedDerivedAmount v i, di_lockedEnd = ve_lockedEnd v i, di_depositType = INCREASE_UNLOCK_TIME\<rparr> (v, t) = Inr (v', t')"
    have "0 < i" "i \<le> ve_tokenId v" using well_ownedD(1) [OF assms(6) unowned_not_approved [OF assms(6) a assms(4)]] by simp_all
    then show ?thesis using u by (intro deposit [OF d assms(2,3,5)]) simp_all
  qed
next
  case (CreateLock token n d)
  then obtain i where "createLockFor E token n d (vn_sender E) (v, t) = Inr (i, v', t')"
    using assms(1) by (cases "createLockFor E token n d (vn_sender E) (v, t)") (auto simp: createLock_def)
  then show ?thesis using assms(2,3,5) by (rule create)
next
  case (CreateLockFor token n d to)
  then obtain i where "createLockFor E token n d to (v, t) = Inr (i, v', t')"
    using assms(1) by (cases "createLockFor E token n d to (v, t)") auto
  then show ?thesis using assms(2,3,5) by (rule create)
next
  case (SafeTransferFrom a b i data)
  then obtain v1 where "transferFrom_internal E a b i (vn_sender E) v = Inr v1" "v' = v1" "t' = t"
    using assms(1) by (auto simp: on_escrow_def safeTransferFrom_def bind_res_eq_Inr split: if_splits)
  then show ?thesis using nft_steps_locks(3) nft_steps_tokenId(3) same assms(2) by (metis order_refl)
next
  case Checkpoint
  then show ?thesis using assms(1,2) tick by (auto simp: on_escrow_def bind_res_eq_Inr)
qed (use assms(1,2) in \<open>auto simp: on_escrow_def bind_res_eq_Inr
      intro: same_settings\<close>)

lemma run:
  assumes "ve_run K (new_escrow self p, t0) s" and "P 0 (new_escrow self p, t0)" and "\<And>n m s. P n s \<Longrightarrow> P m s"
  shows "P 0 s"
proof -
  have "P 0 s \<and> well_owned (fst s)"
    using assms(1)
  proof (rule ve_run_invariant)
    fix E c s s'
    assume s: "P 0 s \<and> well_owned (fst s)" and e: "vn_stk E = K" "vn_sender E \<noteq> 0" "vn_sender E \<noteq> ve_self (fst s)" and c: "ve_perform E c s = Inr s'"
    obtain v t v' t' where "s = (v, t)" "s' = (v', t')" by (cases s, cases s')
    then show "P 0 s' \<and> well_owned (fst s')"
      using perform [of E c v t v' t'] perform_well_owned [of E c v t v' t'] s e c assms(3) by auto
  qed (use assms(2) in \<open>simp add: well_owned_def new_escrow_def\<close>)
  then show ?thesis by simp
qed

end

section \<open>Only minted NFTs have locks\<close>

definition minted_only :: "escrow \<Rightarrow> bool" where
  "minted_only v \<longleftrightarrow> (\<forall>i. 0 < ve_lockedDerivedAmount v i \<longrightarrow> 0 < i \<and> i \<le> ve_tokenId v)"

lemma minted_only_same:
  assumes "minted_only v"
  shows "lock_part v' = lock_part v \<Longrightarrow> ve_tokenId v \<le> ve_tokenId v' \<Longrightarrow> minted_only v'"
    and "ve_checkpoint E v = Inr v' \<Longrightarrow> minted_only v'" and "minted_only (set_locked i token n v)"
  using assms le_trans checkpoint_keeps_locks(3) checkpoint_keeps_nfts unfolding minted_only_def ve_checkpoint_def lock_fields
  by (metis lock_partD(3), metis, simp)

lemma minted_only_settle:
  assumes "minted_only v" and "checkpoint_internal E info (set_lock i d e v) = Inr v'" and "0 < i" and "i \<le> ve_tokenId v"
  shows "minted_only v'"
  using assms checkpoint_keeps_locks(3) [OF assms(2)] checkpoint_keeps_nfts [OF assms(2)] by (auto simp: minted_only_def)

lemma minted_only_new: "minted_only (new_escrow self p)"
  by (simp add: minted_only_def new_escrow_def)

text \<open>A property that does not look at the points of the escrow as a whole is settled with this in mind.\<close>

lemma tick_locks:
  assumes "ve_checkpoint E v = Inr v'"
  shows "ve_self v' = ve_self v" "ve_lockedAmounts v' = ve_lockedAmounts v" "ve_lockedDerivedAmount v' = ve_lockedDerivedAmount v"
    "ve_lockedEnd v' = ve_lockedEnd v" "ve_userPointEpoch v' = ve_userPointEpoch v" "ve_userPointHistory v' = ve_userPointHistory v"
proof -
  obtain ep h where "v' = v\<lparr>ve_epoch := ep, ve_pointHistory := h\<rparr>"
    using assms [unfolded ve_checkpoint_def] by (rule checkpoint_global_steps) simp_all
  then show "ve_self v' = ve_self v" "ve_lockedAmounts v' = ve_lockedAmounts v" "ve_lockedDerivedAmount v' = ve_lockedDerivedAmount v"
    "ve_lockedEnd v' = ve_lockedEnd v" "ve_userPointEpoch v' = ve_userPointEpoch v" "ve_userPointHistory v' = ve_userPointHistory v" by simp_all
qed

section \<open>Funds\<close>

text \<open>What the escrow relies on: a transfer that returns moves the amount.\<close>

definition moves_exactly :: "'t staking_tokens \<Rightarrow> bool" where
  "moves_exactly K \<longleftrightarrow>
     (\<forall>t token caller to n t' token'. sk_safeTransfer K t token caller to n = Inr t' \<longrightarrow>
        sk_balanceOf K t token' caller \<le> sk_balanceOf K t' token' caller + (if token' = token then n else 0))
     \<and> (\<forall>t token caller from n t' token'. sk_safeTransferFrom K t token caller from caller n = Inr t' \<longrightarrow> from \<noteq> caller \<longrightarrow>
        sk_balanceOf K t token' caller + (if token' = token then n else 0) \<le> sk_balanceOf K t' token' caller)"

definition backed :: "'t staking_tokens \<Rightarrow> 't ve_state \<Rightarrow> bool" where
  "backed K = (\<lambda>(v, t). \<forall>S token. finite S \<longrightarrow> (\<Sum>i\<in>S. ve_lockedAmounts v i token) \<le> sk_balanceOf K t token (ve_self v))"

lemma sum_set_locked:
  assumes "finite S"
  shows "(\<Sum>j\<in>S. ve_lockedAmounts (set_locked i token n v) j token') + (if i \<in> S \<and> token' = token then ve_lockedAmounts v i token else 0)
    = (\<Sum>j\<in>S. ve_lockedAmounts v j token') + (if i \<in> S \<and> token' = token then n else 0)"
proof (cases "i \<in> S \<and> token' = token")
  case True
  then have S: "i \<in> S" "token' = token" by simp_all
  have "(\<Sum>j\<in>S - {i}. ve_lockedAmounts (set_locked i token n v) j token) = (\<Sum>j\<in>S - {i}. ve_lockedAmounts v j token)"
    by (rule sum.cong) simp_all
  then show ?thesis using S by (simp add: sum.remove [OF assms S(1)])
next
  case False
  then have "(\<Sum>j\<in>S. ve_lockedAmounts (set_locked i token n v) j token') = (\<Sum>j\<in>S. ve_lockedAmounts v j token')"
    by (intro sum.cong) auto
  then show ?thesis by (simp only: False if_False)
qed

lemma backed_pull:
  assumes "backed K (v, t)" and "moves_exactly K" and "m \<le> ve_lockedAmounts v i token" and "from \<noteq> ve_self v"
    and "sk_safeTransferFrom K t token (ve_self v) from (ve_self v) k = Inr t'"
  shows "backed K (set_locked i token (m + k) v, t')"
  unfolding backed_def prod.case lock_fields(1)
proof (intro impI allI)
  fix S token'
  assume S: "finite (S :: uint set)"
  then have "sk_balanceOf K t token' (ve_self v) + (if token' = token then k else 0) \<le> sk_balanceOf K t' token' (ve_self v)"
    using assms(2,4,5) unfolding moves_exactly_def by metis
  moreover have "(\<Sum>j\<in>S. ve_lockedAmounts v j token') \<le> sk_balanceOf K t token' (ve_self v)" using assms(1) S by (simp add: backed_def)
  ultimately show "(\<Sum>j\<in>S. ve_lockedAmounts (set_locked i token (m + k) v) j token') \<le> sk_balanceOf K t' token' (ve_self v)"
    using sum_set_locked [OF S, where i = i and token = token and n = "m + k" and v = v and token' = token'] assms(3) by (auto split: if_splits)
qed

lemma backed_move:
  assumes "backed K (v, t)" and "i \<noteq> j" and "m \<le> ve_lockedAmounts v j token" and "k \<le> ve_lockedAmounts v i token"
  shows "backed K (set_locked j token (m + k) (set_locked i token (ve_lockedAmounts v i token - k) v), t)"
  unfolding backed_def prod.case lock_fields(1)
proof (intro impI allI)
  fix S token'
  assume S: "finite (S :: uint set)"
  let ?w = "set_locked i token (ve_lockedAmounts v i token - k) v"
  let ?T = "insert i S"
  have "(\<Sum>j\<in>?T. ve_lockedAmounts v j token') \<le> sk_balanceOf K t token' (ve_self v)" using assms(1) S by (simp add: backed_def)
  moreover have "(\<Sum>l\<in>S. ve_lockedAmounts (set_locked j token (m + k) ?w) l token') \<le> (\<Sum>l\<in>?T. ve_lockedAmounts (set_locked j token (m + k) ?w) l token')"
    by (rule sum_mono2) (use S in auto)
  moreover have "(\<Sum>l\<in>?T. ve_lockedAmounts (set_locked j token (m + k) ?w) l token') \<le> (\<Sum>j\<in>?T. ve_lockedAmounts v j token')"
    using sum_set_locked [of ?T i token "ve_lockedAmounts v i token - k" v token'] sum_set_locked [of ?T j token "m + k" ?w token'] S assms(2-4)
    by (auto split: if_splits)
  ultimately show "(\<Sum>l\<in>S. ve_lockedAmounts (set_locked j token (m + k) ?w) l token') \<le> sk_balanceOf K t token' (ve_self v)" by linarith
qed

lemma backed_payout:
  assumes "backed K (v, t)" and "moves_exactly K" and "sk_safeTransfer K t token (ve_self v) to (ve_lockedAmounts v i token) = Inr t'"
  shows "backed K (set_locked i token 0 v, t')"
  unfolding backed_def prod.case lock_fields(1)
proof (intro impI allI)
  fix S token'
  assume S: "finite (S :: uint set)"
  let ?T = "insert i S"
  have "sk_balanceOf K t token' (ve_self v) \<le> sk_balanceOf K t' token' (ve_self v) + (if token' = token then ve_lockedAmounts v i token else 0)"
    using assms(2,3) unfolding moves_exactly_def by metis
  moreover have "(\<Sum>j\<in>?T. ve_lockedAmounts v j token') \<le> sk_balanceOf K t token' (ve_self v)" using assms(1) S by (simp add: backed_def)
  moreover have "(\<Sum>l\<in>S. ve_lockedAmounts (set_locked i token 0 v) l token') \<le> (\<Sum>l\<in>?T. ve_lockedAmounts (set_locked i token 0 v) l token')"
    by (rule sum_mono2) (use S in auto)
  ultimately show "(\<Sum>l\<in>S. ve_lockedAmounts (set_locked i token 0 v) l token') \<le> sk_balanceOf K t' token' (ve_self v)"
    using sum_set_locked [of ?T i token 0 v token'] S by (auto split: if_splits)
qed

interpretation funds: lock_invariant K "\<lambda>_ s. minted_only (fst s) \<and> (moves_exactly K \<longrightarrow> backed K s)" for K :: "'t staking_tokens"
proof (unfold_locales, goal_cases)
  case (1 n v t i)
  then show ?case by (simp add: minted_only_def)
next
  case (2 n v t v')
  then show ?case using minted_only_same(1) [of v v'] by (simp add: backed_def lock_part_def)
next
  case (3 E v t v')
  then show ?case using minted_only_same(2) [of v E v'] tick_locks(1,2) [OF 3(2)] by (simp add: backed_def)
next
  case (4 E v t i d e0 e' e v')
  then show ?case using checkpoint_keeps_locks(1,2) [OF 4(2)] minted_only_settle [OF _ 4(2)] by (simp add: backed_def)
qed (auto simp: minted_only_same(3) simp del: lock_fields intro: backed_pull backed_move backed_payout)

text \<open>
  C11. The locked tokens are there. As long as the staked tokens move what a transfer says, the escrow holds, of every token
  and in every state that calls to it lead to, at least the amounts that all locks together have of it, whoever has
  deposited, merged, split or withdrawn what.
\<close>

theorem locked_tokens_are_held:
  assumes "ve_run K (new_escrow self p, t0) (v, t)" and "moves_exactly K"
  shows "(\<Sum>i\<le>ve_tokenId v. ve_lockedAmounts v i token) \<le> sk_balanceOf K t token (ve_self v)"
proof -
  have "backed K (new_escrow self p, t0)" by (simp add: backed_def new_escrow_def)
  then have "backed K (v, t)" using funds.run [OF assms(1)] assms(2) minted_only_new by simp
  then show ?thesis by (simp add: backed_def)
qed

section \<open>Points of the locks\<close>

lemma settle_records:
  assumes "checkpoint_internal E \<lparr>ci_tokenId = i, ci_oldDerivedAmount = d0, ci_newDerivedAmount = d, ci_oldEnd = e0, ci_newEnd = e'\<rparr> (set_lock i d e v) = Inr v'"
    and "i \<noteq> 0"
  obtains u where "lock_point (vn_now E) d e' = Inr u" and "ve_userPointEpoch v' = (ve_userPointEpoch v)(i := Suc (ve_userPointEpoch v i))"
    and "ve_userPointHistory v' = (ve_userPointHistory v)(i := (ve_userPointHistory v i)
      (Suc (ve_userPointEpoch v i) := u\<lparr>pt_ts := vn_now E, pt_blk := vn_block E\<rparr>))"
  using assms(1)
proof (rule checkpoint_user_steps, goal_cases)
  case (2 uOld u blockSlope pt ep h pt' sl)
  then show ?case by (intro that) (auto simp: record_user_point_def bind_res_eq_Inr checked_Inr split: if_splits)
qed (use assms(2) in simp)

text \<open>The points of an NFT are only added to, at the time of the call.\<close>

definition points_grow :: "uint \<Rightarrow> escrow \<Rightarrow> escrow \<Rightarrow> bool" where
  "points_grow n v0 v \<longleftrightarrow>
     (\<forall>i. ve_userPointEpoch v0 i \<le> ve_userPointEpoch v i \<and> (\<forall>e\<le>ve_userPointEpoch v0 i. ve_userPointHistory v i e = ve_userPointHistory v0 i e)
        \<and> (\<forall>e. ve_userPointEpoch v0 i < e \<longrightarrow> e \<le> ve_userPointEpoch v i \<longrightarrow> pt_ts (ve_userPointHistory v i e) = n))"

lemma points_grow_refl: "points_grow n v v"
  by (simp add: points_grow_def)

text \<open>The last point of an NFT is the point of its lock.\<close>

definition points_of_locks :: "escrow \<Rightarrow> bool" where
  "points_of_locks v \<longleftrightarrow>
     (\<forall>i. i \<noteq> 0 \<longrightarrow> ve_userPointEpoch v i \<noteq> 0 \<longrightarrow>
        (let p = ve_userPointHistory v i (ve_userPointEpoch v i) in
         lock_point (pt_ts p) (ve_lockedDerivedAmount v i) (ve_lockedEnd v i) = Inr (p\<lparr>pt_ts := 0, pt_blk := 0\<rparr>)))"

interpretation growth: lock_invariant K "\<lambda>n s. minted_only (fst s) \<and> points_grow n v0 (fst s)" for K :: "'t staking_tokens" and v0
proof (unfold_locales, goal_cases)
  case (1 n v t i)
  then show ?case by (simp add: minted_only_def)
next
  case (2 n v t v')
  then show ?case using minted_only_same(1) [of v v'] by (simp add: points_grow_def lock_part_def)
next
  case (3 E v t v')
  then show ?case using minted_only_same(2) [of v E v'] tick_locks(5,6) [OF 3(2)] by (simp add: points_grow_def)
next
  case (4 E v t i d e0 e' e v')
  then have i: "i \<noteq> 0" by simp
  have "minted_only v'" using minted_only_settle [OF _ 4(2-4)] 4(1) by simp
  from 4(2) i show ?case
  proof (rule settle_records)
    fix u
    assume v': "ve_userPointEpoch v' = (ve_userPointEpoch v)(i := Suc (ve_userPointEpoch v i))"
      "ve_userPointHistory v' = (ve_userPointHistory v)(i := (ve_userPointHistory v i)
        (Suc (ve_userPointEpoch v i) := u\<lparr>pt_ts := vn_now E, pt_blk := vn_block E\<rparr>))"
    have "ve_userPointEpoch v0 i \<le> ve_userPointEpoch v i" using 4(1) by (simp add: points_grow_def)
    then have "\<not> Suc (ve_userPointEpoch v i) \<le> ve_userPointEpoch v0 i" by simp
    with 4(1) \<open>minted_only v'\<close> show ?thesis by (auto simp: points_grow_def v' le_Suc_eq simp del: not_less_eq_eq)
  qed
qed (simp_all add: points_grow_def minted_only_same(3))

lemma lock_point_shape:
  assumes "lock_point n d e = Inr u"
  shows "pt_ts u = 0" "pt_blk u = 0" "d = 0 \<Longrightarrow> u = no_point"
  using assms by (auto simp: lock_point_def no_point_def Let_def bind_res_eq_Inr split: if_splits)

interpretation power: lock_invariant K "\<lambda>_ s. minted_only (fst s) \<and> points_of_locks (fst s)" for K :: "'t staking_tokens"
proof (unfold_locales, goal_cases)
  case (1 n v t i)
  then show ?case by (simp add: minted_only_def)
next
  case (2 n v t v')
  then show ?case using minted_only_same(1) [of v v'] by (simp add: points_of_locks_def lock_part_def)
next
  case (3 E v t v')
  then show ?case using minted_only_same(2) [of v E v'] tick_locks(3-6) [OF 3(2)] by (simp add: points_of_locks_def)
next
  case (4 E v t i d e0 e' e v')
  then have i: "i \<noteq> 0" by simp
  note k = checkpoint_keeps_locks(3,4) [OF 4(2)]
  have "minted_only v'" using minted_only_settle [OF _ 4(2-4)] 4(1) by simp
  moreover from 4(2) i have "points_of_locks v'"
  proof (rule settle_records)
    fix u
    assume u: "lock_point (vn_now E) d e' = Inr u"
      and v': "ve_userPointEpoch v' = (ve_userPointEpoch v)(i := Suc (ve_userPointEpoch v i))"
        "ve_userPointHistory v' = (ve_userPointHistory v)(i := (ve_userPointHistory v i)
          (Suc (ve_userPointEpoch v i) := u\<lparr>pt_ts := vn_now E, pt_blk := vn_block E\<rparr>))"
    have u': "lock_point (vn_now E) d e = Inr u" using 4(7) u lock_point_shape(3) [OF u] by (auto simp: lock_point_def)
    have "u\<lparr>pt_ts := 0, pt_blk := 0\<rparr> = u" using lock_point_shape(1,2) [OF u] by (cases u) simp
    then show ?thesis using 4(1) u' by (auto simp: points_of_locks_def k v')
  qed
  ultimately show ?case by simp
qed (simp_all add: points_of_locks_def minted_only_same(3))

text \<open>Amounts and times for which nothing overflows: a billion tokens, and far more than the present.\<close>

lemma slope_of_amount:
  assumes "d < 10 ^ 27"
  shows "i_div (to_int128 d) I_MAX_TIME = int (d div MAX_TIME)"
proof -
  have "int d < 2 ^ 127" using assms by simp
  then have "to_int128 d = int d" by (simp add: to_int128_def)
  then show ?thesis by (simp add: i_div_def I_MAX_TIME_def MAX_TIME_def zdiv_int)
qed

lemma to_int128_small: "n < 2 ^ 60 \<Longrightarrow> to_int128 n = int n"
  by (simp add: to_int128_def)

lemma fall_bound:
  assumes "d < 10 ^ 27" and "n < 2 ^ 60"
  shows "int (d div MAX_TIME) * int n < 2 ^ 127"
proof -
  have "d div MAX_TIME \<le> (10 ^ 27) div MAX_TIME" using assms(1) by (intro div_le_mono) simp
  then have "d div MAX_TIME \<le> 103340000000000000000" by (simp add: MAX_TIME_def)
  then have "d div MAX_TIME * n \<le> 103340000000000000000 * 2 ^ 60" using assms(2) by (intro mult_le_mono) simp_all
  then have "d div MAX_TIME * n < 2 ^ 127" by simp
  then have "int (d div MAX_TIME * n) < int (2 ^ 127)" by (simp only: of_nat_less_iff)
  then show ?thesis by simp
qed

lemma fall_fits:
  assumes "d < 10 ^ 27" and "n < 2 ^ 60"
  shows "i_mul (int (d div MAX_TIME)) (to_int128 n) = Inr (int (d div MAX_TIME) * int n)"
proof -
  have "0 \<le> int (d div MAX_TIME) * int n" by simp
  then have "fits_int128 (int (d div MAX_TIME) * int n)" unfolding fits_int128_def using fall_bound [OF assms] by linarith
  then show ?thesis by (simp add: i_mul_def checked_int128_def to_int128_small [OF assms(2)])
qed

lemma positive_nat: "positiveInt128 (int n) = int n"
  by (simp add: positiveInt128_def)

lemma lock_point_linear:
  assumes "lock_point n d e = Inr u" and "d < 10 ^ 27" and "e < 2 ^ 60"
  shows "pt_slope u = int (if n < e then d div MAX_TIME else 0)" and "pt_bias u = int (d div MAX_TIME * (e - n))"
proof -
  have "pt_slope u = int (if n < e then d div MAX_TIME else 0) \<and> pt_bias u = int (d div MAX_TIME * (e - n))"
  proof (cases "n < e \<and> 0 < d")
    case True
    have "i_mul (int (d div MAX_TIME)) (to_int128 (e - n)) = Inr (int (d div MAX_TIME) * int (e - n))"
      using assms(3) by (intro fall_fits [OF assms(2)]) simp
    then show ?thesis using assms(1) True by (auto simp: lock_point_def Let_def slope_of_amount [OF assms(2)])
  next
    case False
    then show ?thesis using assms(1) by (auto simp: lock_point_def no_point_def)
  qed
  then show "pt_slope u = int (if n < e then d div MAX_TIME else 0)" and "pt_bias u = int (d div MAX_TIME * (e - n))" by simp_all
qed

text \<open>What a line through the point of a lock is worth later.\<close>

lemma line_value:
  assumes "d < 10 ^ 27" and "n \<le> m" and "m < 2 ^ 60" and "e < 2 ^ 60"
  shows "bind_res (i_mul (int (if n < e then d div MAX_TIME else 0)) (to_int128 (m - n))) (\<lambda>fall.
      bind_res (i_sub (int (d div MAX_TIME * (e - n))) fall) (\<lambda>bias. Inr (nat (positiveInt128 bias)))) = Inr (d div MAX_TIME * (e - m))"
proof (cases "n < e")
  case True
  let ?s = "d div MAX_TIME"
  have fall: "i_mul (int ?s) (to_int128 (m - n)) = Inr (int ?s * int (m - n))" using assms(3) by (intro fall_fits [OF assms(1)]) simp
  have "int ?s * int (m - n) < 2 ^ 127" "int ?s * int (e - n) < 2 ^ 127"
    using assms(3,4) by (intro fall_bound [OF assms(1)], simp)+
  moreover have "0 \<le> int ?s * int (m - n)" "0 \<le> int ?s * int (e - n)" by simp_all
  ultimately have "fits_int128 (int ?s * int (e - n) - int ?s * int (m - n))" unfolding fits_int128_def by linarith
  moreover have "int ?s * int (e - n) - int ?s * int (m - n) = int ?s * (int e - int m)"
    using True assms(2) by (simp add: of_nat_diff right_diff_distrib')
  moreover have "nat (positiveInt128 (int ?s * (int e - int m))) = ?s * (e - m)"
  proof (cases "m \<le> e")
    case True
    then have "int ?s * (int e - int m) = int (?s * (e - m))" by (simp add: of_nat_diff)
    then show ?thesis by (simp only: positive_nat nat_int)
  next
    case False
    then have "int ?s * (int e - int m) \<le> 0" by (intro mult_nonneg_nonpos) simp_all
    then show ?thesis using False by (simp add: positiveInt128_def)
  qed
  ultimately show ?thesis using True by (simp add: fall i_sub_def checked_int128_def)
next
  case False
  then show ?thesis using assms(2) by (simp add: i_mul_def i_sub_def checked_int128_def fits_int128_def positiveInt128_def)
qed

text \<open>
  C16. Voting power. In every state that calls to the escrow lead to, the voting power of an NFT is the derived amount of its
  lock divided by the longest lock time, times what is left of its lock: it falls linearly and is nothing from the end of
  the lock on. The power is asked for at a time after the last change of the lock, and not in the block in which the NFT has changed hands.
\<close>

theorem voting_power_is_linear:
  assumes "ve_run K (new_escrow self p, t0) (v, t)" and "i \<noteq> 0" and "0 < ve_userPointEpoch v i"
    and "pt_ts (ve_userPointHistory v i (ve_userPointEpoch v i)) \<le> vn_now E" and "ve_ownershipChange v i \<noteq> vn_block E"
    and "ve_lockedDerivedAmount v i < 10 ^ 27" and "vn_now E < 2 ^ 60" and "ve_lockedEnd v i < 2 ^ 60"
  shows "balanceOfNFT E v i = Inr (ve_lockedDerivedAmount v i div MAX_TIME * (ve_lockedEnd v i - vn_now E))"
proof -
  define d where "d = ve_lockedDerivedAmount v i"
  define q where "q = ve_userPointHistory v i (ve_userPointEpoch v i)"
  have "points_of_locks (new_escrow self p)" by (simp add: points_of_locks_def new_escrow_def)
  then have "points_of_locks v" using power.run [OF assms(1)] minted_only_new by simp
  then have l: "lock_point (pt_ts q) d (ve_lockedEnd v i) = Inr (q\<lparr>pt_ts := 0, pt_blk := 0\<rparr>)"
    using assms(2,3) by (simp add: points_of_locks_def Let_def q_def d_def)
  have q: "pt_slope q = int (if pt_ts q < ve_lockedEnd v i then d div MAX_TIME else 0)" "pt_bias q = int (d div MAX_TIME * (ve_lockedEnd v i - pt_ts q))"
    using lock_point_linear [OF l] assms(6,8) by (simp_all add: d_def)
  have "bind_res (i_mul (pt_slope q) (to_int128 (vn_now E - pt_ts q))) (\<lambda>fall.
      bind_res (i_sub (pt_bias q) fall) (\<lambda>bias. Inr (nat (positiveInt128 bias)))) = Inr (d div MAX_TIME * (ve_lockedEnd v i - vn_now E))"
    unfolding q by (rule line_value) (use assms(4,6-8) in \<open>simp_all add: d_def q_def\<close>)
  then show ?thesis using assms(3-5) by (simp add: balanceOfNFT_def balanceOfNFT_at_def Let_def q_def d_def)
qed

section \<open>Sample\<close>

lemma plain_tokens_move: "moves_exactly plain_tokens"
  by (auto simp: moves_exactly_def plain_tokens_def Let_def split: if_splits)

theorem locked_tokens_are_held_witness:
  "\<exists>v t. ve_run plain_tokens (new_escrow 10 sample_proxy, sample_balances) (v, t) \<and> moves_exactly plain_tokens \<and> ve_lockedAmounts v 1 5 = 10 ^ 18
    \<and> (\<Sum>i\<le>ve_tokenId v. ve_lockedAmounts v i 5) \<le> sk_balanceOf plain_tokens t 5 (ve_self v)"
  using sample_escrow_run plain_tokens_move locked_tokens_are_held [of plain_tokens 10 sample_proxy sample_balances] unfolding sample_locked_def by blast

theorem voting_power_is_linear_witness:
  "\<exists>v t. ve_run plain_tokens (new_escrow 10 sample_proxy, sample_balances) (v, t)
    \<and> balanceOfNFT (sample_ve_env 9 604801 2) v 1 = Inr (10 ^ 18 div 9676800 * (1209600 - 604801))"
proof -
  obtain v t where r: "ve_run plain_tokens (new_escrow 10 sample_proxy, sample_balances) (v, t)" and v: "sample_locked v" using sample_escrow_run by blast
  have "balanceOfNFT (sample_ve_env 9 604801 2) v 1
      = Inr (ve_lockedDerivedAmount v 1 div MAX_TIME * (ve_lockedEnd v 1 - vn_now (sample_ve_env 9 604801 2)))"
    by (rule voting_power_is_linear [OF r]) (use v in \<open>simp_all add: sample_locked_def sample_ve_env_def\<close>)
  then show ?thesis using r v by (auto simp: sample_locked_def sample_ve_env_def MAX_TIME_def)
qed

end
