(* ===== verification/Escrow_Supply.thy ===== *)
theory Escrow_Supply
  imports Escrow_Locks
begin

text \<open>
  The total voting power of the escrow (\<open>contracts/Ve.sol\<close>). A checkpoint does not add up the locks: it carries one point
  forward over the weeks, with a slope that the ends of the locks change. The theory shows that the point stays the sum of
  the points of all locks.
\<close>

section \<open>The sum of the locks\<close>

text \<open>A family of locks: their slopes and ends, the sum of their powers at a time, and the slope of the sum.\<close>

definition power_sum :: "uint set \<Rightarrow> (uint \<Rightarrow> int) \<Rightarrow> (uint \<Rightarrow> uint) \<Rightarrow> uint \<Rightarrow> int" where
  "power_sum S slope ends t = (\<Sum>i\<in>S. slope i * int (ends i - t))"

definition slope_sum :: "uint set \<Rightarrow> (uint \<Rightarrow> int) \<Rightarrow> (uint \<Rightarrow> uint) \<Rightarrow> uint \<Rightarrow> int" where
  "slope_sum S slope ends t = (\<Sum>i\<in>S. if t < ends i then slope i else 0)"

definition end_sum :: "uint set \<Rightarrow> (uint \<Rightarrow> int) \<Rightarrow> (uint \<Rightarrow> uint) \<Rightarrow> uint \<Rightarrow> int" where
  "end_sum S slope ends w = (\<Sum>i\<in>S. if ends i = w then slope i else 0)"

text \<open>
  The locks are those of whole weeks, a lock that has not ended has no negative slope, and the changes of the slope are
  scheduled where the locks end.
\<close>

definition scheduled :: "uint set \<Rightarrow> (uint \<Rightarrow> int) \<Rightarrow> (uint \<Rightarrow> uint) \<Rightarrow> uint \<Rightarrow> (uint \<Rightarrow> int128) \<Rightarrow> bool" where
  "scheduled S slope ends t slopes \<longleftrightarrow>
     finite S \<and> (\<forall>i\<in>S. WEEK dvd ends i \<and> (t < ends i \<longrightarrow> 0 \<le> slope i))
     \<and> (\<forall>w. t < w \<longrightarrow> WEEK dvd w \<longrightarrow> slopes w = - end_sum S slope ends w)"

lemma scheduled_later:
  assumes "scheduled S slope ends t slopes" and "t \<le> t'"
  shows "scheduled S slope ends t' slopes"
  using assms by (auto simp: scheduled_def)

lemma sums_nonneg:
  assumes "scheduled S slope ends t slopes"
  shows "0 \<le> power_sum S slope ends t" and "0 \<le> slope_sum S slope ends t"
proof -
  have "0 \<le> slope i * int (ends i - t)" if "i \<in> S" for i using assms that by (cases "t < ends i") (auto simp: scheduled_def)
  then show "0 \<le> power_sum S slope ends t" unfolding power_sum_def by (rule sum_nonneg)
  show "0 \<le> slope_sum S slope ends t" unfolding slope_sum_def by (rule sum_nonneg) (use assms in \<open>auto simp: scheduled_def\<close>)
qed

text \<open>As long as no lock ends in between, the sum falls along its slope.\<close>

lemma power_sum_falls:
  assumes "\<And>i. i \<in> S \<Longrightarrow> t < ends i \<Longrightarrow> t' \<le> ends i" and "t \<le> t'"
  shows "power_sum S slope ends t' = power_sum S slope ends t - slope_sum S slope ends t * int (t' - t)"
proof -
  have "slope i * int (ends i - t') = slope i * int (ends i - t) - (if t < ends i then slope i else 0) * int (t' - t)" if "i \<in> S" for i
  proof (cases "t < ends i")
    case True
    then have "int (ends i - t') = int (ends i - t) - int (t' - t)" using assms(1) [OF that] assms(2) by linarith
    then show ?thesis using True by (simp add: right_diff_distrib')
  next
    case False
    then show ?thesis using assms(2) by simp
  qed
  then show ?thesis by (simp add: power_sum_def slope_sum_def sum_distrib_right sum_subtractf)
qed

lemma slope_sum_falls:
  assumes "\<And>i. i \<in> S \<Longrightarrow> t < ends i \<Longrightarrow> t' \<le> ends i" and "t < t'"
  shows "slope_sum S slope ends t' = slope_sum S slope ends t - end_sum S slope ends t'"
proof -
  have "(if t' < ends i then slope i else 0) = (if t < ends i then slope i else 0) - (if ends i = t' then slope i else 0)" if "i \<in> S" for i
    using assms(1) [OF that] assms(2) by auto
  then show ?thesis by (simp add: slope_sum_def end_sum_def sum_subtractf)
qed

lemma slope_sum_stays:
  assumes "\<And>i. i \<in> S \<Longrightarrow> t < ends i \<Longrightarrow> t' < ends i" and "t \<le> t'"
  shows "slope_sum S slope ends t' = slope_sum S slope ends t"
  unfolding slope_sum_def by (rule sum.cong) (use assms in force)+

text \<open>No lock ends between a time and the first week after it.\<close>

lemma next_week:
  assumes "WEEK dvd w" and "w \<le> t" and "t < e" and "WEEK dvd e"
  shows "w + WEEK \<le> e"
proof -
  obtain a b where "w = WEEK * a" "e = WEEK * b" using assms(1,4) unfolding dvd_def by auto
  moreover from this have "a < b" using assms(2,3) by (auto simp: WEEK_def)
  ultimately show ?thesis by (simp add: WEEK_def)
qed

section \<open>The loops over the weeks\<close>

text \<open>A point that is the sum of the locks at its time.\<close>

definition sums_up :: "uint set \<Rightarrow> (uint \<Rightarrow> int) \<Rightarrow> (uint \<Rightarrow> uint) \<Rightarrow> point \<Rightarrow> bool" where
  "sums_up S slope ends pt \<longleftrightarrow> pt_bias pt = power_sum S slope ends (pt_ts pt) \<and> pt_slope pt = slope_sum S slope ends (pt_ts pt)"

lemma week_step:
  assumes "scheduled S slope ends t slopes" and "WEEK dvd w" and "w \<le> t" and "t \<le> t'" and "t' \<le> w + WEEK"
  shows "power_sum S slope ends t' = power_sum S slope ends t - slope_sum S slope ends t * int (t' - t)"
    and "t' < w + WEEK \<Longrightarrow> slope_sum S slope ends t' = slope_sum S slope ends t"
    and "t' = w + WEEK \<Longrightarrow> t < w + WEEK \<Longrightarrow> slope_sum S slope ends t' = slope_sum S slope ends t + slopes (w + WEEK)"
proof -
  have e: "w + WEEK \<le> ends i" if "i \<in> S" "t < ends i" for i
    using next_week [OF assms(2,3) that(2)] assms(1) that(1) by (simp add: scheduled_def)
  show "power_sum S slope ends t' = power_sum S slope ends t - slope_sum S slope ends t * int (t' - t)"
    by (rule power_sum_falls) (use e assms(4,5) in \<open>auto intro: order_trans\<close>)
  show "slope_sum S slope ends t' = slope_sum S slope ends t" if "t' < w + WEEK"
    by (rule slope_sum_stays) (use e assms(4) that in \<open>auto intro: less_le_trans\<close>)
  show "slope_sum S slope ends t' = slope_sum S slope ends t + slopes (w + WEEK)" if t': "t' = w + WEEK" "t < w + WEEK"
  proof -
    have "slopes (w + WEEK) = - end_sum S slope ends (w + WEEK)" using assms(1,2) t'(2) by (simp add: scheduled_def)
    moreover have "slope_sum S slope ends (w + WEEK) = slope_sum S slope ends t - end_sum S slope ends (w + WEEK)"
      by (rule slope_sum_falls) (use e t' in auto)
    ultimately show ?thesis by (simp add: t'(1))
  qed
qed

lemma to_int128_week: "n \<le> WEEK \<Longrightarrow> to_int128 n = int n"
  by (simp add: to_int128_def WEEK_def)

lemma positive_id: "0 \<le> x \<Longrightarrow> positiveInt128 x = x"
  by (simp add: positiveInt128_def)

lemma int128_Inr:
  "i_add a b = Inr c \<longleftrightarrow> c = a + b \<and> fits_int128 (a + b)"
  "i_sub a b = Inr c \<longleftrightarrow> c = a - b \<and> fits_int128 (a - b)"
  "i_mul a b = Inr c \<longleftrightarrow> c = a * b \<and> fits_int128 (a * b)"
  by (auto simp: i_add_def i_sub_def i_mul_def checked_int128_def)

lemma positive_fits: "fits_int128 x \<Longrightarrow> fits_int128 (positiveInt128 x)"
  by (simp add: positiveInt128_def fits_int128_def)

text \<open>Carrying the point forward to the present.\<close>

lemma fill_weeks_sums:
  assumes "fill_weeks slopes now block blockSlope n w (pt_ts pt) pt ep h = Inr (pt', ep', h')"
    and "scheduled S slope ends (pt_ts pt) slopes" and "sums_up S slope ends pt"
    and "WEEK dvd w" and "w \<le> pt_ts pt" and "pt_ts pt < w + WEEK" and "pt_ts pt \<le> now" and "now < w + n * WEEK"
  shows "sums_up S slope ends pt' \<and> pt_ts pt' = now \<and> ep < ep' \<and> fits_int128 (pt_bias pt') \<and> fits_int128 (pt_slope pt')"
  using assms
proof (induction n arbitrary: w pt ep h)
  case 0
  then show ?case by simp
next
  case (Suc n)
  define ti where "ti = (if now < w + WEEK then now else w + WEEK)"
  define dSlope where "dSlope = (if now < w + WEEK then 0 else slopes (w + WEEK))"
  obtain fall bias sl blk where f: "i_mul (pt_slope pt) (to_int128 (ti - pt_ts pt)) = Inr fall" "i_sub (pt_bias pt) fall = Inr bias"
      "i_add (pt_slope pt) dSlope = Inr sl"
    and r: "(if ti = now then Inr (pt\<lparr>pt_bias := positiveInt128 bias, pt_slope := positiveInt128 sl, pt_ts := ti, pt_blk := block\<rparr>, ep + 1, h)
      else fill_weeks slopes now block blockSlope n ti ti (pt\<lparr>pt_bias := positiveInt128 bias, pt_slope := positiveInt128 sl, pt_ts := ti, pt_blk := blk\<rparr>) (ep + 1)
        (h(ep + 1 := pt\<lparr>pt_bias := positiveInt128 bias, pt_slope := positiveInt128 sl, pt_ts := ti, pt_blk := blk\<rparr>))) = Inr (pt', ep', h')"
    using Suc.prems(1) unfolding fill_weeks.simps Let_def bind_res_eq_Inr checked_Inr ti_def dSlope_def
    by (elim exE conjE) (simp cong: if_cong)
  define q where "q = pt\<lparr>pt_bias := positiveInt128 bias, pt_slope := positiveInt128 sl, pt_ts := ti, pt_blk := blk\<rparr>"
  have ti: "pt_ts pt \<le> ti" "ti \<le> w + WEEK" "ti - pt_ts pt \<le> WEEK" "ti \<le> now" using Suc.prems(5-7) by (auto simp: ti_def)
  note week = week_step [OF Suc.prems(2,4,5) ti(1,2)]
  have "bias = power_sum S slope ends ti"
    using f(1,2) week(1) Suc.prems(3) by (simp add: int128_Inr sums_up_def to_int128_week [OF ti(3)])
  moreover have "sl = slope_sum S slope ends ti"
    using f(3) week(2,3) Suc.prems(3,6) by (auto simp: int128_Inr sums_up_def ti_def dSlope_def split: if_splits)
  ultimately have q: "sums_up S slope ends q"
    using sums_nonneg [OF scheduled_later [OF Suc.prems(2) ti(1)]] by (simp add: sums_up_def q_def positive_id)
  have fits: "fits_int128 (positiveInt128 bias)" "fits_int128 (positiveInt128 sl)" using f(2,3) by (simp_all add: int128_Inr positive_fits)
  show ?case
  proof (cases "ti = now")
    case True
    then show ?thesis using r q fits by (auto simp: sums_up_def q_def)
  next
    case False
    then have w: "ti = w + WEEK" "now < ti + n * WEEK" using Suc.prems(8) by (auto simp: ti_def split: if_splits)
    have "fill_weeks slopes now block blockSlope n ti (pt_ts q) q (ep + 1) (h(ep + 1 := q)) = Inr (pt', ep', h')"
      using r False by (simp add: q_def)
    from Suc.IH [OF this] have "sums_up S slope ends pt' \<and> pt_ts pt' = now \<and> ep + 1 < ep'
        \<and> fits_int128 (pt_bias pt') \<and> fits_int128 (pt_slope pt')"
      using scheduled_later [OF Suc.prems(2) ti(1)] q ti(4) w Suc.prems(4) by (simp add: q_def WEEK_def)
    then show ?thesis by simp
  qed
qed

text \<open>The same for the view of the total at a later time, which nothing stops.\<close>

lemma slope_sum_antimono:
  assumes "scheduled S slope ends t slopes" and "t \<le> t'"
  shows "slope_sum S slope ends t' \<le> slope_sum S slope ends t"
  unfolding slope_sum_def by (rule sum_mono) (use assms in \<open>auto simp: scheduled_def\<close>)

lemma between_fits: "fits_int128 x \<Longrightarrow> 0 \<le> y \<Longrightarrow> y \<le> x \<Longrightarrow> fits_int128 y"
  by (auto simp: fits_int128_def intro: order_trans [of _ 0])

lemma supply_weeks_sums:
  assumes "scheduled S slope ends (pt_ts pt) slopes" and "sums_up S slope ends pt" and "fits_int128 (pt_bias pt)" and "fits_int128 (pt_slope pt)"
    and "WEEK dvd w" and "w \<le> pt_ts pt" and "pt_ts pt < w + WEEK" and "pt_ts pt \<le> t" and "t < w + n * WEEK" and "t + WEEK \<le> uint_max"
  shows "\<exists>q. supply_weeks slopes t n w pt = Inr q \<and> pt_bias q = power_sum S slope ends t"
  using assms
proof (induction n arbitrary: w pt)
  case 0
  then show ?case by simp
next
  case (Suc n)
  define ti where "ti = (if t < w + WEEK then t else w + WEEK)"
  define dSlope where "dSlope = (if t < w + WEEK then 0 else slopes (w + WEEK))"
  have ti: "pt_ts pt \<le> ti" "ti \<le> w + WEEK" "ti - pt_ts pt \<le> WEEK" "ti \<le> t" using Suc.prems(6-8) by (auto simp: ti_def)
  note week = week_step [OF Suc.prems(1,5,6) ti(1,2)]
  note nn = sums_nonneg [OF Suc.prems(1)] sums_nonneg [OF scheduled_later [OF Suc.prems(1) ti(1)]]
  have fall: "pt_slope pt * int (ti - pt_ts pt) = pt_bias pt - power_sum S slope ends ti" using week(1) Suc.prems(2) by (simp add: sums_up_def)
  have b: "pt_bias pt = power_sum S slope ends (pt_ts pt)" "pt_slope pt = slope_sum S slope ends (pt_ts pt)" using Suc.prems(2) by (simp_all add: sums_up_def)
  have "0 \<le> slope_sum S slope ends (pt_ts pt) * int (ti - pt_ts pt)" using nn(2) by simp
  then have ge: "power_sum S slope ends ti \<le> pt_bias pt" using fall b by simp
  have m: "i_mul (pt_slope pt) (to_int128 (ti - pt_ts pt)) = Inr (pt_bias pt - power_sum S slope ends ti)"
    using between_fits [OF Suc.prems(3), of "pt_bias pt - power_sum S slope ends ti"] ge nn(3) fall by (simp add: int128_Inr to_int128_week [OF ti(3)])
  have d: "i_sub (pt_bias pt) (pt_bias pt - power_sum S slope ends ti) = Inr (power_sum S slope ends ti)"
    using between_fits [OF Suc.prems(3) nn(3) ge] by (simp add: int128_Inr)
  have u: "u_add w WEEK = Inr (w + WEEK)" "u_sub ti (pt_ts pt) = Inr (ti - pt_ts pt)" using Suc.prems(6,8,10) ti(1) by (simp_all add: checked_Inr)
  show ?case
  proof (cases "ti = t")
    case True
    then show ?thesis using m d u unfolding supply_weeks.simps Let_def by (simp add: ti_def [symmetric] dSlope_def [symmetric])
  next
    case False
    then have w: "ti = w + WEEK" "t < ti + n * WEEK" "\<not> t < w + WEEK" using Suc.prems(9) by (auto simp: ti_def split: if_splits)
    have sl: "pt_slope pt + dSlope = slope_sum S slope ends ti" using week(3) w Suc.prems(7) b by (simp add: dSlope_def)
    have a: "i_add (pt_slope pt) dSlope = Inr (slope_sum S slope ends ti)"
      using between_fits [OF Suc.prems(4) nn(4)] slope_sum_antimono [OF Suc.prems(1) ti(1)] sl b by (simp add: int128_Inr)
    define q where "q = pt\<lparr>pt_bias := power_sum S slope ends ti, pt_slope := slope_sum S slope ends ti, pt_ts := ti\<rparr>"
    have fq: "fits_int128 (pt_bias q)" "fits_int128 (pt_slope q)" using d a by (simp_all add: q_def int128_Inr)
    have "\<exists>q'. supply_weeks slopes t n ti q = Inr q' \<and> pt_bias q' = power_sum S slope ends t"
      using Suc.IH [of q ti] scheduled_later [OF Suc.prems(1) ti(1)] ti(4) w Suc.prems(5,10) fq by (simp add: q_def sums_up_def WEEK_def)
    then show ?thesis
      using m d a u False unfolding supply_weeks.simps Let_def by (simp add: ti_def [symmetric] dSlope_def [symmetric] q_def)
  qed
qed

section \<open>The point of the escrow\<close>

definition lock_slope :: "uint \<Rightarrow> int128" where
  "lock_slope d = i_div (to_int128 d) I_MAX_TIME"

lemma lock_slope_zero [simp]: "lock_slope 0 = 0"
  by (simp add: lock_slope_def i_div_def to_int128_def)

text \<open>The last point of the escrow is the sum of the locks of the NFTs in \<open>S\<close>, and it is not older than the loops look back.\<close>

definition matches :: "uint set \<Rightarrow> uint \<Rightarrow> escrow \<Rightarrow> bool" where
  "matches S n v \<longleftrightarrow>
     (\<forall>i. WEEK dvd ve_lockedEnd v i \<and> ve_lockedEnd v i \<le> n + MAX_TIME)
     \<and> (if ve_epoch v = 0 then (\<forall>i. ve_lockedDerivedAmount v i = 0) \<and> (\<forall>w. ve_slopeChanges v w = 0)
        else
          let pt = ve_pointHistory v (ve_epoch v) in
          sums_up S (\<lambda>i. lock_slope (ve_lockedDerivedAmount v i)) (ve_lockedEnd v) pt
          \<and> scheduled S (\<lambda>i. lock_slope (ve_lockedDerivedAmount v i)) (ve_lockedEnd v) (pt_ts pt) (ve_slopeChanges v)
          \<and> pt_ts pt \<le> n \<and> n < pt_ts pt div WEEK * WEEK + 255 * WEEK \<and> fits_int128 (pt_bias pt) \<and> fits_int128 (pt_slope pt))"

lemma now_in_week: "n < n div WEEK * WEEK + 255 * WEEK" and now_in_this_week: "n < n div WEEK * WEEK + WEEK"
  using div_mod_decomp [of n WEEK] mod_less_divisor [of WEEK n] by (simp_all add: WEEK_def)

lemma matches_last_point:
  assumes "matches S (vn_now E) v" and "finite S"
  shows "sums_up S (\<lambda>i. lock_slope (ve_lockedDerivedAmount v i)) (ve_lockedEnd v) (last_point E v)"
    and "scheduled S (\<lambda>i. lock_slope (ve_lockedDerivedAmount v i)) (ve_lockedEnd v) (pt_ts (last_point E v)) (ve_slopeChanges v)"
    and "pt_ts (last_point E v) \<le> vn_now E" and "vn_now E < pt_ts (last_point E v) div WEEK * WEEK + 255 * WEEK"
  using assms now_in_week
  by (auto simp: matches_def last_point_def Let_def sums_up_def scheduled_def power_sum_def slope_sum_def end_sum_def split: if_splits intro!: sum.neutral)

lemma fill_now:
  assumes "fill_weeks (ve_slopeChanges v) (vn_now E) b bs 255 (pt_ts (last_point E v) div WEEK * WEEK) (pt_ts (last_point E v)) (last_point E v) ep h = Inr (pt, ep', h')"
    and "matches S (vn_now E) v" and "finite S"
  shows "sums_up S (\<lambda>i. lock_slope (ve_lockedDerivedAmount v i)) (ve_lockedEnd v) pt" and "pt_ts pt = vn_now E" and "0 < ep'"
    and "scheduled S (\<lambda>i. lock_slope (ve_lockedDerivedAmount v i)) (ve_lockedEnd v) (vn_now E) (ve_slopeChanges v)"
    and "fits_int128 (pt_bias pt)" and "fits_int128 (pt_slope pt)"
proof -
  note l = matches_last_point [OF assms(2,3)]
  have "sums_up S (\<lambda>i. lock_slope (ve_lockedDerivedAmount v i)) (ve_lockedEnd v) pt \<and> pt_ts pt = vn_now E \<and> ep < ep'
      \<and> fits_int128 (pt_bias pt) \<and> fits_int128 (pt_slope pt)"
    using fill_weeks_sums [OF assms(1) l(2,1)] l(3,4) now_in_this_week by simp
  then show "sums_up S (\<lambda>i. lock_slope (ve_lockedDerivedAmount v i)) (ve_lockedEnd v) pt" and "pt_ts pt = vn_now E" and "0 < ep'"
    and "fits_int128 (pt_bias pt)" and "fits_int128 (pt_slope pt)" by auto
  show "scheduled S (\<lambda>i. lock_slope (ve_lockedDerivedAmount v i)) (ve_lockedEnd v) (vn_now E) (ve_slopeChanges v)"
    using scheduled_later [OF l(2,3)] .
qed

lemma tick_matches:
  assumes "ve_checkpoint E v = Inr v'" and "matches S (vn_now E) v" and "finite S"
  shows "matches S (vn_now E) v'"
  using assms(1) [unfolded ve_checkpoint_def]
proof (rule checkpoint_global_steps)
  fix bs pt ep h
  assume f: "fill_weeks (ve_slopeChanges v) (vn_now E) (vn_block E) bs 255 (pt_ts (last_point E v) div WEEK * WEEK) (pt_ts (last_point E v))
      (last_point E v) (ve_epoch v) (ve_pointHistory v) = Inr (pt, ep, h)"
    and v': "v' = v\<lparr>ve_epoch := ep, ve_pointHistory := h(ep := pt)\<rparr>"
  note p = fill_now [OF f assms(2,3)]
  have "\<forall>i. WEEK dvd ve_lockedEnd v i \<and> ve_lockedEnd v i \<le> vn_now E + MAX_TIME" using assms(2) unfolding matches_def by blast
  then show ?thesis using p now_in_week [of "vn_now E"] by (simp add: matches_def v')
qed simp

text \<open>One lock of the family changes.\<close>

lemma sum_changes:
  fixes f g :: "uint \<Rightarrow> int"
  assumes "finite S" and "i \<in> S" and "\<And>j. j \<noteq> i \<Longrightarrow> f j = g j"
  shows "sum f S = sum g S - g i + f i"
proof -
  have "sum f (S - {i}) = sum g (S - {i})" by (rule sum.cong) (use assms(3) in auto)
  then show ?thesis using sum.remove [OF assms(1,2), of f] sum.remove [OF assms(1,2), of g] by simp
qed

lemma sums_change:
  assumes "finite S" and "i \<in> S"
  shows "power_sum S (slope(i := s)) (ends(i := e)) t = power_sum S slope ends t - slope i * int (ends i - t) + s * int (e - t)"
    and "slope_sum S (slope(i := s)) (ends(i := e)) t = slope_sum S slope ends t - (if t < ends i then slope i else 0) + (if t < e then s else 0)"
    and "end_sum S (slope(i := s)) (ends(i := e)) w = end_sum S slope ends w - (if ends i = w then slope i else 0) + (if e = w then s else 0)"
  unfolding power_sum_def slope_sum_def end_sum_def by (subst sum_changes [OF assms]; simp)+

lemma lock_point_value:
  assumes "lock_point n d e = Inr u" and "d = 0 \<or> e \<le> n + MAX_TIME"
  shows "pt_slope u = (if n < e then lock_slope d else 0)" and "pt_bias u = lock_slope d * int (e - n)"
proof -
  have "pt_slope u = (if n < e then lock_slope d else 0) \<and> pt_bias u = lock_slope d * int (e - n)"
  proof (cases "n < e \<and> 0 < d")
    case True
    then have "e - n < 2 ^ 60" using assms(2) by (auto simp: MAX_TIME_def)
    then show ?thesis using assms(1) True by (auto simp: lock_point_def Let_def bind_res_eq_Inr int128_Inr lock_slope_def to_int128_small)
  next
    case False
    then show ?thesis using assms(1) by (auto simp: lock_point_def no_point_def)
  qed
  then show "pt_slope u = (if n < e then lock_slope d else 0)" and "pt_bias u = lock_slope d * int (e - n)" by simp_all
qed

lemma schedule_changes:
  assumes "schedule_slopes now \<lparr>ci_tokenId = i, ci_oldDerivedAmount = d0, ci_newDerivedAmount = d, ci_oldEnd = e0, ci_newEnd = e\<rparr> uOld uNew slopes = Inr slopes'"
    and "e0 \<le> e \<or> e0 \<le> now" and "now < w"
  shows "slopes' w = slopes w + (if w = e0 then pt_slope uOld else 0) - (if w = e then pt_slope uNew else 0)"
  using assms by (auto simp: schedule_slopes_def Let_def bind_res_eq_Inr int128_Inr split: if_splits)

lemma move_point_Inr:
  assumes "move_point uOld uNew pt = Inr pt'"
  shows "pt_slope pt' = positiveInt128 (pt_slope pt + (pt_slope uNew - pt_slope uOld))" "pt_bias pt' = positiveInt128 (pt_bias pt + (pt_bias uNew - pt_bias uOld))"
    "pt_ts pt' = pt_ts pt" "fits_int128 (pt_slope pt')" "fits_int128 (pt_bias pt')"
  using assms by (auto simp: move_point_def bind_res_eq_Inr int128_Inr positive_fits)

lemma scheduled_changes:
  assumes "scheduled S slope ends now slopes" and "i \<in> S" and "WEEK dvd e" and "now < e \<Longrightarrow> 0 \<le> s"
    and "\<And>w. now < w \<Longrightarrow> slopes' w = slopes w + (if w = ends i then slope i else 0) - (if w = e then s else 0)"
  shows "scheduled S (slope(i := s)) (ends(i := e)) now slopes'"
  unfolding scheduled_def
proof (intro conjI ballI allI impI)
  have f: "finite S" using assms(1) by (simp add: scheduled_def)
  then show "finite S" .
  fix j
  assume "j \<in> S"
  then show "WEEK dvd (ends(i := e)) j" using assms(1,3) by (simp add: scheduled_def)
  assume "now < (ends(i := e)) j"
  then show "0 \<le> (slope(i := s)) j" using assms(1,4) \<open>j \<in> S\<close> by (auto simp: scheduled_def split: if_splits)
next
  fix w
  assume "now < w" "WEEK dvd w"
  then show "slopes' w = - end_sum S (slope(i := s)) (ends(i := e)) w"
    using assms(1,2) assms(5) [of w] by (auto simp: scheduled_def sums_change)
qed

lemma settle_matches:
  assumes "checkpoint_internal E \<lparr>ci_tokenId = i, ci_oldDerivedAmount = ve_lockedDerivedAmount v i, ci_newDerivedAmount = d, ci_oldEnd = e0, ci_newEnd = e'\<rparr>
      (set_lock i d e v) = Inr v'"
    and "matches S (vn_now E) v" and "finite S" and "i \<in> S" and "0 < i"
    and "e0 = ve_lockedEnd v i \<or> ve_lockedDerivedAmount v i = 0" and "e0 \<le> e' \<or> e0 \<le> vn_now E" and "d = 0 \<or> e' = e"
    and "WEEK dvd e \<and> e \<le> vn_now E + MAX_TIME \<or> (\<exists>j. e = ve_lockedEnd v j)"
    and "\<And>k. 0 \<le> pt_slope (ve_userPointHistory v' i k)"
  shows "matches S (vn_now E) v'"
  using assms(1)
proof (rule checkpoint_user_steps, goal_cases)
  case 1
  then show ?case using assms(5) by simp
next
  case (2 uOld uNew bs pt ep h pt' sl)
  let ?s = "\<lambda>j. lock_slope (ve_lockedDerivedAmount v j)"
  have last: "last_point E (set_lock i d e v) = last_point E v" by (simp add: last_point_def set_lock_def)
  have f: "fill_weeks (ve_slopeChanges v) (vn_now E) (vn_block E) bs 255 (pt_ts (last_point E v) div WEEK * WEEK) (pt_ts (last_point E v))
      (last_point E v) (ve_epoch v) (ve_pointHistory v) = Inr (pt, ep, h)"
    using 2(4) unfolding last by (simp add: set_lock_def)
  have sl: "schedule_slopes (vn_now E) \<lparr>ci_tokenId = i, ci_oldDerivedAmount = ve_lockedDerivedAmount v i, ci_newDerivedAmount = d, ci_oldEnd = e0, ci_newEnd = e'\<rparr>
      uOld uNew (ve_slopeChanges v) = Inr sl"
    using 2(6) by (simp add: set_lock_def)
  note p = fill_now [OF f assms(2,3)]
  have ends: "\<And>j. WEEK dvd ve_lockedEnd v j" "\<And>j. ve_lockedEnd v j \<le> vn_now E + MAX_TIME" using assms(2) unfolding matches_def by blast+
  then have e: "WEEK dvd e" "e \<le> vn_now E + MAX_TIME" using assms(9) by blast+
  have old: "pt_slope uOld = (if vn_now E < ve_lockedEnd v i then ?s i else 0)" "pt_bias uOld = ?s i * int (ve_lockedEnd v i - vn_now E)"
      "(if w = e0 then pt_slope uOld else 0) = (if w = ve_lockedEnd v i then ?s i else 0)" if "vn_now E < w" for w
    using lock_point_value [OF 2(1)] assms(6) ends(2) [of i] that by auto
  have new: "pt_slope uNew = (if vn_now E < e then lock_slope d else 0)" "pt_bias uNew = lock_slope d * int (e - vn_now E)"
      "(if w = e' then pt_slope uNew else 0) = (if w = e then lock_slope d else 0)" if "vn_now E < w" for w
    using lock_point_value [OF 2(2)] assms(8) e(2) that by auto
  have v': "ve_epoch v' = ep" "ve_pointHistory v' = h(ep := pt')" "ve_slopeChanges v' = sl" "ve_lockedDerivedAmount v' = (ve_lockedDerivedAmount v)(i := d)"
      "ve_lockedEnd v' = (ve_lockedEnd v)(i := e)" "ve_userPointHistory v' i (Suc (ve_userPointEpoch v i)) = uNew\<lparr>pt_ts := vn_now E, pt_blk := vn_block E\<rparr>"
    using 2(7) by (auto simp: record_user_point_def bind_res_eq_Inr checked_Inr set_lock_def split: if_splits)
  have slope': "(\<lambda>j. lock_slope (ve_lockedDerivedAmount v' j)) = ?s(i := lock_slope d)" by (auto simp: v'(4))
  have "0 \<le> pt_slope uNew" using assms(10) [of "Suc (ve_userPointEpoch v i)"] v'(6) by simp
  then have "scheduled S (?s(i := lock_slope d)) ((ve_lockedEnd v)(i := e)) (vn_now E) sl"
    using schedule_changes [OF sl assms(7)] old(3) new(1) [of "Suc (vn_now E)"] new(3) by (intro scheduled_changes [OF p(4) assms(4) e(1)]) auto
  note sch = this sums_nonneg [OF this]
  note m = move_point_Inr [OF 2(5)]
  have "sums_up S (?s(i := lock_slope d)) ((ve_lockedEnd v)(i := e)) pt'"
    using p(1,2) m(1-3) old(1,2) [of "Suc (vn_now E)"] new(1,2) [of "Suc (vn_now E)"] sch(2,3)
    by (simp add: sums_up_def sums_change [OF assms(3,4)] positive_id)
  then show ?case
    using sch(1) p(2,3) m(3-5) now_in_week [of "vn_now E"] ends e unfolding matches_def slope' by (simp add: v'(1-3,5))
qed

section \<open>Attended runs\<close>

text \<open>No recorded point of a lock has a negative slope, which an amount of \<open>2\<^sup>1\<^sup>2\<^sup>7\<close> or more would have.\<close>

definition slopes_nonneg :: "escrow \<Rightarrow> bool" where
  "slopes_nonneg v \<longleftrightarrow> (\<forall>i k. 0 \<le> pt_slope (ve_userPointHistory v i k))"

definition supply_inv :: "uint \<Rightarrow> escrow \<Rightarrow> bool" where
  "supply_inv n v \<longleftrightarrow> (\<forall>i k. ve_userPointEpoch v i < k \<longrightarrow> ve_userPointHistory v i k = no_point)
     \<and> (slopes_nonneg v \<longrightarrow> (\<forall>S. finite S \<longrightarrow> {1..ve_tokenId v} \<subseteq> S \<longrightarrow> matches S n v))"

lemma matches_same: "lock_part v' = lock_part v \<Longrightarrow> matches S n v' \<longleftrightarrow> matches S n v"
  using lock_partD [of v' v] lock_partD(8) [of v' v "ve_epoch v"] by (auto simp: matches_def)

lemma supply_inv_set_locked: "supply_inv n (set_locked i token m v) \<longleftrightarrow> supply_inv n v"
proof -
  have "matches S n (set_locked i token m v) \<longleftrightarrow> matches S n v" for S by (simp add: matches_def set_locked_def)
  then show ?thesis by (simp add: supply_inv_def slopes_nonneg_def)
qed

lemma supply_inv_same:
  assumes "supply_inv n v" and "lock_part v' = lock_part v" and "ve_tokenId v \<le> ve_tokenId v'"
  shows "supply_inv n v'"
  unfolding supply_inv_def
proof (intro conjI impI allI)
  fix S
  assume "slopes_nonneg v'" and S: "finite S" "{1..ve_tokenId v'} \<subseteq> S"
  then have "slopes_nonneg v" by (simp add: slopes_nonneg_def lock_partD(6) [OF assms(2)])
  moreover have "{1..ve_tokenId v} \<subseteq> S" using S(2) assms(3) by (meson atLeastatMost_subset_iff order_refl order_trans)
  ultimately have "matches S n v" using assms(1) S(1) unfolding supply_inv_def by blast
  then show "matches S n v'" by (simp add: matches_same [OF assms(2)])
qed (use assms(1) in \<open>simp add: supply_inv_def lock_partD(5,6) [OF assms(2)]\<close>)

interpretation totals: lock_invariant K "\<lambda>n s. minted_only (fst s) \<and> supply_inv n (fst s)" for K :: "'t staking_tokens"
proof (unfold_locales, goal_cases)
  case (1 n v t i)
  then show ?case by (simp add: minted_only_def)
next
  case (2 n v t v')
  then show ?case using minted_only_same(1) [of v v'] supply_inv_same [of n v v'] by simp
next
  case (3 E v t v')
  have "ve_tokenId v' = ve_tokenId v" using checkpoint_keeps_nfts 3(2) by (simp add: ve_checkpoint_def)
  then show ?case using 3(1) minted_only_same(2) [OF _ 3(2)] tick_locks(5,6) [OF 3(2)] tick_matches [OF 3(2)] by (simp add: supply_inv_def slopes_nonneg_def)
next
  case (4 E v t i d e0 e' e v')
  have minted: "minted_only v'" using minted_only_settle [OF _ 4(2-4)] 4(1) by simp
  have tokenId: "ve_tokenId v' = ve_tokenId v" using checkpoint_keeps_nfts [OF 4(2)] by simp
  from 4(3) have i: "i \<noteq> 0" by simp
  from 4(2) i have grown: "(\<forall>j k. ve_userPointEpoch v' j < k \<longrightarrow> ve_userPointHistory v' j k = no_point) \<and> (slopes_nonneg v' \<longrightarrow> slopes_nonneg v)"
  proof (rule settle_records)
    fix u
    assume v': "ve_userPointEpoch v' = (ve_userPointEpoch v)(i := Suc (ve_userPointEpoch v i))"
        "ve_userPointHistory v' = (ve_userPointHistory v)(i := (ve_userPointHistory v i)
          (Suc (ve_userPointEpoch v i) := u\<lparr>pt_ts := vn_now E, pt_blk := vn_block E\<rparr>))"
    have none: "\<And>j k. ve_userPointEpoch v j < k \<Longrightarrow> ve_userPointHistory v j k = no_point" using 4(1) by (simp add: supply_inv_def)
    have "0 \<le> pt_slope (ve_userPointHistory v j k)" if "slopes_nonneg v'" for j k
    proof (cases "j = i \<and> k = Suc (ve_userPointEpoch v i)")
      case True
      then show ?thesis using none [of i k] by (simp add: no_point_def)
    next
      case False
      then have "ve_userPointHistory v' j k = ve_userPointHistory v j k" by (auto simp: v')
      then show ?thesis using that unfolding slopes_nonneg_def by metis
    qed
    then show ?thesis using none by (auto simp: v' slopes_nonneg_def)
  qed
  have "matches S (vn_now E) v'" if "slopes_nonneg v'" "finite S" "{1..ve_tokenId v'} \<subseteq> S" for S
  proof (rule settle_matches [OF 4(2) _ that(2) _ 4(3,5-8)])
    show "matches S (vn_now E) v" using 4(1) grown that tokenId by (simp add: supply_inv_def)
    show "i \<in> S" using that(3) 4(3,4) tokenId by (auto simp: Suc_le_eq)
    show "0 \<le> pt_slope (ve_userPointHistory v' i k)" for k using that(1) by (simp add: slopes_nonneg_def)
  qed
  then show ?case using minted grown by (simp add: supply_inv_def)
qed (simp_all add: minted_only_same(3) supply_inv_set_locked)

text \<open>Runs in which the time does not go back and somebody calls the escrow at least every 254 weeks.\<close>

inductive attended_run :: "'t staking_tokens \<Rightarrow> 't ve_state \<Rightarrow> uint \<Rightarrow> 't ve_state \<Rightarrow> bool" for K s0 where
  start: "attended_run K s0 n s0"
| call: "attended_run K s0 n s \<Longrightarrow> n \<le> vn_now E \<Longrightarrow>
     ve_epoch (fst s) = 0 \<or> vn_now E < pt_ts (ve_pointHistory (fst s) (ve_epoch (fst s))) div WEEK * WEEK + 255 * WEEK \<Longrightarrow>
     vn_stk E = K \<Longrightarrow> vn_sender E \<noteq> 0 \<Longrightarrow> vn_sender E \<noteq> ve_self (fst s) \<Longrightarrow> ve_perform E c s = Inr s' \<Longrightarrow> attended_run K s0 (vn_now E) s'"

lemma supply_inv_later:
  assumes "supply_inv n v" and "n \<le> m" and "ve_epoch v = 0 \<or> m < pt_ts (ve_pointHistory v (ve_epoch v)) div WEEK * WEEK + 255 * WEEK"
  shows "supply_inv m v"
proof -
  have "matches S m v" if "matches S n v" for S using that assms(2,3) by (auto simp: matches_def Let_def intro: order_trans)
  then show ?thesis using assms(1) by (simp add: supply_inv_def)
qed

lemma attended_supply:
  assumes "attended_run K (new_escrow self p, t0) n s"
  shows "minted_only (fst s) \<and> supply_inv n (fst s) \<and> well_owned (fst s)"
  using assms
proof induction
  case (start n)
  show ?case
    by (simp add: minted_only_def supply_inv_def slopes_nonneg_def matches_def new_escrow_def well_owned_def no_point_def)
next
  case (call n s E c s')
  obtain v t v' t' where s: "s = (v, t)" "s' = (v', t')" by (cases s, cases s')
  have "supply_inv (vn_now E) v" using supply_inv_later [of n v "vn_now E"] call s by simp
  then show ?case
    using totals.perform [of E c v t v' t'] perform_well_owned [of E c v t v' t'] call s by simp
qed

text \<open>
  C10. Total voting power. In every attended run, in which no lock gets an amount that does not fit, the total voting power at
  a time after the last call is the sum of the voting powers of all NFTs at this time: the derived amounts divided by the
  longest lock time, times what is left of the locks. The point and the slope changes that the checkpoints carry along stand
  for all locks, whatever has been created, increased, extended, merged, split or withdrawn, and the view does not revert.
\<close>

theorem total_power_is_sum_of_locks:
  assumes "attended_run K (new_escrow self p, t0) n (v, t)" and "slopes_nonneg v" and "0 < ve_epoch v" and "\<forall>i. ve_lockedDerivedAmount v i < 10 ^ 27"
    and "n \<le> m" and "m < pt_ts (ve_pointHistory v (ve_epoch v)) div WEEK * WEEK + 255 * WEEK" and "m < 2 ^ 60"
  shows "totalSupplyAtT v m = Inr (\<Sum>i = 1..ve_tokenId v. ve_lockedDerivedAmount v i div MAX_TIME * (ve_lockedEnd v i - m))"
proof -
  let ?S = "{1..ve_tokenId v}"
  let ?pt = "ve_pointHistory v (ve_epoch v)"
  let ?s = "\<lambda>i. lock_slope (ve_lockedDerivedAmount v i)"
  have "supply_inv n v" using attended_supply [OF assms(1)] by simp
  then have "matches ?S n v" using assms(2) by (simp add: supply_inv_def)
  then have pt: "sums_up ?S ?s (ve_lockedEnd v) ?pt" "scheduled ?S ?s (ve_lockedEnd v) (pt_ts ?pt) (ve_slopeChanges v)" "pt_ts ?pt \<le> n"
      "fits_int128 (pt_bias ?pt)" "fits_int128 (pt_slope ?pt)"
    using assms(3) by (simp_all add: matches_def Let_def)
  have "m + WEEK \<le> uint_max" using assms(7) by (simp add: WEEK_def uint_max_def)
  then obtain q where q: "supply_weeks (ve_slopeChanges v) m 255 (pt_ts ?pt div WEEK * WEEK) ?pt = Inr q" "pt_bias q = power_sum ?S ?s (ve_lockedEnd v) m"
    using supply_weeks_sums [OF pt(2,1,4,5), of "pt_ts ?pt div WEEK * WEEK" m 255] now_in_this_week assms(5,6) pt(3) by auto
  have "power_sum ?S ?s (ve_lockedEnd v) m = int (\<Sum>i = 1..ve_tokenId v. ve_lockedDerivedAmount v i div MAX_TIME * (ve_lockedEnd v i - m))"
    using assms(4) by (simp add: power_sum_def lock_slope_def slope_of_amount)
  then show ?thesis using q by (simp only: totalSupplyAtT_def supplyAt_def bind_res_simps positive_nat nat_int)
qed

lemma sample_attended_run:
  "\<exists>v t. attended_run plain_tokens (new_escrow 10 sample_proxy, sample_balances) 1 (v, t) \<and> sample_locked v"
proof -
  have "attended_run plain_tokens (new_escrow 10 sample_proxy, sample_balances) (vn_now (sample_ve_env 2 1 1)) (sample_escrow, sample_balances)"
    by (rule attended_run.call [OF attended_run.start [where n = 0] _ _ _ _ _ sample_setup]) (simp_all add: sample_ve_env_def new_escrow_def)
  then have r: "attended_run plain_tokens (new_escrow 10 sample_proxy, sample_balances) 1 (sample_escrow, sample_balances)" by (simp add: sample_ve_env_def)
  obtain v t where l: "ve_perform (sample_ve_env 9 1 1) (CreateLock 5 (10 ^ 18) 1209600) (sample_escrow, sample_balances) = Inr (v, t)" "sample_locked v"
    using sample_lock by blast
  have "attended_run plain_tokens (new_escrow 10 sample_proxy, sample_balances) (vn_now (sample_ve_env 9 1 1)) (v, t)"
    by (rule attended_run.call [OF r _ _ _ _ _ l(1)]) (simp_all add: sample_ve_env_def sample_escrow_def new_escrow_def)
  then show ?thesis using l(2) by (auto simp: sample_ve_env_def)
qed

theorem total_power_is_sum_of_locks_witness:
  "\<exists>v t. attended_run plain_tokens (new_escrow 10 sample_proxy, sample_balances) 1 (v, t) \<and> totalSupplyAtT v 604801 = Inr (10 ^ 18 div 9676800 * (1209600 - 604801))"
proof -
  obtain v t where r: "attended_run plain_tokens (new_escrow 10 sample_proxy, sample_balances) 1 (v, t)" and v: "sample_locked v"
    using sample_attended_run by blast
  have "totalSupplyAtT v 604801 = Inr (\<Sum>i = 1..ve_tokenId v. ve_lockedDerivedAmount v i div MAX_TIME * (ve_lockedEnd v i - 604801))"
    by (rule total_power_is_sum_of_locks [OF r]) (use v in \<open>auto simp: sample_locked_def slopes_nonneg_def WEEK_def\<close>)
  then show ?thesis using r v by (auto simp: sample_locked_def MAX_TIME_def)
qed

end
