(* ===== verification/Ve_Distributor.thy ===== *)
theory Ve_Distributor
  imports Escrow_Supply
begin

text \<open>
  The distributor of the rewards to the NFTs of the escrow (\<open>contracts/VeDistributor.sol\<close>): what has come in is spread
  over the weeks since the last checkpoint, the voting power of every week is recorded, and an NFT claims its share of
  every week. The theory holds the state and every operation, composed with the escrow that it asks for its points and
  whose checkpoint it calls. The numbers of points are taken to be small enough for the sum of two of them. Events are
  not modelled.
\<close>

section \<open>State\<close>

record distributor =
  ds_self :: address
  ds_controllable :: proxy
  ds_ve :: address
  ds_rewardToken :: address
  ds_activePeriod :: uint
  ds_tokensPerWeek :: "uint \<Rightarrow> uint"
  ds_veSupply :: "uint \<Rightarrow> uint"
  ds_timeCursor :: uint
  ds_tokenLastBalance :: uint
  ds_lastTokenTime :: uint
  ds_startTime :: uint
  ds_timeCursorOf :: "uint \<Rightarrow> uint"
  ds_userEpochOf :: "uint \<Rightarrow> uint"

text \<open>The distributor, the escrow and the tokens; a step is a call with its surroundings, as for the escrow.\<close>

type_synonym 't ds_state = "distributor \<times> 't ve_state"

definition week_of :: "uint \<Rightarrow> uint" where
  "week_of t = t div WEEK * WEEK"

text \<open>The arrays with an entry per second, of a fixed size.\<close>

definition WEEKS_SIZE :: uint where "WEEKS_SIZE = 1000000000000000"

definition slot :: "uint \<Rightarrow> revert + uint" where
  "slot w = (if w < WEEKS_SIZE then Inr w else Inl Panic)"

definition ds_init :: "'t ve_env \<Rightarrow> address \<Rightarrow> address \<Rightarrow> address \<Rightarrow> distributor \<Rightarrow> revert + distributor" where
  "ds_init E controller ve rewardToken d =
     bind_res (initializer (ds_controllable d)) (\<lambda>p.
     bind_res (Controllable_init (vn_logic E) (vn_now E) (vn_block E) controller p) (\<lambda>p'.
     bind_res (requireERC20 (vn_logic E) (ds_self d) rewardToken) (\<lambda>_.
     bind_res (requireInterface (vn_logic E) ve I_VE) (\<lambda>_.
     let t = week_of (vn_now E) in
     Inr (d\<lparr>ds_controllable := p', ds_startTime := t, ds_lastTokenTime := t, ds_timeCursor := t, ds_rewardToken := rewardToken, ds_ve := ve\<rparr>)))))"

definition ds_supportsInterface :: "(interface_id \<Rightarrow> bool) \<Rightarrow> interface_id \<Rightarrow> bool" where
  "ds_supportsInterface base interface \<longleftrightarrow> interface = I_VE_DISTRIBUTOR \<or> controllable_supportsInterface base interface"

definition ds_timestamp :: "'t ve_env \<Rightarrow> uint" where
  "ds_timestamp E = week_of (vn_now E)"

section \<open>Checkpoints\<close>

definition adjustToDistribute :: "uint \<Rightarrow> uint \<Rightarrow> uint \<Rightarrow> uint \<Rightarrow> revert + uint" where
  "adjustToDistribute toDistribute t0 t1 sinceLast =
     (if t0 \<le> t1 \<or> t0 - t1 = 0 \<or> sinceLast = 0 then Inr toDistribute
      else bind_res (u_mul toDistribute (t0 - t1)) (\<lambda>x. Inr (x div sinceLast)))"

text \<open>\<open>tokensPerWeek[w] += n\<close>.\<close>

definition add_to_week :: "uint \<Rightarrow> uint \<Rightarrow> (uint \<Rightarrow> uint) \<Rightarrow> revert + (uint \<Rightarrow> uint)" where
  "add_to_week w n tokensPerWeek =
     bind_res (slot w) (\<lambda>_. bind_res (u_add (tokensPerWeek w) n) (\<lambda>m. Inr (tokensPerWeek(w := m))))"

text \<open>The loop over the weeks, \<open>n\<close> iterations of which are left.\<close>

fun spread_weeks :: "uint \<Rightarrow> uint \<Rightarrow> uint \<Rightarrow> nat \<Rightarrow> uint \<Rightarrow> uint \<Rightarrow> (uint \<Rightarrow> uint) \<Rightarrow> revert + (uint \<Rightarrow> uint)" where
  "spread_weeks now toDistribute sinceLast 0 t thisWeek tokensPerWeek = Inr tokensPerWeek"
| "spread_weeks now toDistribute sinceLast (Suc n) t thisWeek tokensPerWeek =
     bind_res (u_add thisWeek WEEK) (\<lambda>nextWeek.
     if now < nextWeek then
       bind_res (adjustToDistribute toDistribute now t sinceLast) (\<lambda>x. add_to_week thisWeek x tokensPerWeek)
     else
       bind_res (adjustToDistribute toDistribute nextWeek t sinceLast) (\<lambda>x.
       bind_res (add_to_week thisWeek x tokensPerWeek) (\<lambda>tokensPerWeek.
       spread_weeks now toDistribute sinceLast n nextWeek nextWeek tokensPerWeek)))"

definition reward_balance :: "'t ve_env \<Rightarrow> distributor \<Rightarrow> 't \<Rightarrow> uint" where
  "reward_balance E d t = sk_balanceOf (vn_stk E) t (ds_rewardToken d) (ds_self d)"

definition checkpointToken :: "'t ve_env \<Rightarrow> uint \<Rightarrow> distributor \<Rightarrow> revert + distributor" where
  "checkpointToken E tokenBalance d =
     bind_res (u_sub tokenBalance (ds_tokenLastBalance d)) (\<lambda>toDistribute.
     let t = ds_lastTokenTime d in
     bind_res (u_sub (vn_now E) t) (\<lambda>sinceLast.
     bind_res (spread_weeks (vn_now E) toDistribute sinceLast 20 t (week_of t) (ds_tokensPerWeek d)) (\<lambda>tokensPerWeek.
     Inr (d\<lparr>ds_tokenLastBalance := tokenBalance, ds_lastTokenTime := vn_now E, ds_tokensPerWeek := tokensPerWeek\<rparr>))))"

text \<open>The binary search for the last point of a history that is not later than \<open>t\<close>, in \<open>n\<close> iterations.\<close>

fun find_ts :: "(uint \<Rightarrow> point) \<Rightarrow> uint \<Rightarrow> nat \<Rightarrow> uint \<Rightarrow> uint \<Rightarrow> uint" where
  "find_ts history t 0 lo hi = lo"
| "find_ts history t (Suc n) lo hi =
     (if hi \<le> lo then lo
      else
        let mid = (lo + hi + 2) div 2 in
        if pt_ts (history mid) \<le> t then find_ts history t n mid hi else find_ts history t n lo (mid - 1))"

definition findTimestampEpoch :: "escrow \<Rightarrow> uint \<Rightarrow> uint" where
  "findTimestampEpoch v t = find_ts (ve_pointHistory v) t 128 0 (ve_epoch v)"

definition findTimestampUserEpoch :: "escrow \<Rightarrow> uint \<Rightarrow> uint \<Rightarrow> uint \<Rightarrow> uint" where
  "findTimestampUserEpoch v i t maxUserEpoch = find_ts (ve_userPointHistory v i) t 128 0 maxUserEpoch"

definition veForAt :: "escrow \<Rightarrow> uint \<Rightarrow> uint \<Rightarrow> revert + uint" where
  "veForAt v i t =
     (let pt = ve_userPointHistory v i (findTimestampUserEpoch v i t (ve_userPointEpoch v i)) in
      bind_res (u_sub t (pt_ts pt)) (\<lambda>dt.
      bind_res (i_mul (pt_slope pt) (to_int128 dt)) (\<lambda>fall.
      bind_res (i_sub (pt_bias pt) fall) (\<lambda>bias.
      Inr (nat (positiveInt128 bias))))))"

definition adjustVeSupply :: "uint \<Rightarrow> uint \<Rightarrow> int128 \<Rightarrow> int128 \<Rightarrow> revert + uint" where
  "adjustVeSupply t ptTs ptBias ptSlope =
     (if t < ptTs then Inr 0
      else
        bind_res (i_mul ptSlope (to_int128 (t - ptTs))) (\<lambda>fall.
        if ptBias < fall then Inr 0
        else bind_res (i_sub ptBias fall) (\<lambda>bias. Inr (nat (positiveInt128 bias)))))"

fun supply_loop :: "escrow \<Rightarrow> uint \<Rightarrow> nat \<Rightarrow> uint \<Rightarrow> (uint \<Rightarrow> uint) \<Rightarrow> revert + uint \<times> (uint \<Rightarrow> uint)" where
  "supply_loop v roundedTimestamp 0 t veSupply = Inr (t, veSupply)"
| "supply_loop v roundedTimestamp (Suc n) t veSupply =
     (if roundedTimestamp < t then Inr (t, veSupply)
      else
        let pt = ve_pointHistory v (findTimestampEpoch v t) in
        bind_res (adjustVeSupply t (pt_ts pt) (pt_bias pt) (pt_slope pt)) (\<lambda>supply.
        bind_res (slot t) (\<lambda>_.
        bind_res (u_add t WEEK) (\<lambda>t'.
        supply_loop v roundedTimestamp n t' (veSupply(t := supply))))))"

definition checkpointTotalSupply :: "'t ve_env \<Rightarrow> 't ds_state \<Rightarrow> revert + 't ds_state" where
  "checkpointTotalSupply E = (\<lambda>(d, v, t).
     bind_res (ve_checkpoint E v) (\<lambda>v'.
     bind_res (supply_loop v' (week_of (vn_now E)) 20 (ds_timeCursor d) (ds_veSupply d)) (\<lambda>(cursor, veSupply).
     Inr (d\<lparr>ds_veSupply := veSupply, ds_timeCursor := cursor\<rparr>, v', t))))"

definition ds_checkpoint :: "'t ve_env \<Rightarrow> 't ds_state \<Rightarrow> revert + 't ds_state" where
  "ds_checkpoint E = (\<lambda>(d, v, t).
     bind_res (u_add (ds_activePeriod d) WEEK) (\<lambda>due.
     if due \<le> vn_now E then
       bind_res (checkpointToken E (reward_balance E d t) (d\<lparr>ds_activePeriod := week_of (vn_now E)\<rparr>)) (\<lambda>d1.
       checkpointTotalSupply E (d1, v, t))
     else Inr (d, v, t)))"

section \<open>Claims\<close>

record claim_result =
  cl_toDistribute :: uint
  cl_userEpoch :: uint
  cl_weekCursor :: uint
  cl_maxUserEpoch :: uint
  cl_success :: bool

text \<open>The loop over the points and weeks of an NFT, \<open>n\<close> iterations of which are left.\<close>

fun claim_loop ::
    "distributor \<Rightarrow> (uint \<Rightarrow> point) \<Rightarrow> uint \<Rightarrow> uint \<Rightarrow> nat \<Rightarrow> uint \<Rightarrow> point \<Rightarrow> point \<Rightarrow> uint \<Rightarrow> uint \<Rightarrow> revert + uint \<times> uint \<times> uint" where
  "claim_loop d history lastTokenTime maxUserEpoch 0 weekCursor oldUserPoint userPoint userEpoch toDistribute = Inr (toDistribute, userEpoch, weekCursor)"
| "claim_loop d history lastTokenTime maxUserEpoch (Suc n) weekCursor oldUserPoint userPoint userEpoch toDistribute =
     (if lastTokenTime \<le> weekCursor then Inr (toDistribute, userEpoch, weekCursor)
      else if pt_ts userPoint \<le> weekCursor \<and> userEpoch \<le> maxUserEpoch then
        bind_res (u_add userEpoch 1) (\<lambda>userEpoch.
        claim_loop d history lastTokenTime maxUserEpoch n weekCursor userPoint (if maxUserEpoch < userEpoch then no_point else history userEpoch)
          userEpoch toDistribute)
      else
        bind_res (u_sub weekCursor (pt_ts oldUserPoint)) (\<lambda>dt.
        bind_res (i_mul (to_int128 dt) (pt_slope oldUserPoint)) (\<lambda>fall.
        bind_res (i_sub (pt_bias oldUserPoint) fall) (\<lambda>bias.
        let balanceOf = nat (positiveInt128 bias) in
        if balanceOf = 0 \<and> maxUserEpoch < userEpoch then Inr (toDistribute, userEpoch, weekCursor)
        else
          bind_res (slot weekCursor) (\<lambda>_.
          bind_res (u_mul balanceOf (ds_tokensPerWeek d weekCursor)) (\<lambda>x.
          bind_res (u_div x (ds_veSupply d weekCursor)) (\<lambda>share.
          bind_res (u_add toDistribute share) (\<lambda>toDistribute.
          bind_res (u_add weekCursor WEEK) (\<lambda>weekCursor.
          claim_loop d history lastTokenTime maxUserEpoch n weekCursor oldUserPoint userPoint userEpoch toDistribute)))))))))"

definition calculateToDistribute :: "distributor \<Rightarrow> escrow \<Rightarrow> uint \<Rightarrow> uint \<Rightarrow> uint \<Rightarrow> point \<Rightarrow> uint \<Rightarrow> uint \<Rightarrow> revert + claim_result" where
  "calculateToDistribute d v i weekCursor lastTokenTime userPoint userEpoch maxUserEpoch =
     bind_res (claim_loop d (ve_userPointHistory v i) lastTokenTime maxUserEpoch 50 weekCursor no_point userPoint userEpoch 0)
       (\<lambda>(toDistribute, userEpoch, weekCursor).
     bind_res (u_sub userEpoch 1) (\<lambda>previous.
     Inr \<lparr>cl_toDistribute = toDistribute, cl_userEpoch = min maxUserEpoch previous, cl_weekCursor = weekCursor,
          cl_maxUserEpoch = maxUserEpoch, cl_success = True\<rparr>))"

definition no_claim :: claim_result where
  "no_claim = \<lparr>cl_toDistribute = 0, cl_userEpoch = 0, cl_weekCursor = 0, cl_maxUserEpoch = 0, cl_success = False\<rparr>"

text \<open>Where a claim starts: the epoch of the user and the week.\<close>

definition claim_epoch :: "distributor \<Rightarrow> escrow \<Rightarrow> uint \<Rightarrow> uint" where
  "claim_epoch d v i =
     (let userEpoch = (if ds_timeCursorOf d i = 0 then findTimestampUserEpoch v i (ds_startTime d) (ve_userPointEpoch v i) else ds_userEpochOf d i)
      in if userEpoch = 0 then 1 else userEpoch)"

definition calculateClaim :: "distributor \<Rightarrow> escrow \<Rightarrow> uint \<Rightarrow> uint \<Rightarrow> revert + claim_result" where
  "calculateClaim d v i lastTokenTime =
     (let maxUserEpoch = ve_userPointEpoch v i in
      if maxUserEpoch = 0 then Inr no_claim
      else
        let userEpoch = claim_epoch d v i;
            userPoint = ve_userPointHistory v i userEpoch in
        bind_res
          (if ds_timeCursorOf d i = 0 then
             bind_res (u_add (pt_ts userPoint) WEEK) (\<lambda>x. bind_res (u_sub x 1) (\<lambda>y. Inr (week_of y)))
           else Inr (ds_timeCursorOf d i)) (\<lambda>weekCursor.
        if ds_lastTokenTime d \<le> weekCursor then Inr no_claim
        else
          calculateToDistribute d v i (if weekCursor < ds_startTime d then ds_startTime d else weekCursor) lastTokenTime userPoint userEpoch maxUserEpoch))"

definition claimable :: "distributor \<Rightarrow> escrow \<Rightarrow> uint \<Rightarrow> revert + uint" where
  "claimable d v i = bind_res (calculateClaim d v i (week_of (ds_lastTokenTime d))) (\<lambda>r. Inr (cl_toDistribute r))"

definition claim_internal :: "uint \<Rightarrow> escrow \<Rightarrow> uint \<Rightarrow> distributor \<Rightarrow> revert + uint \<times> distributor" where
  "claim_internal i v lastTokenTime d =
     bind_res (calculateClaim d v i lastTokenTime) (\<lambda>r.
     Inr (cl_toDistribute r,
       if cl_success r
       then d\<lparr>ds_userEpochOf := (ds_userEpochOf d)(i := cl_userEpoch r), ds_timeCursorOf := (ds_timeCursorOf d)(i := cl_weekCursor r)\<rparr>
       else d))"

text \<open>The checkpoint of the supply that is due before a claim, and the payment of a claim.\<close>

definition supply_first :: "'t ve_env \<Rightarrow> 't ds_state \<Rightarrow> revert + 't ds_state" where
  "supply_first E = (\<lambda>(d, v, t). if ds_timeCursor d \<le> vn_now E then checkpointTotalSupply E (d, v, t) else Inr (d, v, t))"

definition pay_claim :: "'t ve_env \<Rightarrow> distributor \<Rightarrow> escrow \<Rightarrow> uint \<Rightarrow> uint \<Rightarrow> 't \<Rightarrow> revert + 't" where
  "pay_claim E d v i amount t = sk_safeTransfer (vn_stk E) t (ds_rewardToken d) (ds_self d) (ve_idToOwner v i) amount"

definition ds_claim :: "'t ve_env \<Rightarrow> uint \<Rightarrow> 't ds_state \<Rightarrow> revert + uint \<times> 't ds_state" where
  "ds_claim E i s =
     bind_res (supply_first E s) (\<lambda>(d, v, t).
     bind_res (claim_internal i v (week_of (ds_lastTokenTime d)) d) (\<lambda>(amount, d1).
     if amount \<noteq> 0 then
       bind_res (pay_claim E d1 v i amount t) (\<lambda>t'.
       bind_res (u_sub (ds_tokenLastBalance d1) amount) (\<lambda>b.
       Inr (amount, d1\<lparr>ds_tokenLastBalance := b\<rparr>, v, t')))
     else Inr (amount, d1, v, t)))"

fun claim_each :: "'t ve_env \<Rightarrow> uint \<Rightarrow> escrow \<Rightarrow> uint list \<Rightarrow> uint \<Rightarrow> distributor \<Rightarrow> 't \<Rightarrow> revert + uint \<times> distributor \<times> 't" where
  "claim_each E lastTokenTime v [] paid d t = Inr (paid, d, t)"
| "claim_each E lastTokenTime v (i # ids) paid d t =
     (if i = 0 then Inr (paid, d, t)
      else
        bind_res (claim_internal i v lastTokenTime d) (\<lambda>(amount, d1).
        if amount \<noteq> 0 then
          bind_res (pay_claim E d1 v i amount t) (\<lambda>t'.
          bind_res (u_add paid amount) (\<lambda>paid'.
          claim_each E lastTokenTime v ids paid' d1 t'))
        else claim_each E lastTokenTime v ids paid d1 t))"

definition claimMany :: "'t ve_env \<Rightarrow> uint list \<Rightarrow> 't ds_state \<Rightarrow> revert + 't ds_state" where
  "claimMany E ids s =
     bind_res (supply_first E s) (\<lambda>(d, v, t).
     bind_res (claim_each E (week_of (ds_lastTokenTime d)) v ids 0 d t) (\<lambda>(paid, d1, t1).
     if paid \<noteq> 0 then bind_res (u_sub (ds_tokenLastBalance d1) paid) (\<lambda>b. Inr (d1\<lparr>ds_tokenLastBalance := b\<rparr>, v, t1))
     else Inr (d1, v, t1)))"

section \<open>What a checkpoint spreads\<close>

definition week_total :: "nat \<Rightarrow> uint \<Rightarrow> (uint \<Rightarrow> uint) \<Rightarrow> uint" where
  "week_total n w tokensPerWeek = (\<Sum>k<n. tokensPerWeek (w + k * WEEK))"

lemma week_total_Suc: "week_total (Suc n) w f = f w + week_total n (w + WEEK) f"
  by (simp add: week_total_def sum.lessThan_Suc_shift add.assoc del: sum.lessThan_Suc)

lemma add_to_week_Inr:
  assumes "add_to_week w n f = Inr f'"
  shows "f' = f(w := f w + n)"
  using assms by (auto simp: add_to_week_def bind_res_eq_Inr checked_Inr)

lemma week_total_later: "w < w' \<Longrightarrow> week_total n w' (f(w := m)) = week_total n w' f"
  unfolding week_total_def by (rule sum.cong) auto

text \<open>The loop changes no week before the one it starts with, and two rounded parts make up the whole but for one.\<close>

lemma spread_keeps_past:
  assumes "spread_weeks now D since n t w f = Inr f'" and "w' < w"
  shows "f' w' = f w'"
  using assms
proof (induction n arbitrary: t w f)
  case (Suc n)
  then show ?case by (auto simp: bind_res_eq_Inr checked_Inr split: if_splits dest!: add_to_week_Inr)
qed simp

lemma div_parts: "a div s + b div s \<le> (a + b) div s" "(a + b) div s \<le> Suc (a div s + b div s)" for a b s :: nat
proof -
  have "(a + b) div s = a div s + b div s + (a mod s + b mod s) div s" by (rule div_add1_eq)
  moreover have "(a mod s + b mod s) div s \<le> 1" by (cases "s = 0") (simp_all add: div_less_iff_less_mult less_Suc_eq_le [symmetric] add_strict_mono mult_2)
  ultimately show "a div s + b div s \<le> (a + b) div s" "(a + b) div s \<le> Suc (a div s + b div s)" by simp_all
qed

lemma spread_weeks_total:
  assumes "spread_weeks now D since n t w f = Inr f'" and "0 < since" and "WEEK dvd w" and "w \<le> t" and "t < w + WEEK"
    and "t < now \<or> t = now \<and> WEEK dvd now" and "now < w + n * WEEK"
  shows "week_total n w f' \<le> week_total n w f + D * (now - t) div since + (if WEEK dvd now then D else 0)"
    and "week_total n w f + D * (now - t) div since + (if WEEK dvd now then D else 0) \<le> week_total n w f' + n"
proof -
  have "week_total n w f' \<le> week_total n w f + D * (now - t) div since + (if WEEK dvd now then D else 0)
    \<and> week_total n w f + D * (now - t) div since + (if WEEK dvd now then D else 0) \<le> week_total n w f' + n"
    using assms
  proof (induction n arbitrary: t w f)
    case 0
    then show ?case by simp
  next
    case (Suc n)
    show ?case
    proof (cases "now < w + WEEK")
      case True
      then obtain x where x: "adjustToDistribute D now t since = Inr x" "add_to_week w x f = Inr f'"
        using Suc.prems(1) by (auto simp: bind_res_eq_Inr checked_Inr)
      have f': "f' = f(w := f w + x)" by (rule add_to_week_Inr [OF x(2)])
      have same: "week_total n (w + WEEK) f' = week_total n (w + WEEK) f" unfolding f' by (rule week_total_later) (simp add: WEEK_def)
      have "x = D * (now - t) div since + (if WEEK dvd now then D else 0)"
      proof (cases "t < now")
        case True
        have "\<not> WEEK dvd now" using next_week [OF Suc.prems(3,4) True] \<open>now < w + WEEK\<close> by auto
        then show ?thesis using x(1) True Suc.prems(2) by (auto simp: adjustToDistribute_def bind_res_eq_Inr checked_Inr)
      next
        case False
        then show ?thesis using x(1) Suc.prems(6) by (auto simp: adjustToDistribute_def)
      qed
      then show ?thesis unfolding week_total_Suc same by (simp add: f')
    next
      case False
      then obtain x f1 where x: "adjustToDistribute D (w + WEEK) t since = Inr x" "add_to_week w x f = Inr f1"
          and r: "spread_weeks now D since n (w + WEEK) (w + WEEK) f1 = Inr f'"
        using Suc.prems(1) by (auto simp: bind_res_eq_Inr checked_Inr)
      have f1: "f1 = f(w := f w + x)" by (rule add_to_week_Inr [OF x(2)])
      have same: "week_total n (w + WEEK) f1 = week_total n (w + WEEK) f" unfolding f1 by (rule week_total_later) (simp add: WEEK_def)
      have past: "f' w = f w + x" using spread_keeps_past [OF r, of w] by (simp add: WEEK_def f1)
      have xv: "x = D * (w + WEEK - t) div since" using x(1) Suc.prems(2,5) by (auto simp: adjustToDistribute_def bind_res_eq_Inr checked_Inr)
      have e: "w + WEEK < now \<or> w + WEEK = now \<and> WEEK dvd now" using False Suc.prems(3) by auto
      have ih: "week_total n (w + WEEK) f' \<le> week_total n (w + WEEK) f1 + D * (now - (w + WEEK)) div since + (if WEEK dvd now then D else 0)
          \<and> week_total n (w + WEEK) f1 + D * (now - (w + WEEK)) div since + (if WEEK dvd now then D else 0) \<le> week_total n (w + WEEK) f' + n"
        by (rule Suc.IH [OF r Suc.prems(2)]) (use Suc.prems(3,7) e in \<open>auto simp: WEEK_def\<close>)
      have "D * (now - t) = D * (w + WEEK - t) + D * (now - (w + WEEK))" 
      proof -
        have "now - t = (w + WEEK - t) + (now - (w + WEEK))" using e Suc.prems(5) by auto
        then show ?thesis by (simp only: add_mult_distrib2)
      qed
      then have "x + D * (now - (w + WEEK)) div since \<le> D * (now - t) div since" "D * (now - t) div since \<le> Suc (x + D * (now - (w + WEEK)) div since)"
        using div_parts [where a = "D * (w + WEEK - t)" and b = "D * (now - (w + WEEK))" and s = since] by (simp_all add: xv)
      then show ?thesis using ih unfolding week_total_Suc past same by linarith
    qed
  qed
  then show "week_total n w f' \<le> week_total n w f + D * (now - t) div since + (if WEEK dvd now then D else 0)"
    and "week_total n w f + D * (now - t) div since + (if WEEK dvd now then D else 0) \<le> week_total n w f' + n" by simp_all
qed

lemma checkpointToken_steps:
  assumes "checkpointToken E b d = Inr d'"
  obtains f where "ds_tokenLastBalance d \<le> b" and "ds_lastTokenTime d \<le> vn_now E"
    and "spread_weeks (vn_now E) (b - ds_tokenLastBalance d) (vn_now E - ds_lastTokenTime d) 20 (ds_lastTokenTime d) (week_of (ds_lastTokenTime d)) (ds_tokensPerWeek d) = Inr f"
    and "d' = d\<lparr>ds_tokenLastBalance := b, ds_lastTokenTime := vn_now E, ds_tokensPerWeek := f\<rparr>"
  using assms by (auto simp: checkpointToken_def Let_def bind_res_eq_Inr checked_Inr intro: that)

lemma checkpointTotalSupply_frame:
  assumes "checkpointTotalSupply E (d, v, t) = Inr (d', v', t')"
  shows "\<exists>cursor veSupply. d' = d\<lparr>ds_veSupply := veSupply, ds_timeCursor := cursor\<rparr>" and "ve_checkpoint E v = Inr v'" and "t' = t"
  using assms by (auto simp: checkpointTotalSupply_def bind_res_eq_Inr)

lemma week_of_bounds: "week_of t \<le> t" "t < week_of t + WEEK" "WEEK dvd week_of t"
  using now_in_this_week by (simp_all add: week_of_def)

lemma spread_at_once:
  assumes "spread_weeks now D 0 (Suc n) now (week_of now) f = Inr f'"
  shows "week_total (Suc n) (week_of now) f' = week_total (Suc n) (week_of now) f + D"
proof -
  have "add_to_week (week_of now) D f = Inr f'" using assms week_of_bounds(2) [of now] by (auto simp: bind_res_eq_Inr checked_Inr adjustToDistribute_def)
  then have f': "f' = f(week_of now := f (week_of now) + D)" by (rule add_to_week_Inr)
  have "week_total n (week_of now + WEEK) f' = week_total n (week_of now + WEEK) f" unfolding f' by (rule week_total_later) (simp add: WEEK_def)
  then show ?thesis unfolding week_total_Suc by (simp add: f')
qed

text \<open>
  C18. Rewards of the weeks. A checkpoint spreads what has come in since the last one over the weeks in between: the tokens
  of these weeks grow together by as much, less at most one unit for each of the twenty weeks the loop looks at. A checkpoint in the
  first second of a week spreads it twice, since the part of a week that has just begun counts as the whole amount.
\<close>

theorem checkpoint_spreads_rewards:
  assumes "ds_checkpoint E (d, v, t) = Inr (d', v', t')" and "ds_activePeriod d + WEEK \<le> vn_now E" and "vn_now E < week_of (ds_lastTokenTime d) + 20 * WEEK"
    and "incoming = reward_balance E d t - ds_tokenLastBalance d"
    and "factor = (if WEEK dvd vn_now E \<and> ds_lastTokenTime d < vn_now E then 2 else 1)"
  shows "week_total 20 (week_of (ds_lastTokenTime d)) (ds_tokensPerWeek d') \<le> week_total 20 (week_of (ds_lastTokenTime d)) (ds_tokensPerWeek d) + factor * incoming
    \<and> week_total 20 (week_of (ds_lastTokenTime d)) (ds_tokensPerWeek d) + factor * incoming \<le> week_total 20 (week_of (ds_lastTokenTime d)) (ds_tokensPerWeek d') + 20"
proof -
  let ?w = "week_of (ds_lastTokenTime d)"
  obtain d1 where d1: "checkpointToken E (reward_balance E d t) (d\<lparr>ds_activePeriod := week_of (vn_now E)\<rparr>) = Inr d1" "checkpointTotalSupply E (d1, v, t) = Inr (d', v', t')"
    using assms(1,2) by (auto simp: ds_checkpoint_def bind_res_eq_Inr checked_Inr split: if_splits)
  have tpw: "ds_tokensPerWeek d' = ds_tokensPerWeek d1" using checkpointTotalSupply_frame(1) [OF d1(2)] by auto
  from d1(1) obtain f where b: "ds_lastTokenTime d \<le> vn_now E"
      and f: "spread_weeks (vn_now E) incoming (vn_now E - ds_lastTokenTime d) 20 (ds_lastTokenTime d) ?w (ds_tokensPerWeek d) = Inr f" "ds_tokensPerWeek d1 = f"
    unfolding assms(4) by (rule checkpointToken_steps) simp_all
  show ?thesis
  proof (cases "ds_lastTokenTime d < vn_now E")
    case True
    note s = spread_weeks_total [OF f(1) _ week_of_bounds(3,1,2)]
    have "incoming * (vn_now E - ds_lastTokenTime d) div (vn_now E - ds_lastTokenTime d) = incoming" using True by simp
    then show ?thesis using s True assms(3) by (auto simp: tpw f(2) assms(5))
  next
    case False
    then have "vn_now E = ds_lastTokenTime d" using b by simp
    then show ?thesis using spread_at_once [of "vn_now E" incoming 19 "ds_tokensPerWeek d" f] f False by (simp add: tpw f(2) assms(5))
  qed
qed

section \<open>What a claim pays\<close>

text \<open>The power of an NFT in a week, by the last of its points that is not later, and its share of the tokens of the week.\<close>

definition power_at :: "(uint \<Rightarrow> point) \<Rightarrow> uint \<Rightarrow> uint \<Rightarrow> uint" where
  "power_at history maxEpoch w =
     (case filter (\<lambda>e. pt_ts (history e) \<le> w) [1..<Suc maxEpoch] of
        [] \<Rightarrow> 0
      | e # es \<Rightarrow> let p = history (last (e # es)) in nat (pt_bias p - pt_slope p * int (w - pt_ts p)))"

definition week_share :: "distributor \<Rightarrow> (uint \<Rightarrow> point) \<Rightarrow> uint \<Rightarrow> uint \<Rightarrow> uint" where
  "week_share d history maxEpoch w = power_at history maxEpoch w * ds_tokensPerWeek d w div ds_veSupply d w"

definition points_ordered :: "(uint \<Rightarrow> point) \<Rightarrow> uint \<Rightarrow> bool" where
  "points_ordered history maxEpoch \<longleftrightarrow> (\<forall>e e'. 1 \<le> e \<longrightarrow> e \<le> e' \<longrightarrow> e' \<le> maxEpoch \<longrightarrow> pt_ts (history e) \<le> pt_ts (history e'))"

lemma last_point_at:
  assumes "points_ordered h M" and "1 \<le> e" and "e \<le> M" and "pt_ts (h e) \<le> w" and "e = M \<or> w < pt_ts (h (Suc e))"
  shows "power_at h M w = nat (pt_bias (h e) - pt_slope (h e) * int (w - pt_ts (h e)))"
proof -
  have early: "pt_ts (h j) \<le> w" if "1 \<le> j" "j \<le> e" for j
    using assms(1,3,4) that unfolding points_ordered_def by (meson order_trans)
  have late: "\<not> pt_ts (h j) \<le> w" if "e < j" "j \<le> M" for j
  proof -
    have "pt_ts (h (Suc e)) \<le> pt_ts (h j)" using assms(1) that unfolding points_ordered_def by auto
    then show ?thesis using assms(5) that by auto
  qed
  have "[1..<Suc M] = [1..<Suc e] @ [Suc e..<Suc M]" using assms(2,3) upt_add_eq_append [of 1 "Suc e" "M - e"] by simp
  moreover have "filter (\<lambda>j. pt_ts (h j) \<le> w) [1..<Suc e] = [1..<Suc e]" by (rule filter_True) (use early in auto)
  moreover have "filter (\<lambda>j. pt_ts (h j) \<le> w) [Suc e..<Suc M] = []" by (rule filter_False) (use late in auto)
  ultimately have "filter (\<lambda>j. pt_ts (h j) \<le> w) [1..<Suc M] = [1..<Suc e]" by simp
  moreover obtain a as where a: "[1..<Suc e] = a # as" using assms(2) by (cases "[1..<Suc e]") auto
  moreover have "last (a # as) = e" using assms(2) by (simp only: a [symmetric]) simp
  ultimately show ?thesis unfolding power_at_def by (simp add: Let_def)
qed

lemma claim_loop_pays:
  assumes "claim_loop d h L M n c (h (e - 1)) (if M < e then no_point else h e) e acc = Inr (paid, e', c')"
    and "points_ordered h M" and "2 \<le> e" and "e \<le> Suc M" and "pt_ts (h (e - 1)) \<le> c"
  shows "\<exists>m. c' = c + m * WEEK \<and> paid = acc + (\<Sum>k<m. week_share d h M (c + k * WEEK)) \<and> 2 \<le> e' \<and> e' \<le> Suc M \<and> pt_ts (h (e' - 1)) \<le> c'"
  using assms
proof (induction n arbitrary: c e acc)
  case 0
  then show ?case by (intro exI [of _ 0]) auto
next
  case (Suc n)
  let ?up = "if M < e then no_point else h e"
  consider (stop) "L \<le> c" | (point) "\<not> L \<le> c" "pt_ts ?up \<le> c" "e \<le> M" | (week) "\<not> L \<le> c" "\<not> (pt_ts ?up \<le> c \<and> e \<le> M)" by blast
  then show ?case
  proof cases
    case stop
    then show ?thesis using Suc.prems by (intro exI [of _ 0]) auto
  next
    case point
    then have "claim_loop d h L M n c (h (Suc e - 1)) (if M < Suc e then no_point else h (Suc e)) (Suc e) acc = Inr (paid, e', c')"
      using Suc.prems(1) by (simp add: bind_res_eq_Inr checked_Inr)
    from Suc.IH [OF this Suc.prems(2)] show ?thesis using point Suc.prems(3) by simp
  next
    case week
    let ?p = "h (e - 1)"
    obtain dt fall bias where dt: "dt = c - pt_ts ?p" "i_mul (to_int128 dt) (pt_slope ?p) = Inr fall" "i_sub (pt_bias ?p) fall = Inr bias"
        and r: "(if nat (positiveInt128 bias) = 0 \<and> M < e then Inr (acc, e, c)
          else bind_res (slot c) (\<lambda>_. bind_res (u_mul (nat (positiveInt128 bias)) (ds_tokensPerWeek d c)) (\<lambda>x.
            bind_res (u_div x (ds_veSupply d c)) (\<lambda>share. bind_res (u_add acc share) (\<lambda>acc. bind_res (u_add c WEEK) (\<lambda>c.
            claim_loop d h L M n c ?p ?up e acc)))))) = Inr (paid, e', c')"
      using Suc.prems(1) week unfolding claim_loop.simps Let_def by (simp only: if_False) (auto simp: bind_res_eq_Inr checked_Inr split del: if_split)
    show ?thesis
    proof (cases "nat (positiveInt128 bias) = 0 \<and> M < e")
      case True
      then show ?thesis using r Suc.prems by (intro exI [of _ 0]) auto
    next
      case False
      then have c: "c < WEEKS_SIZE" and l: "claim_loop d h L M n (c + WEEK) ?p ?up e (acc + nat (positiveInt128 bias) * ds_tokensPerWeek d c div ds_veSupply d c) = Inr (paid, e', c')"
        using r by (auto simp: bind_res_eq_Inr checked_Inr slot_def split: if_splits)
      have "dt < 2 ^ 60" using c dt(1) by (simp add: WEEKS_SIZE_def)
      then have bias: "bias = pt_bias ?p - pt_slope ?p * int (c - pt_ts ?p)" using dt by (simp add: int128_Inr to_int128_small)
      have "e - 1 = M \<or> c < pt_ts (h (Suc (e - 1)))" using Suc.prems(3,4) week(2) by (cases "M < e") auto
      then have "power_at h M c = nat (pt_bias ?p - pt_slope ?p * int (c - pt_ts ?p))"
        by (intro last_point_at [OF Suc.prems(2)]) (use Suc.prems(3-5) in auto)
      then have share: "nat (positiveInt128 bias) * ds_tokensPerWeek d c div ds_veSupply d c = week_share d h M c"
        by (simp add: week_share_def bias positiveInt128_def)
      from Suc.IH [OF l Suc.prems(2-4)] Suc.prems(5) obtain m where m: "c' = c + WEEK + m * WEEK"
          "paid = acc + week_share d h M c + (\<Sum>k<m. week_share d h M (c + WEEK + k * WEEK))" "2 \<le> e'" "e' \<le> Suc M" "pt_ts (h (e' - 1)) \<le> c'"
        by (auto simp: share)
      have "(\<Sum>k<Suc m. week_share d h M (c + k * WEEK)) = week_share d h M c + (\<Sum>k<m. week_share d h M (c + WEEK + k * WEEK))"
        by (simp add: sum.lessThan_Suc_shift add.assoc del: sum.lessThan_Suc)
      then show ?thesis using m by (intro exI [of _ "Suc m"]) simp
    qed
  qed
qed

text \<open>Where the cursor of an NFT is, it is consistent with its points.\<close>

definition cursor_ok :: "distributor \<Rightarrow> escrow \<Rightarrow> uint \<Rightarrow> bool" where
  "cursor_ok d v i \<longleftrightarrow> ds_timeCursorOf d i = 0
     \<or> 1 \<le> ve_userPointEpoch v i \<and> ds_userEpochOf d i \<le> ve_userPointEpoch v i
       \<and> pt_ts (ve_userPointHistory v i (max 1 (ds_userEpochOf d i))) \<le> ds_timeCursorOf d i"

text \<open>The first week that a claim may pay.\<close>

definition claim_start :: "distributor \<Rightarrow> escrow \<Rightarrow> uint \<Rightarrow> uint" where
  "claim_start d v i = max (ds_startTime d)
     (if ds_timeCursorOf d i = 0 then week_of (pt_ts (ve_userPointHistory v i (claim_epoch d v i)) + WEEK - 1) else ds_timeCursorOf d i)"

lemma find_ts_le: "lo \<le> hi \<Longrightarrow> find_ts h t n lo hi \<le> hi"
proof (induction n arbitrary: lo hi)
  case (Suc n)
  have "lo \<le> (lo + hi) div 2" "(lo + hi) div 2 \<le> hi" "lo < hi \<Longrightarrow> Suc ((lo + hi) div 2) \<le> hi" using Suc.prems by auto
  then show ?case
    using Suc.IH [of "Suc ((lo + hi) div 2)" hi] Suc.IH [of lo "(lo + hi) div 2"] by (auto simp: Let_def intro: order_trans)
qed simp

lemma week_after: "t \<le> week_of (t + WEEK - 1)"
  using week_of_bounds(2) [of "t + WEEK - 1"] by (simp add: WEEK_def)

lemma claim_start_ok:
  assumes "cursor_ok d v i" and "ve_userPointEpoch v i \<noteq> 0"
  shows "1 \<le> claim_epoch d v i" and "claim_epoch d v i \<le> ve_userPointEpoch v i"
    and "pt_ts (ve_userPointHistory v i (claim_epoch d v i)) \<le> claim_start d v i" and "ds_timeCursorOf d i \<le> claim_start d v i"
proof -
  show "1 \<le> claim_epoch d v i" by (simp add: claim_epoch_def Let_def)
  show "claim_epoch d v i \<le> ve_userPointEpoch v i"
    using assms find_ts_le [of 0 "ve_userPointEpoch v i"] by (auto simp: claim_epoch_def cursor_ok_def findTimestampUserEpoch_def Let_def)
  show "ds_timeCursorOf d i \<le> claim_start d v i" by (simp add: claim_start_def)
  show "pt_ts (ve_userPointHistory v i (claim_epoch d v i)) \<le> claim_start d v i"
  proof (cases "ds_timeCursorOf d i = 0")
    case True
    then show ?thesis using week_after [of "pt_ts (ve_userPointHistory v i (claim_epoch d v i))"] by (auto simp: claim_start_def intro: order_trans)
  next
    case False
    have "claim_epoch d v i = max 1 (ds_userEpochOf d i)" using False by (simp add: claim_epoch_def Let_def max_def)
    then show ?thesis using False assms(1) by (auto simp: claim_start_def cursor_ok_def intro: order_trans)
  qed
qed

lemma calculateClaim_pays:
  assumes "calculateClaim d v i L = Inr r" and "points_ordered (ve_userPointHistory v i) (ve_userPointEpoch v i)" and "cursor_ok d v i"
  shows "\<exists>m. cl_toDistribute r = (\<Sum>k<m. week_share d (ve_userPointHistory v i) (ve_userPointEpoch v i) (claim_start d v i + k * WEEK))
      \<and> (if cl_success r then cl_weekCursor r = claim_start d v i + m * WEEK else m = 0)
      \<and> (cl_success r \<longrightarrow> 1 \<le> ve_userPointEpoch v i \<and> cl_userEpoch r \<le> ve_userPointEpoch v i
         \<and> pt_ts (ve_userPointHistory v i (max 1 (cl_userEpoch r))) \<le> cl_weekCursor r)"
proof -
  let ?h = "ve_userPointHistory v i" and ?M = "ve_userPointEpoch v i" and ?e = "claim_epoch d v i" and ?c = "claim_start d v i"
  consider (none) "r = no_claim" | (some) "?M \<noteq> 0" "calculateToDistribute d v i ?c L (?h ?e) ?e ?M = Inr r"
  proof (cases "?M = 0 \<or> r = no_claim")
    case True
    then show ?thesis using that(1) assms(1) by (auto simp: calculateClaim_def)
  next
    case False
    have m: "(if a < b then b else a) = max b a" for a b :: uint by simp
    from False show ?thesis using that(2) assms(1)
      by (auto simp: calculateClaim_def Let_def claim_start_def m bind_res_eq_Inr checked_Inr split: if_splits)
  qed
  then show ?thesis
  proof cases
    case none
    then show ?thesis by (intro exI [of _ 0]) (simp add: no_claim_def)
  next
    case some
    note o = claim_start_ok [OF assms(3) some(1)]
    obtain paid e' c' where l: "claim_loop d ?h L ?M 50 ?c no_point (?h ?e) ?e 0 = Inr (paid, e', c')"
        and r: "r = \<lparr>cl_toDistribute = paid, cl_userEpoch = min ?M (e' - 1), cl_weekCursor = c', cl_maxUserEpoch = ?M, cl_success = True\<rparr>"
      using some(2) by (auto simp: calculateToDistribute_def bind_res_eq_Inr checked_Inr)
    show ?thesis
    proof (cases "L \<le> ?c")
      case True
      then have "paid = 0" "e' = ?e" "c' = ?c" using l by (simp_all add: numeral_eq_Suc)
      moreover have "pt_ts (?h (max 1 (?e - 1))) \<le> pt_ts (?h ?e)"
        using assms(2) o(1,2) unfolding points_ordered_def by auto
      ultimately show ?thesis using o r by (intro exI [of _ 0]) (auto intro: order_trans)
    next
      case False
      then have "claim_loop d ?h L ?M 49 ?c (?h (Suc ?e - 1)) (if ?M < Suc ?e then no_point else ?h (Suc ?e)) (Suc ?e) 0 = Inr (paid, e', c')"
        using l o(2,3) by (simp add: numeral_eq_Suc bind_res_eq_Inr checked_Inr)
      from claim_loop_pays [OF this assms(2)] o obtain m where "c' = ?c + m * WEEK" "paid = (\<Sum>k<m. week_share d ?h ?M (?c + k * WEEK))"
          "2 \<le> e'" "e' \<le> Suc ?M" "pt_ts (?h (e' - 1)) \<le> c'"
        by auto
      then show ?thesis using r by (intro exI [of _ m]) (auto simp: max_def)
    qed
  qed
qed

section \<open>Runs of the escrow and the distributor\<close>

datatype ds_call = Ds_init address address address | Ds_checkpoint | Ds_checkpointTotalSupply | Ds_claim uint | Ds_claimMany "uint list"

fun ds_perform :: "'t ve_env \<Rightarrow> ds_call \<Rightarrow> 't ds_state \<Rightarrow> revert + 't ds_state" where
  "ds_perform E (Ds_init controller ve token) = (\<lambda>(d, s). bind_res (ds_init E controller ve token d) (\<lambda>d'. Inr (d', s)))"
| "ds_perform E Ds_checkpoint = ds_checkpoint E"
| "ds_perform E Ds_checkpointTotalSupply = checkpointTotalSupply E"
| "ds_perform E (Ds_claim i) = (\<lambda>s. map_sum id snd (ds_claim E i s))"
| "ds_perform E (Ds_claimMany ids) = claimMany E ids"

definition new_distributor :: "address \<Rightarrow> proxy \<Rightarrow> distributor" where
  "new_distributor self p =
     \<lparr>ds_self = self, ds_controllable = p, ds_ve = 0, ds_rewardToken = 0, ds_activePeriod = 0, ds_tokensPerWeek = (\<lambda>_. 0), ds_veSupply = (\<lambda>_. 0),
      ds_timeCursor = 0, ds_tokenLastBalance = 0, ds_lastTokenTime = 0, ds_startTime = 0, ds_timeCursorOf = (\<lambda>_. 0), ds_userEpochOf = (\<lambda>_. 0)\<rparr>"

text \<open>Calls to the two contracts in any order, at times that do not go back.\<close>

inductive ds_run :: "'t staking_tokens \<Rightarrow> 't ds_state \<Rightarrow> uint \<Rightarrow> 't ds_state \<Rightarrow> bool" for K s0 where
  start: "ds_run K s0 n s0"
| escrow_call: "ds_run K s0 n (d, v, t) \<Longrightarrow> n \<le> vn_now E \<Longrightarrow> vn_stk E = K \<Longrightarrow> vn_sender E \<noteq> 0 \<Longrightarrow> vn_sender E \<noteq> ve_self v \<Longrightarrow>
     ve_perform E c (v, t) = Inr (v', t') \<Longrightarrow> ds_run K s0 (vn_now E) (d, v', t')"
| distributor_call: "ds_run K s0 n s \<Longrightarrow> n \<le> vn_now E \<Longrightarrow> vn_stk E = K \<Longrightarrow> ds_perform E c s = Inr s' \<Longrightarrow> ds_run K s0 (vn_now E) s'"

definition points_in_time :: "uint \<Rightarrow> escrow \<Rightarrow> bool" where
  "points_in_time n v \<longleftrightarrow> minted_only v \<and> well_owned v \<and>
     (\<forall>i. points_ordered (ve_userPointHistory v i) (ve_userPointEpoch v i)
        \<and> (1 \<le> ve_userPointEpoch v i \<longrightarrow> pt_ts (ve_userPointHistory v i (ve_userPointEpoch v i)) \<le> n))"

definition cursors_ok :: "distributor \<Rightarrow> escrow \<Rightarrow> bool" where
  "cursors_ok d v \<longleftrightarrow> (\<forall>i. cursor_ok d v i)"

lemma points_in_time_later: "points_in_time n v \<Longrightarrow> n \<le> m \<Longrightarrow> points_in_time m v"
  by (auto simp: points_in_time_def intro: order_trans)

lemma growth_keeps_order:
  assumes "points_grow m v v'" and "points_in_time n v" and "n \<le> m"
  shows "points_ordered (ve_userPointHistory v' i) (ve_userPointEpoch v' i)"
    and "1 \<le> ve_userPointEpoch v' i \<Longrightarrow> pt_ts (ve_userPointHistory v' i (ve_userPointEpoch v' i)) \<le> m"
proof -
  have g: "ve_userPointEpoch v i \<le> ve_userPointEpoch v' i" "\<And>e. e \<le> ve_userPointEpoch v i \<Longrightarrow> ve_userPointHistory v' i e = ve_userPointHistory v i e"
      "\<And>e. ve_userPointEpoch v i < e \<Longrightarrow> e \<le> ve_userPointEpoch v' i \<Longrightarrow> pt_ts (ve_userPointHistory v' i e) = m"
    using assms(1) by (auto simp: points_grow_def)
  have o: "\<And>e e'. 1 \<le> e \<Longrightarrow> e \<le> e' \<Longrightarrow> e' \<le> ve_userPointEpoch v i \<Longrightarrow> pt_ts (ve_userPointHistory v i e) \<le> pt_ts (ve_userPointHistory v i e')"
      "1 \<le> ve_userPointEpoch v i \<Longrightarrow> pt_ts (ve_userPointHistory v i (ve_userPointEpoch v i)) \<le> n"
    using assms(2) by (auto simp: points_in_time_def points_ordered_def)
  have past: "pt_ts (ve_userPointHistory v' i e) \<le> m" if "1 \<le> e" "e \<le> ve_userPointEpoch v' i" for e
  proof (cases "e \<le> ve_userPointEpoch v i")
    case True
    then show ?thesis using g(2) [OF True] o(1) [OF that(1) True] o(2) that(1) assms(3) by simp
  next
    case False
    then show ?thesis using g(3) that(2) by simp
  qed
  then show "1 \<le> ve_userPointEpoch v' i \<Longrightarrow> pt_ts (ve_userPointHistory v' i (ve_userPointEpoch v' i)) \<le> m" by simp
  have "pt_ts (ve_userPointHistory v' i e) \<le> pt_ts (ve_userPointHistory v' i e')" if "1 \<le> e" "e \<le> e'" "e' \<le> ve_userPointEpoch v' i" for e e'
  proof (cases "e' \<le> ve_userPointEpoch v i")
    case True
    then show ?thesis using g(2) [of e] g(2) [OF True] o(1) [OF that(1,2)] that(2) by simp
  next
    case False
    then show ?thesis using g(3) [of e'] past [of e] that by simp
  qed
  then show "points_ordered (ve_userPointHistory v' i) (ve_userPointEpoch v' i)" by (simp add: points_ordered_def)
qed

lemma growth_keeps_cursors:
  assumes "points_grow m v v'" and "cursors_ok d v"
  shows "cursors_ok d v'"
  unfolding cursors_ok_def
proof
  fix i
  have g: "ve_userPointEpoch v i \<le> ve_userPointEpoch v' i" "\<And>e. e \<le> ve_userPointEpoch v i \<Longrightarrow> ve_userPointHistory v' i e = ve_userPointHistory v i e"
    using assms(1) by (auto simp: points_grow_def)
  have "cursor_ok d v i" using assms(2) by (simp add: cursors_ok_def)
  then show "cursor_ok d v' i" using g(1) g(2) [of "max 1 (ds_userEpochOf d i)"] by (auto simp: cursor_ok_def)
qed

lemma escrow_call_in_time:
  assumes "ve_perform E c (v, t) = Inr (v', t')" and "vn_stk E = K" and "vn_sender E \<noteq> 0" and "vn_sender E \<noteq> ve_self v"
    and "points_in_time n v" and "n \<le> vn_now E" and "cursors_ok d v"
  shows "points_in_time (vn_now E) v' \<and> cursors_ok d v'"
proof -
  have p: "minted_only v" "well_owned v" using assms(5) by (simp_all add: points_in_time_def)
  have g: "minted_only v' \<and> points_grow (vn_now E) v v'"
    using growth.perform [where K = K and E = E and c = c and v = v and t = t and v' = v' and t' = t' and ?v0.0 = v] assms(1-4) p points_grow_refl by simp
  have "well_owned v'" using perform_well_owned [OF assms(1) p(2) assms(3)] .
  then show ?thesis
    using g growth_keeps_order [OF conjunct2 [OF g] assms(5,6)] growth_keeps_cursors [OF conjunct2 [OF g] assms(7)] by (simp add: points_in_time_def)
qed

lemma supply_in_time:
  assumes "ve_checkpoint E v = Inr v'" and "points_in_time n v"
  shows "points_in_time n v'" and "cursors_ok d v' \<longleftrightarrow> cursors_ok d v"
  using assms minted_only_same(2) [OF _ assms(1)] tick_locks(5,6) [OF assms(1)] well_owned_same [OF _ checkpoint_nft [OF assms(1) [unfolded ve_checkpoint_def]]]
  by (simp_all add: points_in_time_def cursors_ok_def cursor_ok_def)

lemma claim_internal_pays:
  assumes "claim_internal i v L d = Inr (amount, d')" and "points_in_time n v" and "cursors_ok d v"
  shows "cursors_ok d' v \<and> (\<exists>m. amount = (\<Sum>k<m. week_share d (ve_userPointHistory v i) (ve_userPointEpoch v i) (claim_start d v i + k * WEEK))
      \<and> (0 < m \<longrightarrow> ds_timeCursorOf d' i = claim_start d v i + m * WEEK)) \<and> ds_timeCursorOf d i \<le> ds_timeCursorOf d' i
      \<and> (\<exists>f g. d' = d\<lparr>ds_userEpochOf := f, ds_timeCursorOf := g\<rparr>)"
proof -
  obtain r where r: "calculateClaim d v i L = Inr r" "amount = cl_toDistribute r"
      "d' = (if cl_success r then d\<lparr>ds_userEpochOf := (ds_userEpochOf d)(i := cl_userEpoch r), ds_timeCursorOf := (ds_timeCursorOf d)(i := cl_weekCursor r)\<rparr> else d)"
    using assms(1) by (auto simp: claim_internal_def bind_res_eq_Inr split: if_splits)
  have o: "points_ordered (ve_userPointHistory v i) (ve_userPointEpoch v i)" "cursor_ok d v i" using assms(2,3) by (simp_all add: points_in_time_def cursors_ok_def)
  from calculateClaim_pays [OF r(1) o] obtain m where m: "amount = (\<Sum>k<m. week_share d (ve_userPointHistory v i) (ve_userPointEpoch v i) (claim_start d v i + k * WEEK))"
      "if cl_success r then cl_weekCursor r = claim_start d v i + m * WEEK else m = 0"
      "cl_success r \<longrightarrow> 1 \<le> ve_userPointEpoch v i \<and> cl_userEpoch r \<le> ve_userPointEpoch v i \<and> pt_ts (ve_userPointHistory v i (max 1 (cl_userEpoch r))) \<le> cl_weekCursor r"
    unfolding r(2) by blast
  have s: "ds_timeCursorOf d i \<le> claim_start d v i" by (simp add: claim_start_def)
  have "cursors_ok d' v" using assms(3) m(3) by (auto simp: r(3) cursors_ok_def cursor_ok_def)
  moreover have "ds_timeCursorOf d i \<le> ds_timeCursorOf d' i" using s m(2) by (auto simp: r(3))
  moreover have "\<exists>f g. d' = d\<lparr>ds_userEpochOf := f, ds_timeCursorOf := g\<rparr>"
    by (rule exI [of _ "ds_userEpochOf d'"], rule exI [of _ "ds_timeCursorOf d'"]) (simp add: r(3))
  moreover have "0 < m \<longrightarrow> ds_timeCursorOf d' i = claim_start d v i + m * WEEK" using m(2) by (auto simp: r(3))
  ultimately show ?thesis using m(1) by blast
qed

text \<open>What the other operations leave of the cursors.\<close>

lemma supply_first_steps:
  assumes "supply_first E (d, v, t) = Inr (d', v', t')"
  shows "\<exists>cursor veSupply. d' = d\<lparr>ds_veSupply := veSupply, ds_timeCursor := cursor\<rparr>" and "v' = v \<or> ve_checkpoint E v = Inr v'" and "t' = t"
proof -
  have "(d', v', t') = (d, v, t) \<or> checkpointTotalSupply E (d, v, t) = Inr (d', v', t')" using assms by (auto simp: supply_first_def split: if_splits)
  then have "(\<exists>cursor veSupply. d' = d\<lparr>ds_veSupply := veSupply, ds_timeCursor := cursor\<rparr>) \<and> (v' = v \<or> ve_checkpoint E v = Inr v') \<and> t' = t"
  proof
    assume "(d', v', t') = (d, v, t)"
    moreover have "d = d\<lparr>ds_veSupply := ds_veSupply d, ds_timeCursor := ds_timeCursor d\<rparr>" by simp
    ultimately show ?thesis by blast
  next
    assume s: "checkpointTotalSupply E (d, v, t) = Inr (d', v', t')"
    show ?thesis using checkpointTotalSupply_frame [OF s] by blast
  qed
  then show "\<exists>cursor veSupply. d' = d\<lparr>ds_veSupply := veSupply, ds_timeCursor := cursor\<rparr>" and "v' = v \<or> ve_checkpoint E v = Inr v'" and "t' = t" by blast+
qed

lemma cursors_same:
  assumes "ds_timeCursorOf d' = ds_timeCursorOf d" and "ds_userEpochOf d' = ds_userEpochOf d"
  shows "cursors_ok d' v \<longleftrightarrow> cursors_ok d v"
  using assms by (simp add: cursors_ok_def cursor_ok_def)

lemma supply_keeps_cursors:
  assumes "checkpointTotalSupply E (d, v, t) = Inr (d', v', t')" and "points_in_time n v" and "cursors_ok d v"
  shows "points_in_time n v'" and "cursors_ok d' v'"
proof -
  note f = checkpointTotalSupply_frame [OF assms(1)]
  show "points_in_time n v'" by (rule supply_in_time(1) [OF f(2) assms(2)])
  obtain cursor veSupply where d': "d' = d\<lparr>ds_veSupply := veSupply, ds_timeCursor := cursor\<rparr>" using f(1) by blast
  have "cursors_ok d v'" using supply_in_time(2) [OF f(2) assms(2)] assms(3) by blast
  then show "cursors_ok d' v'" by (simp add: d' cursors_ok_def cursor_ok_def)
qed

lemma supply_first_in_time:
  assumes "supply_first E (d, v, t) = Inr (d', v', t')" and "points_in_time n v" and "cursors_ok d v"
  shows "points_in_time n v'" and "cursors_ok d' v'"
proof -
  note f = supply_first_steps [OF assms(1)]
  show "points_in_time n v'" using f(2) supply_in_time(1) assms(2) by blast
  have "cursors_ok d v'" using f(2) supply_in_time(2) assms(2,3) by blast
  moreover have "ds_timeCursorOf d' = ds_timeCursorOf d" "ds_userEpochOf d' = ds_userEpochOf d" using f(1) by auto
  ultimately show "cursors_ok d' v'" using cursors_same by blast
qed

lemma claim_each_cursors:
  assumes "claim_each E L v ids paid d t = Inr (paid', d', t')" and "points_in_time n v" and "cursors_ok d v"
  shows "cursors_ok d' v"
  using assms
proof (induction ids arbitrary: paid d t)
  case (Cons i ids)
  show ?case
  proof (cases "i = 0")
    case False
    with Cons.prems(1) obtain a d1 t1 p1 where c: "claim_internal i v L d = Inr (a, d1)" and r: "claim_each E L v ids p1 d1 t1 = Inr (paid', d', t')"
      by (auto simp: bind_res_eq_Inr split: if_splits)
    have "cursors_ok d1 v" using claim_internal_pays [OF c Cons.prems(2,3)] by blast
    from Cons.IH [OF r Cons.prems(2) this] show ?thesis .
  qed (use Cons.prems in simp)
qed simp

lemma ds_claim_steps:
  assumes "ds_claim E i (d, v, t) = Inr (amount, d', v', t')"
  obtains d1 d2 where "supply_first E (d, v, t) = Inr (d1, v', t)" and "claim_internal i v' (week_of (ds_lastTokenTime d1)) d1 = Inr (amount, d2)"
    and "\<exists>b. d' = d2\<lparr>ds_tokenLastBalance := b\<rparr>"
proof -
  obtain d1 v1 t1 where s: "supply_first E (d, v, t) = Inr (d1, v1, t1)" using assms by (auto simp: ds_claim_def bind_res_eq_Inr)
  obtain d2 where c: "claim_internal i v1 (week_of (ds_lastTokenTime d1)) d1 = Inr (amount, d2)" "v' = v1"
      "d' = d2 \<or> (\<exists>b. d' = d2\<lparr>ds_tokenLastBalance := b\<rparr>)"
    using assms s by (auto simp: ds_claim_def bind_res_eq_Inr split: if_splits)
  have "d2 = d2\<lparr>ds_tokenLastBalance := ds_tokenLastBalance d2\<rparr>" by simp
  then have "\<exists>b. d' = d2\<lparr>ds_tokenLastBalance := b\<rparr>" using c(3) by blast
  then show thesis using that s c(1,2) supply_first_steps(3) [OF s] by blast
qed

lemma ds_perform_in_time:
  assumes "ds_perform E c (d, v, t) = Inr (d', v', t')" and "points_in_time n v" and "cursors_ok d v"
  shows "points_in_time n v' \<and> cursors_ok d' v'"
proof (cases c)
  case (Ds_init a b token)
  then have i: "ds_init E a b token d = Inr d'" "v' = v" using assms(1) by (auto simp: bind_res_eq_Inr)
  have "ds_timeCursorOf d' = ds_timeCursorOf d" "ds_userEpochOf d' = ds_userEpochOf d" using i(1) by (auto simp: ds_init_def Let_def bind_res_eq_Inr)
  then show ?thesis using assms(2,3) cursors_same [of d' d v] by (simp add: i(2))
next
  case Ds_checkpointTotalSupply
  then show ?thesis using supply_keeps_cursors [of E d v t d' v' t'] assms by simp
next
  case Ds_checkpoint
  have "(d', v', t') = (d, v, t) \<or> (\<exists>d1. checkpointTotalSupply E (d1, v, t) = Inr (d', v', t') \<and> cursors_ok d1 v)"
  proof (cases "ds_activePeriod d + WEEK \<le> vn_now E")
    case True
    then obtain d1 where d1: "checkpointToken E (reward_balance E d t) (d\<lparr>ds_activePeriod := week_of (vn_now E)\<rparr>) = Inr d1" "checkpointTotalSupply E (d1, v, t) = Inr (d', v', t')"
      using assms(1) Ds_checkpoint by (auto simp: ds_checkpoint_def bind_res_eq_Inr checked_Inr split: if_splits)
    from d1(1) have "cursors_ok d1 v" by (rule checkpointToken_steps) (use assms(3) in \<open>simp add: cursors_ok_def cursor_ok_def\<close>)
    then show ?thesis using d1(2) by blast
  qed (use assms(1) Ds_checkpoint in \<open>auto simp: ds_checkpoint_def bind_res_eq_Inr checked_Inr\<close>)
  then show ?thesis
  proof
    assume "\<exists>d1. checkpointTotalSupply E (d1, v, t) = Inr (d', v', t') \<and> cursors_ok d1 v"
    then obtain d1 where s: "checkpointTotalSupply E (d1, v, t) = Inr (d', v', t')" "cursors_ok d1 v" by blast
    show ?thesis using supply_keeps_cursors [OF s(1) assms(2) s(2)] by simp
  qed (use assms in simp)
next
  case (Ds_claim i)
  then obtain amount where "ds_claim E i (d, v, t) = Inr (amount, d', v', t')" using assms(1) by (cases "ds_claim E i (d, v, t)") auto
  then show ?thesis
  proof (rule ds_claim_steps)
    fix d1 d2
    assume s: "supply_first E (d, v, t) = Inr (d1, v', t)" and c: "claim_internal i v' (week_of (ds_lastTokenTime d1)) d1 = Inr (amount, d2)"
      and d': "\<exists>b. d' = d2\<lparr>ds_tokenLastBalance := b\<rparr>"
    note p = supply_first_in_time [OF s assms(2,3)]
    have "cursors_ok d2 v'" using claim_internal_pays [OF c p] by blast
    then show ?thesis using p(1) d' cursors_same [of d' d2 v'] by auto
  qed
next
  case (Ds_claimMany ids)
  then have m: "claimMany E ids (d, v, t) = Inr (d', v', t')" using assms(1) by simp
  then obtain d1 v1 t1 where s: "supply_first E (d, v, t) = Inr (d1, v1, t1)" by (auto simp: claimMany_def bind_res_eq_Inr)
  then obtain paid d2 t2 where c: "claim_each E (week_of (ds_lastTokenTime d1)) v1 ids 0 d1 t1 = Inr (paid, d2, t2)" "v' = v1"
      "d' = d2 \<or> (\<exists>b. d' = d2\<lparr>ds_tokenLastBalance := b\<rparr>)"
    using m by (auto simp: claimMany_def bind_res_eq_Inr split: if_splits)
  note p = supply_first_in_time [OF s assms(2,3)]
  have "cursors_ok d2 v1" by (rule claim_each_cursors [OF c(1) p])
  then show ?thesis using p(1) c(2,3) cursors_same [of d' d2 v1] by auto
qed

lemma ds_run_in_time:
  assumes "ds_run K (new_distributor self p, new_escrow ve q, t0) n s"
  shows "points_in_time n (fst (snd s)) \<and> cursors_ok (fst s) (fst (snd s))"
  using assms
proof induction
  case (start n)
  show ?case
    by (simp add: points_in_time_def minted_only_def well_owned_def points_ordered_def new_escrow_def new_distributor_def cursors_ok_def cursor_ok_def)
next
  case (escrow_call n d v t E c v' t')
  then show ?case using escrow_call_in_time [OF escrow_call(6,3-5), of n d] by simp
next
  case (distributor_call n s E c s')
  obtain d v t d' v' t' where s: "s = (d, v, t)" "s' = (d', v', t')" by (cases s, cases s')
  show ?case using ds_perform_in_time [of E c d v t d' v' t' n] distributor_call s points_in_time_later by auto
qed

text \<open>
  C14. Claims. In whatever state calls to the escrow and the distributor lead to, a claim pays, for consecutive weeks from
  where the last claim of the NFT has stopped, the part of the tokens of each week that is the power of the NFT in this week
  over the recorded power of all: the loop over points and weeks uses in every week the last point that is not later. The
  claims of an NFT never go back, so that no week is paid to it twice.
\<close>

theorem claims_pay_weekly_shares:
  assumes "ds_run K (new_distributor self p, new_escrow ve q, t0) n (d, v, t)" and "ds_claim E i (d, v, t) = Inr (amount, d', v', t')"
  shows "\<exists>m. amount = (\<Sum>k<m. week_share d' (ve_userPointHistory v' i) (ve_userPointEpoch v' i) (claim_start d v' i + k * WEEK))
      \<and> (0 < m \<longrightarrow> ds_timeCursorOf d' i = claim_start d v' i + m * WEEK)
      \<and> ds_timeCursorOf d i \<le> claim_start d v' i \<and> ds_timeCursorOf d i \<le> ds_timeCursorOf d' i"
  using assms(2)
proof (rule ds_claim_steps)
  fix d1 d2
  assume s: "supply_first E (d, v, t) = Inr (d1, v', t)" and c: "claim_internal i v' (week_of (ds_lastTokenTime d1)) d1 = Inr (amount, d2)"
    and d': "\<exists>b. d' = d2\<lparr>ds_tokenLastBalance := b\<rparr>"
  have "points_in_time n v" "cursors_ok d v" using ds_run_in_time [OF assms(1)] by simp_all
  note p = claim_internal_pays [OF c supply_first_in_time [OF s this]]
  obtain cursor veSupply where d1: "d1 = d\<lparr>ds_veSupply := veSupply, ds_timeCursor := cursor\<rparr>" using supply_first_steps(1) [OF s] by blast
  have eqs: "claim_start d1 v' i = claim_start d v' i" "ds_timeCursorOf d1 = ds_timeCursorOf d" by (simp_all add: d1 claim_start_def claim_epoch_def)
  have "week_share d' = week_share d1" "ds_timeCursorOf d' = ds_timeCursorOf d2" using p d' by (auto simp: week_share_def fun_eq_iff)
  moreover have "ds_timeCursorOf d i \<le> claim_start d v' i" by (simp add: claim_start_def)
  ultimately show ?thesis using p by (simp add: eqs)
qed

section \<open>Samples\<close>

lemmas loops_numeral = spread_weeks.simps(2) [where n = "pred_numeral k" for k, folded numeral_eq_Suc]
  supply_loop.simps(2) [where n = "pred_numeral k" for k, folded numeral_eq_Suc]
  find_ts.simps(2) [where n = "pred_numeral k" for k, folded numeral_eq_Suc]
  claim_loop.simps(2) [where n = "pred_numeral k" for k, folded numeral_eq_Suc]

lemmas run_distributor = ds_checkpoint_def checkpointToken_def checkpointTotalSupply_def ve_checkpoint_def reward_balance_def week_of_def slot_def WEEKS_SIZE_def
  adjustToDistribute_def add_to_week_def findTimestampEpoch_def findTimestampUserEpoch_def adjustVeSupply_def loops_numeral ds_claim_def supply_first_def
  claim_internal_def calculateClaim_def calculateToDistribute_def claim_epoch_def no_claim_def pay_claim_def

definition sample_rewards :: "address \<Rightarrow> address \<Rightarrow> uint" where
  "sample_rewards = (\<lambda>token a. if token = 0 \<and> a = 11 then 1000 else sample_balances token a)"

text \<open>A checkpoint in the first second of the third week, a week after the last one.\<close>

theorem checkpoint_spreads_rewards_witness:
  "\<exists>d' v' t'. ds_checkpoint (sample_ve_env 9 1209600 1) ((new_distributor 11 sample_proxy)\<lparr>ds_lastTokenTime := 604800\<rparr>, new_escrow 10 sample_proxy, sample_rewards)
      = Inr (d', v', t') \<and> 2 * 1000 \<le> week_total 20 604800 (ds_tokensPerWeek d') + 20"
proof -
  let ?E = "sample_ve_env 9 1209600 1" and ?d = "(new_distributor 11 sample_proxy)\<lparr>ds_lastTokenTime := 604800\<rparr>"
  obtain d' v' t' where r: "ds_checkpoint ?E (?d, new_escrow 10 sample_proxy, sample_rewards) = Inr (d', v', t')"
    by (simp add: run_distributor sample_rewards_def sample_defs new_distributor_def new_escrow_def run_checkpoint cong: bind_first)
  have v: "week_of (ds_lastTokenTime ?d) = 604800" "ds_tokensPerWeek ?d = (\<lambda>_. 0)" "reward_balance ?E ?d sample_rewards = 1000" "ds_tokenLastBalance ?d = 0"
      "vn_now ?E = 1209600" "ds_activePeriod ?d = 0" "ds_lastTokenTime ?d = 604800"
    by (simp_all add: week_of_def WEEK_def new_distributor_def reward_balance_def sample_rewards_def sample_defs)
  have "week_total 20 (week_of (ds_lastTokenTime ?d)) (ds_tokensPerWeek ?d) + 2 * 1000 \<le> week_total 20 (week_of (ds_lastTokenTime ?d)) (ds_tokensPerWeek d') + 20"
    by (rule conjunct2 [OF checkpoint_spreads_rewards [OF r]]) (simp_all only: v, simp_all add: WEEK_def week_of_def)
  then have "2 * 1000 \<le> week_total 20 604800 (ds_tokensPerWeek d') + 20" by (simp only: v(1,2))
  then show ?thesis using r by blast
qed

lemma sample_claim:
  "\<exists>s. bind_res (ve_perform (sample_ve_env 9 1 1) (CreateLock 5 (10 ^ 18) 1209600) (sample_escrow, sample_rewards)) (\<lambda>s.
      bind_res (ds_checkpoint (sample_ve_env 9 1209601 3) (new_distributor 11 sample_proxy, s)) (\<lambda>s'.
      ds_claim (sample_ve_env 9 1209601 3) 1 s')) = Inr (499, s)"
  by (simp add: run_setup sample_defs sample_escrow_def sample_rewards_def createLock_def createLockFor_def unlock_time_def MAX_TIME_def run_nft run_deposit run_checkpoint
      run_distributor new_distributor_def cong: bind_first)

theorem claims_pay_weekly_shares_witness:
  "\<exists>d v t d' v' t'. ds_run plain_tokens (new_distributor 11 sample_proxy, new_escrow 10 sample_proxy, sample_rewards) 1209601 (d, v, t)
      \<and> ds_claim (sample_ve_env 9 1209601 3) 1 (d, v, t) = Inr (499, d', v', t')
      \<and> (\<exists>m. 499 = (\<Sum>k<m. week_share d' (ve_userPointHistory v' 1) (ve_userPointEpoch v' 1) (claim_start d v' 1 + k * WEEK)))"
proof -
  let ?s0 = "(new_distributor 11 sample_proxy, new_escrow 10 sample_proxy, sample_rewards)"
  have "ds_run plain_tokens ?s0 (vn_now (sample_ve_env 2 1 1)) (new_distributor 11 sample_proxy, sample_escrow, sample_rewards)"
    by (rule ds_run.escrow_call [OF ds_run.start [where n = 0], where c = "SetAddresses 3 4 5 6"])
      (simp_all add: sample_defs new_escrow_def run_setup sample_escrow_def sample_rewards_def no_point_def)
  then have r0: "ds_run plain_tokens ?s0 1 (new_distributor 11 sample_proxy, sample_escrow, sample_rewards)" by (simp add: sample_ve_env_def)
  obtain v1 t1 d v t d' v' t' where c: "ve_perform (sample_ve_env 9 1 1) (CreateLock 5 (10 ^ 18) 1209600) (sample_escrow, sample_rewards) = Inr (v1, t1)"
      "ds_checkpoint (sample_ve_env 9 1209601 3) (new_distributor 11 sample_proxy, v1, t1) = Inr (d, v, t)"
      "ds_claim (sample_ve_env 9 1209601 3) 1 (d, v, t) = Inr (499, d', v', t')"
    using sample_claim by (simp only: bind_res_eq_Inr) (elim exE conjE, metis prod.collapse)
  have "ds_run plain_tokens ?s0 (vn_now (sample_ve_env 9 1 1)) (new_distributor 11 sample_proxy, v1, t1)"
    by (rule ds_run.escrow_call [OF r0 _ _ _ _ c(1)]) (simp_all add: sample_ve_env_def sample_escrow_def new_escrow_def)
  then have r1: "ds_run plain_tokens ?s0 1 (new_distributor 11 sample_proxy, v1, t1)" by (simp add: sample_ve_env_def)
  have "ds_run plain_tokens ?s0 (vn_now (sample_ve_env 9 1209601 3)) (d, v, t)"
    by (rule ds_run.distributor_call [OF r1, where c = Ds_checkpoint]) (simp_all only: ds_perform.simps c(2), simp_all add: sample_ve_env_def)
  then have r: "ds_run plain_tokens ?s0 1209601 (d, v, t)" by (simp add: sample_ve_env_def)
  from claims_pay_weekly_shares [OF r c(3)]
  have p: "\<exists>m. 499 = (\<Sum>k<m. week_share d' (ve_userPointHistory v' 1) (ve_userPointEpoch v' 1) (claim_start d v' 1 + k * WEEK))"
    by (elim exE conjE) (rule exI)
  show ?thesis
    by (rule exI [of _ d], rule exI [of _ v], rule exI [of _ t], rule exI [of _ d'], rule exI [of _ v'], rule exI [of _ t'], intro conjI) (rule r c(3) p)+
qed

end
