(* ===== verification/Spec2Isabelle.thy ===== *)
theory Spec2Isabelle
  imports Verify_Task Deployment_Run Deployment_Helper Permit_Helper Sorted_Troves Protocol_Tokens Price_Feed Collateral_Pools System_Calls Hint_Helpers Ve_Distributor
begin

text \<open>
  \<^bold>\<open>Shadowy Internet Money: contracts, deployment and verification tooling.\<close>

  The repository holds a lending protocol - borrowers lock the token WSTETH in troves and draw the
  stable token SIM, the token SHADY governs - as Solidity contracts, and the TypeScript around
  them: the scripts that deploy and wire the contracts, the plugin that verifies their source on
  block explorers, the project's configuration, and the helpers and fixtures of the tests. The
  development models all of the TypeScript, the lending protocol itself - troves, pools, oracle, tokens,
  the stability pool, liquidation and redemption - and its governance: the controller with the proxies it upgrades, the
  voting escrow in which SHADY is locked for voting power, and the distributor that pays fees to the locks.

  \<^bold>\<open>Conventions.\<close> \<open>Sim_Prelude\<close> has the types every theory shares. A function that may throw or
  revert gives \<open>Inl\<close> an error or \<open>Inr\<close> its value; an asynchronous one is an \<open>io\<close> computation over a
  state, in which \<open>None\<close> stands for a computation that never settles. Loops that need not end
  (polling an explorer, walking the links of a list) are partial functions into \<open>option\<close>, and the
  theorems say when they return; there is no fuel. The loops of the escrow and the distributor that the sources bound by a
  constant (20, 50, 128, 255 rounds) count down from this constant. Packages that are not in the repository
  (Hardhat, hardhat-deploy, ethers, undici, semver, cbor, OpenZeppelin, the ERC20 tokens) are
  records of functions that the definitions take as arguments; a theorem that relies on one of them
  states its documented behaviour as a hypothesis, and its witness instantiates it.

  \<^bold>\<open>The verification plugin\<close> (\<open>src/scripts/hardhat-verify\<close>).
  \<^item> \<open>Js_Runtime\<close>: what the sources use of JavaScript and Node - slices, hexadecimal, buffers,
    JSON, \<open>URLSearchParams\<close>.
  \<^item> \<open>Verify_Errors\<close> (\<open>errors.ts\<close>): the exceptions and their messages.
  \<^item> \<open>Chain_Config\<close> (\<open>chain-config.ts\<close>, \<open>types.ts\<close>, \<open>config.ts\<close>, \<open>task-names.ts\<close>): the table of
    chains and the precedence of custom chains.
  \<^item> \<open>Solc_Bytecode\<close> and \<open>Solc_Artifacts\<close> (\<open>solc/*.ts\<close>): the metadata at the end of bytecode, the
    comparison that masks link references, immutables and the address of a library, the inference of
    the contract and of its libraries. The theorems characterise the comparison, the merge of libraries
    and the unique match, and show that detection inverts linking.
  \<^item> \<open>Verify_Utilities\<close> (\<open>utilities.ts\<close>, \<open>abi-validation-extras.ts\<close>), \<open>Etherscan_Client\<close>
    (\<open>etherscan.ts\<close>, \<open>undici.ts\<close>): requests that decode to their parameters, and the polling loop
    with the exact condition under which it does not return.
  \<^item> \<open>Verify_Task\<close> (\<open>verify1-task.ts\<close>, \<open>VerifyUtils.ts\<close>, \<open>verify.ts\<close>): the tasks. A task that
    returns has not hidden a failure, what is submitted matches the deployed code, and lemmas show that the task settles
    when the polling does and that the script around it swallows errors.

  \<^bold>\<open>Configuration, deployment and fixtures.\<close>
  \<^item> \<open>Hardhat_Config\<close> (\<open>hardhat.config.ts\<close>): networks, keys, named accounts.
  \<^item> \<open>Chain_Api\<close>: the interface of ethers and of the node; \<open>Test_Helper\<close> (\<open>utils/TestHelper.ts\<close>,
    \<open>utils/types.ts\<close>): amounts, troves, reverts, events and time.
  \<^item> \<open>Deploy_Scripts\<close> (\<open>deploy/*.ts\<close>) and \<open>Deployment_Run\<close>: the scripts and their run on an empty
    chain. The initialising functions of the contracts are lists of parameter names read off the
    Solidity sources, and the theorem says that the run binds each parameter to the contract its
    name stands for.
  \<^item> \<open>Deployment_Helper\<close> (\<open>utils/DeploymentHelper.ts\<close>): the fixture makes the same connections.
  \<^item> \<open>Permit_Helper\<close> (\<open>utils/PermitHelper.ts\<close>): what the digest of a permit commits to.

  \<^bold>\<open>The contracts\<close> (\<open>src/contracts\<close>). \<open>Evm_Base\<close> has the checked arithmetic of Solidity 0.8 on
  natural numbers below \<open>2 ^ 256\<close>, \<open>require\<close> and the interface of a token.
  \<^item> \<open>Liquity_Math\<close> (\<open>LiquityMath.sol\<close>, \<open>Base.sol\<close>): ratios and the power by squaring, with a bound
    on its rounding error.
  \<^item> \<open>Sorted_Troves\<close> (\<open>SortedTroves.sol\<close>): the list, the search from two hints and the relinking. The
    locale \<open>sorted_container\<close> is the interface the other contracts rely on, and the list refines
    insertion into a sorted sequence: whatever the hints, the insertion returns.
  \<^item> \<open>Issuance\<close> (\<open>dependencies/Issuance.sol\<close>): the issuance of SHADY over time, its reserve, and
    that it does not revert.
  \<^item> \<open>Protocol_Tokens\<close> (\<open>SHADYToken.sol\<close>, \<open>SIMToken.sol\<close>, \<open>LockupContract.sol\<close>,
    \<open>LockupContractFactory.sol\<close>): the tokens over OpenZeppelin's contracts as a parameter. The share of
    the multisig stays locked for a year, whatever is called, and the token funds the issuance.
  \<^item> \<open>Price_Feed\<close> (\<open>PriceFeed.sol\<close>): the state machine over two oracles. It follows a table; a price comes
    from a live oracle or is the last good one, a fetch does not revert, and the theorem on units
    shows a defect: the price that is returned and the one that is recorded differ by the rate.
  \<^item> \<open>Collateral_Pools\<close> (\<open>ActivePool.sol\<close>, \<open>DefaultPool.sol\<close>, \<open>CollSurplusPool.sol\<close>, the collateral
    tracker of \<open>StabilityPool.sol\<close>): no pool records more collateral than it has.
  \<^item> \<open>Trove_Manager\<close> (\<open>TroveManager.sol\<close>): the troves, stakes, pending rewards, the array of owners and
    the base rate. \<open>Borrower_Operations\<close> (\<open>BorrowerOperations.sol\<close>): opening, adjusting and closing a
    trove, with every guard. \<open>Trove_Books\<close>: what these do to the entries of the troves and the records
    of the active pool, which move together. Where \<open>getNominalICR\<close> would revert on a product beyond
    256 bits, the key of the sorted list is taken to be 0.
  \<^item> \<open>Stability_Pool\<close> and \<open>Stability_Operations\<close> (\<open>StabilityPool.sol\<close>): the product P, the sums S and G
    by epoch and scale, deposits, gains and the offset of a liquidation. The compounded deposits
    exceed the SIM of the pool by at most the \<open>10 ^ 18\<close>th part of the largest total it has held, and a second
    theorem shows a state in which they do exceed it.
  \<^item> \<open>Liquidation\<close> (\<open>TroveManager.sol\<close>): the two modes, the sequences and the batches, the split of the
    collateral and the redistribution. \<open>Redemption\<close>: the walk over the list, partial redemption with hints,
    the fee and the base rate.
  \<^item> \<open>System_Calls\<close>: the calls anyone can make, in any order. Each of them ends, in a value or a revert, and
    the active pool records the collateral and debt of the troves after every sequence of them.
  \<^item> \<open>Hint_Helpers\<close> (\<open>HintHelpers.sol\<close>, \<open>MultiTroveGetter.sol\<close>): the views for front ends. A redemption of the
    amount that the helper reports, with its hints, redeems all of it.

  \<^bold>\<open>Governance and voting\<close> (\<open>src/contracts\<close>).
  \<^item> \<open>Governance\<close> (\<open>Controller.sol\<close>, \<open>ProxyControlled.sol\<close>, \<open>dependencies/ControllableV3.sol\<close>,
    \<open>UpgradeableProxy.sol\<close>, \<open>TetuERC165.sol\<close>): the controller and the storage of the proxies; the code behind a proxy
    is a parameter. Upgrades and a new governance come from the governance and wait for two days after their announcement.
  \<^item> \<open>Voting_Escrow\<close> (\<open>Ve.sol\<close>, \<open>FixedPointMathLib.sol\<close>): the definitions, with the checked arithmetic of
    128-bit integers, the checkpoint cut at the blocks of its source. \<open>ve_perform\<close> is any call to the contract.
  \<^item> \<open>Escrow_Ownership\<close>: which parts of the state an operation leaves alone, the lists of owners as enumerations of
    their tokens, and who may empty a lock.
  \<^item> \<open>Escrow_Locks\<close>: the locale \<open>lock_invariant\<close> has the laws that an invariant of the locks needs - one per kind of
    change of a lock - and derives that every call and every run keeps it. Its interpretations are \<open>funds\<close> (the contract
    holds what is locked), \<open>growth\<close> (points are only added) and \<open>power\<close> (the last point of a token is that of its lock).
  \<^item> \<open>Escrow_Supply\<close>: the interpretation \<open>totals\<close>: the last point and the scheduled slope changes are the sums over all
    locks, so that the total voting power is the sum of all powers. The run is attended: there is a checkpoint in every 255
    weeks, the bound of the loop in the source, beyond which its comment says that the weights break.
  \<^item> \<open>Ve_Distributor\<close> (\<open>VeDistributor.sol\<close>): what comes in is spread over the weeks, once, or twice in the first
    second of a week, and a claim pays the share of consecutive weeks, none of them twice.

  \<^bold>\<open>Not modelled.\<close> Console output, events and gas. The tests, the mocks and the interfaces, which hold no
  code of the protocol. The picture that \<open>tokenURI\<close> of \<open>Ve.sol\<close> returns, with \<open>StringLib.sol\<close>, \<open>Base64.sol\<close> and
  \<open>VeLogo.sol\<close>. Tokens and receivers of voting tokens are taken not to call back into the contract that calls them.
\<close>

end
